(* ===== verification/Prelude.thy ===== *)
theory Prelude
  imports Main "HOL-Library.Word" "HOL-Library.AList"
begin

unbundle bit_operations_syntax

text \<open>
  Shared vocabulary of the development: the fixed-width integer types of the C sources
  (\<^verbatim>\<open>u8\<close> .. \<^verbatim>\<open>u64\<close>), little-endian byte images of words, reads of a byte-addressed
  partial memory, association lists as the kernel's hash maps, and the collections of
  facts (\<open>frame\<close>, \<open>emit_rules\<close>) the component theories add to.
\<close>

type_synonym u8 = "8 word"
type_synonym u16 = "16 word"
type_synonym u32 = "32 word"
type_synonym u64 = "64 word"

named_theorems frame \<open>which parts of the state an operation leaves alone\<close>
named_theorems emit_rules \<open>what an operation appends to the event log\<close>

section \<open>Little-endian images of words\<close>

text \<open>
  The object is built with \<^verbatim>\<open>-target bpfel\<close>: an integer of \<open>n\<close> bytes is stored
  least significant byte first.
\<close>

definition le_bytes :: "nat \<Rightarrow> 'a::len word \<Rightarrow> u8 list" where
  "le_bytes n w = map (\<lambda>i. ucast (drop_bit (8 * i) w)) [0..<n]"

fun le_word :: "u8 list \<Rightarrow> 'a::len word" where
  "le_word [] = 0"
| "le_word (b # bs) = ucast b OR push_bit 8 (le_word bs)"

lemma length_le_bytes [simp]: "length (le_bytes n w) = n"
  by (simp add: le_bytes_def)

lemma le_bytes_eq_Nil [simp]: "le_bytes n w = [] \<longleftrightarrow> n = 0"
  by (simp add: le_bytes_def)

lemma nth_le_bytes [simp]: "i < n \<Longrightarrow> le_bytes n w ! i = ucast (drop_bit (8 * i) w)"
  by (simp add: le_bytes_def)

lemma bit_le_word:
  "bit (le_word bs :: 'a::len word) k \<longleftrightarrow>
     k < LENGTH('a) \<and> k div 8 < length bs \<and> bit (bs ! (k div 8)) (k mod 8)"
proof (induction bs arbitrary: k)
  case Nil
  then show ?case by simp
next
  case (Cons b bs)
  show ?case
  proof (cases "k < 8")
    case True
    then show ?thesis by (auto simp: bit_simps)
  next
    case False
    then have "k div 8 = Suc ((k - 8) div 8)" and "k mod 8 = (k - 8) mod 8"
      by (simp_all add: div_if mod_if)
    with False show ?thesis by (auto simp: bit_simps Cons.IH dest: bit_imp_le_length)
  qed
qed

lemma le_word_le_bytes:
  fixes w :: "'a::len word"
  assumes "LENGTH('a) \<le> 8 * n"
  shows "le_word (le_bytes n w) = w"
proof (rule bit_word_eqI)
  fix k assume k: "k < LENGTH('a)"
  with assms have "k div 8 < n" by simp
  then show "bit (le_word (le_bytes n w) :: 'a word) k = bit w k"
    using k by (simp add: bit_le_word bit_simps)
qed

lemma le_word_u16 [simp]: "le_word (le_bytes 2 (w :: u16)) = w"
  by (rule le_word_le_bytes) simp

lemma le_word_u32 [simp]: "le_word (le_bytes 4 (w :: u32)) = w"
  by (rule le_word_le_bytes) simp

lemma le_word_u64 [simp]: "le_word (le_bytes 8 (w :: u64)) = w"
  by (rule le_word_le_bytes) simp

lemma le_bytes_le_word:
  assumes "length bs = n" and "8 * n \<le> LENGTH('a)"
  shows "le_bytes n (le_word bs :: 'a::len word) = bs"
proof (rule nth_equalityI)
  show "length (le_bytes n (le_word bs :: 'a word)) = length bs"
    using assms by simp
next
  fix i assume i: "i < length (le_bytes n (le_word bs :: 'a word))"
  then have "i < n" by simp
  show "le_bytes n (le_word bs :: 'a word) ! i = bs ! i"
  proof (rule bit_word_eqI)
    fix k assume "k < LENGTH(8)"
    then have k: "k < 8" by simp
    with \<open>i < n\<close> assms have "8 * i + k < LENGTH('a)" by linarith
    moreover have "(8 * i + k) div 8 = i" and "(8 * i + k) mod 8 = k"
      using k by simp_all
    ultimately show "bit (le_bytes n (le_word bs :: 'a word) ! i) k = bit (bs ! i) k"
      using \<open>i < n\<close> assms k by (simp add: bit_simps bit_le_word)
  qed
qed

section \<open>Byte-addressed partial memory\<close>

text \<open>
  \<open>read_bytes m a n\<close> is a fault-free copy of \<open>n\<close> bytes from address \<open>a\<close>: it fails as
  soon as one of the bytes is not there. Addresses wrap at 64 bits as C pointers do.
\<close>

fun read_bytes :: "(u64 \<Rightarrow> u8 option) \<Rightarrow> u64 \<Rightarrow> nat \<Rightarrow> u8 list option" where
  "read_bytes m a 0 = Some []"
| "read_bytes m a (Suc n) =
     (case m a of None \<Rightarrow> None
      | Some b \<Rightarrow> map_option (Cons b) (read_bytes m (a + 1) n))"

lemma read_bytes_length: "read_bytes m a n = Some bs \<Longrightarrow> length bs = n"
  by (induction n arbitrary: a bs) (auto split: option.splits)

lemma read_bytes_nth:
  "read_bytes m a n = Some bs \<Longrightarrow> i < n \<Longrightarrow> m (a + of_nat i) = Some (bs ! i)"
proof (induction n arbitrary: a bs i)
  case 0
  then show ?case by simp
next
  case (Suc n)
  then obtain b bs' where m: "m a = Some b" and r: "read_bytes m (a + 1) n = Some bs'"
    and bs: "bs = b # bs'"
    by (auto split: option.splits)
  show ?case
  proof (cases i)
    case 0
    with m bs show ?thesis by simp
  next
    case (Suc j)
    with Suc.prems have "m (a + 1 + of_nat j) = Some (bs' ! j)"
      by (intro Suc.IH [OF r]) simp
    with Suc bs show ?thesis by (simp add: algebra_simps)
  qed
qed

lemma read_bytes_Some_iff:
  "(\<exists>bs. read_bytes m a n = Some bs) \<longleftrightarrow> (\<forall>i<n. m (a + of_nat i) \<noteq> None)"
proof (induction n arbitrary: a)
  case 0
  then show ?case by simp
next
  case (Suc n)
  have "(\<forall>i<Suc n. m (a + of_nat i) \<noteq> None) \<longleftrightarrow>
      m a \<noteq> None \<and> (\<forall>i<n. m (a + 1 + of_nat i) \<noteq> None)"
    by (simp add: All_less_Suc2 add.assoc)
  with Suc [of "a + 1"] show ?case
    by (auto split: option.splits)
qed

lemma read_bytes_split:
  "read_bytes m a (j + k) =
     (case read_bytes m a j of None \<Rightarrow> None
      | Some xs \<Rightarrow> map_option ((@) xs) (read_bytes m (a + of_nat j) k))"
proof (induction j arbitrary: a)
  case 0
  then show ?case by (simp add: option.map_id0 [unfolded id_def] cong: option.map_cong)
next
  case (Suc j)
  have step: "read_bytes m (a + 1) (j + k) =
      (case read_bytes m (a + 1) j of None \<Rightarrow> None
       | Some xs \<Rightarrow> map_option ((@) xs) (read_bytes m (a + of_nat (Suc j)) k))"
    using Suc [of "a + 1"] by (simp only: of_nat_Suc add.assoc)
  have "map_option (\<lambda>x. b # xs @ x) r = map_option ((@) (b # xs)) r" for b :: u8 and xs r
    by (rule option.map_cong) simp_all
  with step show ?case
    by (auto simp: option.map_comp comp_def split: option.splits)
qed

lemma read_bytes_append:
  "read_bytes m a j = Some xs \<Longrightarrow> read_bytes m (a + of_nat j) k = Some ys \<Longrightarrow>
     read_bytes m a (j + k) = Some (xs @ ys)"
  by (simp add: read_bytes_split)

lemma read_bytes_take_drop:
  assumes "read_bytes m a n = Some bs" and "j + k \<le> n"
  shows "read_bytes m (a + of_nat j) k = Some (take k (drop j bs))"
proof -
  from assms(2) obtain r where n: "n = j + (k + r)"
    by (metis le_add_diff_inverse add.assoc)
  with assms(1) obtain xs ys where x: "read_bytes m a j = Some xs"
    and y: "read_bytes m (a + of_nat j) (k + r) = Some ys" and bs: "bs = xs @ ys"
    by (auto simp: read_bytes_split [of m a j] split: option.splits)
  from y obtain zs ws where z: "read_bytes m (a + of_nat j) k = Some zs" and ys: "ys = zs @ ws"
    by (auto simp: read_bytes_split [of m _ k] split: option.splits)
  from read_bytes_length [OF x] read_bytes_length [OF z] bs ys z show ?thesis
    by simp
qed

section \<open>NUL-terminated reads\<close>

text \<open>
  \<open>read_cstr m a n\<close>: the bytes before the first NUL, at most \<open>n\<close> of them.
\<close>

fun read_cstr :: "(u64 \<Rightarrow> u8 option) \<Rightarrow> u64 \<Rightarrow> nat \<Rightarrow> u8 list option" where
  "read_cstr m a 0 = Some []"
| "read_cstr m a (Suc n) =
     (case m a of None \<Rightarrow> None
      | Some b \<Rightarrow> if b = 0 then Some []
          else map_option (Cons b) (read_cstr m (a + 1) n))"

lemma read_cstr_length: "read_cstr m a n = Some bs \<Longrightarrow> length bs \<le> n"
  by (induction n arbitrary: a bs) (auto split: option.splits if_splits)

lemma read_cstr_no_nul: "read_cstr m a n = Some bs \<Longrightarrow> 0 \<notin> set bs"
  by (induction n arbitrary: a bs) (auto split: option.splits if_splits)

section \<open>Association lists as hash maps\<close>

text \<open>
  A BPF hash map is an association list with distinct keys. \<open>hash_update\<close> is
  \<^verbatim>\<open>bpf_map_update_elem\<close> with \<^verbatim>\<open>BPF_ANY\<close> on a map of \<open>cap\<close> entries: a new key is refused
  when the map is full (the helper's error return, which the program ignores).
\<close>

definition hash_update :: "nat \<Rightarrow> 'k \<Rightarrow> 'v \<Rightarrow> ('k \<times> 'v) list \<Rightarrow> ('k \<times> 'v) list" where
  "hash_update cap k v m =
     (if map_of m k \<noteq> None \<or> length m < cap then AList.update k v m else m)"

definition hash_ok :: "nat \<Rightarrow> ('k \<times> 'v) list \<Rightarrow> bool" where
  "hash_ok cap m \<longleftrightarrow> length m \<le> cap \<and> distinct (map fst m)"

lemma length_update_in: "map_of m k \<noteq> None \<Longrightarrow> length (AList.update k v m) = length m"
  by (induction m) (auto split: if_splits)

lemma length_update_new: "map_of m k = None \<Longrightarrow> length (AList.update k v m) = Suc (length m)"
  by (induction m) (auto split: if_splits)

lemma hash_ok_update: "hash_ok cap m \<Longrightarrow> hash_ok cap (hash_update cap k v m)"
  by (cases "map_of m k = None")
    (auto simp: hash_ok_def hash_update_def length_update_in length_update_new distinct_update)

lemma length_delete_le: "length (AList.delete k m) \<le> length m"
  by (simp add: AList.delete_eq)

lemma hash_ok_delete: "hash_ok cap m \<Longrightarrow> hash_ok cap (AList.delete k m)"
  using length_delete_le [of k m]
  by (auto simp: hash_ok_def intro: distinct_delete order_trans)

lemma hash_ok_Nil [simp]: "hash_ok cap []"
  by (simp add: hash_ok_def)

lemma map_of_delete_self [simp]: "map_of (AList.delete k m) k = None"
  by (simp add: delete_conv')

lemma map_of_delete_other: "k \<noteq> k' \<Longrightarrow> map_of (AList.delete k m) k' = map_of m k'"
  by (simp add: delete_conv')

lemma set_delete_subset: "set (AList.delete k m) \<subseteq> set m"
  by (auto simp: AList.delete_eq)

lemma set_update_subset: "set (AList.update k v m) \<subseteq> insert (k, v) (set m)"
  by (induction m) (auto split: if_splits)

lemma set_hash_update: "set (hash_update cap k v m) \<subseteq> insert (k, v) (set m)"
  using set_update_subset [of k v m] by (auto simp: hash_update_def)

lemma hash_update_lookup:
  "hash_update cap k v m = m' \<Longrightarrow> map_of m k \<noteq> None \<or> length m < cap \<Longrightarrow> map_of m' k = Some v"
  by (auto simp: hash_update_def update_conv')

lemma hash_update_other: "k \<noteq> k' \<Longrightarrow> map_of (hash_update cap k v m) k' = map_of m k'"
  by (simp add: hash_update_def update_conv')

lemma map_of_set: "map_of m k = Some v \<Longrightarrow> (k, v) \<in> set m"
  by (rule map_of_SomeD)

section \<open>Words and bounds\<close>

lemma unat_minus_le: "a \<le> b \<Longrightarrow> unat (b - a) = unat b - unat a" for a b :: "'a::len word"
  by (rule unat_sub)

lemma unat_u32_of_nat: "n < 2 ^ 32 \<Longrightarrow> unat (of_nat n :: u32) = n"
  by (simp add: unat_of_nat take_bit_nat_eq_self)

lemma u32_add_no_wrap:
  "a < size \<Longrightarrow> b \<le> size - a \<Longrightarrow> unat (a + b) = unat a + unat b \<and> a + b \<le> size"
  for a b size :: u32
proof -
  assume "a < size" and b: "b \<le> size - a"
  note b
  moreover from \<open>a < size\<close> have "unat (size - a) = unat size - unat a"
    by (intro unat_minus_le order_less_imp_le)
  ultimately have "unat b \<le> unat size - unat a"
    by (simp add: word_le_nat_alt)
  moreover have "unat a < unat size" using \<open>a < size\<close> by (simp add: word_less_nat_alt)
  ultimately have le: "unat a + unat b \<le> unat size" by simp
  moreover have "unat size < 2 ^ LENGTH(32)" by (rule unsigned_less)
  ultimately have "unat a + unat b < 2 ^ LENGTH(32)" by simp
  then have "unat (a + b) = unat a + unat b" by (rule unat_add_lem [THEN iffD1])
  with le show ?thesis by (simp add: word_le_nat_alt)
qed

end
