(* ===== verification/Dex_Format.thy ===== *)
theory Dex_Format
  imports Prelude
begin

text \<open>
  The part of \<^verbatim>\<open>src/dex.rs\<close> the capture path needs: bounds-checked slices, the little-endian
  readers of \<^verbatim>\<open>src/dump.rs\<close>, the DEX header (\<^verbatim>\<open>DexHeader::parse\<close>) and the acceptance test
  of \<^verbatim>\<open>DexParser::new\<close>, with Rust's \<^verbatim>\<open>Result\<close> as a sum.
\<close>

text \<open>\<^verbatim>\<open>data.get(a..b)\<close> on a slice.\<close>

definition slice_get :: "'a list \<Rightarrow> nat \<Rightarrow> nat \<Rightarrow> 'a list option" where
  "slice_get xs a b = (if a \<le> b \<and> b \<le> length xs then Some (take (b - a) (drop a xs)) else None)"

definition le32 :: "u8 list \<Rightarrow> nat \<Rightarrow> u32 option" where
  "le32 xs off = map_option le_word (slice_get xs off (off + 4))"

definition le64 :: "u8 list \<Rightarrow> nat \<Rightarrow> u64 option" where
  "le64 xs off = map_option le_word (slice_get xs off (off + 8))"

datatype dex_error = TooSmall | InvalidMagic u32 | CompactDex | OutOfBounds string
  | IndexOutOfBounds string u32 | InvalidUleb128

definition DEX_FILE_MAGIC :: u32 where "DEX_FILE_MAGIC = 0x0a786564"
definition COMPACT_DEX_FILE_MAGIC :: u32 where "COMPACT_DEX_FILE_MAGIC = 0x78656463"
definition DEX_HEADER_LEN :: nat where "DEX_HEADER_LEN = 0x70"

record dex_header =
  dh_magic :: "u8 list"
  dh_checksum :: u32
  dh_signature :: "u8 list"
  dh_file_size :: u32
  dh_header_size :: u32
  dh_endian_tag :: u32
  dh_link_size :: u32
  dh_link_off :: u32
  dh_map_off :: u32
  dh_string_ids_size :: u32
  dh_string_ids_off :: u32
  dh_type_ids_size :: u32
  dh_type_ids_off :: u32
  dh_proto_ids_size :: u32
  dh_proto_ids_off :: u32
  dh_field_ids_size :: u32
  dh_field_ids_off :: u32
  dh_method_ids_size :: u32
  dh_method_ids_off :: u32
  dh_class_defs_size :: u32
  dh_class_defs_off :: u32
  dh_data_size :: u32
  dh_data_off :: u32

text \<open>The header fields are read inside a slice of 0x70 bytes, so no read can fail.\<close>

definition hdr_le32 :: "u8 list \<Rightarrow> nat \<Rightarrow> u32" where
  "hdr_le32 xs off = le_word (take 4 (drop off xs))"

definition parse_dex_header :: "u8 list \<Rightarrow> dex_error + dex_header" where
  "parse_dex_header input =
     (case slice_get input 0 DEX_HEADER_LEN of
        None \<Rightarrow> Inl TooSmall
      | Some xs \<Rightarrow> Inr \<lparr>
          dh_magic = take 8 xs, dh_checksum = hdr_le32 xs 8, dh_signature = take 20 (drop 12 xs),
          dh_file_size = hdr_le32 xs 32, dh_header_size = hdr_le32 xs 36,
          dh_endian_tag = hdr_le32 xs 40, dh_link_size = hdr_le32 xs 44,
          dh_link_off = hdr_le32 xs 48, dh_map_off = hdr_le32 xs 52,
          dh_string_ids_size = hdr_le32 xs 56, dh_string_ids_off = hdr_le32 xs 60,
          dh_type_ids_size = hdr_le32 xs 64, dh_type_ids_off = hdr_le32 xs 68,
          dh_proto_ids_size = hdr_le32 xs 72, dh_proto_ids_off = hdr_le32 xs 76,
          dh_field_ids_size = hdr_le32 xs 80, dh_field_ids_off = hdr_le32 xs 84,
          dh_method_ids_size = hdr_le32 xs 88, dh_method_ids_off = hdr_le32 xs 92,
          dh_class_defs_size = hdr_le32 xs 96, dh_class_defs_off = hdr_le32 xs 100,
          dh_data_size = hdr_le32 xs 104, dh_data_off = hdr_le32 xs 108 \<rparr>)"

definition dex_parser_new :: "u8 list \<Rightarrow> dex_error + dex_header" where
  "dex_parser_new input =
     (case parse_dex_header input of
        Inl err \<Rightarrow> Inl err
      | Inr header \<Rightarrow>
          let magic = le_word (take 4 (dh_magic header))
          in if magic = COMPACT_DEX_FILE_MAGIC then Inl CompactDex
             else if magic \<noteq> DEX_FILE_MAGIC then Inl (InvalidMagic magic)
             else Inr header)"

definition dex_accepted :: "u8 list \<Rightarrow> bool" where
  "dex_accepted input \<longleftrightarrow> (case dex_parser_new input of Inl _ \<Rightarrow> False | Inr _ \<Rightarrow> True)"

lemma dex_accepted_iff:
  "dex_accepted xs \<longleftrightarrow> 112 \<le> length xs \<and> le_word (take 4 xs) = DEX_FILE_MAGIC"
  by (auto simp: dex_accepted_def dex_parser_new_def parse_dex_header_def slice_get_def
      DEX_HEADER_LEN_def DEX_FILE_MAGIC_def COMPACT_DEX_FILE_MAGIC_def Let_def
      split: if_splits)

lemma slice_get_append1:
  "b \<le> length xs \<Longrightarrow> slice_get (xs @ ys) a b = slice_get xs a b"
  by (auto simp: slice_get_def)

lemma slice_get_append2:
  "length xs \<le> a \<Longrightarrow> a \<le> b \<Longrightarrow> slice_get (xs @ ys) a b = slice_get ys (a - length xs) (b - length xs)"
  by (auto simp: slice_get_def)

lemma slice_get_all: "slice_get xs 0 (length xs) = Some xs"
  by (simp add: slice_get_def)

lemma le32_at [simp]:
  "length xs = off \<Longrightarrow> le32 (xs @ le_bytes 4 w @ ys) off = Some w"
  by (simp add: le32_def slice_get_def)

lemma le64_at [simp]:
  "length xs = off \<Longrightarrow> le64 (xs @ le_bytes 8 w @ ys) off = Some w"
  by (simp add: le64_def slice_get_def)

lemma le32_skip:
  "length xs \<le> off \<Longrightarrow> le32 (xs @ ys) off = le32 ys (off - length xs)"
  by (simp add: le32_def slice_get_append2)

lemma le64_skip:
  "length xs \<le> off \<Longrightarrow> le64 (xs @ ys) off = le64 ys (off - length xs)"
  by (simp add: le64_def slice_get_append2)

lemma le32_here [simp]: "le32 (le_bytes 4 w @ ys) 0 = Some w" "le32 (le_bytes 4 w) 0 = Some w"
  using le32_at [of "[]" 0 w ys] le32_at [of "[]" 0 w "[]"] by simp_all

lemma le64_here [simp]: "le64 (le_bytes 8 w @ ys) 0 = Some w" "le64 (le_bytes 8 w) 0 = Some w"
  using le64_at [of "[]" 0 w ys] le64_at [of "[]" 0 w "[]"] by simp_all

end
