(* ===== verification/Rust_Std.thy ===== *)
theory Rust_Std
  imports Dex_Format
begin

text \<open>
  What the user-space code uses of Rust's standard library: \<^verbatim>\<open>Result\<close> as a sum with
  \<^verbatim>\<open>and_then\<close> and \<^verbatim>\<open>ok_or\<close>, checked and saturating arithmetic on \<^verbatim>\<open>u32\<close> and \<^verbatim>\<open>usize\<close>,
  \<^verbatim>\<open>char::from_u32\<close>, and \<^verbatim>\<open>String\<close> as the list of its code points, with its UTF-8 bytes
  where the code asks for the length or the bytes of a string.
\<close>

section \<open>Result\<close>

definition and_then :: "'e + 'a \<Rightarrow> ('a \<Rightarrow> 'e + 'b) \<Rightarrow> 'e + 'b" where
  "and_then r f = (case r of Inl err \<Rightarrow> Inl err | Inr x \<Rightarrow> f x)"

definition ok_or :: "'e \<Rightarrow> 'a option \<Rightarrow> 'e + 'a" where
  "ok_or err x = (case x of None \<Rightarrow> Inl err | Some y \<Rightarrow> Inr y)"

definition is_ok :: "'e + 'a \<Rightarrow> bool" where
  "is_ok r = (case r of Inl _ \<Rightarrow> False | Inr _ \<Rightarrow> True)"

lemma and_then_simps [simp]:
  "and_then (Inl err) f = Inl err" "and_then (Inr x) f = f x"
  by (simp_all add: and_then_def)

lemma ok_or_simps [simp]: "ok_or err None = Inl err" "ok_or err (Some y) = Inr y"
  by (simp_all add: ok_or_def)

lemma is_ok_simps [simp]: "\<not> is_ok (Inl err)" "is_ok (Inr x)"
  by (simp_all add: is_ok_def)

lemma ok_or_Inr: "ok_or err x = Inr y \<longleftrightarrow> x = Some y"
  by (cases x) simp_all

lemma and_then_Inr: "and_then r f = Inr y \<longleftrightarrow> (\<exists>x. r = Inr x \<and> f x = Inr y)"
  by (cases r) auto

lemma and_then_cong [fundef_cong]:
  "r = r' \<Longrightarrow> (\<And>x. r' = Inr x \<Longrightarrow> f x = g x) \<Longrightarrow> and_then r f = and_then r' g"
  by (cases r') auto

section \<open>Arithmetic\<close>

definition checked_u32_add :: "u32 \<Rightarrow> u32 \<Rightarrow> u32 option" where
  "checked_u32_add a b = (if unat a + unat b < 2 ^ 32 then Some (a + b) else None)"

definition saturating_mul_u32 :: "u32 \<Rightarrow> u32 \<Rightarrow> u32" where
  "saturating_mul_u32 a b = (if unat a * unat b < 2 ^ 32 then a * b else 0xffffffff)"

definition checked_usize_add :: "nat \<Rightarrow> nat \<Rightarrow> nat option" where
  "checked_usize_add a b = (if a + b < 2 ^ 64 then Some (a + b) else None)"

lemma unat_add_small: "unat a + unat b < 2 ^ 32 \<Longrightarrow> unat (a + b) = unat a + unat b"
  for a b :: u32
  by (simp add: unat_word_ariths)

lemma unat_mult_small: "unat a * unat b < 2 ^ 32 \<Longrightarrow> unat (a * b) = unat a * unat b"
  for a b :: u32
  by (simp add: unat_word_ariths)

text \<open>
  The position of entry \<open>idx\<close> in a table of \<open>k\<close>-byte entries, as every look-up computes it:
  the sum in \<^verbatim>\<open>u32\<close> is the mathematical one whenever that fits 32 bits.
\<close>

lemma table_offset:
  assumes "unat off + unat idx * unat k < 2 ^ 32"
  shows "checked_u32_add off (saturating_mul_u32 idx k) = Some (off + idx * k)"
    and "unat (off + idx * k) = unat off + unat idx * unat k"
proof -
  have m: "unat (idx * k) = unat idx * unat k"
    using assms by (intro unat_mult_small) simp
  with assms show "checked_u32_add off (saturating_mul_u32 idx k) = Some (off + idx * k)"
    by (simp add: checked_u32_add_def saturating_mul_u32_def)
  show "unat (off + idx * k) = unat off + unat idx * unat k"
    using assms m by (metis unat_add_small)
qed

section \<open>Characters and strings\<close>

type_synonym rust_string = "u32 list"

text \<open>\<^verbatim>\<open>char::from_u32\<close>: a code point that is not a surrogate and at most 0x10FFFF.\<close>

definition char_from_u32 :: "u32 \<Rightarrow> u32 option" where
  "char_from_u32 c = (if c < 0xD800 \<or> (0xDFFF < c \<and> c < 0x110000) then Some c else None)"

definition scalar :: "u32 \<Rightarrow> bool" where
  "scalar c \<longleftrightarrow> c < 0xD800 \<or> (0xDFFF < c \<and> c < 0x110000)"

lemma char_from_u32_scalar: "char_from_u32 c = (if scalar c then Some c else None)"
  by (simp add: char_from_u32_def scalar_def)

definition REPLACEMENT :: u32 where "REPLACEMENT = 0xFFFD"

lemma scalar_REPLACEMENT [simp]: "scalar REPLACEMENT"
  by (simp add: scalar_def REPLACEMENT_def)

definition str_lit :: "string \<Rightarrow> rust_string" where
  "str_lit s = map (\<lambda>c. of_nat (of_char c)) s"

lemma str_lit_simps [simp]:
  "str_lit [] = []" "str_lit (c # s) = of_nat (of_char c) # str_lit s"
  "str_lit (s @ t) = str_lit s @ str_lit t"
  by (simp_all add: str_lit_def)

text \<open>The UTF-8 encoding a \<^verbatim>\<open>String\<close> holds its characters in.\<close>

definition utf8_char :: "u32 \<Rightarrow> u8 list" where
  "utf8_char c =
     (if c < 0x80 then [ucast c]
      else if c < 0x800 then [0xC0 OR ucast (drop_bit 6 c), 0x80 OR ucast (c AND 0x3F)]
      else if c < 0x10000 then
        [0xE0 OR ucast (drop_bit 12 c), 0x80 OR ucast (drop_bit 6 c AND 0x3F),
         0x80 OR ucast (c AND 0x3F)]
      else
        [0xF0 OR ucast (drop_bit 18 c), 0x80 OR ucast (drop_bit 12 c AND 0x3F),
         0x80 OR ucast (drop_bit 6 c AND 0x3F), 0x80 OR ucast (c AND 0x3F)])"

definition utf8_bytes :: "rust_string \<Rightarrow> u8 list" where
  "utf8_bytes s = concat (map utf8_char s)"

definition ascii :: "rust_string \<Rightarrow> bool" where
  "ascii s = list_all (\<lambda>c. c < 0x80) s"

lemma utf8_bytes_simps [simp]:
  "utf8_bytes [] = []" "utf8_bytes (c # s) = utf8_char c @ utf8_bytes s"
  "utf8_bytes (s @ t) = utf8_bytes s @ utf8_bytes t"
  by (simp_all add: utf8_bytes_def)

lemma utf8_char_nonempty: "utf8_char c \<noteq> []"
  by (simp add: utf8_char_def)

lemma utf8_char_ascii: "c < 0x80 \<Longrightarrow> utf8_char c = [ucast c]"
  by (simp add: utf8_char_def)

lemma utf8_bytes_ascii: "ascii s \<Longrightarrow> utf8_bytes s = map ucast s"
  by (induction s) (simp_all add: ascii_def utf8_char_ascii)

lemma length_utf8_bytes_ge: "length s \<le> length (utf8_bytes s)"
proof (induction s)
  case (Cons c s)
  have "Suc 0 \<le> length (utf8_char c)" using utf8_char_nonempty [of c] by (cases "utf8_char c") simp_all
  with Cons show ?case by simp
qed simp

lemma ascii_simps [simp]:
  "ascii []" "ascii (c # s) \<longleftrightarrow> c < 0x80 \<and> ascii s" "ascii (s @ t) \<longleftrightarrow> ascii s \<and> ascii t"
  by (auto simp: ascii_def)

end
