(* ===== verification/Intervals.thy ===== *)
theory Intervals
  imports Prelude
begin

text \<open>
  The received-interval list of \<^verbatim>\<open>DexRecvState\<close> in \<^verbatim>\<open>src/dump.rs\<close> (\<^verbatim>\<open>record\<close> and
  \<^verbatim>\<open>is_complete\<close>): sorted half-open intervals, kept disjoint and non-adjacent. The lemmas
  show that \<^verbatim>\<open>record\<close> adds exactly the new interval to the covered set and that the
  one-interval test of \<^verbatim>\<open>is_complete\<close> decides full coverage.
\<close>

section \<open>Operations\<close>

fun absorb :: "'a::linorder \<times> 'a \<Rightarrow> ('a \<times> 'a) list \<Rightarrow> ('a \<times> 'a) \<times> ('a \<times> 'a) list" where
  "absorb new [] = (new, [])"
| "absorb new (iv # ivs) =
     (if fst iv \<le> snd new
      then absorb (min (fst new) (fst iv), max (snd new) (snd iv)) ivs
      else (new, iv # ivs))"

definition record_interval :: "'a::linorder \<Rightarrow> 'a \<Rightarrow> ('a \<times> 'a) list \<Rightarrow> ('a \<times> 'a) list" where
  "record_interval start stop ivs =
     (if stop \<le> start then ivs
      else let passed = takeWhile (\<lambda>iv. snd iv < start) ivs;
               (new, rest) = absorb (start, stop) (dropWhile (\<lambda>iv. snd iv < start) ivs)
      in passed @ new # rest)"

definition intervals_complete :: "'a::{linorder, zero} \<Rightarrow> ('a \<times> 'a) list \<Rightarrow> bool" where
  "intervals_complete tot ivs =
     (case ivs of [(a, stop)] \<Rightarrow> a = 0 \<and> tot \<le> stop | _ \<Rightarrow> False)"

section \<open>Invariant and covered set\<close>

fun intervals_ok :: "('a::linorder \<times> 'a) list \<Rightarrow> bool" where
  "intervals_ok [] \<longleftrightarrow> True"
| "intervals_ok [(a, b)] \<longleftrightarrow> a < b"
| "intervals_ok ((a, b) # (c, d) # ivs) \<longleftrightarrow> a < b \<and> b < c \<and> intervals_ok ((c, d) # ivs)"

definition covered :: "('a::linorder \<times> 'a) list \<Rightarrow> 'a set" where
  "covered ivs = (\<Union>(a, b) \<in> set ivs. {a..<b})"

lemma covered_simps [simp]:
  "covered [] = {}"
  "covered (iv # ivs) = {fst iv..<snd iv} \<union> covered ivs"
  "covered (xs @ ys) = covered xs \<union> covered ys"
  by (auto simp: covered_def)

lemma intervals_ok_Cons:
  "intervals_ok (iv # ivs) \<longleftrightarrow>
     fst iv < snd iv \<and> intervals_ok ivs \<and> (ivs \<noteq> [] \<longrightarrow> snd iv < fst (hd ivs))"
  by (cases iv; cases ivs) auto

lemma intervals_ok_later:
  "intervals_ok (iv # ivs) \<Longrightarrow> jv \<in> set ivs \<Longrightarrow> snd iv < fst jv \<and> fst jv < snd jv"
proof (induction ivs arbitrary: iv)
  case Nil
  then show ?case by simp
next
  case (Cons kv ivs)
  from Cons.prems(1) have kv: "snd iv < fst kv" "fst kv < snd kv" "intervals_ok (kv # ivs)"
    by (simp_all add: intervals_ok_Cons)
  show ?case
  proof (cases "jv = kv")
    case True
    with kv show ?thesis by simp
  next
    case False
    with Cons.prems(2) have "jv \<in> set ivs" by simp
    from Cons.IH [OF kv(3) this] kv show ?thesis by (meson order_less_trans)
  qed
qed

lemma intervals_ok_append:
  "intervals_ok (xs @ ys) \<longleftrightarrow>
     intervals_ok xs \<and> intervals_ok ys \<and> (xs \<noteq> [] \<longrightarrow> ys \<noteq> [] \<longrightarrow> snd (last xs) < fst (hd ys))"
proof (induction xs)
  case Nil
  then show ?case by simp
next
  case (Cons iv xs)
  then show ?case by (cases xs) (auto simp: intervals_ok_Cons)
qed

lemma absorb_covered:
  assumes "fst new < snd new" and "intervals_ok ivs"
    and "\<forall>iv \<in> set ivs. fst new \<le> snd iv"
    and "absorb new ivs = (new', rest)"
  shows "covered (new' # rest) = {fst new..<snd new} \<union> covered ivs \<and> intervals_ok (new' # rest) \<and>
    fst new' = (case ivs of [] \<Rightarrow> fst new
      | iv # _ \<Rightarrow> if fst iv \<le> snd new then min (fst new) (fst iv) else fst new)"
  using assms
proof (induction new ivs arbitrary: new' rest rule: absorb.induct)
  case (1 new)
  then show ?case by (cases new) auto
next
  case (2 new iv ivs)
  show ?case
  proof (cases "fst iv \<le> snd new")
    case False
    with 2 show ?thesis by (auto simp: intervals_ok_Cons not_le)
  next
    case True
    let ?m = "(min (fst new) (fst iv), max (snd new) (snd iv))"
    from 2(3) have iv: "fst iv < snd iv" and ivs: "intervals_ok ivs"
      by (simp_all add: intervals_ok_Cons)
    have later: "snd iv < fst jv" if "jv \<in> set ivs" for jv
      using intervals_ok_later [OF 2(3) that] by simp
    have jv_ok: "fst jv < snd jv" if "jv \<in> set ivs" for jv
      using intervals_ok_later [OF 2(3) that] by simp
    have m1: "fst ?m < snd ?m" using iv 2(2) by (auto simp: min_def max_def)
    have m2: "\<forall>jv \<in> set ivs. fst ?m \<le> snd jv"
      using 2(4) by (auto simp: min_le_iff_disj)
    have run: "absorb ?m ivs = (new', rest)" using 2(5) True by simp
    from 2(1) [OF True m1 ivs m2 run]
    have IH: "covered (new' # rest) = {fst ?m..<snd ?m} \<union> covered ivs" "intervals_ok (new' # rest)"
      "fst new' = (case ivs of [] \<Rightarrow> fst ?m
        | jv # _ \<Rightarrow> if fst jv \<le> snd ?m then min (fst ?m) (fst jv) else fst ?m)" by blast+
    have "{fst ?m..<snd ?m} = {fst new..<snd new} \<union> {fst iv..<snd iv}"
      using True 2(2,4) iv by (auto simp: min_def max_def not_le split: if_splits)
    moreover have "fst new' = min (fst new) (fst iv)"
      using IH(3) later iv
      by (cases ivs) (auto simp: min_def not_le split: if_splits dest: order_less_trans)
    ultimately show ?thesis using IH(1,2) True by auto
  qed
qed

lemma record_interval_ok:
  assumes ok: "intervals_ok ivs" and "start < stop"
  shows "intervals_ok (record_interval start stop ivs) \<and>
    covered (record_interval start stop ivs) = covered ivs \<union> {start..<stop}"
proof -
  let ?P = "\<lambda>iv. snd iv < start"
  let ?xs = "takeWhile ?P ivs" and ?ys = "dropWhile ?P ivs"
  obtain new rest where run: "absorb (start, stop) ?ys = (new, rest)" by (rule prod.exhaust)
  have split: "intervals_ok (?xs @ ?ys)" using ok by simp
  then have xs: "intervals_ok ?xs" and ys: "intervals_ok ?ys"
    and sep: "?xs \<noteq> [] \<longrightarrow> ?ys \<noteq> [] \<longrightarrow> snd (last ?xs) < fst (hd ?ys)"
    unfolding intervals_ok_append by blast+
  have reach: "\<forall>iv \<in> set ?ys. start \<le> snd iv"
  proof (cases ?ys)
    case Nil
    show ?thesis unfolding Nil by simp
  next
    case (Cons kv ws)
    then have "start \<le> snd kv" using hd_dropWhile [of ?P ivs] by simp
    moreover have "snd kv < snd jv" if "jv \<in> set ws" for jv
      using intervals_ok_later [of kv ws jv] ys Cons that by (auto dest: order_less_trans)
    ultimately show ?thesis using Cons by (auto dest: order_le_less_trans intro: less_imp_le)
  qed
  have lt: "fst (start, stop) < snd (start, stop)" and
    reach': "\<forall>iv \<in> set ?ys. fst (start, stop) \<le> snd iv" using \<open>start < stop\<close> reach by simp_all
  from absorb_covered [OF lt ys reach' run, unfolded fst_conv snd_conv]
  have a: "covered (new # rest) = {start..<stop} \<union> covered ?ys" "intervals_ok (new # rest)"
    "fst new = (case ?ys of [] \<Rightarrow> start
      | iv # _ \<Rightarrow> if fst iv \<le> stop then min start (fst iv) else start)" by blast+
  have "snd (last ?xs) < fst new" if "?xs \<noteq> []"
  proof -
    have "snd (last ?xs) < start" using last_in_set [OF that] by (auto dest: set_takeWhileD)
    moreover have "snd (last ?xs) < fst (hd ?ys)" if "?ys \<noteq> []" using sep \<open>?xs \<noteq> []\<close> that by blast
    ultimately show ?thesis using a(3) by (cases ?ys) auto
  qed
  then have "intervals_ok (?xs @ new # rest)" using xs a(2) by (auto simp: intervals_ok_append)
  moreover have "covered (?xs @ new # rest) = covered ?xs \<union> ({start..<stop} \<union> covered ?ys)"
    by (simp only: covered_simps(3) a(1))
  moreover have "covered ivs = covered ?xs \<union> covered ?ys"
    by (metis covered_simps(3) takeWhile_dropWhile_id)
  moreover have "record_interval start stop ivs = ?xs @ new # rest"
    using run \<open>start < stop\<close> by (auto simp: record_interval_def)
  ultimately show ?thesis by auto
qed

lemma record_interval_bound:
  assumes "\<forall>iv \<in> set ivs. snd iv \<le> tot" and "stop \<le> tot"
  shows "\<forall>iv \<in> set (record_interval start stop ivs). snd iv \<le> tot"
proof -
  have absorb: "(\<forall>iv \<in> set ivs. snd iv \<le> tot) \<Longrightarrow> snd new \<le> tot \<Longrightarrow>
      absorb new ivs = (new', rest) \<Longrightarrow> snd new' \<le> tot \<and> (\<forall>iv \<in> set rest. snd iv \<le> tot)"
    for new ivs new' rest
    by (induction new ivs rule: absorb.induct) (auto split: if_splits)
  have "\<forall>iv \<in> set (dropWhile (\<lambda>iv. snd iv < start) ivs). snd iv \<le> tot"
    using assms(1) by (meson set_dropWhileD)
  moreover obtain new rest where
    run: "absorb (start, stop) (dropWhile (\<lambda>iv. snd iv < start) ivs) = (new, rest)"
    by (rule prod.exhaust)
  ultimately have "snd new \<le> tot \<and> (\<forall>iv \<in> set rest. snd iv \<le> tot)"
    using assms(2) absorb [OF _ _ run] by simp
  with run assms(1) show ?thesis
    by (auto simp: record_interval_def dest: set_takeWhileD)
qed

lemma intervals_complete_iff:
  fixes tot :: "'a::len word"
  assumes "intervals_ok ivs" and "\<forall>iv \<in> set ivs. snd iv \<le> tot" and "0 < tot"
  shows "intervals_complete tot ivs \<longleftrightarrow> {0..<tot} \<subseteq> covered ivs"
proof
  assume "intervals_complete tot ivs"
  then show "{0..<tot} \<subseteq> covered ivs"
    by (cases ivs rule: intervals_ok.cases) (auto simp: intervals_complete_def)
next
  assume full: "{0..<tot} \<subseteq> covered ivs"
  with \<open>0 < tot\<close> have "0 \<in> covered ivs" by auto
  then obtain iv ws where ivs: "ivs = iv # ws" by (cases ivs) auto
  have later: "snd iv < fst jv" if "jv \<in> set ws" for jv
    using intervals_ok_later [of iv ws jv] assms(1) ivs that by simp
  have z: "fst iv = 0"
  proof (rule ccontr)
    assume "fst iv \<noteq> 0"
    with \<open>0 \<in> covered ivs\<close> ivs obtain jv where jv: "jv \<in> set ws" "fst jv = 0"
      by (auto simp: covered_def)
    from later [OF jv(1)] jv(2) show False by simp
  qed
  have "tot \<le> snd iv"
  proof (rule ccontr)
    assume "\<not> tot \<le> snd iv"
    then have "snd iv \<in> covered ivs" using full by auto
    then obtain jv where "jv \<in> set ws" "fst jv \<le> snd iv" using ivs by (auto simp: covered_def)
    with later [of jv] show False by simp
  qed
  moreover have "ws = []"
  proof (rule ccontr)
    assume "ws \<noteq> []"
    then obtain jv where jv: "jv \<in> set ws" by (cases ws) auto
    with later [OF jv] intervals_ok_later [of iv ws jv] assms(1,2) ivs \<open>tot \<le> snd iv\<close>
    have "snd jv \<le> tot" "tot < snd jv" by (auto dest: order_le_less_trans order_less_trans)
    then show False by simp
  qed
  ultimately show "intervals_complete tot ivs"
    using ivs z by (cases iv) (simp add: intervals_complete_def)
qed

end
