(* ===== verification/Bpf_Types.thy ===== *)
theory Bpf_Types
  imports Prelude
begin

text \<open>
  The shared data of the eBPF object, from \<^verbatim>\<open>bpf/header.h\<close> and the constants at the top
  of \<^verbatim>\<open>bpf/bpf.c\<close>: one record per C struct (fields in declaration order, prefixed by the
  struct's initials because record fields are global names), the C sizes and offsets
  computed from the member sizes by the natural-alignment rule, and the byte image each
  event struct has when it is handed to user space.
\<close>

section \<open>Constants\<close>

definition MAX_PERCPU_BUFSIZE :: nat where "MAX_PERCPU_BUFSIZE = push_bit 14 1"
definition RINGBUF_SIZE :: u32 where "RINGBUF_SIZE = push_bit 17 1"
definition JNI_NAME_MAX :: nat where "JNI_NAME_MAX = 96"
definition JNI_SIG_MAX :: nat where "JNI_SIG_MAX = 96"
definition INVALID_UID_PID :: u32 where "INVALID_UID_PID = - 1"

definition DEX_MAGIC :: u32 where "DEX_MAGIC = 0x0a786564"
definition DEX_HEADER_SIZE :: u32 where "DEX_HEADER_SIZE = 0x70"
definition DEX_ENDIAN_CONSTANT :: u32 where "DEX_ENDIAN_CONSTANT = 0x12345678"
definition MAX_DEX_FILE_SIZE :: u32 where "MAX_DEX_FILE_SIZE = 0x40000000"
definition LAYOUT_REASON_ART_CHAIN_FAILED :: u32 where "LAYOUT_REASON_ART_CHAIN_FAILED = 1"
definition LAYOUT_REASON_CODE_ITEM_FAILED :: u32 where "LAYOUT_REASON_CODE_ITEM_FAILED = 2"
definition LAYOUT_SOURCE_ART_CHAIN :: u32 where "LAYOUT_SOURCE_ART_CHAIN = 1"
definition LAYOUT_SOURCE_CODE_ITEM :: u32 where "LAYOUT_SOURCE_CODE_ITEM = 2"
definition NATIVE_SOURCE_MMAP :: u32 where "NATIVE_SOURCE_MMAP = 1"
definition NATIVE_SOURCE_MPROTECT :: u32 where "NATIVE_SOURCE_MPROTECT = 2"
definition NATIVE_SOURCE_MEMCPY :: u32 where "NATIVE_SOURCE_MEMCPY = 4"
definition NATIVE_SOURCE_MEMMOVE :: u32 where "NATIVE_SOURCE_MEMMOVE = 5"
definition NATIVE_MAX_COPY_SIZE :: u64 where "NATIVE_MAX_COPY_SIZE = 0x40000000"
definition NATIVE_MIN_COPY_SIZE :: u64 where "NATIVE_MIN_COPY_SIZE = 0x70"
definition JNI_NATIVE_METHOD_SIZE :: u64 where "JNI_NATIVE_METHOD_SIZE = 24"
definition JNI_MAX_METHODS :: int where "JNI_MAX_METHODS = 512"
definition MAX_CHUNKS_PER_CALL :: nat where "MAX_CHUNKS_PER_CALL = 128"

definition BPF_ANY :: u64 where "BPF_ANY = 0"
definition BPF_RB_FORCE_WAKEUP :: u64 where "BPF_RB_FORCE_WAKEUP = 2"

lemmas size_consts = MAX_PERCPU_BUFSIZE_def RINGBUF_SIZE_def JNI_NAME_MAX_def JNI_SIG_MAX_def
lemmas native_consts = NATIVE_SOURCE_MMAP_def NATIVE_SOURCE_MPROTECT_def
  NATIVE_SOURCE_MEMCPY_def NATIVE_SOURCE_MEMMOVE_def NATIVE_MAX_COPY_SIZE_def
  NATIVE_MIN_COPY_SIZE_def
lemmas dex_consts = DEX_MAGIC_def DEX_HEADER_SIZE_def DEX_ENDIAN_CONSTANT_def
  MAX_DEX_FILE_SIZE_def
lemmas layout_consts = LAYOUT_REASON_ART_CHAIN_FAILED_def LAYOUT_REASON_CODE_ITEM_FAILED_def
  LAYOUT_SOURCE_ART_CHAIN_def LAYOUT_SOURCE_CODE_ITEM_def

section \<open>Structs\<close>

record jni_method_event_t =
  jme_pid :: u32
  jme_fn_ptr :: u64
  jme_name :: "u8 list"
  jme_sig :: "u8 list"

record config_t =
  cfg_uid :: u32
  cfg_pid :: u32
  cfg_code_item_fallback :: u32
  cfg_debug_layout :: u32
  cfg_native_buffer_scan :: u32
  cfg_reserved :: u32

record art_layout_t =
  shadow_frame_method_offset :: u32
  art_method_declaring_class_offset :: u32
  art_method_dex_method_index_offset :: u32
  art_method_data_offset :: u32
  class_dex_cache_offset :: u32
  dex_cache_dex_file_offset :: u32
  dex_file_begin_offset :: u32
  dex_header_file_size_offset :: u32
  code_item_insns_size_offset :: u32
  code_item_insns_offset :: u32

record dex_event_data_t =
  ded_begin :: u64
  ded_pid :: u32
  ded_size :: u32

record dex_chunk_event_t =
  dce_begin :: u64
  dce_pid :: u32
  dce_size :: u32
  dce_offset :: u32
  dce_data_len :: u32

record method_event_data_t =
  med_begin :: u64
  med_pid :: u32
  med_size :: u32
  med_thread :: u64
  med_art_method_ptr :: u64
  med_method_index :: u32
  med_codeitem_size :: u32

record dex_read_failure_t =
  drf_begin :: u64
  drf_pid :: u32
  drf_size :: u32
  drf_failed_offset :: u32

record layout_debug_event_t =
  lde_art_method_ptr :: u64
  lde_code_item_ptr :: u64
  lde_begin :: u64
  lde_pid :: u32
  lde_size :: u32
  lde_reason :: u32
  lde_source :: u32

record native_buffer_event_t =
  nbe_addr :: u64
  nbe_size :: u64
  nbe_pid :: u32
  nbe_source :: u32
  nbe_prot :: u32
  nbe_flags :: u32

record capture_key_t =
  ck_addr :: u64
  ck_identity :: u64
  ck_pid :: u32
  ck_size :: u32

record native_copy_args_t =
  nca_dst :: u64
  nca_size :: u64
  nca_source :: u32

record native_alloc_args_t =
  naa_size :: u64
  naa_prot :: u32
  naa_flags :: u32

text \<open>The layout the program falls back to before user space has written one.\<close>

definition default_art_layout :: art_layout_t where
  "default_art_layout = \<lparr>
     shadow_frame_method_offset = 0x08,
     art_method_declaring_class_offset = 0x00,
     art_method_dex_method_index_offset = 0x08,
     art_method_data_offset = 0x10,
     class_dex_cache_offset = 0x10,
     dex_cache_dex_file_offset = 0x10,
     dex_file_begin_offset = 0x08,
     dex_header_file_size_offset = 0x20,
     code_item_insns_size_offset = 0x0c,
     code_item_insns_offset = 0x10 \<rparr>"

section \<open>C layout: offsets and sizes\<close>

text \<open>
  A member list gives the size and the alignment of each member; a member starts at the
  next multiple of its alignment and the struct's size is rounded up to the largest one.
\<close>

definition round_up :: "nat \<Rightarrow> nat \<Rightarrow> nat" where
  "round_up a n = (n + a - 1) div a * a"

fun c_offsets :: "nat \<Rightarrow> (nat \<times> nat) list \<Rightarrow> nat list" where
  "c_offsets off [] = []"
| "c_offsets off ((sz, al) # ms) = round_up al off # c_offsets (round_up al off + sz) ms"

fun c_end :: "nat \<Rightarrow> (nat \<times> nat) list \<Rightarrow> nat" where
  "c_end off [] = off"
| "c_end off ((sz, al) # ms) = c_end (round_up al off + sz) ms"

definition c_sizeof :: "(nat \<times> nat) list \<Rightarrow> nat" where
  "c_sizeof ms = round_up (fold (\<lambda>(_, al) m. max al m) ms 1) (c_end 0 ms)"

definition U32m :: "nat \<times> nat" where "U32m = (4, 4)"
definition U64m :: "nat \<times> nat" where "U64m = (8, 8)"
definition CHARSm :: "nat \<Rightarrow> nat \<times> nat" where "CHARSm n = (n, 1)"

definition dex_event_members :: "(nat \<times> nat) list" where
  "dex_event_members = [U64m, U32m, U32m]"
definition dex_chunk_members :: "(nat \<times> nat) list" where
  "dex_chunk_members = [U64m, U32m, U32m, U32m, U32m]"
definition method_event_members :: "(nat \<times> nat) list" where
  "method_event_members = [U64m, U32m, U32m, U64m, U64m, U32m, U32m]"
definition read_failure_members :: "(nat \<times> nat) list" where
  "read_failure_members = [U64m, U32m, U32m, U32m]"
definition layout_debug_members :: "(nat \<times> nat) list" where
  "layout_debug_members = [U64m, U64m, U64m, U32m, U32m, U32m, U32m]"
definition native_buffer_members :: "(nat \<times> nat) list" where
  "native_buffer_members = [U64m, U64m, U32m, U32m, U32m, U32m]"
definition jni_method_members :: "(nat \<times> nat) list" where
  "jni_method_members = [U32m, U64m, CHARSm JNI_NAME_MAX, CHARSm JNI_SIG_MAX]"

lemmas member_defs = dex_event_members_def dex_chunk_members_def method_event_members_def
  read_failure_members_def layout_debug_members_def native_buffer_members_def
  jni_method_members_def U32m_def U64m_def CHARSm_def

lemma sizeof_dex_event [simp]: "c_sizeof dex_event_members = 16"
  by (simp add: c_sizeof_def member_defs round_up_def)
lemma sizeof_dex_chunk [simp]: "c_sizeof dex_chunk_members = 24"
  by (simp add: c_sizeof_def member_defs round_up_def)
lemma sizeof_method_event [simp]: "c_sizeof method_event_members = 40"
  by (simp add: c_sizeof_def member_defs round_up_def)
lemma sizeof_read_failure [simp]: "c_sizeof read_failure_members = 24"
  by (simp add: c_sizeof_def member_defs round_up_def)
lemma sizeof_layout_debug [simp]: "c_sizeof layout_debug_members = 40"
  by (simp add: c_sizeof_def member_defs round_up_def)
lemma sizeof_native_buffer [simp]: "c_sizeof native_buffer_members = 32"
  by (simp add: c_sizeof_def member_defs round_up_def)
lemma sizeof_jni_method [simp]: "c_sizeof jni_method_members = 208"
  by (simp add: c_sizeof_def member_defs round_up_def JNI_NAME_MAX_def JNI_SIG_MAX_def)

section \<open>Events and their byte images\<close>

datatype ring = events | method_events | dex_chunks | read_failures
  | layout_debug_events | native_buffer_events | jni_events

datatype bpf_event =
    Dex_event dex_event_data_t
  | Method_event method_event_data_t "u8 list"
  | Dex_chunk dex_chunk_event_t "u8 list"
  | Read_failure dex_read_failure_t
  | Layout_debug layout_debug_event_t
  | Native_buffer native_buffer_event_t
  | Jni_method jni_method_event_t

fun ring_of :: "bpf_event \<Rightarrow> ring" where
  "ring_of (Dex_event _) = events"
| "ring_of (Method_event _ _) = method_events"
| "ring_of (Dex_chunk _ _) = dex_chunks"
| "ring_of (Read_failure _) = read_failures"
| "ring_of (Layout_debug _) = layout_debug_events"
| "ring_of (Native_buffer _) = native_buffer_events"
| "ring_of (Jni_method _) = jni_events"

fun event_pid :: "bpf_event \<Rightarrow> u32" where
  "event_pid (Dex_event e) = ded_pid e"
| "event_pid (Method_event e _) = med_pid e"
| "event_pid (Dex_chunk e _) = dce_pid e"
| "event_pid (Read_failure e) = drf_pid e"
| "event_pid (Layout_debug e) = lde_pid e"
| "event_pid (Native_buffer e) = nbe_pid e"
| "event_pid (Jni_method e) = jme_pid e"

text \<open>
  \<open>image ex e\<close> is the ring-buffer record of \<open>e\<close>. \<open>ex\<close> stands for the bytes the program
  does not write: the tail padding of a read failure and what follows the payload in a
  chunk record, which is always reserved at its full size.
\<close>

fun image :: "u8 list \<Rightarrow> bpf_event \<Rightarrow> u8 list" where
  "image ex (Dex_event e) =
     le_bytes 8 (ded_begin e) @ le_bytes 4 (ded_pid e) @ le_bytes 4 (ded_size e)"
| "image ex (Method_event e code) =
     le_bytes 8 (med_begin e) @ le_bytes 4 (med_pid e) @ le_bytes 4 (med_size e) @
     le_bytes 8 (med_thread e) @ le_bytes 8 (med_art_method_ptr e) @
     le_bytes 4 (med_method_index e) @ le_bytes 4 (med_codeitem_size e) @ code"
| "image ex (Dex_chunk e payload) =
     le_bytes 8 (dce_begin e) @ le_bytes 4 (dce_pid e) @ le_bytes 4 (dce_size e) @
     le_bytes 4 (dce_offset e) @ le_bytes 4 (dce_data_len e) @ payload @ ex"
| "image ex (Read_failure e) =
     le_bytes 8 (drf_begin e) @ le_bytes 4 (drf_pid e) @ le_bytes 4 (drf_size e) @
     le_bytes 4 (drf_failed_offset e) @ ex"
| "image ex (Layout_debug e) =
     le_bytes 8 (lde_art_method_ptr e) @ le_bytes 8 (lde_code_item_ptr e) @
     le_bytes 8 (lde_begin e) @ le_bytes 4 (lde_pid e) @ le_bytes 4 (lde_size e) @
     le_bytes 4 (lde_reason e) @ le_bytes 4 (lde_source e)"
| "image ex (Native_buffer e) =
     le_bytes 8 (nbe_addr e) @ le_bytes 8 (nbe_size e) @ le_bytes 4 (nbe_pid e) @
     le_bytes 4 (nbe_source e) @ le_bytes 4 (nbe_prot e) @ le_bytes 4 (nbe_flags e)"
| "image ex (Jni_method e) =
     le_bytes 4 (jme_pid e) @ replicate 4 0 @ le_bytes 8 (jme_fn_ptr e) @ jme_name e @ jme_sig e"

text \<open>The seven rings as an enumeration, so that statements over all rings compute.\<close>

definition all_rings :: "ring list" where
  "all_rings = [events, method_events, dex_chunks, read_failures,
     layout_debug_events, native_buffer_events, jni_events]"

lemma all_rings_complete: "r \<in> set all_rings"
  by (cases r) (simp_all add: all_rings_def)

lemma all_rings_distinct: "distinct all_rings"
  by (simp add: all_rings_def)

instantiation ring :: enum
begin
definition enum_ring :: "ring list" where "enum_ring = all_rings"
definition enum_all_ring :: "(ring \<Rightarrow> bool) \<Rightarrow> bool" where
  "enum_all_ring P \<longleftrightarrow> list_all P all_rings"
definition enum_ex_ring :: "(ring \<Rightarrow> bool) \<Rightarrow> bool" where
  "enum_ex_ring P \<longleftrightarrow> list_ex P all_rings"
instance
  by standard (auto simp: enum_ring_def enum_all_ring_def enum_ex_ring_def list_all_iff
      list_ex_iff all_rings_complete all_rings_distinct)
end

text \<open>Ring capacities, \<^verbatim>\<open>max_entries\<close> of the seven ring-buffer maps.\<close>

fun ring_max_entries :: "ring \<Rightarrow> nat" where
  "ring_max_entries events = push_bit 22 1"
| "ring_max_entries method_events = push_bit 24 1"
| "ring_max_entries dex_chunks = push_bit 24 1"
| "ring_max_entries read_failures = push_bit 20 1"
| "ring_max_entries layout_debug_events = push_bit 20 1"
| "ring_max_entries native_buffer_events = push_bit 20 1"
| "ring_max_entries jni_events = push_bit 20 1"

definition NATIVE_ARGS_MAX_ENTRIES :: nat where "NATIVE_ARGS_MAX_ENTRIES = 4096"

end
