(* ===== verification/Receiver.thy ===== *)
theory Receiver
  imports Rust_Std Intervals Bpf_Types
begin

text \<open>
  The user-space side of the DEX transfer, from \<^verbatim>\<open>src/dump.rs\<close>: the record parsers, the
  reassembly state \<^verbatim>\<open>DexRecvState\<close>, the bookkeeping of \<^verbatim>\<open>DumpState\<close> that identifies a DEX
  (\<^verbatim>\<open>observe_dex\<close>, \<^verbatim>\<open>quarantine_dex\<close>), \<^verbatim>\<open>save_dex\<close> and the handlers of DEX and chunk
  records. The file system, SHA-1 and the map of system files are parameters (\<open>host\<close>).
\<close>

section \<open>Parsing records\<close>

definition parse_dex_event :: "u8 list \<Rightarrow> dex_event_data_t option" where
  "parse_dex_event xs =
     (case (le64 xs 0, le32 xs 8, le32 xs 12) of
        (Some b, Some p, Some z) \<Rightarrow> Some \<lparr>ded_begin = b, ded_pid = p, ded_size = z\<rparr>
      | _ \<Rightarrow> None)"

definition parse_dex_chunk :: "u8 list \<Rightarrow> dex_chunk_event_t option" where
  "parse_dex_chunk xs =
     (if length xs < 24 then None
      else case (le64 xs 0, le32 xs 8, le32 xs 12, le32 xs 16, le32 xs 20) of
        (Some b, Some p, Some z, Some off, Some n) \<Rightarrow>
          Some \<lparr>dce_begin = b, dce_pid = p, dce_size = z, dce_offset = off, dce_data_len = n\<rparr>
      | _ \<Rightarrow> None)"

record method_event =
  me_begin :: u64
  me_pid :: u32
  me_size :: u32
  me_art_method_ptr :: u64
  me_method_index :: u32
  me_codeitem_size :: u32

definition parse_method_event :: "u8 list \<Rightarrow> method_event option" where
  "parse_method_event xs =
     (if length xs < 40 then None
      else case (le64 xs 0, le32 xs 8, le32 xs 12, le64 xs 24, le32 xs 32, le32 xs 36) of
        (Some b, Some p, Some z, Some am, Some idx, Some n) \<Rightarrow>
          Some \<lparr>me_begin = b, me_pid = p, me_size = z, me_art_method_ptr = am,
            me_method_index = idx, me_codeitem_size = n\<rparr>
      | _ \<Rightarrow> None)"

text \<open>The bytecode \<^verbatim>\<open>handle_method_event\<close> takes from a record.\<close>

definition method_event_bytecode :: "u8 list \<Rightarrow> method_event \<Rightarrow> u8 list" where
  "method_event_bytecode xs hdr =
     (if 0 < me_codeitem_size hdr
      then case slice_get xs 40 (40 + unat (me_codeitem_size hdr)) of None \<Rightarrow> [] | Some bs \<Rightarrow> bs
      else [])"

definition parse_read_failure :: "u8 list \<Rightarrow> dex_read_failure_t option" where
  "parse_read_failure xs =
     (if length xs < 24 then None
      else case (le64 xs 0, le32 xs 8, le32 xs 12, le32 xs 16) of
        (Some b, Some p, Some z, Some off) \<Rightarrow>
          Some \<lparr>drf_begin = b, drf_pid = p, drf_size = z, drf_failed_offset = off\<rparr>
      | _ \<Rightarrow> None)"

definition parse_layout_debug :: "u8 list \<Rightarrow> layout_debug_event_t option" where
  "parse_layout_debug xs =
     (if length xs < 40 then None
      else case (le64 xs 0, le64 xs 8, le64 xs 16, le32 xs 24, le32 xs 28, le32 xs 32, le32 xs 36) of
        (Some am, Some ci, Some b, Some p, Some z, Some r, Some src) \<Rightarrow>
          Some \<lparr>lde_art_method_ptr = am, lde_code_item_ptr = ci, lde_begin = b, lde_pid = p,
            lde_size = z, lde_reason = r, lde_source = src\<rparr>
      | _ \<Rightarrow> None)"

definition parse_native_buffer :: "u8 list \<Rightarrow> native_buffer_event_t option" where
  "parse_native_buffer xs =
     (if length xs < 32 then None
      else case (le64 xs 0, le64 xs 8, le32 xs 16, le32 xs 20, le32 xs 24, le32 xs 28) of
        (Some a, Some z, Some p, Some src, Some prot, Some fl) \<Rightarrow>
          Some \<lparr>nbe_addr = a, nbe_size = z, nbe_pid = p, nbe_source = src, nbe_prot = prot,
            nbe_flags = fl\<rparr>
      | _ \<Rightarrow> None)"

text \<open>
  \<^verbatim>\<open>cstr_field\<close>: the bytes before the first NUL (the lossy UTF-8 decoding that follows in
  the source is the identity on the ASCII identifiers and signatures of interest and is
  left to the caller).
\<close>

definition cstr_field :: "u8 list \<Rightarrow> u8 list" where
  "cstr_field b = takeWhile (\<lambda>c. c \<noteq> 0) b"

record jni_method_event =
  jm_pid :: u32
  jm_fn_ptr :: u64
  jm_name :: "u8 list"
  jm_sig :: "u8 list"

definition parse_jni_method :: "u8 list \<Rightarrow> jni_method_event option" where
  "parse_jni_method xs =
     (if length xs < 208 then None
      else case (le32 xs 0, le64 xs 8) of
        (Some p, Some f) \<Rightarrow>
          Some \<lparr>jm_pid = p, jm_fn_ptr = f, jm_name = cstr_field (take 96 (drop 16 xs)),
            jm_sig = cstr_field (take 96 (drop 112 xs))\<rparr>
      | _ \<Rightarrow> None)"

section \<open>State\<close>

text \<open>
  Left out of \<^verbatim>\<open>DumpState\<close>: the time of the last chunk (kept for a time-out message), the
  output directory, the flags of the command line (a parameter of the handlers that read
  them) and the maps of other processes (read through \<open>h_skip_system\<close>). \<open>files\<close> and
  \<open>elf_files\<close> are the files written, with their contents.
\<close>

record recv_state =
  rs_total :: u32
  rs_intervals :: "(u32 \<times> u32) list"
  rs_buf :: "u8 list"

type_synonym dex_id = "u32 \<times> u64"

datatype dex_file = Dex_plain u32 u64 u32 | Dex_hashed u32 u64 "u8 list" u32

text \<open>A captured method body, its code already in hexadecimal.\<close>

record method_code_record =
  mcr_name :: rust_string
  mcr_method_idx :: u32
  mcr_code :: rust_string

record host =
  h_skip_system :: "u32 \<Rightarrow> u64 \<Rightarrow> u32 \<Rightarrow> bool"
  h_sha1 :: "u8 list \<Rightarrow> u8 list"
  h_write_ok :: "dex_file \<Rightarrow> bool"
  h_hex_encode :: "u8 list \<Rightarrow> rust_string"

record dump_state =
  dex_cache :: "dex_id \<Rightarrow> u8 list option"
  ambiguous_dex :: "dex_id set"
  dex_sizes :: "dex_id \<Rightarrow> u32 option"
  pending_dex :: "dex_id \<Rightarrow> recv_state option"
  method_records :: "dex_id \<Rightarrow> method_code_record list option"
  method_sig_cache :: "u32 \<times> u64 \<times> u32 \<Rightarrow> rust_string option"
  captures_sealed :: bool
  files :: "(dex_file \<times> u8 list) list"
  layout_events_seen :: "(u32 \<times> u64 \<times> u32 \<times> u32) set"
  jni_methods :: "jni_method_event list"
  native_buffer_budget :: nat
  native_elf_cache :: "(u32 \<times> u64) set"
  elf_files :: "((u32 \<times> u64 \<times> u64) \<times> u8 list) list"

definition dump_state_new :: dump_state where
  "dump_state_new = \<lparr>dex_cache = (\<lambda>_. None), ambiguous_dex = {}, dex_sizes = (\<lambda>_. None),
     pending_dex = (\<lambda>_. None), method_records = (\<lambda>_. None), method_sig_cache = (\<lambda>_. None),
     captures_sealed = False, files = [], layout_events_seen = {}, jni_methods = [],
     native_buffer_budget = 200, native_elf_cache = {}, elf_files = []\<rparr>"

section \<open>Operations\<close>

definition recv_record :: "u32 \<Rightarrow> u32 \<Rightarrow> recv_state \<Rightarrow> recv_state" where
  "recv_record start stop st = st\<lparr>rs_intervals := record_interval start stop (rs_intervals st)\<rparr>"

definition recv_is_complete :: "recv_state \<Rightarrow> bool" where
  "recv_is_complete st = intervals_complete (rs_total st) (rs_intervals st)"

definition size_in_range :: "u32 \<Rightarrow> bool" where
  "size_in_range z \<longleftrightarrow> 0x70 \<le> z \<and> z \<le> 0x40000000"

definition drop_sigs :: "dex_id \<Rightarrow> (u32 \<times> u64 \<times> u32 \<Rightarrow> rust_string option) \<Rightarrow>
    (u32 \<times> u64 \<times> u32 \<Rightarrow> rust_string option)" where
  "drop_sigs key m = (\<lambda>(p, b, i). if (p, b) = key then None else m (p, b, i))"

definition quarantine_dex :: "u32 \<Rightarrow> u64 \<Rightarrow> dump_state \<Rightarrow> dump_state" where
  "quarantine_dex pid b st = st\<lparr>
     ambiguous_dex := insert (pid, b) (ambiguous_dex st),
     pending_dex := (pending_dex st)((pid, b) := None),
     method_records := (method_records st)((pid, b) := None),
     method_sig_cache := drop_sigs (pid, b) (method_sig_cache st)\<rparr>"

definition observe_dex :: "u32 \<Rightarrow> u64 \<Rightarrow> u32 \<Rightarrow> dump_state \<Rightarrow> dump_state" where
  "observe_dex pid b z st =
     (if \<not> size_in_range z then quarantine_dex pid b st
      else let previous = dex_sizes st (pid, b);
               st1 = st\<lparr>dex_sizes := (dex_sizes st)((pid, b) \<mapsto> z)\<rparr>
      in case previous of
           Some old \<Rightarrow> if old \<noteq> z then quarantine_dex pid b st1 else st1
         | None \<Rightarrow> st1)"

definition save_dex :: "host \<Rightarrow> u32 option \<Rightarrow> u64 \<Rightarrow> u32 \<Rightarrow> u8 list \<Rightarrow> dump_state \<Rightarrow> dump_state" where
  "save_dex h pid_opt b z bytes st =
     (if captures_sealed st then st
      else if (case pid_opt of Some pid \<Rightarrow> h_skip_system h pid b z | None \<Rightarrow> False) then st
      else if \<not> dex_accepted bytes then st
      else case pid_opt of None \<Rightarrow> st
      | Some pid \<Rightarrow>
        let key = (pid, b);
            st1 = observe_dex pid b z st
        in case dex_cache st1 key of
             Some previous \<Rightarrow>
               if previous = bytes then st1
               else let st2 = quarantine_dex pid b st1;
                        file = Dex_hashed pid b (h_sha1 h bytes) z
               in if h_write_ok h file
                  then st2\<lparr>pending_dex := (pending_dex st2)(key := None),
                         method_sig_cache := drop_sigs key (method_sig_cache st2),
                         dex_cache := (dex_cache st2)(key \<mapsto> bytes),
                         files := files st2 @ [(file, bytes)]\<rparr>
                  else st2
           | None \<Rightarrow>
               let file = (if key \<in> ambiguous_dex st1
                           then Dex_hashed pid b (h_sha1 h bytes) z else Dex_plain pid b z)
               in if h_write_ok h file
                  then st1\<lparr>pending_dex := (pending_dex st1)(key := None),
                         method_sig_cache := drop_sigs key (method_sig_cache st1),
                         dex_cache := (dex_cache st1)(key \<mapsto> bytes),
                         files := files st1 @ [(file, bytes)]\<rparr>
                  else st1)"

definition handle_dex_event :: "u8 list \<Rightarrow> dump_state \<Rightarrow> dump_state" where
  "handle_dex_event xs st =
     (case parse_dex_event xs of None \<Rightarrow> st
      | Some evt \<Rightarrow> observe_dex (ded_pid evt) (ded_begin evt) (ded_size evt) st)"

text \<open>Whether some received byte differs from the new payload.\<close>

definition chunk_conflicts :: "recv_state \<Rightarrow> nat \<Rightarrow> nat \<Rightarrow> u8 list \<Rightarrow> bool" where
  "chunk_conflicts rs off stop payload \<longleftrightarrow>
     list_ex (\<lambda>(a, z). let left = max (unat a) off; right = min (unat z) stop
        in left < right \<and>
           take (right - left) (drop left (rs_buf rs)) \<noteq>
           take (right - left) (drop (left - off) payload)) (rs_intervals rs)"

definition handle_dex_chunk :: "host \<Rightarrow> u8 list \<Rightarrow> dump_state \<Rightarrow> dump_state" where
  "handle_dex_chunk h xs st =
     (case parse_dex_chunk xs of None \<Rightarrow> st
      | Some hdr \<Rightarrow>
        let pid = dce_pid hdr; b = dce_begin hdr; z = dce_size hdr;
            off = unat (dce_offset hdr); n = unat (dce_data_len hdr)
        in if \<not> size_in_range z \<or> n = 0 \<or> 2 ^ 32 \<le> off + n \<or> unat z < off + n then st
        else let key = (pid, b); st1 = observe_dex pid b z st
        in if key \<in> ambiguous_dex st1 then st1
        else case slice_get xs 24 (24 + n) of None \<Rightarrow> st1
        | Some payload \<Rightarrow>
          (case dex_cache st1 key of
             Some bytes \<Rightarrow>
               if slice_get bytes off (off + n) = Some payload then st1 else quarantine_dex pid b st1
           | None \<Rightarrow>
               let rs = (case pending_dex st1 key of Some rs \<Rightarrow> rs
                         | None \<Rightarrow> \<lparr>rs_total = z, rs_intervals = [], rs_buf = replicate (unat z) 0\<rparr>)
               in if chunk_conflicts rs off (off + n) payload then quarantine_dex pid b st1
               else let rs1 = (if off + n \<le> length (rs_buf rs)
                     then recv_record (dce_offset hdr) (dce_offset hdr + dce_data_len hdr)
                            (rs\<lparr>rs_buf := take off (rs_buf rs) @ payload @ drop (off + n) (rs_buf rs)\<rparr>)
                     else rs)
               in if recv_is_complete rs1
                  then save_dex h (Some pid) b z (rs_buf rs1)
                         (st1\<lparr>pending_dex := (pending_dex st1)(key := None)\<rparr>)
                  else st1\<lparr>pending_dex := (pending_dex st1)(key \<mapsto> rs1)\<rparr>))"

section \<open>Round trips of the record formats\<close>

lemma parse_dex_event_image: "parse_dex_event (image ex (Dex_event d)) = Some d"
  by (simp add: parse_dex_event_def le32_skip le64_skip)

lemma parse_dex_chunk_image: "parse_dex_chunk (image ex (Dex_chunk d payload)) = Some d"
  by (simp add: parse_dex_chunk_def le32_skip le64_skip)

lemma parse_read_failure_image:
  "4 \<le> length ex \<Longrightarrow> parse_read_failure (image ex (Read_failure d)) = Some d"
  by (simp add: parse_read_failure_def le32_skip le64_skip)

lemma parse_layout_debug_image: "parse_layout_debug (image ex (Layout_debug d)) = Some d"
  by (simp add: parse_layout_debug_def le32_skip le64_skip)

lemma parse_native_buffer_image: "parse_native_buffer (image ex (Native_buffer d)) = Some d"
  by (simp add: parse_native_buffer_def le32_skip le64_skip)

lemma parse_method_event_image:
  "parse_method_event (image ex (Method_event d code)) =
     Some \<lparr>me_begin = med_begin d, me_pid = med_pid d, me_size = med_size d,
       me_art_method_ptr = med_art_method_ptr d, me_method_index = med_method_index d,
       me_codeitem_size = med_codeitem_size d\<rparr>"
  by (simp add: parse_method_event_def le32_skip le64_skip)

lemma chunk_payload_image:
  "length payload = n \<Longrightarrow> slice_get (image ex (Dex_chunk d payload)) 24 (24 + n) = Some payload"
  by (simp add: slice_get_def)

end
