(* ===== verification/Bpf_Env.thy ===== *)
theory Bpf_Env
  imports Bpf_Types
begin

text \<open>
  What a probe runs against: the environment of one invocation (the process it interrupts
  and the answers of the kernel that the program cannot know beforehand), the state that
  outlives invocations (the BPF maps and everything sent to user space), and the kernel
  helpers \<^verbatim>\<open>bpf.c\<close> calls, as their documentation in \<^verbatim>\<open>headers/bpf_helper_defs.h\<close> gives
  them. A probe is a function from environment, registers and state to state; one
  invocation is atomic.
\<close>

section \<open>The environment of one invocation\<close>

text \<open>
  \<open>e_mem\<close> is the interrupted process's memory as far as a fault-free read can see it
  (\<open>None\<close>: not mapped or not resident). \<open>e_rb_ok r n\<close> says whether the kernel grants the
  \<open>n\<close>-th request for space in ring \<open>r\<close>; the theorems hold for every such oracle.
  \<open>e_stale_method\<close> is what a freshly reserved method record holds before it is written.
\<close>

record env =
  e_mem :: "u64 \<Rightarrow> u8 option"
  e_pid_tgid :: u64
  e_uid_gid :: u64
  e_cpu :: nat
  e_rb_ok :: "ring \<Rightarrow> nat \<Rightarrow> bool"
  e_stale_method :: method_event_data_t

record user_pt_regs =
  pr_regs :: "nat \<Rightarrow> u64"
  pr_sp :: u64
  pr_pc :: u64
  pr_pstate :: u64

definition PT_REGS_PARM1 :: "user_pt_regs \<Rightarrow> u64" where "PT_REGS_PARM1 x = pr_regs x 0"
definition PT_REGS_PARM2 :: "user_pt_regs \<Rightarrow> u64" where "PT_REGS_PARM2 x = pr_regs x 1"
definition PT_REGS_PARM3 :: "user_pt_regs \<Rightarrow> u64" where "PT_REGS_PARM3 x = pr_regs x 2"
definition PT_REGS_PARM4 :: "user_pt_regs \<Rightarrow> u64" where "PT_REGS_PARM4 x = pr_regs x 3"
definition PT_REGS_RC :: "user_pt_regs \<Rightarrow> u64" where "PT_REGS_RC x = pr_regs x 0"

lemmas pt_regs_defs = PT_REGS_PARM1_def PT_REGS_PARM2_def PT_REGS_PARM3_def
  PT_REGS_PARM4_def PT_REGS_RC_def

section \<open>The state between invocations\<close>

text \<open>
  The per-CPU scratch buffer \<^verbatim>\<open>buf_t\<close>, split where the program splits it: the method
  header it overlays on the first bytes and the bytes behind that header.
\<close>

record buf_t =
  bt_hdr :: method_event_data_t
  bt_code :: "u8 list"

text \<open>
  \<open>out\<close> is the log of all records submitted so far, with the wake-up flag of each;
  \<open>rb_tries\<close> counts the requests made on a ring; \<open>rb_held\<close> counts the records reserved
  and neither submitted nor discarded.
\<close>

record bpf_state =
  config_map :: "config_t option"
  art_layout_map :: "art_layout_t option"
  dexFileCache_map :: "(capture_key_t \<times> u32) list"
  methodCodeCache_map :: "(capture_key_t \<times> u32) list"
  dexProgress_map :: "(capture_key_t \<times> u32) list"
  native_copy_args_map :: "(u64 \<times> native_copy_args_t) list"
  native_alloc_args_map :: "(u64 \<times> native_alloc_args_t) list"
  bufs_m :: "nat \<Rightarrow> buf_t option"
  out :: "(bpf_event \<times> u64) list"
  rb_tries :: "ring \<Rightarrow> nat"
  rb_held :: int

section \<open>Kernel helpers\<close>

text \<open>
  \<^verbatim>\<open>bpf_probe_read_user\<close> into an integer. \<open>None\<close> is a nonzero return. Where the program
  ignores the return value, the destination was initialised to zero before the call, and
  a failed call leaves zero there: \<open>probe_u32\<close>, \<open>probe_u64\<close>, \<open>probe_u8\<close>.
\<close>

definition bpf_probe_read_user :: "env \<Rightarrow> nat \<Rightarrow> u64 \<Rightarrow> u8 list option" where
  "bpf_probe_read_user e n a = read_bytes (e_mem e) a n"

definition read_u8 :: "env \<Rightarrow> u64 \<Rightarrow> u8 option" where
  "read_u8 e a = map_option le_word (bpf_probe_read_user e 1 a)"
definition read_u32 :: "env \<Rightarrow> u64 \<Rightarrow> u32 option" where
  "read_u32 e a = map_option le_word (bpf_probe_read_user e 4 a)"
definition read_u64 :: "env \<Rightarrow> u64 \<Rightarrow> u64 option" where
  "read_u64 e a = map_option le_word (bpf_probe_read_user e 8 a)"

definition or_zero :: "'a::zero option \<Rightarrow> 'a" where
  "or_zero r = (case r of None \<Rightarrow> 0 | Some v \<Rightarrow> v)"

definition probe_u8 :: "env \<Rightarrow> u64 \<Rightarrow> u8" where "probe_u8 e a = or_zero (read_u8 e a)"
definition probe_u32 :: "env \<Rightarrow> u64 \<Rightarrow> u32" where "probe_u32 e a = or_zero (read_u32 e a)"
definition probe_u64 :: "env \<Rightarrow> u64 \<Rightarrow> u64" where "probe_u64 e a = or_zero (read_u64 e a)"

text \<open>
  \<^verbatim>\<open>bpf_probe_read_user_str\<close> into a zeroed array of \<open>n\<close> bytes: at most \<open>n - 1\<close> bytes
  before the NUL are copied; a failed call leaves the array zero.
\<close>

definition bpf_probe_read_user_str :: "env \<Rightarrow> nat \<Rightarrow> u64 \<Rightarrow> u8 list" where
  "bpf_probe_read_user_str e n a =
     (case read_cstr (e_mem e) a (n - 1) of
        None \<Rightarrow> replicate n 0
      | Some cs \<Rightarrow> cs @ replicate (n - length cs) 0)"

definition bpf_ringbuf_reserve :: "env \<Rightarrow> ring \<Rightarrow> bpf_state \<Rightarrow> bool \<times> bpf_state" where
  "bpf_ringbuf_reserve e r s =
     (let ok = e_rb_ok e r (rb_tries s r);
          s1 = s\<lparr>rb_tries := (rb_tries s)(r := Suc (rb_tries s r))\<rparr>
      in (ok, if ok then s1\<lparr>rb_held := rb_held s1 + 1\<rparr> else s1))"

definition bpf_ringbuf_submit :: "bpf_event \<Rightarrow> u64 \<Rightarrow> bpf_state \<Rightarrow> bpf_state" where
  "bpf_ringbuf_submit evt flags s = s\<lparr>out := out s @ [(evt, flags)], rb_held := rb_held s - 1\<rparr>"

definition bpf_ringbuf_discard :: "bpf_state \<Rightarrow> bpf_state" where
  "bpf_ringbuf_discard s = s\<lparr>rb_held := rb_held s - 1\<rparr>"

definition bpf_ringbuf_output :: "env \<Rightarrow> bpf_event \<Rightarrow> u64 \<Rightarrow> bpf_state \<Rightarrow> bpf_state" where
  "bpf_ringbuf_output e evt flags s =
     (let r = ring_of evt;
          ok = e_rb_ok e r (rb_tries s r);
          s1 = s\<lparr>rb_tries := (rb_tries s)(r := Suc (rb_tries s r))\<rparr>
      in if ok then s1\<lparr>out := out s1 @ [(evt, flags)]\<rparr> else s1)"

lemmas ringbuf_defs = bpf_ringbuf_reserve_def bpf_ringbuf_submit_def bpf_ringbuf_discard_def
  bpf_ringbuf_output_def

section \<open>Small helpers of the program\<close>

definition valid_uid :: "u32 \<Rightarrow> bool" where
  "valid_uid uid \<longleftrightarrow> uid \<noteq> INVALID_UID_PID"

definition is_compressed_ref :: "u64 \<Rightarrow> bool" where
  "is_compressed_ref artmethod \<longleftrightarrow> artmethod AND 0xFFFFFFFF00000000 = 0"

definition untag :: "u64 \<Rightarrow> u64" where
  "untag ptr = ptr AND 0x00ffffffffffffff"

definition current_tgid :: "env \<Rightarrow> u32" where
  "current_tgid e = ucast (drop_bit 32 (e_pid_tgid e))"

definition get_config :: "bpf_state \<Rightarrow> config_t option" where
  "get_config s = config_map s"

definition get_art_layout :: "bpf_state \<Rightarrow> art_layout_t" where
  "get_art_layout s = (case art_layout_map s of Some layout \<Rightarrow> layout | None \<Rightarrow> default_art_layout)"

definition trace_allowed :: "config_t option \<Rightarrow> u32 \<Rightarrow> u32 \<Rightarrow> bool" where
  "trace_allowed conf pid uid =
     (case conf of None \<Rightarrow> True
      | Some c \<Rightarrow>
          if valid_uid (cfg_uid c) \<and> cfg_uid c \<noteq> uid then False
          else if valid_uid (cfg_pid c) \<and> cfg_pid c \<noteq> pid then False
          else True)"

definition bpf_get_current_uid_gid_u32 :: "env \<Rightarrow> u32" where
  "bpf_get_current_uid_gid_u32 e = ucast (e_uid_gid e)"

lemma untag_idem [simp]: "untag (untag p) = untag p"
  by (simp add: untag_def and.assoc)

lemma untag_0 [simp]: "untag 0 = 0"
  by (simp add: untag_def)

lemma untag_lt: "untag p < 2 ^ 56"
proof -
  have "untag p \<le> 0x00ffffffffffffff" by (simp add: untag_def word_and_le1)
  then show ?thesis by (rule le_less_trans) simp
qed

lemma untag_eq_mod: "untag p = p mod 2 ^ 56"
proof -
  have "p AND mask 56 = take_bit 56 p" by (simp add: take_bit_eq_mask)
  moreover have "(mask 56 :: u64) = 0x00ffffffffffffff" by (simp add: mask_eq_exp_minus_1)
  moreover have "take_bit 56 p = p mod 2 ^ 56" by (simp add: take_bit_eq_mod)
  ultimately show ?thesis by (simp add: untag_def)
qed

lemma is_compressed_ref_iff: "is_compressed_ref p \<longleftrightarrow> p < 2 ^ 32"
proof -
  have "(0xFFFFFFFF00000000 :: u64) = NOT (mask 32)" by code_simp
  then have "(p AND 0xFFFFFFFF00000000 = 0) \<longleftrightarrow> p AND NOT (mask 32) = 0" by simp
  also have "\<dots> \<longleftrightarrow> take_bit 32 p = p"
  proof
    assume hi: "p AND NOT (mask 32) = 0"
    have "p = (p AND mask 32) OR (p AND NOT (mask 32))"
      by (rule bit_word_eqI) (auto simp: bit_simps)
    with hi show "take_bit 32 p = p" by (simp add: take_bit_eq_mask)
  next
    assume "take_bit 32 p = p"
    then have "p AND NOT (mask 32) = (p AND mask 32) AND NOT (mask 32)"
      by (simp add: take_bit_eq_mask)
    then show "p AND NOT (mask 32) = 0" by (simp add: and.assoc)
  qed
  also have "\<dots> \<longleftrightarrow> p < 2 ^ 32"
  proof -
    have "take_bit 32 p = p \<longleftrightarrow> unat p mod 2 ^ 32 = unat p"
      by (simp add: take_bit_eq_mod word_unat_eq_iff unat_mod_distrib)
    also have "\<dots> \<longleftrightarrow> unat p < 2 ^ 32"
      by (metis mod_less mod_less_divisor zero_less_numeral zero_less_power)
    finally show ?thesis by (simp add: word_less_nat_alt)
  qed
  finally show ?thesis by (simp add: is_compressed_ref_def)
qed

section \<open>Appending to the log\<close>

text \<open>
  \<open>emits s evs s'\<close>: the only effect between \<open>s\<close> and \<open>s'\<close> is that the records \<open>evs\<close>
  were sent, in that order, possibly after further requests for ring space; every record
  reserved on the way was given back. It is the frame rule of all code that only sends.
\<close>

definition emits :: "bpf_state \<Rightarrow> (bpf_event \<times> u64) list \<Rightarrow> bpf_state \<Rightarrow> bool" where
  "emits s evs s' \<longleftrightarrow> s' = s\<lparr>out := out s @ evs, rb_tries := rb_tries s'\<rparr>"

lemma emits_refl [simp, intro]: "emits s [] s"
  by (simp add: emits_def)

lemma emits_trans: "emits s a t \<Longrightarrow> emits t b u \<Longrightarrow> emits s (a @ b) u"
proof -
  assume "emits s a t" and "emits t b u"
  then have t: "t = s\<lparr>out := out s @ a, rb_tries := rb_tries t\<rparr>"
    and u: "u = t\<lparr>out := out t @ b, rb_tries := rb_tries u\<rparr>"
    by (simp_all add: emits_def)
  have "u = s\<lparr>out := out s @ a @ b, rb_tries := rb_tries u\<rparr>"
    by (subst u, subst t, subst (2) t) simp
  then show ?thesis by (simp add: emits_def)
qed

lemma emits_frame:
  assumes "emits s evs s'"
  shows "config_map s' = config_map s" "art_layout_map s' = art_layout_map s"
    "dexFileCache_map s' = dexFileCache_map s" "methodCodeCache_map s' = methodCodeCache_map s"
    "dexProgress_map s' = dexProgress_map s" "native_copy_args_map s' = native_copy_args_map s"
    "native_alloc_args_map s' = native_alloc_args_map s" "bufs_m s' = bufs_m s"
    "out s' = out s @ evs" "rb_held s' = rb_held s"
  using assms by (cases s; cases s'; simp add: emits_def)+

text \<open>Reserve one record, fill it and submit it, or give up when there is no space.\<close>

definition send :: "env \<Rightarrow> bpf_event \<Rightarrow> u64 \<Rightarrow> bpf_state \<Rightarrow> bpf_state" where
  "send e evt flags s =
     (let (ok, s1) = bpf_ringbuf_reserve e (ring_of evt) s
      in if ok then bpf_ringbuf_submit evt flags s1 else s1)"

lemma send_emits [emit_rules]:
  "emits s (if e_rb_ok e (ring_of evt) (rb_tries s (ring_of evt)) then [(evt, flags)] else [])
     (send e evt flags s)"
  by (simp add: send_def emits_def ringbuf_defs Let_def)

lemma output_emits [emit_rules]:
  "emits s (if e_rb_ok e (ring_of evt) (rb_tries s (ring_of evt)) then [(evt, flags)] else [])
     (bpf_ringbuf_output e evt flags s)"
  by (simp add: emits_def ringbuf_defs Let_def)

definition empty_state :: bpf_state where
  "empty_state = \<lparr>
     config_map = None, art_layout_map = None,
     dexFileCache_map = [], methodCodeCache_map = [], dexProgress_map = [],
     native_copy_args_map = [], native_alloc_args_map = [],
     bufs_m = (\<lambda>_. Some \<lparr>bt_hdr = \<lparr>med_begin = 0, med_pid = 0, med_size = 0, med_thread = 0,
         med_art_method_ptr = 0, med_method_index = 0, med_codeitem_size = 0\<rparr>,
       bt_code = replicate (MAX_PERCPU_BUFSIZE - c_sizeof method_event_members) 0\<rparr>),
     out = [], rb_tries = (\<lambda>_. 0), rb_held = 0\<rparr>"

end
