(* ===== verification/Dex_Probe.thy ===== *)
theory Dex_Probe
  imports Bpf_Env
begin

text \<open>
  Finding a DEX in the memory of the traced process: the header check
  (\<^verbatim>\<open>looks_like_dex_header\<close>), the search for \<^verbatim>\<open>DexFile::begin_\<close> over the known layouts
  (\<^verbatim>\<open>read_valid_dex_begin\<close>) and the pointer walk from an \<^verbatim>\<open>ArtMethod\<close> to its DEX
  (\<^verbatim>\<open>read_dex_from_art_method\<close>, \<^verbatim>\<open>resolve_dex_from_art_method\<close>), all from \<^verbatim>\<open>bpf/bpf.c\<close>.
  A C function with out-parameters returns the tuple of its return value and their final
  contents.
\<close>

section \<open>The header check\<close>

definition looks_like_dex_header :: "env \<Rightarrow> u64 \<Rightarrow> u32 \<Rightarrow> bool \<times> u32" where
  "looks_like_dex_header e addr dex_header_file_size_off =
     (if addr = 0 then (False, 0)
      else case read_u32 e (untag addr) of None \<Rightarrow> (False, 0)
      | Some magic \<Rightarrow>
        if magic \<noteq> DEX_MAGIC then (False, 0)
        else case read_u32 e (untag addr + 0x24) of None \<Rightarrow> (False, 0)
        | Some header_size \<Rightarrow>
          (case read_u32 e (untag addr + 0x28) of None \<Rightarrow> (False, 0)
           | Some endian_tag \<Rightarrow>
             if header_size \<noteq> DEX_HEADER_SIZE \<or> endian_tag \<noteq> DEX_ENDIAN_CONSTANT then (False, 0)
             else case read_u32 e (untag addr + ucast dex_header_file_size_off) of
                 None \<Rightarrow> (False, 0)
               | Some sz \<Rightarrow>
                   (NATIVE_MIN_COPY_SIZE \<le> ucast sz \<and> sz \<le> MAX_DEX_FILE_SIZE, sz)))"

text \<open>What the check promises: a DEX header of that size is readable at that address.\<close>

definition dex_size_ok :: "u32 \<Rightarrow> bool" where
  "dex_size_ok sz \<longleftrightarrow> 0x70 \<le> sz \<and> sz \<le> 0x40000000"

definition dex_header_at :: "env \<Rightarrow> u32 \<Rightarrow> u64 \<Rightarrow> u32 \<Rightarrow> bool" where
  "dex_header_at e off a sz \<longleftrightarrow>
     a \<noteq> 0 \<and>
     read_u32 e (untag a) = Some 0x0a786564 \<and>
     read_u32 e (untag a + 0x24) = Some 0x70 \<and>
     read_u32 e (untag a + 0x28) = Some 0x12345678 \<and>
     read_u32 e (untag a + ucast off) = Some sz \<and>
     dex_size_ok sz"

lemma min_copy_le_iff: "NATIVE_MIN_COPY_SIZE \<le> ucast (sz :: u32) \<longleftrightarrow> 0x70 \<le> sz"
proof -
  have "unat (ucast sz :: u64) = unat sz"
    by (simp add: unsigned_ucast_eq take_bit_nat_eq_self order.strict_trans [OF unsigned_less])
  then show ?thesis by (simp add: NATIVE_MIN_COPY_SIZE_def word_le_nat_alt)
qed

lemma looks_like_dex_header_iff:
  "looks_like_dex_header e a off = (True, sz) \<longleftrightarrow> dex_header_at e off a sz"
  by (auto simp: looks_like_dex_header_def dex_header_at_def dex_size_ok_def dex_consts
      min_copy_le_iff split: option.splits if_splits)

lemma looks_like_dex_header_cases:
  obtains (yes) sz where "looks_like_dex_header e a off = (True, sz)"
      "dex_header_at e off a sz"
  | (no) sz where "looks_like_dex_header e a off = (False, sz)"
      "\<nexists>sz. dex_header_at e off a sz"
proof (cases "looks_like_dex_header e a off")
  case (Pair ok sz)
  then show ?thesis
  proof (cases ok)
    case True
    with Pair show ?thesis using yes by (simp add: looks_like_dex_header_iff)
  next
    case False
    then have "\<nexists>sz. dex_header_at e off a sz"
      using Pair by (metis Pair_inject looks_like_dex_header_iff)
    with Pair False no show ?thesis by simp
  qed
qed

lemma dex_header_at_unique:
  "dex_header_at e off a sz \<Longrightarrow> dex_header_at e off a sz' \<Longrightarrow> sz = sz'"
  by (simp add: dex_header_at_def)

lemma dex_header_at_size: "dex_header_at e off a sz \<Longrightarrow> dex_size_ok sz"
  by (simp add: dex_header_at_def)

lemma dex_header_at_nonzero: "dex_header_at e off a sz \<Longrightarrow> a \<noteq> 0"
  by (simp add: dex_header_at_def)

lemma dex_size_ok_pos: "dex_size_ok sz \<Longrightarrow> 0 < sz \<and> sz \<noteq> 0 \<and> sz \<le> MAX_DEX_FILE_SIZE"
proof -
  assume "dex_size_ok sz"
  moreover have "0 < (0x70 :: u32)" by simp
  ultimately show ?thesis
    by (metis MAX_DEX_FILE_SIZE_def dex_size_ok_def less_le_trans less_irrefl)
qed

section \<open>The begin pointer\<close>

fun first_dex_begin :: "env \<Rightarrow> u64 \<Rightarrow> u32 \<Rightarrow> u32 list \<Rightarrow> bool \<times> u64 \<times> u32" where
  "first_dex_begin e dex_file_ptr hdr_off [] = (False, 0, 0)"
| "first_dex_begin e dex_file_ptr hdr_off (off # offs) =
     (let candidate = untag (probe_u64 e (dex_file_ptr + ucast off));
          (ok, candidate_size) = looks_like_dex_header e candidate hdr_off
      in if ok then (True, candidate, candidate_size)
         else first_dex_begin e dex_file_ptr hdr_off offs)"

definition begin_offsets :: "u32 \<Rightarrow> u32 list" where
  "begin_offsets configured = [configured, 0x08, 0x10, 0x18, 0x20]"

definition read_valid_dex_begin :: "env \<Rightarrow> u64 \<Rightarrow> u32 \<Rightarrow> u32 \<Rightarrow> bool \<times> u64 \<times> u32" where
  "read_valid_dex_begin e dex_file_ptr configured_offset hdr_off =
     first_dex_begin e dex_file_ptr hdr_off (begin_offsets configured_offset)"

definition begin_candidate :: "env \<Rightarrow> u64 \<Rightarrow> u32 \<Rightarrow> u64" where
  "begin_candidate e p off = untag (probe_u64 e (p + ucast off))"

lemma first_dex_begin_spec:
  "first_dex_begin e p hdr offs =
     (case filter (\<lambda>off. \<exists>sz. dex_header_at e hdr (begin_candidate e p off) sz) offs of
        [] \<Rightarrow> (False, 0, 0)
      | off # _ \<Rightarrow> (True, begin_candidate e p off,
                   snd (looks_like_dex_header e (begin_candidate e p off) hdr)))"
proof (induction offs)
  case Nil
  then show ?case by simp
next
  case (Cons off offs)
  show ?case
    by (rule looks_like_dex_header_cases
          [where e = e and a = "begin_candidate e p off" and off = hdr])
      (use Cons in \<open>auto simp: begin_candidate_def Let_def\<close>)
qed

lemma first_dex_begin_True:
  assumes "first_dex_begin e p hdr offs = (True, b, sz)"
  shows "dex_header_at e hdr b sz \<and> untag b = b"
  using assms
proof (induction offs)
  case Nil
  then show ?case by simp
next
  case (Cons off offs)
  then show ?case
    by (auto simp: Let_def looks_like_dex_header_iff split: prod.splits if_splits)
qed

lemma first_dex_begin_False:
  "first_dex_begin e p hdr offs = (False, b, sz) \<Longrightarrow> b = 0 \<and> sz = 0"
  by (induction offs) (auto simp: Let_def split: prod.splits if_splits)

section \<open>From an ArtMethod to its DEX\<close>

definition read_dex_from_art_method ::
  "env \<Rightarrow> u64 \<Rightarrow> u32 \<Rightarrow> u32 \<Rightarrow> u32 \<Rightarrow> u32 \<Rightarrow> u32 \<Rightarrow> bool \<times> u64 \<times> u32" where
  "read_dex_from_art_method e art_method_ptr declaring_class_off class_dex_cache_off
      dex_cache_dex_file_off dex_file_begin_off hdr_off =
     (let declaring_class_ptr = ucast (probe_u32 e (art_method_ptr + ucast declaring_class_off)) :: u64
      in if declaring_class_ptr = 0 then (False, 0, 0)
      else let dex_cache_ptr = ucast (probe_u32 e (declaring_class_ptr + ucast class_dex_cache_off)) :: u64
      in if dex_cache_ptr = 0 then (False, 0, 0)
      else let dex_file_ptr = untag (probe_u64 e (dex_cache_ptr + ucast dex_cache_dex_file_off))
      in if dex_file_ptr = 0 then (False, 0, 0)
      else let (ok, dbegin, sz) = read_valid_dex_begin e dex_file_ptr dex_file_begin_off hdr_off
      in if \<not> ok then (False, dbegin, sz)
      else (True, untag dbegin, sz))"

text \<open>The nested search over class and dex-cache slots, in loop order.\<close>

definition class_slots :: "(u32 \<times> u32) list" where
  "class_slots = concat (map (\<lambda>class_slot. map (\<lambda>dex_cache_slot.
     (0x10 + of_nat class_slot * 8, 0x10 + of_nat dex_cache_slot * 8)) [0..<4]) [0..<4])"

fun try_slots :: "env \<Rightarrow> u64 \<Rightarrow> art_layout_t \<Rightarrow> (u32 \<times> u32) list \<Rightarrow> bool \<times> u64 \<times> u32" where
  "try_slots e am layout [] = (False, 0, 0)"
| "try_slots e am layout ((class_dex_cache_off, dex_cache_dex_file_off) # slots) =
     (let (ok, dbegin, sz) = read_dex_from_art_method e am
          (art_method_declaring_class_offset layout) class_dex_cache_off dex_cache_dex_file_off
          (dex_file_begin_offset layout) (dex_header_file_size_offset layout)
      in if ok then (True, dbegin, sz) else try_slots e am layout slots)"

definition resolve_dex_from_art_method ::
  "env \<Rightarrow> u64 \<Rightarrow> art_layout_t \<Rightarrow> bool \<times> u64 \<times> u32 \<times> u32" where
  "resolve_dex_from_art_method e am layout =
     (let dex_method_index = probe_u32 e (am + ucast (art_method_dex_method_index_offset layout));
          (ok, dbegin, sz) = read_dex_from_art_method e am
            (art_method_declaring_class_offset layout) (class_dex_cache_offset layout)
            (dex_cache_dex_file_offset layout) (dex_file_begin_offset layout)
            (dex_header_file_size_offset layout)
      in if ok then (True, dbegin, sz, dex_method_index)
         else let (ok2, begin2, size2) = try_slots e am layout class_slots
              in (ok2, begin2, size2, dex_method_index))"

definition read_code_item_from_art_method :: "env \<Rightarrow> u64 \<Rightarrow> art_layout_t \<Rightarrow> bool \<times> u64" where
  "read_code_item_from_art_method e am layout =
     (case read_u64 e (am + ucast (art_method_data_offset layout)) of
        None \<Rightarrow> (False, 0)
      | Some p \<Rightarrow> (untag p \<noteq> 0, untag p))"

lemma read_dex_from_art_method_True:
  assumes "read_dex_from_art_method e am dc cdc dcf dfb hdr = (True, b, sz)"
  shows "dex_header_at e hdr b sz \<and> untag b = b"
  using assms
  by (auto simp: read_dex_from_art_method_def read_valid_dex_begin_def Let_def
      dest: first_dex_begin_True split: prod.splits if_splits)

lemma read_dex_from_art_method_False:
  assumes "read_dex_from_art_method e am dc cdc dcf dfb hdr = (False, b, sz)"
  shows "b = 0 \<and> sz = 0"
  using assms
  by (auto simp: read_dex_from_art_method_def read_valid_dex_begin_def Let_def
      dest: first_dex_begin_False split: prod.splits if_splits)

text \<open>Whether one pair of slots leads to a DEX.\<close>

definition slot_hits :: "env \<Rightarrow> u64 \<Rightarrow> art_layout_t \<Rightarrow> u32 \<times> u32 \<Rightarrow> bool" where
  "slot_hits e am layout sl = fst (read_dex_from_art_method e am
     (art_method_declaring_class_offset layout) (fst sl) (snd sl)
     (dex_file_begin_offset layout) (dex_header_file_size_offset layout))"

lemma try_slots_True:
  "try_slots e am layout slots = (True, b, sz) \<Longrightarrow>
     dex_header_at e (dex_header_file_size_offset layout) b sz \<and> untag b = b"
  by (induction slots)
    (auto simp: Let_def dest: read_dex_from_art_method_True split: prod.splits if_splits)

lemma try_slots_fst: "fst (try_slots e am layout slots) \<longleftrightarrow> (\<exists>sl\<in>set slots. slot_hits e am layout sl)"
  by (induction slots) (auto simp: Let_def slot_hits_def split: prod.splits if_splits)

lemma try_slots_False:
  "try_slots e am layout slots = (False, b, sz) \<Longrightarrow> b = 0 \<and> sz = 0"
  by (induction slots) (auto simp: Let_def split: prod.splits if_splits)

lemma class_slots_eq: "class_slots =
   [(0x10, 0x10), (0x10, 0x18), (0x10, 0x20), (0x10, 0x28),
    (0x18, 0x10), (0x18, 0x18), (0x18, 0x20), (0x18, 0x28),
    (0x20, 0x10), (0x20, 0x18), (0x20, 0x20), (0x20, 0x28),
    (0x28, 0x10), (0x28, 0x18), (0x28, 0x20), (0x28, 0x28)]"
  by (simp add: class_slots_def upt_rec)

lemma resolve_dex_True:
  assumes "resolve_dex_from_art_method e am layout = (True, b, sz, idx)"
  shows "dex_header_at e (dex_header_file_size_offset layout) b sz" and "untag b = b"
  using assms
  by (auto simp: resolve_dex_from_art_method_def Let_def
      dest: read_dex_from_art_method_True try_slots_True split: prod.splits if_splits)

end
