(* ===== verification/Dex_Transfer.thy ===== *)
theory Dex_Transfer
  imports Chunks
begin

text \<open>
  Consequences of the chunk tiling for whole calls and sequences of calls: the payloads of
  a call are the bytes of the traced memory, progress never goes back and never passes
  the DEX's size, and unobstructed calls transfer any accepted DEX completely.
\<close>

section \<open>Tilings\<close>

fun payload_of :: "bpf_event \<Rightarrow> u8 list" where
  "payload_of (Dex_chunk _ bytes) = bytes"
| "payload_of _ = []"

lemma payload_of_chunk_event [simp]: "payload_of (chunk_event b pid sz off len bytes) = bytes"
  by (simp add: chunk_event_def)

text \<open>The promises a consumer may rely on for each single chunk record.\<close>

definition chunk_header_ok :: "dex_chunk_event_t \<Rightarrow> u8 list \<Rightarrow> bool" where
  "chunk_header_ok h bytes \<longleftrightarrow>
     0 < unat (dce_data_len h) \<and> unat (dce_data_len h) \<le> 131048 \<and>
     length bytes = unat (dce_data_len h) \<and>
     unat (dce_offset h) + unat (dce_data_len h) \<le> unat (dce_size h)"

fun chunk_ok :: "bpf_event \<Rightarrow> bool" where
  "chunk_ok (Dex_chunk h bytes) = chunk_header_ok h bytes"
| "chunk_ok _ = True"

lemma tiles_le:
  "tiles e b pid sz from cs to \<Longrightarrow> from \<le> sz \<Longrightarrow> from \<le> to \<and> to \<le> sz"
proof (induction cs arbitrary: "from")
  case Nil
  then show ?case by simp
next
  case (Cons c cs)
  then have lt: "from < sz" by simp
  from Cons.prems have "tiles e b pid sz (from + chunk_len sz from) cs to" by simp
  then have "from + chunk_len sz from \<le> to \<and> to \<le> sz"
    using Cons.IH chunk_step(2) [OF lt] by blast
  moreover have "from \<le> from + chunk_len sz from"
    using chunk_step(1) [OF lt] by (simp add: word_le_nat_alt)
  ultimately show ?case by (blast intro: order_trans)
qed

lemma tiles_chunk_ok:
  "tiles e b pid sz from cs to \<Longrightarrow> c \<in> set cs \<Longrightarrow>
     chunk_ok c \<and> ring_of c = dex_chunks \<and> event_pid c = pid"
proof (induction cs arbitrary: "from")
  case Nil
  then show ?case by simp
next
  case (Cons d cs)
  then have lt: "from < sz" by simp
  have "chunk_ok d \<and> ring_of d = dex_chunks \<and> event_pid d = pid"
    using Cons.prems(1) chunk_len_pos [OF lt] chunk_len_unat [OF lt] chunk_step [OF lt]
    by (auto simp: chunk_event_def chunk_header_ok_def bpf_probe_read_user_def
        word_less_nat_alt word_le_nat_alt dest: read_bytes_length split: option.splits)
  with Cons show ?case by auto
qed

lemma tiles_payload:
  assumes "tiles e b pid sz from cs to" and "from \<le> sz"
  shows "read_bytes (e_mem e) (b + ucast from) (unat to - unat from) =
    Some (concat (map payload_of cs))"
  using assms
proof (induction cs arbitrary: "from")
  case Nil
  then show ?case by simp
next
  case (Cons c cs)
  let ?len = "chunk_len sz from" and ?next = "from + chunk_len sz from"
  from Cons.prems have lt: "from < sz" by simp
  from Cons.prems(1) obtain bytes where
    r: "read_bytes (e_mem e) (b + ucast from) (unat ?len) = Some bytes"
    and c: "payload_of c = bytes" and t: "tiles e b pid sz ?next cs to"
    by (auto simp: bpf_probe_read_user_def split: option.splits)
  from t chunk_step(2) [OF lt] have IH: "read_bytes (e_mem e) (b + ucast ?next)
      (unat to - unat ?next) = Some (concat (map payload_of cs))"
    by (rule Cons.IH)
  have u: "unat ?next = unat from + unat ?len" by (rule chunk_step(1) [OF lt])
  have "(ucast ?next :: u64) = of_nat (unat from + unat ?len)"
    unfolding u [symmetric] by (rule of_nat_unat [symmetric])
  then have "b + ucast ?next = b + ucast from + of_nat (unat ?len)"
    by (simp add: add.assoc)
  with IH have "read_bytes (e_mem e) (b + ucast from + of_nat (unat ?len))
      (unat to - unat ?next) = Some (concat (map payload_of cs))" by simp
  from read_bytes_append [OF r this] tiles_le [OF t chunk_step(2) [OF lt]] c u
  show ?case by (simp add: word_le_nat_alt)
qed

lemma tiles_bytes_before:
  "tiles e b pid sz from cs to \<Longrightarrow> from \<le> sz \<Longrightarrow>
     length (concat (map payload_of cs)) = unat to - unat from"
  using tiles_payload read_bytes_length by fastforce

section \<open>Progress\<close>

definition dex_progress :: "bpf_state \<Rightarrow> capture_key_t \<Rightarrow> u32" where
  "dex_progress s key = (case map_of (dexProgress_map s) key of None \<Rightarrow> 0 | Some v \<Rightarrow> v)"

definition progress_ok :: "(capture_key_t \<times> u32) list \<Rightarrow> bool" where
  "progress_ok m \<longleftrightarrow> distinct (map fst m) \<and> (\<forall>(k, v) \<in> set m. v \<le> ck_size k)"

lemma progress_ok_update:
  "progress_ok m \<Longrightarrow> v \<le> ck_size k \<Longrightarrow> progress_ok (AList.update k v m)"
  by (auto simp: progress_ok_def distinct_update dest!: subsetD [OF set_update_subset])

lemma progress_ok_delete: "progress_ok m \<Longrightarrow> progress_ok (AList.delete k m)"
  by (auto simp: progress_ok_def distinct_delete dest!: subsetD [OF set_delete_subset])

lemma dex_progress_le: "progress_ok (dexProgress_map s) \<Longrightarrow> dex_progress s k \<le> ck_size k"
  by (auto simp: progress_ok_def dex_progress_def dest: map_of_set split: option.splits)

text \<open>One call: what it sends and where it leaves the progress of its DEX.\<close>

lemma submit_partial_call:
  assumes "0 < sz" and "dex_progress s key < sz" and key: "key = dex_key e pid b sz"
  shows "\<exists>to cs fs.
     tiles e b pid sz (dex_progress s key) cs to \<and> length cs \<le> MAX_CHUNKS_PER_CALL \<and>
     failure_tail b pid sz to fs \<and>
     chunk_loop MAX_CHUNKS_PER_CALL e b pid sz (dex_progress s key) s =
       (to, (submit_dex_chunks_partial e b pid sz s)\<lparr>dexProgress_map := dexProgress_map s\<rparr>) \<and>
     emits (s\<lparr>dexProgress_map := AList.update key to (dexProgress_map s)\<rparr>) (forced (cs @ fs))
       (submit_dex_chunks_partial e b pid sz s)"
proof -
  obtain to s1 where run: "chunk_loop MAX_CHUNKS_PER_CALL e b pid sz (dex_progress s key) s = (to, s1)"
    by (rule prod.exhaust)
  from chunk_loop_tiles [OF run] obtain cs fs where em: "emits s (forced (cs @ fs)) s1"
    and t: "tiles e b pid sz (dex_progress s key) cs to" "length cs \<le> MAX_CHUNKS_PER_CALL"
      "failure_tail b pid sz to fs" by blast
  let ?s' = "submit_dex_chunks_partial e b pid sz s"
  have s': "?s' = s1\<lparr>dexProgress_map := AList.update key to (dexProgress_map s)\<rparr>"
    using assms run emits_frame(5) [OF em]
    by (auto simp: submit_dex_chunks_partial_def dex_progress_def Let_def split: option.splits)
  then have "s1 = ?s'\<lparr>dexProgress_map := dexProgress_map s\<rparr>"
    using emits_frame(5) [OF em] by simp
  moreover have "emits (s\<lparr>dexProgress_map := AList.update key to (dexProgress_map s)\<rparr>)
      (forced (cs @ fs)) ?s'"
    using em s' by (cases s; cases s1; simp add: emits_def)
  ultimately show ?thesis using run t by blast
qed

lemma submit_partial_idle:
  assumes "sz = 0 \<or> sz \<le> dex_progress s (dex_key e pid b sz)"
  shows "submit_dex_chunks_partial e b pid sz s = s"
  using assms
  by (auto simp: submit_dex_chunks_partial_def dex_progress_def Let_def split: option.splits)

lemma submit_partial_cases:
  obtains (idle) "submit_dex_chunks_partial e b pid sz s = s"
      "sz = 0 \<or> sz \<le> dex_progress s (dex_key e pid b sz)"
  | (sent) to cs fs where "0 < sz" "dex_progress s (dex_key e pid b sz) < sz"
      "tiles e b pid sz (dex_progress s (dex_key e pid b sz)) cs to"
      "length cs \<le> MAX_CHUNKS_PER_CALL" "failure_tail b pid sz to fs"
      "emits (s\<lparr>dexProgress_map := AList.update (dex_key e pid b sz) to (dexProgress_map s)\<rparr>)
         (forced (cs @ fs)) (submit_dex_chunks_partial e b pid sz s)"
proof (cases "sz = 0 \<or> sz \<le> dex_progress s (dex_key e pid b sz)")
  case True
  then show ?thesis using idle submit_partial_idle by blast
next
  case False
  then have "0 < sz" and "dex_progress s (dex_key e pid b sz) < sz"
    by (auto simp: word_gt_0)
  from submit_partial_call [OF this refl] this sent show ?thesis by blast
qed

lemma submit_partial_progress:
  "dex_progress s (dex_key e pid b sz) \<le>
     dex_progress (submit_dex_chunks_partial e b pid sz s) (dex_key e pid b sz)"
proof (cases rule: submit_partial_cases [where e = e and b = b and pid = pid and sz = sz and s = s])
  case idle
  then show ?thesis by simp
next
  case (sent to cs fs)
  let ?k = "dex_key e pid b sz"
  from emits_frame(5) [OF sent(6)]
  have "dex_progress (submit_dex_chunks_partial e b pid sz s) ?k = to"
    by (simp add: dex_progress_def update_conv')
  with tiles_le [OF sent(3)] sent(2) show ?thesis by (simp add: order_less_imp_le)
qed

lemma submit_partial_other:
  assumes "k \<noteq> dex_key e pid b sz"
  shows "map_of (dexProgress_map (submit_dex_chunks_partial e b pid sz s)) k =
    map_of (dexProgress_map s) k"
proof (cases rule: submit_partial_cases [where e = e and b = b and pid = pid and sz = sz and s = s])
  case idle
  then show ?thesis by simp
next
  case (sent to cs fs)
  with assms emits_frame(5) [OF sent(6)] show ?thesis by (simp add: update_conv')
qed

lemma submit_partial_progress_ok:
  assumes "progress_ok (dexProgress_map s)"
  shows "progress_ok (dexProgress_map (submit_dex_chunks_partial e b pid sz s))"
proof (cases rule: submit_partial_cases [where e = e and b = b and pid = pid and sz = sz and s = s])
  case idle
  with assms show ?thesis by simp
next
  case (sent to cs fs)
  with tiles_le [OF sent(3)] have "to \<le> ck_size (dex_key e pid b sz)" by simp
  with assms emits_frame(5) [OF sent(6)] show ?thesis by (simp add: progress_ok_update)
qed

section \<open>Unobstructed transfer\<close>

text \<open>
  \<open>dex_tiles b pid sz D from evs to\<close>: the chunks carry the consecutive pieces of the byte
  list \<open>D\<close>. It is the memory-independent form of \<open>tiles\<close>, so pieces sent by different
  invocations join.
\<close>

fun dex_tiles :: "u64 \<Rightarrow> u32 \<Rightarrow> u32 \<Rightarrow> u8 list \<Rightarrow> u32 \<Rightarrow> bpf_event list \<Rightarrow> u32 \<Rightarrow> bool" where
  "dex_tiles b pid sz D from [] to \<longleftrightarrow> from = to"
| "dex_tiles b pid sz D from (ev # evs) to \<longleftrightarrow>
     from < sz \<and>
     ev = chunk_event b pid sz from (chunk_len sz from)
            (take (unat (chunk_len sz from)) (drop (unat from) D)) \<and>
     dex_tiles b pid sz D (from + chunk_len sz from) evs to"

lemma dex_tiles_append:
  "dex_tiles b pid sz D from xs mid \<Longrightarrow> dex_tiles b pid sz D mid ys to \<Longrightarrow>
     dex_tiles b pid sz D from (xs @ ys) to"
  by (induction xs arbitrary: "from") auto

text \<open>An invocation nothing stands in the way of: the DEX is resident and its ring has room.\<close>

definition unobstructed :: "env \<Rightarrow> u64 \<Rightarrow> u8 list \<Rightarrow> bool" where
  "unobstructed e b D \<longleftrightarrow>
     (\<forall>n. e_rb_ok e dex_chunks n) \<and> read_bytes (e_mem e) b (length D) = Some D"

lemma unobstructed_read:
  assumes "unobstructed e b D" and "length D = unat sz" and "from < sz"
  shows "bpf_probe_read_user e (unat (chunk_len sz from)) (b + ucast from) =
    Some (take (unat (chunk_len sz from)) (drop (unat from) D))"
proof -
  have "unat from + unat (chunk_len sz from) \<le> length D"
    using chunk_step [OF assms(3)] assms(2) by (simp add: word_le_nat_alt)
  from read_bytes_take_drop [OF _ this] assms(1) show ?thesis
    by (simp add: bpf_probe_read_user_def unobstructed_def)
qed

lemma tiles_dex_tiles:
  assumes "unobstructed e b D" and "length D = unat sz"
  shows "tiles e b pid sz from cs to \<Longrightarrow> dex_tiles b pid sz D from cs to"
  by (induction cs arbitrary: "from") (auto simp: unobstructed_read [OF assms])

lemma chunk_loop_unobstructed:
  assumes un: "unobstructed e b D" and len: "length D = unat sz" and "from \<le> sz"
  shows "\<exists>to s' cs. chunk_loop n e b pid sz from s = (to, s') \<and>
     unat to = min (unat sz) (unat from + n * 131048) \<and>
     emits s (forced cs) s' \<and> dex_tiles b pid sz D from cs to"
  using assms(3)
proof (induction n arbitrary: "from" s)
  case 0
  then show ?case
    by (intro exI [of _ "from"] exI [of _ s] exI [of _ "[]"]) (simp add: word_le_nat_alt)
next
  case (Suc n)
  show ?case
  proof (cases "from < sz")
    case False
    with Suc.prems have "from = sz" by simp
    then show ?thesis
      by (intro exI [of _ "from"] exI [of _ s] exI [of _ "[]"]) (simp add: chunk_loop_Suc)
  next
    case lt: True
    let ?len = "chunk_len sz from"
    let ?ev = "chunk_event b pid sz from ?len (take (unat ?len) (drop (unat from) D))"
    let ?s1 = "send e ?ev BPF_RB_FORCE_WAKEUP s"
    have ok: "e_rb_ok e dex_chunks k" for k using un by (simp add: unobstructed_def)
    from Suc.IH [OF chunk_step(2) [OF lt], of ?s1] obtain to s' cs where
      run: "chunk_loop n e b pid sz (from + ?len) ?s1 = (to, s')"
      and to: "unat to = min (unat sz) (unat (from + ?len) + n * 131048)"
      and em: "emits ?s1 (forced cs) s'" and t: "dex_tiles b pid sz D (from + ?len) cs to"
      by blast
    have "chunk_loop (Suc n) e b pid sz from s = (to, s')"
      using lt [folded not_le] ok run unobstructed_read [OF un len lt] by (simp add: chunk_loop_Suc)
    moreover have "unat to = min (unat sz) (unat from + Suc n * 131048)"
      using to lt chunk_step(1) [OF lt] chunk_len_unat [OF lt]
      by (simp add: word_less_nat_alt min_def split: if_splits)
    moreover have "emits s [(?ev, BPF_RB_FORCE_WAKEUP)] ?s1"
      by (rule send_ok) (simp add: ok chunk_event_def)
    from emits_trans [OF this em] have "emits s (forced (?ev # cs)) s'" by simp
    moreover have "dex_tiles b pid sz D from (?ev # cs) to" using lt t by simp
    ultimately show ?thesis by blast
  qed
qed

definition dex_identity :: "u8 list \<Rightarrow> u64" where
  "dex_identity D = le_word (take 8 (drop 8 D))"

definition dex_image_key :: "u32 \<Rightarrow> u64 \<Rightarrow> u8 list \<Rightarrow> capture_key_t" where
  "dex_image_key pid b D = \<lparr>ck_addr = b, ck_identity = dex_identity D, ck_pid = pid,
     ck_size = of_nat (length D)\<rparr>"

lemma dex_key_image:
  assumes "read_bytes (e_mem e) b (length D) = Some D" and "16 \<le> length D" and "length D = unat sz"
  shows "dex_key e pid b sz = dex_image_key pid b D"
proof -
  from read_bytes_take_drop [OF assms(1), of 8 8] assms(2)
  have "read_bytes (e_mem e) (b + 8) 8 = Some (take 8 (drop 8 D))" by simp
  then have "probe_u64 e (b + 8) = dex_identity D"
    by (simp add: probe_u64_def or_zero_def read_u64_def bpf_probe_read_user_def dex_identity_def)
  with assms(3) show ?thesis by (simp add: dex_key_def dex_image_key_def)
qed

definition submit_dex_calls :: "env list \<Rightarrow> u64 \<Rightarrow> u32 \<Rightarrow> u32 \<Rightarrow> bpf_state \<Rightarrow> bpf_state" where
  "submit_dex_calls es b pid sz s = fold (\<lambda>e s. submit_dex_chunks_partial e b pid sz s) es s"

definition BYTES_PER_CALL :: nat where "BYTES_PER_CALL = 16774144"

lemma submit_partial_unobstructed:
  assumes un: "unobstructed e b D" and len: "length D = unat sz" and "16 \<le> length D"
    and le: "dex_progress s (dex_image_key pid b D) \<le> sz"
  shows "\<exists>cs. out (submit_dex_chunks_partial e b pid sz s) = out s @ forced cs \<and>
     unat (dex_progress (submit_dex_chunks_partial e b pid sz s) (dex_image_key pid b D)) =
       min (unat sz) (unat (dex_progress s (dex_image_key pid b D)) + BYTES_PER_CALL) \<and>
     dex_tiles b pid sz D (dex_progress s (dex_image_key pid b D)) cs
       (dex_progress (submit_dex_chunks_partial e b pid sz s) (dex_image_key pid b D))"
proof -
  let ?k = "dex_image_key pid b D" and ?s' = "submit_dex_chunks_partial e b pid sz s"
  have key: "?k = dex_key e pid b sz"
    using dex_key_image [of e b D sz pid] un len assms(3) by (simp add: unobstructed_def)
  show ?thesis
  proof (cases "dex_progress s ?k < sz")
    case False
    then have "sz = 0 \<or> sz \<le> dex_progress s (dex_key e pid b sz)" using key by auto
    then have "?s' = s" by (rule submit_partial_idle)
    moreover from False le have "dex_progress s ?k = sz" by simp
    ultimately show ?thesis by (intro exI [of _ "[]"]) simp
  next
    case lt: True
    have "0 < sz" using assms(3) len by (simp add: word_less_nat_alt)
    from submit_partial_call [OF this lt key] obtain to cs0 fs where
      run: "chunk_loop MAX_CHUNKS_PER_CALL e b pid sz (dex_progress s ?k) s =
        (to, ?s'\<lparr>dexProgress_map := dexProgress_map s\<rparr>)"
      and em0: "emits (s\<lparr>dexProgress_map := AList.update ?k to (dexProgress_map s)\<rparr>)
        (forced (cs0 @ fs)) ?s'" by blast
    from chunk_loop_unobstructed [OF un len le, of MAX_CHUNKS_PER_CALL pid s] run
    obtain cs where "unat to = min (unat sz) (unat (dex_progress s ?k) + BYTES_PER_CALL)"
      and em: "emits s (forced cs) (?s'\<lparr>dexProgress_map := dexProgress_map s\<rparr>)"
      and t: "dex_tiles b pid sz D (dex_progress s ?k) cs to"
      by (auto simp: MAX_CHUNKS_PER_CALL_def BYTES_PER_CALL_def)
    moreover have "dex_progress ?s' ?k = to"
      using emits_frame(5) [OF em0] by (simp add: dex_progress_def update_conv')
    moreover from emits_frame(9) [OF em] have "out ?s' = out s @ forced cs" by simp
    ultimately show ?thesis by (intro exI [of _ cs]) simp
  qed
qed

lemma submit_dex_calls_unobstructed:
  assumes "\<forall>e \<in> set es. unobstructed e b D" and len: "length D = unat sz" and "16 \<le> length D"
    and "dex_progress s (dex_image_key pid b D) \<le> sz"
  shows "\<exists>cs. out (submit_dex_calls es b pid sz s) = out s @ forced cs \<and>
     unat (dex_progress (submit_dex_calls es b pid sz s) (dex_image_key pid b D)) =
       min (unat sz) (unat (dex_progress s (dex_image_key pid b D)) + length es * BYTES_PER_CALL) \<and>
     dex_tiles b pid sz D (dex_progress s (dex_image_key pid b D)) cs
       (dex_progress (submit_dex_calls es b pid sz s) (dex_image_key pid b D))"
  using assms(1,4)
proof (induction es arbitrary: s)
  case Nil
  then show ?case
    by (intro exI [of _ "[]"]) (simp add: submit_dex_calls_def word_le_nat_alt)
next
  case (Cons e es)
  let ?k = "dex_image_key pid b D" and ?s1 = "submit_dex_chunks_partial e b pid sz s"
  from Cons.prems have un: "unobstructed e b D" by simp
  from submit_partial_unobstructed [OF un len assms(3) Cons.prems(2)] obtain xs where
    x: "out ?s1 = out s @ forced xs"
      "unat (dex_progress ?s1 ?k) = min (unat sz) (unat (dex_progress s ?k) + BYTES_PER_CALL)"
      "dex_tiles b pid sz D (dex_progress s ?k) xs (dex_progress ?s1 ?k)" by blast
  from x(2) have "dex_progress ?s1 ?k \<le> sz" by (simp add: word_le_nat_alt)
  with Cons.IH [of ?s1] Cons.prems(1) obtain ys where
    y: "out (submit_dex_calls es b pid sz ?s1) = out ?s1 @ forced ys"
      "unat (dex_progress (submit_dex_calls es b pid sz ?s1) ?k) =
        min (unat sz) (unat (dex_progress ?s1 ?k) + length es * BYTES_PER_CALL)"
      "dex_tiles b pid sz D (dex_progress ?s1 ?k) ys
        (dex_progress (submit_dex_calls es b pid sz ?s1) ?k)" by auto
  have "submit_dex_calls (e # es) b pid sz s = submit_dex_calls es b pid sz ?s1"
    by (simp add: submit_dex_calls_def)
  with x y dex_tiles_append [OF x(3) y(3)] show ?case
    by (intro exI [of _ "xs @ ys"]) simp
qed

lemma dex_tiles_payload:
  assumes "length D = unat sz"
  shows "dex_tiles b pid sz D from cs to \<Longrightarrow> from \<le> sz \<Longrightarrow>
    concat (map payload_of cs) = take (unat to - unat from) (drop (unat from) D)
      \<and> from \<le> to \<and> to \<le> sz"
proof (induction cs arbitrary: "from")
  case Nil
  then show ?case by simp
next
  case (Cons c cs)
  let ?len = "chunk_len sz from"
  from Cons.prems have lt: "from < sz" by simp
  have u: "unat (from + ?len) = unat from + unat ?len" and le: "from + ?len \<le> sz"
    using chunk_step [OF lt] by simp_all
  from Cons.prems have "dex_tiles b pid sz D (from + ?len) cs to" by simp
  from Cons.IH [OF this le] have IH: "concat (map payload_of cs) =
      take (unat to - unat (from + ?len)) (drop (unat (from + ?len)) D)"
    and to: "from + ?len \<le> to" "to \<le> sz" by simp_all
  then have "take (unat ?len) (drop (unat from) D) @ concat (map payload_of cs) =
      take (unat to - unat from) (drop (unat from) D)"
    using u take_add [of "unat ?len" "unat to - unat (from + ?len)" "drop (unat from) D"]
    by (simp add: add.commute word_le_nat_alt)
  with Cons.prems to u show ?case by (simp add: word_le_nat_alt)
qed

end
