(* ===== verification/Step_Frame.thy ===== *)
theory Step_Frame
  imports Dex_Transfer
begin

text \<open>
  What every probe may do to the state, whichever path it takes: append well-formed
  records of the traced process to the log, give back every reserved record, leave the
  configuration, the layout and the argument maps alone and keep the transfer progress
  within the DEX sizes. \<open>good_step\<close> is reflexive and transitive, so a handler inherits it
  from its parts.
\<close>

section \<open>Well-formed records\<close>

fun evt_ok :: "bpf_event \<Rightarrow> bool" where
  "evt_ok (Dex_event d) \<longleftrightarrow>
     ded_begin d \<noteq> 0 \<and> 0 < ded_size d \<and> ded_size d \<le> MAX_DEX_FILE_SIZE"
| "evt_ok (Method_event m code) \<longleftrightarrow>
     length code = unat (med_codeitem_size m) \<and> length code \<le> 16344"
| "evt_ok (Dex_chunk h bytes) \<longleftrightarrow> chunk_header_ok h bytes"
| "evt_ok (Read_failure f) \<longleftrightarrow> drf_failed_offset f < drf_size f"
| "evt_ok (Layout_debug _) \<longleftrightarrow> True"
| "evt_ok (Native_buffer n) \<longleftrightarrow>
     nbe_addr n \<noteq> 0 \<and> NATIVE_MIN_COPY_SIZE \<le> nbe_size n \<and> nbe_size n \<le> NATIVE_MAX_COPY_SIZE"
| "evt_ok (Jni_method j) \<longleftrightarrow>
     jme_fn_ptr j \<noteq> 0 \<and> length (jme_name j) = JNI_NAME_MAX \<and> length (jme_sig j) = JNI_SIG_MAX \<and>
     last (jme_name j) = 0 \<and> last (jme_sig j) = 0"

definition evts_ok :: "u32 \<Rightarrow> (bpf_event \<times> u64) list \<Rightarrow> bool" where
  "evts_ok pid evs \<longleftrightarrow> (\<forall>(ev, _) \<in> set evs. evt_ok ev \<and> event_pid ev = pid)"

lemma evts_ok_simps [simp]:
  "evts_ok pid []"
  "evts_ok pid ((ev, fl) # evs) \<longleftrightarrow> evt_ok ev \<and> event_pid ev = pid \<and> evts_ok pid evs"
  "evts_ok pid (xs @ ys) \<longleftrightarrow> evts_ok pid xs \<and> evts_ok pid ys"
  by (auto simp: evts_ok_def)

definition good_step :: "u32 \<Rightarrow> bpf_state \<Rightarrow> bpf_state \<Rightarrow> bool" where
  "good_step pid s s' \<longleftrightarrow>
     (\<exists>evs. out s' = out s @ evs \<and> evts_ok pid evs) \<and>
     rb_held s' = rb_held s \<and>
     config_map s' = config_map s \<and>
     art_layout_map s' = art_layout_map s \<and>
     native_copy_args_map s' = native_copy_args_map s \<and>
     native_alloc_args_map s' = native_alloc_args_map s \<and>
     dom (bufs_m s') = dom (bufs_m s) \<and>
     (progress_ok (dexProgress_map s) \<longrightarrow> progress_ok (dexProgress_map s'))"

lemma good_step_refl [simp, intro]: "good_step pid s s"
  by (auto simp: good_step_def)

lemma good_step_trans [trans]: "good_step pid s t \<Longrightarrow> good_step pid t u \<Longrightarrow> good_step pid s u"
  unfolding good_step_def by (metis append.assoc evts_ok_simps(3))

lemma emits_good: "emits s evs s' \<Longrightarrow> evts_ok pid evs \<Longrightarrow> good_step pid s s'"
  by (auto simp: good_step_def emits_frame)

lemma send_good [intro]:
  "evt_ok evt \<Longrightarrow> event_pid evt = pid \<Longrightarrow> good_step pid s (send e evt fl s)"
  by (rule emits_good [OF send_emits]) auto

lemma output_good:
  "evt_ok evt \<Longrightarrow> event_pid evt = pid \<Longrightarrow> good_step pid s (bpf_ringbuf_output e evt fl s)"
  by (rule emits_good [OF output_emits]) auto

lemma good_step_caches [simp]:
  "good_step pid s (s'\<lparr>dexFileCache_map := m\<rparr>) = good_step pid s s'"
  "good_step pid s (s'\<lparr>methodCodeCache_map := m\<rparr>) = good_step pid s s'"
  "good_step pid (s\<lparr>dexFileCache_map := m\<rparr>) s' = good_step pid s s'"
  by (auto simp: good_step_def)

section \<open>The DEX transfer is a good step\<close>

lemma forced_chunks_ok:
  assumes "tiles e b pid sz from cs to" and "failure_tail b pid sz to fs"
  shows "evts_ok pid (forced (cs @ fs))"
proof -
  have "evt_ok c \<and> event_pid c = pid" if "c \<in> set cs" for c
    using tiles_chunk_ok [OF assms(1) that] by (cases c) auto
  moreover have "evt_ok f \<and> event_pid f = pid" if "f \<in> set fs" for f
    using assms(2) that by (auto simp: failure_tail_def read_failure_event_def)
  ultimately show ?thesis by (auto simp: evts_ok_def forced_def)
qed

lemma submit_partial_good: "good_step pid s (submit_dex_chunks_partial e b pid sz s)"
proof (cases rule: submit_partial_cases [where e = e and b = b and pid = pid and sz = sz and s = s])
  case idle
  then show ?thesis by simp
next
  case (sent to cs fs)
  have "good_step pid (s\<lparr>dexProgress_map := AList.update (dex_key e pid b sz) to (dexProgress_map s)\<rparr>)
      (submit_dex_chunks_partial e b pid sz s)"
    using emits_good [OF sent(6)] forced_chunks_ok [OF sent(3,5)] by blast
  then show ?thesis
    using submit_partial_progress_ok [of s e b pid sz] by (auto simp: good_step_def)
qed

lemma submit_dex_from_begin_good: "good_step pid s (submit_dex_from_begin e pid b sz s)"
proof -
  let ?ev = "Dex_event \<lparr>ded_begin = b, ded_pid = pid, ded_size = sz\<rparr>"
  have "good_step pid s (submit_dex_chunks_partial e b pid sz (send e ?ev BPF_RB_FORCE_WAKEUP s))"
    if "b \<noteq> 0" "sz \<noteq> 0" "\<not> MAX_DEX_FILE_SIZE < sz"
    using that
    by (intro good_step_trans [OF send_good submit_partial_good]) (auto simp: word_gt_0 not_less)
  then show ?thesis
    by (auto simp: submit_dex_from_begin_def Let_def submit_partial_good)
qed

end
