(* ===== verification/Reassembly.thy ===== *)
theory Reassembly
  imports Receiver Step_Frame
begin

text \<open>
  The receiver puts a DEX together from chunk records in any order, with repetitions:
  after any list of records that carry pieces of one DEX it holds exactly the union of the
  pieces, and it writes the file, once and byte for byte, at the moment the pieces cover it.
\<close>

section \<open>Pieces of one DEX\<close>

definition piece_of :: "u32 \<Rightarrow> u64 \<Rightarrow> u8 list \<Rightarrow> bpf_event \<Rightarrow> bool" where
  "piece_of pid b D ev \<longleftrightarrow>
     (case ev of
        Dex_chunk h payload \<Rightarrow>
          dce_begin h = b \<and> dce_pid h = pid \<and> unat (dce_size h) = length D \<and>
          chunk_header_ok h payload \<and>
          payload = take (unat (dce_data_len h)) (drop (unat (dce_offset h)) D)
      | _ \<Rightarrow> False)"

fun piece_span :: "bpf_event \<Rightarrow> u32 set" where
  "piece_span (Dex_chunk h _) = {dce_offset h..<dce_offset h + dce_data_len h}"
| "piece_span _ = {}"

definition dex_len :: "u8 list \<Rightarrow> u32" where "dex_len D = of_nat (length D)"

definition whole :: "u8 list \<Rightarrow> u32 set \<Rightarrow> bool" where
  "whole D cov \<longleftrightarrow> {0..<dex_len D} \<subseteq> cov"

definition recv_holds :: "u8 list \<Rightarrow> u32 set \<Rightarrow> recv_state \<Rightarrow> bool" where
  "recv_holds D cov rs \<longleftrightarrow>
     rs_total rs = dex_len D \<and> length (rs_buf rs) = length D \<and>
     intervals_ok (rs_intervals rs) \<and> (\<forall>iv \<in> set (rs_intervals rs). snd iv \<le> dex_len D) \<and>
     covered (rs_intervals rs) = cov \<and>
     (\<forall>i \<in> cov. rs_buf rs ! unat i = D ! unat i)"

text \<open>
  \<open>assembled\<close>: the state of the receiver after pieces covering \<open>cov\<close> have arrived;
  \<open>fs\<close> are the files written before.
\<close>

definition assembled ::
  "u32 \<Rightarrow> u64 \<Rightarrow> u8 list \<Rightarrow> (dex_file \<times> u8 list) list \<Rightarrow> u32 set \<Rightarrow> dump_state \<Rightarrow> bool" where
  "assembled pid b D fs cov st \<longleftrightarrow>
     (pid, b) \<notin> ambiguous_dex st \<and> \<not> captures_sealed st \<and>
     dex_sizes st (pid, b) \<in> {None, Some (dex_len D)} \<and>
     (if whole D cov
      then dex_cache st (pid, b) = Some D \<and> files st = fs @ [(Dex_plain pid b (dex_len D), D)]
      else dex_cache st (pid, b) = None \<and> files st = fs \<and>
        (case pending_dex st (pid, b) of None \<Rightarrow> cov = {} | Some rs \<Rightarrow> recv_holds D cov rs))"

text \<open>What the host must grant for the DEX to be saved at all.\<close>

definition host_saves :: "host \<Rightarrow> u32 \<Rightarrow> u64 \<Rightarrow> u8 list \<Rightarrow> bool" where
  "host_saves h pid b D \<longleftrightarrow> \<not> h_skip_system h pid b (dex_len D) \<and>
     h_write_ok h (Dex_plain pid b (dex_len D)) \<and> dex_accepted D \<and> length D \<le> 0x40000000"

section \<open>One piece\<close>

lemma dex_len_unat: "length D \<le> 0x40000000 \<Longrightarrow> unat (dex_len D) = length D"
  by (simp add: dex_len_def unat_of_nat take_bit_nat_eq_self)

lemma dex_size_in_range:
  assumes "dex_accepted D" and "length D \<le> 0x40000000"
  shows "size_in_range (dex_len D)" and "0 < dex_len D"
  using assms dex_len_unat [OF assms(2)]
  by (auto simp add: size_in_range_def dex_accepted_iff word_le_nat_alt word_less_nat_alt)

lemma observe_same:
  assumes "size_in_range z" and "dex_sizes st (pid, b) \<in> {None, Some z}"
  shows "observe_dex pid b z st = st\<lparr>dex_sizes := (dex_sizes st)((pid, b) \<mapsto> z)\<rparr>"
  using assms by (auto simp: observe_dex_def Let_def)

lemma no_conflict:
  assumes hold: "recv_holds D cov rs" and pay: "payload = take n (drop off D)"
    and le: "off + n \<le> length D"
  shows "\<not> chunk_conflicts rs off (off + n) payload"
proof -
  have "take (right - left) (drop left (rs_buf rs)) = take (right - left) (drop (left - off) payload)"
    if iv: "(a, z) \<in> set (rs_intervals rs)" and l: "left = max (unat a) off"
      and r: "right = min (unat z) (off + n)" for a z left right
  proof (rule nth_equalityI)
    have len: "length (rs_buf rs) = length D" using hold by (simp add: recv_holds_def)
    show "length (take (right - left) (drop left (rs_buf rs))) =
        length (take (right - left) (drop (left - off) payload))"
      using len le l r pay by auto
    fix i assume "i < length (take (right - left) (drop left (rs_buf rs)))"
    then have i: "i < right - left" "left + i < length D" using len by auto
    have "unat z < 2 ^ 32" using unsigned_less [of z] by simp
    with i r have u: "unat (of_nat (left + i) :: u32) = left + i"
      by (intro unat_u32_of_nat) linarith
    with i l r have "(of_nat (left + i) :: u32) \<in> {a..<z}"
      by (auto simp: word_le_nat_alt word_less_nat_alt)
    with iv hold have "(of_nat (left + i) :: u32) \<in> cov"
      by (auto simp: recv_holds_def covered_def)
    then have "rs_buf rs ! unat (of_nat (left + i) :: u32) = D ! unat (of_nat (left + i) :: u32)"
      using hold unfolding recv_holds_def by blast
    then have "rs_buf rs ! (left + i) = D ! (left + i)" by (simp only: u)
    then show "take (right - left) (drop left (rs_buf rs)) ! i =
        take (right - left) (drop (left - off) payload) ! i"
      using i len le l r pay by (simp add: nth_append)
  qed
  then show ?thesis by (auto simp: chunk_conflicts_def list_ex_iff Let_def)
qed

lemma recv_holds_step:
  assumes hold: "recv_holds D cov rs" and pos: "0 < unat n" and le: "unat off + unat n \<le> length D"
    and small: "length D \<le> 0x40000000" and pay: "payload = take (unat n) (drop (unat off) D)"
  shows "recv_holds D (cov \<union> {off..<off + n})
    (recv_record off (off + n)
      (rs\<lparr>rs_buf := take (unat off) (rs_buf rs) @ payload @ drop (unat off + unat n) (rs_buf rs)\<rparr>))"
proof -
  have u: "unat (off + n) = unat off + unat n"
    using le small by (intro unat_add_lem [THEN iffD1]) simp
  have lt: "off < off + n" using u pos by (simp add: word_less_nat_alt)
  have ok: "intervals_ok (rs_intervals rs)" using hold by (simp add: recv_holds_def)
  have len: "length (rs_buf rs) = length D" using hold by (simp add: recv_holds_def)
  have "off + n \<le> dex_len D" using u le dex_len_unat [OF small] by (simp add: word_le_nat_alt)
  with hold have bound: "\<forall>iv \<in> set (record_interval off (off + n) (rs_intervals rs)). snd iv \<le> dex_len D"
    by (intro record_interval_bound) (simp_all add: recv_holds_def)
  let ?buf = "take (unat off) (rs_buf rs) @ payload @ drop (unat off + unat n) (rs_buf rs)"
  have "?buf ! unat i = D ! unat i" if "i \<in> cov \<union> {off..<off + n}" for i
  proof (cases "unat off \<le> unat i \<and> unat i < unat off + unat n")
    case True
    then have "unat i - unat off < unat n" by linarith
    with True show ?thesis using len le pay by (simp add: nth_append)
  next
    case False
    with that u have "i \<in> cov" by (auto simp: word_le_nat_alt word_less_nat_alt)
    with hold have "rs_buf rs ! unat i = D ! unat i" by (simp add: recv_holds_def)
    then show ?thesis using False len le pay by (auto simp: nth_append)
  qed
  moreover have "length ?buf = length D" using len le pay by simp
  ultimately show ?thesis
    using hold bound record_interval_ok [OF ok lt] by (auto simp: recv_holds_def recv_record_def)
qed

lemma recv_complete_iff:
  assumes "recv_holds D cov rs" and "0 < dex_len D"
  shows "recv_is_complete rs \<longleftrightarrow> whole D cov"
  using assms intervals_complete_iff [of "rs_intervals rs" "dex_len D"]
  by (simp add: recv_holds_def recv_is_complete_def whole_def)

lemma recv_whole_buf:
  assumes "recv_holds D cov rs" and "whole D cov" and "length D \<le> 0x40000000"
  shows "rs_buf rs = D"
proof (rule nth_equalityI)
  show "length (rs_buf rs) = length D" using assms(1) by (simp add: recv_holds_def)
  fix i assume "i < length (rs_buf rs)"
  then have i: "i < length D" using assms(1) by (simp add: recv_holds_def)
  then have u: "unat (of_nat i :: u32) = i" using assms(3) by (intro unat_u32_of_nat) simp
  then have "(of_nat i :: u32) \<in> {0..<dex_len D}"
    using i dex_len_unat [OF assms(3)] by (simp add: word_less_nat_alt)
  then have "(of_nat i :: u32) \<in> cov" using assms(2) by (auto simp: whole_def)
  then have "rs_buf rs ! unat (of_nat i :: u32) = D ! unat (of_nat i :: u32)"
    using assms(1) unfolding recv_holds_def by blast
  then show "rs_buf rs ! i = D ! i" by (simp only: u)
qed

lemma recv_holds_fresh:
  "length D \<le> 0x40000000 \<Longrightarrow> recv_holds D {}
     \<lparr>rs_total = dex_len D, rs_intervals = [], rs_buf = replicate (unat (dex_len D)) 0\<rparr>"
  by (simp add: recv_holds_def dex_len_unat)

lemma dex_len_pos_not_whole_empty: "0 < dex_len D \<Longrightarrow> \<not> whole D {}"
  by (auto simp: whole_def)

text \<open>The handler on a well-formed piece, with its guards discharged.\<close>

lemma handle_piece:
  assumes host: "host_saves h pid b D" and piece: "piece_of pid b D (Dex_chunk hdr payload)"
    and st: "(pid, b) \<notin> ambiguous_dex st" "dex_sizes st (pid, b) \<in> {None, Some (dex_len D)}"
  shows "handle_dex_chunk h (image ex (Dex_chunk hdr payload)) st =
    (let st1 = st\<lparr>dex_sizes := (dex_sizes st)((pid, b) \<mapsto> dex_len D)\<rparr>;
         off = unat (dce_offset hdr); n = unat (dce_data_len hdr)
     in case dex_cache st (pid, b) of
          Some bytes \<Rightarrow> if slice_get bytes off (off + n) = Some payload then st1
            else quarantine_dex pid b st1
        | None \<Rightarrow>
            let rs = (case pending_dex st (pid, b) of Some rs \<Rightarrow> rs
                | None \<Rightarrow> \<lparr>rs_total = dex_len D, rs_intervals = [],
                           rs_buf = replicate (unat (dex_len D)) 0\<rparr>)
            in if chunk_conflicts rs off (off + n) payload then quarantine_dex pid b st1
            else let rs1 = (if off + n \<le> length (rs_buf rs)
                  then recv_record (dce_offset hdr) (dce_offset hdr + dce_data_len hdr)
                         (rs\<lparr>rs_buf := take off (rs_buf rs) @ payload @ drop (off + n) (rs_buf rs)\<rparr>)
                  else rs)
            in if recv_is_complete rs1
               then save_dex h (Some pid) b (dex_len D) (rs_buf rs1)
                      (st1\<lparr>pending_dex := (pending_dex st1)((pid, b) := None)\<rparr>)
               else st1\<lparr>pending_dex := (pending_dex st1)((pid, b) \<mapsto> rs1)\<rparr>)"
proof -
  from piece have b: "dce_begin hdr = b" "dce_pid hdr = pid" "unat (dce_size hdr) = length D"
    and ok: "chunk_header_ok hdr payload" unfolding piece_of_def by auto
  from host have acc: "dex_accepted D" "length D \<le> 0x40000000" by (simp_all add: host_saves_def)
  have z: "dce_size hdr = dex_len D"
    using b(3) dex_len_unat [OF acc(2)] by (simp add: word_unat_eq_iff)
  note range = dex_size_in_range [OF acc]
  have obs: "observe_dex pid b (dex_len D) st = st\<lparr>dex_sizes := (dex_sizes st)((pid, b) \<mapsto> dex_len D)\<rparr>"
    by (rule observe_same [OF range(1) st(2)])
  have "unat (dce_offset hdr) + unat (dce_data_len hdr) \<le> unat (dex_len D)"
    and "unat (dce_data_len hdr) \<noteq> 0" and len: "length payload = unat (dce_data_len hdr)"
    using ok z by (simp_all add: chunk_header_ok_def)
  moreover have "unat (dex_len D) < 2 ^ 32" using dex_len_unat [OF acc(2)] acc(2) by simp
  ultimately have guards: "unat (dce_data_len hdr) \<noteq> 0"
    "\<not> 2 ^ 32 \<le> unat (dce_offset hdr) + unat (dce_data_len hdr)"
    "\<not> unat (dex_len D) < unat (dce_offset hdr) + unat (dce_data_len hdr)" by linarith+
  show ?thesis
    unfolding handle_dex_chunk_def parse_dex_chunk_image option.case Let_def b(1,2) z obs
      chunk_payload_image [OF len]
    using range(1) guards st(1)
    by (cases "dex_cache st (pid, b)"; cases "pending_dex st (pid, b)") simp_all
qed

lemma save_dex_complete:
  assumes "host_saves h pid b D" and "\<not> captures_sealed st" and "(pid, b) \<notin> ambiguous_dex st"
    and "dex_sizes st (pid, b) = Some (dex_len D)" and "dex_cache st (pid, b) = None"
  shows "save_dex h (Some pid) b (dex_len D) D st =
    st\<lparr>pending_dex := (pending_dex st)((pid, b) := None),
       method_sig_cache := drop_sigs (pid, b) (method_sig_cache st),
       dex_cache := (dex_cache st)((pid, b) \<mapsto> D),
       files := files st @ [(Dex_plain pid b (dex_len D), D)]\<rparr>"
proof -
  have "size_in_range (dex_len D)"
    using assms(1) by (intro dex_size_in_range(1)) (simp_all add: host_saves_def)
  then have "observe_dex pid b (dex_len D) st = st"
    using assms(4) by (simp add: observe_dex_def fun_upd_idem)
  with assms show ?thesis by (simp add: save_dex_def host_saves_def Let_def)
qed

theorem assembled_step:
  assumes host: "host_saves h pid b D" and asm: "assembled pid b D fs cov st"
    and piece: "piece_of pid b D ev"
  shows "assembled pid b D fs (cov \<union> piece_span ev) (handle_dex_chunk h (image ex ev) st)"
proof -
  from piece obtain hdr payload where ev: "ev = Dex_chunk hdr payload"
    by (cases ev) (auto simp: piece_of_def)
  let ?off = "dce_offset hdr" and ?n = "dce_data_len hdr"
  let ?st1 = "st\<lparr>dex_sizes := (dex_sizes st)((pid, b) \<mapsto> dex_len D)\<rparr>"
  from host have acc: "dex_accepted D" "length D \<le> 0x40000000" by (simp_all add: host_saves_def)
  note range = dex_size_in_range [OF acc]
  from piece ev have pay: "payload = take (unat ?n) (drop (unat ?off) D)"
    and le: "unat ?off + unat ?n \<le> length D" and pos: "0 < unat ?n"
    by (simp_all add: piece_of_def chunk_header_ok_def)
  from asm have amb: "(pid, b) \<notin> ambiguous_dex st" and sealed: "\<not> captures_sealed st"
    and sizes: "dex_sizes st (pid, b) \<in> {None, Some (dex_len D)}" by (simp_all add: assembled_def)
  note run = handle_piece [OF host piece [unfolded ev] amb sizes, of ex]
  show ?thesis
  proof (cases "whole D cov")
    case True
    with asm have "dex_cache st (pid, b) = Some D" by (simp add: assembled_def)
    moreover have "slice_get D (unat ?off) (unat ?off + unat ?n) = Some payload"
      using le pay by (simp add: slice_get_def)
    ultimately have "handle_dex_chunk h (image ex ev) st = ?st1"
      unfolding ev run by (simp add: Let_def)
    moreover from True have "whole D (cov \<union> piece_span ev)" by (auto simp: whole_def)
    ultimately show ?thesis using asm True by (simp add: assembled_def)
  next
    case False
    with asm have cache: "dex_cache st (pid, b) = None" and fs: "files st = fs" by (simp_all add: assembled_def)
    define rs where "rs = (case pending_dex st (pid, b) of Some rs \<Rightarrow> rs
        | None \<Rightarrow> \<lparr>rs_total = dex_len D, rs_intervals = [], rs_buf = replicate (unat (dex_len D)) 0\<rparr>)"
    have hold: "recv_holds D cov rs"
      using asm False recv_holds_fresh [OF acc(2)]
      by (auto simp: assembled_def rs_def split: option.splits)
    define rs1 where "rs1 = recv_record ?off (?off + ?n)
        (rs\<lparr>rs_buf := take (unat ?off) (rs_buf rs) @ payload @ drop (unat ?off + unat ?n) (rs_buf rs)\<rparr>)"
    have hold1: "recv_holds D (cov \<union> piece_span ev) rs1"
      using recv_holds_step [OF hold pos le acc(2) pay] by (simp add: rs1_def ev)
    have "unat ?off + unat ?n \<le> length (rs_buf rs)" using hold le by (simp add: recv_holds_def)
    then have run1: "handle_dex_chunk h (image ex ev) st =
        (if recv_is_complete rs1
         then save_dex h (Some pid) b (dex_len D) (rs_buf rs1)
                (?st1\<lparr>pending_dex := (pending_dex ?st1)((pid, b) := None)\<rparr>)
         else ?st1\<lparr>pending_dex := (pending_dex ?st1)((pid, b) \<mapsto> rs1)\<rparr>)"
      unfolding ev run using cache no_conflict [OF hold pay le]
      by (simp add: Let_def rs_def [symmetric] rs1_def)
    show ?thesis
    proof (cases "whole D (cov \<union> piece_span ev)")
      case True
      with hold1 range(2) have "recv_is_complete rs1" by (simp add: recv_complete_iff)
      moreover have "rs_buf rs1 = D" by (rule recv_whole_buf [OF hold1 True acc(2)])
      ultimately show ?thesis
        using run1 True amb sealed cache fs save_dex_complete [OF host]
        by (simp add: assembled_def)
    next
      case False
      with hold1 range(2) have "\<not> recv_is_complete rs1" by (simp add: recv_complete_iff)
      with run1 False amb sealed cache fs hold1 show ?thesis by (simp add: assembled_def)
    qed
  qed
qed

section \<open>Any list of pieces\<close>

definition receive_all :: "host \<Rightarrow> (u8 list \<times> bpf_event) list \<Rightarrow> dump_state \<Rightarrow> dump_state" where
  "receive_all h recs st = fold (\<lambda>(ex, ev). handle_dex_chunk h (image ex ev)) recs st"

definition spans :: "bpf_event list \<Rightarrow> u32 set" where
  "spans evs = (\<Union>ev \<in> set evs. piece_span ev)"

lemma assembled_all:
  assumes "host_saves h pid b D" and "assembled pid b D fs cov st"
    and "\<forall>(ex, ev) \<in> set recs. piece_of pid b D ev"
  shows "assembled pid b D fs (cov \<union> spans (map snd recs)) (receive_all h recs st)"
  using assms(2,3)
proof (induction recs arbitrary: cov st)
  case Nil
  then show ?case by (simp add: receive_all_def spans_def)
next
  case (Cons r recs)
  obtain ex ev where r: "r = (ex, ev)" by (cases r)
  with Cons.prems have "assembled pid b D fs (cov \<union> piece_span ev) (handle_dex_chunk h (image ex ev) st)"
    by (intro assembled_step [OF assms(1)]) auto
  from Cons.IH [OF this] Cons.prems(2) r show ?case
    by (simp add: receive_all_def spans_def Un_assoc)
qed

lemma assembled_start:
  assumes "dex_accepted D" and "length D \<le> 0x40000000"
  shows "assembled pid b D [] {} dump_state_new"
  using dex_len_pos_not_whole_empty [OF dex_size_in_range(2) [OF assms]]
  by (simp add: assembled_def dump_state_new_def)

end
