(* ===== verification/Receiver_Inv.thy ===== *)
theory Receiver_Inv
  imports Reassembly
begin

text \<open>
  What the receiver keeps whatever bytes arrive on its rings: a well-formed reassembly
  state that agrees with the announced size, only accepted DEX files on disk, and at most
  one file under the plain name of a process and address.
\<close>

section \<open>The invariant\<close>

definition recv_wf :: "recv_state \<Rightarrow> bool" where
  "recv_wf rs \<longleftrightarrow> size_in_range (rs_total rs) \<and> length (rs_buf rs) = unat (rs_total rs) \<and>
     intervals_ok (rs_intervals rs) \<and> (\<forall>iv \<in> set (rs_intervals rs). snd iv \<le> rs_total rs)"

fun plain_id :: "dex_file \<times> u8 list \<Rightarrow> dex_id option" where
  "plain_id (Dex_plain pid b _, _) = Some (pid, b)"
| "plain_id (Dex_hashed _ _ _ _, _) = None"

fun file_size :: "dex_file \<Rightarrow> u32" where
  "file_size (Dex_plain _ _ z) = z"
| "file_size (Dex_hashed _ _ _ z) = z"

definition plain_ids :: "(dex_file \<times> u8 list) list \<Rightarrow> dex_id list" where
  "plain_ids fs = List.map_filter plain_id fs"

lemma plain_ids_simps [simp]:
  "plain_ids [] = []" "plain_ids (xs @ ys) = plain_ids xs @ plain_ids ys"
  "plain_ids [(Dex_plain p b z, bytes)] = [(p, b)]" "plain_ids [(Dex_hashed p b hs z, bytes)] = []"
  by (simp_all add: plain_ids_def map_filter_def)

text \<open>
  \<open>Q\<close> is what is known of each file and its contents; \<open>sized\<close> says that the file is as long
  as its name says.
\<close>

definition sized :: "dex_file \<Rightarrow> u8 list \<Rightarrow> bool" where
  "sized f bytes \<longleftrightarrow> length bytes = unat (file_size f)"

definition files_inv :: "(dex_file \<Rightarrow> u8 list \<Rightarrow> bool) \<Rightarrow> dump_state \<Rightarrow> bool" where
  "files_inv Q st \<longleftrightarrow>
     (\<forall>(f, bytes) \<in> set (files st). dex_accepted bytes \<and> Q f bytes) \<and>
     distinct (plain_ids (files st)) \<and>
     (\<forall>k \<in> set (plain_ids (files st)). dex_cache st k \<noteq> None)"

definition pending_inv :: "dump_state \<Rightarrow> bool" where
  "pending_inv st \<longleftrightarrow>
     (\<forall>k rs. pending_dex st k = Some rs \<longrightarrow> recv_wf rs \<and> dex_sizes st k = Some (rs_total rs))"

definition recv_inv :: "(dex_file \<Rightarrow> u8 list \<Rightarrow> bool) \<Rightarrow> dump_state \<Rightarrow> bool" where
  "recv_inv Q st \<longleftrightarrow> files_inv Q st \<and> pending_inv st"

section \<open>Preservation\<close>

lemma files_inv_cong:
  "files st' = files st \<Longrightarrow> dex_cache st' = dex_cache st \<Longrightarrow> files_inv Q st' = files_inv Q st"
  by (simp add: files_inv_def)

lemma quarantine_frame [simp]:
  "files (quarantine_dex pid b st) = files st" "dex_cache (quarantine_dex pid b st) = dex_cache st"
  "dex_sizes (quarantine_dex pid b st) = dex_sizes st"
  "captures_sealed (quarantine_dex pid b st) = captures_sealed st"
  "pending_dex (quarantine_dex pid b st) = (pending_dex st)((pid, b) := None)"
  by (simp_all add: quarantine_dex_def)

lemma observe_frame [simp]:
  "files (observe_dex pid b z st) = files st" "dex_cache (observe_dex pid b z st) = dex_cache st"
  "captures_sealed (observe_dex pid b z st) = captures_sealed st"
  by (simp_all add: observe_dex_def Let_def split: option.split)

lemma pending_inv_drop:
  "pending_inv st \<Longrightarrow> pending_dex st' = (pending_dex st)(k := None) \<Longrightarrow>
     (\<And>k'. k' \<noteq> k \<Longrightarrow> dex_sizes st' k' = dex_sizes st k') \<Longrightarrow> pending_inv st'"
  by (auto simp: pending_inv_def)

lemma quarantine_pending: "pending_inv st \<Longrightarrow> pending_inv (quarantine_dex pid b st)"
  by (rule pending_inv_drop) simp_all

lemma observe_pending:
  assumes "pending_inv st"
  shows "pending_inv (observe_dex pid b z st)"
proof -
  have "pending_inv (quarantine_dex pid b (st\<lparr>dex_sizes := (dex_sizes st)((pid, b) \<mapsto> z)\<rparr>))"
    using assms by (rule pending_inv_drop [where k = "(pid, b)"]) auto
  with assms quarantine_pending [OF assms] show ?thesis
    by (auto simp: observe_dex_def Let_def pending_inv_def split: option.split)
qed

lemma observe_recv_inv: "recv_inv Q st \<Longrightarrow> recv_inv Q (observe_dex pid b z st)"
  by (simp add: recv_inv_def observe_pending files_inv_def)

lemma quarantine_recv_inv: "recv_inv Q st \<Longrightarrow> recv_inv Q (quarantine_dex pid b st)"
  by (simp add: recv_inv_def quarantine_pending files_inv_def)

text \<open>A key that is not ambiguous after \<open>observe_dex\<close> has the observed size.\<close>

lemma observe_size:
  assumes "(pid, b) \<notin> ambiguous_dex (observe_dex pid b z st)"
  shows "dex_sizes (observe_dex pid b z st) (pid, b) = Some z" and "size_in_range z"
  using assms
  by (auto simp: observe_dex_def quarantine_dex_def Let_def split: option.splits if_splits)

lemma save_files:
  assumes "files_inv Q st" and "dex_accepted bytes" and "Q f bytes"
    and "plain_id (f, bytes) = Some key \<Longrightarrow> dex_cache st key = None"
    and "plain_id (f, bytes) \<in> {None, Some key}"
    and "files st' = files st @ [(f, bytes)]" and "dex_cache st' = (dex_cache st)(key \<mapsto> bytes)"
  shows "files_inv Q st'"
  using assms by (cases f) (auto simp: files_inv_def)

text \<open>The state after a write: the entry pending under the key is gone, the cache has it.\<close>

lemma save_written:
  assumes "recv_inv Q st" and "dex_accepted bytes" and "Q f bytes"
    and "plain_id (f, bytes) = Some key \<Longrightarrow> dex_cache st key = None"
    and "plain_id (f, bytes) \<in> {None, Some key}"
  shows "recv_inv Q (st\<lparr>pending_dex := (pending_dex st)(key := None), method_sig_cache := m,
    dex_cache := (dex_cache st)(key \<mapsto> bytes), files := files st @ [(f, bytes)]\<rparr>)"
proof -
  have "files_inv Q (st\<lparr>pending_dex := (pending_dex st)(key := None), method_sig_cache := m,
    dex_cache := (dex_cache st)(key \<mapsto> bytes), files := files st @ [(f, bytes)]\<rparr>)"
    by (rule save_files [where st = st and f = f and bytes = bytes and key = key])
      (use assms in \<open>simp_all add: recv_inv_def\<close>)
  moreover have "pending_inv (st\<lparr>pending_dex := (pending_dex st)(key := None), method_sig_cache := m,
    dex_cache := (dex_cache st)(key \<mapsto> bytes), files := files st @ [(f, bytes)]\<rparr>)"
    by (rule pending_inv_drop [of st _ key]) (use assms(1) in \<open>simp_all add: recv_inv_def\<close>)
  ultimately show ?thesis by (simp add: recv_inv_def)
qed

lemma save_dex_recv_inv:
  assumes inv: "recv_inv Q st" and len: "\<And>f. file_size f = z \<Longrightarrow> Q f bytes"
  shows "recv_inv Q (save_dex h p b z bytes st)"
proof (cases "captures_sealed st \<or> \<not> dex_accepted bytes \<or> p = None \<or>
    (\<exists>pid. p = Some pid \<and> h_skip_system h pid b z)")
  case True
  with inv show ?thesis by (auto simp: save_dex_def split: option.split)
next
  case False
  then obtain pid where p: "p = Some pid" and acc: "dex_accepted bytes" by auto
  let ?st1 = "observe_dex pid b z st"
  have i1: "recv_inv Q ?st1" and i2: "recv_inv Q (quarantine_dex pid b ?st1)"
    using observe_recv_inv [OF inv] quarantine_recv_inv by blast+
  show ?thesis
  proof (cases "dex_cache st (pid, b)")
    case None
    let ?f = "if (pid, b) \<in> ambiguous_dex ?st1 then Dex_hashed pid b (h_sha1 h bytes) z else Dex_plain pid b z"
    have "recv_inv Q (?st1\<lparr>pending_dex := (pending_dex ?st1)((pid, b) := None),
        method_sig_cache := drop_sigs (pid, b) (method_sig_cache ?st1),
        dex_cache := (dex_cache ?st1)((pid, b) \<mapsto> bytes), files := files ?st1 @ [(?f, bytes)]\<rparr>)"
      using i1 acc len None by (intro save_written) auto
    then show ?thesis
      using False p None i1 by (simp add: save_dex_def Let_def)
  next
    case (Some previous)
    let ?st2 = "quarantine_dex pid b ?st1" and ?f = "Dex_hashed pid b (h_sha1 h bytes) z"
    have "recv_inv Q (?st2\<lparr>pending_dex := (pending_dex ?st2)((pid, b) := None),
        method_sig_cache := drop_sigs (pid, b) (method_sig_cache ?st2),
        dex_cache := (dex_cache ?st2)((pid, b) \<mapsto> bytes), files := files ?st2 @ [(?f, bytes)]\<rparr>)"
      using i2 acc len by (intro save_written) auto
    then show ?thesis
      using False p Some i1 i2 by (simp add: save_dex_def Let_def)
  qed
qed

section \<open>The chunk handler\<close>

lemma recv_wf_fresh:
  "size_in_range z \<Longrightarrow>
     recv_wf \<lparr>rs_total = z, rs_intervals = [], rs_buf = replicate (unat z) 0\<rparr>"
  by (simp add: recv_wf_def)

lemma recv_wf_record:
  assumes wf: "recv_wf rs" and n: "unat n \<noteq> 0" "unat off + unat n \<le> length (rs_buf rs)"
    and len: "length payload = unat n"
  shows "recv_wf (recv_record off (off + n)
    (rs\<lparr>rs_buf := take (unat off) (rs_buf rs) @ payload @ drop (unat off + unat n) (rs_buf rs)\<rparr>))"
proof -
  have "unat (rs_total rs) < 2 ^ 32" using unsigned_less [of "rs_total rs"] by simp
  with wf n(2) have "unat off + unat n < 2 ^ 32" by (simp add: recv_wf_def)
  then have u: "unat (off + n) = unat off + unat n"
    by (intro unat_add_lem [THEN iffD1]) simp
  with n(1) have lt: "off < off + n" by (simp add: word_less_nat_alt)
  have le: "off + n \<le> rs_total rs"
    using u n(2) wf by (simp add: recv_wf_def word_le_nat_alt)
  have "intervals_ok (record_interval off (off + n) (rs_intervals rs))"
    using record_interval_ok [OF _ lt] wf by (simp add: recv_wf_def)
  moreover have "\<forall>iv \<in> set (record_interval off (off + n) (rs_intervals rs)). snd iv \<le> rs_total rs"
    using wf le by (intro record_interval_bound) (simp_all add: recv_wf_def)
  ultimately show ?thesis
    using wf n(2) len by (simp add: recv_wf_def recv_record_def)
qed

text \<open>No slice the handler takes is out of range, so it cannot panic.\<close>

lemma conflict_slices_in_range:
  assumes wf: "recv_wf rs" and iv: "(a, z) \<in> set (rs_intervals rs)"
    and n: "off + n \<le> unat (rs_total rs)" and len: "length payload = n"
    and lr: "max (unat a) off < min (unat z) (off + n)"
  shows "min (unat z) (off + n) \<le> length (rs_buf rs)"
    and "min (unat z) (off + n) - off \<le> length payload" and "off \<le> max (unat a) off"
  using assms by (auto simp: recv_wf_def word_le_nat_alt)

lemma pending_inv_store:
  "pending_inv st \<Longrightarrow> recv_wf rs \<Longrightarrow> dex_sizes st k = Some (rs_total rs) \<Longrightarrow>
     pending_inv (st\<lparr>pending_dex := (pending_dex st)(k \<mapsto> rs)\<rparr>)"
  by (auto simp: pending_inv_def)

lemma pending_inv_clear:
  "pending_inv st \<Longrightarrow> pending_inv (st\<lparr>pending_dex := (pending_dex st)(k := None)\<rparr>)"
  by (auto simp: pending_inv_def)

lemma recv_record_total [simp]: "rs_total (recv_record a b rs) = rs_total rs"
  by (simp add: recv_record_def)

text \<open>The part of the handler after its guards, for a key without a finished DEX.\<close>

lemma chunk_tail_recv_inv:
  assumes inv: "recv_inv Q st1" and Q: "\<And>f bytes. sized f bytes \<Longrightarrow> Q f bytes"
    and sz: "dex_sizes st1 key = Some z" "size_in_range z"
    and rs: "rs = (case pending_dex st1 key of Some rs \<Rightarrow> rs
      | None \<Rightarrow> \<lparr>rs_total = z, rs_intervals = [], rs_buf = replicate (unat z) 0\<rparr>)"
    and n: "unat n \<noteq> 0" and len: "length payload = unat n"
    and rs1: "rs1 = (if unat off + unat n \<le> length (rs_buf rs)
      then recv_record off (off + n)
        (rs\<lparr>rs_buf := take (unat off) (rs_buf rs) @ payload @ drop (unat off + unat n) (rs_buf rs)\<rparr>)
      else rs)"
  shows "recv_inv Q (save_dex h p b z (rs_buf rs1) (st1\<lparr>pending_dex := (pending_dex st1)(key := None)\<rparr>))"
    and "recv_inv Q (st1\<lparr>pending_dex := (pending_dex st1)(key \<mapsto> rs1)\<rparr>)"
proof -
  have pend: "pending_inv st1" and fil: "files_inv Q st1" using inv by (simp_all add: recv_inv_def)
  have "recv_wf r \<and> rs_total r = z" if "pending_dex st1 key = Some r" for r
    using pend that sz(1) unfolding pending_inv_def by (metis option.inject)
  then have wf: "recv_wf rs" and tot: "rs_total rs = z"
    using recv_wf_fresh [OF sz(2)] by (auto simp: rs split: option.split)
  have wf1: "recv_wf rs1" using wf recv_wf_record [OF wf n _ len] by (simp add: rs1)
  have tot1: "rs_total rs1 = z" by (simp add: rs1 tot)
  have "recv_inv Q (st1\<lparr>pending_dex := (pending_dex st1)(key := None)\<rparr>)"
    using pend fil by (simp add: recv_inv_def pending_inv_clear files_inv_def)
  moreover have "Q f (rs_buf rs1)" if "file_size f = z" for f
    using wf1 tot1 that by (intro Q) (simp add: recv_wf_def sized_def)
  ultimately show "recv_inv Q (save_dex h p b z (rs_buf rs1)
      (st1\<lparr>pending_dex := (pending_dex st1)(key := None)\<rparr>))"
    by (rule save_dex_recv_inv)
  show "recv_inv Q (st1\<lparr>pending_dex := (pending_dex st1)(key \<mapsto> rs1)\<rparr>)"
    using pending_inv_store [OF pend wf1] tot1 sz(1) fil by (simp add: recv_inv_def files_inv_def)
qed

lemma recv_inv_if: "recv_inv Q a \<Longrightarrow> recv_inv Q b \<Longrightarrow> recv_inv Q (if c then a else b)"
  by simp

lemma recv_inv_option:
  "recv_inv Q a \<Longrightarrow> (\<And>x. recv_inv Q (f x)) \<Longrightarrow> recv_inv Q (case r of None \<Rightarrow> a | Some x \<Rightarrow> f x)"
  by (simp split: option.split)

lemma handle_dex_event_recv_inv: "recv_inv Q st \<Longrightarrow> recv_inv Q (handle_dex_event xs st)"
  by (auto simp: handle_dex_event_def observe_recv_inv split: option.split)

lemma handle_dex_chunk_recv_inv:
  assumes inv: "recv_inv Q st" and Q: "\<And>f bytes. sized f bytes \<Longrightarrow> Q f bytes"
  shows "recv_inv Q (handle_dex_chunk h xs st)"
proof (cases "parse_dex_chunk xs")
  case None
  with inv show ?thesis by (simp add: handle_dex_chunk_def)
next
  case (Some hdr)
  let ?pid = "dce_pid hdr" and ?b = "dce_begin hdr" and ?z = "dce_size hdr"
  let ?off = "unat (dce_offset hdr)" and ?n = "unat (dce_data_len hdr)"
  let ?st1 = "observe_dex ?pid ?b ?z st"
  have i1: "recv_inv Q ?st1" by (rule observe_recv_inv [OF inv])
  consider (guard) "\<not> size_in_range ?z \<or> ?n = 0 \<or> 2 ^ 32 \<le> ?off + ?n \<or> unat ?z < ?off + ?n"
    | (amb) "\<not> (\<not> size_in_range ?z \<or> ?n = 0 \<or> 2 ^ 32 \<le> ?off + ?n \<or> unat ?z < ?off + ?n)"
        "(?pid, ?b) \<in> ambiguous_dex ?st1 \<or> slice_get xs 24 (24 + ?n) = None"
    | (go) payload where "?n \<noteq> 0" "(?pid, ?b) \<notin> ambiguous_dex ?st1"
        "\<not> (\<not> size_in_range ?z \<or> ?n = 0 \<or> 2 ^ 32 \<le> ?off + ?n \<or> unat ?z < ?off + ?n)"
        "slice_get xs 24 (24 + ?n) = Some payload" by fastforce
  then show ?thesis
  proof cases
    case guard
    then have "handle_dex_chunk h xs st = st"
      unfolding handle_dex_chunk_def Some option.case Let_def by (rule if_P)
    with inv show ?thesis by simp
  next
    case amb
    then have "handle_dex_chunk h xs st = ?st1"
      unfolding handle_dex_chunk_def Some option.case Let_def if_not_P [OF amb(1)] by auto
    with i1 show ?thesis by simp
  next
    case go
    have len: "length payload = ?n" using go(4) by (auto simp: slice_get_def split: if_splits)
    note tail = chunk_tail_recv_inv [OF i1 Q observe_size [OF go(2)] refl go(1) len refl]
    have q: "recv_inv Q (quarantine_dex ?pid ?b ?st1)" by (rule quarantine_recv_inv [OF i1])
    show ?thesis
      unfolding handle_dex_chunk_def Some option.case Let_def if_not_P [OF go(3)]
        if_not_P [OF go(2)] go(4)
      by (intro recv_inv_if recv_inv_option i1 q tail)
  qed
qed

section \<open>Any sequence of records\<close>

datatype dex_record = Announce "u8 list" | Chunk "u8 list"

fun handle_record :: "host \<Rightarrow> dex_record \<Rightarrow> dump_state \<Rightarrow> dump_state" where
  "handle_record h (Announce xs) = handle_dex_event xs"
| "handle_record h (Chunk xs) = handle_dex_chunk h xs"

lemma records_recv_inv: "recv_inv sized st \<Longrightarrow> recv_inv sized (fold (handle_record h) rs st)"
proof (induction rs arbitrary: st)
  case Nil
  then show ?case by simp
next
  case (Cons r rs)
  then show ?case
    by (cases r) (simp_all add: handle_dex_event_recv_inv handle_dex_chunk_recv_inv)
qed

lemma recv_inv_new: "recv_inv Q dump_state_new"
  by (simp add: recv_inv_def files_inv_def pending_inv_def dump_state_new_def)

end
