(* ===== verification/Byte_Edit.thy ===== *)
theory Byte_Edit
  imports Dex_Format
begin

text \<open>
  Overwriting a range of a byte buffer (\<^verbatim>\<open>copy_from_slice\<close>, \<^verbatim>\<open>fill\<close>) and what it does to the
  ranges that are read afterwards.
\<close>

definition splice :: "u8 list \<Rightarrow> nat \<Rightarrow> u8 list \<Rightarrow> u8 list" where
  "splice buf off page = take off buf @ page @ drop (off + length page) buf"

lemma length_splice: "off + length page \<le> length buf \<Longrightarrow> length (splice buf off page) = length buf"
  by (simp add: splice_def)

lemma nth_splice:
  "off + length page \<le> length buf \<Longrightarrow> i < length buf \<Longrightarrow>
     splice buf off page ! i =
       (if i < off then buf ! i else if i < off + length page then page ! (i - off) else buf ! i)"
  by (auto simp: splice_def nth_append)

lemma splice_read:
  "off + length p \<le> length b \<Longrightarrow> length p = n \<Longrightarrow> take n (drop off (splice b off p)) = p"
  by (simp add: splice_def)

lemma splice_read_other:
  assumes "off + length p \<le> length b" and "a + n \<le> off \<or> off + length p \<le> a"
  shows "take n (drop a (splice b off p)) = take n (drop a b)"
proof (rule nth_equalityI)
  show "length (take n (drop a (splice b off p))) = length (take n (drop a b))"
    using assms(1) by (simp add: length_splice)
  fix i assume "i < length (take n (drop a (splice b off p)))"
  then have i: "i < n" "a + i < length b" using assms(1) by (auto simp: length_splice)
  then show "take n (drop a (splice b off p)) ! i = take n (drop a b) ! i"
    using assms by (auto simp: nth_splice length_splice)
qed

lemma splice_drop:
  "off + length p \<le> length b \<Longrightarrow> off + length p \<le> a \<Longrightarrow> drop a (splice b off p) = drop a b"
  by (simp add: splice_def)

lemma splice_take: "a \<le> off \<Longrightarrow> off \<le> length b \<Longrightarrow> take a (splice b off p) = take a b"
  by (simp add: splice_def min_absorb1)

lemma splice_same: "off + length p \<le> length b \<Longrightarrow> take (length p) (drop off b) = p \<Longrightarrow> splice b off p = b"
  unfolding splice_def
  by (metis add.commute append.assoc append_take_drop_id drop_drop)

lemma splice_nothing [simp]: "splice b off [] = b"
  by (simp add: splice_def)

text \<open>Two adjacent writes are one.\<close>

lemma splice_splice:
  "off + length p + length q \<le> length b \<Longrightarrow>
     splice (splice b off p) (off + length p) q = splice b off (p @ q)"
  by (simp add: splice_def ac_simps)

end
