(* ===== verification/Remote.thy ===== *)
theory Remote
  imports Rust_Std Byte_Edit
begin

text \<open>
  Reading another process from user space (\<^verbatim>\<open>src/dump.rs\<close>): \<^verbatim>\<open>read_remote_mem\<close> over the system
  call \<^verbatim>\<open>process_vm_readv\<close>, \<^verbatim>\<open>read_remote_range\<close> with its page-wise fallback, the search for
  the DEX magic and the validation of a DEX header. The system call and the stop flag are
  parameters; \<open>reads_memory\<close> states what the system call promises about a memory image.
  The release profile does not check overflow, so addresses wrap at 64 bits.
\<close>

section \<open>The system call\<close>

text \<open>
  \<open>rm_readv pid addr n\<close>: the bytes transferred, or \<open>None\<close> for an error. \<open>rm_running pos\<close> is
  the stop flag as the loop at position \<open>pos\<close> finds it.
\<close>

record remote =
  rm_readv :: "u32 \<Rightarrow> u64 \<Rightarrow> nat \<Rightarrow> u8 list option"
  rm_running :: "u64 \<Rightarrow> bool"

definition read_remote_mem :: "remote \<Rightarrow> u32 \<Rightarrow> u64 \<Rightarrow> u32 \<Rightarrow> u8 list option" where
  "read_remote_mem rm pid remote_addr len =
     map_option (take (unat len)) (rm_readv rm pid remote_addr (unat len))"

text \<open>
  \<^verbatim>\<open>process_vm_readv\<close> on one buffer: it transfers a prefix of the requested range, and the
  whole range when all of it is readable.
\<close>

definition reads_memory :: "remote \<Rightarrow> u32 \<Rightarrow> (u64 \<Rightarrow> u8 option) \<Rightarrow> bool" where
  "reads_memory rm pid m \<longleftrightarrow>
     (\<forall>a n bs. rm_readv rm pid a n = Some bs \<longrightarrow> length bs \<le> n \<and> read_bytes m a (length bs) = Some bs) \<and>
     (\<forall>a n bs. read_bytes m a n = Some bs \<longrightarrow> rm_readv rm pid a n = Some bs)"

lemma reads_memory_mem:
  assumes "reads_memory rm pid m" and "read_bytes m a (unat len) = Some bs"
  shows "read_remote_mem rm pid a len = Some bs"
  using assms read_bytes_length [OF assms(2)] by (auto simp: reads_memory_def read_remote_mem_def)

lemma reads_memory_sound:
  assumes "reads_memory rm pid m" and "read_remote_mem rm pid a len = Some bs"
  shows "read_bytes m a (length bs) = Some bs"
  using assms by (auto simp: reads_memory_def read_remote_mem_def)

lemma read_remote_mem_length: "read_remote_mem rm pid a len = Some bs \<Longrightarrow> length bs \<le> unat len"
  by (auto simp: read_remote_mem_def)

section \<open>Ranges with holes\<close>

definition DEX_READ_CHUNK :: nat where "DEX_READ_CHUNK = 4096"

text \<open>The page loop: \<open>buf\<close> is the buffer so far, \<open>tot\<close> the bytes populated.\<close>

function page_loop ::
  "remote \<Rightarrow> u32 \<Rightarrow> u64 \<Rightarrow> nat \<Rightarrow> u8 list \<Rightarrow> nat \<Rightarrow> u8 list \<times> nat" where
  "page_loop rm pid base off buf tot =
     (if off < length buf then
        (let chunk = min DEX_READ_CHUNK (length buf - off)
         in case read_remote_mem rm pid (base + of_nat off) (of_nat chunk) of
              Some page \<Rightarrow>
                if length page = chunk
                then page_loop rm pid base (off + DEX_READ_CHUNK)
                       (take off buf @ page @ drop (off + chunk) buf) (tot + chunk)
                else page_loop rm pid base (off + DEX_READ_CHUNK) buf tot
            | None \<Rightarrow> page_loop rm pid base (off + DEX_READ_CHUNK) buf tot)
      else (buf, tot))"
  by pat_completeness auto
termination
  by (relation "measure (\<lambda>(_, _, _, off, buf, _). length buf - off)")
    (auto simp: DEX_READ_CHUNK_def min_def)

declare page_loop.simps [simp del]

definition read_remote_range :: "remote \<Rightarrow> u32 \<Rightarrow> u64 \<Rightarrow> u32 \<Rightarrow> u8 list \<times> nat" where
  "read_remote_range rm pid base len =
     (if len = 0 then ([], 0)
      else case read_remote_mem rm pid base len of
             Some buf \<Rightarrow>
               if length buf = unat len then (buf, unat len)
               else page_loop rm pid base 0 (replicate (unat len) 0) 0
           | None \<Rightarrow> page_loop rm pid base 0 (replicate (unat len) 0) 0)"

section \<open>Searching and validating\<close>

fun find_window :: "u8 list \<Rightarrow> u8 list \<Rightarrow> nat option" where
  "find_window needle [] = None"
| "find_window needle (b # bs) =
     (if take (length needle) (b # bs) = needle then Some 0
      else map_option Suc (find_window needle bs))"

definition find_subslice :: "u8 list \<Rightarrow> u8 list \<Rightarrow> nat option" where
  "find_subslice haystack needle = (if needle = [] then Some 0 else find_window needle haystack)"

definition dex_magic :: "u8 list" where
  "dex_magic = [0x64, 0x65, 0x78, 0x0A]"

definition starts_with :: "'a list \<Rightarrow> 'a list \<Rightarrow> bool" where
  "starts_with xs p \<longleftrightarrow> take (length p) xs = p"

text \<open>\<^verbatim>\<open>(DEX_HEADER_SIZE..=MAX_DEX_FILE_SIZE).contains(&n)\<close>\<close>

definition file_size_ok :: "u32 \<Rightarrow> bool" where
  "file_size_ok n \<longleftrightarrow> 0x70 \<le> n \<and> n \<le> 0x40000000"

definition validate_dex_header :: "u8 list \<Rightarrow> u32 option" where
  "validate_dex_header header =
     (if length header < 0x70 then None
      else if \<not> starts_with header dex_magic then None
      else case le32 header 0x20 of None \<Rightarrow> None
      | Some file_size \<Rightarrow>
          if \<not> file_size_ok file_size then None
          else (case le32 header 0x24 of None \<Rightarrow> None
          | Some header_size \<Rightarrow>
              if header_size \<noteq> 0x70 then None
              else (case le32 header 0x28 of None \<Rightarrow> None
              | Some endian_tag \<Rightarrow>
                  if endian_tag \<noteq> 0x12345678 then None
                  else (case le32 header 0x34 of None \<Rightarrow> None
                  | Some map_off \<Rightarrow>
                      if map_off \<noteq> 0 \<and> file_size \<le> map_off then None else Some file_size))))"

definition checked_u64_add :: "u64 \<Rightarrow> u64 \<Rightarrow> u64 option" where
  "checked_u64_add a b = (if unat a + unat b < 2 ^ 64 then Some (a + b) else None)"

definition saturating_u64_add :: "u64 \<Rightarrow> u64 \<Rightarrow> u64" where
  "saturating_u64_add a b = (if unat a + unat b < 2 ^ 64 then a + b else 0xffffffffffffffff)"

definition saturating_u64_sub :: "u64 \<Rightarrow> u64 \<Rightarrow> u64" where
  "saturating_u64_sub a b = (if b \<le> a then a - b else 0)"

definition validate_dex_header_contains :: "u8 list \<Rightarrow> u64 \<Rightarrow> u64 \<Rightarrow> u32 option" where
  "validate_dex_header_contains header dbegin addr =
     (case validate_dex_header header of None \<Rightarrow> None
      | Some file_size \<Rightarrow>
          (case checked_u64_add dbegin (ucast file_size) of None \<Rightarrow> None
           | Some dex_end \<Rightarrow> if addr < dbegin \<or> dex_end \<le> addr then None else Some file_size))"

section \<open>Facts about ranges\<close>

text \<open>One page of the loop: read in full or not used.\<close>

definition read_page :: "remote \<Rightarrow> u32 \<Rightarrow> u64 \<Rightarrow> nat \<Rightarrow> nat \<Rightarrow> u8 list option" where
  "read_page rm pid base len off =
     (let chunk = min DEX_READ_CHUNK (len - off)
      in case read_remote_mem rm pid (base + of_nat off) (of_nat chunk) of
           Some page \<Rightarrow> if length page = chunk then Some page else None
         | None \<Rightarrow> None)"

lemma read_page_length:
  "read_page rm pid base len off = Some page \<Longrightarrow> length page = min DEX_READ_CHUNK (len - off)"
  by (auto simp: read_page_def Let_def split: option.splits if_splits)

lemma page_loop_step:
  "off < length buf \<Longrightarrow>
     page_loop rm pid base off buf tot =
       (case read_page rm pid base (length buf) off of
          Some page \<Rightarrow>
            page_loop rm pid base (off + DEX_READ_CHUNK) (splice buf off page) (tot + length page)
        | None \<Rightarrow> page_loop rm pid base (off + DEX_READ_CHUNK) buf tot)"
  by (subst page_loop.simps) (auto simp: read_page_def splice_def Let_def split: option.split)

lemma page_loop_stop: "length buf \<le> off \<Longrightarrow> page_loop rm pid base off buf tot = (buf, tot)"
  by (subst page_loop.simps) simp

lemma page_loop_induct [case_names stop page hole]:
  assumes stop: "\<And>off buf tot. length buf \<le> off \<Longrightarrow> P off buf tot"
    and page: "\<And>off buf tot page. off < length buf \<Longrightarrow>
      read_page rm pid base (length buf) off = Some page \<Longrightarrow>
      off + length page \<le> length buf \<Longrightarrow> length page = min DEX_READ_CHUNK (length buf - off) \<Longrightarrow>
      P (off + DEX_READ_CHUNK) (splice buf off page) (tot + length page) \<Longrightarrow> P off buf tot"
    and hole: "\<And>off buf tot. off < length buf \<Longrightarrow>
      read_page rm pid base (length buf) off = None \<Longrightarrow>
      P (off + DEX_READ_CHUNK) buf tot \<Longrightarrow> P off buf tot"
  shows "P off buf tot"
proof (induction "length buf - off" arbitrary: off buf tot rule: less_induct)
  case (less off buf tot)
  show ?case
  proof (cases "off < length buf")
    case True
    have pos: "0 < DEX_READ_CHUNK" by (simp add: DEX_READ_CHUNK_def)
    show ?thesis
    proof (cases "read_page rm pid base (length buf) off")
      case None
      from True pos have "P (off + DEX_READ_CHUNK) buf tot" by (intro less) simp
      with True None show ?thesis by (rule hole)
    next
      case (Some p)
      note len = read_page_length [OF Some]
      then have le: "off + length p \<le> length buf" using True by simp
      from True pos have "P (off + DEX_READ_CHUNK) (splice buf off p) (tot + length p)"
        by (intro less) (simp add: length_splice [OF le])
      then show ?thesis by (rule page [OF True Some le len])
    qed
  next
    case False
    then show ?thesis by (intro stop) simp
  qed
qed

lemma page_loop_length: "length (fst (page_loop rm pid base off buf tot)) = length buf"
  by (induction off buf tot rule: page_loop_induct [where rm = rm and pid = pid and base = base])
    (simp_all add: page_loop_step page_loop_stop length_splice)

lemma length_read_remote_range: "length (fst (read_remote_range rm pid base len)) = unat len"
  by (auto simp: read_remote_range_def page_loop_length split: option.split)

lemma page_loop_total:
  "snd (page_loop rm pid base off buf tot) \<le> tot + (length buf - off)"
  by (induction off buf tot rule: page_loop_induct [where rm = rm and pid = pid and base = base])
    (auto simp: page_loop_step page_loop_stop length_splice DEX_READ_CHUNK_def min_def
      split: if_splits)

lemma page_loop_before:
  "i < off \<Longrightarrow> i < length buf \<Longrightarrow> fst (page_loop rm pid base off buf tot) ! i = buf ! i"
  by (induction off buf tot rule: page_loop_induct [where rm = rm and pid = pid and base = base])
    (simp_all add: page_loop_step page_loop_stop length_splice nth_splice)

lemma read_page_sound:
  assumes "reads_memory rm pid m" and "read_page rm pid base len off = Some page"
    and "i < length page"
  shows "m (base + of_nat (off + i)) = Some (page ! i)"
proof -
  from assms(2) have "read_remote_mem rm pid (base + of_nat off)
      (of_nat (min DEX_READ_CHUNK (len - off))) = Some page"
    by (auto simp: read_page_def Let_def split: option.splits if_splits)
  from reads_memory_sound [OF assms(1) this]
  have "m (base + of_nat off + of_nat i) = Some (page ! i)"
    using assms(3) by (rule read_bytes_nth)
  then show ?thesis by (simp add: add.assoc)
qed

text \<open>Every byte of the result is the byte of the memory or the byte the buffer had.\<close>

lemma page_loop_bytes:
  assumes "reads_memory rm pid m"
  shows "i < length buf \<Longrightarrow>
    fst (page_loop rm pid base off buf tot) ! i = buf ! i \<or>
    m (base + of_nat i) = Some (fst (page_loop rm pid base off buf tot) ! i)"
proof (induction off buf tot rule: page_loop_induct [where rm = rm and pid = pid and base = base])
  case (page off buf tot p)
  let ?buf = "splice buf off p"
  have res: "page_loop rm pid base off buf tot =
      page_loop rm pid base (off + DEX_READ_CHUNK) ?buf (tot + length p)"
    using page.hyps by (simp add: page_loop_step)
  show ?case
  proof (cases "off \<le> i \<and> i < off + length p")
    case True
    moreover have "length p \<le> DEX_READ_CHUNK" using page.hyps(4) by simp
    ultimately have "i < off + DEX_READ_CHUNK" by linarith
    then have "fst (page_loop rm pid base off buf tot) ! i = p ! (i - off)"
      unfolding res using page.hyps page.prems True
      by (simp add: page_loop_before length_splice nth_splice)
    moreover have "m (base + of_nat (off + (i - off))) = Some (p ! (i - off))"
      by (rule read_page_sound [OF assms page.hyps(2)]) (use True in linarith)
    ultimately show ?thesis using True by simp
  next
    case False
    then have "?buf ! i = buf ! i" using page.hyps page.prems by (auto simp: nth_splice)
    then show ?thesis
      unfolding res using page.IH page.prems page.hyps(3) by (simp add: length_splice)
  qed
qed (simp_all add: page_loop_step page_loop_stop)

text \<open>When the count reaches the length, every byte from the position on was read.\<close>

lemma page_loop_full:
  assumes "reads_memory rm pid m"
  shows "snd (page_loop rm pid base off buf tot) = tot + (length buf - off) \<Longrightarrow> off \<le> i \<Longrightarrow>
    i < length buf \<Longrightarrow> m (base + of_nat i) = Some (fst (page_loop rm pid base off buf tot) ! i)"
proof (induction off buf tot rule: page_loop_induct [where rm = rm and pid = pid and base = base])
  case (page off buf tot p)
  have res: "page_loop rm pid base off buf tot =
      page_loop rm pid base (off + DEX_READ_CHUNK) (splice buf off p) (tot + length p)"
    using page.hyps by (simp add: page_loop_step)
  show ?case
  proof (cases "i < off + length p")
    case True
    moreover have "length p \<le> DEX_READ_CHUNK" using page.hyps(4) by simp
    ultimately have "i < off + DEX_READ_CHUNK" by linarith
    then have "fst (page_loop rm pid base off buf tot) ! i = p ! (i - off)"
      unfolding res using page.hyps page.prems True
      by (simp add: page_loop_before length_splice nth_splice)
    moreover have "m (base + of_nat (off + (i - off))) = Some (p ! (i - off))"
      by (rule read_page_sound [OF assms page.hyps(2)]) (use True page.prems in linarith)
    ultimately show ?thesis using page.prems by simp
  next
    case False
    then have "off + DEX_READ_CHUNK \<le> i" using page.hyps(4) page.prems by simp
    then show ?thesis
      unfolding res using page.prems page.hyps
      by (intro page.IH) (simp_all add: length_splice res)
  qed
next
  case (hole off buf tot)
  have "snd (page_loop rm pid base (off + DEX_READ_CHUNK) buf tot) \<le>
      tot + (length buf - (off + DEX_READ_CHUNK))"
    by (rule page_loop_total)
  moreover have "tot + (length buf - (off + DEX_READ_CHUNK)) < tot + (length buf - off)"
    using hole.hyps(1) by (simp add: DEX_READ_CHUNK_def)
  ultimately have False using hole.prems(1) hole.hyps by (simp add: page_loop_step)
  then show ?case ..
qed simp

lemma read_bytes_eqI:
  "length bs = n \<Longrightarrow> (\<And>i. i < n \<Longrightarrow> m (a + of_nat i) = Some (bs ! i)) \<Longrightarrow> read_bytes m a n = Some bs"
proof -
  assume len: "length bs = n" and nth: "\<And>i. i < n \<Longrightarrow> m (a + of_nat i) = Some (bs ! i)"
  then obtain xs where xs: "read_bytes m a n = Some xs"
    using read_bytes_Some_iff [of m a n] by auto
  have "xs = bs"
    using read_bytes_length [OF xs] len read_bytes_nth [OF xs] nth
    by (intro nth_equalityI) auto
  with xs show ?thesis by simp
qed

lemma read_remote_range_full:
  assumes mem: "reads_memory rm pid m" and full: "read_remote_range rm pid base len = (buf, unat len)"
  shows "read_bytes m base (unat len) = Some buf"
proof (cases "read_remote_mem rm pid base len = Some buf \<and> length buf = unat len")
  case True
  then show ?thesis using reads_memory_sound [OF mem, of base len buf] by simp
next
  case False
  let ?zero = "replicate (unat len) 0 :: u8 list"
  show ?thesis
  proof (cases "len = 0")
    case zero: False
    with False full have loop: "page_loop rm pid base 0 ?zero 0 = (buf, unat len)"
      by (auto simp: read_remote_range_def split: option.splits if_splits)
    have len: "length buf = unat len"
      using page_loop_length [of rm pid base 0 ?zero 0] loop by simp
    have "m (base + of_nat i) = Some (buf ! i)" if "i < unat len" for i
      using page_loop_full [OF mem, where base = base and off = 0 and buf = ?zero and tot = 0 and i = i] loop that by simp
    then show ?thesis using len by (intro read_bytes_eqI) auto
  qed (use full in \<open>simp add: read_remote_range_def\<close>)
qed

lemma read_remote_range_bytes:
  assumes "reads_memory rm pid m" and "i < unat len"
  shows "fst (read_remote_range rm pid base len) ! i = 0 \<or>
    m (base + of_nat i) = Some (fst (read_remote_range rm pid base len) ! i)"
proof -
  have "m (base + of_nat i) = Some (buf ! i)"
    if "read_remote_mem rm pid base len = Some buf" "length buf = unat len" for buf
    using reads_memory_sound [OF assms(1) that(1)] that(2) assms(2) by (metis read_bytes_nth)
  then show ?thesis
    using page_loop_bytes [OF assms(1), where i = i and buf = "replicate (unat len) 0" and
        base = base and off = 0 and tot = 0] assms(2)
    by (auto simp: read_remote_range_def split: option.split)
qed

lemma read_remote_range_readable:
  assumes "reads_memory rm pid m" and "read_bytes m base (unat len) = Some bs"
  shows "read_remote_range rm pid base len = (bs, unat len)"
  using reads_memory_mem [OF assms] read_bytes_length [OF assms(2)] assms(2)
  by (auto simp: read_remote_range_def)

end
