(* ===== verification/Remote_Scan.thy ===== *)
theory Remote_Scan
  imports Remote
begin

text \<open>
  The searches for DEX files in the memory of a traced process (\<^verbatim>\<open>src/dump.rs\<close>): behind a
  code item (\<^verbatim>\<open>dump_dex_from_code_item\<close>), in a reported buffer
  (\<^verbatim>\<open>dump_dex_from_native_buffer\<close>, \<^verbatim>\<open>scan_native_range_for_dex\<close>) and in one mapping of a
  process (\<^verbatim>\<open>scan_region_for_dex\<close>). The scan of a buffer is a partial function, since
  it need not end; the other loops always do.
\<close>

type_synonym found_dex = "u64 \<times> u32 \<times> u8 list"

abbreviation (input) "SCAN_STEP \<equiv> 0x1000 :: u64"

section \<open>The search in one page\<close>

text \<open>
  The inner loop is the same in all three searches: each match of the magic from \<open>off\<close> on, the
  search resuming four bytes after a match. \<open>hits\<close> lists the matches.
\<close>

lemma find_window_Some:
  "find_window needle xs = Some i \<Longrightarrow> needle \<noteq> [] \<Longrightarrow>
     i + length needle \<le> length xs \<and> take (length needle) (drop i xs) = needle \<and>
     (\<forall>j<i. take (length needle) (drop j xs) \<noteq> needle)"
proof (induction needle xs arbitrary: i rule: find_window.induct)
  case (1 needle)
  then show ?case by simp
next
  case (2 needle b bs)
  show ?case
  proof (cases "take (length needle) (b # bs) = needle")
    case True
    with 2 show ?thesis by (auto dest: arg_cong [of _ _ length])
  next
    case False
    with 2 obtain k where i: "i = Suc k" and k: "find_window needle bs = Some k" by auto
    note IH = 2 (1) [OF False k 2 (3)]
    have "take (length needle) (drop j (b # bs)) \<noteq> needle" if "j < i" for j
      using False IH i that by (cases j) auto
    with IH i show ?thesis by simp
  qed
qed

lemma find_window_None:
  "find_window needle xs = None \<Longrightarrow> needle \<noteq> [] \<Longrightarrow> take (length needle) (drop j xs) \<noteq> needle"
proof (induction needle xs arbitrary: j rule: find_window.induct)
  case (2 needle b bs)
  then show ?case by (cases j) (auto split: if_splits)
qed auto

lemma dex_magic_length [simp]: "length dex_magic = 4" "dex_magic \<noteq> []"
  by (simp_all add: dex_magic_def)

lemma find_magic_Some:
  "find_subslice xs dex_magic = Some i \<Longrightarrow> i + 4 \<le> length xs \<and> take 4 (drop i xs) = dex_magic \<and>
     (\<forall>j<i. take 4 (drop j xs) \<noteq> dex_magic)"
  using find_window_Some [of dex_magic xs i]
  by (simp add: find_subslice_def)

lemma find_magic_None: "find_subslice xs dex_magic = None \<Longrightarrow> take 4 (drop j xs) \<noteq> dex_magic"
  using find_window_None [of dex_magic xs j] by (simp add: find_subslice_def)

function hits :: "u8 list \<Rightarrow> nat \<Rightarrow> nat list" where
  "hits page off =
     (case find_subslice (drop off page) dex_magic of
        None \<Rightarrow> []
      | Some idx \<Rightarrow>
          (off + idx) # (if length page \<le> off + idx + 4 then [] else hits page (off + idx + 4)))"
  by pat_completeness auto
termination by (relation "measure (\<lambda>(page, off). length page - off)") auto

declare hits.simps [simp del]

text \<open>The magic does not overlap itself, so skipping four bytes loses no match.\<close>

lemma magic_no_overlap:
  assumes "take 4 (drop i xs) = dex_magic" and "take 4 (drop j xs) = dex_magic"
  shows "\<not> (i < j \<and> j < i + 4)"
proof
  assume ij: "i < j \<and> j < i + 4"
  have b: "take 4 (drop k xs) = dex_magic \<Longrightarrow> n < 4 \<Longrightarrow> xs ! (k + n) = dex_magic ! n" for k n
    by (metis (no_types, lifting) dex_magic_def drop_eq_Nil length_take list.distinct(1)
        min_less_iff_conj nat_le_linear nth_drop nth_take take_Nil)
  consider "j = i + 1" | "j = i + 2" | "j = i + 3" using ij by linarith
  then show False
  proof cases
    case 1
    with b [OF assms(1), of 1] b [OF assms(2), of 0] show ?thesis by (simp add: dex_magic_def)
  next
    case 2
    with b [OF assms(1), of 2] b [OF assms(2), of 0] show ?thesis by (simp add: dex_magic_def)
  next
    case 3
    with b [OF assms(1), of 3] b [OF assms(2), of 0] show ?thesis by (simp add: dex_magic_def)
  qed
qed

lemma hits_iff: "i \<in> set (hits page off) \<longleftrightarrow> off \<le> i \<and> take 4 (drop i page) = dex_magic"
proof (induction page off rule: hits.induct)
  case (1 page off)
  show ?case
  proof (cases "find_subslice (drop off page) dex_magic")
    case None
    have "take 4 (drop i page) \<noteq> dex_magic" if "off \<le> i"
      using find_magic_None [OF None, of "i - off"] that by simp
    with None show ?thesis by (subst hits.simps) auto
  next
    case (Some idx)
    note f = find_magic_Some [OF Some]
    have before: "take 4 (drop i page) \<noteq> dex_magic" if "off \<le> i" "i < off + idx"
      using f that by (auto dest!: spec [of _ "i - off"])
    have here: "take 4 (drop (off + idx) page) = dex_magic" using f by (simp add: add.commute)
    have inside: "\<not> (off + idx < i \<and> i < off + idx + 4)" if "take 4 (drop i page) = dex_magic"
      using magic_no_overlap [OF here that] .
    have beyond: "length page \<le> off + idx + 4 \<Longrightarrow> off + idx + 4 \<le> i \<Longrightarrow>
        take 4 (drop i page) \<noteq> dex_magic"
      by (simp add: dex_magic_def)
    show ?thesis
    proof (cases "length page \<le> off + idx + 4")
      case True
      have "i \<in> set (hits page off) \<longleftrightarrow> i = off + idx"
        using Some True by (subst hits.simps) simp
      also have "\<dots> \<longleftrightarrow> off \<le> i \<and> take 4 (drop i page) = dex_magic"
        using before here inside beyond True by (metis le_add1 linorder_cases not_le)
      finally show ?thesis .
    next
      case False
      then have "i \<in> set (hits page off) \<longleftrightarrow> i = off + idx \<or>
          (off + idx + 4 \<le> i \<and> take 4 (drop i page) = dex_magic)"
        using Some 1 [OF Some] by (subst hits.simps) simp
      also have "\<dots> \<longleftrightarrow> off \<le> i \<and> take 4 (drop i page) = dex_magic"
        using before here inside by (metis le_add1 le_trans linorder_cases not_le)
      finally show ?thesis .
    qed
  qed
qed

section \<open>A reported buffer\<close>

definition NATIVE_BUFFER_SCAN_LIMIT :: u64 where "NATIVE_BUFFER_SCAN_LIMIT = 64 * 1024 * 1024"

text \<open>What one match contributes to the list of DEX files found.\<close>

definition native_candidate :: "remote \<Rightarrow> u32 \<Rightarrow> u64 \<Rightarrow> u64 \<Rightarrow> found_dex list" where
  "native_candidate rm pid stop dbegin =
     (case read_remote_mem rm pid dbegin 0x70 of
        None \<Rightarrow> []
      | Some header \<Rightarrow>
          (case validate_dex_header header of
             None \<Rightarrow> []
           | Some sz \<Rightarrow>
               if dbegin + ucast sz \<le> stop then
                 (case read_remote_mem rm pid dbegin sz of
                    None \<Rightarrow> []
                  | Some bytes \<Rightarrow> if dex_accepted bytes then [(dbegin, sz, bytes)] else [])
               else []))"

function native_page ::
  "remote \<Rightarrow> u32 \<Rightarrow> u64 \<Rightarrow> u64 \<Rightarrow> u8 list \<Rightarrow> nat \<Rightarrow> found_dex list \<Rightarrow> found_dex list" where
  "native_page rm pid pos stop page off found =
     (case find_subslice (drop off page) dex_magic of
        None \<Rightarrow> found
      | Some idx \<Rightarrow>
          (let dbegin = pos + of_nat (off + idx)
           in if stop < dbegin + 0x70 then found
              else let found' = found @ native_candidate rm pid stop dbegin;
                       off' = off + idx + 4
                   in if length page \<le> off' then found'
                      else native_page rm pid pos stop page off' found'))"
  by pat_completeness auto
termination by (relation "measure (\<lambda>(_, _, _, _, page, off, _). length page - off)") auto

declare native_page.simps [simp del]

partial_function (option) native_scan ::
  "remote \<Rightarrow> u32 \<Rightarrow> u64 \<Rightarrow> u64 \<Rightarrow> found_dex list \<Rightarrow> found_dex list option" where
  "native_scan rm pid stop pos found =
     (if pos + 0x70 \<le> stop then
        (if \<not> rm_running rm pos then Some found
         else let read_len = min (saturating_u64_sub stop pos) SCAN_STEP
              in native_scan rm pid stop (saturating_u64_add pos SCAN_STEP)
                   (case read_remote_mem rm pid pos (ucast read_len) of
                      None \<Rightarrow> found
                    | Some page \<Rightarrow> native_page rm pid pos stop page 0 found))
      else Some found)"

definition scan_native_range_for_dex ::
  "remote \<Rightarrow> u32 \<Rightarrow> u64 \<Rightarrow> u64 \<Rightarrow> found_dex list \<Rightarrow> found_dex list option" where
  "scan_native_range_for_dex rm pid start stop found = native_scan rm pid stop start found"

text \<open>The outer \<open>None\<close> is a scan that does not end; \<open>Inl\<close> is the error returned.\<close>

definition dump_dex_from_native_buffer ::
  "remote \<Rightarrow> u32 \<Rightarrow> u64 \<Rightarrow> u64 \<Rightarrow> (string + found_dex list) option" where
  "dump_dex_from_native_buffer rm pid addr sz =
     (if addr = 0 \<or> sz = 0 then Some (Inr [])
      else case checked_u64_add addr (min sz NATIVE_BUFFER_SCAN_LIMIT) of
        None \<Rightarrow> Some (Inl ''native buffer address overflow'')
      | Some stop \<Rightarrow>
          (let scan = map_option Inr (scan_native_range_for_dex rm pid addr stop [])
           in case read_remote_mem rm pid addr 0x70 of
                None \<Rightarrow> scan
              | Some header \<Rightarrow>
                  (case validate_dex_header header of
                     None \<Rightarrow> scan
                   | Some file_size \<Rightarrow>
                       if addr + ucast file_size \<le> stop then
                         (case read_remote_mem rm pid addr file_size of
                            None \<Rightarrow> Some (Inl ''read native dex'')
                          | Some bytes \<Rightarrow>
                              if dex_accepted bytes then Some (Inr [(addr, file_size, bytes)])
                              else scan)
                       else scan)))"

section \<open>The mappings of a process\<close>

definition region_candidate :: "remote \<Rightarrow> u32 \<Rightarrow> u64 \<Rightarrow> u64 \<Rightarrow> found_dex list" where
  "region_candidate rm pid readable_end dbegin =
     (case read_remote_range rm pid dbegin 0x70 of
        (header, header_got) \<Rightarrow>
          if header_got = 0x70 then
            (case validate_dex_header header of
               None \<Rightarrow> []
             | Some sz \<Rightarrow>
                 if dbegin + ucast sz \<le> readable_end then
                   (case read_remote_range rm pid dbegin sz of
                      (bytes, got) \<Rightarrow>
                        if got = unat sz \<and> dex_accepted bytes then [(dbegin, sz, bytes)] else [])
                 else [])
          else [])"

function region_page ::
  "remote \<Rightarrow> u32 \<Rightarrow> u64 \<Rightarrow> u64 \<Rightarrow> u8 list \<Rightarrow> nat \<Rightarrow> found_dex list \<Rightarrow> found_dex list" where
  "region_page rm pid pos readable_end page off found =
     (case find_subslice (drop off page) dex_magic of
        None \<Rightarrow> found
      | Some idx \<Rightarrow>
          (let dbegin = pos + of_nat (off + idx)
           in if readable_end < dbegin + 0x70 then found
              else let found' = found @ region_candidate rm pid readable_end dbegin;
                       off' = off + idx + 4
                   in if length page \<le> off' then found'
                      else region_page rm pid pos readable_end page off' found'))"
  by pat_completeness auto
termination by (relation "measure (\<lambda>(_, _, _, _, page, off, _). length page - off)") auto

declare region_page.simps [simp del]

lemma saturating_add_grows:
  "pos < stop \<Longrightarrow> unat pos < unat (saturating_u64_add pos SCAN_STEP)" for pos stop :: u64
proof -
  assume "pos < stop"
  then have "unat pos < unat stop" by (simp add: word_less_nat_alt)
  moreover have "unat stop < 2 ^ 64" using unsigned_less [of stop, where 'a = nat] by simp
  ultimately show ?thesis by (simp add: saturating_u64_add_def unat_word_ariths)
qed

function scan_region_for_dex ::
  "remote \<Rightarrow> u32 \<Rightarrow> u64 \<Rightarrow> u64 \<Rightarrow> u64 \<Rightarrow> found_dex list \<Rightarrow> found_dex list" where
  "scan_region_for_dex rm pid pos scan_end readable_end found =
     (if pos < scan_end then
        (if \<not> rm_running rm pos then found
         else let chunk = min SCAN_STEP (scan_end - pos)
              in scan_region_for_dex rm pid (saturating_u64_add pos SCAN_STEP) scan_end readable_end
                   (case read_remote_mem rm pid pos (ucast chunk) of
                      None \<Rightarrow> found
                    | Some page \<Rightarrow> region_page rm pid pos readable_end page 0 found))
      else found)"
  by pat_completeness auto
termination
proof (relation "measure (\<lambda>(_, _, pos, _, _, _). 2 ^ 64 - unat pos)", simp)
  fix pos stop :: u64
  assume "pos < stop"
  from saturating_add_grows [OF this]
  have "unat pos < unat (saturating_u64_add pos SCAN_STEP)" .
  moreover have "unat (saturating_u64_add pos SCAN_STEP) < 2 ^ 64"
    using unsigned_less [of "saturating_u64_add pos SCAN_STEP", where 'a = nat] by simp
  ultimately show "((rm :: remote, pid :: u32, saturating_u64_add pos SCAN_STEP, stop, re :: u64,
      f :: found_dex list), rm, pid, pos, stop, re, found)
      \<in> measure (\<lambda>(_, _, pos, _, _, _). 2 ^ 64 - unat pos)" for rm pid re f found by simp
qed

declare scan_region_for_dex.simps [simp del]

section \<open>Behind a code item\<close>

definition CODE_ITEM_BACKSCAN_LIMIT :: u64 where "CODE_ITEM_BACKSCAN_LIMIT = 64 * 1024 * 1024"

text \<open>The header test of one match, from the page where it holds the whole header.\<close>

definition code_item_validated :: "remote \<Rightarrow> u32 \<Rightarrow> u8 list \<Rightarrow> nat \<Rightarrow> u64 \<Rightarrow> u64 \<Rightarrow> u32 option" where
  "code_item_validated rm pid page page_off dbegin code_item_ptr =
     (case slice_get page page_off (page_off + 0x70) of
        Some header \<Rightarrow> validate_dex_header_contains header dbegin code_item_ptr
      | None \<Rightarrow>
          (case read_remote_mem rm pid dbegin 0x70 of
             None \<Rightarrow> None
           | Some h \<Rightarrow> validate_dex_header_contains h dbegin code_item_ptr))"

text \<open>The inner loop; \<open>Inr None\<close> is its end without a result.\<close>

function code_item_page ::
  "remote \<Rightarrow> u32 \<Rightarrow> u64 \<Rightarrow> u64 \<Rightarrow> u8 list \<Rightarrow> nat \<Rightarrow> string + found_dex option" where
  "code_item_page rm pid code_item_ptr scan page off =
     (case find_subslice (drop off page) dex_magic of
        None \<Rightarrow> Inr None
      | Some idx \<Rightarrow>
          (let dbegin = scan + of_nat (off + idx); off' = off + idx + 4;
               more = (if length page \<le> off' then Inr None
                       else code_item_page rm pid code_item_ptr scan page off')
           in if code_item_ptr < dbegin then more
              else case code_item_validated rm pid page (off + idx) dbegin code_item_ptr of
                None \<Rightarrow> more
              | Some sz \<Rightarrow>
                  (case read_remote_mem rm pid dbegin sz of
                     None \<Rightarrow> Inl ''read dex''
                   | Some bytes \<Rightarrow>
                       if dex_accepted bytes then Inr (Some (dbegin, sz, bytes)) else more)))"
  by pat_completeness auto
termination by (relation "measure (\<lambda>(_, _, _, _, page, off). length page - off)") auto

declare code_item_page.simps [simp del]

function code_item_scan ::
  "remote \<Rightarrow> u32 \<Rightarrow> u64 \<Rightarrow> u64 \<Rightarrow> u64 \<Rightarrow> string + found_dex option" where
  "code_item_scan rm pid code_item_ptr scan_floor scan =
     (if scan_floor \<le> scan then
        (if \<not> rm_running rm scan then Inr None
         else let step = (if scan < SCAN_STEP then Inr None
                          else code_item_scan rm pid code_item_ptr scan_floor (scan - SCAN_STEP))
              in case read_remote_mem rm pid scan 0x1000 of
                   None \<Rightarrow> step
                 | Some page \<Rightarrow>
                     (case code_item_page rm pid code_item_ptr scan page 0 of
                        Inr None \<Rightarrow> step
                      | r \<Rightarrow> r))
      else Inr None)"
  by pat_completeness auto
termination
proof (relation "measure (\<lambda>(_, _, _, _, scan). unat scan)", simp)
  fix rm :: remote and pid :: u32 and code_item_ptr scan_floor scan :: u64
  assume "\<not> scan < SCAN_STEP"
  then have "unat (scan - SCAN_STEP) = unat scan - 0x1000" and "0x1000 \<le> unat scan"
    by (simp_all add: unat_sub word_le_nat_alt not_less)
  then show "((rm, pid, code_item_ptr, scan_floor, scan - SCAN_STEP), rm, pid, code_item_ptr,
      scan_floor, scan) \<in> measure (\<lambda>(_, _, _, _, scan). unat scan)" by simp
qed

declare code_item_scan.simps [simp del]

definition dump_dex_from_code_item ::
  "remote \<Rightarrow> u32 \<Rightarrow> u64 \<Rightarrow> string + found_dex option" where
  "dump_dex_from_code_item rm pid code_item_ptr =
     (if code_item_ptr = 0 then Inr None
      else code_item_scan rm pid code_item_ptr
             (saturating_u64_sub code_item_ptr CODE_ITEM_BACKSCAN_LIMIT)
             (code_item_ptr AND NOT (SCAN_STEP - 1)))"

end
