(* ===== verification/Remote_Facts.thy ===== *)
theory Remote_Facts
  imports Remote_Scan
begin

text \<open>
  What the scans of Remote\_Scan find: everything reported was validated and lies in range, a
  DEX whose magic lies in one page of the scan is reported, and a magic across two pages is
  not. The scan of a reported buffer ends when the buffer does not reach the top of the
  address space, and never ends when the next page would lie beyond it.
\<close>

section \<open>Headers\<close>

lemma validate_dex_header_iff:
  "validate_dex_header header = Some sz \<longleftrightarrow>
     112 \<le> length header \<and> take 4 header = dex_magic \<and> le32 header 0x20 = Some sz \<and>
     file_size_ok sz \<and> le32 header 0x24 = Some 0x70 \<and> le32 header 0x28 = Some 0x12345678 \<and>
     (\<exists>map_off. le32 header 0x34 = Some map_off \<and> (map_off = 0 \<or> map_off < sz))"
  by (auto simp: validate_dex_header_def starts_with_def not_less not_le split: option.splits)

lemma validated_header_magic:
  "validate_dex_header header = Some sz \<Longrightarrow> take 4 header = dex_magic \<and> file_size_ok sz"
  by (simp add: validate_dex_header_iff)

section \<open>The page loops as folds over the matches\<close>

lemma native_page_hits:
  "native_page rm pid pos stop page off found =
     found @ concat (map (\<lambda>i. native_candidate rm pid stop (pos + of_nat i))
       (takeWhile (\<lambda>i. \<not> stop < pos + of_nat i + 0x70) (hits page off)))"
proof (induction rm pid pos stop page off found rule: native_page.induct)
  case (1 rm pid pos stop page off found)
  show ?case
  proof (cases "find_subslice (drop off page) dex_magic")
    case None
    then show ?thesis by (simp add: native_page.simps [of rm pid pos stop page off] hits.simps [of page off])
  next
    case (Some idx)
    show ?thesis
    proof (cases "stop < pos + of_nat (off + idx) + 0x70 \<or> length page \<le> off + idx + 4")
      case True
      with Some show ?thesis
        by (auto simp: native_page.simps [of rm pid pos stop page off] hits.simps [of page off] Let_def)
    next
      case False
      with Some 1 [OF Some refl _ refl refl] show ?thesis
        by (simp add: native_page.simps [of rm pid pos stop page off] hits.simps [of page off] Let_def)
    qed
  qed
qed

lemma region_page_hits:
  "region_page rm pid pos readable_end page off found =
     found @ concat (map (\<lambda>i. region_candidate rm pid readable_end (pos + of_nat i))
       (takeWhile (\<lambda>i. \<not> readable_end < pos + of_nat i + 0x70) (hits page off)))"
proof (induction rm pid pos readable_end page off found rule: region_page.induct)
  case (1 rm pid pos readable_end page off found)
  show ?case
  proof (cases "find_subslice (drop off page) dex_magic")
    case None
    then show ?thesis
      by (simp add: region_page.simps [of rm pid pos readable_end page off] hits.simps [of page off])
  next
    case (Some idx)
    show ?thesis
    proof (cases "readable_end < pos + of_nat (off + idx) + 0x70 \<or> length page \<le> off + idx + 4")
      case True
      with Some show ?thesis
        by (auto simp: region_page.simps [of rm pid pos readable_end page off]
            hits.simps [of page off] Let_def)
    next
      case False
      with Some 1 [OF Some refl _ refl refl] show ?thesis
        by (simp add: region_page.simps [of rm pid pos readable_end page off]
            hits.simps [of page off] Let_def)
    qed
  qed
qed

section \<open>Soundness\<close>

text \<open>What is reported was validated in place, passed the parser and lies below \<open>stop\<close>.\<close>

definition found_ok :: "remote \<Rightarrow> u32 \<Rightarrow> u64 \<Rightarrow> found_dex \<Rightarrow> bool" where
  "found_ok rm pid stop = (\<lambda>(b, sz, bytes).
     (\<exists>header. read_remote_mem rm pid b 0x70 = Some header \<and> validate_dex_header header = Some sz) \<and>
     read_remote_mem rm pid b sz = Some bytes \<and> dex_accepted bytes \<and> b + ucast sz \<le> stop)"

lemma native_candidate_ok: "list_all (found_ok rm pid stop) (native_candidate rm pid stop b)"
  by (auto simp: native_candidate_def found_ok_def split: option.splits)

lemma native_page_ok:
  "list_all (found_ok rm pid stop) found \<Longrightarrow>
     list_all (found_ok rm pid stop) (native_page rm pid pos stop page off found)"
  using native_candidate_ok by (auto simp: native_page_hits list_all_iff)

lemma native_scan_ok:
  assumes "native_scan rm pid stop pos found = Some res" and "list_all (found_ok rm pid stop) found"
  shows "list_all (found_ok rm pid stop) res"
proof -
  have "list_all (found_ok rm pid stop) found \<longrightarrow> list_all (found_ok rm pid stop) res"
  proof (rule native_scan.raw_induct [where P = "\<lambda>rm pid stop pos found res.
      list_all (found_ok rm pid stop) found \<longrightarrow> list_all (found_ok rm pid stop) res", OF _ assms(1)])
    fix f rm pid stop pos found res
    assume IH: "\<And>rm pid stop pos found res. f rm pid stop pos found = Some res \<Longrightarrow>
        list_all (found_ok rm pid stop) found \<longrightarrow> list_all (found_ok rm pid stop) res"
      and eq: "(if pos + 0x70 \<le> stop
        then if \<not> rm_running rm pos then Some found
             else let read_len = min (saturating_u64_sub stop pos) 0x1000
                  in f rm pid stop (saturating_u64_add pos 0x1000)
                       (case read_remote_mem rm pid pos (ucast read_len) of
                          None \<Rightarrow> found
                        | Some page \<Rightarrow> native_page rm pid pos stop page 0 found)
        else Some found) = Some res"
    show "list_all (found_ok rm pid stop) found \<longrightarrow> list_all (found_ok rm pid stop) res"
      using eq IH native_page_ok
      by (auto simp: Let_def split: if_splits option.splits)
  qed
  with assms(2) show ?thesis by blast
qed

section \<open>Termination and divergence of the buffer scan\<close>

lemma no_wrap_add:
  "unat a + unat b < 2 ^ 64 \<Longrightarrow> unat (a + b) = unat a + unat b" for a b :: u64
  by (simp add: unat_word_ariths)

lemma native_scan_returns:
  assumes "unat stop + 0x1070 \<le> 2 ^ 64" and "unat pos + 0x70 < 2 ^ 64"
  shows "\<exists>res. native_scan rm pid stop pos found = Some res"
  using assms(2)
proof (induction "2 ^ 64 - unat pos" arbitrary: pos found rule: less_induct)
  case less
  show ?case
  proof (cases "pos + 0x70 \<le> stop \<and> rm_running rm pos")
    case True
    have "unat (pos + 0x70) = unat pos + 0x70"
      using no_wrap_add [of pos "0x70"] less.prems by simp
    with True assms(1) have le: "unat pos + 0x70 + 0x1070 \<le> 2 ^ 64"
      by (simp add: word_le_nat_alt)
    let ?next = "saturating_u64_add pos SCAN_STEP"
    have "unat ?next = unat pos + 0x1000"
      using le no_wrap_add [of pos "0x1000"] by (simp add: saturating_u64_add_def)
    then have "\<exists>res. native_scan rm pid stop ?next f = Some res" for f
      using le by (intro less.hyps) linarith+
    with True show ?thesis by (subst native_scan.simps) (simp add: Let_def)
  next
    case False
    then show ?thesis by (subst native_scan.simps) auto
  qed
qed

abbreviation (input) "U64_MAX \<equiv> 0xffffffffffffffff :: u64"

lemma top_wrap: "(18446744073709551727 :: u64) = 0x6F"
  by simp

lemma saturating_add_max: "saturating_u64_add U64_MAX SCAN_STEP = U64_MAX"
  by (simp add: saturating_u64_add_def)

text \<open>
  At the last address the loop test wraps round and the position stays where it is.
\<close>

lemma native_scan_stuck:
  assumes "0x6F \<le> stop" and "rm_running rm U64_MAX"
  shows "native_scan rm pid stop U64_MAX found = None"
proof (rule ccontr)
  assume "native_scan rm pid stop U64_MAX found \<noteq> None"
  then obtain res where res: "native_scan rm pid stop U64_MAX found = Some res" by blast
  have "\<not> (U64_MAX = U64_MAX \<and> 0x6F \<le> stop \<and> rm_running rm U64_MAX)"
  proof (rule native_scan.raw_induct [where P = "\<lambda>rm pid stop pos found res.
      \<not> (pos = U64_MAX \<and> 0x6F \<le> stop \<and> rm_running rm U64_MAX)", OF _ res])
    fix f rm pid stop pos found res
    assume IH: "\<And>rm pid stop pos found res. f rm pid stop pos found = Some res \<Longrightarrow>
        \<not> (pos = U64_MAX \<and> 0x6F \<le> stop \<and> rm_running rm U64_MAX)"
      and eq: "(if pos + 0x70 \<le> stop
        then if \<not> rm_running rm pos then Some found
             else let read_len = min (saturating_u64_sub stop pos) 0x1000
                  in f rm pid stop (saturating_u64_add pos 0x1000)
                       (case read_remote_mem rm pid pos (ucast read_len) of
                          None \<Rightarrow> found
                        | Some page \<Rightarrow> native_page rm pid pos stop page 0 found)
        else Some found) = Some res"
    show "\<not> (pos = U64_MAX \<and> 0x6F \<le> stop \<and> rm_running rm U64_MAX)"
    proof
      assume top: "pos = U64_MAX \<and> 0x6F \<le> stop \<and> rm_running rm U64_MAX"
      with top eq top_wrap have "f rm pid stop U64_MAX (case read_remote_mem rm pid pos
          (ucast (min (saturating_u64_sub stop pos) 0x1000)) of None \<Rightarrow> found
          | Some page \<Rightarrow> native_page rm pid pos stop page 0 found) = Some res"
        by (simp add: Let_def saturating_add_max split: if_splits)
      from IH [OF this] top show False by simp
    qed
  qed
  with assms show False by simp
qed

lemma native_scan_diverges:
  assumes range: "unat pos + 0x70 \<le> unat stop" and top: "2 ^ 64 \<le> unat pos + 0x1000"
    and running: "rm_running rm pos" "rm_running rm U64_MAX"
  shows "native_scan rm pid stop pos found = None"
proof -
  have "unat stop < 2 ^ 64" using unsigned_less [of stop, where 'a = nat] by simp
  then have "unat (pos + 0x70) = unat pos + 0x70"
    using no_wrap_add [of pos "0x70"] range by simp
  with range have "pos + 0x70 \<le> stop" by (simp add: word_le_nat_alt)
  moreover have "0x6F \<le> stop" using range top by (simp add: word_le_nat_alt)
  moreover have "saturating_u64_add pos SCAN_STEP = U64_MAX"
    using top by (simp add: saturating_u64_add_def)
  ultimately show ?thesis
    using running native_scan_stuck [of stop rm pid] by (subst native_scan.simps) (simp add: Let_def)
qed

section \<open>Completeness of the scan of a mapping\<close>

lemma hits_sorted: "sorted (hits page off)"
proof (induction page off rule: hits.induct)
  case (1 page off)
  show ?case
  proof (cases "find_subslice (drop off page) dex_magic")
    case None
    then show ?thesis by (subst hits.simps) simp
  next
    case (Some idx)
    have "off + idx \<le> i" if "i \<in> set (hits page (off + idx + 4))" for i
      using that by (simp add: hits_iff)
    with Some 1 show ?thesis by (subst hits.simps) auto
  qed
qed

lemma in_takeWhile_sorted:
  "sorted xs \<Longrightarrow> i \<in> set xs \<Longrightarrow> (\<And>j. j \<le> i \<Longrightarrow> P j) \<Longrightarrow> i \<in> set (takeWhile P xs)"
  by (induction xs) auto

text \<open>A valid DEX image of \<open>sz\<close> bytes in memory.\<close>

definition dex_at :: "(u64 \<Rightarrow> u8 option) \<Rightarrow> u64 \<Rightarrow> u32 \<Rightarrow> u8 list \<Rightarrow> bool" where
  "dex_at m b sz D \<longleftrightarrow>
     read_bytes m b (unat sz) = Some D \<and> validate_dex_header (take 112 D) = Some sz"

lemma dex_at_facts:
  assumes "dex_at m b sz D"
  shows "read_bytes m b 112 = Some (take 112 D)" "112 \<le> unat sz" "length D = unat sz"
    "dex_accepted D" "read_bytes m b 4 = Some dex_magic"
proof -
  from assms have D: "read_bytes m b (unat sz) = Some D"
    and v: "validate_dex_header (take 112 D) = Some sz" by (simp_all add: dex_at_def)
  show len: "length D = unat sz" by (rule read_bytes_length [OF D])
  have "file_size_ok sz" and magic: "take 4 (take 112 D) = dex_magic"
    using validated_header_magic [OF v] by simp_all
  then show sz: "112 \<le> unat sz" by (simp add: file_size_ok_def word_le_nat_alt)
  show "read_bytes m b 112 = Some (take 112 D)"
    using read_bytes_take_drop [OF D, of 0 112] sz by simp
  have four: "take 4 D = dex_magic" using magic by (simp add: min_def)
  then show "read_bytes m b 4 = Some dex_magic"
    using read_bytes_take_drop [OF D, of 0 4] sz by simp
  have "(le_word dex_magic :: u32) = DEX_FILE_MAGIC"
    by (simp add: dex_magic_def DEX_FILE_MAGIC_def)
  with four sz len show "dex_accepted D" by (simp add: dex_accepted_iff)
qed

lemma region_candidate_dex:
  assumes "reads_memory rm pid m" and dex: "dex_at m b sz D" and "b + ucast sz \<le> readable_end"
  shows "region_candidate rm pid readable_end b = [(b, sz, D)]"
proof -
  note d = dex_at_facts [OF dex]
  have v: "validate_dex_header (take 112 D) = Some sz" using dex by (simp add: dex_at_def)
  have h: "read_remote_range rm pid b 0x70 = (take 112 D, 112)"
    using read_remote_range_readable [OF assms(1), of b "0x70"] d(1) by simp
  have "read_remote_range rm pid b sz = (D, unat sz)"
    using read_remote_range_readable [OF assms(1), of b sz] dex by (simp add: dex_at_def)
  with h v assms(3) d(4) show ?thesis by (simp add: region_candidate_def)
qed

text \<open>The contribution of one page.\<close>

definition region_found :: "remote \<Rightarrow> u32 \<Rightarrow> u64 \<Rightarrow> u64 \<Rightarrow> u64 \<Rightarrow> found_dex list" where
  "region_found rm pid pos scan_end readable_end =
     (case read_remote_mem rm pid pos (ucast (min SCAN_STEP (scan_end - pos))) of
        None \<Rightarrow> [] | Some page \<Rightarrow> region_page rm pid pos readable_end page 0 [])"

lemma region_page_found:
  "region_page rm pid pos readable_end page 0 found =
     found @ region_page rm pid pos readable_end page 0 []"
  by (simp add: region_page_hits)

lemma scan_region_step:
  "pos < scan_end \<Longrightarrow> rm_running rm pos \<Longrightarrow>
     scan_region_for_dex rm pid pos scan_end readable_end found =
       scan_region_for_dex rm pid (saturating_u64_add pos SCAN_STEP) scan_end readable_end
         (found @ region_found rm pid pos scan_end readable_end)"
  using region_page_found [of rm pid pos readable_end _ found]
  by (subst scan_region_for_dex.simps) (simp add: region_found_def Let_def split: option.split)

lemma scan_region_mono:
  "set found \<subseteq> set (scan_region_for_dex rm pid pos scan_end readable_end found)"
proof (induction rm pid pos scan_end readable_end found rule: scan_region_for_dex.induct)
  case (1 rm pid pos scan_end readable_end found)
  show ?case
  proof (cases "pos < scan_end \<and> rm_running rm pos")
    case True
    have "set (found @ region_found rm pid pos scan_end readable_end) \<subseteq>
        set (scan_region_for_dex rm pid (saturating_u64_add pos SCAN_STEP) scan_end readable_end
          (found @ region_found rm pid pos scan_end readable_end))"
      using "1.IH" True region_page_found [of rm pid pos readable_end _ found]
      by (auto simp: region_found_def split: option.splits)
    with True show ?thesis by (auto simp: scan_region_step)
  next
    case False
    then show ?thesis by (subst scan_region_for_dex.simps) auto
  qed
qed

lemma scan_region_visits:
  assumes "\<And>p. rm_running rm p" and "x \<in> set (region_found rm pid (start + of_nat (0x1000 * k)) scan_end readable_end)"
    and "unat start + 0x1000 * k < unat scan_end"
  shows "x \<in> set (scan_region_for_dex rm pid start scan_end readable_end found)"
  using assms(2,3)
proof (induction k arbitrary: start found)
  case 0
  then have "start < scan_end" by (simp add: word_less_nat_alt)
  with 0 scan_region_mono [of "found @ region_found rm pid start scan_end readable_end" rm pid
      "saturating_u64_add start SCAN_STEP" scan_end readable_end]
  show ?case by (auto simp: scan_region_step assms(1))
next
  case (Suc k)
  let ?next = "saturating_u64_add start SCAN_STEP"
  have end64: "unat scan_end < 2 ^ 64" using unsigned_less [of scan_end, where 'a = nat] by simp
  have start: "start < scan_end" using Suc.prems by (simp add: word_less_nat_alt)
  have n: "?next = start + 0x1000" "unat ?next = unat start + 0x1000"
    using Suc.prems end64 no_wrap_add [of start "0x1000"] by (simp_all add: saturating_u64_add_def)
  have "?next + of_nat (0x1000 * k) = start + of_nat (0x1000 * Suc k)"
    unfolding n(1) by (simp add: algebra_simps)
  then have x: "x \<in> set (region_found rm pid (?next + of_nat (0x1000 * k)) scan_end readable_end)"
    using Suc.prems(1) by (simp only:)
  have k: "unat ?next + 0x1000 * k < unat scan_end" using Suc.prems(2) n(2) by simp
  have "x \<in> set (scan_region_for_dex rm pid ?next scan_end readable_end
      (found @ region_found rm pid start scan_end readable_end))"
    by (rule Suc.IH [OF x k])
  with start show ?case by (simp add: scan_region_step assms(1))
qed

text \<open>The page that holds the magic reports the DEX.\<close>

lemma region_found_dex:
  assumes mem: "reads_memory rm pid m" and dex: "dex_at m b sz D"
    and fits: "unat b + unat sz \<le> unat readable_end"
    and page: "read_bytes m pos (unat (min SCAN_STEP (scan_end - pos))) = Some page"
    and b: "unat b = unat pos + i" and i: "i + 4 \<le> length page"
  shows "(b, sz, D) \<in> set (region_found rm pid pos scan_end readable_end)"
proof -
  note d = dex_at_facts [OF dex]
  have re64: "unat readable_end < 2 ^ 64" using unsigned_less [of readable_end, where 'a = nat] by simp
  have bpos: "b = pos + of_nat i"
    using arg_cong [OF b, of "of_nat :: nat \<Rightarrow> u64"] by simp
  have "unat (ucast sz :: u64) = unat sz"
    using unsigned_less [of sz, where 'a = nat]
    by (simp add: unsigned_ucast_eq take_bit_nat_eq_self)
  then have "b + ucast sz \<le> readable_end"
    using fits re64 no_wrap_add [of b "ucast sz"] by (simp add: word_le_nat_alt)
  note cand = region_candidate_dex [OF mem dex this]
  have "unat (min SCAN_STEP (scan_end - pos)) \<le> 0x1000"
    by (simp add: word_le_nat_alt min_def)
  then have chunk: "unat (ucast (min SCAN_STEP (scan_end - pos)) :: u32) =
      unat (min SCAN_STEP (scan_end - pos))"
    by (simp add: unsigned_ucast_eq take_bit_nat_eq_self)
  have read: "read_remote_mem rm pid pos (ucast (min SCAN_STEP (scan_end - pos))) = Some page"
    using reads_memory_mem [OF mem, of pos] page by (simp add: chunk)
  have "read_bytes m (pos + of_nat i) 4 = Some (take 4 (drop i page))"
    using read_bytes_take_drop [OF page] i read_bytes_length [OF page] by simp
  with d(5) have hit: "i \<in> set (hits page 0)" by (simp add: hits_iff bpos)
  have before: "\<not> readable_end < pos + of_nat j + 0x70" if "j \<le> i" for j
  proof -
    have small: "unat pos + j + 0x70 < 2 ^ 64"
      using that b fits d(2) re64 by linarith
    then have "unat (of_nat j :: u64) = j" by (simp add: unat_of_nat take_bit_nat_eq_self)
    then have "unat (pos + of_nat j + 0x70) = unat pos + j + 0x70"
      using small no_wrap_add [of pos "of_nat j"] no_wrap_add [of "pos + of_nat j" "0x70"] by simp
    then show ?thesis
      using that b fits d(2) by (simp add: word_less_nat_alt)
  qed
  have "i \<in> set (takeWhile (\<lambda>i. \<not> readable_end < pos + of_nat i + 0x70) (hits page 0))"
    by (rule in_takeWhile_sorted [OF hits_sorted hit before])
  then show ?thesis
    using cand bpos by (auto simp: region_found_def read region_page_hits intro!: bexI [of _ i])
qed

lemma page_of_region:
  assumes region: "read_bytes m start (unat scan_end - unat start) = Some bytes"
    and k: "unat start + 0x1000 * k < unat scan_end"
  defines "pos \<equiv> start + of_nat (0x1000 * k)"
  shows "unat pos = unat start + 0x1000 * k"
    and "unat (min SCAN_STEP (scan_end - pos)) = min 0x1000 (unat scan_end - unat pos)"
    and "\<exists>page. read_bytes m pos (unat (min SCAN_STEP (scan_end - pos))) = Some page"
proof -
  have end64: "unat scan_end < 2 ^ 64" using unsigned_less [of scan_end, where 'a = nat] by simp
  then have "unat (of_nat (0x1000 * k) :: u64) = 0x1000 * k"
    using k by (simp add: unat_of_nat take_bit_nat_eq_self del: of_nat_mult)
  then show pos: "unat pos = unat start + 0x1000 * k"
    unfolding pos_def using k end64 no_wrap_add [of start "of_nat (0x1000 * k)"]
    by (simp del: of_nat_mult)
  then have "pos \<le> scan_end" using k by (simp add: word_le_nat_alt)
  then show m: "unat (min SCAN_STEP (scan_end - pos)) = min 0x1000 (unat scan_end - unat pos)"
    by (simp add: min_def word_le_nat_alt unat_sub)
  have "read_bytes m (start + of_nat (0x1000 * k)) (unat (min SCAN_STEP (scan_end - pos))) =
      Some (take (unat (min SCAN_STEP (scan_end - pos))) (drop (0x1000 * k) bytes))"
    by (rule read_bytes_take_drop [OF region]) (use m pos k in simp)
  then show "\<exists>page. read_bytes m pos (unat (min SCAN_STEP (scan_end - pos))) = Some page"
    unfolding pos_def by blast
qed

lemma scan_region_complete:
  assumes mem: "reads_memory rm pid m" and run: "\<And>p. rm_running rm p"
    and region: "read_bytes m start (unat scan_end - unat start) = Some bytes"
    and dex: "dex_at m b sz D" and lo: "unat start \<le> unat b" and hi: "unat b + 4 \<le> unat scan_end"
    and fits: "unat b + unat sz \<le> unat readable_end"
    and one_page: "(unat b - unat start) mod 0x1000 \<le> 0xFFC"
  shows "(b, sz, D) \<in> set (scan_region_for_dex rm pid start scan_end readable_end found)"
proof -
  let ?d = "unat b - unat start"
  let ?k = "?d div 0x1000" and ?i = "?d mod 0x1000"
  let ?pos = "start + of_nat (0x1000 * ?k) :: u64"
  have d: "?d = 0x1000 * ?k + ?i" by simp
  have k: "unat start + 0x1000 * ?k < unat scan_end"
    using lo hi d by linarith
  note p = page_of_region [OF region k]
  from p(3) obtain page where
    page: "read_bytes m ?pos (unat (min SCAN_STEP (scan_end - ?pos))) = Some page" by blast
  have b: "unat b = unat ?pos + ?i" using p(1) d lo by linarith
  have "?i = unat b - unat ?pos" and "unat ?pos \<le> unat b"
    using b by (metis add_diff_cancel_left', metis le_add1)
  then have "?i + 4 \<le> unat scan_end - unat ?pos" using hi by linarith
  then have "?i + 4 \<le> min 0x1000 (unat scan_end - unat ?pos)"
    using one_page by simp
  then have i: "?i + 4 \<le> length page"
    using read_bytes_length [OF page] p(2) by simp
  show ?thesis
    by (rule scan_region_visits [OF run region_found_dex [OF mem dex fits page b i] k])
qed

section \<open>What the scan of a mapping reports\<close>

lemma scan_region_origin:
  "x \<in> set (scan_region_for_dex rm pid start scan_end readable_end found) \<Longrightarrow>
     x \<in> set found \<or> (\<exists>k. unat start + 0x1000 * k < unat scan_end \<and>
       x \<in> set (region_found rm pid (start + of_nat (0x1000 * k)) scan_end readable_end))"
proof (induction rm pid start scan_end readable_end found rule: scan_region_for_dex.induct)
  case (1 rm pid pos scan_end readable_end found)
  show ?case
  proof (cases "pos < scan_end \<and> rm_running rm pos")
    case True
    let ?next = "saturating_u64_add pos SCAN_STEP"
    let ?found = "found @ region_found rm pid pos scan_end readable_end"
    have "x \<in> set (scan_region_for_dex rm pid ?next scan_end readable_end ?found)"
      using "1.prems" True by (simp add: scan_region_step)
    then have "x \<in> set ?found \<or> (\<exists>k. unat ?next + 0x1000 * k < unat scan_end \<and>
        x \<in> set (region_found rm pid (?next + of_nat (0x1000 * k)) scan_end readable_end))"
      using "1.IH" True region_page_found [of rm pid pos readable_end _ found]
      by (auto simp: region_found_def split: option.splits)
    then show ?thesis
    proof (elim disjE exE conjE)
      assume "x \<in> set ?found"
      then show ?thesis
        using True by (auto simp: word_less_nat_alt intro!: exI [of _ 0])
    next
      fix k
      assume k: "unat ?next + 0x1000 * k < unat scan_end"
        and x: "x \<in> set (region_found rm pid (?next + of_nat (0x1000 * k)) scan_end readable_end)"
      have "?next \<noteq> 0xffffffffffffffff"
        using k unsigned_less [of scan_end, where 'a = nat] by auto
      then have n: "?next = pos + 0x1000" "unat ?next = unat pos + 0x1000"
        using no_wrap_add [of pos "0x1000"] by (auto simp: saturating_u64_add_def split: if_splits)
      have "?next + of_nat (0x1000 * k) = pos + of_nat (0x1000 * Suc k)"
        unfolding n(1) by (simp add: algebra_simps)
      then have "x \<in> set (region_found rm pid (pos + of_nat (0x1000 * Suc k)) scan_end readable_end)"
        using x by (simp only:)
      moreover have "unat pos + 0x1000 * Suc k < unat scan_end" using k n(2) by simp
      ultimately show ?thesis by blast
    qed
  next
    case False
    with "1.prems" show ?thesis by (subst (asm) scan_region_for_dex.simps) (auto split: if_splits)
  qed
qed

text \<open>A DEX whose magic crosses a page of the scan is not reported.\<close>

lemma region_candidate_origin: "set (region_candidate rm pid readable_end b) \<subseteq> {x. fst x = b}"
proof -
  obtain header got where h: "read_remote_range rm pid b 0x70 = (header, got)" by fastforce
  show ?thesis
  proof (cases "got = 0x70 \<and> validate_dex_header header \<noteq> None")
    case False
    then have "region_candidate rm pid readable_end b = []"
      unfolding region_candidate_def h prod.case by auto
    then show ?thesis by simp
  next
    case True
    then obtain sz where sz: "validate_dex_header header = Some sz" and got: "got = 0x70" by auto
    obtain bytes n where r: "read_remote_range rm pid b sz = (bytes, n)" by fastforce
    have "region_candidate rm pid readable_end b =
        (if b + ucast sz \<le> readable_end \<and> n = unat sz \<and> dex_accepted bytes then [(b, sz, bytes)] else [])"
      unfolding region_candidate_def h prod.case got sz option.case r by simp
    then show ?thesis by auto
  qed
qed

lemma region_found_offset:
  assumes "(b, sz, D) \<in> set (region_found rm pid pos scan_end readable_end)"
  shows "\<exists>i. b = pos + of_nat i \<and> i + 4 \<le> unat (min SCAN_STEP (scan_end - pos))"
proof -
  let ?n = "min SCAN_STEP (scan_end - pos)"
  from assms obtain page where read: "read_remote_mem rm pid pos (ucast ?n) = Some page"
    by (cases "read_remote_mem rm pid pos (ucast ?n)") (simp_all add: region_found_def)
  with assms obtain i where "i \<in> set (takeWhile (\<lambda>i. \<not> readable_end < pos + of_nat i + 0x70) (hits page 0))"
    and c: "(b, sz, D) \<in> set (region_candidate rm pid readable_end (pos + of_nat i))"
    by (auto simp: region_found_def region_page_hits)
  then have i: "i \<in> set (hits page 0)" by (auto dest: set_takeWhileD)
  have "b = pos + of_nat i"
    using region_candidate_origin [of rm pid readable_end "pos + of_nat i"] c by auto
  moreover have "i + 4 \<le> length page"
  proof (rule ccontr)
    assume "\<not> i + 4 \<le> length page"
    then have "length (take 4 (drop i page)) < 4" by simp
    moreover have "take 4 (drop i page) = dex_magic" using i by (simp add: hits_iff)
    ultimately show False by simp
  qed
  moreover have "length page \<le> unat (ucast ?n :: u32)" by (rule read_remote_mem_length [OF read])
  moreover have "unat ?n \<le> 0x1000" by (simp add: word_le_nat_alt min_def)
  then have "unat (ucast ?n :: u32) = unat ?n"
    by (simp add: unsigned_ucast_eq take_bit_nat_eq_self)
  ultimately show ?thesis by auto
qed

lemma scan_region_one_page:
  assumes "(b, sz, D) \<in> set (scan_region_for_dex rm pid start scan_end readable_end [])"
  shows "(unat b - unat start) mod 0x1000 \<le> 0xFFC"
proof -
  from scan_region_origin [OF assms] obtain k where k: "unat start + 0x1000 * k < unat scan_end"
    and f: "(b, sz, D) \<in> set (region_found rm pid (start + of_nat (0x1000 * k)) scan_end readable_end)"
    by auto
  let ?pos = "start + of_nat (0x1000 * k) :: u64"
  from region_found_offset [OF f] obtain i where b: "b = ?pos + of_nat i"
    and i: "i + 4 \<le> unat (min SCAN_STEP (scan_end - ?pos))" by blast
  have end64: "unat scan_end < 2 ^ 64" using unsigned_less [of scan_end, where 'a = nat] by simp
  then have "unat (of_nat (0x1000 * k) :: u64) = 0x1000 * k"
    using k by (simp add: unat_of_nat take_bit_nat_eq_self del: of_nat_mult)
  then have pos: "unat ?pos = unat start + 0x1000 * k"
    using k end64 no_wrap_add [of start "of_nat (0x1000 * k)"] by (simp del: of_nat_mult)
  then have "?pos \<le> scan_end" using k by (simp add: word_le_nat_alt)
  then have m: "i + 4 \<le> 0x1000" "i + 4 \<le> unat scan_end - unat ?pos"
    using i by (auto simp: min_def word_le_nat_alt unat_sub split: if_splits)
  then have "unat (of_nat i :: u64) = i" by (simp add: unat_of_nat take_bit_nat_eq_self)
  then have "unat b = unat ?pos + i"
    using b m end64 pos no_wrap_add [of ?pos "of_nat i"] by simp
  then have "unat b - unat start = 0x1000 * k + i" using pos by simp
  then show ?thesis using m by simp
qed

end
