(* ===== verification/Native_Elf.thy ===== *)
theory Native_Elf
  imports Remote_Scan Bpf_Types
begin

text \<open>
  The search for a native library around a reported buffer (\<^verbatim>\<open>src/dump.rs\<close>):
  \<^verbatim>\<open>validate_elf64_header\<close>, \<^verbatim>\<open>find_native_elf_base\<close>, \<^verbatim>\<open>dump_native_elf_from_event\<close> and
  \<^verbatim>\<open>may_contain_executable_mapping\<close>. Errors of the source are \<open>Inl\<close> with the message.
\<close>

definition ELF64_HEADER_SIZE :: u32 where "ELF64_HEADER_SIZE = 0x40"
definition ELF64_PROGRAM_HEADER_SIZE :: u16 where "ELF64_PROGRAM_HEADER_SIZE = 0x38"
definition ELF_ET_DYN :: u16 where "ELF_ET_DYN = 3"
definition ELF_EM_AARCH64 :: u16 where "ELF_EM_AARCH64 = 183"
definition ELF_PT_LOAD :: u32 where "ELF_PT_LOAD = 1"
definition MAX_NATIVE_ELF_SIZE :: u64 where "MAX_NATIVE_ELF_SIZE = 256 * 1024 * 1024"
definition NATIVE_ELF_BACKSCAN_LIMIT :: u64 where "NATIVE_ELF_BACKSCAN_LIMIT = 1024 * 1024"
definition NATIVE_ELF_SCAN_LIMIT :: u64 where "NATIVE_ELF_SCAN_LIMIT = 4 * 1024 * 1024"

definition elf_magic :: "u8 list" where "elf_magic = [0x7F, 0x45, 0x4C, 0x46]"

definition opt_le16 :: "u8 list \<Rightarrow> nat \<Rightarrow> u16 option" where
  "opt_le16 xs off = map_option le_word (slice_get xs off (off + 2))"

definition unwrap_or :: "'a \<Rightarrow> 'a option \<Rightarrow> 'a" where
  "unwrap_or d x = (case x of Some y \<Rightarrow> y | None \<Rightarrow> d)"

definition align_up :: "u64 \<Rightarrow> u64 \<Rightarrow> u64" where
  "align_up v align =
     (if align = 0 then v
      else case checked_u64_add v (align - 1) of
             Some s \<Rightarrow> s AND NOT (align - 1) | None \<Rightarrow> v)"

definition may_contain_executable_mapping :: "native_buffer_event_t \<Rightarrow> bool" where
  "may_contain_executable_mapping evt \<longleftrightarrow>
     (nbe_source evt = NATIVE_SOURCE_MMAP \<or> nbe_source evt = NATIVE_SOURCE_MPROTECT) \<and>
     ucast ELF64_HEADER_SIZE \<le> nbe_size evt \<and> nbe_prot evt AND 4 \<noteq> 0"

text \<open>
  The loop over the program headers: \<open>n\<close> entries are left, the next is \<open>idx\<close>. \<open>None\<close> is the
  return for an entry that is not there.
\<close>

fun program_headers :: "u8 list \<Rightarrow> nat \<Rightarrow> nat \<Rightarrow> nat \<Rightarrow> u64 \<Rightarrow> nat \<Rightarrow> (u64 \<times> nat) option" where
  "program_headers phdr phentsize idx 0 max_end load_count = Some (max_end, load_count)"
| "program_headers phdr phentsize idx (Suc n) max_end load_count =
     (let off = idx * phentsize
      in case slice_get phdr off (off + phentsize) of
           None \<Rightarrow> None
         | Some entry \<Rightarrow>
             if le32 entry 0 \<noteq> Some ELF_PT_LOAD
             then program_headers phdr phentsize (idx + 1) n max_end load_count
             else
               (let p_offset = unwrap_or 0 (le64 entry 8); p_filesz = unwrap_or 0 (le64 entry 0x20)
                in program_headers phdr phentsize (idx + 1) n
                     (if p_filesz = 0 then max_end
                      else case checked_u64_add p_offset p_filesz of
                             Some seg_end \<Rightarrow> max max_end seg_end | None \<Rightarrow> max_end)
                     (load_count + 1)))"

definition validate_elf64_header :: "remote \<Rightarrow> u32 \<Rightarrow> u64 \<Rightarrow> u8 list \<Rightarrow> string + u64 option" where
  "validate_elf64_header rm pid base header =
     (if length header < 0x40 \<or> \<not> starts_with header elf_magic then Inr None
      else if header ! 4 \<noteq> 2 \<or> header ! 5 \<noteq> 1 then Inr None
      else if opt_le16 header 0x10 \<noteq> Some ELF_ET_DYN \<or> opt_le16 header 0x12 \<noteq> Some ELF_EM_AARCH64
      then Inr None
      else
        (let phoff = unwrap_or 0 (le64 header 0x20);
             phentsize = unwrap_or 0 (opt_le16 header 0x36);
             phnum = unwrap_or 0 (opt_le16 header 0x38)
         in if phoff = 0 \<or> phentsize < ELF64_PROGRAM_HEADER_SIZE \<or> phnum = 0 \<or> 128 < phnum
            then Inr None
            else
              (let ph_size = ucast phentsize * ucast phnum :: u64
               in if (case checked_u64_add phoff ph_size of
                        None \<Rightarrow> True | Some v \<Rightarrow> 1024 * 1024 < v) then Inr None
                  else case read_remote_mem rm pid (base + phoff) (ucast ph_size) of
                    None \<Rightarrow> Inl ''read native ELF program headers''
                  | Some phdr \<Rightarrow>
                      (case program_headers phdr (unat phentsize) 0 (unat phnum) 0 0 of
                         None \<Rightarrow> Inr None
                       | Some (max_end, load_count) \<Rightarrow>
                           if load_count = 0 \<or> max_end < ucast ELF64_HEADER_SIZE then Inr None
                           else
                             (let sz = align_up max_end 0x1000
                              in if MAX_NATIVE_ELF_SIZE < sz then Inr None else Inr (Some sz))))))"

function elf_page :: "remote \<Rightarrow> u32 \<Rightarrow> u64 \<Rightarrow> u64 \<Rightarrow> u8 list \<Rightarrow> nat \<Rightarrow> string + u64 option" where
  "elf_page rm pid pos stop page off =
     (case find_subslice (drop off page) elf_magic of
        None \<Rightarrow> Inr None
      | Some idx \<Rightarrow>
          (let base = pos + of_nat (off + idx); off' = off + idx + 4;
               more = (if length page \<le> off' then Inr None else elf_page rm pid pos stop page off')
           in if base + ucast ELF64_HEADER_SIZE \<le> stop then
                (case slice_get page (off + idx) (off + idx + 0x40) of
                   None \<Rightarrow> more
                 | Some header \<Rightarrow>
                     (case validate_elf64_header rm pid base header of
                        Inl err \<Rightarrow> Inl err
                      | Inr (Some _) \<Rightarrow> Inr (Some base)
                      | Inr None \<Rightarrow> more))
              else more))"
  by pat_completeness auto
termination by (relation "measure (\<lambda>(_, _, _, _, page, off). length page - off)") auto

declare elf_page.simps [simp del]

partial_function (option) elf_scan ::
  "remote \<Rightarrow> u32 \<Rightarrow> u64 \<Rightarrow> u64 \<Rightarrow> (string + u64 option) option" where
  "elf_scan rm pid stop pos =
     (if pos + ucast ELF64_HEADER_SIZE \<le> stop then
        (if \<not> rm_running rm pos then Some (Inr None)
         else let read_len = min (saturating_u64_sub stop pos) NATIVE_ELF_SCAN_LIMIT
              in case read_remote_mem rm pid pos (ucast read_len) of
                   None \<Rightarrow> elf_scan rm pid stop (saturating_u64_add pos SCAN_STEP)
                 | Some page \<Rightarrow>
                     (case elf_page rm pid pos stop page 0 of
                        Inl err \<Rightarrow> Some (Inl err)
                      | Inr (Some base) \<Rightarrow> Some (Inr (Some base))
                      | Inr None \<Rightarrow> elf_scan rm pid stop (saturating_u64_add pos SCAN_STEP)))
      else Some (Inr None))"

definition find_native_elf_base :: "remote \<Rightarrow> u32 \<Rightarrow> u64 \<Rightarrow> u64 \<Rightarrow> (string + u64 option) option" where
  "find_native_elf_base rm pid start stop = elf_scan rm pid stop (start AND NOT 0xFFF)"

definition dump_native_elf_from_event ::
  "remote \<Rightarrow> u32 \<Rightarrow> u64 \<Rightarrow> u64 \<Rightarrow> (string + (u64 \<times> u64 \<times> u8 list) option) option" where
  "dump_native_elf_from_event rm pid addr sz =
     (if addr = 0 \<or> sz < ucast ELF64_HEADER_SIZE then Some (Inr None)
      else case checked_u64_add addr (min sz NATIVE_ELF_SCAN_LIMIT) of
        None \<Rightarrow> Some (Inl ''native ELF event address overflow'')
      | Some stop \<Rightarrow>
          map_option (\<lambda>r. case r of
              Inl err \<Rightarrow> Inl err
            | Inr None \<Rightarrow> Inr None
            | Inr (Some base) \<Rightarrow>
                (case read_remote_mem rm pid base ELF64_HEADER_SIZE of
                   None \<Rightarrow> Inl ''read native ELF header''
                 | Some header \<Rightarrow>
                     (case validate_elf64_header rm pid base header of
                        Inl err \<Rightarrow> Inl err
                      | Inr None \<Rightarrow> Inr None
                      | Inr (Some elf_size) \<Rightarrow>
                          if MAX_NATIVE_ELF_SIZE < elf_size then Inr None
                          else (case read_remote_mem rm pid base (ucast elf_size) of
                                  None \<Rightarrow> Inl ''read native ELF''
                                | Some bytes \<Rightarrow> Inr (Some (base, elf_size, bytes))))))
            (find_native_elf_base rm pid (saturating_u64_sub addr NATIVE_ELF_BACKSCAN_LIMIT) stop))"

text \<open>A validated library is at most 256 MB long and a multiple of the page size.\<close>

lemma validated_elf_size:
  "validate_elf64_header rm pid base header = Inr (Some sz) \<Longrightarrow> sz \<le> MAX_NATIVE_ELF_SIZE"
  by (auto simp: validate_elf64_header_def Let_def not_less split: if_splits option.splits prod.splits)

end
