(* ===== verification/Mutf8.thy ===== *)
theory Mutf8
  imports Rust_Std
begin

text \<open>
  \<^verbatim>\<open>decode_mutf8\<close> of \<^verbatim>\<open>src/dex.rs\<close>: Modified UTF-8 as DEX files use it, decoded to a Rust
  \<^verbatim>\<open>String\<close>. The loop position \<^verbatim>\<open>i\<close> is the suffix \<open>bytes[i..]\<close> that is still to be decoded.
  \<open>encode_mutf8\<close> is the encoding the file format prescribes; it is not code of the program,
  only the reference against which the decoder is verified.
\<close>

section \<open>The decoder\<close>

text \<open>The three continuation patterns, with the arithmetic of the code.\<close>

definition two_byte :: "u8 \<Rightarrow> u8 \<Rightarrow> u32" where
  "two_byte b0 b1 = push_bit 6 (ucast (b0 AND 0x1F)) OR ucast (b1 AND 0x3F)"

definition three_byte :: "u8 \<Rightarrow> u8 \<Rightarrow> u8 \<Rightarrow> u32" where
  "three_byte b0 b1 b2 =
     push_bit 12 (ucast (b0 AND 0x0F)) OR push_bit 6 (ucast (b1 AND 0x3F)) OR ucast (b2 AND 0x3F)"

definition continuation :: "u8 \<Rightarrow> bool" where
  "continuation b \<longleftrightarrow> b AND 0xC0 = 0x80"

text \<open>
  The surrogate branch: \<open>tail\<close> is what follows the three bytes of \<open>cu1\<close>. The result is the
  code point when the six bytes are a surrogate pair.
\<close>

definition surrogate_pair :: "u32 \<Rightarrow> u8 list \<Rightarrow> u32 option" where
  "surrogate_pair cu1 tail =
     (if 0xD800 \<le> cu1 \<and> cu1 \<le> 0xDBFF \<and> 3 \<le> length tail \<and> tail ! 0 AND 0xF0 = 0xE0 then
        (if continuation (tail ! 1) \<and> continuation (tail ! 2) then
           (let cu2 = three_byte (tail ! 0) (tail ! 1) (tail ! 2)
            in if 0xDC00 \<le> cu2 \<and> cu2 \<le> 0xDFFF
               then char_from_u32 (0x10000 + (push_bit 10 (cu1 - 0xD800) OR (cu2 - 0xDC00)))
               else None)
         else None)
      else None)"

definition or_replacement :: "u32 option \<Rightarrow> u32" where
  "or_replacement c = (case c of Some x \<Rightarrow> x | None \<Rightarrow> REPLACEMENT)"

fun decode_mutf8 :: "u8 list \<Rightarrow> rust_string" where
  "decode_mutf8 [] = []"
| "decode_mutf8 (b0 # bs) =
     (if b0 < 0x80 then ucast b0 # decode_mutf8 bs
      else if b0 AND 0xE0 = 0xC0 then
        (if length bs < 1 then [REPLACEMENT]
         else if \<not> continuation (bs ! 0) then REPLACEMENT # decode_mutf8 bs
         else or_replacement (char_from_u32 (two_byte b0 (bs ! 0))) # decode_mutf8 (drop 1 bs))
      else if b0 AND 0xF0 = 0xE0 then
        (if length bs < 2 then [REPLACEMENT]
         else if \<not> continuation (bs ! 0) \<or> \<not> continuation (bs ! 1)
           then REPLACEMENT # decode_mutf8 bs
         else (let cu1 = three_byte b0 (bs ! 0) (bs ! 1)
               in case surrogate_pair cu1 (drop 2 bs) of
                    Some c \<Rightarrow> c # decode_mutf8 (drop 5 bs)
                  | None \<Rightarrow> or_replacement (char_from_u32 cu1) # decode_mutf8 (drop 2 bs)))
      else REPLACEMENT # decode_mutf8 bs)"

section \<open>The encoding of the file format\<close>

definition three_byte_seq :: "u32 \<Rightarrow> u8 list" where
  "three_byte_seq c =
     [0xE0 OR ucast (drop_bit 12 c AND 0x0F), 0x80 OR ucast (drop_bit 6 c AND 0x3F),
      0x80 OR ucast (c AND 0x3F)]"

definition mutf8_char :: "u32 \<Rightarrow> u8 list" where
  "mutf8_char c =
     (if c \<noteq> 0 \<and> c < 0x80 then [ucast c]
      else if c < 0x800 then [0xC0 OR ucast (drop_bit 6 c AND 0x1F), 0x80 OR ucast (c AND 0x3F)]
      else if c < 0x10000 then three_byte_seq c
      else three_byte_seq (0xD800 + drop_bit 10 (c - 0x10000)) @
           three_byte_seq (0xDC00 + ((c - 0x10000) AND 0x3FF)))"

definition encode_mutf8 :: "rust_string \<Rightarrow> u8 list" where
  "encode_mutf8 s = concat (map mutf8_char s)"

section \<open>Bits of the encoded bytes\<close>

lemma mask_numerals:
  "(0x3F :: 'a::len word) = mask 6" "(0x1F :: 'a::len word) = mask 5"
  "(0x0F :: 'a::len word) = mask 4" "(0x3FF :: 'a::len word) = mask 10"
  by (simp_all add: mask_eq_exp_minus_1)

lemma ucast_and_mask:
  "(ucast (c AND 0x3F) :: u8) = ucast c AND 0x3F" "(ucast (c AND 0x1F) :: u8) = ucast c AND 0x1F"
  "(ucast (c AND 0x0F) :: u8) = ucast c AND 0x0F"
  for c :: u32
  by (auto simp: bit_eq_iff bit_simps mask_numerals)

lemma ucast_mask_back:
  "(ucast (ucast c AND 0x3F :: u8) :: u32) = c AND 0x3F"
  "(ucast (ucast c AND 0x1F :: u8) :: u32) = c AND 0x1F"
  "(ucast (ucast c AND 0x0F :: u8) :: u32) = c AND 0x0F"
  for c :: u32
  by (auto simp: bit_eq_iff bit_simps mask_numerals)

lemma lead_bytes:
  "(0xE0 OR (y AND 0x0F)) AND 0xF0 = 0xE0" "(0xE0 OR (y AND 0x0F)) AND 0xE0 = 0xE0"
  "(0xE0 OR (y AND 0x0F)) AND 0x0F = y AND 0x0F"
  "(0xC0 OR (y AND 0x1F)) AND 0xE0 = 0xC0" "(0xC0 OR (y AND 0x1F)) AND 0x1F = y AND 0x1F"
  "(0x80 OR (y AND 0x3F)) AND 0xC0 = 0x80" "(0x80 OR (y AND 0x3F)) AND 0x3F = y AND 0x3F"
  for y :: u8
  by (simp_all add: bit.conj_disj_distrib2 and.assoc)

lemma lead_bytes_high: "\<not> (0xE0 OR y) < 0x80" "\<not> (0xC0 OR y) < 0x80" for y :: u8
proof -
  have "0xE0 \<le> 0xE0 OR y" and "0xC0 \<le> 0xC0 OR y" by (rule le_word_or2)+
  then show "\<not> (0xE0 OR y) < 0x80" and "\<not> (0xC0 OR y) < 0x80"
    by (auto simp: not_less elim: order_trans [rotated])
qed

lemma join_two: "push_bit 6 (drop_bit 6 c AND 0x1F) OR (c AND 0x3F) = take_bit 11 c" for c :: u32
  by (rule bit_word_eqI) (auto simp: bit_simps mask_numerals)

lemma join_three:
  "push_bit 12 (drop_bit 12 c AND 0x0F) OR push_bit 6 (drop_bit 6 c AND 0x3F) OR (c AND 0x3F) =
     take_bit 16 c" for c :: u32
proof (rule bit_word_eqI)
  fix n assume "n < LENGTH(32)"
  then show "bit (push_bit 12 (drop_bit 12 c AND 0x0F) OR push_bit 6 (drop_bit 6 c AND 0x3F) OR
      (c AND 0x3F)) n = bit (take_bit 16 c) n"
    by (cases "n < 12") (auto simp: bit_simps mask_numerals)
qed

lemma join_ten: "push_bit 10 (drop_bit 10 c) OR (c AND 0x3FF) = c" for c :: u32
  by (rule bit_word_eqI) (auto simp: bit_simps mask_numerals)

lemma take_bit_small: "c < 2 ^ k \<Longrightarrow> take_bit k c = c" for c :: u32
  by (simp add: less_mask_eq take_bit_eq_mask)

lemma three_byte_seq_read:
  assumes "c < 0x10000" and "three_byte_seq c = [b0, b1, b2]"
  shows "three_byte b0 b1 b2 = c" "b0 AND 0xF0 = 0xE0" "b0 AND 0xE0 = 0xE0" "\<not> b0 < 0x80"
    "continuation b1" "continuation b2"
  using assms take_bit_small [of c 16]
  by (auto simp: three_byte_seq_def three_byte_def continuation_def ucast_and_mask lead_bytes
      ucast_mask_back join_three [simplified] lead_bytes_high)

lemma two_byte_seq_read:
  assumes "c < 0x800" and "b0 = 0xC0 OR ucast (drop_bit 6 c AND 0x1F)"
    and "b1 = 0x80 OR ucast (c AND 0x3F)"
  shows "two_byte b0 b1 = c" "b0 AND 0xE0 = 0xC0" "\<not> b0 < 0x80" "continuation b1"
  using assms take_bit_small [of c 11]
  by (auto simp: two_byte_def continuation_def ucast_and_mask lead_bytes
      ucast_mask_back join_two [simplified] lead_bytes_high)

section \<open>Round trip\<close>

lemma surrogate_pair_bmp: "scalar c \<Longrightarrow> surrogate_pair c tail = None"
proof -
  assume "scalar c"
  then have "\<not> (0xD800 \<le> c \<and> c \<le> 0xDBFF)"
    by (auto simp: scalar_def word_le_nat_alt word_less_nat_alt)
  then show ?thesis by (auto simp: surrogate_pair_def)
qed

lemma decode_two_byte:
  assumes "c < 0x800"
  shows "decode_mutf8 ([0xC0 OR ucast (drop_bit 6 c AND 0x1F), 0x80 OR ucast (c AND 0x3F)] @ rest)
     = c # decode_mutf8 rest"
proof -
  note r = two_byte_seq_read [OF assms refl refl]
  have "scalar c" using assms by (simp add: scalar_def word_less_nat_alt)
  with r show ?thesis by (simp add: char_from_u32_scalar or_replacement_def)
qed

lemma decode_three_byte:
  assumes "c < 0x10000" and "scalar c"
  shows "decode_mutf8 (three_byte_seq c @ rest) = c # decode_mutf8 rest"
proof -
  obtain b0 b1 b2 where b: "three_byte_seq c = [b0, b1, b2]" by (simp add: three_byte_seq_def)
  note r = three_byte_seq_read [OF assms(1) b]
  from assms(2) r b show ?thesis
    by (simp add: char_from_u32_scalar or_replacement_def surrogate_pair_bmp)
qed

lemma add_small_range:
  fixes x base :: u32
  assumes "x \<le> 0x3FF" and "unat base \<le> 0xFFFF"
  shows "base \<le> base + x" "base + x \<le> base + 0x3FF"
proof -
  have "unat x \<le> 0x3FF" using assms(1) by (simp add: word_le_nat_alt)
  moreover from this assms(2) have "unat (base + x) = unat base + unat x"
    and "unat (base + 0x3FF) = unat base + 0x3FF"
    by (simp_all add: unat_word_ariths)
  ultimately show "base \<le> base + x" "base + x \<le> base + 0x3FF"
    by (simp_all add: word_le_nat_alt)
qed

lemma surrogate_halves:
  fixes c :: u32
  assumes "0x10000 \<le> c" and "c < 0x110000"
  defines "hi \<equiv> 0xD800 + drop_bit 10 (c - 0x10000)"
    and "lo \<equiv> 0xDC00 + ((c - 0x10000) AND 0x3FF)"
  shows "0xD800 \<le> hi" "hi \<le> 0xDBFF" "0xDC00 \<le> lo" "lo \<le> 0xDFFF"
    and "0x10000 + (push_bit 10 (hi - 0xD800) OR (lo - 0xDC00)) = c"
proof -
  let ?d = "c - 0x10000"
  have "unat c < 0x110000" and "unat ?d = unat c - 0x10000"
    using assms by (simp_all add: word_less_nat_alt unat_sub)
  then have "drop_bit 10 ?d \<le> 0x3FF"
    by (simp add: word_le_nat_alt unat_drop_bit_eq drop_bit_nat_def)
  then show "0xD800 \<le> hi" "hi \<le> 0xDBFF"
    using add_small_range [of "drop_bit 10 ?d" "0xD800"] by (simp_all add: hi_def)
  have "?d AND 0x3FF \<le> 0x3FF" by (rule word_and_le1)
  then show "0xDC00 \<le> lo" "lo \<le> 0xDFFF"
    using add_small_range [of "?d AND 0x3FF" "0xDC00"] by (simp_all add: lo_def)
  show "0x10000 + (push_bit 10 (hi - 0xD800) OR (lo - 0xDC00)) = c"
    unfolding hi_def lo_def by (simp only: add_diff_cancel_left' join_ten) simp
qed

lemma decode_pair:
  assumes "\<not> b0 < 0x80" "b0 AND 0xE0 = 0xE0" "b0 AND 0xF0 = 0xE0" "continuation b1"
    "continuation b2" and "surrogate_pair (three_byte b0 b1 b2) tail = Some c"
  shows "decode_mutf8 (b0 # b1 # b2 # tail) = c # decode_mutf8 (drop 3 tail)"
  using assms by simp

lemma decode_surrogates:
  assumes "0x10000 \<le> c" and "c < 0x110000"
  shows "decode_mutf8 (three_byte_seq (0xD800 + drop_bit 10 (c - 0x10000)) @
     three_byte_seq (0xDC00 + ((c - 0x10000) AND 0x3FF)) @ rest) = c # decode_mutf8 rest"
proof -
  let ?hi = "0xD800 + drop_bit 10 (c - 0x10000)" and ?lo = "0xDC00 + ((c - 0x10000) AND 0x3FF)"
  note h = surrogate_halves [OF assms]
  from h have "?hi < 0x10000" and "?lo < 0x10000" by (auto elim: order_le_less_trans)
  obtain b0 b1 b2 where b: "three_byte_seq ?hi = [b0, b1, b2]" by (simp add: three_byte_seq_def)
  obtain b3 b4 b5 where d: "three_byte_seq ?lo = [b3, b4, b5]" by (simp add: three_byte_seq_def)
  note r = three_byte_seq_read [OF \<open>?hi < 0x10000\<close> b] three_byte_seq_read [OF \<open>?lo < 0x10000\<close> d]
  have "char_from_u32 c = Some c"
    using assms by (simp add: char_from_u32_def word_le_nat_alt word_less_nat_alt)
  with h r(7-) have "surrogate_pair ?hi ([b3, b4, b5] @ rest) = Some c"
    by (simp add: surrogate_pair_def Let_def)
  with r(1) have "surrogate_pair (three_byte b0 b1 b2) (b3 # b4 # b5 # rest) = Some c" by simp
  with r(2-6) have "decode_mutf8 (b0 # b1 # b2 # b3 # b4 # b5 # rest) =
      c # decode_mutf8 (drop 3 (b3 # b4 # b5 # rest))" by (intro decode_pair)
  then show ?thesis unfolding b d by (simp del: decode_mutf8.simps)
qed

lemma ucast_low_back: "c < 0x80 \<Longrightarrow> ucast (ucast c :: u8) = c" for c :: u32
proof -
  assume "c < 0x80"
  then have "take_bit 8 c = c"
    by (intro take_bit_small) (simp add: word_less_nat_alt)
  moreover have "ucast (ucast c :: u8) = take_bit 8 c"
    by (rule bit_word_eqI) (auto simp: bit_simps)
  ultimately show "ucast (ucast c :: u8) = c" by simp
qed

lemma decode_one_byte: "c < 0x80 \<Longrightarrow> decode_mutf8 ([ucast c] @ rest) = c # decode_mutf8 rest"
proof -
  assume "c < 0x80"
  then have "ucast (ucast c :: u8) = c" by (rule ucast_low_back)
  moreover have "(ucast c :: u8) < 0x80"
    using \<open>c < 0x80\<close> by (simp add: word_less_nat_alt unsigned_ucast_eq take_bit_nat_eq_self)
  ultimately show ?thesis by simp
qed

lemma decode_mutf8_char:
  assumes "scalar c"
  shows "decode_mutf8 (mutf8_char c @ rest) = c # decode_mutf8 rest"
proof -
  have low: "c < 0x800" if "c < 0x80" using that by (simp add: word_less_nat_alt)
  consider "c \<noteq> 0" "c < 0x80" | "\<not> (c \<noteq> 0 \<and> c < 0x80)" "c < 0x800"
    | "\<not> c < 0x800" "\<not> c < 0x80" "c < 0x10000" | "\<not> c < 0x10000" "\<not> c < 0x800" "\<not> c < 0x80"
    using low by blast
  then show ?thesis
  proof cases
    case 1
    then show ?thesis unfolding mutf8_char_def by (simp only: if_True simp_thms decode_one_byte)
  next
    case 2
    then show ?thesis unfolding mutf8_char_def by (simp only: if_True if_False decode_two_byte)
  next
    case 3
    with assms show ?thesis
      unfolding mutf8_char_def by (simp only: if_True if_False decode_three_byte simp_thms)
  next
    case 4
    with assms have "0x10000 \<le> c" and "c < 0x110000"
      by (auto simp: scalar_def word_less_nat_alt word_le_nat_alt)
    with 4 show ?thesis
      unfolding mutf8_char_def
      by (simp only: if_False simp_thms append_assoc decode_surrogates)
  qed
qed

theorem decode_encode_mutf8: "list_all scalar s \<Longrightarrow> decode_mutf8 (encode_mutf8 s) = s"
  by (induction s) (simp_all add: encode_mutf8_def decode_mutf8_char)

section \<open>No NUL byte inside, only scalar values out\<close>

lemma mutf8_char_nonzero: "0 \<notin> set (mutf8_char c)"
proof -
  have "c = 0" if "ucast c = (0 :: u8)" and "c < 0x80"
    using ucast_low_back [OF that(2)] that(1) by simp
  then show ?thesis by (auto simp: mutf8_char_def three_byte_seq_def or_eq_0_iff)
qed

lemma encode_mutf8_nonzero: "0 \<notin> set (encode_mutf8 s)"
  by (auto simp: encode_mutf8_def mutf8_char_nonzero)

lemma or_replacement_scalar: "scalar (or_replacement (char_from_u32 c))"
  by (simp add: or_replacement_def char_from_u32_scalar)

lemma surrogate_pair_scalar: "surrogate_pair cu tail = Some c \<Longrightarrow> scalar c"
  by (auto simp: surrogate_pair_def char_from_u32_scalar Let_def split: if_splits)

lemma ucast_low_scalar: "b < 0x80 \<Longrightarrow> scalar (ucast (b :: u8))"
  using unsigned_less [of b, where 'a = nat]
  by (simp add: scalar_def word_less_nat_alt unsigned_ucast_eq take_bit_nat_eq_self)

theorem decode_mutf8_scalar: "list_all scalar (decode_mutf8 bs)"
  by (induction bs rule: decode_mutf8.induct)
    (auto simp: or_replacement_scalar surrogate_pair_scalar ucast_low_scalar Let_def
      split: option.splits)

text \<open>Behind a lead byte whose sequence is cut off the decoder stops: what follows it is lost.\<close>

lemma truncated_lead_drops_a_byte: "decode_mutf8 [0xE4, 0x41] = [REPLACEMENT]"
  by simp

end
