(* ===== verification/Dex_Lookup.thy ===== *)
theory Dex_Lookup
  imports Mutf8
begin

text \<open>
  The look-ups of \<^verbatim>\<open>src/dex.rs\<close>: \<^verbatim>\<open>read_uleb128\<close>, string data, and the string, type, prototype
  and method tables, each as a function into \<open>dex_error + 'a\<close>. Offsets are computed in
  \<^verbatim>\<open>u32\<close> with the checked and saturating operations of the code.
\<close>

section \<open>ULEB128\<close>

text \<open>
  The loop of \<^verbatim>\<open>read_uleb128\<close>: \<open>shift\<close> is 0, 7, .., 28, so at most five bytes are read. Bits
  shifted out of the \<^verbatim>\<open>u32\<close> are lost, as in the code.
\<close>

function uleb_loop :: "u8 list \<Rightarrow> nat \<Rightarrow> u32 \<Rightarrow> nat \<Rightarrow> dex_error + (u32 \<times> nat)" where
  "uleb_loop input pos result shift =
     (if length input \<le> pos then Inl InvalidUleb128
      else let b = input ! pos; result' = result OR push_bit shift (ucast (b AND 0x7f))
           in if b AND 0x80 = 0 then Inr (result', pos + 1)
              else if shift + 7 > 28 then Inl InvalidUleb128
              else uleb_loop input (pos + 1) result' (shift + 7))"
  by pat_completeness auto
termination by (relation "measure (\<lambda>(_, _, _, shift). 28 - shift)") auto

declare uleb_loop.simps [simp del]

definition read_uleb128 :: "u8 list \<Rightarrow> nat \<Rightarrow> dex_error + (u32 \<times> nat)" where
  "read_uleb128 input pos = uleb_loop input pos 0 0"

section \<open>The parser and its readers\<close>

record dex_parser =
  dp_data :: "u8 list"
  dp_header :: dex_header

definition le16 :: "u8 list \<Rightarrow> nat \<Rightarrow> u32" where
  "le16 item k = ucast (le_word (take 2 (drop k item)) :: u16)"

definition item_le32 :: "u8 list \<Rightarrow> nat \<Rightarrow> u32" where
  "item_le32 item k = le_word (take 4 (drop k item))"

definition dex_read_u32 :: "dex_parser \<Rightarrow> nat \<Rightarrow> string \<Rightarrow> dex_error + u32" where
  "dex_read_u32 p offset label =
     ok_or (OutOfBounds label) (map_option le_word (slice_get (dp_data p) offset (offset + 4)))"

fun position_zero :: "u8 list \<Rightarrow> nat option" where
  "position_zero [] = None"
| "position_zero (b # bs) = (if b = 0 then Some 0 else map_option Suc (position_zero bs))"

definition read_string_data :: "dex_parser \<Rightarrow> u32 \<Rightarrow> dex_error + rust_string" where
  "read_string_data p offset =
     (let pos = unat offset
      in if length (dp_data p) \<le> pos then Inl (OutOfBounds ''string data'')
         else and_then (read_uleb128 (dp_data p) pos) (\<lambda>(_, pos).
           and_then (ok_or (OutOfBounds ''string data'')
               (slice_get (dp_data p) pos (length (dp_data p)))) (\<lambda>tail.
           and_then (ok_or (OutOfBounds ''string data'') (position_zero tail)) (\<lambda>nul_off.
             Inr (decode_mutf8 (take nul_off tail))))))"

text \<open>The entry offset every table look-up starts with.\<close>

definition entry_offset :: "u32 \<Rightarrow> u32 \<Rightarrow> u32 \<Rightarrow> string \<Rightarrow> dex_error + nat" where
  "entry_offset table_off idx width label =
     ok_or (OutOfBounds label)
       (map_option unat (checked_u32_add table_off (saturating_mul_u32 idx width)))"

definition get_string :: "dex_parser \<Rightarrow> u32 \<Rightarrow> dex_error + rust_string" where
  "get_string p string_idx =
     (if dh_string_ids_size (dp_header p) \<le> string_idx
      then Inl (IndexOutOfBounds ''string'' string_idx)
      else and_then (entry_offset (dh_string_ids_off (dp_header p)) string_idx 4
               ''string id offset'') (\<lambda>offset.
           and_then (dex_read_u32 p offset ''string id offset'') (\<lambda>string_data_off.
             read_string_data p string_data_off)))"

definition get_type_descriptor :: "dex_parser \<Rightarrow> u32 \<Rightarrow> dex_error + rust_string" where
  "get_type_descriptor p type_idx =
     (if dh_type_ids_size (dp_header p) \<le> type_idx
      then Inl (IndexOutOfBounds ''type'' type_idx)
      else and_then (entry_offset (dh_type_ids_off (dp_header p)) type_idx 4
               ''type id offset'') (\<lambda>offset.
           and_then (dex_read_u32 p offset ''type id offset'') (\<lambda>descriptor_idx.
             get_string p descriptor_idx)))"

text \<open>
  The loop \<^verbatim>\<open>for i in 0..size\<close> of \<^verbatim>\<open>get_parameter_types\<close>: \<open>n\<close> iterations are left, \<open>i\<close> is the
  index of the next.
\<close>

fun parameter_loop :: "dex_parser \<Rightarrow> nat \<Rightarrow> nat \<Rightarrow> nat \<Rightarrow> dex_error + rust_string list" where
  "parameter_loop p offset i 0 = Inr []"
| "parameter_loop p offset i (Suc n) =
     and_then (ok_or (OutOfBounds ''type item offset'')
         (Option.bind (checked_usize_add offset 4) (\<lambda>v. checked_usize_add v (i * 2)))) (\<lambda>item_offset.
     and_then (ok_or (OutOfBounds ''type item offset'')
         (slice_get (dp_data p) item_offset (item_offset + 2))) (\<lambda>item.
     and_then (get_type_descriptor p (le16 item 0)) (\<lambda>t.
     and_then (parameter_loop p offset (i + 1) n) (\<lambda>ts. Inr (t # ts)))))"

definition get_parameter_types :: "dex_parser \<Rightarrow> u32 \<Rightarrow> dex_error + rust_string list" where
  "get_parameter_types p offset =
     and_then (dex_read_u32 p (unat offset) ''type list size'') (\<lambda>sz.
       parameter_loop p (unat offset) 0 (unat sz))"

record proto_info =
  pi_return_type :: rust_string
  pi_parameters :: "rust_string list"

definition get_proto_info :: "dex_parser \<Rightarrow> u32 \<Rightarrow> dex_error + proto_info" where
  "get_proto_info p proto_idx =
     (if dh_proto_ids_size (dp_header p) \<le> proto_idx
      then Inl (IndexOutOfBounds ''proto'' proto_idx)
      else and_then (entry_offset (dh_proto_ids_off (dp_header p)) proto_idx 12
               ''proto id offset'') (\<lambda>offset.
           and_then (ok_or (OutOfBounds ''proto id offset'')
               (slice_get (dp_data p) offset (offset + 12))) (\<lambda>item.
             let return_type_idx = item_le32 item 4; parameters_off = item_le32 item 8
             in and_then (get_type_descriptor p return_type_idx) (\<lambda>return_type.
                and_then (if parameters_off \<noteq> 0 then get_parameter_types p parameters_off
                          else Inr []) (\<lambda>parameters.
                Inr \<lparr>pi_return_type = return_type, pi_parameters = parameters\<rparr>)))))"

record method_info =
  mi_class_name :: rust_string
  mi_method_name :: rust_string
  mi_return_type :: rust_string
  mi_parameters :: "rust_string list"

definition get_method_info :: "dex_parser \<Rightarrow> u32 \<Rightarrow> dex_error + method_info" where
  "get_method_info p method_idx =
     (if dh_method_ids_size (dp_header p) \<le> method_idx
      then Inl (IndexOutOfBounds ''method'' method_idx)
      else and_then (entry_offset (dh_method_ids_off (dp_header p)) method_idx 8
               ''method id offset'') (\<lambda>offset.
           and_then (ok_or (OutOfBounds ''method id offset'')
               (slice_get (dp_data p) offset (offset + 8))) (\<lambda>item.
             let class_idx = le16 item 0; proto_idx = le16 item 2; name_idx = item_le32 item 4
             in and_then (get_type_descriptor p class_idx) (\<lambda>class_name.
                and_then (get_string p name_idx) (\<lambda>method_name.
                and_then (get_proto_info p proto_idx) (\<lambda>proto.
                Inr \<lparr>mi_class_name = class_name, mi_method_name = method_name,
                     mi_return_type = pi_return_type proto,
                     mi_parameters = pi_parameters proto\<rparr>))))))"

section \<open>ULEB128: the reference encoding and its round trip\<close>

function encode_uleb128 :: "u32 \<Rightarrow> u8 list" where
  "encode_uleb128 v =
     (if v < 0x80 then [ucast v]
      else (0x80 OR ucast (v AND 0x7f)) # encode_uleb128 (drop_bit 7 v))"
  by pat_completeness auto
termination
proof (relation "measure unat")
  fix v :: u32
  assume "\<not> v < 0x80"
  then have "0 < unat v" by (simp add: word_less_nat_alt)
  then show "(drop_bit 7 v, v) \<in> measure unat"
    by (simp add: unat_drop_bit_eq drop_bit_nat_def)
qed simp

declare encode_uleb128.simps [simp del]

lemma seven_mask: "(0x7f :: 'a::len word) = mask 7"
  by (simp add: mask_eq_exp_minus_1)

lemma low_seven_back: "(ucast (ucast (v AND 0x7f) :: u8) :: u32) = v AND 0x7f" for v :: u32
  by (auto simp: bit_eq_iff bit_simps seven_mask)

lemma seven_bits:
  "(0x80 OR ucast (v AND 0x7f)) AND 0x80 = (0x80 :: u8)"
  "(0x80 OR ucast (v AND 0x7f)) AND 0x7f = (ucast (v AND 0x7f) :: u8)" for v :: u32
proof -
  have "(ucast (v AND 0x7f) :: u8) = ucast v AND 0x7f"
    by (auto simp: bit_eq_iff bit_simps seven_mask)
  then show "(0x80 OR ucast (v AND 0x7f)) AND 0x80 = (0x80 :: u8)"
    and "(0x80 OR ucast (v AND 0x7f)) AND 0x7f = (ucast (v AND 0x7f) :: u8)"
    by (simp_all add: bit.conj_disj_distrib2 and.assoc)
qed

lemma join_seven: "(v AND 0x7f) OR push_bit 7 (drop_bit 7 v) = v" for v :: u32
proof (rule bit_word_eqI)
  fix n assume "n < LENGTH(32)"
  then show "bit ((v AND 0x7f) OR push_bit 7 (drop_bit 7 v)) n = bit v n"
    by (cases "n < 7") (auto simp: bit_simps seven_mask)
qed

lemma low_byte: "v < 0x80 \<Longrightarrow> (ucast v AND 0x80 :: u8) = 0 \<and> (ucast (ucast v AND 0x7f :: u8) :: u32) = v"
  for v :: u32
proof
  assume "v < 0x80"
  then have v: "v AND 0x7f = v"
    using take_bit_small [of v 7] by (simp add: take_bit_eq_mask seven_mask word_less_nat_alt)
  have eq: "(ucast v AND 0x7f :: u8) = ucast (v AND 0x7f)"
    by (auto simp: bit_eq_iff bit_simps seven_mask)
  show "(ucast (ucast v AND 0x7f :: u8) :: u32) = v" unfolding eq low_seven_back by (rule v)
  have "(ucast v AND 0x80 :: u8) = (ucast v AND 0x7f) AND 0x80"
    unfolding eq by (subst v) simp
  then show "(ucast v AND 0x80 :: u8) = 0" by (simp add: and.assoc)
qed

lemma uleb_loop_encode:
  assumes "7 dvd shift" and "shift \<le> 28" and "unat v < 2 ^ (32 - shift)"
  shows "uleb_loop (pre @ encode_uleb128 v @ rest) (length pre) r shift =
    Inr (r OR push_bit shift v, length pre + length (encode_uleb128 v))"
  using assms
proof (induction v arbitrary: pre r shift rule: encode_uleb128.induct)
  case (1 v)
  show ?case
  proof (cases "v < 0x80")
    case True
    then show ?thesis
      using low_byte [OF True]
      by (simp add: encode_uleb128.simps [of v] uleb_loop.simps [of _ "length pre"] nth_append)
  next
    case False
    let ?b = "0x80 OR ucast (v AND 0x7f) :: u8"
    from False have big: "2 ^ 7 \<le> unat v" by (simp add: word_less_nat_alt)
    with "1.prems" have "(2 :: nat) ^ 7 < 2 ^ (32 - shift)" by linarith
    then have "7 < 32 - shift" by (rule power_less_imp_less_exp [rotated]) simp
    with "1.prems" have shift: "shift + 7 \<le> 28" by (auto elim!: dvdE)
    have "unat (drop_bit 7 v) < 2 ^ (32 - (shift + 7))"
    proof -
      have "(2 :: nat) ^ (32 - shift) = 2 ^ 7 * 2 ^ (32 - (shift + 7))"
        using shift by (subst power_add [symmetric]) (rule arg_cong, simp)
      with "1.prems" show ?thesis
        by (simp add: unat_drop_bit_eq drop_bit_nat_def less_mult_imp_div_less mult.commute)
    qed
    then have IH: "uleb_loop ((pre @ [?b]) @ encode_uleb128 (drop_bit 7 v) @ rest)
        (length (pre @ [?b])) (r OR push_bit shift (v AND 0x7f)) (shift + 7) =
      Inr ((r OR push_bit shift (v AND 0x7f)) OR push_bit (shift + 7) (drop_bit 7 v),
        length (pre @ [?b]) + length (encode_uleb128 (drop_bit 7 v)))"
      using "1.prems" shift False by (intro "1.IH") simp_all
    have join: "push_bit shift (v AND 0x7f) OR push_bit (shift + 7) (drop_bit 7 v) = push_bit shift v"
      by (metis join_seven push_bit_or push_bit_push_bit)
    have "uleb_loop (pre @ encode_uleb128 v @ rest) (length pre) r shift =
      uleb_loop ((pre @ [?b]) @ encode_uleb128 (drop_bit 7 v) @ rest)
        (length (pre @ [?b])) (r OR push_bit shift (v AND 0x7f)) (shift + 7)"
      using False shift
      by (simp add: encode_uleb128.simps [of v] uleb_loop.simps [of _ "length pre"] nth_append
          seven_bits low_seven_back)
    also note IH
    finally show ?thesis
      using False join by (simp add: encode_uleb128.simps [of v] or.assoc)
  qed
qed

theorem read_encode_uleb128:
  "read_uleb128 (pre @ encode_uleb128 v @ rest) (length pre) =
     Inr (v, length pre + length (encode_uleb128 v))"
  using uleb_loop_encode [of 0 v pre rest 0] unsigned_less [of v, where 'a = nat]
  by (simp add: read_uleb128_def)

lemma uleb_loop_range:
  "uleb_loop input pos r shift = Inr (v, q) \<Longrightarrow>
     pos < q \<and> q \<le> length input \<and> 7 * (q - pos) \<le> max 7 (35 - shift)"
proof (induction input pos r shift rule: uleb_loop.induct)
  case (1 input pos r shift)
  then show ?case
    by (subst (asm) uleb_loop.simps) (force simp: Let_def split: if_splits)
qed

end
