(* ===== verification/Hex.thy ===== *)
theory Hex
  imports Rust_Std
begin

text \<open>
  Hexadecimal text as the \<^verbatim>\<open>hex\<close> crate documents it: two lower-case digits per byte, and a
  decoder for an even number of digits of either case. The models of \<^verbatim>\<open>dump.rs\<close> and \<^verbatim>\<open>fix.rs\<close>
  take the functions of the crate as parameters; this is the instance they are exercised on.
\<close>

definition hex_digit :: "u8 \<Rightarrow> u32" where
  "hex_digit d = (if d < 10 then 0x30 + ucast d else 0x57 + ucast d)"

definition hex_encode :: "u8 list \<Rightarrow> rust_string" where
  "hex_encode bs = concat (map (\<lambda>b. [hex_digit (drop_bit 4 b), hex_digit (b AND 0x0F)]) bs)"

definition hex_value :: "u32 \<Rightarrow> u8 option" where
  "hex_value c =
     (if \<not> c < 0x30 \<and> c < 0x3A then Some (ucast (c - 0x30))
      else if \<not> c < 0x41 \<and> c < 0x47 then Some (ucast (c - 0x37))
      else if \<not> c < 0x61 \<and> c < 0x67 then Some (ucast (c - 0x57))
      else None)"

fun hex_decode :: "rust_string \<Rightarrow> u8 list option" where
  "hex_decode [] = Some []"
| "hex_decode [_] = None"
| "hex_decode (a # b # s) =
     (case (hex_value a, hex_value b, hex_decode s) of
        (Some hi, Some lo, Some bs) \<Rightarrow> Some ((push_bit 4 hi OR lo) # bs)
      | _ \<Rightarrow> None)"

lemma hex_value_digit: "d < 16 \<Longrightarrow> hex_value (hex_digit d) = Some d" for d :: u8
proof -
  assume "d < 16"
  then have "unat d < 16" by (simp add: word_less_nat_alt)
  then have "unat d = 0 \<or> unat d = 1 \<or> unat d = 2 \<or> unat d = 3 \<or> unat d = 4 \<or> unat d = 5 \<or>
      unat d = 6 \<or> unat d = 7 \<or> unat d = 8 \<or> unat d = 9 \<or> unat d = 10 \<or> unat d = 11 \<or>
      unat d = 12 \<or> unat d = 13 \<or> unat d = 14 \<or> unat d = 15" by presburger
  then have "d \<in> {0, 1, 2, 3, 4, 5, 6, 7, 8, 9, 10, 11, 12, 13, 14, 15}"
    by (elim disjE) (simp_all add: word_unat_eq_iff)
  then show ?thesis by (elim insertE emptyE) (simp_all add: hex_value_def hex_digit_def)
qed

lemma hex_halves: "push_bit 4 (drop_bit 4 b) OR (b AND 0x0F) = b" for b :: u8
proof -
  have m: "0x0F = (mask 4 :: u8)" by (simp add: mask_numeral)
  show ?thesis
    unfolding m
  proof (rule bit_word_eqI)
    fix n assume "n < LENGTH(8)"
    then show "bit (push_bit 4 (drop_bit 4 b) OR (b AND mask 4)) n = bit b n"
      by (cases "4 \<le> n") (simp_all add: bit_or_iff bit_and_iff bit_push_bit_iff bit_drop_bit_eq bit_mask_iff)
  qed
qed

lemma hex_nibbles: "drop_bit 4 b < 16" "b AND 0x0F < 16" for b :: u8
proof -
  have "unat (b div 16) < 16" using unsigned_less [of b, where 'a = nat] by (simp add: unat_div)
  then show "drop_bit 4 b < 16" by (simp add: word_less_nat_alt drop_bit_eq_div)
  show "b AND 0x0F < 16"
    using word_and_le1 [of b "0x0F"] by (simp add: word_le_nat_alt word_less_nat_alt)
qed

lemma hex_decode_encode: "hex_decode (hex_encode bs) = Some bs"
proof (induction bs)
  case (Cons b bs)
  then show ?case by (simp add: hex_encode_def hex_value_digit hex_halves hex_nibbles)
qed (simp add: hex_encode_def)

lemma length_hex_encode [simp]: "length (hex_encode bs) = 2 * length bs"
  by (induction bs) (simp_all add: hex_encode_def)

end
