(* ===== verification/Rust_Text.thy ===== *)
theory Rust_Text
  imports Hex "HOL-Library.Sublist"
begin

text \<open>
  Text as the user-space code formats and parses it: numbers in hexadecimal (\<^verbatim>\<open>{:x}\<close> and
  \<^verbatim>\<open>from_str_radix\<close>), and the methods of \<^verbatim>\<open>str\<close> that take a string apart (\<^verbatim>\<open>split\<close>,
  \<^verbatim>\<open>split_once\<close>, \<^verbatim>\<open>split_whitespace\<close>, \<^verbatim>\<open>strip_prefix\<close>, \<^verbatim>\<open>strip_suffix\<close>). What is printed is
  read back.
\<close>

section \<open>Hexadecimal numbers\<close>

fun hex_nat :: "nat \<Rightarrow> rust_string" where
  "hex_nat n =
     (if n < 16 then [hex_digit (of_nat n)] else hex_nat (n div 16) @ [hex_digit (of_nat (n mod 16))])"

declare hex_nat.simps [simp del]

definition lower_hex :: "'a :: len word \<Rightarrow> rust_string" where
  "lower_hex w = hex_nat (unat w)"

text \<open>The digits of \<^verbatim>\<open>u64::from_str_radix(_, 16)\<close>: overflow is an error, a plus sign is allowed.\<close>

fun parse_digits :: "nat \<Rightarrow> rust_string \<Rightarrow> nat option" where
  "parse_digits acc [] = Some acc"
| "parse_digits acc (c # cs) =
     (case hex_value c of None \<Rightarrow> None
      | Some d \<Rightarrow>
          let acc = acc * 16 + unat d in if acc < 2 ^ 64 then parse_digits acc cs else None)"

definition u64_from_hex :: "rust_string \<Rightarrow> u64 option" where
  "u64_from_hex s =
     (let digits = (case s of [] \<Rightarrow> [] | c # cs \<Rightarrow> if c = 0x2B then cs else s)
      in if digits = [] then None else map_option of_nat (parse_digits 0 digits))"

definition is_hexdigit :: "u32 \<Rightarrow> bool" where
  "is_hexdigit c \<longleftrightarrow> hex_value c \<noteq> None"

lemma unat_digit: "n < 16 \<Longrightarrow> unat (of_nat n :: u8) = n"
  by (simp add: unat_of_nat take_bit_nat_eq_self)

lemma digit_small: "n < 16 \<Longrightarrow> (of_nat n :: u8) < 16"
  using unat_digit by (simp add: word_less_nat_alt)

lemma hex_value_nat: "n < 16 \<Longrightarrow> hex_value (hex_digit (of_nat n)) = Some (of_nat n)"
  by (simp add: hex_value_digit digit_small)

lemma hex_nat_digits: "list_all is_hexdigit (hex_nat n)"
proof (induction n rule: hex_nat.induct)
  case (1 n)
  have "is_hexdigit (hex_digit (of_nat k))" if "k < 16" for k
    using that by (simp add: is_hexdigit_def hex_value_nat)
  with 1 show ?case by (subst hex_nat.simps) auto
qed

lemma hex_nat_nonempty [simp]: "hex_nat n \<noteq> []"
  by (subst hex_nat.simps) simp

lemma parse_hex_nat: "n < 2 ^ 64 \<Longrightarrow> parse_digits 0 (hex_nat n @ rest) = parse_digits n rest"
proof (induction n arbitrary: rest rule: hex_nat.induct)
  case (1 n)
  show ?case
  proof (cases "n < 16")
    case True
    then show ?thesis by (subst hex_nat.simps) (simp add: hex_value_nat unat_digit)
  next
    case False
    have "parse_digits 0 (hex_nat n @ rest) =
        parse_digits 0 (hex_nat (n div 16) @ hex_digit (of_nat (n mod 16)) # rest)"
      using False by (subst hex_nat.simps) simp
    also have "\<dots> = parse_digits (n div 16) (hex_digit (of_nat (n mod 16)) # rest)"
      by (rule "1.IH") (use False "1.prems" in auto)
    also have "\<dots> = parse_digits n rest"
      using "1.prems" by (simp add: hex_value_nat unat_digit)
    finally show ?thesis .
  qed
qed

lemma no_hexdigit [simp]: "\<not> is_hexdigit 0x2B" "\<not> is_hexdigit 0x5F" "\<not> is_hexdigit 0x2D"
  "\<not> is_hexdigit 0x20" "\<not> is_hexdigit 0x2E"
  by (simp_all add: is_hexdigit_def hex_value_def)

lemma hexdigits_avoid: "list_all is_hexdigit s \<Longrightarrow> \<not> is_hexdigit c \<Longrightarrow> c \<notin> set s"
  by (auto simp: list_all_iff)

lemma lower_hex_digits [simp]: "list_all is_hexdigit (lower_hex w)" "lower_hex w \<noteq> []"
  by (simp_all add: lower_hex_def hex_nat_digits)

lemma u64_from_lower_hex: "u64_from_hex (lower_hex w) = Some w" for w :: u64
proof -
  have "unat w < 2 ^ 64" using unsigned_less [of w, where 'a = nat] by simp
  then have p: "parse_digits 0 (lower_hex w) = Some (unat w)"
    using parse_hex_nat [of "unat w" "[]"] by (simp add: lower_hex_def)
  obtain c cs where s: "lower_hex w = c # cs" using lower_hex_digits(2) by (cases "lower_hex w") auto
  then have "is_hexdigit c" using lower_hex_digits(1) [of w] by simp
  then have "c \<noteq> 0x2B" by auto
  with p s show ?thesis by (simp add: u64_from_hex_def)
qed

lemma lower_hex_inject [simp]: "lower_hex v = lower_hex w \<longleftrightarrow> v = w" for v w :: u64
  using u64_from_lower_hex by (metis option.inject)

lemma hex_nat_inject: "m < 2 ^ 64 \<Longrightarrow> n < 2 ^ 64 \<Longrightarrow> hex_nat m = hex_nat n \<longleftrightarrow> m = n"
  using parse_hex_nat [of _ "[]"] by (metis append_Nil2 option.inject parse_digits.simps(1))

lemma lower_hex32_inject [simp]: "lower_hex v = lower_hex w \<longleftrightarrow> v = w" for v w :: u32
proof -
  have "unat x < 2 ^ 64" for x :: u32 using unsigned_less [of x, where 'a = nat] by simp
  then show ?thesis by (simp add: lower_hex_def hex_nat_inject word_unat_eq_iff)
qed

section \<open>Taking strings apart\<close>

fun join :: "rust_string \<Rightarrow> rust_string list \<Rightarrow> rust_string" where
  "join sep [] = []"
| "join sep [s] = s"
| "join sep (s # t # ss) = s @ sep @ join sep (t # ss)"

fun split_char :: "u32 \<Rightarrow> rust_string \<Rightarrow> rust_string list" where
  "split_char sep [] = [[]]"
| "split_char sep (c # cs) =
     (if c = sep then [] # split_char sep cs
      else case split_char sep cs of [] \<Rightarrow> [[c]] | p # ps \<Rightarrow> (c # p) # ps)"

fun split_once :: "u32 \<Rightarrow> rust_string \<Rightarrow> (rust_string \<times> rust_string) option" where
  "split_once sep [] = None"
| "split_once sep (c # cs) =
     (if c = sep then Some ([], cs)
      else map_option (\<lambda>(a, b). (c # a, b)) (split_once sep cs))"

definition strip_prefix :: "'a list \<Rightarrow> 'a list \<Rightarrow> 'a list option" where
  "strip_prefix p s = (if prefix p s then Some (drop (length p) s) else None)"

definition strip_suffix :: "'a list \<Rightarrow> 'a list \<Rightarrow> 'a list option" where
  "strip_suffix p s = (if suffix p s then Some (take (length s - length p) s) else None)"

text \<open>\<^verbatim>\<open>char::is_whitespace\<close>: the Unicode property \<^verbatim>\<open>White_Space\<close>.\<close>

definition is_whitespace :: "u32 \<Rightarrow> bool" where
  "is_whitespace c \<longleftrightarrow> c \<in> {9, 10, 11, 12, 13, 0x20, 0x85, 0xA0, 0x1680, 0x2000, 0x2001, 0x2002,
     0x2003, 0x2004, 0x2005, 0x2006, 0x2007, 0x2008, 0x2009, 0x200A, 0x2028, 0x2029, 0x202F, 0x205F,
     0x3000}"

function split_whitespace :: "rust_string \<Rightarrow> rust_string list" where
  "split_whitespace s =
     (let s' = dropWhile is_whitespace s
      in if s' = [] then []
         else takeWhile (\<lambda>c. \<not> is_whitespace c) s' #
              split_whitespace (dropWhile (\<lambda>c. \<not> is_whitespace c) s'))"
  by pat_completeness auto
termination
proof (relation "measure length")
  fix s s' assume s': "s' = dropWhile is_whitespace s" and ne: "s' \<noteq> []"
  then have "\<not> is_whitespace (hd s')" using hd_dropWhile by metis
  with ne have "length (dropWhile (\<lambda>c. \<not> is_whitespace c) s') \<le> length (tl s')"
    by (cases s') (auto simp: length_dropWhile_le)
  also have "\<dots> < length s'" using ne by simp
  also have "\<dots> \<le> length s" unfolding s' by (rule length_dropWhile_le)
  finally show "(dropWhile (\<lambda>c. \<not> is_whitespace c) s', s) \<in> measure length" by simp
qed simp

declare split_whitespace.simps [simp del]

lemma split_char_nonempty: "split_char sep s \<noteq> []"
  by (induction s) (auto split: list.split)

lemma split_char_cons: "sep \<notin> set a \<Longrightarrow> split_char sep (a @ sep # b) = a # split_char sep b"
  by (induction a) auto

lemma split_char_plain: "sep \<notin> set a \<Longrightarrow> split_char sep a = [a]"
  by (induction a) auto

lemma split_once_at: "sep \<notin> set a \<Longrightarrow> split_once sep (a @ sep # b) = Some (a, b)"
  by (induction a) auto

lemma strip_prefix_append [simp]: "strip_prefix p (p @ s) = Some s"
  by (simp add: strip_prefix_def)

lemma strip_suffix_append [simp]: "strip_suffix p (s @ p) = Some s"
  by (simp add: strip_suffix_def suffix_def)

lemma strip_suffix_Some: "strip_suffix p s = Some r \<Longrightarrow> s = r @ p"
  by (auto simp: strip_suffix_def suffix_def split: if_splits)

lemma split_char_join:
  "ps \<noteq> [] \<Longrightarrow> list_all (\<lambda>p. sep \<notin> set p) ps \<Longrightarrow> split_char sep (join [sep] ps) = ps"
  by (induction "[sep]" ps rule: join.induct) (simp_all add: split_char_plain split_char_cons)

text \<open>A word, with white space before and behind it.\<close>

definition is_word :: "rust_string \<Rightarrow> bool" where
  "is_word w \<longleftrightarrow> w \<noteq> [] \<and> list_all (\<lambda>c. \<not> is_whitespace c) w"

lemma split_whitespace_blank: "list_all is_whitespace s \<Longrightarrow> split_whitespace s = []"
  by (subst split_whitespace.simps) (simp add: list_all_iff Let_def)

lemma split_whitespace_word:
  assumes "is_word w" and "list_all is_whitespace pad" and "rest = [] \<or> is_whitespace (hd rest)"
  shows "split_whitespace (pad @ w @ rest) = w # split_whitespace rest"
proof -
  have d: "dropWhile is_whitespace (pad @ w @ rest) = w @ rest"
    using assms(1,2) by (cases w) (auto simp: is_word_def list_all_iff dropWhile_append2)
  have t: "takeWhile (\<lambda>c. \<not> is_whitespace c) (w @ rest) = w"
    "dropWhile (\<lambda>c. \<not> is_whitespace c) (w @ rest) = rest"
    using assms(1,3) by (cases rest; auto simp: is_word_def list_all_iff takeWhile_append2 dropWhile_append2)+
  show ?thesis
    using assms(1) by (subst split_whitespace.simps) (simp add: Let_def d t is_word_def)
qed


lemma split_whitespace_words:
  "list_all is_word ws \<Longrightarrow> split_whitespace (join [0x20] ws) = ws"
proof (induction "[0x20] :: rust_string" ws rule: join.induct)
  case 1
  show ?case by (simp add: split_whitespace_blank)
next
  case (2 s)
  then show ?case using split_whitespace_word [of s "[]" "[]"] by (simp add: split_whitespace_blank)
next
  case (3 s t ss)
  have sp: "is_whitespace 0x20" by (simp add: is_whitespace_def)
  have "split_whitespace (0x20 # u) = split_whitespace u" for u
    using sp by (subst (1 2) split_whitespace.simps) simp
  with 3 sp split_whitespace_word [of s "[]" "0x20 # join [0x20] (t # ss)"] show ?case by simp
qed

end
