(* ===== verification/Java_Names.thy ===== *)
theory Java_Names
  imports Dex_Lookup Rust_Text
begin

text \<open>
  Printing of descriptors and methods in \<^verbatim>\<open>src/dex.rs\<close>: \<^verbatim>\<open>fmt_type\<close>, \<^verbatim>\<open>fmt_class_name\<close>,
  \<^verbatim>\<open>format_type\<close> and \<^verbatim>\<open>pretty_method\<close>. A \<^verbatim>\<open>&mut String\<close> is the string before and after.
  \<open>java_type\<close> with \<open>descriptor\<close> and \<open>java_name\<close> is the reference: the types of the language,
  how a DEX file writes them and how Java source does.
\<close>

section \<open>The code\<close>

abbreviation (input) "ch_slash \<equiv> 0x2F :: u32"
abbreviation (input) "ch_dot \<equiv> 0x2E :: u32"
abbreviation (input) "ch_L \<equiv> 0x4C :: u32"
abbreviation (input) "ch_semicolon \<equiv> 0x3B :: u32"
abbreviation (input) "ch_bracket \<equiv> 0x5B :: u32"

definition is_class_descriptor :: "rust_string \<Rightarrow> bool" where
  "is_class_descriptor d \<longleftrightarrow>
     2 < length (utf8_bytes d) \<and> hd d = ch_L \<and> last d = ch_semicolon"

definition fmt_class_name :: "rust_string \<Rightarrow> rust_string \<Rightarrow> rust_string" where
  "fmt_class_name out class_name =
     (if is_class_descriptor class_name
      then out @ map (\<lambda>b. if b = 0x2F then ch_dot else ucast b)
                   (utf8_bytes (butlast (tl class_name)))
      else out @ class_name)"

definition primitive_name :: "rust_string \<Rightarrow> rust_string option" where
  "primitive_name d =
     (if d = str_lit ''V'' then Some (str_lit ''void'')
      else if d = str_lit ''Z'' then Some (str_lit ''boolean'')
      else if d = str_lit ''B'' then Some (str_lit ''byte'')
      else if d = str_lit ''S'' then Some (str_lit ''short'')
      else if d = str_lit ''C'' then Some (str_lit ''char'')
      else if d = str_lit ''I'' then Some (str_lit ''int'')
      else if d = str_lit ''J'' then Some (str_lit ''long'')
      else if d = str_lit ''F'' then Some (str_lit ''float'')
      else if d = str_lit ''D'' then Some (str_lit ''double'')
      else None)"

function fmt_type :: "rust_string \<Rightarrow> rust_string \<Rightarrow> rust_string" where
  "fmt_type out d =
     (case primitive_name d of Some n \<Rightarrow> out @ n
      | None \<Rightarrow>
          if d \<noteq> [] \<and> hd d = ch_bracket then fmt_type out (tl d) @ str_lit ''[]''
          else if is_class_descriptor d then fmt_class_name out d
          else out @ d)"
  by pat_completeness auto
termination by (relation "measure (\<lambda>(_, d). length d)") auto

declare fmt_type.simps [simp del]

definition format_type :: "rust_string \<Rightarrow> rust_string" where
  "format_type d = fmt_type [] d"

fun fmt_parameters :: "rust_string \<Rightarrow> nat \<Rightarrow> rust_string list \<Rightarrow> rust_string" where
  "fmt_parameters out idx [] = out"
| "fmt_parameters out idx (t # ts) =
     fmt_parameters (fmt_type (if 0 < idx then out @ str_lit '', '' else out) t) (idx + 1) ts"

definition pretty_method :: "method_info \<Rightarrow> rust_string" where
  "pretty_method info =
     (let out = fmt_type [] (mi_return_type info);
          out = out @ str_lit '' '';
          out = fmt_class_name out (mi_class_name info);
          out = out @ str_lit ''.'';
          out = out @ mi_method_name info;
          out = out @ str_lit ''('';
          out = fmt_parameters out 0 (mi_parameters info)
      in out @ str_lit '')'')"

section \<open>The reference\<close>

datatype java_type = Jvoid | Jboolean | Jbyte | Jshort | Jchar | Jint | Jlong | Jfloat | Jdouble
  | Jclass "rust_string list" | Jarray java_type

fun descriptor :: "java_type \<Rightarrow> rust_string" where
  "descriptor Jvoid = str_lit ''V''"
| "descriptor Jboolean = str_lit ''Z''"
| "descriptor Jbyte = str_lit ''B''"
| "descriptor Jshort = str_lit ''S''"
| "descriptor Jchar = str_lit ''C''"
| "descriptor Jint = str_lit ''I''"
| "descriptor Jlong = str_lit ''J''"
| "descriptor Jfloat = str_lit ''F''"
| "descriptor Jdouble = str_lit ''D''"
| "descriptor (Jclass cs) = ch_L # join [ch_slash] cs @ [ch_semicolon]"
| "descriptor (Jarray t) = ch_bracket # descriptor t"

fun java_name :: "java_type \<Rightarrow> rust_string" where
  "java_name Jvoid = str_lit ''void''"
| "java_name Jboolean = str_lit ''boolean''"
| "java_name Jbyte = str_lit ''byte''"
| "java_name Jshort = str_lit ''short''"
| "java_name Jchar = str_lit ''char''"
| "java_name Jint = str_lit ''int''"
| "java_name Jlong = str_lit ''long''"
| "java_name Jfloat = str_lit ''float''"
| "java_name Jdouble = str_lit ''double''"
| "java_name (Jclass cs) = join [ch_dot] cs"
| "java_name (Jarray t) = java_name t @ str_lit ''[]''"

text \<open>Class names of ASCII components; no component is empty or contains a slash.\<close>

definition class_ok :: "rust_string list \<Rightarrow> bool" where
  "class_ok cs \<longleftrightarrow> cs \<noteq> [] \<and> list_all (\<lambda>c. c \<noteq> [] \<and> ascii c \<and> ch_slash \<notin> set c) cs"

fun type_ok :: "java_type \<Rightarrow> bool" where
  "type_ok (Jclass cs) = class_ok cs"
| "type_ok (Jarray t) = type_ok t"
| "type_ok _ = True"

section \<open>Printing a descriptor gives the Java name\<close>

lemma ascii_join: "list_all ascii cs \<Longrightarrow> ascii sep \<Longrightarrow> ascii (join sep cs)"
  by (induction sep cs rule: join.induct) simp_all

lemma join_nonempty: "cs \<noteq> [] \<Longrightarrow> list_all (\<lambda>c. c \<noteq> []) cs \<Longrightarrow> join sep cs \<noteq> []"
  by (induction sep cs rule: join.induct) simp_all

definition dotted :: "rust_string \<Rightarrow> rust_string" where
  "dotted s = map (\<lambda>c. if c = ch_slash then ch_dot else c) s"

lemma dotted_bytes:
  "ascii s \<Longrightarrow> map (\<lambda>b. if b = 0x2F then ch_dot else ucast b) (utf8_bytes s) = dotted s"
proof (induction s)
  case (Cons c s)
  then have c: "ucast (ucast c :: u8) = c" by (intro ucast_low_back) simp
  have "(ucast c :: u8) = 0x2F \<longleftrightarrow> c = ch_slash"
  proof
    assume "(ucast c :: u8) = 0x2F"
    with c show "c = ch_slash" by simp
  qed simp
  with Cons c show ?case by (simp add: utf8_char_ascii dotted_def)
qed (simp add: dotted_def)

lemma dotted_component: "ch_slash \<notin> set c \<Longrightarrow> dotted c = c"
  unfolding dotted_def by (rule map_idI) auto

lemma dotted_join:
  "list_all (\<lambda>c. ch_slash \<notin> set c) cs \<Longrightarrow> dotted (join [ch_slash] cs) = join [ch_dot] cs"
proof (induction "[ch_slash]" cs rule: join.induct)
  case (3 s t ss)
  then have "dotted (join [ch_slash] (t # ss)) = join [ch_dot] (t # ss)" and "dotted s = s"
    by (simp_all add: dotted_component)
  then show ?case by (simp add: dotted_def)
next
  case 1
  then show ?case by (simp add: dotted_def)
qed (simp add: dotted_component)

lemma class_ok_join:
  assumes "class_ok cs"
  shows "ascii (join [ch_slash] cs)" "join [ch_slash] cs \<noteq> []"
    "dotted (join [ch_slash] cs) = join [ch_dot] cs"
proof -
  from assms have "list_all ascii cs" "list_all (\<lambda>c. c \<noteq> []) cs" "cs \<noteq> []"
    "list_all (\<lambda>c. ch_slash \<notin> set c) cs"
    by (auto simp: class_ok_def list_all_iff)
  then show "ascii (join [ch_slash] cs)" "join [ch_slash] cs \<noteq> []"
    "dotted (join [ch_slash] cs) = join [ch_dot] cs"
    by (simp_all add: ascii_join join_nonempty dotted_join)
qed

lemma length_utf8_ge: "n \<le> length s \<Longrightarrow> n \<le> length (utf8_bytes s)"
  using length_utf8_bytes_ge [of s] by linarith

lemma is_class_descriptor_class:
  "s \<noteq> [] \<Longrightarrow> is_class_descriptor (ch_L # s @ [ch_semicolon])"
  unfolding is_class_descriptor_def
  by (cases s) (simp_all add: Suc_le_eq [symmetric] length_utf8_ge del: utf8_bytes_simps)

lemma fmt_class_name_ascii:
  "ascii s \<Longrightarrow> s \<noteq> [] \<Longrightarrow> fmt_class_name out (ch_L # s @ [ch_semicolon]) = out @ dotted s"
  by (simp add: fmt_class_name_def is_class_descriptor_class dotted_bytes butlast_append)

lemma primitive_name_long: "2 \<le> length d \<Longrightarrow> primitive_name d = None"
  by (auto simp: primitive_name_def)

lemma descriptor_nonempty: "descriptor t \<noteq> []"
  by (cases t) simp_all

lemma fmt_type_array: "d \<noteq> [] \<Longrightarrow> fmt_type out (ch_bracket # d) = fmt_type out d @ str_lit ''[]''"
  by (subst fmt_type.simps) (cases d; simp add: primitive_name_long)

lemma fmt_type_class:
  "s \<noteq> [] \<Longrightarrow> fmt_type out (ch_L # s @ [ch_semicolon]) = fmt_class_name out (ch_L # s @ [ch_semicolon])"
  by (subst fmt_type.simps) (simp add: primitive_name_long is_class_descriptor_class)

lemma fmt_type_descriptor: "type_ok t \<Longrightarrow> fmt_type out (descriptor t) = out @ java_name t"
proof (induction t)
  case (Jclass cs)
  then have "class_ok cs" by simp
  note c = class_ok_join [OF this]
  then show ?case by (simp add: fmt_type_class fmt_class_name_ascii)
next
  case (Jarray t)
  then show ?case by (simp add: fmt_type_array descriptor_nonempty)
qed (simp_all add: fmt_type.simps primitive_name_def)

lemma fmt_parameters_descriptors:
  "list_all type_ok ts \<Longrightarrow> 0 < idx \<Longrightarrow>
     fmt_parameters out idx (map descriptor ts) =
       out @ concat (map (\<lambda>t. str_lit '', '' @ java_name t) ts)"
  by (induction ts arbitrary: out idx) (simp_all add: fmt_type_descriptor)

lemma join_Cons: "join sep (s # ss) = s @ concat (map (\<lambda>t. sep @ t) ss)"
  by (induction ss arbitrary: s) simp_all

lemma fmt_parameters_join:
  "list_all type_ok ts \<Longrightarrow>
     fmt_parameters out 0 (map descriptor ts) = out @ join (str_lit '', '') (map java_name ts)"
  by (cases ts)
    (simp_all add: fmt_type_descriptor fmt_parameters_descriptors join_Cons comp_def)

lemma pretty_method_java:
  assumes "type_ok ret" and "class_ok cs" and "list_all type_ok ps"
  shows "pretty_method \<lparr>mi_class_name = descriptor (Jclass cs), mi_method_name = name,
      mi_return_type = descriptor ret, mi_parameters = map descriptor ps\<rparr> =
    java_name ret @ str_lit '' '' @ join [ch_dot] cs @ str_lit ''.'' @ name @ str_lit ''('' @
      join (str_lit '', '') (map java_name ps) @ str_lit '')''"
  using assms class_ok_join [OF assms(2)]
  by (simp add: pretty_method_def fmt_type_descriptor fmt_class_name_ascii fmt_parameters_join
      Let_def del: str_lit_simps)

section \<open>Class names outside ASCII\<close>

text \<open>
  The loop of \<^verbatim>\<open>fmt_class_name\<close> pushes the bytes of the name as characters, so a name with a
  character outside ASCII is printed with more characters than it has.
\<close>

lemma length_utf8_char: "length (utf8_char c) = 1 \<longleftrightarrow> c < 0x80"
  by (simp add: utf8_char_def)

lemma length_utf8_bytes_non_ascii: "\<not> ascii s \<Longrightarrow> length s < length (utf8_bytes s)"
proof (induction s)
  case (Cons c s)
  have "1 \<le> length (utf8_char c)" using utf8_char_nonempty [of c] by (cases "utf8_char c") auto
  with Cons length_utf8_char [of c] length_utf8_bytes_ge [of s] show ?case
    by (cases "c < 0x80") auto
qed simp

lemma fmt_class_name_non_ascii:
  assumes "\<not> ascii s"
  shows "fmt_class_name [] (ch_L # s @ [ch_semicolon]) \<noteq> dotted s"
proof -
  have "s \<noteq> []" using assms by auto
  then have "length (fmt_class_name [] (ch_L # s @ [ch_semicolon])) = length (utf8_bytes s)"
    by (simp add: fmt_class_name_def is_class_descriptor_class butlast_append)
  moreover have "length (dotted s) = length s" by (simp add: dotted_def)
  ultimately show ?thesis using length_utf8_bytes_non_ascii [OF assms] by auto
qed

end
