(* ===== verification/Dex_Tables.thy ===== *)
theory Dex_Tables
  imports Dex_Lookup
begin

text \<open>
  What a DEX file says, against which the look-ups of Dex\_Lookup are verified: the predicates
  \<open>string_at\<close>, \<open>type_at\<close>, \<open>types_at\<close>, \<open>proto_at\<close> and \<open>method_at\<close> read the tables of the file
  format directly (with the reference encodings of ULEB128 and MUTF-8 and unbounded offsets);
  the lemmas \<open>get_*_at\<close> say that the code, with its 32-bit offsets and its order of checks,
  returns what is there.
\<close>

section \<open>Contents of a DEX file\<close>

definition string_data_at :: "u8 list \<Rightarrow> nat \<Rightarrow> rust_string \<Rightarrow> bool" where
  "string_data_at bs off s \<longleftrightarrow> list_all scalar s \<and>
     (\<exists>n rest. drop off bs = encode_uleb128 n @ encode_mutf8 s @ [0] @ rest)"

definition string_at :: "dex_parser \<Rightarrow> u32 \<Rightarrow> rust_string \<Rightarrow> bool" where
  "string_at p idx s \<longleftrightarrow> idx < dh_string_ids_size (dp_header p) \<and>
     (\<exists>off. le32 (dp_data p) (unat (dh_string_ids_off (dp_header p)) + 4 * unat idx) = Some off \<and>
        string_data_at (dp_data p) (unat off) s)"

definition type_at :: "dex_parser \<Rightarrow> u32 \<Rightarrow> rust_string \<Rightarrow> bool" where
  "type_at p idx t \<longleftrightarrow> idx < dh_type_ids_size (dp_header p) \<and>
     (\<exists>j. le32 (dp_data p) (unat (dh_type_ids_off (dp_header p)) + 4 * unat idx) = Some j \<and>
        string_at p j t)"

fun types_at :: "dex_parser \<Rightarrow> nat \<Rightarrow> rust_string list \<Rightarrow> bool" where
  "types_at p off [] \<longleftrightarrow> True"
| "types_at p off (t # ts) \<longleftrightarrow>
     (\<exists>j :: u16. slice_get (dp_data p) off (off + 2) = Some (le_bytes 2 j) \<and>
        type_at p (ucast j) t) \<and> types_at p (off + 2) ts"

definition parameters_at :: "dex_parser \<Rightarrow> u32 \<Rightarrow> rust_string list \<Rightarrow> bool" where
  "parameters_at p off ts \<longleftrightarrow>
     (if off = 0 then ts = []
      else (\<exists>n. le32 (dp_data p) (unat off) = Some n \<and> unat n = length ts) \<and>
           types_at p (unat off + 4) ts)"

definition proto_at :: "dex_parser \<Rightarrow> u32 \<Rightarrow> proto_info \<Rightarrow> bool" where
  "proto_at p idx proto \<longleftrightarrow> idx < dh_proto_ids_size (dp_header p) \<and>
     (\<exists>(shorty :: u32) (ret :: u32) (par :: u32).
        (let off = unat (dh_proto_ids_off (dp_header p)) + 12 * unat idx
         in slice_get (dp_data p) off (off + 12) =
              Some (le_bytes 4 shorty @ le_bytes 4 ret @ le_bytes 4 par)) \<and>
        type_at p ret (pi_return_type proto) \<and> parameters_at p par (pi_parameters proto))"

definition method_at :: "dex_parser \<Rightarrow> u32 \<Rightarrow> method_info \<Rightarrow> bool" where
  "method_at p idx info \<longleftrightarrow> idx < dh_method_ids_size (dp_header p) \<and>
     (\<exists>(class_idx :: u16) (proto_idx :: u16) (name_idx :: u32).
        (let off = unat (dh_method_ids_off (dp_header p)) + 8 * unat idx
         in slice_get (dp_data p) off (off + 8) =
              Some (le_bytes 2 class_idx @ le_bytes 2 proto_idx @ le_bytes 4 name_idx)) \<and>
        type_at p (ucast class_idx) (mi_class_name info) \<and>
        string_at p name_idx (mi_method_name info) \<and>
        proto_at p (ucast proto_idx)
          \<lparr>pi_return_type = mi_return_type info, pi_parameters = mi_parameters info\<rparr>)"

section \<open>The look-ups return what is there\<close>

lemma slice_get_bound: "slice_get xs a b = Some ys \<Longrightarrow> b \<le> length xs"
  by (auto simp: slice_get_def split: if_splits)

lemma slice_get_tail: "a \<le> length xs \<Longrightarrow> slice_get xs a (length xs) = Some (drop a xs)"
  by (simp add: slice_get_def)

lemma le32_bound: "le32 xs off = Some w \<Longrightarrow> off + 4 \<le> length xs"
  unfolding le32_def by (auto dest: slice_get_bound)

lemma dex_read_u32_le32: "le32 (dp_data p) off = Some w \<Longrightarrow> dex_read_u32 p off label = Inr w"
  by (auto simp: dex_read_u32_def le32_def)

lemma entry_offset_at:
  assumes "unat table_off + unat idx * unat width < 2 ^ 32"
  shows "entry_offset table_off idx width label = Inr (unat table_off + unat idx * unat width)"
  using table_offset [OF assms] by (simp add: entry_offset_def)

lemma position_zero_append: "0 \<notin> set xs \<Longrightarrow> position_zero (xs @ 0 # ys) = Some (length xs)"
  by (induction xs) auto

lemma read_string_data_at:
  assumes "string_data_at (dp_data p) (unat off) s"
  shows "read_string_data p off = Inr s"
proof -
  from assms obtain n rest where s: "list_all scalar s"
    and d: "drop (unat off) (dp_data p) = encode_uleb128 n @ encode_mutf8 s @ 0 # rest"
    by (auto simp: string_data_at_def)
  from d have len: "unat off < length (dp_data p)"
    by (metis append_is_Nil_conv drop_eq_Nil list.discI not_le)
  let ?pre = "take (unat off) (dp_data p)"
  have data: "dp_data p = ?pre @ encode_uleb128 n @ encode_mutf8 s @ 0 # rest"
    using d by (metis append_take_drop_id)
  have pre: "length ?pre = unat off" using len by simp
  let ?q = "unat off + length (encode_uleb128 n)"
  have "read_uleb128 (dp_data p) (unat off) = Inr (n, ?q)"
    using read_encode_uleb128 [of ?pre n "encode_mutf8 s @ 0 # rest"] data pre by metis
  moreover have "slice_get (dp_data p) ?q (length (dp_data p)) = Some (encode_mutf8 s @ 0 # rest)"
  proof -
    have "drop ?q (dp_data p) = drop (length (encode_uleb128 n)) (drop (unat off) (dp_data p))"
      by (simp add: add.commute)
    then have "drop ?q (dp_data p) = encode_mutf8 s @ 0 # rest" by (simp add: d)
    moreover have "?q \<le> length (dp_data p)"
      using arg_cong [OF data, of length] pre by simp
    ultimately show ?thesis by (simp only: slice_get_tail)
  qed
  ultimately show ?thesis
    using len s
    by (simp add: read_string_data_def position_zero_append encode_mutf8_nonzero
        decode_encode_mutf8)
qed

lemma get_string_at:
  assumes "string_at p idx s" and "length (dp_data p) < 2 ^ 32"
  shows "get_string p idx = Inr s"
proof -
  let ?off = "unat (dh_string_ids_off (dp_header p)) + 4 * unat idx"
  from assms(1) obtain off where idx: "idx < dh_string_ids_size (dp_header p)"
    and off: "le32 (dp_data p) ?off = Some off" and s: "string_data_at (dp_data p) (unat off) s"
    by (auto simp: string_at_def)
  have "?off < 2 ^ 32" using le32_bound [OF off] assms(2) by linarith
  then have "entry_offset (dh_string_ids_off (dp_header p)) idx 4 label = Inr ?off" for label
    by (subst entry_offset_at) (simp_all add: mult.commute)
  with idx dex_read_u32_le32 [OF off] read_string_data_at [OF s] show ?thesis
    by (simp add: get_string_def not_le)
qed

lemma get_type_descriptor_at:
  assumes "type_at p idx t" and "length (dp_data p) < 2 ^ 32"
  shows "get_type_descriptor p idx = Inr t"
proof -
  let ?off = "unat (dh_type_ids_off (dp_header p)) + 4 * unat idx"
  from assms(1) obtain j where idx: "idx < dh_type_ids_size (dp_header p)"
    and j: "le32 (dp_data p) ?off = Some j" and t: "string_at p j t"
    by (auto simp: type_at_def)
  have "?off < 2 ^ 32" using le32_bound [OF j] assms(2) by linarith
  then have "entry_offset (dh_type_ids_off (dp_header p)) idx 4 label = Inr ?off" for label
    by (subst entry_offset_at) (simp_all add: mult.commute)
  with idx dex_read_u32_le32 [OF j] get_string_at [OF t assms(2)] show ?thesis
    by (simp add: get_type_descriptor_def not_le)
qed

lemma parameter_loop_at:
  assumes "types_at p (off + 4 + 2 * i) ts" and "off + 4 + 2 * (i + length ts) < 2 ^ 64"
    and "length (dp_data p) < 2 ^ 32"
  shows "parameter_loop p off i (length ts) = Inr ts"
  using assms
proof (induction ts arbitrary: i)
  case Nil
  then show ?case by simp
next
  case (Cons t ts)
  let ?o = "off + 4 + 2 * i"
  from Cons.prems obtain j :: u16 where j: "slice_get (dp_data p) ?o (?o + 2) = Some (le_bytes 2 j)"
    and t: "type_at p (ucast j) t" and ts: "types_at p (?o + 2) ts"
    by auto
  have "Option.bind (checked_usize_add off 4) (\<lambda>v. checked_usize_add v (i * 2)) = Some ?o"
    using Cons.prems by (simp add: checked_usize_add_def mult.commute)
  moreover have "le16 (le_bytes 2 j) 0 = ucast j" by (simp add: le16_def)
  moreover have "parameter_loop p off (i + 1) (length ts) = Inr ts"
    using Cons.prems ts by (intro Cons.IH) (simp_all add: algebra_simps)
  ultimately show ?case
    using j get_type_descriptor_at [OF t Cons.prems(3)] by simp
qed

lemma get_parameter_types_at:
  assumes "parameters_at p off ts" and "off \<noteq> 0" and "length (dp_data p) < 2 ^ 32"
  shows "get_parameter_types p off = Inr ts"
proof -
  from assms obtain n where n: "le32 (dp_data p) (unat off) = Some n" "unat n = length ts"
    and ts: "types_at p (unat off + 4 + 2 * 0) ts"
    by (auto simp: parameters_at_def)
  have "unat off < 2 ^ 32" and "unat n < 2 ^ 32" using unsigned_less [where 'a = nat and 'b = 32] by simp_all
  then have "unat off + 4 + 2 * (0 + length ts) < 2 ^ 64" using n(2) by simp
  from parameter_loop_at [OF ts this assms(3)] show ?thesis
    using dex_read_u32_le32 [OF n(1)] n(2) by (simp add: get_parameter_types_def)
qed

lemma get_proto_info_at:
  assumes "proto_at p idx proto" and "length (dp_data p) < 2 ^ 32"
  shows "get_proto_info p idx = Inr proto"
proof -
  let ?off = "unat (dh_proto_ids_off (dp_header p)) + 12 * unat idx"
  from assms(1) obtain shorty ret par :: u32 where idx: "idx < dh_proto_ids_size (dp_header p)"
    and item: "slice_get (dp_data p) ?off (?off + 12) =
        Some (le_bytes 4 shorty @ le_bytes 4 ret @ le_bytes 4 par)"
    and ret: "type_at p ret (pi_return_type proto)"
    and par: "parameters_at p par (pi_parameters proto)"
    by (auto simp: proto_at_def Let_def)
  have "?off < 2 ^ 32" using slice_get_bound [OF item] assms(2) by linarith
  then have "entry_offset (dh_proto_ids_off (dp_header p)) idx 12 label = Inr ?off" for label
    by (subst entry_offset_at) (simp_all add: mult.commute)
  moreover have "pi_parameters proto = []" if "par = 0"
    using par that by (simp add: parameters_at_def)
  moreover have "get_parameter_types p par = Inr (pi_parameters proto)" if "par \<noteq> 0"
    using get_parameter_types_at [OF par that assms(2)] .
  ultimately show ?thesis
    using idx item get_type_descriptor_at [OF ret assms(2)]
    by (cases proto, cases "par = 0") (simp_all add: get_proto_info_def not_le item_le32_def Let_def)
qed

lemma get_method_info_at:
  assumes "method_at p idx info" and "length (dp_data p) < 2 ^ 32"
  shows "get_method_info p idx = Inr info"
proof -
  let ?off = "unat (dh_method_ids_off (dp_header p)) + 8 * unat idx"
  from assms(1) obtain c pr :: u16 and nm :: u32 where
    idx: "idx < dh_method_ids_size (dp_header p)"
    and item: "slice_get (dp_data p) ?off (?off + 8) =
        Some (le_bytes 2 c @ le_bytes 2 pr @ le_bytes 4 nm)"
    and c: "type_at p (ucast c) (mi_class_name info)"
    and nm: "string_at p nm (mi_method_name info)"
    and pr: "proto_at p (ucast pr)
        \<lparr>pi_return_type = mi_return_type info, pi_parameters = mi_parameters info\<rparr>"
    by (auto simp: method_at_def Let_def)
  have "?off < 2 ^ 32" using slice_get_bound [OF item] assms(2) by linarith
  then have "entry_offset (dh_method_ids_off (dp_header p)) idx 8 label = Inr ?off" for label
    by (subst entry_offset_at) (simp_all add: mult.commute)
  with idx item get_type_descriptor_at [OF c assms(2)] get_string_at [OF nm assms(2)]
    get_proto_info_at [OF pr assms(2)]
  show ?thesis
    by (simp add: get_method_info_def not_le item_le32_def le16_def Let_def)
qed

section \<open>Errors\<close>

lemma get_method_info_index:
  "dh_method_ids_size (dp_header p) \<le> idx \<Longrightarrow>
     get_method_info p idx = Inl (IndexOutOfBounds ''method'' idx)"
  by (simp add: get_method_info_def)

text \<open>Whatever the file holds, a look-up that succeeds returns strings of Unicode scalars.\<close>

lemma read_string_data_scalar: "read_string_data p off = Inr s \<Longrightarrow> list_all scalar s"
  by (auto simp: read_string_data_def and_then_Inr decode_mutf8_scalar Let_def split: if_splits)

lemma get_string_scalar: "get_string p idx = Inr s \<Longrightarrow> list_all scalar s"
  by (auto simp: get_string_def and_then_Inr read_string_data_scalar split: if_splits)

lemma get_type_descriptor_scalar: "get_type_descriptor p idx = Inr s \<Longrightarrow> list_all scalar s"
  by (auto simp: get_type_descriptor_def and_then_Inr get_string_scalar split: if_splits)

lemma parameter_loop_scalar:
  "parameter_loop p off i n = Inr ts \<Longrightarrow> list_all (list_all scalar) ts \<and> length ts = n"
  by (induction p off i n arbitrary: ts rule: parameter_loop.induct)
    (auto simp: and_then_Inr get_type_descriptor_scalar)

end
