(* ===== verification/Dump_Handlers.thy ===== *)
theory Dump_Handlers
  imports Receiver_Inv Remote_Facts Native_Elf Java_Names Dex_Tables
begin

text \<open>
  The remaining handlers of \<^verbatim>\<open>DumpState\<close> in \<^verbatim>\<open>src/dump.rs\<close>: method events with the cache of
  method names, the fallback for pages the kernel side could not read, layout diagnostics,
  native buffers and JNI registrations, the dispatch of the seven rings, and the JSON file
  with the captured methods. Output to the console is left out.
\<close>

section \<open>Method names\<close>

fun digits_rev :: "nat \<Rightarrow> rust_string" where
  "digits_rev n = (0x30 + of_nat (n mod 10)) # (if n < 10 then [] else digits_rev (n div 10))"

declare digits_rev.simps [simp del]

definition decimal :: "nat \<Rightarrow> rust_string" where
  "decimal n = rev (digits_rev n)"

definition unresolved_name :: "u32 \<Rightarrow> rust_string" where
  "unresolved_name idx = str_lit ''method_idx_'' @ decimal (unat idx)"

text \<open>The name as the DEX gives it.\<close>

definition resolve_name :: "u8 list option \<Rightarrow> u32 \<Rightarrow> rust_string" where
  "resolve_name dex idx =
     (case dex of None \<Rightarrow> unresolved_name idx
      | Some input \<Rightarrow>
          (case dex_parser_new input of Inl _ \<Rightarrow> unresolved_name idx
           | Inr header \<Rightarrow>
               (case get_method_info \<lparr>dp_data = input, dp_header = header\<rparr> idx of
                  Inl _ \<Rightarrow> unresolved_name idx
                | Inr info \<Rightarrow> pretty_method info)))"

definition method_name :: "u32 \<Rightarrow> u64 \<Rightarrow> u32 \<Rightarrow> dump_state \<Rightarrow> rust_string \<times> dump_state" where
  "method_name pid b idx st =
     (case method_sig_cache st (pid, b, idx) of
        Some cached \<Rightarrow> (cached, st)
      | None \<Rightarrow>
          (let name = resolve_name (dex_cache st (pid, b)) idx
           in (name, st\<lparr>method_sig_cache := (method_sig_cache st)((pid, b, idx) \<mapsto> name)\<rparr>)))"

section \<open>Handlers\<close>

text \<open>
  What one record finds: the other process, the stop flag, whether more than a second has
  passed since the budget of native buffers was refilled, and which ELF files can be written.
\<close>

record world =
  w_remote :: remote
  w_running :: bool
  w_second_passed :: bool
  w_write_elf_ok :: "u32 \<Rightarrow> u64 \<Rightarrow> u64 \<Rightarrow> bool"

record scan_conf =
  sc_native_buffer_scan :: bool
  sc_native_elf_scan :: bool

definition push_record :: "dex_id \<Rightarrow> method_code_record \<Rightarrow> dump_state \<Rightarrow> dump_state" where
  "push_record key r st = st\<lparr>method_records := (method_records st)(key \<mapsto>
     (case method_records st key of None \<Rightarrow> [] | Some rs \<Rightarrow> rs) @ [r])\<rparr>"

definition handle_method_event :: "host \<Rightarrow> u8 list \<Rightarrow> dump_state \<Rightarrow> dump_state" where
  "handle_method_event h xs st =
     (case parse_method_event xs of None \<Rightarrow> st
      | Some hdr \<Rightarrow>
          (let bytecode = method_event_bytecode xs hdr; key = (me_pid hdr, me_begin hdr);
               st1 = observe_dex (me_pid hdr) (me_begin hdr) (me_size hdr) st
           in if key \<in> ambiguous_dex st1 then st1
              else case method_name (me_pid hdr) (me_begin hdr) (me_method_index hdr) st1 of
                (name, st2) \<Rightarrow>
                  if bytecode \<noteq> []
                  then push_record key \<lparr>mcr_name = name, mcr_method_idx = me_method_index hdr,
                         mcr_code = h_hex_encode h bytecode\<rparr> st2
                  else st2))"

text \<open>
  The part of \<^verbatim>\<open>handle_read_failure\<close> that brings the buffer to the size of the DEX header:
  the bytes and \<^verbatim>\<open>out_size\<close>.
\<close>

definition fit_to_header :: "remote \<Rightarrow> u32 \<Rightarrow> u64 \<Rightarrow> u8 list \<Rightarrow> u8 list \<times> u32" where
  "fit_to_header rm pid b buf =
     (let out_size = of_nat (length buf)
      in if 0x24 \<le> length buf \<and> starts_with buf dex_magic then
           (case le32 buf 0x20 of
              None \<Rightarrow> (buf, out_size)
            | Some hdr_size \<Rightarrow>
                if \<not> file_size_ok hdr_size then (buf, out_size)
                else if hdr_size \<le> of_nat (length buf)
                then (take (unat hdr_size) buf, hdr_size)
                else
                  (let need = unat hdr_size - length buf
                   in case read_remote_range rm pid (b + of_nat (length buf)) (of_nat need) of
                        (extra, extra_got) \<Rightarrow>
                          if need \<le> extra_got then (buf @ take need extra, hdr_size)
                          else (buf, out_size)))
         else (buf, out_size))"

definition handle_read_failure :: "host \<Rightarrow> world \<Rightarrow> u8 list \<Rightarrow> dump_state \<Rightarrow> dump_state" where
  "handle_read_failure h w xs st =
     (case parse_read_failure xs of None \<Rightarrow> st
      | Some evt \<Rightarrow>
          if \<not> w_running w then st
          else
            (let b = drf_begin evt AND 0x00ffffffffffffff; pid = drf_pid evt; sz = drf_size evt
             in if \<not> file_size_ok sz then st
                else
                  (let st1 = observe_dex pid b sz st
                   in if dex_cache st1 (pid, b) \<noteq> None \<or> (pid, b) \<in> ambiguous_dex st1 then st1
                      else case read_remote_range (w_remote w) pid b sz of
                        (buf, got) \<Rightarrow>
                          if got = 0 then st1
                          else case fit_to_header (w_remote w) pid b
                                      (if got < unat sz then take got buf else buf) of
                            (bytes, out_size) \<Rightarrow>
                              save_dex h (Some pid) b out_size bytes
                                (st1\<lparr>pending_dex := (pending_dex st1)((pid, b) := None)\<rparr>))))"

definition layout_identity :: "layout_debug_event_t \<Rightarrow> u64" where
  "layout_identity evt =
     (if lde_begin evt \<noteq> 0 then lde_begin evt
      else if lde_code_item_ptr evt \<noteq> 0 then lde_code_item_ptr evt
      else lde_art_method_ptr evt)"

definition handle_layout_debug_event :: "host \<Rightarrow> world \<Rightarrow> u8 list \<Rightarrow> dump_state \<Rightarrow> dump_state" where
  "handle_layout_debug_event h w xs st =
     (case parse_layout_debug xs of None \<Rightarrow> st
      | Some evt \<Rightarrow>
          if \<not> w_running w then st
          else
            (let key = (lde_pid evt, layout_identity evt, lde_reason evt, lde_source evt)
             in if key \<in> layout_events_seen st then st
                else
                  (let st1 = st\<lparr>layout_events_seen := insert key (layout_events_seen st)\<rparr>
                   in if lde_code_item_ptr evt = 0 then st1
                      else case dump_dex_from_code_item (w_remote w) (lde_pid evt)
                                  (lde_code_item_ptr evt) of
                        Inr (Some (b, sz, bytes)) \<Rightarrow> save_dex h (Some (lde_pid evt)) b sz bytes st1
                      | _ \<Rightarrow> st1)))"

fun save_found :: "host \<Rightarrow> u32 \<Rightarrow> found_dex list \<Rightarrow> dump_state \<Rightarrow> dump_state" where
  "save_found h pid [] st = st"
| "save_found h pid ((b, sz, bytes) # found) st =
     save_found h pid found (save_dex h (Some pid) b sz bytes st)"

definition save_native_elf :: "world \<Rightarrow> u32 \<Rightarrow> u64 \<Rightarrow> u64 \<Rightarrow> u8 list \<Rightarrow> dump_state \<Rightarrow> dump_state" where
  "save_native_elf w pid base sz bytes st =
     (if (pid, base) \<in> native_elf_cache st then st
      else let st1 = st\<lparr>native_elf_cache := insert (pid, base) (native_elf_cache st)\<rparr>
           in if w_write_elf_ok w pid base sz
              then st1\<lparr>elf_files := elf_files st1 @ [((pid, base, sz), bytes)]\<rparr> else st1)"

text \<open>What is done with the results of the two searches.\<close>

definition save_buffer_dex ::
  "host \<Rightarrow> u32 \<Rightarrow> dump_state \<Rightarrow> string + found_dex list \<Rightarrow> dump_state" where
  "save_buffer_dex h pid st r = (case r of Inr found \<Rightarrow> save_found h pid found st | Inl _ \<Rightarrow> st)"

definition save_buffer_elf ::
  "world \<Rightarrow> u32 \<Rightarrow> dump_state \<Rightarrow> string + (u64 \<times> u64 \<times> u8 list) option \<Rightarrow> dump_state" where
  "save_buffer_elf w pid st r =
     (case r of Inr (Some (base, sz, bytes)) \<Rightarrow> save_native_elf w pid base sz bytes st | _ \<Rightarrow> st)"

text \<open>
  \<open>None\<close> is a handler that does not return (see \<open>native_scan_diverges\<close>).
\<close>

definition handle_native_buffer_event ::
  "host \<Rightarrow> scan_conf \<Rightarrow> world \<Rightarrow> u8 list \<Rightarrow> dump_state \<Rightarrow> dump_state option" where
  "handle_native_buffer_event h conf w xs st =
     (case parse_native_buffer xs of None \<Rightarrow> Some st
      | Some evt \<Rightarrow>
          if \<not> w_running w then Some st
          else
            (let budget = (if w_second_passed w then 200 else native_buffer_budget st)
             in if budget = 0 then Some st
                else
                  (let st1 = st\<lparr>native_buffer_budget := budget - 1\<rparr>;
                       after_dex =
                         (if sc_native_buffer_scan conf then
                            map_option (save_buffer_dex h (nbe_pid evt) st1)
                              (dump_dex_from_native_buffer (w_remote w) (nbe_pid evt) (nbe_addr evt)
                                 (nbe_size evt))
                          else Some st1)
                   in Option.bind after_dex (\<lambda>st2.
                        if sc_native_elf_scan conf \<and> may_contain_executable_mapping evt then
                          map_option (save_buffer_elf w (nbe_pid evt) st2)
                            (dump_native_elf_from_event (w_remote w) (nbe_pid evt) (nbe_addr evt)
                               (nbe_size evt))
                        else Some st2))))"

definition handle_jni_event :: "u8 list \<Rightarrow> dump_state \<Rightarrow> dump_state" where
  "handle_jni_event xs st =
     (case parse_jni_method xs of None \<Rightarrow> st
      | Some evt \<Rightarrow> if jm_name evt = [] then st else st\<lparr>jni_methods := jni_methods st @ [evt]\<rparr>)"

section \<open>The dispatch of the rings\<close>

datatype ring_record = Dex_rec "u8 list" | Chunk_rec "u8 list" | Method_rec "u8 list"
  | Failure_rec "u8 list" | Layout_rec "u8 list" | Native_rec "u8 list" | Jni_rec "u8 list"

fun handle_any :: "host \<Rightarrow> scan_conf \<Rightarrow> world \<Rightarrow> ring_record \<Rightarrow> dump_state \<Rightarrow> dump_state option" where
  "handle_any h conf w (Dex_rec xs) st = Some (handle_dex_event xs st)"
| "handle_any h conf w (Chunk_rec xs) st = Some (handle_dex_chunk h xs st)"
| "handle_any h conf w (Method_rec xs) st = Some (handle_method_event h xs st)"
| "handle_any h conf w (Failure_rec xs) st = Some (handle_read_failure h w xs st)"
| "handle_any h conf w (Layout_rec xs) st = Some (handle_layout_debug_event h w xs st)"
| "handle_any h conf w (Native_rec xs) st = handle_native_buffer_event h conf w xs st"
| "handle_any h conf w (Jni_rec xs) st = Some (handle_jni_event xs st)"

section \<open>The JSON file\<close>

text \<open>
  \<open>flush_json\<close> takes all records and writes one file per DEX; the result maps the identity in
  the file name (process, address, length of the DEX) to the records in it. A write that
  fails ends the source's loop with an error; the model is the successful run.
\<close>

definition json_file :: "dump_state \<Rightarrow> dex_id \<Rightarrow> ((u32 \<times> u64 \<times> u32) \<times> method_code_record list) option" where
  "json_file st key =
     (case method_records st key of None \<Rightarrow> None
      | Some rs \<Rightarrow>
          if key \<in> ambiguous_dex st then None
          else if rs = [] then None
          else (case dex_cache st key of None \<Rightarrow> None
                | Some dex \<Rightarrow> Some ((fst key, snd key, of_nat (length dex)), rs)))"

definition flush_json :: "dump_state \<Rightarrow>
    (dex_id \<Rightarrow> ((u32 \<times> u64 \<times> u32) \<times> method_code_record list) option) \<times> dump_state" where
  "flush_json st = (json_file st, st\<lparr>method_records := (\<lambda>_. None)\<rparr>)"

end
