(* ===== verification/Handler_Facts.thy ===== *)
theory Handler_Facts
  imports Dump_Handlers
begin

text \<open>
  What the handlers keep and do: an invariant of the whole user-space state under every
  record of every ring (\<open>dump_inv\<close>), the names of captured methods, and the outcome of the
  read-failure fallback.
\<close>

section \<open>The invariant\<close>

text \<open>A cached method name is the one the DEX in the cache gives.\<close>

definition names_coherent :: "dump_state \<Rightarrow> bool" where
  "names_coherent st \<longleftrightarrow> (\<forall>p b i name. method_sig_cache st (p, b, i) = Some name \<longrightarrow>
     name = resolve_name (dex_cache st (p, b)) i)"

definition any_file :: "dex_file \<Rightarrow> u8 list \<Rightarrow> bool" where
  "any_file f bytes \<longleftrightarrow> True"

definition dump_inv :: "dump_state \<Rightarrow> bool" where
  "dump_inv st \<longleftrightarrow> recv_inv any_file st \<and> names_coherent st \<and> native_buffer_budget st \<le> 200"

text \<open>Fields the DEX bookkeeping does not touch.\<close>

lemma quarantine_budget [simp]:
  "native_buffer_budget (quarantine_dex p b st) = native_buffer_budget st"
  by (simp add: quarantine_dex_def)

lemma observe_budget [simp]:
  "native_buffer_budget (observe_dex p b z st) = native_buffer_budget st"
  by (simp add: observe_dex_def Let_def split: option.split)

lemma save_budget [simp]:
  "native_buffer_budget (save_dex h p b z bytes st) = native_buffer_budget st"
  by (simp add: save_dex_def Let_def split: option.split)

lemma chunk_budget [simp]:
  "native_buffer_budget (handle_dex_chunk h xs st) = native_buffer_budget st"
  by (simp add: handle_dex_chunk_def Let_def split: option.split)

lemma event_budget [simp]:
  "native_buffer_budget (handle_dex_event xs st) = native_buffer_budget st"
  by (simp add: handle_dex_event_def split: option.split)

text \<open>Coherence of the names under the DEX bookkeeping.\<close>

lemma names_drop:
  "names_coherent st \<Longrightarrow> method_sig_cache st' = drop_sigs key (method_sig_cache st) \<Longrightarrow>
     (\<And>k. k \<noteq> key \<Longrightarrow> dex_cache st' k = dex_cache st k) \<Longrightarrow> names_coherent st'"
  by (auto simp: names_coherent_def drop_sigs_def split: if_splits)

lemma names_same:
  "names_coherent st \<Longrightarrow> method_sig_cache st' = method_sig_cache st \<Longrightarrow>
     dex_cache st' = dex_cache st \<Longrightarrow> names_coherent st'"
  by (simp add: names_coherent_def)

lemma quarantine_names: "names_coherent st \<Longrightarrow> names_coherent (quarantine_dex p b st)"
  by (rule names_drop [where st = st and key = "(p, b)"]) (simp_all add: quarantine_dex_def)

lemma observe_names: "names_coherent st \<Longrightarrow> names_coherent (observe_dex p b z st)"
proof -
  assume n: "names_coherent st"
  then have "names_coherent (st\<lparr>dex_sizes := (dex_sizes st)((p, b) \<mapsto> z)\<rparr>)"
    by (rule names_same) simp_all
  with n show ?thesis
    by (simp add: observe_dex_def Let_def quarantine_names split: option.split)
qed

lemma names_saved:
  "names_coherent st \<Longrightarrow> names_coherent (st\<lparr>pending_dex := pd,
     method_sig_cache := drop_sigs key (method_sig_cache st),
     dex_cache := (dex_cache st)(key \<mapsto> bytes), files := fs\<rparr>)"
  by (rule names_drop [where st = st and key = key]) simp_all

lemma save_names:
  assumes "names_coherent st"
  shows "names_coherent (save_dex h p b z bytes st)"
proof (cases p)
  case None
  with assms show ?thesis by (simp add: save_dex_def)
next
  case (Some pid)
  note observed = observe_names [OF assms, of pid b z]
  note quarantined = quarantine_names [OF observed, of pid b]
  show ?thesis
    unfolding save_dex_def Let_def Some option.case
    by (simp only: assms observed quarantined names_saved [OF observed]
        names_saved [OF quarantined] split: option.split if_split) simp
qed

lemma names_pending: "names_coherent st \<Longrightarrow> names_coherent (st\<lparr>pending_dex := pd\<rparr>)"
  by (rule names_same) simp_all

lemma chunk_names: "names_coherent st \<Longrightarrow> names_coherent (handle_dex_chunk h xs st)"
  by (simp add: handle_dex_chunk_def Let_def observe_names quarantine_names save_names names_pending
      split: option.split)

lemma event_names: "names_coherent st \<Longrightarrow> names_coherent (handle_dex_event xs st)"
  by (simp add: handle_dex_event_def observe_names split: option.split)

text \<open>The invariant under the DEX bookkeeping.\<close>

lemma any_file_all [simp]: "any_file f bytes"
  by (simp add: any_file_def)

lemma observe_inv: "dump_inv st \<Longrightarrow> dump_inv (observe_dex p b z st)"
  by (simp add: dump_inv_def observe_recv_inv observe_names)

lemma save_inv: "dump_inv st \<Longrightarrow> dump_inv (save_dex h p b z bytes st)"
  by (simp add: dump_inv_def save_dex_recv_inv save_names)

text \<open>Fields outside the invariant, and the reassembly state that is thrown away.\<close>

lemma dump_inv_frame:
  "dump_inv st \<Longrightarrow> files st' = files st \<Longrightarrow> dex_cache st' = dex_cache st \<Longrightarrow>
     pending_dex st' = pending_dex st \<Longrightarrow> dex_sizes st' = dex_sizes st \<Longrightarrow>
     method_sig_cache st' = method_sig_cache st \<Longrightarrow> native_buffer_budget st' \<le> 200 \<Longrightarrow> dump_inv st'"
  by (simp add: dump_inv_def recv_inv_def files_inv_def pending_inv_def names_coherent_def)

lemma drop_pending_inv: "dump_inv st \<Longrightarrow> dump_inv (st\<lparr>pending_dex := (pending_dex st)(k := None)\<rparr>)"
  by (auto simp: dump_inv_def recv_inv_def files_inv_def pending_inv_def names_coherent_def)

section \<open>Every handler keeps the invariant\<close>

lemma method_name_inv:
  assumes "dump_inv st"
  shows "dump_inv (snd (method_name p b idx st))"
proof (cases "method_sig_cache st (p, b, idx)")
  case None
  with assms show ?thesis
    by (auto simp: method_name_def dump_inv_def recv_inv_def files_inv_def pending_inv_def
        names_coherent_def Let_def)
qed (use assms in \<open>simp add: method_name_def\<close>)

lemma push_record_inv: "dump_inv st \<Longrightarrow> dump_inv (push_record key r st)"
  unfolding push_record_def by (rule dump_inv_frame) (simp_all add: dump_inv_def)

lemma handle_method_event_inv:
  assumes "dump_inv st"
  shows "dump_inv (handle_method_event h xs st)"
proof (cases "parse_method_event xs")
  case (Some hdr)
  let ?st1 = "observe_dex (me_pid hdr) (me_begin hdr) (me_size hdr) st"
  let ?r = "method_name (me_pid hdr) (me_begin hdr) (me_method_index hdr) ?st1"
  have "dump_inv ?st1" by (rule observe_inv [OF assms])
  moreover have "dump_inv (snd ?r)" by (rule method_name_inv [OF observe_inv [OF assms]])
  ultimately show ?thesis
    by (cases ?r) (simp add: handle_method_event_def Some Let_def push_record_inv)
qed (use assms in \<open>simp add: handle_method_event_def\<close>)

lemma handle_read_failure_inv:
  assumes "dump_inv st"
  shows "dump_inv (handle_read_failure h w xs st)"
proof (cases "parse_read_failure xs")
  case (Some evt)
  let ?b = "drf_begin evt AND 0x00ffffffffffffff"
  let ?st1 = "observe_dex (drf_pid evt) ?b (drf_size evt) st"
  have "dump_inv ?st1" by (rule observe_inv [OF assms])
  moreover from this have "dump_inv (save_dex h p b z bytes
      (?st1\<lparr>pending_dex := (pending_dex ?st1)(k := None)\<rparr>))" for p b z bytes k
    by (intro save_inv drop_pending_inv)
  ultimately show ?thesis
    using assms by (simp add: handle_read_failure_def Some Let_def split: prod.split)
qed (use assms in \<open>simp add: handle_read_failure_def\<close>)

lemma handle_layout_debug_event_inv:
  assumes "dump_inv st"
  shows "dump_inv (handle_layout_debug_event h w xs st)"
proof -
  have "dump_inv (st\<lparr>layout_events_seen := s\<rparr>)" for s
    by (rule dump_inv_frame [OF assms]) (use assms in \<open>simp_all add: dump_inv_def\<close>)
  with assms save_inv show ?thesis
    by (simp add: handle_layout_debug_event_def Let_def split: option.split sum.split)
qed

lemma save_found_inv: "dump_inv st \<Longrightarrow> dump_inv (save_found h pid found st)"
  by (induction h pid found st rule: save_found.induct) (simp_all add: save_inv)

lemma save_native_elf_inv:
  assumes "dump_inv st"
  shows "dump_inv (save_native_elf w pid base sz bytes st)"
proof -
  have "native_buffer_budget st \<le> 200" using assms by (simp add: dump_inv_def)
  then show ?thesis
    using assms by (auto simp: save_native_elf_def Let_def intro: dump_inv_frame [OF assms])
qed

lemma save_buffer_dex_inv: "dump_inv st \<Longrightarrow> dump_inv (save_buffer_dex h pid st r)"
  by (simp add: save_buffer_dex_def save_found_inv split: sum.split)

lemma save_buffer_elf_inv: "dump_inv st \<Longrightarrow> dump_inv (save_buffer_elf w pid st r)"
  by (simp add: save_buffer_elf_def save_native_elf_inv split: sum.split option.split)

lemma handle_native_buffer_event_inv:
  assumes inv: "dump_inv st" and run: "handle_native_buffer_event h conf w xs st = Some st'"
  shows "dump_inv st'"
proof -
  have st1: "dump_inv (st\<lparr>native_buffer_budget := n\<rparr>)" if "n \<le> 200" for n
    by (rule dump_inv_frame [OF inv]) (simp_all add: that)
  have "native_buffer_budget st - n \<le> 200" for n using inv by (auto simp: dump_inv_def)
  with run inv show ?thesis
    by (auto simp: handle_native_buffer_event_def Let_def bind_eq_Some_conv
        intro!: save_buffer_dex_inv save_buffer_elf_inv st1 split: option.splits if_splits)
qed

lemma handle_jni_event_inv: "dump_inv st \<Longrightarrow> dump_inv (handle_jni_event xs st)"
  by (auto simp: handle_jni_event_def dump_inv_def recv_inv_def files_inv_def pending_inv_def
      names_coherent_def split: option.split)

lemma handle_any_inv:
  assumes "dump_inv st" and "handle_any h conf w r st = Some st'"
  shows "dump_inv st'"
proof (cases r)
  case (Dex_rec xs)
  with assms show ?thesis
    by (auto simp: dump_inv_def handle_dex_event_recv_inv event_names)
next
  case (Chunk_rec xs)
  with assms show ?thesis
    by (auto simp: dump_inv_def handle_dex_chunk_recv_inv chunk_names)
qed (use assms in \<open>auto simp: handle_method_event_inv handle_read_failure_inv
    handle_layout_debug_event_inv handle_jni_event_inv intro: handle_native_buffer_event_inv\<close>)

lemma dump_inv_new: "dump_inv dump_state_new"
  using recv_inv_new by (simp add: dump_inv_def names_coherent_def dump_state_new_def)

text \<open>A run: records with what each of them finds; \<open>None\<close> once a handler does not return.\<close>

fun handle_all :: "host \<Rightarrow> scan_conf \<Rightarrow> (world \<times> ring_record) list \<Rightarrow> dump_state \<Rightarrow> dump_state option" where
  "handle_all h conf [] st = Some st"
| "handle_all h conf ((w, r) # rs) st = Option.bind (handle_any h conf w r st) (handle_all h conf rs)"

lemma handle_all_inv:
  "dump_inv st \<Longrightarrow> handle_all h conf rs st = Some st' \<Longrightarrow> dump_inv st'"
proof (induction h conf rs st rule: handle_all.induct)
  case (2 h conf w r rs st)
  then show ?case by (auto simp: bind_eq_Some_conv dest: handle_any_inv)
qed simp

section \<open>After the captures are sealed\<close>

text \<open>What sealing protects: the DEX files and the cache.\<close>

definition sealed_like :: "dump_state \<Rightarrow> dump_state \<Rightarrow> bool" where
  "sealed_like st st' \<longleftrightarrow> captures_sealed st' \<and> files st' = files st \<and> dex_cache st' = dex_cache st"

lemma sealed_like_refl: "captures_sealed st \<Longrightarrow> sealed_like st st"
  by (simp add: sealed_like_def)

lemma sealed_like_trans: "sealed_like a b \<Longrightarrow> sealed_like b c \<Longrightarrow> sealed_like a c"
  by (simp add: sealed_like_def)

lemma save_dex_sealed: "captures_sealed st \<Longrightarrow> save_dex h p b z bytes st = st"
  by (simp add: save_dex_def)

lemma save_found_sealed: "captures_sealed st \<Longrightarrow> save_found h pid found st = st"
  by (induction h pid found st rule: save_found.induct) (simp_all add: save_dex_sealed)

lemma dex_handlers_sealed:
  assumes "captures_sealed st"
  shows "sealed_like st (handle_dex_event xs st)" and "sealed_like st (handle_dex_chunk h xs st)"
proof -
  show "sealed_like st (handle_dex_event xs st)"
    using assms by (simp add: sealed_like_def handle_dex_event_def split: option.split)
  show "sealed_like st (handle_dex_chunk h xs st)"
    using assms
    by (simp add: sealed_like_def handle_dex_chunk_def Let_def save_dex_sealed split: option.split)
qed

lemma method_name_frame:
  "captures_sealed (snd (method_name p b i st)) = captures_sealed st"
  "files (snd (method_name p b i st)) = files st"
  "dex_cache (snd (method_name p b i st)) = dex_cache st"
  by (simp_all add: method_name_def Let_def split: option.split)

lemma method_handler_sealed:
  assumes "captures_sealed st"
  shows "sealed_like st (handle_method_event h xs st)"
proof (cases "parse_method_event xs")
  case (Some hdr)
  let ?st1 = "observe_dex (me_pid hdr) (me_begin hdr) (me_size hdr) st"
  obtain name st2 where r: "method_name (me_pid hdr) (me_begin hdr) (me_method_index hdr) ?st1 = (name, st2)"
    by fastforce
  from method_name_frame [of "me_pid hdr" "me_begin hdr" "me_method_index hdr" ?st1] r assms
  have "sealed_like st st2" by (simp add: sealed_like_def)
  with assms show ?thesis
    unfolding handle_method_event_def Some option.case Let_def r prod.case
    by (simp add: sealed_like_def push_record_def)
qed (use assms in \<open>simp add: handle_method_event_def sealed_like_def\<close>)

lemma failure_handler_sealed:
  "captures_sealed st \<Longrightarrow> sealed_like st (handle_read_failure h w xs st)"
  by (simp add: sealed_like_def handle_read_failure_def Let_def save_dex_sealed
      split: option.split prod.split)

lemma layout_handler_sealed:
  "captures_sealed st \<Longrightarrow> sealed_like st (handle_layout_debug_event h w xs st)"
  by (simp add: sealed_like_def handle_layout_debug_event_def Let_def save_dex_sealed
      split: option.split sum.split)

lemma save_native_elf_sealed:
  "captures_sealed st \<Longrightarrow> sealed_like st (save_native_elf w pid base sz bytes st)"
  by (simp add: sealed_like_def save_native_elf_def Let_def)

lemma buffer_savers_sealed:
  assumes "captures_sealed st"
  shows "sealed_like st (save_buffer_dex h pid st r)" and "sealed_like st (save_buffer_elf w pid st q)"
proof -
  show "sealed_like st (save_buffer_dex h pid st r)"
    using assms by (simp add: sealed_like_def save_buffer_dex_def save_found_sealed split: sum.split)
  show "sealed_like st (save_buffer_elf w pid st q)"
    using assms save_native_elf_sealed [OF assms]
    by (simp add: save_buffer_elf_def sealed_like_def split: sum.split option.split)
qed

lemma native_handler_sealed:
  assumes "captures_sealed st" and "handle_native_buffer_event h conf w xs st = Some st'"
  shows "sealed_like st st'"
proof -
  have budget: "sealed_like st (st\<lparr>native_buffer_budget := n\<rparr>)" for n
    using assms(1) by (simp add: sealed_like_def)
  have dex: "sealed_like st (save_buffer_dex h pid (st\<lparr>native_buffer_budget := n\<rparr>) r)" for n pid r
    using buffer_savers_sealed(1) [of "st\<lparr>native_buffer_budget := n\<rparr>" h pid r] assms(1)
    by (simp add: sealed_like_def)
  have elf: "sealed_like st (save_buffer_elf w pid s r)" if "sealed_like st s" for pid s r
    using buffer_savers_sealed(2) [of s w pid r] that by (simp add: sealed_like_def)
  from assms show ?thesis
    by (auto simp: handle_native_buffer_event_def Let_def bind_eq_Some_conv
        intro!: elf dex budget sealed_like_refl split: option.splits if_splits)
qed

lemma handle_any_sealed:
  assumes "captures_sealed st" and "handle_any h conf w r st = Some st'"
  shows "sealed_like st st'"
proof (cases r)
  case (Jni_rec xs)
  with assms show ?thesis
    by (auto simp: handle_jni_event_def sealed_like_def split: option.splits)
qed (use assms dex_handlers_sealed method_handler_sealed failure_handler_sealed
    layout_handler_sealed in \<open>auto intro: native_handler_sealed\<close>)

lemma handle_all_sealed:
  "captures_sealed st \<Longrightarrow> handle_all h conf rs st = Some st' \<Longrightarrow> sealed_like st st'"
proof (induction h conf rs st rule: handle_all.induct)
  case (1 h conf st)
  then show ?case by (simp add: sealed_like_def)
next
  case (2 h conf w r rs st)
  then obtain s where s: "handle_any h conf w r st = Some s" "handle_all h conf rs s = Some st'"
    by (auto simp: bind_eq_Some_conv)
  from handle_any_sealed [OF 2(2) s(1)] have "sealed_like st s" .
  with 2(1) [of s] s sealed_like_trans show ?case by (auto simp: sealed_like_def)
qed

section \<open>A buffer that is never left\<close>

lemma native_handler_hangs:
  assumes conf: "sc_native_buffer_scan conf" and run: "w_running w"
    and budget: "0 < native_buffer_budget st"
    and alive: "\<And>p. rm_running (w_remote w) p"
    and range: "0x70 \<le> unat (min (nbe_size d) NATIVE_BUFFER_SCAN_LIMIT)"
      "unat (nbe_addr d) + unat (min (nbe_size d) NATIVE_BUFFER_SCAN_LIMIT) < 2 ^ 64"
    and top: "2 ^ 64 \<le> unat (nbe_addr d) + 0x1000"
    and unread: "rm_readv (w_remote w) (nbe_pid d) (nbe_addr d) 0x70 = None"
  shows "handle_native_buffer_event h conf w (image ex (Native_buffer d)) st = None"
proof -
  let ?len = "min (nbe_size d) NATIVE_BUFFER_SCAN_LIMIT"
  have nz: "nbe_addr d \<noteq> 0" using top by auto
  have sz: "nbe_size d \<noteq> 0" using range(1) by (auto simp: min_def split: if_splits)
  have stop: "unat (nbe_addr d + ?len) = unat (nbe_addr d) + unat ?len"
    by (rule no_wrap_add [OF range(2)])
  have "native_scan (w_remote w) (nbe_pid d) (nbe_addr d + ?len) (nbe_addr d) [] = None"
    by (rule native_scan_diverges) (use range(1) top alive stop in simp_all)
  moreover have "checked_u64_add (nbe_addr d) ?len = Some (nbe_addr d + ?len)"
    using range(2) by (simp add: checked_u64_add_def)
  moreover have "read_remote_mem (w_remote w) (nbe_pid d) (nbe_addr d) 0x70 = None"
    using unread by (simp add: read_remote_mem_def)
  ultimately have "dump_dex_from_native_buffer (w_remote w) (nbe_pid d) (nbe_addr d) (nbe_size d) = None"
    using nz sz by (simp add: dump_dex_from_native_buffer_def scan_native_range_for_dex_def Let_def)
  with conf run budget show ?thesis
    unfolding handle_native_buffer_event_def parse_native_buffer_image option.case Let_def
    by simp
qed

end
