(* ===== verification/Method_Records.thy ===== *)
theory Method_Records
  imports Handler_Facts Reassembly
begin

text \<open>
  From the record of a traced method to the entry in the JSON file: the name comes from the
  tables of the DEX in the cache, the code is the hexadecimal form of the captured bytes.
\<close>

section \<open>The record of a method event\<close>

text \<open>The DEX \<open>D\<close> describes the method \<open>idx\<close> as \<open>info\<close>.\<close>

definition describes :: "u8 list \<Rightarrow> u32 \<Rightarrow> method_info \<Rightarrow> bool" where
  "describes D idx info \<longleftrightarrow> length D < 2 ^ 32 \<and>
     (\<exists>header. dex_parser_new D = Inr header \<and>
        method_at \<lparr>dp_data = D, dp_header = header\<rparr> idx info)"

lemma resolve_name_describes:
  "describes D idx info \<Longrightarrow> resolve_name (Some D) idx = pretty_method info"
  by (auto simp: describes_def resolve_name_def get_method_info_at)

lemma method_name_coherent:
  assumes "names_coherent st"
  shows "fst (method_name p b idx st) = resolve_name (dex_cache st (p, b)) idx"
    and "method_records (snd (method_name p b idx st)) = method_records st"
  using assms by (auto simp: method_name_def names_coherent_def Let_def split: option.split)

lemma method_event_bytecode_image:
  assumes "parse_method_event (image ex (Method_event d code)) = Some hdr"
    and "length code = unat (med_codeitem_size d)" and "code \<noteq> []"
  shows "method_event_bytecode (image ex (Method_event d code)) hdr = code"
proof -
  have "0 < med_codeitem_size d" using assms(2,3) by (auto simp: word_gt_0)
  moreover have "me_codeitem_size hdr = med_codeitem_size d"
    using assms(1) unfolding parse_method_event_image by auto
  ultimately show ?thesis
    using assms(2) by (simp add: method_event_bytecode_def slice_get_def)
qed

definition records_of :: "dump_state \<Rightarrow> dex_id \<Rightarrow> method_code_record list" where
  "records_of st key = (case method_records st key of None \<Rightarrow> [] | Some rs \<Rightarrow> rs)"

lemma method_event_records:
  assumes inv: "names_coherent st" and amb: "(med_pid d, med_begin d) \<notin> ambiguous_dex st"
    and sz: "dex_sizes st (med_pid d, med_begin d) \<in> {None, Some (med_size d)}"
    and range: "size_in_range (med_size d)"
    and code: "length code = unat (med_codeitem_size d)" "code \<noteq> []"
    and D: "dex_cache st (med_pid d, med_begin d) = Some D"
    and desc: "describes D (med_method_index d) info"
  shows "records_of (handle_method_event h (image ex (Method_event d code)) st) (med_pid d, med_begin d) =
    records_of st (med_pid d, med_begin d) @ [\<lparr>mcr_name = pretty_method info,
      mcr_method_idx = med_method_index d, mcr_code = h_hex_encode h code\<rparr>]"
proof -
  let ?key = "(med_pid d, med_begin d)"
  let ?st1 = "observe_dex (med_pid d) (med_begin d) (med_size d) st"
  have obs: "?st1 = st\<lparr>dex_sizes := (dex_sizes st)(?key \<mapsto> med_size d)\<rparr>"
    using sz range by (auto simp: observe_dex_def)
  have coh: "names_coherent ?st1" by (rule observe_names [OF inv])
  obtain name st2 where r: "method_name (med_pid d) (med_begin d) (med_method_index d) ?st1 = (name, st2)"
    by fastforce
  with method_name_coherent [OF coh, of "med_pid d" "med_begin d" "med_method_index d"] D
    resolve_name_describes [OF desc]
  have name: "name = pretty_method info" and recs: "method_records st2 = method_records ?st1"
    by simp_all
  note parse = parse_method_event_image [of ex d code]
  note bytes = method_event_bytecode_image [OF parse code]
  have "handle_method_event h (image ex (Method_event d code)) st =
      push_record ?key \<lparr>mcr_name = name, mcr_method_idx = med_method_index d,
        mcr_code = h_hex_encode h code\<rparr> st2"
    unfolding handle_method_event_def parse option.case Let_def bytes method_event.simps r prod.case
    using amb code obs by simp
  with name recs obs show ?thesis
    by (simp add: records_of_def push_record_def split: option.split)
qed

end
