(* ===== verification/Method_Trace.thy ===== *)
theory Method_Trace
  imports Step_Frame
begin

text \<open>
  Tracing one interpreted method (\<^verbatim>\<open>bpf/bpf.c\<close>): the layout diagnostics
  (\<^verbatim>\<open>submit_layout_debug_event\<close>), the one-time copy of the method's bytecode into the
  per-CPU buffer (\<^verbatim>\<open>read_method_bytecode\<close>), the method record
  (\<^verbatim>\<open>submit_method_event_with_bytecode\<close>) and their composition \<^verbatim>\<open>handle_art_method\<close>.
\<close>

section \<open>Operations\<close>

definition submit_layout_debug_event ::
  "env \<Rightarrow> config_t option \<Rightarrow> u32 \<Rightarrow> u64 \<Rightarrow> u64 \<Rightarrow> u64 \<Rightarrow> u32 \<Rightarrow> u32 \<Rightarrow> u32 \<Rightarrow> bpf_state \<Rightarrow> bpf_state" where
  "submit_layout_debug_event e conf pid am code_item dbegin sz reason source s =
     (let layout_debug_enable = (case conf of None \<Rightarrow> False | Some c \<Rightarrow> cfg_debug_layout c \<noteq> 0);
          code_item_fallback_enable =
            (case conf of None \<Rightarrow> True | Some c \<Rightarrow> cfg_code_item_fallback c \<noteq> 0)
      in if \<not> layout_debug_enable \<and> (reason = 0 \<or> \<not> code_item_fallback_enable) then s
      else if \<not> code_item_fallback_enable \<and> source = LAYOUT_SOURCE_CODE_ITEM then s
      else send e (Layout_debug \<lparr>lde_art_method_ptr = am, lde_code_item_ptr = code_item,
             lde_begin = dbegin, lde_pid = pid, lde_size = sz, lde_reason = reason,
             lde_source = source\<rparr>) BPF_RB_FORCE_WAKEUP s)"

definition method_code_max :: u32 where
  "method_code_max = of_nat (MAX_PERCPU_BUFSIZE - c_sizeof method_event_members)"

lemma method_code_max_eq: "method_code_max = 16344"
  by (simp add: method_code_max_def MAX_PERCPU_BUFSIZE_def)

definition bytecode_key :: "env \<Rightarrow> u64 \<Rightarrow> u64 \<Rightarrow> u32 \<Rightarrow> capture_key_t" where
  "bytecode_key e am code_item insns_size = \<lparr>ck_addr = am, ck_identity = code_item,
     ck_pid = current_tgid e, ck_size = insns_size\<rparr>"

text \<open>Returns the C return value, the final \<^verbatim>\<open>*codeitem_size\<close> and the state.\<close>

definition read_method_bytecode :: "env \<Rightarrow> u64 \<Rightarrow> bpf_state \<Rightarrow> u32 \<times> u32 \<times> bpf_state" where
  "read_method_bytecode e am s =
     (let layout = get_art_layout s;
          (has_code, code_item_ptr) = read_code_item_from_art_method e am layout
      in if \<not> has_code then (0, 0, s)
      else case read_u32 e (code_item_ptr + ucast (code_item_insns_size_offset layout)) of
        None \<Rightarrow> (0, 0, s)
      | Some insns_size \<Rightarrow>
        if insns_size = 0 \<or> 0x10000 < insns_size then (0, 0, s)
        else let key = bytecode_key e am code_item_ptr insns_size
        in if map_of (methodCodeCache_map s) key = Some 1 then (0, 0, s)
        else let codeitem_size = insns_size * 2
        in case bufs_m s (e_cpu e) of
          None \<Rightarrow> (0, codeitem_size, s)
        | Some buf \<Rightarrow>
          let codeitem_size =
                (if method_code_max < codeitem_size then method_code_max else codeitem_size);
              bytes_to_read = asm_clamp codeitem_size method_code_max;
              n = unat bytes_to_read
          in case bpf_probe_read_user e n
                  (code_item_ptr + ucast (code_item_insns_offset layout)) of
            None \<Rightarrow> (0, 0, s\<lparr>bufs_m := (bufs_m s)(e_cpu e \<mapsto>
                buf\<lparr>bt_code := replicate n 0 @ drop n (bt_code buf)\<rparr>)\<rparr>)
          | Some bytes \<Rightarrow>
              (1, codeitem_size, s\<lparr>bufs_m := (bufs_m s)(e_cpu e \<mapsto>
                  buf\<lparr>bt_code := bytes @ drop n (bt_code buf)\<rparr>),
                methodCodeCache_map := AList.update key 1 (methodCodeCache_map s)\<rparr>))"

definition fill_method :: "u64 \<Rightarrow> u32 \<Rightarrow> u32 \<Rightarrow> u64 \<Rightarrow> u32 \<Rightarrow> u32 \<Rightarrow> method_event_data_t
    \<Rightarrow> method_event_data_t" where
  "fill_method dbegin pid sz am idx cis m = m\<lparr>med_begin := dbegin, med_pid := pid, med_size := sz,
     med_art_method_ptr := am, med_method_index := idx, med_codeitem_size := cis\<rparr>"

definition submit_method_event_with_bytecode ::
  "env \<Rightarrow> u64 \<Rightarrow> u32 \<Rightarrow> u32 \<Rightarrow> u64 \<Rightarrow> u32 \<Rightarrow> u32 \<Rightarrow> bpf_state \<Rightarrow> bpf_state" where
  "submit_method_event_with_bytecode e dbegin pid sz am idx codeitem_size s =
     (if 0 < codeitem_size
      then case bufs_m s (e_cpu e) of
        None \<Rightarrow> s
      | Some buf \<Rightarrow>
        let hdr = fill_method dbegin pid sz am idx codeitem_size (bt_hdr buf);
            s1 = s\<lparr>bufs_m := (bufs_m s)(e_cpu e \<mapsto> buf\<lparr>bt_hdr := hdr\<rparr>)\<rparr>;
            total_size = asm_clamp (of_nat (c_sizeof method_event_members) + codeitem_size)
                           (of_nat MAX_PERCPU_BUFSIZE)
        in bpf_ringbuf_output e
             (Method_event hdr (take (unat total_size - c_sizeof method_event_members) (bt_code buf)))
             BPF_RB_FORCE_WAKEUP s1
      else send e (Method_event (fill_method dbegin pid sz am idx 0 (e_stale_method e)) [])
             BPF_RB_FORCE_WAKEUP s)"

definition handle_art_method :: "env \<Rightarrow> config_t option \<Rightarrow> u32 \<Rightarrow> u64 \<Rightarrow> bpf_state \<Rightarrow> bpf_state" where
  "handle_art_method e conf pid am s =
     (if is_compressed_ref am then s
      else let layout = get_art_layout s;
               (found, dbegin, sz, dex_method_index) = resolve_dex_from_art_method e am layout
      in if \<not> found
         then let (has_code, code_item_ptr) = read_code_item_from_art_method e am layout
         in if has_code
            then submit_layout_debug_event e conf pid am code_item_ptr 0 0
                   LAYOUT_REASON_ART_CHAIN_FAILED LAYOUT_SOURCE_CODE_ITEM s
            else submit_layout_debug_event e conf pid am 0 0 0
                   LAYOUT_REASON_CODE_ITEM_FAILED LAYOUT_SOURCE_CODE_ITEM s
      else if dbegin = 0 \<or> sz = 0 then s
      else if probe_u8 e (untag dbegin) \<noteq> 0x64 then s
      else let s1 = submit_layout_debug_event e conf pid am 0 dbegin sz 0 LAYOUT_SOURCE_ART_CHAIN s;
               s2 = submit_dex_from_begin e pid dbegin sz s1;
               (_, codeitem_size, s3) = read_method_bytecode e am s2
      in submit_method_event_with_bytecode e dbegin pid sz am dex_method_index codeitem_size s3)"

section \<open>The bytecode copy\<close>

text \<open>
  What there is to capture of a method: the cache key and the bytes, when the method has
  readable code that was not captured before. Long methods are cut at the buffer's size.
\<close>

definition method_code :: "env \<Rightarrow> u64 \<Rightarrow> bpf_state \<Rightarrow> (capture_key_t \<times> u8 list) option" where
  "method_code e am s =
     (let layout = get_art_layout s in
      case read_u64 e (am + ucast (art_method_data_offset layout)) of
        None \<Rightarrow> None
      | Some p \<Rightarrow>
        if untag p = 0 then None
        else case read_u32 e (untag p + ucast (code_item_insns_size_offset layout)) of
          None \<Rightarrow> None
        | Some n \<Rightarrow>
          if n = 0 \<or> 0x10000 < n then None
          else if map_of (methodCodeCache_map s) (bytecode_key e am (untag p) n) = Some 1 then None
          else map_option (Pair (bytecode_key e am (untag p) n))
                 (bpf_probe_read_user e (min (2 * unat n) 16344)
                    (untag p + ucast (code_item_insns_offset layout))))"

lemma insns_bytes:
  assumes "n \<noteq> 0" and "\<not> 0x10000 < (n :: u32)"
  shows "unat (n * 2) = 2 * unat n"
    and "unat (if method_code_max < n * 2 then method_code_max else n * 2) = min (2 * unat n) 16344"
    and "asm_clamp (if method_code_max < n * 2 then method_code_max else n * 2) method_code_max =
      (if method_code_max < n * 2 then method_code_max else n * 2)"
proof -
  have "unat n \<le> 65536" using assms(2) by (simp add: not_less word_le_nat_alt)
  then show u: "unat (n * 2) = 2 * unat n" by (simp add: unat_word_ariths)
  show "unat (if method_code_max < n * 2 then method_code_max else n * 2) = min (2 * unat n) 16344"
    using u by (simp add: method_code_max_eq word_less_nat_alt min_def)
  show "asm_clamp (if method_code_max < n * 2 then method_code_max else n * 2) method_code_max =
      (if method_code_max < n * 2 then method_code_max else n * 2)"
    by (auto simp: asm_clamp_min min_def)
qed

lemma probe_read_length: "bpf_probe_read_user e n a = Some bytes \<Longrightarrow> length bytes = n"
  by (simp add: bpf_probe_read_user_def read_bytes_length)

lemma insns_bytes_pos:
  assumes "n \<noteq> 0" and "\<not> 0x10000 < (n :: u32)"
  shows "0 < (if method_code_max < n * 2 then method_code_max else n * 2)"
proof -
  have "unat n \<noteq> 0" using assms(1) by (simp add: unat_eq_0)
  then show ?thesis
    using insns_bytes(2) [OF assms] by (simp add: word_less_nat_alt split del: if_split)
qed

lemma read_method_bytecode_spec:
  assumes buf: "bufs_m s (e_cpu e) = Some buf"
    and run: "read_method_bytecode e am s = (r, cis, s')"
  shows "case method_code e am s of
      None \<Rightarrow> cis = 0 \<and> s'\<lparr>bufs_m := bufs_m s\<rparr> = s \<and> dom (bufs_m s') = dom (bufs_m s)
    | Some (key, bytes) \<Rightarrow> r = 1 \<and> 0 < cis \<and> unat cis = length bytes \<and>
        s' = s\<lparr>bufs_m := (bufs_m s)(e_cpu e \<mapsto>
                 buf\<lparr>bt_code := bytes @ drop (length bytes) (bt_code buf)\<rparr>),
               methodCodeCache_map := AList.update key 1 (methodCodeCache_map s)\<rparr>"
proof -
  let ?L = "get_art_layout s"
  show ?thesis
  proof (cases "read_u64 e (am + ucast (art_method_data_offset ?L))")
    case None
    with run show ?thesis
      by (simp add: read_method_bytecode_def method_code_def read_code_item_from_art_method_def Let_def)
  next
    case (Some p)
    note p = this
    show ?thesis
    proof (cases "read_u32 e (untag p + ucast (code_item_insns_size_offset ?L))")
      case None
      with run p show ?thesis
        by (auto simp: read_method_bytecode_def method_code_def read_code_item_from_art_method_def
            Let_def split: if_splits)
    next
      case (Some n)
      let ?k = "bytecode_key e am (untag p) n"
      define x where "x = (if method_code_max < n * 2 then method_code_max else n * 2)"
      show ?thesis
      proof (cases "untag p = 0 \<or> n = 0 \<or> 0x10000 < n \<or> map_of (methodCodeCache_map s) ?k = Some 1")
        case True
        with p Some have "read_method_bytecode e am s = (0, 0, s)"
          by (elim disjE; simp add: read_method_bytecode_def read_code_item_from_art_method_def Let_def)
        moreover from True p Some have "method_code e am s = None"
          by (elim disjE; simp add: method_code_def Let_def)
        ultimately show ?thesis using run by simp
      next
        case False
        then have n: "n \<noteq> 0" "\<not> 0x10000 < n" by simp_all
        have cis: "read_method_bytecode e am s =
            (case bpf_probe_read_user e (unat x) (untag p + ucast (code_item_insns_offset ?L)) of
               None \<Rightarrow> (0, 0, s\<lparr>bufs_m := (bufs_m s)(e_cpu e \<mapsto>
                 buf\<lparr>bt_code := replicate (unat x) 0 @ drop (unat x) (bt_code buf)\<rparr>)\<rparr>)
             | Some bytes \<Rightarrow> (1, x, s\<lparr>bufs_m := (bufs_m s)(e_cpu e \<mapsto>
                 buf\<lparr>bt_code := bytes @ drop (unat x) (bt_code buf)\<rparr>),
                methodCodeCache_map := AList.update ?k 1 (methodCodeCache_map s)\<rparr>))"
          using False p Some buf insns_bytes(3) [OF n, folded x_def] x_def
          by (simp add: read_method_bytecode_def read_code_item_from_art_method_def Let_def
              cong: option.case_cong split del: if_split)
        have mc: "method_code e am s = map_option (Pair ?k)
            (bpf_probe_read_user e (unat x) (untag p + ucast (code_item_insns_offset ?L)))"
          using False p Some insns_bytes(2) [OF n, folded x_def] by (simp add: method_code_def Let_def split del: if_split)
        show ?thesis
          using run cis mc insns_bytes_pos [OF n, folded x_def] buf
          by (cases "bpf_probe_read_user e (unat x) (untag p + ucast (code_item_insns_offset ?L))")
            (auto dest: probe_read_length split: if_splits)
      qed
    qed
  qed
qed

text \<open>Without a per-CPU buffer nothing is captured and nothing changes.\<close>

lemma read_method_bytecode_no_buf:
  assumes "bufs_m s (e_cpu e) = None"
  shows "\<exists>cis. read_method_bytecode e am s = (0, cis, s)"
  using assms
  by (auto simp: read_method_bytecode_def Let_def split: option.splits prod.splits if_splits)

lemma total_size_code:
  assumes "unat cis \<le> 16344"
  shows "unat (asm_clamp (of_nat (c_sizeof method_event_members) + cis) (of_nat MAX_PERCPU_BUFSIZE))
    - c_sizeof method_event_members = unat cis"
proof -
  have "unat (40 + cis) = 40 + unat cis" using assms by (simp add: unat_word_ariths)
  moreover have "unat (min a b) = min (unat a) (unat b)" for a b :: u32
    by (simp add: min_def word_le_nat_alt)
  ultimately show ?thesis using assms
    by (simp add: asm_clamp_min MAX_PERCPU_BUFSIZE_def)
qed

lemma method_code_length: "method_code e am s = Some (key, bytes) \<Longrightarrow> length bytes \<le> 16344"
  by (auto simp: method_code_def Let_def dest!: probe_read_length split: option.splits if_splits)

section \<open>The method record\<close>

lemma fill_method_simps [simp]:
  "med_begin (fill_method b pid sz am idx cis m) = b"
  "med_pid (fill_method b pid sz am idx cis m) = pid"
  "med_size (fill_method b pid sz am idx cis m) = sz"
  "med_art_method_ptr (fill_method b pid sz am idx cis m) = am"
  "med_method_index (fill_method b pid sz am idx cis m) = idx"
  "med_codeitem_size (fill_method b pid sz am idx cis m) = cis"
  "med_thread (fill_method b pid sz am idx cis m) = med_thread m"
  by (simp_all add: fill_method_def)

text \<open>The bytes the record of this method carries.\<close>

definition captured_code :: "env \<Rightarrow> u64 \<Rightarrow> bpf_state \<Rightarrow> u8 list" where
  "captured_code e am s = (case method_code e am s of None \<Rightarrow> [] | Some (_, bytes) \<Rightarrow> bytes)"

lemma captured_code_length: "length (captured_code e am s) \<le> 16344"
  by (auto simp: captured_code_def dest: method_code_length split: option.splits)

text \<open>The two states before the record is sent differ from the start only in scratch data.\<close>

definition scratch_eq :: "bpf_state \<Rightarrow> bpf_state \<Rightarrow> bool" where
  "scratch_eq s s' \<longleftrightarrow> s' = s\<lparr>bufs_m := bufs_m s', methodCodeCache_map := methodCodeCache_map s'\<rparr> \<and>
     dom (bufs_m s') = dom (bufs_m s)"

lemma scratch_eq_same:
  assumes "scratch_eq s s'"
  shows "out s' = out s" "rb_tries s' = rb_tries s" "rb_held s' = rb_held s"
    "config_map s' = config_map s" "art_layout_map s' = art_layout_map s"
    "dexFileCache_map s' = dexFileCache_map s" "dexProgress_map s' = dexProgress_map s"
    "native_copy_args_map s' = native_copy_args_map s"
    "native_alloc_args_map s' = native_alloc_args_map s" "dom (bufs_m s') = dom (bufs_m s)"
  using assms by (cases s; cases s'; simp add: scratch_eq_def)+

lemma scratch_eq_good: "scratch_eq s s' \<Longrightarrow> good_step pid s s'"
  by (simp add: good_step_def scratch_eq_same)

lemma method_event_sent:
  assumes buf: "bufs_m s (e_cpu e) = Some buf"
    and run: "read_method_bytecode e am s = (r, cis, s3)"
  shows "\<exists>m s2. scratch_eq s s2 \<and>
    methodCodeCache_map s2 = (case method_code e am s of None \<Rightarrow> methodCodeCache_map s
      | Some (key, _) \<Rightarrow> AList.update key 1 (methodCodeCache_map s)) \<and>
    emits s2
      (if e_rb_ok e method_events (rb_tries s method_events)
       then [(Method_event (fill_method b pid sz am idx cis m) (captured_code e am s),
              BPF_RB_FORCE_WAKEUP)] else [])
      (submit_method_event_with_bytecode e b pid sz am idx cis s3) \<and>
    unat cis = length (captured_code e am s)"
proof (cases "method_code e am s")
  case None
  with read_method_bytecode_spec [OF buf run] have cis: "cis = 0"
    and s3: "s3\<lparr>bufs_m := bufs_m s\<rparr> = s" "dom (bufs_m s3) = dom (bufs_m s)" by simp_all
  let ?ev = "Method_event (fill_method b pid sz am idx 0 (e_stale_method e)) []"
  from s3 have sc: "scratch_eq s s3" and mc: "methodCodeCache_map s3 = methodCodeCache_map s"
    by (cases s; cases s3; simp add: scratch_eq_def)+
  have "submit_method_event_with_bytecode e b pid sz am idx cis s3 =
      send e ?ev BPF_RB_FORCE_WAKEUP s3"
    using cis by (simp add: submit_method_event_with_bytecode_def)
  with send_emits [of s3 e ?ev BPF_RB_FORCE_WAKEUP] sc mc None show ?thesis unfolding cis
    by (intro exI [of _ "e_stale_method e"] exI [of _ s3])
      (simp add: captured_code_def scratch_eq_same split: if_splits)
next
  case (Some kb)
  then obtain key bytes where mc: "method_code e am s = Some (key, bytes)" by (cases kb) auto
  with read_method_bytecode_spec [OF buf run] have cis: "0 < cis" "unat cis = length bytes"
    and s3: "s3 = s\<lparr>bufs_m := (bufs_m s)(e_cpu e \<mapsto>
                 buf\<lparr>bt_code := bytes @ drop (length bytes) (bt_code buf)\<rparr>),
               methodCodeCache_map := AList.update key 1 (methodCodeCache_map s)\<rparr>" by simp_all
  let ?hdr = "fill_method b pid sz am idx cis (bt_hdr buf)"
  let ?ev = "Method_event ?hdr bytes"
  let ?s2 = "s3\<lparr>bufs_m := (bufs_m s)(e_cpu e \<mapsto>
      buf\<lparr>bt_code := bytes @ drop (length bytes) (bt_code buf), bt_hdr := ?hdr\<rparr>)\<rparr>"
  have sc: "scratch_eq s ?s2"
    using buf by (auto simp: scratch_eq_def s3)
  have le: "unat cis \<le> 16344" using method_code_length [OF mc] cis by simp
  have "submit_method_event_with_bytecode e b pid sz am idx cis s3 =
      bpf_ringbuf_output e ?ev BPF_RB_FORCE_WAKEUP ?s2"
    using cis total_size_code [OF le]
    by (simp add: submit_method_event_with_bytecode_def s3 Let_def)
  with output_emits [of ?s2 e ?ev BPF_RB_FORCE_WAKEUP] sc mc cis show ?thesis
    by (intro exI [of _ "bt_hdr buf"] exI [of _ ?s2]) (simp add: captured_code_def s3 split: if_splits)
qed

lemma method_no_buf:
  assumes "bufs_m s (e_cpu e) = None" and "read_method_bytecode e am s = (r, cis, s3)"
  shows "good_step pid s (submit_method_event_with_bytecode e b pid sz am idx cis s3)"
  using assms read_method_bytecode_no_buf [of s e am]
  by (auto simp: submit_method_event_with_bytecode_def)

lemma method_event_good:
  assumes run: "read_method_bytecode e am s = (r, cis, s3)"
  shows "good_step pid s (submit_method_event_with_bytecode e b pid sz am idx cis s3)"
proof (cases "bufs_m s (e_cpu e)")
  case None
  from method_no_buf [OF this run] show ?thesis .
next
  case (Some buf)
  from method_event_sent [OF Some run, of b pid sz idx] obtain m s2 where sc: "scratch_eq s s2"
    and em: "emits s2 (if e_rb_ok e method_events (rb_tries s method_events)
       then [(Method_event (fill_method b pid sz am idx cis m) (captured_code e am s),
              BPF_RB_FORCE_WAKEUP)] else [])
      (submit_method_event_with_bytecode e b pid sz am idx cis s3)"
    and "unat cis = length (captured_code e am s)" by blast
  with captured_code_length [of e am s] have "good_step pid s2 
      (submit_method_event_with_bytecode e b pid sz am idx cis s3)"
    by (intro emits_good [OF em]) simp
  with scratch_eq_good [OF sc] show ?thesis by (rule good_step_trans)
qed

lemma submit_layout_debug_event_good:
  "good_step pid s (submit_layout_debug_event e conf pid am ci b sz reason src s)"
  by (auto simp: submit_layout_debug_event_def Let_def)

theorem handle_art_method_good: "good_step pid s (handle_art_method e conf pid am s)"
proof -
  have tail: "good_step pid s
      (submit_method_event_with_bytecode e b pid sz am idx cis s3)"
    if "read_method_bytecode e am (submit_dex_from_begin e pid b sz
          (submit_layout_debug_event e conf pid am 0 b sz 0 LAYOUT_SOURCE_ART_CHAIN s)) = (r, cis, s3)"
    for b sz idx r cis s3
    by (rule good_step_trans [OF submit_layout_debug_event_good
          good_step_trans [OF submit_dex_from_begin_good method_event_good [OF that]]])
  show ?thesis
    by (auto simp: handle_art_method_def Let_def submit_layout_debug_event_good tail
        split: prod.splits)
qed

end
