(* ===== verification/Kernel_Map.thy ===== *)
theory Kernel_Map
  imports Prelude
begin

text \<open>
  The contract of a BPF hash map as its clients use it, stated once as a locale: an update
  that the map accepts is found by the next lookup, a refused one changes nothing, and
  other keys are never disturbed. Interpreted on the LRU caches (every update is accepted)
  and on the bounded argument maps (a new key is refused when the map is full).
\<close>

datatype ('k, 'v) slot_op = Store (slot_key: 'k) 'v | Remove (slot_key: 'k)

fun slot_step :: "('k \<Rightarrow> 'v \<Rightarrow> 'm \<Rightarrow> 'm) \<Rightarrow> ('k \<Rightarrow> 'm \<Rightarrow> 'm) \<Rightarrow> ('k, 'v) slot_op \<Rightarrow> 'm \<Rightarrow> 'm" where
  "slot_step update delete (Store k v) m = update k v m"
| "slot_step update delete (Remove k) m = delete k m"

locale kernel_map =
  fixes lookup :: "'m \<Rightarrow> 'k \<Rightarrow> 'v option"
    and update :: "'k \<Rightarrow> 'v \<Rightarrow> 'm \<Rightarrow> 'm"
    and delete :: "'k \<Rightarrow> 'm \<Rightarrow> 'm"
    and accepts :: "'k \<Rightarrow> 'm \<Rightarrow> bool"
  assumes lookup_update: "accepts k m \<Longrightarrow> lookup (update k v m) k = Some v"
    and update_refused: "\<not> accepts k m \<Longrightarrow> update k v m = m"
    and lookup_update_other: "k \<noteq> k' \<Longrightarrow> lookup (update k v m) k' = lookup m k'"
    and lookup_delete: "lookup (delete k m) k = None"
    and lookup_delete_other: "k \<noteq> k' \<Longrightarrow> lookup (delete k m) k' = lookup m k'"
begin

lemma step_other: "slot_key op \<noteq> k \<Longrightarrow> lookup (slot_step update delete op m) k = lookup m k"
  by (cases op) (simp_all add: lookup_update_other lookup_delete_other)

text \<open>Work on other keys, in any number and order, leaves a stored entry in place.\<close>

lemma steps_other:
  "\<forall>op \<in> set ops. slot_key op \<noteq> k \<Longrightarrow>
     lookup (fold (slot_step update delete) ops m) k = lookup m k"
  by (induction ops arbitrary: m) (simp_all add: step_other)

lemma stored_survives:
  assumes "accepts k m" and "\<forall>op \<in> set ops. slot_key op \<noteq> k"
  shows "lookup (fold (slot_step update delete) ops (update k v m)) k = Some v"
  using assms by (simp add: steps_other lookup_update)

lemma removed_stays_away:
  assumes "\<forall>op \<in> set ops. slot_key op \<noteq> k"
  shows "lookup (fold (slot_step update delete) ops (delete k m)) k = None"
  using assms by (simp add: steps_other lookup_delete)

text \<open>An entry that appears for \<open>k\<close> was put there by an operation on \<open>k\<close>.\<close>

lemma entry_has_origin:
  assumes "lookup (fold (slot_step update delete) ops m) k = Some v" and "lookup m k \<noteq> Some v"
  shows "\<exists>op \<in> set ops. slot_key op = k"
  using assms steps_other by metis

end

text \<open>A map without capacity limit always accepts.\<close>

locale unbounded_map = kernel_map lookup update delete accepts
  for lookup :: "'m \<Rightarrow> 'k \<Rightarrow> 'v option" and update delete accepts +
  assumes accepts_all: "accepts k m"
begin

lemma lookup_update_iff: "lookup (update k v m) k' = (if k = k' then Some v else lookup m k')"
  by (simp add: lookup_update accepts_all lookup_update_other)

end

interpretation lru: unbounded_map map_of AList.update AList.delete "\<lambda>_ _. True"
  by unfold_locales (simp_all add: update_conv' delete_conv')

definition hash_accepts :: "nat \<Rightarrow> 'k \<Rightarrow> ('k \<times> 'v) list \<Rightarrow> bool" where
  "hash_accepts cap k m \<longleftrightarrow> map_of m k \<noteq> None \<or> length m < cap"

interpretation hash: kernel_map map_of "hash_update cap" AList.delete "hash_accepts cap" for cap
proof unfold_locales
  fix k :: 'a and k' :: 'a and m :: "('a \<times> 'b) list" and v :: 'b
  show "hash_accepts cap k m \<Longrightarrow> map_of (hash_update cap k v m) k = Some v"
    by (auto simp: hash_accepts_def intro: hash_update_lookup)
  show "\<not> hash_accepts cap k m \<Longrightarrow> hash_update cap k v m = m"
    by (auto simp: hash_accepts_def hash_update_def)
  show "k \<noteq> k' \<Longrightarrow> map_of (hash_update cap k v m) k' = map_of m k'"
    by (rule hash_update_other)
  show "map_of (AList.delete k m) k = None" by simp
  show "k \<noteq> k' \<Longrightarrow> map_of (AList.delete k m) k' = map_of m k'"
    by (rule map_of_delete_other)
qed

end
