(* ===== verification/Native_Probes.thy ===== *)
theory Native_Probes
  imports Step_Frame Kernel_Map
begin

text \<open>
  The libc probes of \<^verbatim>\<open>bpf/bpf.c\<close>: \<^verbatim>\<open>memcpy\<close>/\<^verbatim>\<open>memmove\<close> (arguments kept per thread from
  entry to return, the destination checked for a DEX header at return), \<^verbatim>\<open>mmap\<close> (size and
  protection kept, the mapping reported at return) and \<^verbatim>\<open>mprotect\<close> (reported at entry),
  with \<^verbatim>\<open>submit_native_buffer_event\<close>.
\<close>

section \<open>Operations\<close>

definition submit_native_buffer_event ::
  "env \<Rightarrow> config_t option \<Rightarrow> u32 \<Rightarrow> u64 \<Rightarrow> u64 \<Rightarrow> u32 \<Rightarrow> u32 \<Rightarrow> u32 \<Rightarrow> bpf_state \<Rightarrow> bpf_state" where
  "submit_native_buffer_event e conf pid addr sz source prot flags s =
     (let native_buffer_scan_enable =
            (case conf of None \<Rightarrow> True | Some c \<Rightarrow> cfg_native_buffer_scan c \<noteq> 0)
      in if \<not> native_buffer_scan_enable \<or> addr = 0 \<or> sz < NATIVE_MIN_COPY_SIZE \<or>
            NATIVE_MAX_COPY_SIZE < sz
         then s
         else send e (Native_buffer \<lparr>nbe_addr = addr, nbe_size = sz, nbe_pid = pid,
                nbe_source = source, nbe_prot = prot, nbe_flags = flags\<rparr>) BPF_RB_FORCE_WAKEUP s)"

definition probe_allowed :: "env \<Rightarrow> bpf_state \<Rightarrow> bool" where
  "probe_allowed e s =
     trace_allowed (get_config s) (current_tgid e) (bpf_get_current_uid_gid_u32 e)"

definition copy_enter :: "u32 \<Rightarrow> env \<Rightarrow> user_pt_regs \<Rightarrow> bpf_state \<Rightarrow> bpf_state" where
  "copy_enter source e ctx s =
     (if \<not> probe_allowed e s then s
      else let sz = PT_REGS_PARM3 ctx
      in if sz = 0 \<or> NATIVE_MAX_COPY_SIZE < sz then s
      else s\<lparr>native_copy_args_map := hash_update NATIVE_ARGS_MAX_ENTRIES (e_pid_tgid e)
               \<lparr>nca_dst = PT_REGS_PARM1 ctx, nca_size = sz, nca_source = source\<rparr>
               (native_copy_args_map s)\<rparr>)"

definition copy_return :: "env \<Rightarrow> bpf_state \<Rightarrow> bpf_state" where
  "copy_return e s =
     (case map_of (native_copy_args_map s) (e_pid_tgid e) of
        None \<Rightarrow> s
      | Some args \<Rightarrow>
          let (is_dex, dex_size) =
                looks_like_dex_header e (nca_dst args) (dex_header_file_size_offset (get_art_layout s));
              s1 = (if is_dex
                    then submit_native_buffer_event e (get_config s) (current_tgid e)
                           (nca_dst args) (ucast dex_size) (nca_source args) 0 0 s
                    else s)
          in s1\<lparr>native_copy_args_map := AList.delete (e_pid_tgid e) (native_copy_args_map s1)\<rparr>)"

definition uprobe_libc_memcpy :: "env \<Rightarrow> user_pt_regs \<Rightarrow> bpf_state \<Rightarrow> bpf_state" where
  "uprobe_libc_memcpy e ctx s = copy_enter NATIVE_SOURCE_MEMCPY e ctx s"
definition uretprobe_libc_memcpy :: "env \<Rightarrow> user_pt_regs \<Rightarrow> bpf_state \<Rightarrow> bpf_state" where
  "uretprobe_libc_memcpy e ctx s = copy_return e s"
definition uprobe_libc_memmove :: "env \<Rightarrow> user_pt_regs \<Rightarrow> bpf_state \<Rightarrow> bpf_state" where
  "uprobe_libc_memmove e ctx s = copy_enter NATIVE_SOURCE_MEMMOVE e ctx s"
definition uretprobe_libc_memmove :: "env \<Rightarrow> user_pt_regs \<Rightarrow> bpf_state \<Rightarrow> bpf_state" where
  "uretprobe_libc_memmove e ctx s = copy_return e s"

definition uprobe_libc_mmap :: "env \<Rightarrow> user_pt_regs \<Rightarrow> bpf_state \<Rightarrow> bpf_state" where
  "uprobe_libc_mmap e ctx s =
     (if \<not> probe_allowed e s then s
      else let args = \<lparr>naa_size = PT_REGS_PARM2 ctx, naa_prot = ucast (PT_REGS_PARM3 ctx),
                       naa_flags = ucast (PT_REGS_PARM4 ctx)\<rparr>
      in if naa_size args = 0 \<or> NATIVE_MAX_COPY_SIZE < naa_size args then s
      else s\<lparr>native_alloc_args_map := hash_update NATIVE_ARGS_MAX_ENTRIES (e_pid_tgid e) args
               (native_alloc_args_map s)\<rparr>)"

definition uretprobe_libc_mmap :: "env \<Rightarrow> user_pt_regs \<Rightarrow> bpf_state \<Rightarrow> bpf_state" where
  "uretprobe_libc_mmap e ctx s =
     (case map_of (native_alloc_args_map s) (e_pid_tgid e) of
        None \<Rightarrow> s
      | Some args \<Rightarrow>
          let addr = PT_REGS_RC ctx;
              s1 = (if addr \<noteq> - 1
                    then submit_native_buffer_event e (get_config s) (current_tgid e) addr
                           (naa_size args) NATIVE_SOURCE_MMAP (naa_prot args) (naa_flags args) s
                    else s)
          in s1\<lparr>native_alloc_args_map := AList.delete (e_pid_tgid e) (native_alloc_args_map s1)\<rparr>)"

definition uprobe_libc_mprotect :: "env \<Rightarrow> user_pt_regs \<Rightarrow> bpf_state \<Rightarrow> bpf_state" where
  "uprobe_libc_mprotect e ctx s =
     (if \<not> probe_allowed e s then s
      else submit_native_buffer_event e (get_config s) (current_tgid e) (PT_REGS_PARM1 ctx)
             (PT_REGS_PARM2 ctx) NATIVE_SOURCE_MPROTECT (ucast (PT_REGS_PARM3 ctx)) 0 s)"

lemmas copy_probe_defs = uprobe_libc_memcpy_def uretprobe_libc_memcpy_def
  uprobe_libc_memmove_def uretprobe_libc_memmove_def

section \<open>What the probes send and keep\<close>

lemma submit_native_buffer_event_good:
  "good_step pid s (submit_native_buffer_event e conf pid addr sz source prot flags s)"
  by (auto simp: submit_native_buffer_event_def Let_def not_less)

lemma good_step_maps:
  assumes "good_step pid s s'"
  shows "native_copy_args_map s' = native_copy_args_map s"
    "native_alloc_args_map s' = native_alloc_args_map s" "config_map s' = config_map s"
    "art_layout_map s' = art_layout_map s" "rb_held s' = rb_held s"
    "dom (bufs_m s') = dom (bufs_m s)"
  using assms by (auto simp: good_step_def)

lemmas native_frame = good_step_maps [OF submit_native_buffer_event_good]

text \<open>The map operation one invocation performs, as seen by the argument maps.\<close>

lemma copy_enter_slot:
  "\<exists>ops. (\<forall>op \<in> set ops. slot_key op = e_pid_tgid e) \<and>
     native_copy_args_map (copy_enter source e ctx s) =
       fold (slot_step (hash_update NATIVE_ARGS_MAX_ENTRIES) AList.delete) ops (native_copy_args_map s)"
proof -
  let ?a = "\<lparr>nca_dst = PT_REGS_PARM1 ctx, nca_size = PT_REGS_PARM3 ctx, nca_source = source\<rparr>"
  show ?thesis
  proof (cases "\<not> probe_allowed e s \<or> PT_REGS_PARM3 ctx = 0 \<or> NATIVE_MAX_COPY_SIZE < PT_REGS_PARM3 ctx")
    case True
    then show ?thesis by (intro exI [of _ "[]"]) (auto simp: copy_enter_def Let_def)
  next
    case False
    then show ?thesis
      by (intro exI [of _ "[Store (e_pid_tgid e) ?a]"]) (simp add: copy_enter_def Let_def)
  qed
qed

lemma copy_return_map:
  "native_copy_args_map (copy_return e s) = AList.delete (e_pid_tgid e) (native_copy_args_map s)"
proof (cases "map_of (native_copy_args_map s) (e_pid_tgid e)")
  case None
  then have "e_pid_tgid e \<notin> dom (map_of (native_copy_args_map s))" by auto
  then have "AList.delete (e_pid_tgid e) (native_copy_args_map s) = native_copy_args_map s"
    by (simp add: delete_id dom_map_of_conv_image_fst)
  with None show ?thesis by (simp add: copy_return_def)
next
  case (Some args)
  then show ?thesis by (simp add: copy_return_def Let_def native_frame split: prod.splits)
qed

lemma mmap_return_map:
  "native_alloc_args_map (uretprobe_libc_mmap e ctx s) =
     AList.delete (e_pid_tgid e) (native_alloc_args_map s)"
proof (cases "map_of (native_alloc_args_map s) (e_pid_tgid e)")
  case None
  then have "e_pid_tgid e \<notin> dom (map_of (native_alloc_args_map s))" by auto
  then have "AList.delete (e_pid_tgid e) (native_alloc_args_map s) = native_alloc_args_map s"
    by (simp add: delete_id dom_map_of_conv_image_fst)
  with None show ?thesis by (simp add: uretprobe_libc_mmap_def)
next
  case (Some args)
  then show ?thesis by (simp add: uretprobe_libc_mmap_def Let_def native_frame)
qed

end
