(* ===== verification/Jni_Probe.thy ===== *)
theory Jni_Probe
  imports Step_Frame
begin

text \<open>
  \<^verbatim>\<open>uprobe_libart_registerNatives\<close> of \<^verbatim>\<open>bpf/bpf.c\<close>: one record per entry of the
  \<^verbatim>\<open>JNINativeMethod\<close> table that has a function pointer, at most 512 of them.
\<close>

definition jni_entry_addr :: "u64 \<Rightarrow> nat \<Rightarrow> u64" where
  "jni_entry_addr methods i = methods + of_nat i * JNI_NATIVE_METHOD_SIZE"

definition jni_event :: "env \<Rightarrow> u32 \<Rightarrow> u64 \<Rightarrow> bpf_event" where
  "jni_event e pid entry =
     (let name_ptr = probe_u64 e entry;
          sig_ptr = probe_u64 e (entry + 8);
          fn_ptr = probe_u64 e (entry + 16)
      in Jni_method \<lparr>jme_pid = pid, jme_fn_ptr = fn_ptr,
           jme_name = (if name_ptr \<noteq> 0 then bpf_probe_read_user_str e JNI_NAME_MAX name_ptr
                       else replicate JNI_NAME_MAX 0),
           jme_sig = (if sig_ptr \<noteq> 0 then bpf_probe_read_user_str e JNI_SIG_MAX sig_ptr
                      else replicate JNI_SIG_MAX 0)\<rparr>)"

definition jni_method_step :: "env \<Rightarrow> u32 \<Rightarrow> u64 \<Rightarrow> nat \<Rightarrow> bpf_state \<Rightarrow> bpf_state" where
  "jni_method_step e pid methods i s =
     (let entry = jni_entry_addr methods i
      in if probe_u64 e (entry + 16) = 0 then s
         else send e (jni_event e pid entry) 0 s)"

fun jni_loop :: "env \<Rightarrow> u32 \<Rightarrow> u64 \<Rightarrow> nat list \<Rightarrow> bpf_state \<Rightarrow> bpf_state" where
  "jni_loop e pid methods [] s = s"
| "jni_loop e pid methods (i # is) s =
     jni_loop e pid methods is (jni_method_step e pid methods i s)"

definition register_natives_count :: "user_pt_regs \<Rightarrow> int" where
  "register_natives_count ctx =
     (let count = sint (ucast (PT_REGS_PARM4 ctx) :: u32)
      in if JNI_MAX_METHODS < count then JNI_MAX_METHODS else count)"

definition uprobe_libart_registerNatives :: "env \<Rightarrow> user_pt_regs \<Rightarrow> bpf_state \<Rightarrow> bpf_state" where
  "uprobe_libart_registerNatives e ctx s =
     (let pid = current_tgid e in
      if \<not> trace_allowed (get_config s) pid (bpf_get_current_uid_gid_u32 e) then s
      else let methods = PT_REGS_PARM3 ctx; count = sint (ucast (PT_REGS_PARM4 ctx) :: u32)
      in if methods = 0 \<or> count \<le> 0 then s
      else jni_loop e pid methods [0..<nat (register_natives_count ctx)] s)"

text \<open>The entries of the table that can be reported, in table order.\<close>

definition jni_reported :: "env \<Rightarrow> u64 \<Rightarrow> nat list \<Rightarrow> nat list" where
  "jni_reported e methods is = filter (\<lambda>i. probe_u64 e (jni_entry_addr methods i + 16) \<noteq> 0) is"

lemma probe_str_length: "0 < n \<Longrightarrow> length (bpf_probe_read_user_str e n a) = n"
  using read_cstr_length [of "e_mem e" a "n - 1"]
  by (auto simp: bpf_probe_read_user_str_def split: option.splits)

lemma probe_str_last: "0 < n \<Longrightarrow> last (bpf_probe_read_user_str e n a) = 0"
proof -
  assume n: "0 < n"
  show ?thesis
  proof (cases "read_cstr (e_mem e) a (n - 1)")
    case None
    with n show ?thesis by (simp add: bpf_probe_read_user_str_def)
  next
    case (Some cs)
    with read_cstr_length [OF Some] n have "length cs < n" by linarith
    with Some n show ?thesis
      by (simp add: bpf_probe_read_user_str_def last_append)
  qed
qed

lemma jni_event_ok:
  "probe_u64 e (entry + 16) \<noteq> 0 \<Longrightarrow> evt_ok (jni_event e pid entry) \<and> event_pid (jni_event e pid entry) = pid"
  by (auto simp: jni_event_def Let_def JNI_NAME_MAX_def JNI_SIG_MAX_def probe_str_length
      probe_str_last last_replicate)

lemma jni_loop_good: "good_step pid s (jni_loop e pid methods is s)"
proof (induction "is" arbitrary: s)
  case Nil
  then show ?case by simp
next
  case (Cons i "is")
  have "good_step pid s (jni_method_step e pid methods i s)"
    using jni_event_ok [of e "jni_entry_addr methods i" pid]
    by (auto simp: jni_method_step_def Let_def)
  from good_step_trans [OF this Cons.IH] show ?case by simp
qed

lemma register_natives_good:
  "good_step (current_tgid e) s (uprobe_libart_registerNatives e ctx s)"
  by (auto simp: uprobe_libart_registerNatives_def Let_def jni_loop_good)

lemma jni_loop_granted:
  assumes "\<forall>n. e_rb_ok e jni_events n"
  shows "out (jni_loop e pid methods is s) =
    out s @ map (\<lambda>i. (jni_event e pid (jni_entry_addr methods i), 0)) (jni_reported e methods is)"
proof (induction "is" arbitrary: s)
  case Nil
  then show ?case by (simp add: jni_reported_def)
next
  case (Cons i "is")
  let ?ev = "jni_event e pid (jni_entry_addr methods i)"
  have "ring_of ?ev = jni_events" by (simp add: jni_event_def Let_def)
  with assms send_ok [of e ?ev s 0] have "out (send e ?ev 0 s) = out s @ [(?ev, 0)]"
    by (simp add: emits_frame)
  with Cons show ?case by (simp add: jni_method_step_def jni_reported_def Let_def)
qed

lemma register_natives_count_le: "nat (register_natives_count ctx) \<le> 512"
  by (auto simp: register_natives_count_def JNI_MAX_METHODS_def Let_def)

end
