(* ===== verification/Probes.thy ===== *)
theory Probes
  imports Method_Trace Native_Probes Jni_Probe
begin

text \<open>
  The entry points of \<^verbatim>\<open>bpf/bpf.c\<close> and the machine they form: the ART interpreter probes,
  the DEX life-cycle probes, and a step relation in which any probe fires in any process
  at any time while the kernel evicts entries of the LRU maps as it likes.
\<close>

section \<open>ART probes\<close>

definition uprobe_libart_execute :: "env \<Rightarrow> user_pt_regs \<Rightarrow> bpf_state \<Rightarrow> bpf_state" where
  "uprobe_libart_execute e ctx s =
     (let pid = current_tgid e; conf = get_config s in
      if \<not> trace_allowed conf pid (bpf_get_current_uid_gid_u32 e) then s
      else let layout = get_art_layout s;
               shadow_frame_ptr = PT_REGS_PARM3 ctx;
               art_method_ptr = probe_u64 e (shadow_frame_ptr + ucast (shadow_frame_method_offset layout))
      in handle_art_method e conf pid art_method_ptr s)"

definition uprobe_libart_executeNterpImpl :: "env \<Rightarrow> user_pt_regs \<Rightarrow> bpf_state \<Rightarrow> bpf_state" where
  "uprobe_libart_executeNterpImpl e ctx s =
     (let pid = current_tgid e; conf = get_config s in
      if \<not> trace_allowed conf pid (bpf_get_current_uid_gid_u32 e) then s
      else handle_art_method e conf pid (PT_REGS_PARM1 ctx) s)"

definition uprobe_libart_nterpOpInvoke :: "env \<Rightarrow> user_pt_regs \<Rightarrow> bpf_state \<Rightarrow> bpf_state" where
  "uprobe_libart_nterpOpInvoke e ctx s =
     (let pid = current_tgid e; conf = get_config s in
      if \<not> trace_allowed conf pid (bpf_get_current_uid_gid_u32 e) then s
      else handle_art_method e conf pid (PT_REGS_PARM1 ctx) s)"

definition uprobe_libart_dexFileCtor :: "env \<Rightarrow> user_pt_regs \<Rightarrow> bpf_state \<Rightarrow> bpf_state" where
  "uprobe_libart_dexFileCtor e ctx s =
     (let pid = current_tgid e; conf = get_config s in
      if \<not> trace_allowed conf pid (bpf_get_current_uid_gid_u32 e) then s
      else let layout = get_art_layout s; dbegin = PT_REGS_PARM2 ctx;
               (ok, sz) = looks_like_dex_header e dbegin (dex_header_file_size_offset layout)
      in if ok then submit_dex_from_begin e pid dbegin sz s else s)"

definition uprobe_libart_registerDexFile :: "env \<Rightarrow> user_pt_regs \<Rightarrow> bpf_state \<Rightarrow> bpf_state" where
  "uprobe_libart_registerDexFile e ctx s =
     (let pid = current_tgid e; conf = get_config s in
      if \<not> trace_allowed conf pid (bpf_get_current_uid_gid_u32 e) then s
      else let dex_file_ptr = untag (PT_REGS_PARM2 ctx)
      in if dex_file_ptr = 0 then s
      else let layout = get_art_layout s;
               (ok, dbegin, sz) = read_valid_dex_begin e dex_file_ptr
                  (dex_file_begin_offset layout) (dex_header_file_size_offset layout)
      in if ok then submit_dex_from_begin e pid dbegin sz s else s)"

definition uprobe_libart_verifyClass :: "env \<Rightarrow> user_pt_regs \<Rightarrow> bpf_state \<Rightarrow> bpf_state" where
  "uprobe_libart_verifyClass e ctx s =
     (let pid = current_tgid e; conf = get_config s in
      if \<not> trace_allowed conf pid (bpf_get_current_uid_gid_u32 e) then s
      else let dex_file_ptr = untag (PT_REGS_PARM3 ctx); layout = get_art_layout s;
               (ok, dbegin, sz) = read_valid_dex_begin e dex_file_ptr
                  (dex_file_begin_offset layout) (dex_header_file_size_offset layout)
      in if ok then submit_dex_from_begin e pid dbegin sz s else s)"

section \<open>The machine\<close>

datatype probe = Libart_execute | Libart_executeNterpImpl | Libart_nterpOpInvoke
  | Libart_dexFileCtor | Libart_registerDexFile | Libart_verifyClass | Libart_registerNatives
  | Libc_memcpy | Libc_memcpy_ret | Libc_memmove | Libc_memmove_ret
  | Libc_mmap | Libc_mmap_ret | Libc_mprotect

fun run_probe :: "probe \<Rightarrow> env \<Rightarrow> user_pt_regs \<Rightarrow> bpf_state \<Rightarrow> bpf_state" where
  "run_probe Libart_execute = uprobe_libart_execute"
| "run_probe Libart_executeNterpImpl = uprobe_libart_executeNterpImpl"
| "run_probe Libart_nterpOpInvoke = uprobe_libart_nterpOpInvoke"
| "run_probe Libart_dexFileCtor = uprobe_libart_dexFileCtor"
| "run_probe Libart_registerDexFile = uprobe_libart_registerDexFile"
| "run_probe Libart_verifyClass = uprobe_libart_verifyClass"
| "run_probe Libart_registerNatives = uprobe_libart_registerNatives"
| "run_probe Libc_memcpy = uprobe_libc_memcpy"
| "run_probe Libc_memcpy_ret = uretprobe_libc_memcpy"
| "run_probe Libc_memmove = uprobe_libc_memmove"
| "run_probe Libc_memmove_ret = uretprobe_libc_memmove"
| "run_probe Libc_mmap = uprobe_libc_mmap"
| "run_probe Libc_mmap_ret = uretprobe_libc_mmap"
| "run_probe Libc_mprotect = uprobe_libc_mprotect"

definition is_return_probe :: "probe \<Rightarrow> bool" where
  "is_return_probe p \<longleftrightarrow> p \<in> {Libc_memcpy_ret, Libc_memmove_ret, Libc_mmap_ret}"

inductive bpf_step :: "bpf_state \<Rightarrow> bpf_state \<Rightarrow> bool" where
  fire: "bpf_step s (run_probe p e ctx s)"
| evict_dex: "bpf_step s (s\<lparr>dexFileCache_map := AList.delete k (dexFileCache_map s)\<rparr>)"
| evict_method: "bpf_step s (s\<lparr>methodCodeCache_map := AList.delete k (methodCodeCache_map s)\<rparr>)"
| evict_progress: "bpf_step s (s\<lparr>dexProgress_map := AList.delete k (dexProgress_map s)\<rparr>)"

text \<open>
  User space writes the two configuration maps before it attaches the probes; either may
  be missing. From then on they do not change.
\<close>

definition start_state :: "config_t option \<Rightarrow> art_layout_t option \<Rightarrow> bpf_state" where
  "start_state c l = empty_state\<lparr>config_map := c, art_layout_map := l\<rparr>"

inductive reachable :: "config_t option \<Rightarrow> art_layout_t option \<Rightarrow> bpf_state \<Rightarrow> bool" for c l where
  start: "reachable c l (start_state c l)"
| step: "reachable c l s \<Longrightarrow> bpf_step s s' \<Longrightarrow> reachable c l s'"

inductive_cases bpf_stepE: "bpf_step s s'"

section \<open>Invariants\<close>

text \<open>The process filter, as far as a process id can tell.\<close>

definition pid_selected :: "config_t option \<Rightarrow> u32 \<Rightarrow> bool" where
  "pid_selected c pid =
     (case c of None \<Rightarrow> True | Some cfg \<Rightarrow> valid_uid (cfg_pid cfg) \<longrightarrow> cfg_pid cfg = pid)"

lemma trace_allowed_selected: "trace_allowed c pid uid \<Longrightarrow> pid_selected c pid"
  by (auto simp: trace_allowed_def pid_selected_def split: option.splits if_splits)

definition tgid_of :: "u64 \<Rightarrow> u32" where
  "tgid_of pid_tgid = ucast (drop_bit 32 pid_tgid)"

lemma current_tgid_tgid_of: "current_tgid e = tgid_of (e_pid_tgid e)"
  by (simp add: current_tgid_def tgid_of_def)

definition copy_args_ok :: "config_t option \<Rightarrow> (u64 \<times> native_copy_args_t) list \<Rightarrow> bool" where
  "copy_args_ok c m \<longleftrightarrow> hash_ok NATIVE_ARGS_MAX_ENTRIES m \<and>
     (\<forall>(k, a) \<in> set m. pid_selected c (tgid_of k) \<and> nca_size a \<noteq> 0 \<and>
        nca_size a \<le> NATIVE_MAX_COPY_SIZE \<and>
        nca_source a \<in> {NATIVE_SOURCE_MEMCPY, NATIVE_SOURCE_MEMMOVE})"

definition alloc_args_ok :: "config_t option \<Rightarrow> (u64 \<times> native_alloc_args_t) list \<Rightarrow> bool" where
  "alloc_args_ok c m \<longleftrightarrow> hash_ok NATIVE_ARGS_MAX_ENTRIES m \<and>
     (\<forall>(k, a) \<in> set m. pid_selected c (tgid_of k) \<and> naa_size a \<noteq> 0 \<and>
        naa_size a \<le> NATIVE_MAX_COPY_SIZE)"

definition bpf_inv :: "config_t option \<Rightarrow> art_layout_t option \<Rightarrow> bpf_state \<Rightarrow> bool" where
  "bpf_inv c l s \<longleftrightarrow>
     config_map s = c \<and> art_layout_map s = l \<and>
     (\<forall>(ev, _) \<in> set (out s). evt_ok ev \<and> pid_selected c (event_pid ev)) \<and>
     rb_held s = 0 \<and>
     progress_ok (dexProgress_map s) \<and>
     copy_args_ok c (native_copy_args_map s) \<and>
     alloc_args_ok c (native_alloc_args_map s) \<and>
     (\<forall>cpu. bufs_m s cpu \<noteq> None)"

lemma bpf_inv_start: "bpf_inv c l (start_state c l)"
  by (simp add: bpf_inv_def start_state_def empty_state_def progress_ok_def copy_args_ok_def
      alloc_args_ok_def)

lemma good_step_inv:
  assumes "bpf_inv c l s" and "good_step pid s s'" and "pid_selected c pid"
  shows "bpf_inv c l s'"
proof -
  from assms(2) obtain evs where evs: "out s' = out s @ evs" "evts_ok pid evs"
    by (auto simp: good_step_def)
  have "bufs_m s' cpu \<noteq> None" for cpu
    using assms(1) good_step_maps(6) [OF assms(2)] by (auto simp: bpf_inv_def dom_def)
  with assms evs show ?thesis
    by (auto simp: bpf_inv_def good_step_def evts_ok_def)
qed

lemma copy_args_ok_delete: "copy_args_ok c m \<Longrightarrow> copy_args_ok c (AList.delete k m)"
  using set_delete_subset [of k m] by (auto simp: copy_args_ok_def hash_ok_delete)

lemma alloc_args_ok_delete: "alloc_args_ok c m \<Longrightarrow> alloc_args_ok c (AList.delete k m)"
  using set_delete_subset [of k m] by (auto simp: alloc_args_ok_def hash_ok_delete)

lemma copy_args_ok_update:
  assumes "copy_args_ok c m" and "pid_selected c (tgid_of k)" and "nca_size a \<noteq> 0"
    and "nca_size a \<le> NATIVE_MAX_COPY_SIZE"
    and "nca_source a \<in> {NATIVE_SOURCE_MEMCPY, NATIVE_SOURCE_MEMMOVE}"
  shows "copy_args_ok c (hash_update NATIVE_ARGS_MAX_ENTRIES k a m)"
  using assms set_hash_update [of NATIVE_ARGS_MAX_ENTRIES k a m]
  by (auto simp: copy_args_ok_def hash_ok_update dest!: subsetD)

lemma alloc_args_ok_update:
  assumes "alloc_args_ok c m" and "pid_selected c (tgid_of k)" and "naa_size a \<noteq> 0"
    and "naa_size a \<le> NATIVE_MAX_COPY_SIZE"
  shows "alloc_args_ok c (hash_update NATIVE_ARGS_MAX_ENTRIES k a m)"
  using assms set_hash_update [of NATIVE_ARGS_MAX_ENTRIES k a m]
  by (auto simp: alloc_args_ok_def hash_ok_update dest!: subsetD)

end
