(* ===== verification/Machine.thy ===== *)
theory Machine
  imports Probes
begin

text \<open>
  Invariants of the whole object: every probe keeps \<open>bpf_inv\<close>, so it holds in every
  reachable state, whatever the interleaving of probes, the answers of the kernel and the
  evictions.
\<close>

section \<open>Probes keep the invariant\<close>

lemma probe_allowed_selected:
  "bpf_inv c l s \<Longrightarrow> probe_allowed e s \<Longrightarrow> pid_selected c (current_tgid e)"
  by (auto simp: bpf_inv_def probe_allowed_def get_config_def dest: trace_allowed_selected)

lemma libart_good:
  assumes "p \<in> {Libart_execute, Libart_executeNterpImpl, Libart_nterpOpInvoke, Libart_dexFileCtor,
    Libart_registerDexFile, Libart_verifyClass, Libart_registerNatives}"
  shows "good_step (current_tgid e) s (run_probe p e ctx s)"
  using assms
  by (auto simp: uprobe_libart_execute_def uprobe_libart_executeNterpImpl_def
      uprobe_libart_nterpOpInvoke_def uprobe_libart_dexFileCtor_def uprobe_libart_registerDexFile_def
      uprobe_libart_verifyClass_def Let_def handle_art_method_good submit_dex_from_begin_good
      register_natives_good split: prod.splits)

lemma entry_probe_blocked:
  assumes "\<not> probe_allowed e s" and "\<not> is_return_probe p"
  shows "run_probe p e ctx s = s"
  using assms
  by (cases p) (auto simp: probe_allowed_def is_return_probe_def uprobe_libart_execute_def
      uprobe_libart_executeNterpImpl_def uprobe_libart_nterpOpInvoke_def
      uprobe_libart_dexFileCtor_def uprobe_libart_registerDexFile_def uprobe_libart_verifyClass_def
      uprobe_libart_registerNatives_def copy_probe_defs copy_enter_def uprobe_libc_mmap_def
      uprobe_libc_mprotect_def Let_def)

lemma libart_inv:
  assumes "bpf_inv c l s" and "p \<in> {Libart_execute, Libart_executeNterpImpl, Libart_nterpOpInvoke,
    Libart_dexFileCtor, Libart_registerDexFile, Libart_verifyClass, Libart_registerNatives}"
  shows "bpf_inv c l (run_probe p e ctx s)"
proof (cases "probe_allowed e s")
  case True
  from good_step_inv [OF assms(1) libart_good [OF assms(2)] probe_allowed_selected [OF assms(1) True]]
  show ?thesis .
next
  case False
  then have "run_probe p e ctx s = s"
    using assms(2) by (intro entry_probe_blocked) (auto simp: is_return_probe_def)
  with assms(1) show ?thesis by simp
qed

lemma bpf_inv_copy_map:
  "bpf_inv c l s \<Longrightarrow> copy_args_ok c m \<Longrightarrow> bpf_inv c l (s\<lparr>native_copy_args_map := m\<rparr>)"
  by (simp add: bpf_inv_def)

lemma bpf_inv_alloc_map:
  "bpf_inv c l s \<Longrightarrow> alloc_args_ok c m \<Longrightarrow> bpf_inv c l (s\<lparr>native_alloc_args_map := m\<rparr>)"
  by (simp add: bpf_inv_def)

lemma copy_enter_inv:
  assumes "bpf_inv c l s" and "src \<in> {NATIVE_SOURCE_MEMCPY, NATIVE_SOURCE_MEMMOVE}"
  shows "bpf_inv c l (copy_enter src e ctx s)"
proof -
  have "copy_args_ok c (native_copy_args_map s)" using assms(1) by (simp add: bpf_inv_def)
  then show ?thesis
    using assms probe_allowed_selected [OF assms(1), of e]
    by (auto simp: copy_enter_def Let_def current_tgid_tgid_of not_less
        intro!: bpf_inv_copy_map copy_args_ok_update)
qed

lemma mmap_enter_inv:
  assumes "bpf_inv c l s"
  shows "bpf_inv c l (uprobe_libc_mmap e ctx s)"
proof -
  have "alloc_args_ok c (native_alloc_args_map s)" using assms(1) by (simp add: bpf_inv_def)
  then show ?thesis
    using assms probe_allowed_selected [OF assms(1), of e]
    by (auto simp: uprobe_libc_mmap_def Let_def current_tgid_tgid_of not_less
        intro!: bpf_inv_alloc_map alloc_args_ok_update)
qed

lemma native_event_inv:
  assumes "bpf_inv c l s" and "pid_selected c pid"
  shows "bpf_inv c l (submit_native_buffer_event e conf pid addr sz src prot flags s)"
  using assms(1) submit_native_buffer_event_good assms(2) by (rule good_step_inv)

lemma copy_return_inv:
  assumes "bpf_inv c l s"
  shows "bpf_inv c l (copy_return e s)"
proof (cases "map_of (native_copy_args_map s) (e_pid_tgid e)")
  case None
  with assms show ?thesis by (simp add: copy_return_def)
next
  case (Some args)
  have ok: "copy_args_ok c (native_copy_args_map s)" using assms(1) by (simp add: bpf_inv_def)
  with map_of_set [OF Some] have sel: "pid_selected c (current_tgid e)"
    by (auto simp: copy_args_ok_def current_tgid_tgid_of)
  have "bpf_inv c l (t\<lparr>native_copy_args_map := AList.delete (e_pid_tgid e) (native_copy_args_map t)\<rparr>)"
    if "bpf_inv c l t" for t
    using that by (intro bpf_inv_copy_map copy_args_ok_delete) (simp_all add: bpf_inv_def)
  with assms native_event_inv [OF assms sel] Some show ?thesis
    by (simp add: copy_return_def Let_def split: prod.split)
qed

lemma mmap_return_inv:
  assumes "bpf_inv c l s"
  shows "bpf_inv c l (uretprobe_libc_mmap e ctx s)"
proof (cases "map_of (native_alloc_args_map s) (e_pid_tgid e)")
  case None
  with assms show ?thesis by (simp add: uretprobe_libc_mmap_def)
next
  case (Some args)
  have ok: "alloc_args_ok c (native_alloc_args_map s)" using assms(1) by (simp add: bpf_inv_def)
  with map_of_set [OF Some] have sel: "pid_selected c (current_tgid e)"
    by (auto simp: alloc_args_ok_def current_tgid_tgid_of)
  have "bpf_inv c l (t\<lparr>native_alloc_args_map := AList.delete (e_pid_tgid e) (native_alloc_args_map t)\<rparr>)"
    if "bpf_inv c l t" for t
    using that by (intro bpf_inv_alloc_map alloc_args_ok_delete) (simp_all add: bpf_inv_def)
  with assms native_event_inv [OF assms sel] Some show ?thesis
    by (simp add: uretprobe_libc_mmap_def Let_def)
qed

lemma mprotect_inv:
  assumes "bpf_inv c l s"
  shows "bpf_inv c l (uprobe_libc_mprotect e ctx s)"
  using assms probe_allowed_selected [OF assms, of e]
  by (simp add: uprobe_libc_mprotect_def native_event_inv)

lemma run_probe_inv: "bpf_inv c l s \<Longrightarrow> bpf_inv c l (run_probe p e ctx s)"
proof (cases "p \<in> {Libart_execute, Libart_executeNterpImpl, Libart_nterpOpInvoke,
    Libart_dexFileCtor, Libart_registerDexFile, Libart_verifyClass, Libart_registerNatives}")
  case True
  assume "bpf_inv c l s"
  from this True show ?thesis by (rule libart_inv)
next
  case False
  assume "bpf_inv c l s"
  with False show ?thesis
    by (cases p) (simp_all add: copy_probe_defs copy_enter_inv copy_return_inv mmap_enter_inv
        mmap_return_inv mprotect_inv)
qed

lemma bpf_step_inv: "bpf_step s s' \<Longrightarrow> bpf_inv c l s \<Longrightarrow> bpf_inv c l s'"
proof (induction rule: bpf_step.induct)
  case (fire s p e ctx)
  then show ?case by (rule run_probe_inv)
next
  case (evict_dex s k)
  then show ?case by (simp add: bpf_inv_def)
next
  case (evict_method s k)
  then show ?case by (simp add: bpf_inv_def)
next
  case (evict_progress s k)
  then show ?case by (simp add: bpf_inv_def progress_ok_delete)
qed

lemma reachable_inv: "reachable c l s \<Longrightarrow> bpf_inv c l s"
  by (induction rule: reachable.induct) (auto intro: bpf_inv_start bpf_step_inv)

lemma reachable_fire: "reachable c l s \<Longrightarrow> reachable c l (run_probe p e ctx s)"
  by (rule reachable.step [OF _ bpf_step.fire])

section \<open>The log only grows\<close>

lemma good_step_out: "good_step pid s s' \<Longrightarrow> \<exists>evs. out s' = out s @ evs \<and> evts_ok pid evs"
  by (auto simp: good_step_def)

lemma copy_return_out:
  "\<exists>evs. out (copy_return e s) = out s @ evs \<and> evts_ok (current_tgid e) evs"
  using good_step_out [OF submit_native_buffer_event_good]
  by (auto simp: copy_return_def Let_def split: option.split prod.split)

lemma mmap_return_out:
  "\<exists>evs. out (uretprobe_libc_mmap e ctx s) = out s @ evs \<and> evts_ok (current_tgid e) evs"
  using good_step_out [OF submit_native_buffer_event_good]
  by (auto simp: uretprobe_libc_mmap_def Let_def split: option.split)

lemma run_probe_out:
  "\<exists>evs. out (run_probe p e ctx s) = out s @ evs \<and> evts_ok (current_tgid e) evs"
proof (cases "p \<in> {Libart_execute, Libart_executeNterpImpl, Libart_nterpOpInvoke,
    Libart_dexFileCtor, Libart_registerDexFile, Libart_verifyClass, Libart_registerNatives}")
  case True
  from good_step_out [OF libart_good [OF True]] show ?thesis .
next
  case False
  then show ?thesis
    using good_step_out [OF submit_native_buffer_event_good]
    by (cases p) (simp_all add: copy_probe_defs copy_enter_def copy_return_out mmap_return_out
        uprobe_libc_mmap_def uprobe_libc_mprotect_def Let_def)
qed

section \<open>Interleaving and the argument maps\<close>

text \<open>A schedule: which probe fires, in which process, with which registers.\<close>

definition fire_all :: "(probe \<times> env \<times> user_pt_regs) list \<Rightarrow> bpf_state \<Rightarrow> bpf_state" where
  "fire_all fs s = fold (\<lambda>(p, e, ctx) s. run_probe p e ctx s) fs s"

lemma fire_all_simps [simp]:
  "fire_all [] s = s" "fire_all ((p, e, ctx) # fs) s = fire_all fs (run_probe p e ctx s)"
  by (simp_all add: fire_all_def)

lemmas libart_maps = good_step_maps [OF libart_good]

lemma mprotect_maps:
  "native_copy_args_map (uprobe_libc_mprotect e ctx s) = native_copy_args_map s"
  "native_alloc_args_map (uprobe_libc_mprotect e ctx s) = native_alloc_args_map s"
  by (simp_all add: uprobe_libc_mprotect_def native_frame)

lemma run_probe_copy_slot:
  "\<exists>ops. (\<forall>op \<in> set ops. slot_key op = e_pid_tgid e) \<and>
     native_copy_args_map (run_probe p e ctx s) =
       fold (slot_step (hash_update NATIVE_ARGS_MAX_ENTRIES) AList.delete) ops (native_copy_args_map s)"
proof -
  let ?F = "fold (slot_step (hash_update NATIVE_ARGS_MAX_ENTRIES) AList.delete)"
  have same: ?thesis if "native_copy_args_map (run_probe p e ctx s) = native_copy_args_map s"
    using that by (intro exI [of _ "[]"]) simp
  have del: ?thesis
    if "native_copy_args_map (run_probe p e ctx s) =
      AList.delete (e_pid_tgid e) (native_copy_args_map s)"
    using that by (intro exI [of _ "[Remove (e_pid_tgid e)]"]) simp
  show ?thesis
  proof (cases "p \<in> {Libart_execute, Libart_executeNterpImpl, Libart_nterpOpInvoke,
      Libart_dexFileCtor, Libart_registerDexFile, Libart_verifyClass, Libart_registerNatives}")
    case True
    from same [OF libart_maps(1) [OF True]] show ?thesis .
  next
    case False
    then show ?thesis
      using same del copy_enter_slot [of e NATIVE_SOURCE_MEMCPY ctx s]
        copy_enter_slot [of e NATIVE_SOURCE_MEMMOVE ctx s]
      by (cases p) (simp_all add: copy_probe_defs copy_return_map mprotect_maps uprobe_libc_mmap_def
          uretprobe_libc_mmap_def native_frame Let_def split: option.splits)
  qed
qed

text \<open>A thread's entry is not disturbed by what the other threads do.\<close>

lemma fire_all_copy_other:
  "\<forall>(p, e, ctx) \<in> set fs. e_pid_tgid e \<noteq> t \<Longrightarrow>
     map_of (native_copy_args_map (fire_all fs s)) t = map_of (native_copy_args_map s) t"
proof (induction fs arbitrary: s)
  case Nil
  then show ?case by simp
next
  case (Cons f fs)
  obtain p e ctx where f: "f = (p, e, ctx)" by (cases f)
  from run_probe_copy_slot [of e p ctx s] obtain ops where
    ops: "\<forall>op \<in> set ops. slot_key op = e_pid_tgid e" "native_copy_args_map (run_probe p e ctx s) =
      fold (slot_step (hash_update NATIVE_ARGS_MAX_ENTRIES) AList.delete) ops (native_copy_args_map s)"
    by blast
  have "\<forall>op \<in> set ops. slot_key op \<noteq> t" using ops(1) Cons.prems f by auto
  from hash.steps_other [OF this, of NATIVE_ARGS_MAX_ENTRIES "native_copy_args_map s"] ops(2)
  have "map_of (native_copy_args_map (run_probe p e ctx s)) t = map_of (native_copy_args_map s) t" by simp
  moreover have "map_of (native_copy_args_map (fire_all fs (run_probe p e ctx s))) t =
      map_of (native_copy_args_map (run_probe p e ctx s)) t"
    using Cons.prems f by (intro Cons.IH) simp
  ultimately show ?case by (simp add: f)
qed

lemma run_probe_config:
  "config_map (run_probe p e ctx s) = config_map s \<and> art_layout_map (run_probe p e ctx s) = art_layout_map s"
proof (cases "p \<in> {Libart_execute, Libart_executeNterpImpl, Libart_nterpOpInvoke,
    Libart_dexFileCtor, Libart_registerDexFile, Libart_verifyClass, Libart_registerNatives}")
  case True
  from libart_maps(3,4) [OF this] show ?thesis by simp
next
  case False
  then show ?thesis
    by (cases p) (simp_all add: copy_probe_defs copy_enter_def copy_return_def uprobe_libc_mmap_def
        uretprobe_libc_mmap_def uprobe_libc_mprotect_def native_frame Let_def
        split: option.split prod.split)
qed

lemma fire_all_config:
  "config_map (fire_all fs s) = config_map s \<and> art_layout_map (fire_all fs s) = art_layout_map s"
  by (induction fs arbitrary: s) (auto simp: run_probe_config)

text \<open>What the return of a copy reports.\<close>

lemma copy_return_reports:
  assumes "map_of (native_copy_args_map s) (e_pid_tgid e) = Some args"
    and "looks_like_dex_header e (nca_dst args) (dex_header_file_size_offset (get_art_layout s)) = (True, z)"
    and "case config_map s of None \<Rightarrow> True | Some c \<Rightarrow> cfg_native_buffer_scan c \<noteq> 0"
    and "e_rb_ok e native_buffer_events (rb_tries s native_buffer_events)"
  shows "out (copy_return e s) = out s @ [(Native_buffer \<lparr>nbe_addr = nca_dst args,
    nbe_size = ucast z, nbe_pid = current_tgid e, nbe_source = nca_source args, nbe_prot = 0,
    nbe_flags = 0\<rparr>, BPF_RB_FORCE_WAKEUP)]"
proof -
  from assms(2) have h: "nca_dst args \<noteq> 0" "dex_size_ok z"
    by (auto simp: looks_like_dex_header_iff dex_header_at_def)
  then have "NATIVE_MIN_COPY_SIZE \<le> ucast z" by (simp add: min_copy_le_iff dex_size_ok_def)
  moreover have "unat (ucast z :: u64) = unat z"
    by (simp add: unsigned_ucast_eq take_bit_nat_eq_self order.strict_trans [OF unsigned_less])
  then have "ucast z \<le> NATIVE_MAX_COPY_SIZE"
    using h(2) by (simp add: dex_size_ok_def NATIVE_MAX_COPY_SIZE_def word_le_nat_alt)
  ultimately show ?thesis
    using assms h(1)
    by (auto simp: copy_return_def submit_native_buffer_event_def get_config_def not_less
        send_def ringbuf_defs Let_def split: option.splits)
qed

end
