(* ===== verification/Pipeline.thy ===== *)
theory Pipeline
  imports Machine Reassembly
begin

text \<open>
  Kernel and user space together: the chunks that unobstructed invocations send are pieces
  of one DEX and cover it, so the receiver that gets them, in any order and with
  repetitions, writes exactly that DEX.
\<close>

lemma spans_simps [simp]:
  "spans [] = {}" "spans (ev # evs) = piece_span ev \<union> spans evs"
  "spans (xs @ ys) = spans xs \<union> spans ys"
  by (auto simp: spans_def)

lemma spans_cong: "set xs = set ys \<Longrightarrow> spans xs = spans ys"
  by (simp add: spans_def)

lemma dex_tiles_pieces:
  assumes "length D = unat sz"
  shows "dex_tiles b pid sz D from cs to \<Longrightarrow> from \<le> sz \<Longrightarrow>
    (\<forall>c \<in> set cs. piece_of pid b D c) \<and> spans cs = {from..<to} \<and> from \<le> to"
proof (induction cs arbitrary: "from")
  case Nil
  then show ?case by simp
next
  case (Cons c cs)
  let ?len = "chunk_len sz from"
  from Cons.prems have lt: "from < sz" and c: "c = chunk_event b pid sz from ?len
      (take (unat ?len) (drop (unat from) D))" and t: "dex_tiles b pid sz D (from + ?len) cs to"
    by simp_all
  note step = chunk_step [OF lt]
  from Cons.IH [OF t step(2)] have IH: "\<forall>c \<in> set cs. piece_of pid b D c"
    "spans cs = {from + ?len..<to}" "from + ?len \<le> to" by simp_all
  have "from \<le> from + ?len" using step(1) by (simp add: word_le_nat_alt)
  with IH(3) have un: "{from..<from + ?len} \<union> {from + ?len..<to} = {from..<to}" and "from \<le> to"
    by (auto simp: ivl_disj_un)
  moreover have "piece_of pid b D c"
    using c assms step chunk_len_pos [OF lt] chunk_len_unat [OF lt]
    by (auto simp: piece_of_def chunk_event_def chunk_header_ok_def word_le_nat_alt word_less_nat_alt)
  moreover have "piece_span c = {from..<from + ?len}" by (simp add: c chunk_event_def)
  ultimately show ?case using IH by auto
qed

text \<open>Everything a series of calls sent, without the wake-up flags.\<close>

definition sent_since :: "bpf_state \<Rightarrow> bpf_state \<Rightarrow> bpf_event list" where
  "sent_since s s' = map fst (drop (length (out s)) (out s'))"

lemma sent_since_forced: "out s' = out s @ forced cs \<Longrightarrow> sent_since s s' = cs"
  by (simp add: sent_since_def forced_def comp_def)

text \<open>Calls for a DEX that has not been transferred yet, enough of them for its size.\<close>

definition fresh_calls :: "env list \<Rightarrow> u32 \<Rightarrow> u64 \<Rightarrow> u8 list \<Rightarrow> bpf_state \<Rightarrow> bool" where
  "fresh_calls es pid b D s \<longleftrightarrow>
     list_all (\<lambda>e. unobstructed e b D) es \<and> length D \<le> length es * BYTES_PER_CALL \<and>
     map_of (dexProgress_map s) (dex_image_key pid b D) = None"

lemma fresh_calls_pieces:
  assumes fresh: "fresh_calls es pid b D s" and "16 \<le> length D" and "length D = unat sz"
  shows "\<exists>cs. out (submit_dex_calls es b pid sz s) = out s @ forced cs \<and>
    dex_tiles b pid sz D 0 cs sz \<and>
    map_of (dexProgress_map (submit_dex_calls es b pid sz s)) (dex_image_key pid b D) = Some sz"
proof -
  let ?k = "dex_image_key pid b D" and ?s' = "submit_dex_calls es b pid sz s"
  have zero: "dex_progress s ?k = 0" using fresh by (simp add: fresh_calls_def dex_progress_def)
  from submit_dex_calls_unobstructed [of es b D sz s pid] assms zero obtain cs where
    o: "out ?s' = out s @ forced cs"
    and p: "unat (dex_progress ?s' ?k) = min (unat sz) (length es * BYTES_PER_CALL)"
    and t: "dex_tiles b pid sz D 0 cs (dex_progress ?s' ?k)"
    by (auto simp: fresh_calls_def list_all_iff)
  from p assms have "dex_progress ?s' ?k = sz" by (simp add: fresh_calls_def word_unat_eq_iff)
  moreover have "sz \<noteq> 0" using assms(2,3) by auto
  ultimately have "map_of (dexProgress_map ?s') ?k = Some sz"
    by (auto simp: dex_progress_def split: option.splits)
  with o t \<open>dex_progress ?s' ?k = sz\<close> show ?thesis by auto
qed

lemma fresh_calls_received:
  assumes "fresh_calls es pid b D s" and host: "host_saves h pid b D"
    and "length D = unat sz"
    and recs: "set (map snd recs) = set (sent_since s (submit_dex_calls es b pid sz s))"
  shows "assembled pid b D [] {0..<dex_len D} (receive_all h recs dump_state_new)"
proof -
  from host have acc: "dex_accepted D" "length D \<le> 0x40000000" by (simp_all add: host_saves_def)
  then have "16 \<le> length D" by (simp add: dex_accepted_iff)
  from fresh_calls_pieces [OF assms(1) this assms(3)] obtain cs where
    o: "out (submit_dex_calls es b pid sz s) = out s @ forced cs" and t: "dex_tiles b pid sz D 0 cs sz"
    by blast
  from dex_tiles_pieces [OF assms(3) t] have p: "\<forall>c \<in> set cs. piece_of pid b D c"
    and sp: "spans cs = {0..<sz}" by simp_all
  have sz: "sz = dex_len D" using assms(3) by (simp add: dex_len_def)
  have set: "set (map snd recs) = set cs" using recs sent_since_forced [OF o] by simp
  have all: "\<forall>(ex, ev) \<in> set recs. piece_of pid b D ev"
  proof (clarify)
    fix ex ev assume "(ex, ev) \<in> set recs"
    then have "ev \<in> set (map snd recs)" by force
    with set p show "piece_of pid b D ev" by blast
  qed
  from assembled_all [OF host assembled_start [OF acc] all] spans_cong [OF set] sp sz
  show ?thesis by simp
qed

lemma assembled_whole:
  assumes "assembled pid b D fs {0..<dex_len D} st"
  shows "files st = fs @ [(Dex_plain pid b (dex_len D), D)]" and "dex_cache st (pid, b) = Some D"
  using assms by (simp_all add: assembled_def whole_def)

end
