(* ===== verification/Fallback.thy ===== *)
theory Fallback
  imports Handler_Facts Reassembly
begin

text \<open>
  The outcomes of \<^verbatim>\<open>handle_read_failure\<close>: the whole DEX readable, a hole in the middle,
  and a tail that is missing.
\<close>

section \<open>The page loop over readable pages and holes\<close>

text \<open>One page: the buffer up to it is \<open>pre\<close>, from it on \<open>suf\<close>.\<close>

lemma page_loop_page:
  assumes mem: "reads_memory rm pid m" and pre: "length pre = off" and suf: "suf \<noteq> []"
    and c: "c = min 0x1000 (length suf)" and p: "read_bytes m (base + of_nat off) c = Some p"
  shows "page_loop rm pid base off (pre @ suf) tot =
    page_loop rm pid base (off + 0x1000) (pre @ p @ drop c suf) (tot + c)"
proof -
  have "unat (of_nat c :: u32) = c" using c by (simp add: unat_of_nat take_bit_nat_eq_self)
  with reads_memory_mem [OF mem, of "base + of_nat off" "of_nat c" p] p
  have "read_remote_mem rm pid (base + of_nat off) (of_nat c) = Some p" by simp
  moreover have len: "length p = c" by (rule read_bytes_length [OF p])
  ultimately have "read_page rm pid base (length (pre @ suf)) off = Some p"
    using c pre by (simp add: read_page_def DEX_READ_CHUNK_def Let_def)
  moreover have "splice (pre @ suf) off p = pre @ p @ drop c suf"
    using len pre by (simp add: splice_def)
  ultimately show ?thesis
    using suf pre len by (simp add: page_loop_step DEX_READ_CHUNK_def)
qed

lemma page_loop_hole:
  assumes mem: "reads_memory rm pid m" and pre: "length pre = off" and suf: "suf \<noteq> []"
    and c: "c = min 0x1000 (length suf)" and p: "read_bytes m (base + of_nat off) c = None"
  shows "page_loop rm pid base off (pre @ suf) tot = page_loop rm pid base (off + 0x1000) (pre @ suf) tot"
proof -
  have "read_page rm pid base (length (pre @ suf)) off = None"
  proof (rule ccontr)
    assume "read_page rm pid base (length (pre @ suf)) off \<noteq> None"
    then obtain page where page: "read_page rm pid base (length (pre @ suf)) off = Some page" by blast
    from read_page_length [OF this] have len: "length page = c"
      using pre c by (simp add: DEX_READ_CHUNK_def)
    from page have "read_remote_mem rm pid (base + of_nat off)
        (of_nat (min DEX_READ_CHUNK (length (pre @ suf) - off))) = Some page"
      by (auto simp: read_page_def Let_def split: option.splits if_splits)
    from reads_memory_sound [OF mem this] len p show False by simp
  qed
  with suf pre show ?thesis by (simp add: page_loop_step DEX_READ_CHUNK_def)
qed

text \<open>A stretch of whole pages.\<close>

lemma page_loop_pages:
  assumes mem: "reads_memory rm pid m"
  shows "length pre = off \<Longrightarrow> 0x1000 * k \<le> length suf \<Longrightarrow>
    read_bytes m (base + of_nat off) (0x1000 * k) = Some bs \<Longrightarrow>
    page_loop rm pid base off (pre @ suf) tot =
      page_loop rm pid base (off + 0x1000 * k) (pre @ bs @ drop (0x1000 * k) suf) (tot + 0x1000 * k)"
proof (induction k arbitrary: pre suf bs off tot)
  case 0
  then show ?case by simp
next
  case (Suc k)
  let ?p = "take 0x1000 bs" and ?q = "drop 0x1000 bs"
  have bs: "read_bytes m (base + of_nat off) (0x1000 * Suc k) = Some bs" by (rule Suc.prems(3))
  have "length bs = 0x1000 * Suc k" by (rule read_bytes_length [OF bs])
  then have lens: "length ?p = 0x1000" "length ?q = 0x1000 * k" by simp_all
  have p: "read_bytes m (base + of_nat off) 0x1000 = Some ?p"
    using read_bytes_take_drop [OF bs, of 0 "0x1000"] by simp
  have q: "read_bytes m (base + of_nat (off + 0x1000)) (0x1000 * k) = Some ?q"
    using read_bytes_take_drop [OF bs, of "0x1000" "0x1000 * k"] lens by (simp add: add.assoc)
  have c: "(0x1000 :: nat) = min 0x1000 (length suf)" using Suc.prems(2) by simp
  have "suf \<noteq> []" using Suc.prems(2) by auto
  from page_loop_page [OF mem Suc.prems(1) this c p]
  have "page_loop rm pid base off (pre @ suf) tot =
      page_loop rm pid base (off + 0x1000) ((pre @ ?p) @ drop 0x1000 suf) (tot + 0x1000)"
    by simp
  also have "page_loop rm pid base (off + 0x1000) ((pre @ ?p) @ drop 0x1000 suf) (tot + 0x1000) =
      page_loop rm pid base (off + 0x1000 + 0x1000 * k)
      ((pre @ ?p) @ ?q @ drop (0x1000 * k) (drop 0x1000 suf)) (tot + 0x1000 + 0x1000 * k)"
    by (rule Suc.IH) (use Suc.prems lens q in simp_all)
  finally have res: "page_loop rm pid base off (pre @ suf) tot =
      page_loop rm pid base (off + 0x1000 + 0x1000 * k)
        ((pre @ ?p) @ ?q @ drop (0x1000 * k) (drop 0x1000 suf)) (tot + 0x1000 + 0x1000 * k)" .
  have "?p @ ?q @ r = bs @ r" for r by (metis append_assoc append_take_drop_id)
  with res show ?case by (simp add: add.assoc add.commute [of "0x1000 * k" "0x1000"])
qed

text \<open>The rest of the buffer, all of it readable.\<close>

lemma page_loop_rest:
  assumes mem: "reads_memory rm pid m"
  shows "length pre = off \<Longrightarrow> read_bytes m (base + of_nat off) (length suf) = Some bs \<Longrightarrow>
    page_loop rm pid base off (pre @ suf) tot = (pre @ bs, tot + length suf)"
proof (induction "length suf" arbitrary: pre suf bs off tot rule: less_induct)
  case less
  show ?case
  proof (cases "suf = []")
    case True
    with less.prems show ?thesis by (simp add: page_loop_stop)
  next
    case False
    let ?c = "min 0x1000 (length suf)"
    have bs: "read_bytes m (base + of_nat off) (length suf) = Some bs" by (rule less.prems(2))
    have len: "length bs = length suf" by (rule read_bytes_length [OF bs])
    have p: "read_bytes m (base + of_nat off) ?c = Some (take ?c bs)"
      using read_bytes_take_drop [OF bs, of 0 ?c] by simp
    note step = page_loop_page [OF mem less.prems(1) False refl p]
    show ?thesis
    proof (cases "length suf \<le> 0x1000")
      case True
      with step len less.prems(1) show ?thesis by (simp add: page_loop_stop)
    next
      case long: False
      have q: "read_bytes m (base + of_nat (off + 0x1000)) (length (drop 0x1000 suf)) =
          Some (drop 0x1000 bs)"
        using read_bytes_take_drop [OF bs, of "0x1000" "length suf - 0x1000"] long len
        by (simp add: add.assoc)
      have "page_loop rm pid base (off + 0x1000) ((pre @ take 0x1000 bs) @ drop 0x1000 suf)
          (tot + 0x1000) = ((pre @ take 0x1000 bs) @ drop 0x1000 bs,
          tot + 0x1000 + length (drop 0x1000 suf))"
        by (rule less.hyps) (use long len less.prems(1) q in simp_all)
      with step long show ?thesis by simp
    qed
  qed
qed

text \<open>Nothing readable from here on.\<close>

lemma page_loop_dark:
  assumes mem: "reads_memory rm pid m"
  shows "length pre = off \<Longrightarrow> (\<And>i. off \<le> i \<Longrightarrow> i < off + length suf \<Longrightarrow> m (base + of_nat i) = None) \<Longrightarrow>
    page_loop rm pid base off (pre @ suf) tot = (pre @ suf, tot)"
proof (induction "length suf" arbitrary: pre suf off rule: less_induct)
  case less
  show ?case
  proof (cases "suf = []")
    case True
    with less.prems show ?thesis by (simp add: page_loop_stop)
  next
    case False
    let ?c = "min 0x1000 (length suf)"
    have "m (base + of_nat off) = None" using less.prems(2) [of off] False by simp
    moreover have "0 < ?c" using False by simp
    ultimately have "\<not> (\<forall>i < ?c. m (base + of_nat off + of_nat i) \<noteq> None)" by (auto intro: exI [of _ 0])
    then have "read_bytes m (base + of_nat off) ?c = None"
      using read_bytes_Some_iff [of m "base + of_nat off" ?c]
      by (cases "read_bytes m (base + of_nat off) ?c") auto
    note step = page_loop_hole [OF mem less.prems(1) False refl this]
    show ?thesis
    proof (cases "length suf \<le> 0x1000")
      case True
      with step less.prems(1) show ?thesis by (simp add: page_loop_stop)
    next
      case long: False
      have "page_loop rm pid base (off + 0x1000) ((pre @ take 0x1000 suf) @ drop 0x1000 suf) tot =
          ((pre @ take 0x1000 suf) @ drop 0x1000 suf, tot)"
        by (rule less.hyps) (use long less.prems False in simp_all)
      with step show ?thesis by simp
    qed
  qed
qed

text \<open>A range that is not readable as a whole goes through the page loop.\<close>

lemma read_remote_range_pages:
  assumes mem: "reads_memory rm pid m" and "read_bytes m base (unat len) = None" and "len \<noteq> 0"
  shows "read_remote_range rm pid base len = page_loop rm pid base 0 (replicate (unat len) 0) 0"
proof -
  have "length buf \<noteq> unat len" if "read_remote_mem rm pid base len = Some buf" for buf
    using reads_memory_sound [OF mem that] assms(2) by auto
  with assms(3) show ?thesis by (auto simp: read_remote_range_def split: option.split)
qed


section \<open>The handler on a DEX that is new\<close>

definition key_fresh :: "dump_state \<Rightarrow> u32 \<Rightarrow> u64 \<Rightarrow> u32 \<Rightarrow> bool" where
  "key_fresh st pid b z \<longleftrightarrow> \<not> captures_sealed st \<and> dex_cache st (pid, b) = None \<and>
     (pid, b) \<notin> ambiguous_dex st \<and> dex_sizes st (pid, b) \<in> {None, Some z}"

definition failure_of :: "u32 \<Rightarrow> u64 \<Rightarrow> u32 \<Rightarrow> dex_read_failure_t \<Rightarrow> bool" where
  "failure_of pid b z d \<longleftrightarrow> drf_pid d = pid \<and> drf_begin d AND 0x00ffffffffffffff = b \<and> drf_size d = z"

lemma observe_fresh:
  "key_fresh st pid b z \<Longrightarrow> size_in_range z \<Longrightarrow>
     observe_dex pid b z st = st\<lparr>dex_sizes := (dex_sizes st)((pid, b) \<mapsto> z)\<rparr>"
  by (auto simp: key_fresh_def observe_dex_def)

text \<open>The state in which the fetched bytes are saved.\<close>

definition fetched_state :: "u32 \<Rightarrow> u64 \<Rightarrow> u32 \<Rightarrow> dump_state \<Rightarrow> dump_state" where
  "fetched_state pid b z st = st\<lparr>dex_sizes := (dex_sizes st)((pid, b) \<mapsto> z),
     pending_dex := (pending_dex st)((pid, b) := None)\<rparr>"

lemma handle_read_failure_fresh:
  assumes "failure_of pid b z d" and "4 \<le> length ex" and "w_running w" and "size_in_range z"
    and "key_fresh st pid b z"
    and "read_remote_range (w_remote w) pid b z = (buf, got)" and "0 < got"
    and "fit_to_header (w_remote w) pid b (if got < unat z then take got buf else buf) =
      (bytes, out_size)"
  shows "handle_read_failure h w (image ex (Read_failure d)) st =
    save_dex h (Some pid) b out_size bytes (fetched_state pid b z st)"
proof -
  have "file_size_ok z" using assms(4) by (simp add: file_size_ok_def size_in_range_def)
  with assms observe_fresh [OF assms(5,4)] show ?thesis
    unfolding handle_read_failure_def parse_read_failure_image [OF assms(2)] option.case Let_def
    by (simp add: failure_of_def key_fresh_def fetched_state_def)
qed

text \<open>Bytes that already have the size of the header are kept.\<close>

lemma fit_to_header_exact:
  assumes "take 4 D = dex_magic" and "le32 D 0x20 = Some (dex_len D)"
    and "112 \<le> length D" and "length D \<le> 0x40000000"
  shows "fit_to_header rm pid b D = (D, dex_len D)"
proof -
  have "file_size_ok (dex_len D)"
    using assms(3,4) by (simp add: file_size_ok_def word_le_nat_alt dex_len_unat)
  with assms show ?thesis
    by (simp add: fit_to_header_def starts_with_def Let_def dex_len_unat flip: dex_len_def)
qed

lemma accepted_magic: "dex_accepted D \<Longrightarrow> take 4 D = dex_magic"
proof -
  assume "dex_accepted D"
  then have len: "length (take 4 D) = 4" and w: "le_word (take 4 D) = (DEX_FILE_MAGIC :: u32)"
    by (simp_all add: dex_accepted_iff)
  have "le_word dex_magic = DEX_FILE_MAGIC" by (simp add: dex_magic_def DEX_FILE_MAGIC_def)
  with w have "le_bytes 4 (le_word (take 4 D) :: u32) = le_bytes 4 (le_word dex_magic :: u32)" by simp
  then show "take 4 D = dex_magic"
    using len le_bytes_le_word [of "take 4 D" 4, where 'a = 32]
      le_bytes_le_word [of dex_magic 4, where 'a = 32] by simp
qed

section \<open>All of the DEX readable\<close>

lemma fallback_fetches_all:
  assumes mem: "reads_memory (w_remote w) pid m" and D: "read_bytes m b (length D) = Some D"
    and host: "host_saves h pid b D" and hdr: "le32 D 0x20 = Some (dex_len D)"
    and ev: "failure_of pid b (dex_len D) d" "4 \<le> length ex" "w_running w"
    and st: "key_fresh st pid b (dex_len D)"
  shows "files (handle_read_failure h w (image ex (Read_failure d)) st) =
      files st @ [(Dex_plain pid b (dex_len D), D)]"
    and "dex_cache (handle_read_failure h w (image ex (Read_failure d)) st) (pid, b) = Some D"
proof -
  from host have acc: "dex_accepted D" "length D \<le> 0x40000000" by (simp_all add: host_saves_def)
  then have len: "112 \<le> length D" by (simp add: dex_accepted_iff)
  have z: "unat (dex_len D) = length D" by (rule dex_len_unat [OF acc(2)])
  have range: "size_in_range (dex_len D)" by (rule dex_size_in_range(1) [OF acc])
  have read: "read_remote_range (w_remote w) pid b (dex_len D) = (D, length D)"
    using read_remote_range_readable [OF mem, of b "dex_len D" D] D z by simp
  have "handle_read_failure h w (image ex (Read_failure d)) st =
      save_dex h (Some pid) b (dex_len D) D (fetched_state pid b (dex_len D) st)"
    by (rule handle_read_failure_fresh [OF ev range st read])
      (use len z fit_to_header_exact [OF accepted_magic [OF acc(1)] hdr len acc(2)] in auto)
  also have "\<dots> = (fetched_state pid b (dex_len D) st)
      \<lparr>pending_dex := (pending_dex (fetched_state pid b (dex_len D) st))((pid, b) := None),
       method_sig_cache := drop_sigs (pid, b) (method_sig_cache (fetched_state pid b (dex_len D) st)),
       dex_cache := (dex_cache (fetched_state pid b (dex_len D) st))((pid, b) \<mapsto> D),
       files := files (fetched_state pid b (dex_len D) st) @ [(Dex_plain pid b (dex_len D), D)]\<rparr>"
    by (rule save_dex_complete [OF host]) (use st in \<open>simp_all add: fetched_state_def key_fresh_def\<close>)
  finally show "files (handle_read_failure h w (image ex (Read_failure d)) st) =
      files st @ [(Dex_plain pid b (dex_len D), D)]"
    and "dex_cache (handle_read_failure h w (image ex (Read_failure d)) st) (pid, b) = Some D"
    by (simp_all add: fetched_state_def)
qed

section \<open>A hole in the middle\<close>

lemma read_bytes_hole:
  "read_bytes m (a + of_nat j) k = None \<Longrightarrow> j + k \<le> n \<Longrightarrow> read_bytes m a n = None"
  using read_bytes_take_drop [of m a n _ j k] by (cases "read_bytes m a n") auto

text \<open>The loop leaves the hole zero and counts the pages around it.\<close>

lemma hole_range:
  assumes mem: "reads_memory rm pid m" and p0: "read_bytes m b (0x1000 * k) = Some p0"
    and hole: "read_bytes m (b + of_nat (0x1000 * k)) 0x1000 = None"
    and p2: "read_bytes m (b + of_nat (0x1000 * k + 0x1000)) r = Some p2"
    and z: "unat z = 0x1000 * k + 0x1000 + r"
  shows "read_remote_range rm pid b z = (p0 @ replicate 0x1000 0 @ p2, 0x1000 * k + r)"
proof -
  have len: "length p0 = 0x1000 * k" "length p2 = r"
    using read_bytes_length [OF p0] read_bytes_length [OF p2] by simp_all
  have "read_bytes m b (unat z) = None" by (rule read_bytes_hole [OF hole]) (simp add: z)
  moreover have "z \<noteq> 0" using z by auto
  ultimately have "read_remote_range rm pid b z = page_loop rm pid b 0 (replicate (unat z) 0) 0"
    using read_remote_range_pages [OF mem] by blast
  also have "\<dots> = page_loop rm pid b 0 ([] @ replicate (unat z) 0) 0" by simp
  also have "\<dots> = page_loop rm pid b (0 + 0x1000 * k)
      ([] @ p0 @ drop (0x1000 * k) (replicate (unat z) 0)) (0 + 0x1000 * k)"
    by (rule page_loop_pages [OF mem]) (use p0 z in simp_all)
  also have "\<dots> = page_loop rm pid b (0x1000 * k)
      (p0 @ replicate (0x1000 + r) 0) (0x1000 * k)" by (simp add: z)
  also have "\<dots> = page_loop rm pid b (0x1000 * k + 0x1000)
      (p0 @ replicate (0x1000 + r) 0) (0x1000 * k)"
    by (rule page_loop_hole [OF mem _ _ refl]) (use len hole in simp_all)
  also have "p0 @ replicate (0x1000 + r) 0 = (p0 @ replicate 0x1000 0) @ replicate r 0"
    by (simp add: replicate_add)
  also have "page_loop rm pid b (0x1000 * k + 0x1000)
      ((p0 @ replicate 0x1000 0) @ replicate r 0) (0x1000 * k) =
      ((p0 @ replicate 0x1000 0) @ p2, 0x1000 * k + length (replicate r (0 :: u8)))"
    by (rule page_loop_rest [OF mem]) (use len p2 in simp_all)
  finally show ?thesis by simp
qed

text \<open>The count then serves as the length of a prefix, and the header brings the tail back.\<close>

lemma fit_extends:
  assumes mem: "reads_memory rm pid m" and magic: "take 4 buf = dex_magic"
    and hdr: "le32 buf 0x20 = Some z" and ok: "file_size_ok z" and len: "0x24 \<le> length buf"
    and more: "length buf < unat z"
    and tail: "read_bytes m (b + of_nat (length buf)) (unat z - length buf) = Some rest"
  shows "fit_to_header rm pid b buf = (buf @ rest, z)"
proof -
  have n: "unat (of_nat (unat z - length buf) :: u32) = unat z - length buf"
    by (rule le_unat_uoi [of _ z]) simp
  have l: "unat (of_nat (length buf) :: u32) = length buf"
    by (rule le_unat_uoi [of _ z]) (use more in simp)
  have "read_remote_range rm pid (b + of_nat (length buf)) (of_nat (unat z - length buf)) =
      (rest, unat z - length buf)"
    using read_remote_range_readable [OF mem, of "b + of_nat (length buf)"
        "of_nat (unat z - length buf)" rest] tail n by simp
  moreover have "\<not> z \<le> of_nat (length buf)" using more l by (simp add: word_le_nat_alt)
  moreover have "length rest = unat z - length buf" by (rule read_bytes_length [OF tail])
  ultimately show ?thesis
    using magic hdr ok len unfolding fit_to_header_def starts_with_def Let_def by simp
qed

lemma fallback_hole:
  assumes mem: "reads_memory (w_remote w) pid m" and p0: "read_bytes m b (0x1000 * k) = Some p0"
    and hole: "read_bytes m (b + of_nat (0x1000 * k)) 0x1000 = None"
    and p2: "read_bytes m (b + of_nat (0x1000 * k + 0x1000)) r = Some p2"
    and r: "1 \<le> k" "0x1000 \<le> r" and Z: "Z = p0 @ replicate 0x1000 0 @ p2"
    and host: "host_saves h pid b Z" and hdr: "le32 p0 0x20 = Some (dex_len Z)"
    and ev: "failure_of pid b (dex_len Z) d" "4 \<le> length ex" "w_running w"
    and st: "key_fresh st pid b (dex_len Z)"
  shows "files (handle_read_failure h w (image ex (Read_failure d)) st) =
    files st @ [(Dex_plain pid b (dex_len Z), Z)]"
proof -
  let ?got = "0x1000 * k + r" and ?st = "fetched_state pid b (dex_len Z) st"
  have len: "length p0 = 0x1000 * k" "length p2 = r"
    using read_bytes_length [OF p0] read_bytes_length [OF p2] by simp_all
  from host have acc: "dex_accepted Z" "length Z \<le> 0x40000000" by (simp_all add: host_saves_def)
  have z: "unat (dex_len Z) = 0x1000 * k + 0x1000 + r"
    using dex_len_unat [OF acc(2)] len by (simp add: Z)
  have range: "size_in_range (dex_len Z)" by (rule dex_size_in_range(1) [OF acc])
  have k: "0x1000 \<le> 0x1000 * k" using r(1) by simp
  note read = hole_range [OF mem p0 hole p2 z, folded Z]
  have tail: "read_bytes m (b + of_nat ?got) 0x1000 = Some (drop (r - 0x1000) p2)"
  proof -
    have "b + of_nat (0x1000 * k + 0x1000) + of_nat (r - 0x1000) =
        b + of_nat (0x1000 * k + 0x1000 + (r - 0x1000))" by (simp only: of_nat_add add.assoc)
    moreover have "0x1000 * k + 0x1000 + (r - 0x1000) = ?got" using r(2) by simp
    moreover have "take 0x1000 (drop (r - 0x1000) p2) = drop (r - 0x1000) p2" using len by simp
    ultimately show ?thesis
      using read_bytes_take_drop [OF p2, of "r - 0x1000" "0x1000"] r(2) by (simp only: le_add_diff_inverse2)
  qed
  have buf: "length (take ?got Z) = ?got" using len by (simp add: Z)
  have magic: "take 4 (take ?got Z) = dex_magic"
    using accepted_magic [OF acc(1)] k by (simp add: min_def)
  have "le32 (take ?got Z) 0x20 = le32 p0 0x20"
    using k len by (simp add: le32_def slice_get_def Z take_drop)
  moreover have "unat (dex_len Z) - length (take ?got Z) = 0x1000" using buf z by simp
  ultimately have "fit_to_header (w_remote w) pid b (take ?got Z) =
      (take ?got Z @ drop (r - 0x1000) p2, dex_len Z)"
    using fit_extends [OF mem magic, of "dex_len Z" b "drop (r - 0x1000) p2"] hdr range tail buf z k
    by (simp add: file_size_ok_def size_in_range_def)
  also have "take ?got Z @ drop (r - 0x1000) p2 = Z"
  proof -
    have "drop ?got Z = drop (r - 0x1000) p2" using len r(2) by (simp add: Z)
    then show ?thesis by (metis append_take_drop_id)
  qed
  finally have fit: "fit_to_header (w_remote w) pid b
      (if ?got < unat (dex_len Z) then take ?got Z else Z) = (Z, dex_len Z)"
    using z by simp
  have "handle_read_failure h w (image ex (Read_failure d)) st =
      save_dex h (Some pid) b (dex_len Z) Z ?st"
    by (rule handle_read_failure_fresh [OF ev range st read _ fit]) (use k in simp)
  also have "files \<dots> = files st @ [(Dex_plain pid b (dex_len Z), Z)]"
    using st by (subst save_dex_complete [OF host])
      (simp_all add: fetched_state_def key_fresh_def)
  finally show ?thesis .
qed

section \<open>A tail that is missing\<close>

text \<open>Without the byte behind the buffer the header cannot extend it.\<close>

lemma read_remote_range_le: "snd (read_remote_range rm pid base len) \<le> unat len"
proof -
  have "snd (page_loop rm pid base 0 (replicate (unat len) 0) 0) \<le> unat len"
    using page_loop_total [of rm pid base 0 "replicate (unat len) 0" 0] by simp
  then show ?thesis by (auto simp: read_remote_range_def split: option.split)
qed

lemma read_remote_range_short:
  assumes mem: "reads_memory rm pid m" and "m base = None" and "len \<noteq> 0"
  shows "snd (read_remote_range rm pid base len) < unat len"
proof (rule ccontr)
  assume "\<not> ?thesis"
  with read_remote_range_le [of rm pid base len]
  have "read_remote_range rm pid base len = (fst (read_remote_range rm pid base len), unat len)"
    by (simp add: prod_eq_iff)
  from read_remote_range_full [OF mem this] have "\<forall>i < unat len. m (base + of_nat i) \<noteq> None"
    using read_bytes_Some_iff [of m base "unat len"] by auto
  moreover have "0 < unat len" using assms(3) by (simp add: unat_gt_0)
  ultimately have "m (base + of_nat 0) \<noteq> None" by blast
  with assms(2) show False by simp
qed

lemma accepted_take: "dex_accepted D \<Longrightarrow> 112 \<le> n \<Longrightarrow> dex_accepted (take n D)"
  by (simp add: dex_accepted_iff min_def)

lemma fit_short:
  assumes mem: "reads_memory rm pid m" and dark: "m (b + of_nat (length buf)) = None"
    and acc: "dex_accepted buf" and len: "length buf \<le> 0x40000000"
    and fit: "fit_to_header rm pid b buf = (bytes, out_size)"
  shows "unat out_size \<le> length buf" and "dex_accepted bytes"
proof -
  have "unat out_size \<le> length buf \<and> dex_accepted bytes"
  proof (cases "le32 buf 0x20")
    case None
    with fit acc len show ?thesis
      by (auto simp: fit_to_header_def Let_def unat_of_nat take_bit_nat_eq_self split: if_splits)
  next
    case (Some hdr)
    have l: "unat (of_nat (length buf) :: u32) = length buf"
      using len by (simp add: unat_of_nat take_bit_nat_eq_self)
    let ?need = "unat hdr - length buf"
    have "snd (read_remote_range rm pid (b + of_nat (length buf)) (of_nat ?need)) < ?need"
      if "\<not> hdr \<le> of_nat (length buf)"
    proof -
      have u: "unat (of_nat ?need :: u32) = ?need" by (rule le_unat_uoi [of _ hdr]) simp
      have pos: "0 < ?need" using that l by (simp add: word_le_nat_alt)
      with u have "(of_nat ?need :: u32) \<noteq> 0" by (metis unat_0 less_irrefl)
      from read_remote_range_short [OF mem dark this] u show ?thesis by metis
    qed
    with fit acc len l Some show ?thesis
      by (auto simp: fit_to_header_def Let_def file_size_ok_def word_le_nat_alt
          intro!: accepted_take split: if_splits prod.splits)
  qed
  then show "unat out_size \<le> length buf" and "dex_accepted bytes" by simp_all
qed

lemma save_dex_other_size:
  assumes "\<not> captures_sealed st" and "\<not> h_skip_system h pid b z" and "dex_accepted bytes"
    and "dex_sizes st (pid, b) = Some old" and "old \<noteq> z"
  shows "(pid, b) \<in> ambiguous_dex (save_dex h (Some pid) b z bytes st)"
proof -
  have "(pid, b) \<in> ambiguous_dex (observe_dex pid b z st)"
    using assms(4,5) by (simp add: observe_dex_def quarantine_dex_def)
  then show ?thesis
    using assms(1-3) by (simp add: save_dex_def Let_def quarantine_dex_def split: option.split)
qed

lemma tail_range:
  assumes mem: "reads_memory rm pid m" and p0: "read_bytes m b (0x1000 * k) = Some p0"
    and z: "0x1000 * k < unat z"
    and dark: "\<And>i. 0x1000 * k \<le> i \<Longrightarrow> i < unat z \<Longrightarrow> m (b + of_nat i) = None"
  shows "read_remote_range rm pid b z = (p0 @ replicate (unat z - 0x1000 * k) 0, 0x1000 * k)"
proof -
  have len: "length p0 = 0x1000 * k" by (rule read_bytes_length [OF p0])
  have "m (b + of_nat (0x1000 * k)) = None" using dark [of "0x1000 * k"] z by simp
  then have "read_bytes m b (unat z) = None"
    using read_bytes_Some_iff [of m b "unat z"] z by (cases "read_bytes m b (unat z)") auto
  moreover have "z \<noteq> 0" using z by auto
  ultimately have "read_remote_range rm pid b z = page_loop rm pid b 0 ([] @ replicate (unat z) 0) 0"
    using read_remote_range_pages [OF mem] by simp
  also have "\<dots> = page_loop rm pid b (0 + 0x1000 * k)
      ([] @ p0 @ drop (0x1000 * k) (replicate (unat z) 0)) (0 + 0x1000 * k)"
    by (rule page_loop_pages [OF mem]) (use p0 z in simp_all)
  also have "\<dots> = page_loop rm pid b (0x1000 * k)
      (p0 @ replicate (unat z - 0x1000 * k) 0) (0x1000 * k)" by simp
  also have "\<dots> = (p0 @ replicate (unat z - 0x1000 * k) 0, 0x1000 * k)"
    by (rule page_loop_dark [OF mem]) (use len z dark in simp_all)
  finally show ?thesis .
qed

lemma fallback_tail:
  assumes mem: "reads_memory (w_remote w) pid m" and p0: "read_bytes m b (0x1000 * k) = Some p0"
    and k: "1 \<le> k" "0x1000 * k < unat z" and range: "size_in_range z"
    and dark: "\<And>i. 0x1000 * k \<le> i \<Longrightarrow> i < unat z \<Longrightarrow> m (b + of_nat i) = None"
    and acc: "dex_accepted p0" and skip: "\<And>n. \<not> h_skip_system h pid b n"
    and ev: "failure_of pid b z d" "4 \<le> length ex" "w_running w" and st: "key_fresh st pid b z"
  shows "(pid, b) \<in> ambiguous_dex (handle_read_failure h w (image ex (Read_failure d)) st)"
proof -
  have len: "length p0 = 0x1000 * k" by (rule read_bytes_length [OF p0])
  have z: "unat z \<le> 0x40000000" using range by (simp add: size_in_range_def word_le_nat_alt)
  note read = tail_range [OF mem p0 k(2) dark]
  have cut: "(if 0x1000 * k < unat z then take (0x1000 * k) (p0 @ replicate (unat z - 0x1000 * k) 0)
      else p0 @ replicate (unat z - 0x1000 * k) 0) = p0"
    using k(2) len by simp
  obtain bytes out_size where fit: "fit_to_header (w_remote w) pid b p0 = (bytes, out_size)"
    by fastforce
  have "m (b + of_nat (length p0)) = None" using dark [of "length p0"] len k(2) by simp
  note short = fit_short [OF mem this acc _ fit]
  have "length p0 \<le> 0x40000000" using len k(2) z by linarith
  from short(1) [OF this] short(2) [OF this] have out: "unat out_size \<le> length p0"
    and bytes: "dex_accepted bytes" .
  have "handle_read_failure h w (image ex (Read_failure d)) st =
      save_dex h (Some pid) b out_size bytes (fetched_state pid b z st)"
    by (rule handle_read_failure_fresh [OF ev range st read]) (use k(1) cut fit in simp_all)
  moreover have "(pid, b) \<in> ambiguous_dex
      (save_dex h (Some pid) b out_size bytes (fetched_state pid b z st))"
  proof (rule save_dex_other_size [where old = z])
    show "z \<noteq> out_size" using out len k(2) by auto
  qed (use st skip bytes in \<open>simp_all add: fetched_state_def key_fresh_def\<close>)
  ultimately show ?thesis by simp
qed

end
