(* ===== verification/Main_Loop.thy ===== *)
theory Main_Loop
  imports Method_Records Pipeline Fallback
begin

text \<open>
  The main loop of \<^verbatim>\<open>run\<close> in \<^verbatim>\<open>src/dump.rs\<close>: one iteration drains the seven rings in a
  fixed order, each up to a batch limit, and drops reassembly buffers that received nothing
  for thirty seconds; shutdown drains what is left, seals the captures and writes the JSON
  files. A queue holds the records with what each of them finds; \<open>None\<close> is a handler that
  does not return.
\<close>

section \<open>The rings\<close>

type_synonym queue = "(world \<times> u8 list) list"

definition DRAIN_BATCH_LIMIT :: nat where "DRAIN_BATCH_LIMIT = 1024"

text \<open>
  \<^verbatim>\<open>drain_ring\<close> for at most \<open>n\<close> records: what is left and the state. \<^verbatim>\<open>drain_final_ring\<close> is the
  same loop with the number of steps until a second signal in place of the batch limit.
\<close>

fun drain_ring :: "host \<Rightarrow> scan_conf \<Rightarrow> (u8 list \<Rightarrow> ring_record) \<Rightarrow> nat \<Rightarrow> queue \<Rightarrow> dump_state \<Rightarrow>
    (queue \<times> dump_state) option" where
  "drain_ring h conf c 0 q st = Some (q, st)"
| "drain_ring h conf c (Suc n) [] st = Some ([], st)"
| "drain_ring h conf c (Suc n) ((w, data) # q) st =
     Option.bind (handle_any h conf w (c data) st) (drain_ring h conf c n q)"

record rings =
  rg_events :: queue
  rg_methods :: queue
  rg_chunks :: queue
  rg_failures :: queue
  rg_layout :: queue
  rg_native :: queue
  rg_jni :: queue

definition drain_all :: "host \<Rightarrow> scan_conf \<Rightarrow> nat \<Rightarrow> rings \<Rightarrow> dump_state \<Rightarrow> (rings \<times> dump_state) option" where
  "drain_all h conf n rg st =
     Option.bind (drain_ring h conf Dex_rec n (rg_events rg) st) (\<lambda>(events, st).
     Option.bind (drain_ring h conf Method_rec n (rg_methods rg) st) (\<lambda>(methods, st).
     Option.bind (drain_ring h conf Chunk_rec n (rg_chunks rg) st) (\<lambda>(chunks, st).
     Option.bind (drain_ring h conf Failure_rec n (rg_failures rg) st) (\<lambda>(failures, st).
     Option.bind (drain_ring h conf Layout_rec n (rg_layout rg) st) (\<lambda>(layout, st).
     Option.bind (drain_ring h conf Native_rec n (rg_native rg) st) (\<lambda>(native, st).
     Option.bind (drain_ring h conf Jni_rec n (rg_jni rg) st) (\<lambda>(jni, st).
     Some (\<lparr>rg_events = events, rg_methods = methods, rg_chunks = chunks, rg_failures = failures,
        rg_layout = layout, rg_native = native, rg_jni = jni\<rparr>, st))))))))"

text \<open>\<open>live\<close> holds of the keys whose buffer received a chunk within the last thirty seconds.\<close>

definition purge_stale :: "(dex_id \<Rightarrow> bool) \<Rightarrow> dump_state \<Rightarrow> dump_state" where
  "purge_stale live st =
     st\<lparr>pending_dex := (\<lambda>k. if live k then pending_dex st k else None)\<rparr>"

definition main_iteration ::
  "host \<Rightarrow> scan_conf \<Rightarrow> (dex_id \<Rightarrow> bool) \<Rightarrow> rings \<Rightarrow> dump_state \<Rightarrow> (rings \<times> dump_state) option" where
  "main_iteration h conf live rg st =
     map_option (\<lambda>(rg', st'). (rg', purge_stale live st')) (drain_all h conf DRAIN_BATCH_LIMIT rg st)"

text \<open>
  What follows the loop: the final drain (\<open>n\<close> bounds the records per ring, the second signal
  ends it earlier), the seal, and the JSON files with the state after them.
\<close>

definition seal :: "dump_state \<Rightarrow> dump_state" where
  "seal st = st\<lparr>captures_sealed := True\<rparr>"

definition shutdown_loop :: "host \<Rightarrow> scan_conf \<Rightarrow> nat \<Rightarrow> rings \<Rightarrow> dump_state \<Rightarrow>
    ((dex_id \<Rightarrow> ((u32 \<times> u64 \<times> u32) \<times> method_code_record list) option) \<times> dump_state) option" where
  "shutdown_loop h conf n rg st =
     map_option (\<lambda>(_, st'). flush_json (seal st')) (drain_all h conf n rg st)"

section \<open>The loop keeps the invariant\<close>

lemma drain_ring_inv:
  "dump_inv st \<Longrightarrow> drain_ring h conf c n q st = Some (q', st') \<Longrightarrow> dump_inv st'"
proof (induction h conf c n q st rule: drain_ring.induct)
  case (3 h conf c n w data q st)
  then show ?case by (auto simp: bind_eq_Some_conv dest: handle_any_inv)
qed simp_all

lemma drain_bind:
  assumes "Option.bind (drain_ring h conf c n q st) (\<lambda>(q', s). g q' s) = Some r" and "dump_inv st"
  obtains q' s where "g q' s = Some r" and "dump_inv s"
  using assms by (auto simp: bind_eq_Some_conv dest: drain_ring_inv)

lemma drain_all_inv:
  assumes inv: "dump_inv st" and run: "drain_all h conf n rg st = Some (rg', st')"
  shows "dump_inv st'"
  using run inv unfolding drain_all_def by (elim drain_bind) simp_all

lemma purge_inv: "dump_inv st \<Longrightarrow> dump_inv (purge_stale live st)"
  by (auto simp: dump_inv_def recv_inv_def files_inv_def pending_inv_def names_coherent_def
      purge_stale_def)

lemma main_iteration_inv:
  "dump_inv st \<Longrightarrow> main_iteration h conf live rg st = Some (rg', st') \<Longrightarrow> dump_inv st'"
  by (auto simp: main_iteration_def intro: purge_inv drain_all_inv)

section \<open>Dropping a reassembly buffer\<close>

lemma purge_assembled:
  assumes "assembled pid b D fs cov st" and "\<not> whole D cov" and "\<not> live (pid, b)"
    and "\<not> whole D {}"
  shows "assembled pid b D fs {} (purge_stale live st)"
  using assms by (simp add: assembled_def purge_stale_def)

text \<open>What the calls for one DEX sent are pieces of it, from the progress before to the one after.\<close>

lemma calls_pieces:
  assumes un: "list_all (\<lambda>e. unobstructed e b D) es" and len: "length D = unat sz" and "16 \<le> length D"
    and le: "dex_progress s (dex_image_key pid b D) \<le> sz"
  shows "\<forall>c \<in> set (sent_since s (submit_dex_calls es b pid sz s)). piece_of pid b D c"
    and "spans (sent_since s (submit_dex_calls es b pid sz s)) =
      {dex_progress s (dex_image_key pid b D)..<
       dex_progress (submit_dex_calls es b pid sz s) (dex_image_key pid b D)}"
    and "unat (dex_progress (submit_dex_calls es b pid sz s) (dex_image_key pid b D)) =
      min (length D) (unat (dex_progress s (dex_image_key pid b D)) + length es * BYTES_PER_CALL)"
proof -
  have un': "\<forall>e \<in> set es. unobstructed e b D" using un by (simp add: list_all_iff)
  from submit_dex_calls_unobstructed [OF un' len assms(3) le] obtain cs where
    o: "out (submit_dex_calls es b pid sz s) = out s @ forced cs"
    and p: "unat (dex_progress (submit_dex_calls es b pid sz s) (dex_image_key pid b D)) =
      min (unat sz) (unat (dex_progress s (dex_image_key pid b D)) + length es * BYTES_PER_CALL)"
    and t: "dex_tiles b pid sz D (dex_progress s (dex_image_key pid b D)) cs
      (dex_progress (submit_dex_calls es b pid sz s) (dex_image_key pid b D))" by blast
  from dex_tiles_pieces [OF len t le] sent_since_forced [OF o]
  show "\<forall>c \<in> set (sent_since s (submit_dex_calls es b pid sz s)). piece_of pid b D c"
    and "spans (sent_since s (submit_dex_calls es b pid sz s)) =
      {dex_progress s (dex_image_key pid b D)..<
       dex_progress (submit_dex_calls es b pid sz s) (dex_image_key pid b D)}" by simp_all
  show "unat (dex_progress (submit_dex_calls es b pid sz s) (dex_image_key pid b D)) =
      min (length D) (unat (dex_progress s (dex_image_key pid b D)) + length es * BYTES_PER_CALL)"
    using p len by simp
qed

text \<open>Records whose events are pieces.\<close>

lemma records_pieces:
  assumes "set (map snd recs) = set cs" and "\<forall>c \<in> set cs. piece_of pid b D c"
  shows "\<forall>(ex, ev) \<in> set recs. piece_of pid b D ev"
proof (clarify)
  fix ex ev assume "(ex, ev) \<in> set recs"
  then have "ev \<in> set (map snd recs)" by force
  with assms show "piece_of pid b D ev" by blast
qed

lemma calls_idle:
  assumes "list_all (\<lambda>e. unobstructed e b D) es" and "length D = unat sz" and "16 \<le> length D"
    and "dex_progress s (dex_image_key pid b D) = sz"
  shows "submit_dex_calls es b pid sz s = s"
  using assms(1)
proof (induction es)
  case (Cons e es)
  then have "dex_key e pid b sz = dex_image_key pid b D"
    by (intro dex_key_image) (use assms in \<open>simp_all add: unobstructed_def\<close>)
  then have "submit_dex_chunks_partial e b pid sz s = s"
    using assms(4) by (intro submit_partial_idle) simp
  with Cons show ?case by (simp add: submit_dex_calls_def)
qed (simp add: submit_dex_calls_def)

lemma stale_cleanup:
  assumes new: "map_of (dexProgress_map s) (dex_image_key pid b D) = None"
    and un: "list_all (\<lambda>e. unobstructed e b D) (es1 @ es2 @ es3)" and len: "length D = unat sz"
    and host: "host_saves h pid b D"
    and part: "es1 \<noteq> []" "length es1 * BYTES_PER_CALL < length D"
    and rest: "length D \<le> (length es1 + length es2) * BYTES_PER_CALL"
    and s1: "s1 = submit_dex_calls es1 b pid sz s" and s2: "s2 = submit_dex_calls es2 b pid sz s1"
    and recs: "set (map snd recs1) = set (sent_since s s1)"
      "set (map snd recs2) = set (sent_since s1 s2)" and stale: "\<not> live (pid, b)"
  shows "submit_dex_calls es3 b pid sz s2 = s2"
    and "files (receive_all h recs2 (purge_stale live (receive_all h recs1 dump_state_new))) = []"
proof -
  let ?k = "dex_image_key pid b D"
  from host have acc: "dex_accepted D" "length D \<le> 0x40000000" by (simp_all add: host_saves_def)
  then have long: "16 \<le> length D" by (simp add: dex_accepted_iff)
  have sz: "dex_len D = sz" using len by (simp add: dex_len_def)
  have un1: "list_all (\<lambda>e. unobstructed e b D) es1" "list_all (\<lambda>e. unobstructed e b D) es2"
    "list_all (\<lambda>e. unobstructed e b D) es3" using un by simp_all
  have zero: "dex_progress s ?k = 0" using new by (simp add: dex_progress_def)
  note c1 = calls_pieces [OF un1(1) len long, where s = s and pid = pid, folded s1, unfolded zero, simplified]
  have p1: "0 < dex_progress s1 ?k" "dex_progress s1 ?k < sz"
    using c1(3) part len by (simp_all add: word_less_nat_alt BYTES_PER_CALL_def)
  note c2 = calls_pieces [OF un1(2) len long less_imp_le [OF p1(2)], folded s2]
  have "unat (dex_progress s2 ?k) = length D"
    using c2(3) c1(3) part(2) rest by (simp add: algebra_simps)
  then have "dex_progress s2 ?k = sz" using len by (simp add: word_unat_eq_iff)
  then show "submit_dex_calls es3 b pid sz s2 = s2" by (rule calls_idle [OF un1(3) len long])
  have "assembled pid b D [] ({} \<union> spans (map snd recs1)) (receive_all h recs1 dump_state_new)"
    by (rule assembled_all [OF host assembled_start [OF acc] records_pieces [OF recs(1) c1(1)]])
  moreover have "spans (map snd recs1) = {0..<dex_progress s1 ?k}"
    using spans_cong [OF recs(1)] c1(2) by simp
  moreover have "\<not> whole D {0..<dex_progress s1 ?k}"
  proof -
    have "dex_progress s1 ?k \<in> {0..<dex_len D}" using p1(2) sz by simp
    then show ?thesis by (auto simp: whole_def)
  qed
  moreover have none: "\<not> whole D {}"
    by (rule dex_len_pos_not_whole_empty [OF dex_size_in_range(2) [OF acc]])
  ultimately have "assembled pid b D [] {} (purge_stale live (receive_all h recs1 dump_state_new))"
    using purge_assembled [of pid b D "[]" "{0..<dex_progress s1 ?k}"] stale by simp
  from assembled_all [OF host this records_pieces [OF recs(2) c2(1)]]
  have "assembled pid b D [] (spans (map snd recs2))
      (receive_all h recs2 (purge_stale live (receive_all h recs1 dump_state_new)))" by simp
  moreover have "spans (map snd recs2) = {dex_progress s1 ?k..<dex_progress s2 ?k}"
    using spans_cong [OF recs(2)] c2(2) by simp
  moreover have "\<not> whole D {dex_progress s1 ?k..<dex_progress s2 ?k}"
  proof -
    have "0 \<in> {0..<dex_len D}" using sz p1(2) by (auto intro: le_less_trans [OF word_zero_le])
    with p1(1) show ?thesis by (auto simp: whole_def)
  qed
  ultimately show "files (receive_all h recs2 (purge_stale live (receive_all h recs1 dump_state_new))) = []"
    by (simp add: assembled_def)
qed

section \<open>The order of the rings\<close>

text \<open>As long as its key stays unambiguous, a DEX loses none of its method records.\<close>

lemma observe_records:
  "(p, b) \<notin> ambiguous_dex (observe_dex p b z st) \<Longrightarrow>
     method_records (observe_dex p b z st) = method_records st"
  by (auto simp: observe_dex_def quarantine_dex_def Let_def split: option.splits if_splits)

lemma save_records:
  assumes "(p, b) \<notin> ambiguous_dex (save_dex h (Some p) b z bytes st)"
  shows "method_records (save_dex h (Some p) b z bytes st) = method_records st"
proof -
  have o: "(p, b) \<notin> ambiguous_dex (observe_dex p b z st) \<Longrightarrow>
      method_records (observe_dex p b z st) = method_records st" by (rule observe_records)
  show ?thesis
    using assms o
    by (auto simp: save_dex_def Let_def quarantine_dex_def split: option.splits if_splits)
qed

lemma chunk_records:
  assumes "parse_dex_chunk xs = Some hdr"
    and "(dce_pid hdr, dce_begin hdr) \<notin> ambiguous_dex (handle_dex_chunk h xs st)"
  shows "method_records (handle_dex_chunk h xs st) = method_records st"
proof -
  let ?st1 = "observe_dex (dce_pid hdr) (dce_begin hdr) (dce_size hdr) st"
  show ?thesis
  proof (cases "\<not> size_in_range (dce_size hdr) \<or> unat (dce_data_len hdr) = 0 \<or>
      2 ^ 32 \<le> unat (dce_offset hdr) + unat (dce_data_len hdr) \<or>
      unat (dce_size hdr) < unat (dce_offset hdr) + unat (dce_data_len hdr) \<or>
      (dce_pid hdr, dce_begin hdr) \<in> ambiguous_dex ?st1")
    case True
    with assms show ?thesis
      by (auto simp: handle_dex_chunk_def Let_def observe_records)
  next
    case False
    then have o: "method_records ?st1 = method_records st" by (intro observe_records) simp
    from assms False show ?thesis
      unfolding handle_dex_chunk_def assms(1) option.case Let_def
      by (auto simp: o quarantine_dex_def dest!: save_records split: option.splits if_splits)
  qed
qed

lemma receive_all_records:
  assumes host: "host_saves h pid b D"
  shows "assembled pid b D fs cov st \<Longrightarrow> \<forall>(ex, ev) \<in> set recs. piece_of pid b D ev \<Longrightarrow>
    method_records (receive_all h recs st) = method_records st"
proof (induction recs arbitrary: cov st)
  case (Cons r recs)
  obtain ex ev where r: "r = (ex, ev)" by (cases r)
  with Cons.prems have piece: "piece_of pid b D ev" by simp
  then obtain hdr payload where ev: "ev = Dex_chunk hdr payload" "dce_pid hdr = pid" "dce_begin hdr = b"
    by (cases ev) (auto simp: piece_of_def)
  let ?st = "handle_dex_chunk h (image ex ev) st"
  have asm: "assembled pid b D fs (cov \<union> piece_span ev) ?st"
    by (rule assembled_step [OF host Cons.prems(1) piece])
  then have "(pid, b) \<notin> ambiguous_dex ?st" by (simp add: assembled_def)
  then have "method_records ?st = method_records st"
    using chunk_records [OF parse_dex_chunk_image, of hdr h ex payload st] ev by simp
  moreover have "method_records (receive_all h recs ?st) = method_records ?st"
    by (rule Cons.IH [OF asm]) (use Cons.prems(2) in simp)
  ultimately show ?case by (simp add: receive_all_def r)
qed (simp add: receive_all_def)

lemma drain_ring_all:
  "length q \<le> n \<Longrightarrow> drain_ring h conf Chunk_rec n q st =
     Some ([], fold (\<lambda>(w, data). handle_dex_chunk h data) q st)"
proof (induction q arbitrary: n st)
  case Nil
  then show ?case by (cases n) simp_all
next
  case (Cons r q)
  then obtain k where "n = Suc k" by (cases n) auto
  with Cons show ?case by (cases r) simp
qed

lemma drain_ring_Nil [simp]: "drain_ring h conf c n [] st = Some ([], st)"
  by (cases n) simp_all

lemma drain_ring_one [simp]:
  "0 < n \<Longrightarrow> drain_ring h conf Method_rec n [(w, data)] st = Some ([], handle_method_event h data st)"
  by (cases n) simp_all

definition no_rings :: rings where
  "no_rings = \<lparr>rg_events = [], rg_methods = [], rg_chunks = [], rg_failures = [], rg_layout = [],
     rg_native = [], rg_jni = []\<rparr>"

text \<open>The chunk records of one DEX, as they lie in their ring.\<close>

definition chunk_queue :: "world \<Rightarrow> (u8 list \<times> bpf_event) list \<Rightarrow> queue" where
  "chunk_queue w recs = map (\<lambda>(ex, ev). (w, image ex ev)) recs"

lemma fold_chunk_queue:
  "fold (\<lambda>(w, data). handle_dex_chunk h data) (chunk_queue w recs) st = receive_all h recs st"
  by (induction recs arbitrary: st) (auto simp: chunk_queue_def receive_all_def)

text \<open>A method event for a DEX that has not arrived is recorded under its index.\<close>

lemma early_method_event:
  fixes ex :: "u8 list" and h :: host
  assumes inv: "names_coherent st" and fresh: "key_fresh st (med_pid d) (med_begin d) (med_size d)"
    and range: "size_in_range (med_size d)"
    and code: "length code = unat (med_codeitem_size d)" "code \<noteq> []"
  defines "st' \<equiv> handle_method_event h (image ex (Method_event d code)) st"
  shows "records_of st' (med_pid d, med_begin d) = records_of st (med_pid d, med_begin d) @
      [\<lparr>mcr_name = unresolved_name (med_method_index d), mcr_method_idx = med_method_index d,
        mcr_code = h_hex_encode h code\<rparr>]"
    and "files st' = files st" and "dex_cache st' = dex_cache st"
    and "captures_sealed st' = captures_sealed st" and "ambiguous_dex st' = ambiguous_dex st"
    and "pending_dex st' = pending_dex st"
    and "dex_sizes st' (med_pid d, med_begin d) = Some (med_size d)"
proof -
  let ?key = "(med_pid d, med_begin d)"
  let ?st1 = "observe_dex (med_pid d) (med_begin d) (med_size d) st"
  have obs: "?st1 = st\<lparr>dex_sizes := (dex_sizes st)(?key \<mapsto> med_size d)\<rparr>"
    by (rule observe_fresh [OF fresh range])
  have coh: "names_coherent ?st1" by (rule observe_names [OF inv])
  obtain name st2 where r: "method_name (med_pid d) (med_begin d) (med_method_index d) ?st1 = (name, st2)"
    by fastforce
  with method_name_coherent [OF coh, of "med_pid d" "med_begin d" "med_method_index d"] fresh
  have name: "name = unresolved_name (med_method_index d)" and recs: "method_records st2 = method_records ?st1"
    by (simp_all add: key_fresh_def resolve_name_def)
  have frame: "files st2 = files st" "dex_cache st2 = dex_cache st"
    "captures_sealed st2 = captures_sealed st" "ambiguous_dex st2 = ambiguous_dex st"
    "pending_dex st2 = pending_dex st" "dex_sizes st2 ?key = Some (med_size d)"
    using r [unfolded obs] by (auto simp: method_name_def Let_def split: option.splits)
  note parse = parse_method_event_image [of ex d code]
  note bytes = method_event_bytecode_image [OF parse code]
  have st': "st' = push_record ?key \<lparr>mcr_name = name, mcr_method_idx = med_method_index d,
        mcr_code = h_hex_encode h code\<rparr> st2"
    unfolding st'_def handle_method_event_def parse option.case Let_def bytes method_event.simps r prod.case
    using fresh code obs by (simp add: key_fresh_def)
  show "records_of st' ?key = records_of st ?key @
      [\<lparr>mcr_name = unresolved_name (med_method_index d), mcr_method_idx = med_method_index d,
        mcr_code = h_hex_encode h code\<rparr>]"
    using name recs obs st' by (simp add: records_of_def push_record_def split: option.split)
  show "files st' = files st" and "dex_cache st' = dex_cache st"
    and "captures_sealed st' = captures_sealed st" and "ambiguous_dex st' = ambiguous_dex st"
    and "pending_dex st' = pending_dex st" and "dex_sizes st' ?key = Some (med_size d)"
    using frame by (simp_all add: st' push_record_def)
qed

lemma methods_overtake_chunks:
  assumes inv: "dump_inv st" and fresh: "key_fresh st pid b (dex_len D)" and pend: "pending_dex st (pid, b) = None"
    and host: "host_saves h pid b D"
    and d: "med_pid d = pid" "med_begin d = b" "med_size d = dex_len D"
    and code: "length code = unat (med_codeitem_size d)" "code \<noteq> []"
    and recs: "\<forall>(e, ev) \<in> set recs. piece_of pid b D ev" "{0..<dex_len D} \<subseteq> spans (map snd recs)"
      "length recs \<le> DRAIN_BATCH_LIMIT"
    and rg: "rg = no_rings\<lparr>rg_methods := [(w, image ex (Method_event d code))],
      rg_chunks := chunk_queue w recs\<rparr>"
  shows "\<exists>st'. main_iteration h conf live rg st = Some (no_rings, st') \<and>
    files st' = files st @ [(Dex_plain pid b (dex_len D), D)] \<and> dex_cache st' (pid, b) = Some D \<and>
    records_of st' (pid, b) = records_of st (pid, b) @
      [\<lparr>mcr_name = unresolved_name (med_method_index d), mcr_method_idx = med_method_index d,
        mcr_code = h_hex_encode h code\<rparr>]"
proof -
  let ?st1 = "handle_method_event h (image ex (Method_event d code)) st"
  let ?st2 = "receive_all h recs ?st1"
  from host have acc: "dex_accepted D" "length D \<le> 0x40000000" by (simp_all add: host_saves_def)
  have range: "size_in_range (med_size d)" using dex_size_in_range(1) [OF acc] d(3) by simp
  have coh: "names_coherent st" using inv by (simp add: dump_inv_def)
  have fr: "key_fresh st (med_pid d) (med_begin d) (med_size d)" using fresh d by simp
  note early = early_method_event [OF coh fr range code, where ex = ex, unfolded d]
  have none: "\<not> whole D {}"
    by (rule dex_len_pos_not_whole_empty [OF dex_size_in_range(2) [OF acc]])
  have start: "assembled pid b D (files st) {} ?st1"
    using early(2-7) fresh pend none by (simp add: assembled_def key_fresh_def)
  have "assembled pid b D (files st) (spans (map snd recs)) ?st2"
    using assembled_all [OF host start recs(1)] by simp
  with recs(2) have whole: "files ?st2 = files st @ [(Dex_plain pid b (dex_len D), D)]"
    "dex_cache ?st2 (pid, b) = Some D"
    by (simp_all add: assembled_def whole_def)
  have "records_of ?st2 (pid, b) = records_of ?st1 (pid, b)"
    using receive_all_records [OF host start recs(1)] by (simp add: records_of_def)
  moreover have "length (chunk_queue w recs) \<le> DRAIN_BATCH_LIMIT" using recs(3) by (simp add: chunk_queue_def)
  then have "main_iteration h conf live rg st = Some (no_rings, purge_stale live ?st2)"
    by (simp add: main_iteration_def drain_all_def rg no_rings_def drain_ring_all fold_chunk_queue
        DRAIN_BATCH_LIMIT_def del: image.simps)
  ultimately show ?thesis
    using whole early(1) by (simp add: purge_stale_def records_of_def)
qed

end
