(* ===== verification/User_Machine.thy ===== *)
theory User_Machine
  imports Main_Loop
begin

text \<open>
  User space as a state machine: the states that records of any ring, in any order and with
  whatever the fallbacks find, the cleanup of stale buffers, sealing and flushing can reach.
  Both the loop and the shutdown of \<^verbatim>\<open>run\<close> move inside it.
\<close>

inductive user_step :: "host \<Rightarrow> scan_conf \<Rightarrow> dump_state \<Rightarrow> dump_state \<Rightarrow> bool"
  for h :: host and conf :: scan_conf where
  record_step: "handle_any h conf w r st = Some st' \<Longrightarrow> user_step h conf st st'"
| purge_step: "user_step h conf st (purge_stale live st)"
| seal_step: "user_step h conf st (seal st)"
| flush_step: "user_step h conf st (snd (flush_json st))"

inductive_cases user_stepE: "user_step h conf st st'"

inductive user_reachable :: "host \<Rightarrow> scan_conf \<Rightarrow> dump_state \<Rightarrow> bool"
  for h :: host and conf :: scan_conf where
  user_start: "user_reachable h conf dump_state_new"
| user_next: "user_reachable h conf st \<Longrightarrow> user_step h conf st st' \<Longrightarrow> user_reachable h conf st'"

section \<open>The invariant of reachable states\<close>

lemma user_step_inv: "user_step h conf st st' \<Longrightarrow> dump_inv st \<Longrightarrow> dump_inv st'"
proof (induction rule: user_step.induct)
  case (record_step w r st st')
  then show ?case by (blast intro: handle_any_inv)
next
  case (purge_step st live)
  then show ?case by (rule purge_inv)
next
  case (seal_step st)
  then show ?case by (rule dump_inv_frame) (use seal_step in \<open>simp_all add: seal_def dump_inv_def\<close>)
next
  case (flush_step st)
  then show ?case
    by (rule dump_inv_frame) (use flush_step in \<open>simp_all add: flush_json_def dump_inv_def\<close>)
qed

lemma user_reachable_inv: "user_reachable h conf st \<Longrightarrow> dump_inv st"
  by (induction rule: user_reachable.induct) (auto intro: dump_inv_new user_step_inv)

section \<open>The loop and the shutdown stay reachable\<close>

lemma drain_ring_reachable:
  "user_reachable h conf st \<Longrightarrow> drain_ring h conf c n q st = Some (q', st') \<Longrightarrow>
     user_reachable h conf st'"
proof (induction h conf c n q st rule: drain_ring.induct)
  case (3 h conf c n w data q st)
  then obtain s where s: "handle_any h conf w (c data) st = Some s"
    "drain_ring h conf c n q s = Some (q', st')" by (auto simp: bind_eq_Some_conv)
  have "user_reachable h conf s" by (rule user_next [OF 3(2) record_step [OF s(1)]])
  with 3(1) s show ?case by blast
qed simp_all

lemma drain_bind_reachable:
  assumes "Option.bind (drain_ring h conf c n q st) (\<lambda>(q', s). g q' s) = Some r"
    and "user_reachable h conf st"
  obtains q' s where "g q' s = Some r" and "user_reachable h conf s"
  using assms by (auto simp: bind_eq_Some_conv dest: drain_ring_reachable)

lemma drain_all_reachable:
  assumes "user_reachable h conf st" and "drain_all h conf n rg st = Some (rg', st')"
  shows "user_reachable h conf st'"
  using assms(2,1) unfolding drain_all_def by (elim drain_bind_reachable) simp_all

lemma main_iteration_reachable:
  assumes "user_reachable h conf st" and "main_iteration h conf live rg st = Some (rg', st')"
  shows "user_reachable h conf st'"
  using assms
  by (auto simp: main_iteration_def intro: user_next [OF drain_all_reachable purge_step])

lemma shutdown_reachable:
  assumes "user_reachable h conf st" and "shutdown_loop h conf n rg st = Some (js, st')"
  shows "user_reachable h conf st'"
proof -
  from assms(2) obtain rg' s where s: "drain_all h conf n rg st = Some (rg', s)"
    and st': "st' = snd (flush_json (seal s))"
    by (auto simp: shutdown_loop_def)
  from user_next [OF drain_all_reachable [OF assms(1) s] seal_step]
  have "user_reachable h conf (seal s)" .
  from user_next [OF this flush_step] st' show ?thesis by simp
qed

section \<open>The JSON files\<close>

text \<open>
  Every JSON file written at shutdown is named after a DEX in the cache that is not in
  doubt, and holds all records collected for it.
\<close>

lemma json_file_iff:
  "json_file st (p, b) = Some ((p', b', n), rs) \<longleftrightarrow>
     (p, b) \<notin> ambiguous_dex st \<and> rs \<noteq> [] \<and> method_records st (p, b) = Some rs \<and> p' = p \<and> b' = b \<and>
     (\<exists>D. dex_cache st (p, b) = Some D \<and> n = of_nat (length D))"
  by (auto simp: json_file_def split: option.splits)

end
