(* ===== verification/Chunk_Slices.thy ===== *)
theory Chunk_Slices
  imports User_Machine
begin

text \<open>
  The chunk handler of \<^verbatim>\<open>src/dump.rs\<close> with every slice it takes checked as Rust checks it: \<open>None\<close> is
  the panic of a range that is not in bounds, or of \<^verbatim>\<open>copy_from_slice\<close> on slices of different lengths.
  In the states user space can reach it never panics, and it is the handler of theory Receiver,
  which reads and writes the buffer with the total functions \<open>take\<close> and \<open>drop\<close>.
\<close>

section \<open>Checked slices\<close>

text \<open>
  \<^verbatim>\<open>intervals.iter().any(..)\<close> stops at the first conflict; the two slices of an interval are taken
  before they are compared.
\<close>

fun conflicts_checked :: "u8 list \<Rightarrow> nat \<Rightarrow> nat \<Rightarrow> u8 list \<Rightarrow> (u32 \<times> u32) list \<Rightarrow> bool option" where
  "conflicts_checked buf off stop payload [] = Some False"
| "conflicts_checked buf off stop payload ((a, z) # intervals) =
     (let left = max (unat a) off; right = min (unat z) stop
      in if left < right then
           (case (slice_get buf left right, slice_get payload (left - off) (right - off)) of
              (Some x, Some y) \<Rightarrow> if x \<noteq> y then Some True else conflicts_checked buf off stop payload intervals
            | _ \<Rightarrow> None)
         else conflicts_checked buf off stop payload intervals)"

definition copy_checked :: "u8 list \<Rightarrow> nat \<Rightarrow> nat \<Rightarrow> u8 list \<Rightarrow> u8 list option" where
  "copy_checked buf off stop payload =
     (case slice_get buf off stop of None \<Rightarrow> None
      | Some old \<Rightarrow> if length old = length payload then Some (take off buf @ payload @ drop stop buf) else None)"

definition handle_dex_chunk_checked :: "host \<Rightarrow> u8 list \<Rightarrow> dump_state \<Rightarrow> dump_state option" where
  "handle_dex_chunk_checked h xs st =
     (case parse_dex_chunk xs of None \<Rightarrow> Some st
      | Some hdr \<Rightarrow>
        let pid = dce_pid hdr; b = dce_begin hdr; z = dce_size hdr;
            off = unat (dce_offset hdr); n = unat (dce_data_len hdr)
        in if \<not> size_in_range z \<or> n = 0 \<or> 2 ^ 32 \<le> off + n \<or> unat z < off + n then Some st
        else let key = (pid, b); st1 = observe_dex pid b z st
        in if key \<in> ambiguous_dex st1 then Some st1
        else case slice_get xs 24 (24 + n) of None \<Rightarrow> Some st1
        | Some payload \<Rightarrow>
          (case dex_cache st1 key of
             Some bytes \<Rightarrow>
               Some (if slice_get bytes off (off + n) = Some payload then st1 else quarantine_dex pid b st1)
           | None \<Rightarrow>
               let rs = (case pending_dex st1 key of Some rs \<Rightarrow> rs
                         | None \<Rightarrow> \<lparr>rs_total = z, rs_intervals = [], rs_buf = replicate (unat z) 0\<rparr>)
               in case conflicts_checked (rs_buf rs) off (off + n) payload (rs_intervals rs) of
                    None \<Rightarrow> None
                  | Some True \<Rightarrow> Some (quarantine_dex pid b st1)
                  | Some False \<Rightarrow>
                      (case (if off + n \<le> length (rs_buf rs)
                             then map_option (\<lambda>buf. recv_record (dce_offset hdr) (dce_offset hdr + dce_data_len hdr)
                                    (rs\<lparr>rs_buf := buf\<rparr>)) (copy_checked (rs_buf rs) off (off + n) payload)
                             else Some rs) of
                         None \<Rightarrow> None
                       | Some rs1 \<Rightarrow>
                           Some (if recv_is_complete rs1
                             then save_dex h (Some pid) b z (rs_buf rs1)
                                    (st1\<lparr>pending_dex := (pending_dex st1)(key := None)\<rparr>)
                             else st1\<lparr>pending_dex := (pending_dex st1)(key \<mapsto> rs1)\<rparr>))))"

section \<open>No panic\<close>

lemma conflicts_in_range:
  assumes "\<forall>iv \<in> set intervals. unat (snd iv) \<le> length buf" and len: "length payload = n"
    and P: "\<And>a z. P (a, z) \<longleftrightarrow> (let left = max (unat a) off; right = min (unat z) (off + n)
        in left < right \<and> take (right - left) (drop left buf) \<noteq> take (right - left) (drop (left - off) payload))"
  shows "conflicts_checked buf off (off + n) payload intervals = Some (list_ex P intervals)"
  using assms(1)
proof (induction intervals)
  case (Cons iv intervals)
  obtain a z where iv: "iv = (a, z)" by (cases iv)
  let ?l = "max (unat a) off" and ?r = "min (unat z) (off + n)"
  have ih: "conflicts_checked buf off (off + n) payload intervals = Some (list_ex P intervals)"
    using Cons by simp
  show ?case
  proof (cases "?l < ?r")
    case True
    let ?x = "take (?r - ?l) (drop ?l buf)" and ?y = "take (?r - ?l) (drop (?l - off) payload)"
    have x: "slice_get buf ?l ?r = Some ?x"
      using Cons.prems True by (auto simp: slice_get_def iv intro: min.coboundedI1)
    have "?l - off \<le> ?r - off" "?r - off \<le> length payload" "?r - off - (?l - off) = ?r - ?l"
      using True len by linarith+
    then have y: "slice_get payload (?l - off) (?r - off) = Some ?y"
      by (simp only: slice_get_def simp_thms if_True)
    have "P iv \<longleftrightarrow> ?x \<noteq> ?y" unfolding iv P Let_def using True by simp
    then show ?thesis
      unfolding iv conflicts_checked.simps Let_def if_P [OF True] x y ih prod.case option.case list_ex_Cons_iff
      by simp
  next
    case False
    then have "\<not> P iv" unfolding iv P Let_def by simp
    then show ?thesis
      unfolding iv conflicts_checked.simps Let_def if_not_P [OF False] ih list_ex_Cons_iff by simp
  qed
qed simp

lemma handle_dex_chunk_in_range:
  assumes inv: "recv_inv Q st"
  shows "handle_dex_chunk_checked h xs st = Some (handle_dex_chunk h xs st)"
proof (cases "parse_dex_chunk xs")
  case None
  then show ?thesis by (simp add: handle_dex_chunk_checked_def handle_dex_chunk_def)
next
  case (Some hdr)
  let ?pid = "dce_pid hdr" and ?b = "dce_begin hdr" and ?z = "dce_size hdr"
  let ?off = "unat (dce_offset hdr)" and ?n = "unat (dce_data_len hdr)"
  let ?st1 = "observe_dex ?pid ?b ?z st"
  let ?rs = "case pending_dex ?st1 (?pid, ?b) of Some rs \<Rightarrow> rs
    | None \<Rightarrow> \<lparr>rs_total = ?z, rs_intervals = [], rs_buf = replicate (unat ?z) 0\<rparr>"
  have slices: "conflicts_checked (rs_buf ?rs) ?off (?off + ?n) payload (rs_intervals ?rs) =
        Some (chunk_conflicts ?rs ?off (?off + ?n) payload)"
      "?off + ?n \<le> length (rs_buf ?rs) \<Longrightarrow> copy_checked (rs_buf ?rs) ?off (?off + ?n) payload =
        Some (take ?off (rs_buf ?rs) @ payload @ drop (?off + ?n) (rs_buf ?rs))"
    if "(?pid, ?b) \<notin> ambiguous_dex ?st1" "slice_get xs 24 (24 + ?n) = Some payload" for payload
  proof -
    have len: "length payload = ?n" using that(2) by (auto simp: slice_get_def split: if_splits)
    have "pending_inv ?st1" using observe_recv_inv [OF inv] by (simp add: recv_inv_def)
    then have wf: "recv_wf ?rs"
      using recv_wf_fresh [OF observe_size(2) [OF that(1)]] by (auto simp: pending_inv_def split: option.split)
    then have "\<forall>iv \<in> set (rs_intervals ?rs). unat (snd iv) \<le> length (rs_buf ?rs)"
      by (simp add: recv_wf_def word_le_nat_alt)
    then show "conflicts_checked (rs_buf ?rs) ?off (?off + ?n) payload (rs_intervals ?rs) =
        Some (chunk_conflicts ?rs ?off (?off + ?n) payload)"
      unfolding chunk_conflicts_def by (rule conflicts_in_range [OF _ len]) simp
    show "copy_checked (rs_buf ?rs) ?off (?off + ?n) payload =
        Some (take ?off (rs_buf ?rs) @ payload @ drop (?off + ?n) (rs_buf ?rs))"
      if "?off + ?n \<le> length (rs_buf ?rs)"
      using that len by (simp add: copy_checked_def slice_get_def)
  qed
  show ?thesis
  proof (cases "(?pid, ?b) \<in> ambiguous_dex ?st1 \<or> slice_get xs 24 (24 + ?n) = None")
    case True
    then show ?thesis
      unfolding handle_dex_chunk_checked_def handle_dex_chunk_def Some option.case Let_def by auto
  next
    case False
    then obtain payload where p: "slice_get xs 24 (24 + ?n) = Some payload" by blast
    have amb: "(?pid, ?b) \<notin> ambiguous_dex ?st1" using False by simp
    show ?thesis
    proof (cases "?off + ?n \<le> length (rs_buf ?rs)")
      case True
      show ?thesis
        unfolding handle_dex_chunk_checked_def handle_dex_chunk_def Some option.case Let_def p if_not_P [OF amb]
          slices(1) [OF amb p] if_P [OF True] slices(2) [OF amb p True] option.map
        by (cases "dex_cache ?st1 (?pid, ?b)"; cases "chunk_conflicts ?rs ?off (?off + ?n) payload"; simp)
    next
      case False
      show ?thesis
        unfolding handle_dex_chunk_checked_def handle_dex_chunk_def Some option.case Let_def p if_not_P [OF amb]
          slices(1) [OF amb p] if_not_P [OF False]
        by (cases "dex_cache ?st1 (?pid, ?b)"; cases "chunk_conflicts ?rs ?off (?off + ?n) payload"; simp)
    qed
  qed
qed

end
