(* ===== verification/Class_Data.thy ===== *)
theory Class_Data
  imports Dex_Lookup
begin

text \<open>
  The \<^verbatim>\<open>class_data_item\<close> of a DEX file as \<^verbatim>\<open>src/fix.rs\<close> reads and writes it: four lists of
  fields and methods, each with the index stored as the difference to its predecessor and
  every number as ULEB128. The reader and the writer are inverse to each other on what the
  reader can return, so re-encoding an item loses nothing.
\<close>

section \<open>The reader\<close>

text \<open>The errors of \<^verbatim>\<open>fix.rs\<close>: those of the parser, and its own with their message.\<close>

datatype fix_error = Dex_err dex_error | Msg string

record encoded_field =
  ef_field_idx :: u32
  ef_access_flags :: u32

record encoded_method =
  em_method_idx :: u32
  em_access_flags :: u32
  em_code_off :: u32
  em_pending_code :: "u8 list option"

record class_data =
  cd_static_fields :: "encoded_field list"
  cd_instance_fields :: "encoded_field list"
  cd_direct_methods :: "encoded_method list"
  cd_virtual_methods :: "encoded_method list"

definition saturating_u32_add :: "u32 \<Rightarrow> u32 \<Rightarrow> u32" where
  "saturating_u32_add a b = (if unat a + unat b < 2 ^ 32 then a + b else 0xffffffff)"

definition saturating_u32_sub :: "u32 \<Rightarrow> u32 \<Rightarrow> u32" where
  "saturating_u32_sub a b = (if b \<le> a then a - b else 0)"

definition take_uleb :: "u8 list \<Rightarrow> nat \<Rightarrow> fix_error + (u32 \<times> nat)" where
  "take_uleb data pos =
     (case read_uleb128 data pos of Inl err \<Rightarrow> Inl (Dex_err err) | Inr r \<Rightarrow> Inr r)"

text \<open>The loops of \<^verbatim>\<open>read_encoded_fields\<close> and \<^verbatim>\<open>read_encoded_methods\<close>, with the index read last.\<close>

fun read_fields :: "u8 list \<Rightarrow> nat \<Rightarrow> u32 \<Rightarrow> nat \<Rightarrow> fix_error + (encoded_field list \<times> nat)" where
  "read_fields data pos field_idx 0 = Inr ([], pos)"
| "read_fields data pos field_idx (Suc n) =
     and_then (take_uleb data pos) (\<lambda>(diff, pos1).
     and_then (take_uleb data pos1) (\<lambda>(access_flags, pos2).
       let idx = saturating_u32_add field_idx diff
       in and_then (read_fields data pos2 idx n) (\<lambda>(fields, pos3).
          Inr (\<lparr>ef_field_idx = idx, ef_access_flags = access_flags\<rparr> # fields, pos3))))"

definition read_encoded_fields :: "u8 list \<Rightarrow> nat \<Rightarrow> u32 \<Rightarrow> fix_error + (encoded_field list \<times> nat)"
  where "read_encoded_fields data pos count = read_fields data pos 0 (unat count)"

fun read_methods_from ::
  "u8 list \<Rightarrow> nat \<Rightarrow> u32 \<Rightarrow> nat \<Rightarrow> fix_error + (encoded_method list \<times> nat)" where
  "read_methods_from data pos method_idx 0 = Inr ([], pos)"
| "read_methods_from data pos method_idx (Suc n) =
     and_then (take_uleb data pos) (\<lambda>(diff, pos1).
     and_then (take_uleb data pos1) (\<lambda>(access_flags, pos2).
     and_then (take_uleb data pos2) (\<lambda>(code_off, pos3).
       let idx = saturating_u32_add method_idx diff
       in and_then (read_methods_from data pos3 idx n) (\<lambda>(methods, pos4).
          Inr (\<lparr>em_method_idx = idx, em_access_flags = access_flags, em_code_off = code_off,
                em_pending_code = None\<rparr> # methods, pos4)))))"

definition read_encoded_methods ::
  "u8 list \<Rightarrow> nat \<Rightarrow> u32 \<Rightarrow> fix_error + (encoded_method list \<times> nat)"
  where "read_encoded_methods data pos count = read_methods_from data pos 0 (unat count)"

definition parse_class_data_end :: "u8 list \<Rightarrow> u32 \<Rightarrow> fix_error + (class_data \<times> nat)" where
  "parse_class_data_end data class_data_off =
     and_then (take_uleb data (unat class_data_off)) (\<lambda>(static_count, pos).
     and_then (take_uleb data pos) (\<lambda>(instance_count, pos).
     and_then (take_uleb data pos) (\<lambda>(direct_count, pos).
     and_then (take_uleb data pos) (\<lambda>(virtual_count, pos).
     and_then (read_encoded_fields data pos static_count) (\<lambda>(static_fields, pos).
     and_then (read_encoded_fields data pos instance_count) (\<lambda>(instance_fields, pos).
     and_then (read_encoded_methods data pos direct_count) (\<lambda>(direct_methods, pos).
     and_then (read_encoded_methods data pos virtual_count) (\<lambda>(virtual_methods, pos).
       Inr (\<lparr>cd_static_fields = static_fields, cd_instance_fields = instance_fields,
             cd_direct_methods = direct_methods, cd_virtual_methods = virtual_methods\<rparr>,
            pos)))))))))"

definition parse_class_data :: "u8 list \<Rightarrow> u32 \<Rightarrow> fix_error + class_data" where
  "parse_class_data data class_data_off =
     and_then (parse_class_data_end data class_data_off) (\<lambda>(class_data, _). Inr class_data)"

definition class_methods :: "class_data \<Rightarrow> encoded_method list" where
  "class_methods cd = cd_direct_methods cd @ cd_virtual_methods cd"

section \<open>The writer\<close>

function push_uleb :: "u8 list \<Rightarrow> u32 \<Rightarrow> u8 list" where
  "push_uleb buf v =
     (let byte = ucast (v AND 0x7f); v' = drop_bit 7 v
      in if v' \<noteq> 0 then push_uleb (buf @ [byte OR 0x80]) v' else buf @ [byte])"
  by pat_completeness auto
termination
proof (relation "measure (unat \<circ> snd)")
  fix v x :: u32 and buf :: "u8 list" and byte :: u8
  assume "x = drop_bit 7 v" and "x \<noteq> 0"
  then have "unat v div 2 ^ 7 \<noteq> 0"
    by (metis unat_drop_bit_eq drop_bit_nat_def unat_eq_zero)
  then show "((buf @ [byte OR 0x80], x), buf, v) \<in> measure (unat \<circ> snd)"
    using \<open>x = drop_bit 7 v\<close> by (simp add: unat_drop_bit_eq drop_bit_nat_def div_less_dividend)
qed simp

declare push_uleb.simps [simp del]

fun push_fields :: "u8 list \<Rightarrow> u32 \<Rightarrow> encoded_field list \<Rightarrow> u8 list" where
  "push_fields buf previous [] = buf"
| "push_fields buf previous (f # fs) =
     push_fields (push_uleb (push_uleb buf (saturating_u32_sub (ef_field_idx f) previous))
         (ef_access_flags f)) (ef_field_idx f) fs"

fun push_methods :: "u8 list \<Rightarrow> u32 \<Rightarrow> encoded_method list \<Rightarrow> u8 list" where
  "push_methods buf previous [] = buf"
| "push_methods buf previous (m # ms) =
     push_methods (push_uleb (push_uleb (push_uleb buf
           (saturating_u32_sub (em_method_idx m) previous)) (em_access_flags m)) (em_code_off m))
       (em_method_idx m) ms"

definition encode_class_data :: "class_data \<Rightarrow> u8 list" where
  "encode_class_data cd =
     (let buf = push_uleb [] (of_nat (length (cd_static_fields cd)));
          buf = push_uleb buf (of_nat (length (cd_instance_fields cd)));
          buf = push_uleb buf (of_nat (length (cd_direct_methods cd)));
          buf = push_uleb buf (of_nat (length (cd_virtual_methods cd)));
          buf = push_fields buf 0 (cd_static_fields cd);
          buf = push_fields buf 0 (cd_instance_fields cd);
          buf = push_methods buf 0 (cd_direct_methods cd)
      in push_methods buf 0 (cd_virtual_methods cd))"

section \<open>Readers and writers as codecs\<close>

text \<open>
  The contract between a reader of the form \<open>data pos\<close> to value and next position, and the
  writer of the same item: wherever the item stands in a file, the reader returns it and
  the position behind it.
\<close>

locale codec =
  fixes get_item :: "u8 list \<Rightarrow> nat \<Rightarrow> 'e + ('a \<times> nat)" and put_item :: "'a \<Rightarrow> u8 list"
    and item_ok :: "'a \<Rightarrow> bool"
  assumes get_put: "item_ok x \<Longrightarrow>
    get_item (pre @ put_item x @ rest) (length pre) = Inr (x, length pre + length (put_item x))"
begin

lemma get_at:
  assumes "item_ok x" and "drop pos data = put_item x @ rest" and "pos \<le> length data"
  shows "get_item data pos = Inr (x, pos + length (put_item x))"
proof -
  have "take pos data @ put_item x @ rest = data"
    unfolding assms(2) [symmetric] by (rule append_take_drop_id)
  moreover have "length (take pos data) = pos" using assms(3) by simp
  ultimately show ?thesis using get_put [OF assms(1), of "take pos data" rest] by simp
qed

lemma drop_behind:
  "drop pos data = put_item x @ rest \<Longrightarrow> drop (pos + length (put_item x)) data = rest"
proof -
  assume "drop pos data = put_item x @ rest"
  then have "drop (length (put_item x)) (drop pos data) = rest" by simp
  then show ?thesis by (simp add: add.commute)
qed

lemma pos_behind:
  "drop pos data = put_item x @ rest \<Longrightarrow> pos \<le> length data \<Longrightarrow>
     pos + length (put_item x) \<le> length data"
  by (drule arg_cong [where f = length]) simp

end

interpretation uleb: codec take_uleb encode_uleb128 "\<lambda>_. True"
  by unfold_locales (simp add: take_uleb_def read_encode_uleb128)

section \<open>What the writer appends\<close>

lemma encode_uleb128_nonempty [simp]: "encode_uleb128 v \<noteq> []"
  by (simp add: encode_uleb128.simps [of v])

lemma high_bits_left: "drop_bit 7 v \<noteq> 0 \<longleftrightarrow> \<not> v < 0x80" for v :: u32
proof -
  have "drop_bit 7 v = 0 \<longleftrightarrow> unat v div 2 ^ 7 = 0"
    by (metis unat_drop_bit_eq drop_bit_nat_def unat_eq_zero)
  also have "\<dots> \<longleftrightarrow> unat v < 2 ^ 7" by (simp add: div_eq_0_iff)
  finally show ?thesis by (simp add: word_less_nat_alt)
qed

lemma push_uleb_eq: "push_uleb buf v = buf @ encode_uleb128 v"
proof (induction buf v rule: push_uleb.induct)
  case (1 buf v)
  show ?case
  proof (cases "v < 0x80")
    case True
    then have "v AND 0x7f = v"
      using take_bit_small [of v 7] by (simp add: take_bit_eq_mask seven_mask word_less_nat_alt)
    with True high_bits_left [of v] show ?thesis
      by (simp add: push_uleb.simps [of _ v] encode_uleb128.simps [of v])
  next
    case False
    with 1 high_bits_left [of v] show ?thesis
      by (simp add: push_uleb.simps [of _ v] encode_uleb128.simps [of v] Let_def or.commute)
  qed
qed

fun encode_fields :: "u32 \<Rightarrow> encoded_field list \<Rightarrow> u8 list" where
  "encode_fields previous [] = []"
| "encode_fields previous (f # fs) =
     encode_uleb128 (saturating_u32_sub (ef_field_idx f) previous) @
     encode_uleb128 (ef_access_flags f) @ encode_fields (ef_field_idx f) fs"

fun encode_methods :: "u32 \<Rightarrow> encoded_method list \<Rightarrow> u8 list" where
  "encode_methods previous [] = []"
| "encode_methods previous (m # ms) =
     encode_uleb128 (saturating_u32_sub (em_method_idx m) previous) @
     encode_uleb128 (em_access_flags m) @ encode_uleb128 (em_code_off m) @
     encode_methods (em_method_idx m) ms"

lemma push_fields_eq: "push_fields buf previous fs = buf @ encode_fields previous fs"
  by (induction buf previous fs rule: push_fields.induct) (simp_all add: push_uleb_eq)

lemma push_methods_eq: "push_methods buf previous ms = buf @ encode_methods previous ms"
  by (induction buf previous ms rule: push_methods.induct) (simp_all add: push_uleb_eq)

lemma encode_class_data_eq:
  "encode_class_data cd =
     encode_uleb128 (of_nat (length (cd_static_fields cd))) @
     encode_uleb128 (of_nat (length (cd_instance_fields cd))) @
     encode_uleb128 (of_nat (length (cd_direct_methods cd))) @
     encode_uleb128 (of_nat (length (cd_virtual_methods cd))) @
     encode_fields 0 (cd_static_fields cd) @ encode_fields 0 (cd_instance_fields cd) @
     encode_methods 0 (cd_direct_methods cd) @ encode_methods 0 (cd_virtual_methods cd)"
  by (simp add: encode_class_data_def Let_def push_uleb_eq push_fields_eq push_methods_eq)

section \<open>Round trips\<close>

lemma saturating_back: "p \<le> a \<Longrightarrow> saturating_u32_add p (saturating_u32_sub a p) = a" for a p :: u32
proof -
  assume le: "p \<le> a"
  then have "unat p + unat (a - p) = unat a" by (simp add: unat_sub word_le_nat_alt)
  moreover have "unat a < 2 ^ 32" using unsigned_less [of a, where 'a = nat] by simp
  ultimately show ?thesis using le by (simp add: saturating_u32_add_def saturating_u32_sub_def)
qed

lemma saturating_add_ge: "p \<le> saturating_u32_add p d" for p d :: u32
  by (simp add: saturating_u32_add_def word_le_nat_alt unat_add_small)
    (use unsigned_less [of p, where 'a = nat] in simp)

interpretation field_list: codec "\<lambda>data pos. read_fields data pos previous n" "encode_fields previous"
    "\<lambda>fs. length fs = n \<and> sorted (previous # map ef_field_idx fs)" for previous n
proof
  fix fs :: "encoded_field list" and pre rest :: "u8 list"
  assume "length fs = n \<and> sorted (previous # map ef_field_idx fs)"
  then show "read_fields (pre @ encode_fields previous fs @ rest) (length pre) previous n =
    Inr (fs, length pre + length (encode_fields previous fs))"
  proof (induction fs arbitrary: n previous pre)
    case (Cons f fs)
    let ?d = "encode_uleb128 (saturating_u32_sub (ef_field_idx f) previous)"
    let ?a = "encode_uleb128 (ef_access_flags f)"
    from Cons.prems obtain m where n: "n = Suc m" "length fs = m" by (cases n) auto
    have IH: "read_fields ((pre @ ?d @ ?a) @ encode_fields (ef_field_idx f) fs @ rest)
        (length (pre @ ?d @ ?a)) (ef_field_idx f) m =
      Inr (fs, length (pre @ ?d @ ?a) + length (encode_fields (ef_field_idx f) fs))"
      by (rule Cons.IH) (use Cons.prems n in auto)
    have "take_uleb (pre @ ?d @ ?a @ encode_fields (ef_field_idx f) fs @ rest) (length pre + length ?d) =
      Inr (ef_access_flags f, length pre + length ?d + length ?a)"
      using uleb.get_put [where x = "ef_access_flags f" and pre = "pre @ ?d"] by simp
    with IH Cons.prems show ?case
      by (simp add: n uleb.get_put saturating_back add.assoc Let_def)
  qed simp
qed

interpretation method_list: codec "\<lambda>data pos. read_methods_from data pos previous n"
    "encode_methods previous"
    "\<lambda>ms. length ms = n \<and> sorted (previous # map em_method_idx ms) \<and>
       list_all (\<lambda>m. em_pending_code m = None) ms" for previous n
proof
  fix ms :: "encoded_method list" and pre rest :: "u8 list"
  assume "length ms = n \<and> sorted (previous # map em_method_idx ms) \<and>
    list_all (\<lambda>m. em_pending_code m = None) ms"
  then show "read_methods_from (pre @ encode_methods previous ms @ rest) (length pre) previous n =
    Inr (ms, length pre + length (encode_methods previous ms))"
  proof (induction ms arbitrary: n previous pre)
    case (Cons m ms)
    let ?d = "encode_uleb128 (saturating_u32_sub (em_method_idx m) previous)"
    let ?a = "encode_uleb128 (em_access_flags m)"
    let ?c = "encode_uleb128 (em_code_off m)"
    let ?e = "encode_methods (em_method_idx m) ms"
    from Cons.prems obtain k where n: "n = Suc k" "length ms = k" by (cases n) auto
    have IH: "read_methods_from ((pre @ ?d @ ?a @ ?c) @ ?e @ rest)
        (length (pre @ ?d @ ?a @ ?c)) (em_method_idx m) k =
      Inr (ms, length (pre @ ?d @ ?a @ ?c) + length ?e)"
      by (rule Cons.IH) (use Cons.prems n in auto)
    have "take_uleb (pre @ ?d @ ?a @ ?c @ ?e @ rest) (length pre + length ?d) =
      Inr (em_access_flags m, length pre + length ?d + length ?a)"
      "take_uleb (pre @ ?d @ ?a @ ?c @ ?e @ rest) (length pre + length ?d + length ?a) =
      Inr (em_code_off m, length pre + length ?d + length ?a + length ?c)"
      using uleb.get_put [where x = "em_access_flags m" and pre = "pre @ ?d"]
        uleb.get_put [where x = "em_code_off m" and pre = "pre @ ?d @ ?a"] by (simp_all add: add.assoc)
    with IH Cons.prems show ?case
      by (simp add: n uleb.get_put saturating_back add.assoc Let_def)
  qed simp
qed

definition class_data_ok :: "class_data \<Rightarrow> bool" where
  "class_data_ok cd \<longleftrightarrow>
     list_all (\<lambda>fs. length fs < 2 ^ 32 \<and> sorted (map ef_field_idx fs))
       [cd_static_fields cd, cd_instance_fields cd] \<and>
     list_all (\<lambda>ms. length ms < 2 ^ 32 \<and> sorted (map em_method_idx ms) \<and>
         list_all (\<lambda>m. em_pending_code m = None) ms)
       [cd_direct_methods cd, cd_virtual_methods cd]"

lemma count_back: "n < 2 ^ 32 \<Longrightarrow> unat (of_nat n :: u32) = n"
  by (simp add: unat_of_nat take_bit_nat_eq_self)

lemma read_encoded_fields_at:
  assumes "length fs < 2 ^ 32" and "sorted (map ef_field_idx fs)"
    and "drop pos data = encode_fields 0 fs @ rest" and "pos \<le> length data"
  shows "read_encoded_fields data pos (of_nat (length fs)) = Inr (fs, pos + length (encode_fields 0 fs))"
  unfolding read_encoded_fields_def count_back [OF assms(1)]
  by (rule field_list.get_at [OF _ assms(3,4)]) (use assms(2) in simp)

lemma read_encoded_methods_at:
  assumes "length ms < 2 ^ 32" and "sorted (map em_method_idx ms)"
    and "list_all (\<lambda>m. em_pending_code m = None) ms"
    and "drop pos data = encode_methods 0 ms @ rest" and "pos \<le> length data"
  shows "read_encoded_methods data pos (of_nat (length ms)) = Inr (ms, pos + length (encode_methods 0 ms))"
  unfolding read_encoded_methods_def count_back [OF assms(1)]
  by (rule method_list.get_at [OF _ assms(4,5)]) (use assms(2,3) in simp)

lemma parse_encode_class_data:
  assumes ok: "class_data_ok cd" and at: "drop (unat off) data = encode_class_data cd @ rest"
    and le: "unat off \<le> length data"
  shows "parse_class_data_end data off = Inr (cd, unat off + length (encode_class_data cd))"
proof -
  obtain sf inf dm vm where cd: "cd = \<lparr>cd_static_fields = sf, cd_instance_fields = inf,
      cd_direct_methods = dm, cd_virtual_methods = vm\<rparr>" by (cases cd)
  define count :: "nat \<Rightarrow> u8 list" where "count = (\<lambda>n. encode_uleb128 (of_nat n))"
  from at have c1: "drop (unat off) data = count (length sf) @ count (length inf) @ count (length dm) @
      count (length vm) @ encode_fields 0 sf @ encode_fields 0 inf @ encode_methods 0 dm @
      encode_methods 0 vm @ rest"
    by (simp add: encode_class_data_eq cd count_def)
  note c2 = uleb.drop_behind [OF c1 [unfolded count_def]]
  note c3 = uleb.drop_behind [OF c2] and l2 = uleb.pos_behind [OF c1 [unfolded count_def] le]
  note c4 = uleb.drop_behind [OF c3] and l3 = uleb.pos_behind [OF c2 l2]
  note c5 = uleb.drop_behind [OF c4] and l4 = uleb.pos_behind [OF c3 l3]
  note c6 = field_list.drop_behind [OF c5] and l5 = uleb.pos_behind [OF c4 l4]
  note c7 = field_list.drop_behind [OF c6] and l6 = field_list.pos_behind [OF c5 l5]
  note c8 = method_list.drop_behind [OF c7] and l7 = field_list.pos_behind [OF c6 l6]
  note l8 = method_list.pos_behind [OF c7 l7]
  note fields = read_encoded_fields_at [where data = data]
  note methods = read_encoded_methods_at [where data = data]
  have oks: "length sf < 2 ^ 32" "sorted (map ef_field_idx sf)" "length inf < 2 ^ 32"
    "sorted (map ef_field_idx inf)"
    "length dm < 2 ^ 32" "sorted (map em_method_idx dm)" "list_all (\<lambda>m. em_pending_code m = None) dm"
    "length vm < 2 ^ 32" "sorted (map em_method_idx vm)" "list_all (\<lambda>m. em_pending_code m = None) vm"
    using ok by (simp_all add: class_data_ok_def cd)
  show ?thesis
    using uleb.get_at [OF TrueI c1 [unfolded count_def] le] uleb.get_at [OF TrueI c2 l2]
      uleb.get_at [OF TrueI c3 l3] uleb.get_at [OF TrueI c4 l4]
      fields [OF oks(1,2) c5 l5] fields [OF oks(3,4) c6 l6]
      methods [OF oks(5-7) c7 l7] methods [OF oks(8-10) c8 l8]
    by (simp add: parse_class_data_end_def encode_class_data_eq cd add.assoc)
qed

section \<open>What the reader returns\<close>

lemma read_fields_ok:
  "read_fields data pos previous n = Inr (fs, q) \<Longrightarrow>
     length fs = n \<and> sorted (previous # map ef_field_idx fs)"
proof (induction n arbitrary: pos previous fs)
  case (Suc n)
  then obtain d a p fs' where r: "read_fields data p (saturating_u32_add previous d) n = Inr (fs', q)"
    and fs: "fs = \<lparr>ef_field_idx = saturating_u32_add previous d, ef_access_flags = a\<rparr> # fs'"
    by (auto simp: and_then_Inr Let_def)
  from Suc.IH [OF r] saturating_add_ge [of previous d] fs show ?case by (auto intro: order_trans)
qed simp

lemma read_methods_ok:
  "read_methods_from data pos previous n = Inr (ms, q) \<Longrightarrow>
     length ms = n \<and> sorted (previous # map em_method_idx ms) \<and>
     list_all (\<lambda>m. em_pending_code m = None) ms"
proof (induction n arbitrary: pos previous ms)
  case (Suc n)
  then obtain d a c p ms' where
    r: "read_methods_from data p (saturating_u32_add previous d) n = Inr (ms', q)"
    and ms: "ms = \<lparr>em_method_idx = saturating_u32_add previous d, em_access_flags = a,
      em_code_off = c, em_pending_code = None\<rparr> # ms'"
    by (auto simp: and_then_Inr Let_def)
  from Suc.IH [OF r] saturating_add_ge [of previous d] ms show ?case by (auto intro: order_trans)
qed simp

lemma parse_class_data_ok: "parse_class_data_end data off = Inr (cd, q) \<Longrightarrow> class_data_ok cd"
  unfolding parse_class_data_end_def
  by (auto simp: and_then_Inr read_encoded_fields_def read_encoded_methods_def class_data_ok_def
      dest!: read_fields_ok read_methods_ok)
    (use unsigned_less [where 'a = nat and 'b = 32] in \<open>simp_all\<close>)

end
