(* ===== verification/Fix_Apply.thy ===== *)
theory Fix_Apply
  imports Class_Data Receiver Byte_Edit Java_Names
begin

text \<open>
  The write-back of captured bytecode in \<^verbatim>\<open>src/fix.rs\<close>: which code item belongs to which method
  (\<^verbatim>\<open>build_method_code_off_map\<close>), what is missing (\<^verbatim>\<open>compute_coverage\<close>), the copy of the captured
  instructions into the file (\<^verbatim>\<open>apply_records_to_dex\<close>) and the checksums of the header
  (\<^verbatim>\<open>recalc_dex_header\<close>). The crates for hexadecimal text, SHA-1 and Adler-32 are parameters. A
  \<^verbatim>\<open>HashMap\<close> is an association list with distinct keys; nothing here depends on its order.
\<close>

record libs =
  lib_hex_decode :: "rust_string \<Rightarrow> u8 list option"
  lib_sha1 :: "u8 list \<Rightarrow> u8 list"
  lib_adler32 :: "u8 list \<Rightarrow> u32"

record fix_stats =
  fs_applied :: nat
  fs_skipped :: nat
  fs_length_mismatch :: nat

record fix_options =
  fo_force_mismatch :: bool
  fo_dedup :: bool

record missed_method =
  mm_method_idx :: u32
  mm_code_off :: u32
  mm_signature :: "rust_string option"

record coverage_report =
  cov_total_methods :: nat
  cov_captured_methods :: nat
  cov_missed_methods :: "missed_method list"

record fix_outcome =
  fx_stats :: fix_stats
  fx_coverage :: coverage_report

type_synonym code_offs = "(u32 \<times> u32) list"

section \<open>Where the code of a method lies\<close>

fun skip_fields :: "u8 list \<Rightarrow> nat \<Rightarrow> nat \<Rightarrow> fix_error + nat" where
  "skip_fields data pos 0 = Inr pos"
| "skip_fields data pos (Suc n) =
     and_then (take_uleb data pos) (\<lambda>(_, pos).
     and_then (take_uleb data pos) (\<lambda>(_, pos). skip_fields data pos n))"

fun read_methods :: "u8 list \<Rightarrow> nat \<Rightarrow> u32 \<Rightarrow> nat \<Rightarrow> code_offs \<Rightarrow> fix_error + (code_offs \<times> nat)" where
  "read_methods data pos last_method 0 result = Inr (result, pos)"
| "read_methods data pos last_method (Suc n) result =
     and_then (take_uleb data pos) (\<lambda>(diff, pos).
       let last_method = saturating_u32_add last_method diff
       in and_then (take_uleb data pos) (\<lambda>(_, pos).
          and_then (take_uleb data pos) (\<lambda>(code_off, pos).
            read_methods data pos last_method n (AList.update last_method code_off result))))"

definition CLASS_DEF_SIZE :: nat where "CLASS_DEF_SIZE = 32"

text \<open>The body of the loop over the classes.\<close>

definition class_code_offs :: "u8 list \<Rightarrow> u8 list \<Rightarrow> code_offs \<Rightarrow> fix_error + code_offs" where
  "class_code_offs data class_def result =
     (let class_data_off = hdr_le32 class_def 24
      in if class_data_off = 0 then Inr result
         else
           and_then (take_uleb data (unat class_data_off)) (\<lambda>(static_fields_size, pos).
           and_then (take_uleb data pos) (\<lambda>(instance_fields_size, pos).
           and_then (take_uleb data pos) (\<lambda>(direct_methods_size, pos).
           and_then (take_uleb data pos) (\<lambda>(virtual_methods_size, pos).
           and_then (skip_fields data pos (unat static_fields_size)) (\<lambda>pos.
           and_then (skip_fields data pos (unat instance_fields_size)) (\<lambda>pos.
           and_then (read_methods data pos 0 (unat direct_methods_size) result) (\<lambda>(result, pos).
           and_then (read_methods data pos 0 (unat virtual_methods_size) result) (\<lambda>(result, _).
             Inr result)))))))))"

fun class_loop :: "u8 list \<Rightarrow> nat \<Rightarrow> nat \<Rightarrow> code_offs \<Rightarrow> fix_error + code_offs" where
  "class_loop data off 0 result = Inr result"
| "class_loop data off (Suc n) result =
     and_then (ok_or (Msg ''class_def out of bounds'') (slice_get data off (off + CLASS_DEF_SIZE)))
       (\<lambda>class_def. and_then (class_code_offs data class_def result)
         (class_loop data (off + CLASS_DEF_SIZE) n))"

definition build_method_code_off_map :: "dex_parser \<Rightarrow> fix_error + code_offs" where
  "build_method_code_off_map p =
     class_loop (dp_data p) (unat (dh_class_defs_off (dp_header p)))
       (unat (dh_class_defs_size (dp_header p))) []"

section \<open>Coverage\<close>

definition missed :: "dex_parser \<Rightarrow> u32 \<times> u32 \<Rightarrow> missed_method" where
  "missed p = (\<lambda>(method_idx, code_off).
     \<lparr>mm_method_idx = method_idx, mm_code_off = code_off,
      mm_signature = (case get_method_info p method_idx of
        Inl _ \<Rightarrow> None | Inr info \<Rightarrow> Some (pretty_method info))\<rparr>)"

definition compute_coverage ::
  "dex_parser \<Rightarrow> code_offs \<Rightarrow> method_code_record list \<Rightarrow> coverage_report" where
  "compute_coverage p method2off records =
     (let captured = set (map mcr_method_idx records);
          with_code = filter (\<lambda>(_, code_off). code_off \<noteq> 0) method2off;
          not_captured = map (missed p) (filter (\<lambda>(idx, _). idx \<notin> captured) with_code)
      in \<lparr>cov_total_methods = length with_code,
          cov_captured_methods = length with_code - length not_captured,
          cov_missed_methods = sort_key mm_method_idx not_captured\<rparr>)"

section \<open>Writing the captured code\<close>

definition skip_record :: "u8 list \<times> fix_stats \<Rightarrow> u8 list \<times> fix_stats" where
  "skip_record = (\<lambda>(dex, stats). (dex, stats\<lparr>fs_skipped := fs_skipped stats + 1\<rparr>))"

definition write_insns :: "u8 list \<Rightarrow> nat \<Rightarrow> nat \<Rightarrow> u8 list \<Rightarrow> u8 list" where
  "write_insns dex insns_start expected_len code_bytes =
     (let write_len = min expected_len (length code_bytes);
          dex = splice dex insns_start (take write_len code_bytes)
      in if write_len < expected_len
         then splice dex (insns_start + write_len) (replicate (expected_len - write_len) 0)
         else dex)"

text \<open>The body of the loop of \<^verbatim>\<open>apply_records_to_dex\<close>.\<close>

definition apply_record ::
  "libs \<Rightarrow> code_offs \<Rightarrow> fix_options \<Rightarrow> method_code_record \<Rightarrow> u8 list \<times> fix_stats \<Rightarrow> u8 list \<times> fix_stats"
  where
  "apply_record lb method2off opts record acc =
     (case acc of (dex, stats) \<Rightarrow>
      case map_of method2off (mcr_method_idx record) of
        None \<Rightarrow> skip_record acc
      | Some code_off \<Rightarrow>
          if code_off = 0 \<or> length dex < unat code_off + 0x10 then skip_record acc
          else
            (let insns_units = unat (hdr_le32 dex (unat code_off + 0x0c));
                 expected_len = insns_units * 2
             in case lib_hex_decode lb (mcr_code record) of
                  None \<Rightarrow> skip_record acc
                | Some code_bytes \<Rightarrow>
                    (let insns_start = unat code_off + 0x10
                     in if length dex < insns_start + expected_len then skip_record acc
                        else if length code_bytes \<noteq> expected_len \<and> \<not> fo_force_mismatch opts
                        then skip_record
                          (dex, stats\<lparr>fs_length_mismatch := fs_length_mismatch stats + 1\<rparr>)
                        else
                          (write_insns dex insns_start expected_len code_bytes,
                           stats\<lparr>fs_applied := fs_applied stats + 1,
                             fs_length_mismatch := fs_length_mismatch stats +
                               (if length code_bytes \<noteq> expected_len then 1 else 0)\<rparr>))))"

definition no_stats :: fix_stats where
  "no_stats = \<lparr>fs_applied = 0, fs_skipped = 0, fs_length_mismatch = 0\<rparr>"

definition apply_records_to_dex ::
  "libs \<Rightarrow> u8 list \<Rightarrow> code_offs \<Rightarrow> method_code_record list \<Rightarrow> fix_options \<Rightarrow> u8 list \<times> fix_stats" where
  "apply_records_to_dex lb dex method2off records opts =
     fold (apply_record lb method2off opts) records (dex, no_stats)"

definition recalc_dex_header :: "libs \<Rightarrow> u8 list \<Rightarrow> u8 list" where
  "recalc_dex_header lb dex =
     (if length dex < 32 then dex
      else let dex = splice dex 12 (lib_sha1 lb (drop 32 dex))
           in splice dex 8 (le_bytes 4 (lib_adler32 lb (drop 12 dex))))"

text \<open>
  \<^verbatim>\<open>fix_one_dex_bytes_from_json_file\<close>: \<open>records\<close> is what reading and parsing the JSON file gives.
\<close>

definition fix_one_dex_bytes ::
  "libs \<Rightarrow> u8 list \<Rightarrow> fix_error + method_code_record list \<Rightarrow> fix_options \<Rightarrow>
     fix_error + (fix_outcome \<times> u8 list)" where
  "fix_one_dex_bytes lb dex json opts =
     (case dex_parser_new dex of Inl err \<Rightarrow> Inl (Dex_err err)
      | Inr header \<Rightarrow>
          let p = \<lparr>dp_data = dex, dp_header = header\<rparr>
          in and_then (build_method_code_off_map p) (\<lambda>method2off.
             and_then json (\<lambda>records.
               let coverage = compute_coverage p method2off records;
                   (dex', stats) = apply_records_to_dex lb dex method2off records opts
               in Inr (\<lparr>fx_stats = stats, fx_coverage = coverage\<rparr>, recalc_dex_header lb dex'))))"

end
