(* ===== verification/Fix_Facts.thy ===== *)
theory Fix_Facts
  imports Fix_Apply "HOL-Library.Multiset"
begin

text \<open>
  What the write-back does: its two readers of class data agree, coverage counts exactly the
  methods with code, and when the code items of a file do not overlap, every method ends up
  with the last capture that fits it while no other byte changes.
\<close>

section \<open>The readers of class data agree\<close>

lemma skip_fields_eq:
  "skip_fields data pos n = and_then (read_fields data pos prev n) (\<lambda>(_, pos). Inr pos)"
proof (induction n arbitrary: pos prev)
  case (Suc n)
  have "and_then (read_fields data pos prev (Suc n)) (\<lambda>(_, pos). Inr pos) =
    and_then (take_uleb data pos) (\<lambda>(diff, pos). and_then (take_uleb data pos) (\<lambda>(_, pos).
      and_then (read_fields data pos (saturating_u32_add prev diff) n) (\<lambda>(_, pos). Inr pos)))"
    by (auto simp: and_then_def Let_def split: sum.split)
  then show ?case unfolding Suc [symmetric] by simp
qed simp

definition add_code_offs :: "encoded_method list \<Rightarrow> code_offs \<Rightarrow> code_offs" where
  "add_code_offs ms result = fold (\<lambda>m. AList.update (em_method_idx m) (em_code_off m)) ms result"

lemma read_methods_eq:
  "read_methods data pos last_idx n result =
     and_then (read_methods_from data pos last_idx n) (\<lambda>(ms, pos). Inr (add_code_offs ms result, pos))"
proof (induction n arbitrary: pos last_idx result)
  case (Suc n)
  show ?case
    by (cases "take_uleb data pos")
      (auto simp: Let_def and_then_def Suc add_code_offs_def split: sum.split)
qed (simp add: add_code_offs_def)

lemma class_code_offs_parse:
  "class_code_offs data class_def result =
     (let off = hdr_le32 class_def 24
      in if off = 0 then Inr result
         else and_then (parse_class_data data off) (\<lambda>cd. Inr (add_code_offs (class_methods cd) result)))"
proof -
  have m: "add_code_offs ms2 (add_code_offs ms1 r) = add_code_offs (ms1 @ ms2) r" for ms1 ms2 r
    by (simp add: add_code_offs_def)
  show ?thesis
    unfolding class_code_offs_def parse_class_data_def parse_class_data_end_def
      skip_fields_eq [where prev = 0] read_methods_eq read_encoded_fields_def read_encoded_methods_def
      class_methods_def Let_def
    by (auto simp: and_then_def m split: sum.split)
qed

section \<open>Coverage\<close>

lemma add_code_offs_distinct: "distinct (map fst m) \<Longrightarrow> distinct (map fst (add_code_offs ms m))"
  unfolding add_code_offs_def by (induction ms arbitrary: m) (simp_all add: distinct_update)

lemma class_loop_distinct:
  "class_loop data off n m = Inr m' \<Longrightarrow> distinct (map fst m) \<Longrightarrow> distinct (map fst m')"
proof (induction n arbitrary: off m)
  case (Suc n)
  then obtain class_def m1 where one: "class_code_offs data class_def m = Inr m1"
    and rest: "class_loop data (off + CLASS_DEF_SIZE) n m1 = Inr m'"
    by (auto simp: and_then_Inr)
  from one Suc.prems(2) have "distinct (map fst m1)"
    by (auto simp: class_code_offs_parse and_then_Inr Let_def add_code_offs_distinct split: if_splits)
  with Suc.IH [OF rest] show ?case by blast
qed simp

lemma build_map_distinct: "build_method_code_off_map p = Inr m \<Longrightarrow> distinct (map fst m)"
  unfolding build_method_code_off_map_def by (erule class_loop_distinct) simp

lemma coverage_counts:
  assumes dist: "distinct (map fst m)" and cov: "c = compute_coverage p m rs"
  shows "cov_total_methods c = card {i. \<exists>off. map_of m i = Some off \<and> off \<noteq> 0}"
    and "cov_captured_methods c + length (cov_missed_methods c) = cov_total_methods c"
    and "mm_method_idx ` set (cov_missed_methods c) =
      {i. (\<exists>off. map_of m i = Some off \<and> off \<noteq> 0) \<and> i \<notin> set (map mcr_method_idx rs)}"
    and "sorted (map mm_method_idx (cov_missed_methods c))"
    and "distinct (map mm_method_idx (cov_missed_methods c))"
proof -
  let ?w = "filter (\<lambda>(_, off). off \<noteq> 0) m"
  let ?n = "filter (\<lambda>(i, _). i \<notin> set (map mcr_method_idx rs)) ?w"
  have idx: "mm_method_idx (missed p e) = fst e" for e by (cases e) (simp add: missed_def)
  have c: "c = \<lparr>cov_total_methods = length ?w, cov_captured_methods = length ?w - length ?n,
      cov_missed_methods = sort_key mm_method_idx (map (missed p) ?n)\<rparr>"
    by (simp add: cov compute_coverage_def Let_def)
  have dw: "distinct (map fst ?w)" and dn: "distinct (map fst ?n)"
    using dist by (auto simp: distinct_map inj_on_def)
  have w: "fst ` set ?w = {i. \<exists>off. map_of m i = Some off \<and> off \<noteq> 0}"
    using dist by (force simp: image_iff)
  show "cov_total_methods c = card {i. \<exists>off. map_of m i = Some off \<and> off \<noteq> 0}"
    using distinct_card [OF dw] by (simp add: c flip: w)
  have "length ?n \<le> length ?w" by (rule length_filter_le)
  then show "cov_captured_methods c + length (cov_missed_methods c) = cov_total_methods c"
    by (simp add: c)
  have keys: "mm_method_idx ` set (cov_missed_methods c) = fst ` set ?n"
    by (simp add: c image_image idx)
  show "mm_method_idx ` set (cov_missed_methods c) =
      {i. (\<exists>off. map_of m i = Some off \<and> off \<noteq> 0) \<and> i \<notin> set (map mcr_method_idx rs)}"
    unfolding keys using w by (force simp: image_iff)
  show "sorted (map mm_method_idx (cov_missed_methods c))" by (simp add: c)
  have "map mm_method_idx (map (missed p) ?n) = map fst ?n" by (simp add: idx)
  moreover have "mset (map mm_method_idx (cov_missed_methods c)) =
      mset (map mm_method_idx (map (missed p) ?n))" by (simp only: c mset_map mset_sort coverage_report.select_convs)
  ultimately have "mset (map mm_method_idx (cov_missed_methods c)) = mset (map fst ?n)" by (simp only:)
  with dn show "distinct (map mm_method_idx (cov_missed_methods c))"
    by (metis mset_eq_imp_distinct_iff)
qed

section \<open>The write-back\<close>

text \<open>The declared length of the code item at \<open>off\<close>, whether it lies in the file, its bytes.\<close>

definition insns_len :: "u8 list \<Rightarrow> nat \<Rightarrow> nat" where
  "insns_len dex off = unat (hdr_le32 dex (off + 0x0c)) * 2"

definition item_fits :: "u8 list \<Rightarrow> nat \<Rightarrow> bool" where
  "item_fits dex off \<longleftrightarrow> off + 0x10 + insns_len dex off \<le> length dex"

definition insns_at :: "u8 list \<Rightarrow> nat \<Rightarrow> u8 list" where
  "insns_at dex off = take (insns_len dex off) (drop (off + 0x10) dex)"

text \<open>
  No instruction array that lies in the file overlaps the header or the instructions of
  another code item: \<open>offs\<close> are the offsets of the code items.
\<close>

definition item_end :: "u8 list \<Rightarrow> nat \<Rightarrow> nat" where
  "item_end dex off = off + 0x10 + (if item_fits dex off then insns_len dex off else 0)"

definition disjoint_items :: "u8 list \<Rightarrow> nat set \<Rightarrow> bool" where
  "disjoint_items dex offs \<longleftrightarrow> (\<forall>a\<in>offs. \<forall>b\<in>offs. a \<noteq> b \<longrightarrow> item_fits dex a \<longrightarrow>
     insns_len dex a = 0 \<or> item_end dex a \<le> b \<or> item_end dex b \<le> a + 0x10)"

lemma disjoint_itemsD:
  "disjoint_items dex offs \<Longrightarrow> a \<in> offs \<Longrightarrow> b \<in> offs \<Longrightarrow> a \<noteq> b \<Longrightarrow> item_fits dex a \<Longrightarrow>
     insns_len dex a \<noteq> 0 \<Longrightarrow> item_end dex a \<le> b \<or> item_end dex b \<le> a + 0x10"
  unfolding disjoint_items_def by (drule (1) bspec, drule (1) bspec) simp

definition code_offsets :: "code_offs \<Rightarrow> nat set" where
  "code_offsets m = {unat off | i off. map_of m i = Some off \<and> off \<noteq> 0}"

text \<open>Where the capture of a record goes, when it fits exactly, and its bytes.\<close>

definition target :: "libs \<Rightarrow> code_offs \<Rightarrow> u8 list \<Rightarrow> method_code_record \<Rightarrow> (nat \<times> u8 list) option" where
  "target lb m dex r =
     (case (map_of m (mcr_method_idx r), lib_hex_decode lb (mcr_code r)) of
        (Some off, Some bs) \<Rightarrow>
          if off \<noteq> 0 \<and> item_fits dex (unat off) \<and> length bs = insns_len dex (unat off)
          then Some (unat off, bs) else None
      | _ \<Rightarrow> None)"

fun targets :: "libs \<Rightarrow> code_offs \<Rightarrow> u8 list \<Rightarrow> method_code_record list \<Rightarrow> (nat \<times> u8 list) list" where
  "targets lb m dex [] = []"
| "targets lb m dex (r # rs) =
     (case target lb m dex r of None \<Rightarrow> targets lb m dex rs | Some t \<Rightarrow> t # targets lb m dex rs)"

definition put_insns :: "nat \<times> u8 list \<Rightarrow> u8 list \<Rightarrow> u8 list" where
  "put_insns = (\<lambda>(off, bs) dex. splice dex (off + 0x10) bs)"

text \<open>One record: written when it has a target, skipped otherwise.\<close>

lemma apply_record_exact:
  "\<not> fo_force_mismatch opts \<Longrightarrow>
   \<exists>stats'. apply_record lb m opts r (dex, stats) =
     (case target lb m dex r of Some t \<Rightarrow> put_insns t dex | None \<Rightarrow> dex, stats') \<and>
     fs_applied stats' = fs_applied stats + (if target lb m dex r = None then 0 else 1) \<and>
     fs_skipped stats' = fs_skipped stats + (if target lb m dex r = None then 1 else 0)"
  by (auto simp: apply_record_def target_def skip_record_def put_insns_def write_insns_def Let_def
      item_fits_def insns_len_def split: option.splits)

text \<open>Writing one code item leaves the shape of the others alone.\<close>

definition same_shape :: "nat set \<Rightarrow> u8 list \<Rightarrow> u8 list \<Rightarrow> bool" where
  "same_shape offs dex dex' \<longleftrightarrow> length dex' = length dex \<and>
     (\<forall>a\<in>offs. insns_len dex' a = insns_len dex a)"

lemma same_shape_fits: "same_shape offs dex dex' \<Longrightarrow> a \<in> offs \<Longrightarrow> item_fits dex' a = item_fits dex a"
  by (simp add: same_shape_def item_fits_def)

lemma same_shape_len: "same_shape offs dex dex' \<Longrightarrow> a \<in> offs \<Longrightarrow> insns_len dex' a = insns_len dex a"
  by (simp add: same_shape_def)

lemma same_shape_end: "same_shape offs dex dex' \<Longrightarrow> a \<in> offs \<Longrightarrow> item_end dex' a = item_end dex a"
  by (simp add: item_end_def same_shape_fits same_shape_len)

lemma same_shape_disjoint:
  "same_shape offs dex dex' \<Longrightarrow> disjoint_items dex offs \<Longrightarrow> disjoint_items dex' offs"
  unfolding disjoint_items_def by (simp add: same_shape_fits same_shape_end same_shape_len)

lemma target_range:
  "target lb m dex r = Some (off, bs) \<Longrightarrow>
     off \<in> code_offsets m \<and> item_fits dex off \<and> length bs = insns_len dex off"
  by (auto simp: target_def code_offsets_def split: option.splits if_splits)

lemma same_shape_target:
  assumes "same_shape (code_offsets m) dex dex'"
  shows "target lb m dex' r = target lb m dex r"
proof (cases "map_of m (mcr_method_idx r)")
  case (Some off)
  show ?thesis
  proof (cases "off = 0")
    case False
    with Some have "unat off \<in> code_offsets m" by (auto simp: code_offsets_def)
    with assms show ?thesis by (simp add: target_def Some same_shape_fits same_shape_len split: option.split)
  qed (simp add: target_def Some split: option.split)
qed (simp add: target_def)

lemma same_shape_targets:
  "same_shape (code_offsets m) dex dex' \<Longrightarrow> targets lb m dex' rs = targets lb m dex rs"
  by (induction rs) (simp_all add: same_shape_target split: option.split)

lemma put_insns_shape:
  assumes dis: "disjoint_items dex offs" and off: "off \<in> offs" and fits: "item_fits dex off"
    and len: "length bs = insns_len dex off"
  shows "same_shape offs dex (put_insns (off, bs) dex)"
  unfolding same_shape_def
proof (intro conjI ballI)
  have range: "off + 0x10 + length bs \<le> length dex" using fits len by (simp add: item_fits_def)
  then show "length (put_insns (off, bs) dex) = length dex"
    by (simp add: put_insns_def length_splice)
  fix a assume a: "a \<in> offs"
  show "insns_len (put_insns (off, bs) dex) a = insns_len dex a"
  proof (cases "bs = [] \<or> a = off")
    case True
    then show ?thesis
      using range by (auto simp: put_insns_def insns_len_def hdr_le32_def splice_read_other)
  next
    case False
    with dis off a fits have "item_end dex off \<le> a \<or> item_end dex a \<le> off + 0x10"
      using len by (intro disjoint_itemsD) (auto simp flip: length_0_conv)
    then have "a + 0x0c + 4 \<le> off + 0x10 \<or> off + 0x10 + length bs \<le> a + 0x0c"
      using fits len by (auto simp: item_end_def)
    then show ?thesis
      using range by (auto simp: put_insns_def insns_len_def hdr_le32_def splice_read_other)
  qed
qed

lemma put_target_shape:
  assumes "disjoint_items dex (code_offsets m)" and "target lb m dex r = Some t"
  shows "same_shape (code_offsets m) dex (put_insns t dex)"
proof -
  obtain off bs where t: "t = (off, bs)" by (cases t)
  from target_range [OF assms(2) [unfolded t]] show ?thesis
    unfolding t by (intro put_insns_shape [OF assms(1)]) auto
qed

text \<open>All records: the writes of those that have a target, one after the other.\<close>

lemma fold_apply_records:
  assumes "disjoint_items dex (code_offsets m)" and "\<not> fo_force_mismatch opts"
  shows "\<exists>stats'. fold (apply_record lb m opts) rs (dex, stats) =
      (fold put_insns (targets lb m dex rs) dex, stats') \<and>
    fs_applied stats' = fs_applied stats + length (targets lb m dex rs) \<and>
    fs_applied stats' + fs_skipped stats' = fs_applied stats + fs_skipped stats + length rs"
  using assms(1)
proof (induction rs arbitrary: dex stats)
  case (Cons r rs)
  let ?dex1 = "case target lb m dex r of Some t \<Rightarrow> put_insns t dex | None \<Rightarrow> dex"
  obtain stats1 where step: "apply_record lb m opts r (dex, stats) = (?dex1, stats1)"
    and st1: "fs_applied stats1 = fs_applied stats + (if target lb m dex r = None then 0 else 1)"
      "fs_skipped stats1 = fs_skipped stats + (if target lb m dex r = None then 1 else 0)"
    using apply_record_exact [OF assms(2), of lb m r dex stats] by blast
  have shape: "same_shape (code_offsets m) dex ?dex1"
    using put_target_shape [OF Cons.prems] by (auto simp: same_shape_def split: option.split)
  from Cons.IH [OF same_shape_disjoint [OF shape Cons.prems], of stats1]
  obtain stats2 where rest: "fold (apply_record lb m opts) rs (?dex1, stats1) =
      (fold put_insns (targets lb m dex rs) ?dex1, stats2)"
    and st2: "fs_applied stats2 = fs_applied stats1 + length (targets lb m dex rs)"
      "fs_applied stats2 + fs_skipped stats2 = fs_applied stats1 + fs_skipped stats1 + length rs"
    unfolding same_shape_targets [OF shape] by blast
  show ?case
    using rest st1 st2 by (cases "target lb m dex r") (simp_all add: step)
qed simp

text \<open>What the writes leave in the file.\<close>

definition last_capture :: "(nat \<times> u8 list) list \<Rightarrow> nat \<Rightarrow> u8 list \<Rightarrow> u8 list" where
  "last_capture ts off original = fold (\<lambda>(off', bs) cur. if off' = off then bs else cur) ts original"

lemma fold_put_insns:
  assumes "disjoint_items dex offs"
    and "\<forall>(off, bs) \<in> set ts. off \<in> offs \<and> item_fits dex off \<and> length bs = insns_len dex off"
  shows "same_shape offs dex (fold put_insns ts dex)"
    and "\<And>a. a \<in> offs \<Longrightarrow> item_fits dex a \<Longrightarrow>
      insns_at (fold put_insns ts dex) a = last_capture ts a (insns_at dex a)"
    and "\<And>i. (\<forall>(off, bs) \<in> set ts. i \<notin> {off + 0x10 ..< off + 0x10 + insns_len dex off}) \<Longrightarrow>
      i < length dex \<Longrightarrow> fold put_insns ts dex ! i = dex ! i"
proof -
  have "same_shape offs dex (fold put_insns ts dex) \<and>
    (\<forall>a\<in>offs. item_fits dex a \<longrightarrow>
      insns_at (fold put_insns ts dex) a = last_capture ts a (insns_at dex a)) \<and>
    (\<forall>i. (\<forall>(off, bs) \<in> set ts. i \<notin> {off + 0x10 ..< off + 0x10 + insns_len dex off}) \<longrightarrow>
      i < length dex \<longrightarrow> fold put_insns ts dex ! i = dex ! i)" (is "?A \<and> ?B \<and> ?C")
    using assms
  proof (induction ts arbitrary: dex)
    case Nil
    then show ?case by (simp add: same_shape_def last_capture_def)
  next
    case (Cons t ts)
    obtain off bs where t: "t = (off, bs)" by (cases t)
    from Cons.prems(2) have off: "off \<in> offs" "item_fits dex off" "length bs = insns_len dex off"
      by (auto simp: t)
    let ?d = "put_insns t dex"
    have shape: "same_shape offs dex ?d" unfolding t by (rule put_insns_shape [OF Cons.prems(1) off])
    have range: "off + 0x10 + length bs \<le> length dex" using off by (simp add: item_fits_def)
    have "\<forall>(o', b') \<in> set ts. o' \<in> offs \<and> item_fits ?d o' \<and> length b' = insns_len ?d o'"
      using Cons.prems(2) same_shape_fits [OF shape] same_shape_len [OF shape] by auto
    note IH = Cons.IH [OF same_shape_disjoint [OF shape Cons.prems(1)] this]
    have trans: "same_shape offs dex (fold put_insns ts ?d)"
      using IH shape by (auto simp: same_shape_def)
    have at: "insns_at ?d a = (if a = off then bs else insns_at dex a)"
      if "a \<in> offs" "item_fits dex a" for a
    proof (cases "a = off")
      case True
      have "insns_len ?d off = length bs" using same_shape_len [OF shape off(1)] off(3) by simp
      then show ?thesis using range True by (simp add: insns_at_def t put_insns_def splice_read)
    next
      case False
      have len: "insns_len ?d a = insns_len dex a" by (rule same_shape_len [OF shape that(1)])
      show ?thesis
      proof (cases "insns_len dex a = 0 \<or> bs = []")
        case True
        then show ?thesis using False range len by (auto simp: insns_at_def t put_insns_def)
      next
        case nonempty: False
        then have "item_end dex off \<le> a \<or> item_end dex a \<le> off + 0x10"
          using False off that Cons.prems(1) by (intro disjoint_itemsD) (auto simp flip: length_0_conv)
        then have "a + 0x10 + insns_len dex a \<le> off + 0x10 \<or> off + 0x10 + length bs \<le> a + 0x10"
          using off that by (auto simp: item_end_def)
        then show ?thesis
          using False range len by (auto simp: insns_at_def t put_insns_def splice_read_other)
      qed
    qed
    have same: "?d ! i = dex ! i"
      if "i \<notin> {off + 0x10 ..< off + 0x10 + insns_len dex off}" "i < length dex" for i
      using that range off by (auto simp: t put_insns_def nth_splice)
    have len: "insns_len ?d o' = insns_len dex o'" if "(o', b') \<in> set ts" for o' b'
      using that Cons.prems(2) same_shape_len [OF shape] by auto
    have rest: "fold put_insns (t # ts) dex ! i = dex ! i"
      if o: "\<forall>(o', b')\<in>set (t # ts). i \<notin> {o' + 0x10 ..< o' + 0x10 + insns_len dex o'}"
        and i: "i < length dex" for i
    proof -
      from o have "i \<notin> {off + 0x10 ..< off + 0x10 + insns_len dex off}" by (simp add: t)
      then have "?d ! i = dex ! i" using i by (rule same)
      moreover have "\<forall>(o', b')\<in>set ts. i \<notin> {o' + 0x10 ..< o' + 0x10 + insns_len ?d o'}"
      proof (intro ballI, clarify)
        fix o' b' assume m: "(o', b') \<in> set ts" and i': "i \<in> {o' + 0x10 ..< o' + 0x10 + insns_len ?d o'}"
        from o m have "i \<notin> {o' + 0x10 ..< o' + 0x10 + insns_len dex o'}" by auto
        with i' len [OF m] show False by simp
      qed
      moreover have "i < length ?d" using shape i by (simp add: same_shape_def)
      ultimately show ?thesis using conjunct2 [OF conjunct2 [OF IH]] by simp
    qed
    show ?case
    proof (intro conjI)
      show "same_shape offs dex (fold put_insns (t # ts) dex)" using trans by simp
      show "\<forall>a\<in>offs. item_fits dex a \<longrightarrow>
          insns_at (fold put_insns (t # ts) dex) a = last_capture (t # ts) a (insns_at dex a)"
        using IH at same_shape_fits [OF shape] by (auto simp: t last_capture_def)
    qed (use rest in blast)
  qed
  then have A: ?A and B: ?B and C: ?C by (rule conjunct1, rule conjunct1 [OF conjunct2],
      rule conjunct2 [OF conjunct2])
  show "same_shape offs dex (fold put_insns ts dex)" by (rule A)
  show "insns_at (fold put_insns ts dex) a = last_capture ts a (insns_at dex a)"
    if "a \<in> offs" "item_fits dex a" for a using bspec [OF B that(1)] that(2) by (rule mp)
  show "fold put_insns ts dex ! i = dex ! i"
    if "\<forall>(off, bs) \<in> set ts. i \<notin> {off + 0x10 ..< off + 0x10 + insns_len dex off}" "i < length dex" for i
    using mp [OF mp [OF spec [OF C] that(1)] that(2)] .
qed

lemma targets_append: "targets lb m dex (rs1 @ rs2) = targets lb m dex rs1 @ targets lb m dex rs2"
  by (induction rs1) (simp_all split: option.split)

lemma last_capture_snoc: "last_capture (ts @ [(off, bs)]) off original = bs"
  by (simp add: last_capture_def)

section \<open>The checksums of the header\<close>

definition checksums_ok :: "libs \<Rightarrow> u8 list \<Rightarrow> bool" where
  "checksums_ok lb dex \<longleftrightarrow>
     take 20 (drop 12 dex) = lib_sha1 lb (drop 32 dex) \<and> hdr_le32 dex 8 = lib_adler32 lb (drop 12 dex)"

text \<open>A SHA-1 digest has twenty bytes.\<close>

definition sha1_size :: "libs \<Rightarrow> bool" where
  "sha1_size lb \<longleftrightarrow> (\<forall>xs. length (lib_sha1 lb xs) = 20)"

lemma recalc_dex_header:
  assumes "sha1_size lb" and "32 \<le> length dex"
  shows "length (recalc_dex_header lb dex) = length dex"
    and "drop 32 (recalc_dex_header lb dex) = drop 32 dex"
    and "take 8 (recalc_dex_header lb dex) = take 8 dex"
    and "checksums_ok lb (recalc_dex_header lb dex)"
proof -
  let ?sig = "lib_sha1 lb (drop 32 dex)"
  let ?d = "splice dex 12 ?sig"
  let ?sum = "le_bytes 4 (lib_adler32 lb (drop 12 ?d))"
  have sig: "length ?sig = 20" using assms(1) by (simp add: sha1_size_def)
  have len: "length ?d = length dex" by (rule length_splice) (use sig assms(2) in simp)
  have eq: "recalc_dex_header lb dex = splice ?d 8 ?sum"
    using assms(2) by (simp add: recalc_dex_header_def Let_def)
  show "length (recalc_dex_header lb dex) = length dex"
    unfolding eq using len assms(2) by (simp add: length_splice)
  have d12: "drop 12 (splice ?d 8 ?sum) = drop 12 ?d" by (rule splice_drop) (use len assms(2) in simp_all)
  have d32: "drop 32 (splice ?d 8 ?sum) = drop 32 dex"
    using len sig assms(2) by (simp add: splice_drop)
  then show "drop 32 (recalc_dex_header lb dex) = drop 32 dex" unfolding eq .
  show "take 8 (recalc_dex_header lb dex) = take 8 dex"
    unfolding eq using len assms(2) by (simp add: splice_take)
  have "take 20 (drop 12 ?d) = ?sig" by (rule splice_read) (use sig assms(2) in simp_all)
  moreover have "take 4 (drop 8 (splice ?d 8 ?sum)) = ?sum"
    by (rule splice_read) (use len assms(2) in simp_all)
  ultimately show "checksums_ok lb (recalc_dex_header lb dex)"
    unfolding checksums_ok_def hdr_le32_def eq by (simp add: d12 d32)
qed

lemma insns_at_behind_header:
  assumes "drop 32 dex' = drop 32 dex" and "32 \<le> off"
  shows "insns_at dex' off = insns_at dex off" and "insns_len dex' off = insns_len dex off"
proof -
  have d: "drop a dex' = drop a dex" if "32 \<le> a" for a
    using arg_cong [OF assms(1), of "drop (a - 32)"] that by simp
  show len: "insns_len dex' off = insns_len dex off"
    using assms(2) by (simp add: insns_len_def hdr_le32_def d)
  show "insns_at dex' off = insns_at dex off"
    using assms(2) by (simp add: insns_at_def len d)
qed

section \<open>One DEX file\<close>

theorem fix_one_dex_exact:
  fixes opts :: fix_options and rs :: "method_code_record list"
  assumes parse: "dex_parser_new dex = Inr header"
    and map: "build_method_code_off_map \<lparr>dp_data = dex, dp_header = header\<rparr> = Inr m"
    and dis: "disjoint_items dex (code_offsets m)" and low: "\<And>a. a \<in> code_offsets m \<Longrightarrow> 32 \<le> a"
    and force: "\<not> fo_force_mismatch opts" and sha1: "sha1_size lb"
  defines "ts \<equiv> targets lb m dex rs"
  obtains outcome dex' where "fix_one_dex_bytes lb dex (Inr rs) opts = Inr (outcome, dex')"
    and "length dex' = length dex" and "checksums_ok lb dex'"
    and "\<And>a. a \<in> code_offsets m \<Longrightarrow> item_fits dex a \<Longrightarrow>
      insns_at dex' a = last_capture ts a (insns_at dex a)"
    and "\<And>i. 32 \<le> i \<Longrightarrow> i < length dex \<Longrightarrow>
      (\<forall>(off, bs) \<in> set ts. i \<notin> {off + 0x10 ..< off + 0x10 + insns_len dex off}) \<Longrightarrow> dex' ! i = dex ! i"
    and "fs_applied (fx_stats outcome) = length ts"
    and "fs_applied (fx_stats outcome) + fs_skipped (fx_stats outcome) = length rs"
    and "fx_coverage outcome = compute_coverage \<lparr>dp_data = dex, dp_header = header\<rparr> m rs"
proof -
  obtain stats where run: "apply_records_to_dex lb dex m rs opts = (fold put_insns ts dex, stats)"
    and stats: "fs_applied stats = length ts" "fs_applied stats + fs_skipped stats = length rs"
    using fold_apply_records [OF dis force, of lb rs no_stats]
    by (auto simp: apply_records_to_dex_def ts_def no_stats_def)
  let ?d = "fold put_insns ts dex"
  have "\<forall>(off, bs) \<in> set ts. off \<in> code_offsets m \<and> item_fits dex off \<and> length bs = insns_len dex off"
    unfolding ts_def
    by (induction rs) (auto dest: target_range split: option.splits)
  note writes = fold_put_insns [OF dis this]
  have len: "length ?d = length dex" using writes(1) by (simp add: same_shape_def)
  have "32 \<le> length dex"
    using parse by (auto simp: dex_parser_new_def parse_dex_header_def slice_get_def DEX_HEADER_LEN_def
        split: sum.splits if_splits)
  then have d32: "32 \<le> length ?d" using len by simp
  note sums = recalc_dex_header [OF sha1 d32]
  show thesis
  proof (rule that)
    show "fix_one_dex_bytes lb dex (Inr rs) opts =
      Inr (\<lparr>fx_stats = stats,
          fx_coverage = compute_coverage \<lparr>dp_data = dex, dp_header = header\<rparr> m rs\<rparr>,
        recalc_dex_header lb ?d)"
      by (simp add: fix_one_dex_bytes_def parse map run Let_def)
    show "insns_at (recalc_dex_header lb ?d) a = last_capture ts a (insns_at dex a)"
      if "a \<in> code_offsets m" "item_fits dex a" for a
      using insns_at_behind_header(1) [OF sums(2) low [OF that(1)]] writes(2) [OF that] by simp
    show "recalc_dex_header lb ?d ! i = dex ! i" if "32 \<le> i" "i < length dex"
      "\<forall>(off, bs) \<in> set ts. i \<notin> {off + 0x10 ..< off + 0x10 + insns_len dex off}" for i
    proof -
      have "recalc_dex_header lb ?d ! i = drop 32 (recalc_dex_header lb ?d) ! (i - 32)"
        using that sums(1) len by simp
      also have "\<dots> = ?d ! i" unfolding sums(2) using that len by simp
      also have "\<dots> = dex ! i" by (rule writes(3) [OF that(3,2)])
      finally show ?thesis .
    qed
  qed (use sums len stats in simp_all)
qed

end
