(* ===== verification/Dalvik.thy ===== *)
theory Dalvik
  imports Rust_Std
begin

text \<open>
  The Dalvik instruction set as its documentation lists it, independent of the tables of
  \<^verbatim>\<open>src/bytecode.rs\<close>: for each opcode its mnemonic, its format and which of its register operands
  are pairs. A format name gives the number of code units, the number of registers and a letter
  for what else the instruction holds.
\<close>

datatype dalvik_format = F10x | F12x | F11n | F11x | F10t | F20t | F22x | F21t | F21s | F21h | F21c
  | F23x | F22b | F22t | F22s | F22c | F30t | F32x | F31i | F31t | F31c | F35c | F3rc | F45cc | F4rcc
  | F51l

datatype operand_width = Single | Wide

fun format_units :: "dalvik_format \<Rightarrow> nat" where
  "format_units F10x = 1" | "format_units F12x = 1" | "format_units F11n = 1"
| "format_units F11x = 1" | "format_units F10t = 1" | "format_units F20t = 2"
| "format_units F22x = 2" | "format_units F21t = 2" | "format_units F21s = 2"
| "format_units F21h = 2" | "format_units F21c = 2" | "format_units F23x = 2"
| "format_units F22b = 2" | "format_units F22t = 2" | "format_units F22s = 2"
| "format_units F22c = 2" | "format_units F30t = 3" | "format_units F32x = 3"
| "format_units F31i = 3" | "format_units F31t = 3" | "format_units F31c = 3"
| "format_units F35c = 3" | "format_units F3rc = 3" | "format_units F45cc = 4"
| "format_units F4rcc = 4" | "format_units F51l = 5"

section \<open>Opcodes\<close>

definition dalvik_table :: "(string \<times> dalvik_format \<times> operand_width list) option list" where
  "dalvik_table =
    \<comment> \<open>00\<close> map Some
      [(''nop'', F10x, []), (''move'', F12x, [Single, Single]), (''move/from16'', F22x, [Single, Single]),
       (''move/16'', F32x, [Single, Single]), (''move-wide'', F12x, [Wide, Wide]),
       (''move-wide/from16'', F22x, [Wide, Wide]), (''move-wide/16'', F32x, [Wide, Wide]),
       (''move-object'', F12x, [Single, Single]), (''move-object/from16'', F22x, [Single, Single]),
       (''move-object/16'', F32x, [Single, Single]), (''move-result'', F11x, [Single]),
       (''move-result-wide'', F11x, [Wide]), (''move-result-object'', F11x, [Single]),
       (''move-exception'', F11x, [Single]), (''return-void'', F10x, []), (''return'', F11x, [Single])] @
    \<comment> \<open>10\<close> map Some
      [(''return-wide'', F11x, [Wide]), (''return-object'', F11x, [Single]), (''const/4'', F11n, [Single]),
       (''const/16'', F21s, [Single]), (''const'', F31i, [Single]), (''const/high16'', F21h, [Single]),
       (''const-wide/16'', F21s, [Wide]), (''const-wide/32'', F31i, [Wide]),
       (''const-wide'', F51l, [Wide]), (''const-wide/high16'', F21h, [Wide]),
       (''const-string'', F21c, [Single]), (''const-string/jumbo'', F31c, [Single]),
       (''const-class'', F21c, [Single]), (''monitor-enter'', F11x, [Single]), (''monitor-exit'', F11x, [Single]),
       (''check-cast'', F21c, [Single])] @
    \<comment> \<open>20\<close> map Some
      [(''instance-of'', F22c, [Single, Single]), (''array-length'', F12x, [Single, Single]),
       (''new-instance'', F21c, [Single]), (''new-array'', F22c, [Single, Single]),
       (''filled-new-array'', F35c, []), (''filled-new-array/range'', F3rc, []),
       (''fill-array-data'', F31t, [Single]), (''throw'', F11x, [Single]), (''goto'', F10t, []),
       (''goto/16'', F20t, []), (''goto/32'', F30t, []), (''packed-switch'', F31t, [Single]),
       (''sparse-switch'', F31t, [Single]), (''cmpl-float'', F23x, [Single, Single, Single]),
       (''cmpg-float'', F23x, [Single, Single, Single]), (''cmpl-double'', F23x, [Single, Wide, Wide])] @
    \<comment> \<open>30\<close> map Some
      [(''cmpg-double'', F23x, [Single, Wide, Wide]), (''cmp-long'', F23x, [Single, Wide, Wide]),
       (''if-eq'', F22t, [Single, Single]), (''if-ne'', F22t, [Single, Single]), (''if-lt'', F22t, [Single, Single]),
       (''if-ge'', F22t, [Single, Single]), (''if-gt'', F22t, [Single, Single]), (''if-le'', F22t, [Single, Single]),
       (''if-eqz'', F21t, [Single]), (''if-nez'', F21t, [Single]), (''if-ltz'', F21t, [Single]),
       (''if-gez'', F21t, [Single]), (''if-gtz'', F21t, [Single]), (''if-lez'', F21t, [Single])] @
    \<comment> \<open>3e\<close> replicate 6 None @
    \<comment> \<open>44\<close> map Some
      [(''aget'', F23x, [Single, Single, Single]), (''aget-wide'', F23x, [Wide, Single, Single]),
       (''aget-object'', F23x, [Single, Single, Single]), (''aget-boolean'', F23x, [Single, Single, Single]),
       (''aget-byte'', F23x, [Single, Single, Single]), (''aget-char'', F23x, [Single, Single, Single]),
       (''aget-short'', F23x, [Single, Single, Single]), (''aput'', F23x, [Single, Single, Single]),
       (''aput-wide'', F23x, [Wide, Single, Single]), (''aput-object'', F23x, [Single, Single, Single]),
       (''aput-boolean'', F23x, [Single, Single, Single]), (''aput-byte'', F23x, [Single, Single, Single]),
       (''aput-char'', F23x, [Single, Single, Single]), (''aput-short'', F23x, [Single, Single, Single]),
       (''iget'', F22c, [Single, Single]), (''iget-wide'', F22c, [Wide, Single])] @
    \<comment> \<open>54\<close> map Some
      [(''iget-object'', F22c, [Single, Single]), (''iget-boolean'', F22c, [Single, Single]),
       (''iget-byte'', F22c, [Single, Single]), (''iget-char'', F22c, [Single, Single]),
       (''iget-short'', F22c, [Single, Single]), (''iput'', F22c, [Single, Single]),
       (''iput-wide'', F22c, [Wide, Single]), (''iput-object'', F22c, [Single, Single]),
       (''iput-boolean'', F22c, [Single, Single]), (''iput-byte'', F22c, [Single, Single]),
       (''iput-char'', F22c, [Single, Single]), (''iput-short'', F22c, [Single, Single]), (''sget'', F21c, [Single]),
       (''sget-wide'', F21c, [Wide]), (''sget-object'', F21c, [Single]), (''sget-boolean'', F21c, [Single])] @
    \<comment> \<open>64\<close> map Some
      [(''sget-byte'', F21c, [Single]), (''sget-char'', F21c, [Single]), (''sget-short'', F21c, [Single]),
       (''sput'', F21c, [Single]), (''sput-wide'', F21c, [Wide]), (''sput-object'', F21c, [Single]),
       (''sput-boolean'', F21c, [Single]), (''sput-byte'', F21c, [Single]), (''sput-char'', F21c, [Single]),
       (''sput-short'', F21c, [Single]), (''invoke-virtual'', F35c, []), (''invoke-super'', F35c, []),
       (''invoke-direct'', F35c, []), (''invoke-static'', F35c, []), (''invoke-interface'', F35c, [])] @
    \<comment> \<open>73\<close> replicate 1 None @
    \<comment> \<open>74\<close> map Some
      [(''invoke-virtual/range'', F3rc, []), (''invoke-super/range'', F3rc, []),
       (''invoke-direct/range'', F3rc, []), (''invoke-static/range'', F3rc, []),
       (''invoke-interface/range'', F3rc, [])] @
    \<comment> \<open>79\<close> replicate 2 None @
    \<comment> \<open>7b\<close> map Some
      [(''neg-int'', F12x, [Single, Single]), (''not-int'', F12x, [Single, Single]),
       (''neg-long'', F12x, [Wide, Wide]), (''not-long'', F12x, [Wide, Wide]),
       (''neg-float'', F12x, [Single, Single]), (''neg-double'', F12x, [Wide, Wide]),
       (''int-to-long'', F12x, [Wide, Single]), (''int-to-float'', F12x, [Single, Single]),
       (''int-to-double'', F12x, [Wide, Single]), (''long-to-int'', F12x, [Single, Wide]),
       (''long-to-float'', F12x, [Single, Wide]), (''long-to-double'', F12x, [Wide, Wide]),
       (''float-to-int'', F12x, [Single, Single]), (''float-to-long'', F12x, [Wide, Single]),
       (''float-to-double'', F12x, [Wide, Single]), (''double-to-int'', F12x, [Single, Wide])] @
    \<comment> \<open>8b\<close> map Some
      [(''double-to-long'', F12x, [Wide, Wide]), (''double-to-float'', F12x, [Single, Wide]),
       (''int-to-byte'', F12x, [Single, Single]), (''int-to-char'', F12x, [Single, Single]),
       (''int-to-short'', F12x, [Single, Single]), (''add-int'', F23x, [Single, Single, Single]),
       (''sub-int'', F23x, [Single, Single, Single]), (''mul-int'', F23x, [Single, Single, Single]),
       (''div-int'', F23x, [Single, Single, Single]), (''rem-int'', F23x, [Single, Single, Single]),
       (''and-int'', F23x, [Single, Single, Single]), (''or-int'', F23x, [Single, Single, Single]),
       (''xor-int'', F23x, [Single, Single, Single]), (''shl-int'', F23x, [Single, Single, Single]),
       (''shr-int'', F23x, [Single, Single, Single]), (''ushr-int'', F23x, [Single, Single, Single])] @
    \<comment> \<open>9b\<close> map Some
      [(''add-long'', F23x, [Wide, Wide, Wide]), (''sub-long'', F23x, [Wide, Wide, Wide]),
       (''mul-long'', F23x, [Wide, Wide, Wide]), (''div-long'', F23x, [Wide, Wide, Wide]),
       (''rem-long'', F23x, [Wide, Wide, Wide]), (''and-long'', F23x, [Wide, Wide, Wide]),
       (''or-long'', F23x, [Wide, Wide, Wide]), (''xor-long'', F23x, [Wide, Wide, Wide]),
       (''shl-long'', F23x, [Wide, Wide, Single]), (''shr-long'', F23x, [Wide, Wide, Single]),
       (''ushr-long'', F23x, [Wide, Wide, Single]), (''add-float'', F23x, [Single, Single, Single]),
       (''sub-float'', F23x, [Single, Single, Single]), (''mul-float'', F23x, [Single, Single, Single]),
       (''div-float'', F23x, [Single, Single, Single]), (''rem-float'', F23x, [Single, Single, Single])] @
    \<comment> \<open>ab\<close> map Some
      [(''add-double'', F23x, [Wide, Wide, Wide]), (''sub-double'', F23x, [Wide, Wide, Wide]),
       (''mul-double'', F23x, [Wide, Wide, Wide]), (''div-double'', F23x, [Wide, Wide, Wide]),
       (''rem-double'', F23x, [Wide, Wide, Wide]), (''add-int/2addr'', F12x, [Single, Single]),
       (''sub-int/2addr'', F12x, [Single, Single]), (''mul-int/2addr'', F12x, [Single, Single]),
       (''div-int/2addr'', F12x, [Single, Single]), (''rem-int/2addr'', F12x, [Single, Single]),
       (''and-int/2addr'', F12x, [Single, Single]), (''or-int/2addr'', F12x, [Single, Single]),
       (''xor-int/2addr'', F12x, [Single, Single]), (''shl-int/2addr'', F12x, [Single, Single]),
       (''shr-int/2addr'', F12x, [Single, Single]), (''ushr-int/2addr'', F12x, [Single, Single])] @
    \<comment> \<open>bb\<close> map Some
      [(''add-long/2addr'', F12x, [Wide, Wide]), (''sub-long/2addr'', F12x, [Wide, Wide]),
       (''mul-long/2addr'', F12x, [Wide, Wide]), (''div-long/2addr'', F12x, [Wide, Wide]),
       (''rem-long/2addr'', F12x, [Wide, Wide]), (''and-long/2addr'', F12x, [Wide, Wide]),
       (''or-long/2addr'', F12x, [Wide, Wide]), (''xor-long/2addr'', F12x, [Wide, Wide]),
       (''shl-long/2addr'', F12x, [Wide, Single]), (''shr-long/2addr'', F12x, [Wide, Single]),
       (''ushr-long/2addr'', F12x, [Wide, Single]), (''add-float/2addr'', F12x, [Single, Single]),
       (''sub-float/2addr'', F12x, [Single, Single]), (''mul-float/2addr'', F12x, [Single, Single]),
       (''div-float/2addr'', F12x, [Single, Single]), (''rem-float/2addr'', F12x, [Single, Single])] @
    \<comment> \<open>cb\<close> map Some
      [(''add-double/2addr'', F12x, [Wide, Wide]), (''sub-double/2addr'', F12x, [Wide, Wide]),
       (''mul-double/2addr'', F12x, [Wide, Wide]), (''div-double/2addr'', F12x, [Wide, Wide]),
       (''rem-double/2addr'', F12x, [Wide, Wide]), (''add-int/lit16'', F22s, [Single, Single]),
       (''rsub-int'', F22s, [Single, Single]), (''mul-int/lit16'', F22s, [Single, Single]),
       (''div-int/lit16'', F22s, [Single, Single]), (''rem-int/lit16'', F22s, [Single, Single]),
       (''and-int/lit16'', F22s, [Single, Single]), (''or-int/lit16'', F22s, [Single, Single]),
       (''xor-int/lit16'', F22s, [Single, Single]), (''add-int/lit8'', F22b, [Single, Single]),
       (''rsub-int/lit8'', F22b, [Single, Single]), (''mul-int/lit8'', F22b, [Single, Single])] @
    \<comment> \<open>db\<close> map Some
      [(''div-int/lit8'', F22b, [Single, Single]), (''rem-int/lit8'', F22b, [Single, Single]),
       (''and-int/lit8'', F22b, [Single, Single]), (''or-int/lit8'', F22b, [Single, Single]),
       (''xor-int/lit8'', F22b, [Single, Single]), (''shl-int/lit8'', F22b, [Single, Single]),
       (''shr-int/lit8'', F22b, [Single, Single]), (''ushr-int/lit8'', F22b, [Single, Single])] @
    \<comment> \<open>e3\<close> replicate 23 None @
    \<comment> \<open>fa\<close> map Some
      [(''invoke-polymorphic'', F45cc, []), (''invoke-polymorphic/range'', F4rcc, []),
       (''invoke-custom'', F35c, []), (''invoke-custom/range'', F3rc, []),
       (''const-method-handle'', F21c, [Single]), (''const-method-type'', F21c, [Single])]"

definition dalvik_op :: "u8 \<Rightarrow> (dalvik_format \<times> operand_width list) option" where
  "dalvik_op op = map_option snd (dalvik_table ! unat op)"

lemma length_dalvik_table: "length dalvik_table = 256"
  by (simp add: dalvik_table_def)

section \<open>Operands\<close>

text \<open>The high byte of the first unit.\<close>

definition high_byte :: "u16 \<Rightarrow> nat" where
  "high_byte u = unat (drop_bit 8 u)"

text \<open>The registers vA, vB and vC of an instruction.\<close>

fun operand_registers :: "dalvik_format \<Rightarrow> u16 list \<Rightarrow> nat list" where
  "operand_registers F12x us = [high_byte (us ! 0) mod 16, high_byte (us ! 0) div 16]"
| "operand_registers F22t us = [high_byte (us ! 0) mod 16, high_byte (us ! 0) div 16]"
| "operand_registers F22s us = [high_byte (us ! 0) mod 16, high_byte (us ! 0) div 16]"
| "operand_registers F22c us = [high_byte (us ! 0) mod 16, high_byte (us ! 0) div 16]"
| "operand_registers F11n us = [high_byte (us ! 0) mod 16]"
| "operand_registers F11x us = [high_byte (us ! 0)]"
| "operand_registers F21t us = [high_byte (us ! 0)]"
| "operand_registers F21s us = [high_byte (us ! 0)]"
| "operand_registers F21h us = [high_byte (us ! 0)]"
| "operand_registers F21c us = [high_byte (us ! 0)]"
| "operand_registers F31i us = [high_byte (us ! 0)]"
| "operand_registers F31t us = [high_byte (us ! 0)]"
| "operand_registers F31c us = [high_byte (us ! 0)]"
| "operand_registers F51l us = [high_byte (us ! 0)]"
| "operand_registers F22x us = [high_byte (us ! 0), unat (us ! 1)]"
| "operand_registers F23x us = [high_byte (us ! 0), unat (us ! 1) mod 256, unat (us ! 1) div 256]"
| "operand_registers F22b us = [high_byte (us ! 0), unat (us ! 1) mod 256]"
| "operand_registers F32x us = [unat (us ! 1), unat (us ! 2)]" | "operand_registers _ _ = []"

text \<open>The number of argument words of a call and the registers they are in.\<close>

fun argument_count :: "dalvik_format \<Rightarrow> u16 list \<Rightarrow> nat" where
  "argument_count F35c us = high_byte (us ! 0) div 16"
| "argument_count F45cc us = high_byte (us ! 0) div 16"
| "argument_count F3rc us = high_byte (us ! 0)" | "argument_count F4rcc us = high_byte (us ! 0)"
| "argument_count _ _ = 0"

definition listed_arguments :: "u16 list \<Rightarrow> nat list" where
  "listed_arguments us = take (high_byte (us ! 0) div 16)
     [unat (us ! 2) mod 16, unat (us ! 2) div 16 mod 16, unat (us ! 2) div 256 mod 16,
      unat (us ! 2) div 4096 mod 16, high_byte (us ! 0) mod 16]"

definition ranged_arguments :: "u16 list \<Rightarrow> nat list" where
  "ranged_arguments us = [unat (us ! 2)..<unat (us ! 2) + high_byte (us ! 0)]"

fun argument_list :: "dalvik_format \<Rightarrow> u16 list \<Rightarrow> nat list" where
  "argument_list F35c us = listed_arguments us" | "argument_list F45cc us = listed_arguments us"
| "argument_list F3rc us = ranged_arguments us" | "argument_list F4rcc us = ranged_arguments us"
| "argument_list _ _ = []"

text \<open>The counts and ranges the formats allow.\<close>

definition arguments_ok :: "dalvik_format \<Rightarrow> u16 list \<Rightarrow> bool" where
  "arguments_ok f us \<longleftrightarrow>
     (f \<in> {F35c, F45cc} \<longrightarrow> argument_count f us \<le> 5) \<and>
     (f \<in> {F3rc, F4rcc} \<longrightarrow> unat (us ! 2) + argument_count f us \<le> 65536)"

text \<open>All registers an instruction uses, with the upper half of every pair.\<close>

fun operand_halves :: "operand_width \<Rightarrow> nat \<Rightarrow> nat list" where
  "operand_halves Single r = [r]"
| "operand_halves Wide r = [r, r + 1]"

definition instruction_registers :: "dalvik_format \<Rightarrow> operand_width list \<Rightarrow> u16 list \<Rightarrow> nat list" where
  "instruction_registers f ws us =
     concat (map2 operand_halves ws (operand_registers f us)) @ argument_list f us"

end
