(* ===== verification/Bytecode.thy ===== *)
theory Bytecode
  imports Rust_Std
begin

text \<open>
  The bytecode walker of \<^verbatim>\<open>src/bytecode.rs\<close>: instruction widths and register layouts
  (\<^verbatim>\<open>format_of\<close>), register pairs (\<^verbatim>\<open>wide_slots\<close>), payload tables (\<^verbatim>\<open>payload_units\<close>) and
  the walk itself (\<^verbatim>\<open>scan_insns\<close>). A result is an option: \<open>None\<close> is the panic of an index
  out of range, which the walker is proved never to reach. Register numbers are at most
  65536 and counts at most 255, so the \<^verbatim>\<open>u32\<close> and \<^verbatim>\<open>u64\<close> arithmetic of the walker cannot
  overflow and is written on natural numbers; the conversions that can fail are kept.
\<close>

section \<open>Data\<close>

record insn_scan =
  registers_used :: u16
  outs_size :: u16
  units_walked :: nat

datatype bytecode_error = OddLength nat | UnknownOpcode u8 nat | TruncatedInsn nat
  | UnknownPayload u16 nat | BadArgCount nat nat | RegisterOverflow nat

record partial_scan =
  ps_scan :: insn_scan
  ps_error :: bytecode_error

datatype operands = NoRegs | NibbleAb | NibbleA | ByteA | ByteAUnitB | ByteABytesBc | ByteAByteB
  | UnitAUnitB | Args35c | Args3rc

section \<open>Opcode tables\<close>

text \<open>A \<^verbatim>\<open>match\<close> on opcode ranges: the arms in their order, as ranges with a value.\<close>

fun match_range :: "(u8 \<times> u8 \<times> 'a) list \<Rightarrow> u8 \<Rightarrow> 'a option" where
  "match_range [] op = None"
| "match_range ((lo, hi, v) # arms) op =
     (if lo \<le> op \<and> op \<le> hi then Some v else match_range arms op)"

definition format_arms :: "(u8 \<times> u8 \<times> nat \<times> operands) list" where
  "format_arms =
    [(0x00, 0x00, 1, NoRegs), (0x01, 0x01, 1, NibbleAb), (0x02, 0x02, 2, ByteAUnitB),
     (0x03, 0x03, 3, UnitAUnitB), (0x04, 0x04, 1, NibbleAb), (0x05, 0x05, 2, ByteAUnitB),
     (0x06, 0x06, 3, UnitAUnitB), (0x07, 0x07, 1, NibbleAb), (0x08, 0x08, 2, ByteAUnitB),
     (0x09, 0x09, 3, UnitAUnitB), (0x0A, 0x0D, 1, ByteA), (0x0E, 0x0E, 1, NoRegs),
     (0x0F, 0x11, 1, ByteA), (0x12, 0x12, 1, NibbleA), (0x13, 0x13, 2, ByteA),
     (0x14, 0x14, 3, ByteA), (0x15, 0x15, 2, ByteA), (0x16, 0x16, 2, ByteA),
     (0x17, 0x17, 3, ByteA), (0x18, 0x18, 5, ByteA), (0x19, 0x19, 2, ByteA),
     (0x1A, 0x1A, 2, ByteA), (0x1B, 0x1B, 3, ByteA), (0x1C, 0x1C, 2, ByteA),
     (0x1D, 0x1E, 1, ByteA), (0x1F, 0x1F, 2, ByteA), (0x20, 0x20, 2, NibbleAb),
     (0x21, 0x21, 1, NibbleAb), (0x22, 0x22, 2, ByteA), (0x23, 0x23, 2, NibbleAb),
     (0x24, 0x24, 3, Args35c), (0x25, 0x25, 3, Args3rc), (0x26, 0x26, 3, ByteA),
     (0x27, 0x27, 1, ByteA), (0x28, 0x28, 1, NoRegs), (0x29, 0x29, 2, NoRegs),
     (0x2A, 0x2A, 3, NoRegs), (0x2B, 0x2C, 3, ByteA), (0x2D, 0x31, 2, ByteABytesBc),
     (0x32, 0x37, 2, NibbleAb), (0x38, 0x3D, 2, ByteA), (0x44, 0x51, 2, ByteABytesBc),
     (0x52, 0x5F, 2, NibbleAb), (0x60, 0x6D, 2, ByteA), (0x6E, 0x72, 3, Args35c),
     (0x74, 0x78, 3, Args3rc), (0x7B, 0x8F, 1, NibbleAb), (0x90, 0xAF, 2, ByteABytesBc),
     (0xB0, 0xCF, 1, NibbleAb), (0xD0, 0xD7, 2, NibbleAb), (0xD8, 0xE2, 2, ByteAByteB),
     (0xFA, 0xFA, 4, Args35c), (0xFB, 0xFB, 4, Args3rc), (0xFC, 0xFC, 3, Args35c),
     (0xFD, 0xFD, 3, Args3rc), (0xFE, 0xFE, 2, ByteA), (0xFF, 0xFF, 2, ByteA)]"

definition format_of :: "u8 \<Rightarrow> (nat \<times> operands) option" where
  "format_of op = match_range format_arms op"

text \<open>Bit 0 is vA, bit 1 vB, bit 2 vC.\<close>

definition wide_arms :: "(u8 \<times> u8 \<times> u8) list" where
  "wide_arms =
    [(0x04, 0x06, 3), (0x0B, 0x0B, 1), (0x10, 0x10, 1), (0x16, 0x19, 1), (0x2F, 0x31, 6),
     (0x45, 0x45, 1), (0x4C, 0x4C, 1), (0x53, 0x53, 1), (0x5A, 0x5A, 1), (0x61, 0x61, 1),
     (0x68, 0x68, 1), (0x7D, 0x7D, 3), (0x7E, 0x7E, 3), (0x80, 0x80, 3), (0x81, 0x81, 1),
     (0x83, 0x83, 1), (0x84, 0x84, 2), (0x85, 0x85, 2), (0x86, 0x86, 3), (0x88, 0x88, 1),
     (0x89, 0x89, 1), (0x8A, 0x8A, 2), (0x8C, 0x8C, 2), (0x8B, 0x8B, 3), (0x9B, 0xA2, 7),
     (0xA3, 0xA5, 3), (0xAB, 0xAF, 7), (0xBB, 0xC2, 3), (0xC3, 0xC5, 1), (0xCB, 0xCF, 3)]"

definition wide_slots :: "u8 \<Rightarrow> u8" where
  "wide_slots op = (case match_range wide_arms op of Some w \<Rightarrow> w | None \<Rightarrow> 0)"

section \<open>Reading code units\<close>

text \<open>\<^verbatim>\<open>u16::from_le_bytes([insns[i * 2], insns[i * 2 + 1]])\<close>; out of range is a panic.\<close>

definition unit_at :: "u8 list \<Rightarrow> nat \<Rightarrow> u16 option" where
  "unit_at insns i =
     (if i * 2 + 1 < length insns then Some (le_word [insns ! (i * 2), insns ! (i * 2 + 1)])
      else None)"

text \<open>The checked read of \<^verbatim>\<open>payload_units\<close>.\<close>

definition payload_unit :: "u8 list \<Rightarrow> nat \<Rightarrow> nat \<Rightarrow> nat \<Rightarrow> (bytecode_error + nat) option" where
  "payload_unit insns units pos i =
     (if units \<le> i then Some (Inl (TruncatedInsn pos))
      else map_option (\<lambda>u. Inr (unat u)) (unit_at insns i))"

text \<open>\<^verbatim>\<open>?\<close> on a checked read.\<close>

definition try_unit :: "(bytecode_error + nat) option \<Rightarrow>
    (nat \<Rightarrow> (bytecode_error + nat) option) \<Rightarrow> (bytecode_error + nat) option" where
  "try_unit r f = (case r of None \<Rightarrow> None | Some (Inl err) \<Rightarrow> Some (Inl err) | Some (Inr x) \<Rightarrow> f x)"

definition payload_units :: "u8 list \<Rightarrow> nat \<Rightarrow> nat \<Rightarrow> u16 \<Rightarrow> (bytecode_error + nat) option" where
  "payload_units insns units pos ident =
     try_unit
       (if ident = 0x0100 then
          try_unit (payload_unit insns units pos (pos + 1)) (\<lambda>n. Some (Inr (n * 2 + 4)))
        else if ident = 0x0200 then
          try_unit (payload_unit insns units pos (pos + 1)) (\<lambda>n. Some (Inr (n * 4 + 2)))
        else if ident = 0x0300 then
          try_unit (payload_unit insns units pos (pos + 1)) (\<lambda>element_width.
          try_unit (payload_unit insns units pos (pos + 2)) (\<lambda>lo.
          try_unit (payload_unit insns units pos (pos + 3)) (\<lambda>hi.
            let sz = lo OR push_bit 16 hi; data_units = (sz * element_width + 1) div 2
            in if data_units + 4 < 2 ^ 32 then Some (Inr (data_units + 4))
               else Some (Inl (TruncatedInsn pos)))))
        else Some (Inl (UnknownPayload ident pos)))
       (\<lambda>width. if units - pos < width then Some (Inl (TruncatedInsn pos)) else Some (Inr width))"

section \<open>The walk\<close>

text \<open>
  The operands of one instruction: the registers it notes with their slots, and the size of
  its argument window (0 when it has none, which leaves \<^verbatim>\<open>outs\<close> as it is).
\<close>

definition read_operands ::
  "operands \<Rightarrow> u8 list \<Rightarrow> nat \<Rightarrow> nat \<Rightarrow> (bytecode_error + (nat \<times> u8) list \<times> nat) option" where
  "read_operands regs insns pos byte1 =
     (case regs of
        NoRegs \<Rightarrow> Some (Inr ([], 0))
      | NibbleAb \<Rightarrow> Some (Inr ([(byte1 AND 0xF, 1), (drop_bit 4 byte1, 2)], 0))
      | NibbleA \<Rightarrow> Some (Inr ([(byte1 AND 0xF, 1)], 0))
      | ByteA \<Rightarrow> Some (Inr ([(byte1, 1)], 0))
      | ByteAUnitB \<Rightarrow>
          map_option (\<lambda>b. Inr ([(byte1, 1), (unat b, 2)], 0)) (unit_at insns (pos + 1))
      | ByteABytesBc \<Rightarrow>
          map_option (\<lambda>bc. Inr ([(byte1, 1), (unat (bc AND 0xFF), 2), (unat (drop_bit 8 bc), 4)], 0))
            (unit_at insns (pos + 1))
      | ByteAByteB \<Rightarrow>
          map_option (\<lambda>b. Inr ([(byte1, 1), (unat (b AND 0xFF), 2)], 0)) (unit_at insns (pos + 1))
      | UnitAUnitB \<Rightarrow>
          (case (unit_at insns (pos + 1), unit_at insns (pos + 2)) of
             (Some a, Some b) \<Rightarrow> Some (Inr ([(unat a, 1), (unat b, 2)], 0))
           | _ \<Rightarrow> None)
      | Args35c \<Rightarrow>
          (let count = drop_bit 4 byte1
           in if count > 5 then Some (Inl (BadArgCount pos count))
              else map_option (\<lambda>fedc.
                 let arg_regs = [unat (fedc AND 0xF), unat (drop_bit 4 fedc AND 0xF),
                       unat (drop_bit 8 fedc AND 0xF), unat (drop_bit 12 fedc AND 0xF),
                       byte1 AND 0xF]
                 in Inr (map (\<lambda>reg. (reg, 0)) (take count arg_regs), count))
                (unit_at insns (pos + 2)))
      | Args3rc \<Rightarrow>
          (let count = byte1
           in case unit_at insns (pos + 2) of None \<Rightarrow> None
              | Some u \<Rightarrow>
                  (let first = unat u
                   in if count > 0 then
                        (let last_reg = first + count - 1
                         in if last_reg > 65535 then Some (Inl (RegisterOverflow pos))
                            else Some (Inr ([(last_reg, 0)], count)))
                      else Some (Inr ([], count)))))"

text \<open>The closure \<^verbatim>\<open>note\<close>.\<close>

definition note_reg :: "u8 \<Rightarrow> nat \<times> u8 \<Rightarrow> nat \<Rightarrow> nat" where
  "note_reg wide reg max_reg =
     (let top = fst reg + (if wide AND snd reg \<noteq> 0 then 2 else 1)
      in if top > max_reg then top else max_reg)"

text \<open>The macro \<^verbatim>\<open>fail!\<close>.\<close>

definition scan_fail :: "nat \<Rightarrow> nat \<Rightarrow> nat \<Rightarrow> bytecode_error \<Rightarrow> (partial_scan + insn_scan) option" where
  "scan_fail max_reg outs pos err =
     Some (Inl \<lparr>ps_scan = \<lparr>registers_used = of_nat (min max_reg 65535),
                           outs_size = of_nat (min outs 65535), units_walked = pos\<rparr>,
               ps_error = err\<rparr>)"

lemma match_range_set: "match_range arms op = Some v \<Longrightarrow> \<exists>lo hi. (lo, hi, v) \<in> set arms"
  by (induction arms op rule: match_range.induct) (auto split: if_splits)

text \<open>Every format is wide enough for the units its operands are read from.\<close>

fun min_width :: "operands \<Rightarrow> nat" where
  "min_width ByteAUnitB = 2" | "min_width ByteABytesBc = 2" | "min_width ByteAByteB = 2"
| "min_width UnitAUnitB = 3" | "min_width Args35c = 3" | "min_width Args3rc = 3"
| "min_width _ = 1"

lemma format_arms_width: "list_all (\<lambda>(_, _, w, regs). min_width regs \<le> w \<and> w \<le> 5) format_arms"
  by (simp add: format_arms_def)

lemma min_width_pos: "1 \<le> min_width regs"
  by (cases regs) simp_all

lemma format_of_width: "format_of op = Some (w, regs) \<Longrightarrow> min_width regs \<le> w \<and> w \<le> 5"
  using format_arms_width
  by (auto simp: format_of_def list_all_iff dest!: match_range_set)

lemma format_of_pos: "format_of op = Some (w, regs) \<Longrightarrow> 0 < w"
  using format_of_width [of op w regs] min_width_pos [of regs] by linarith

lemma try_unit_Inr:
  "try_unit r f = Some (Inr w) \<longleftrightarrow> (\<exists>x. r = Some (Inr x) \<and> f x = Some (Inr w))"
  by (auto simp: try_unit_def split: option.splits sum.splits)

lemma payload_units_pos: "payload_units insns units pos ident = Some (Inr w) \<Longrightarrow> 0 < w"
  by (auto simp: payload_units_def try_unit_Inr Let_def split: if_splits)

function scan_loop ::
  "u8 list \<Rightarrow> nat \<Rightarrow> nat \<Rightarrow> nat \<Rightarrow> nat \<Rightarrow> (partial_scan + insn_scan) option" where
  "scan_loop insns units max_reg outs pos =
     (if pos < units then
        (case unit_at insns pos of
           None \<Rightarrow> None
         | Some unit0 \<Rightarrow>
             (let op = ucast (unit0 AND 0xFF) :: u8; byte1 = unat (drop_bit 8 unit0)
              in if op = 0 \<and> unit0 \<noteq> 0 then
                   (case payload_units insns units pos unit0 of
                      None \<Rightarrow> None
                    | Some (Inl err) \<Rightarrow> scan_fail max_reg outs pos err
                    | Some (Inr width) \<Rightarrow> scan_loop insns units max_reg outs (pos + width))
                 else
                   (case format_of op of
                      None \<Rightarrow> scan_fail max_reg outs pos (UnknownOpcode op pos)
                    | Some (width, regs) \<Rightarrow>
                        if units - pos < width then scan_fail max_reg outs pos (TruncatedInsn pos)
                        else
                          (case read_operands regs insns pos byte1 of
                             None \<Rightarrow> None
                           | Some (Inl err) \<Rightarrow> scan_fail max_reg outs pos err
                           | Some (Inr (noted, args)) \<Rightarrow>
                               scan_loop insns units (fold (note_reg (wide_slots op)) noted max_reg)
                                 (max outs args) (pos + width)))))
      else if max_reg > 65535 then scan_fail max_reg outs pos (RegisterOverflow pos)
      else Some (Inr \<lparr>registers_used = of_nat max_reg, outs_size = of_nat (min outs 65535),
                      units_walked = pos\<rparr>))"
  by pat_completeness auto
termination
  by (relation "measure (\<lambda>(_, units, _, _, pos). units - pos)")
    (auto dest: payload_units_pos format_of_pos)

declare scan_loop.simps [simp del]

definition scan_insns :: "u8 list \<Rightarrow> (partial_scan + insn_scan) option" where
  "scan_insns insns =
     (let units = length insns div 2
      in if units * 2 \<noteq> length insns
         then Some (Inl \<lparr>ps_scan = \<lparr>registers_used = 0, outs_size = 0, units_walked = 0\<rparr>,
                        ps_error = OddLength (length insns)\<rparr>)
         else scan_loop insns units 0 0 0)"

end
