(* ===== verification/Dalvik_Agree.thy ===== *)
theory Dalvik_Agree
  imports Dalvik Bytecode
begin

text \<open>
  The tables of \<^verbatim>\<open>src/bytecode.rs\<close> (\<^verbatim>\<open>format_of\<close>, \<^verbatim>\<open>wide_slots\<close>) are those of the Dalvik instruction
  set: every opcode has the length, the operand layout and the pairs the documentation gives it.
  The comparison is evaluated once, on integer copies of the two tables.
\<close>

section \<open>Formats and layouts\<close>

fun layout_of :: "dalvik_format \<Rightarrow> operands" where
  "layout_of F12x = NibbleAb" | "layout_of F22t = NibbleAb" | "layout_of F22s = NibbleAb"
| "layout_of F22c = NibbleAb" | "layout_of F11n = NibbleA" | "layout_of F11x = ByteA"
| "layout_of F21t = ByteA" | "layout_of F21s = ByteA" | "layout_of F21h = ByteA"
| "layout_of F21c = ByteA" | "layout_of F31i = ByteA" | "layout_of F31t = ByteA"
| "layout_of F31c = ByteA" | "layout_of F51l = ByteA" | "layout_of F22x = ByteAUnitB"
| "layout_of F23x = ByteABytesBc" | "layout_of F22b = ByteAByteB"
| "layout_of F32x = UnitAUnitB" | "layout_of F35c = Args35c" | "layout_of F45cc = Args35c"
| "layout_of F3rc = Args3rc" | "layout_of F4rcc = Args3rc" | "layout_of _ = NoRegs"

fun operand_slots :: "operands \<Rightarrow> nat" where
  "operand_slots ByteABytesBc = 3"
| "operand_slots NibbleAb = 2" | "operand_slots ByteAUnitB = 2" | "operand_slots ByteAByteB = 2"
| "operand_slots UnitAUnitB = 2" | "operand_slots NibbleA = 1" | "operand_slots ByteA = 1"
| "operand_slots _ = 0"

fun match_int :: "(int \<times> int \<times> 'a) list \<Rightarrow> int \<Rightarrow> 'a option" where
  "match_int [] i = None"
| "match_int ((lo, hi, v) # arms) i = (if lo \<le> i \<and> i \<le> hi then Some v else match_int arms i)"

lemma match_range_int:
  "map_option f (match_range arms op) = match_int (map (\<lambda>(lo, hi, v). (uint lo, uint hi, f v)) arms) (uint op)"
  by (induction arms op rule: match_range.induct) (simp_all add: word_le_def)

definition slot_widths :: "u8 \<Rightarrow> operand_width list" where
  "slot_widths w = map (\<lambda>slot. if w AND slot \<noteq> 0 then Wide else Single) [1, 2, 4]"

definition int_formats :: "(int \<times> int \<times> nat \<times> operands) list" where
  "int_formats = map (\<lambda>(lo, hi, v). (uint lo, uint hi, v)) format_arms"

definition int_widths :: "(int \<times> int \<times> operand_width list) list" where
  "int_widths = map (\<lambda>(lo, hi, v). (uint lo, uint hi, slot_widths v)) wide_arms"

lemmas int_formats_eq [code] = int_formats_def [unfolded format_arms_def, simplified]
lemmas int_widths_eq [code] = int_widths_def [unfolded wide_arms_def slot_widths_def, simplified]

definition row_agrees :: "int \<Rightarrow> (string \<times> dalvik_format \<times> operand_width list) option \<Rightarrow> bool" where
  "row_agrees i row \<longleftrightarrow>
     (case row of None \<Rightarrow> match_int int_formats i = None
      | Some (_, f, ws) \<Rightarrow> match_int int_formats i = Some (format_units f, layout_of f) \<and>
          take (operand_slots (layout_of f))
            (case match_int int_widths i of None \<Rightarrow> [Single, Single, Single] | Some ws' \<Rightarrow> ws') = ws)"

fun rows_agree :: "int \<Rightarrow> (string \<times> dalvik_format \<times> operand_width list) option list \<Rightarrow> bool" where
  "rows_agree i [] = True"
| "rows_agree i (row # rows) = (row_agrees i row \<and> rows_agree (i + 1) rows)"

lemma dalvik_rows_agree: "rows_agree 0 dalvik_table"
  by code_simp

section \<open>The tables agree\<close>

lemma rows_agree_nth: "rows_agree i rows \<Longrightarrow> n < length rows \<Longrightarrow> row_agrees (i + int n) (rows ! n)"
proof (induction rows arbitrary: i n)
  case (Cons row rows)
  show ?case
  proof (cases n)
    case (Suc m)
    with Cons show ?thesis using Cons.IH [of "i + 1" m] by (simp add: add.assoc)
  qed (use Cons.prems in simp)
qed simp

lemma dalvik_row_agrees: "row_agrees (uint op) (dalvik_table ! unat op)" for op :: u8
proof -
  have "unat op < length dalvik_table"
    using unsigned_less [of op, where 'a = nat] by (simp add: length_dalvik_table)
  from rows_agree_nth [OF dalvik_rows_agree this] show ?thesis by simp
qed

lemma format_of_int: "format_of op = match_int int_formats (uint op)"
  using match_range_int [of "\<lambda>v. v" format_arms op]
  by (simp add: format_of_def int_formats_def option.map_ident)

lemma slot_widths_of:
  "slot_widths (wide_slots op) =
     (case match_int int_widths (uint op) of None \<Rightarrow> [Single, Single, Single] | Some ws \<Rightarrow> ws)"
proof (cases "match_range wide_arms op")
  case None
  with match_range_int [of slot_widths wide_arms op] have "match_int int_widths (uint op) = None"
    by (simp add: int_widths_def)
  with None show ?thesis by (simp add: wide_slots_def slot_widths_def)
next
  case (Some w)
  with match_range_int [of slot_widths wide_arms op] have "match_int int_widths (uint op) = Some (slot_widths w)"
    by (simp add: int_widths_def)
  with Some show ?thesis by (simp add: wide_slots_def)
qed

lemma format_of_dalvik:
  "format_of op = map_option (\<lambda>(f, _). (format_units f, layout_of f)) (dalvik_op op)"
  using dalvik_row_agrees [of op]
  by (auto simp: format_of_int dalvik_op_def row_agrees_def split: option.splits)

lemma slot_widths_dalvik:
  "dalvik_op op = Some (f, ws) \<Longrightarrow> take (operand_slots (layout_of f)) (slot_widths (wide_slots op)) = ws"
  using dalvik_row_agrees [of op]
  by (auto simp: slot_widths_of dalvik_op_def row_agrees_def split: option.splits)

end
