(* ===== verification/Bytecode_Grammar.thy ===== *)
theory Bytecode_Grammar
  imports Dalvik_Agree
begin

text \<open>
  What a stream of code units is: a sequence of items, each an instruction of the Dalvik set
  (theory Dalvik) as long as its format says or a payload as long as it says. \<open>touched\<close> lists the
  registers an instruction uses, with the upper half of every pair; \<open>scan_of\<close> is the register window of a sequence of items.
  The walker is verified against this grammar: it accepts exactly the streams that are a
  sequence of items, and on an error it has walked a longest sequence of items.
\<close>

section \<open>The grammar\<close>

fun code_units :: "u8 list \<Rightarrow> u16 list" where
  "code_units (a # b # bs) = le_word [a, b] # code_units bs"
| "code_units _ = []"

definition opcode :: "u16 \<Rightarrow> u8" where
  "opcode u = ucast (u AND 0xFF)"

definition is_payload_ident :: "u16 \<Rightarrow> bool" where
  "is_payload_ident u \<longleftrightarrow> opcode u = 0 \<and> u \<noteq> 0"

definition touched :: "u16 list \<Rightarrow> nat list" where
  "touched us =
     (if is_payload_ident (us ! 0) then []
      else case dalvik_op (opcode (us ! 0)) of None \<Rightarrow> [] | Some (f, ws) \<Rightarrow> instruction_registers f ws us)"

definition argument_words :: "u16 list \<Rightarrow> nat" where
  "argument_words us =
     (if is_payload_ident (us ! 0) then 0
      else case dalvik_op (opcode (us ! 0)) of None \<Rightarrow> 0 | Some (f, _) \<Rightarrow> argument_count f us)"

text \<open>The length a payload declares, from its first four units.\<close>

definition payload_length :: "u16 list \<Rightarrow> nat option" where
  "payload_length us =
     (if us ! 0 = 0x0100 \<and> 2 \<le> length us then Some (2 * unat (us ! 1) + 4)
      else if us ! 0 = 0x0200 \<and> 2 \<le> length us then Some (4 * unat (us ! 1) + 2)
      else if us ! 0 = 0x0300 \<and> 4 \<le> length us
      then Some ((unat (us ! 1) * (unat (us ! 2) + 65536 * unat (us ! 3)) + 1) div 2 + 4)
      else None)"

definition item :: "u16 list \<Rightarrow> bool" where
  "item us \<longleftrightarrow> us \<noteq> [] \<and>
     (if is_payload_ident (us ! 0)
      then payload_length us = Some (length us) \<and> length us < 2 ^ 32
      else (case dalvik_op (opcode (us ! 0)) of None \<Rightarrow> False
            | Some (f, _) \<Rightarrow> length us = format_units f \<and> arguments_ok f us))"

text \<open>High-water marks of a sequence of items.\<close>

definition reg_limit :: "u16 list list \<Rightarrow> nat" where
  "reg_limit items = foldr max (map Suc (concat (map touched items))) 0"

definition arg_limit :: "u16 list list \<Rightarrow> nat" where
  "arg_limit items = foldr max (map argument_words items) 0"

definition scan_of :: "u16 list list \<Rightarrow> insn_scan" where
  "scan_of items = \<lparr>registers_used = of_nat (min (reg_limit items) 65535),
     outs_size = of_nat (min (arg_limit items) 65535), units_walked = length (concat items)\<rparr>"

section \<open>The walker's view\<close>

text \<open>The registers an instruction lists, with the operand slot (0 for argument lists).\<close>

fun named :: "operands \<Rightarrow> u16 list \<Rightarrow> (nat \<times> u8) list" where
  "named NoRegs us = []"
| "named NibbleAb us = [(high_byte (us ! 0) mod 16, 1), (high_byte (us ! 0) div 16, 2)]"
| "named NibbleA us = [(high_byte (us ! 0) mod 16, 1)]"
| "named ByteA us = [(high_byte (us ! 0), 1)]"
| "named ByteAUnitB us = [(high_byte (us ! 0), 1), (unat (us ! 1), 2)]"
| "named ByteABytesBc us =
     [(high_byte (us ! 0), 1), (unat (us ! 1) mod 256, 2), (unat (us ! 1) div 256, 4)]"
| "named ByteAByteB us = [(high_byte (us ! 0), 1), (unat (us ! 1) mod 256, 2)]"
| "named UnitAUnitB us = [(unat (us ! 1), 1), (unat (us ! 2), 2)]"
| "named Args35c us =
     map (\<lambda>r. (r, 0)) (take (high_byte (us ! 0) div 16)
       [unat (us ! 2) mod 16, unat (us ! 2) div 16 mod 16, unat (us ! 2) div 256 mod 16,
        unat (us ! 2) div 4096 mod 16, high_byte (us ! 0) mod 16])"
| "named Args3rc us =
     map (\<lambda>r. (r, 0)) [unat (us ! 2)..<unat (us ! 2) + high_byte (us ! 0)]"

definition with_pairs :: "u8 \<Rightarrow> (nat \<times> u8) list \<Rightarrow> nat list" where
  "with_pairs wide ns =
     concat (map (\<lambda>(r, slot). if wide AND slot \<noteq> 0 then [r, r + 1] else [r]) ns)"

definition format_regs :: "u16 \<Rightarrow> operands" where
  "format_regs u = (case format_of (opcode u) of Some (_, regs) \<Rightarrow> regs | None \<Rightarrow> NoRegs)"

lemma with_pairs_simps:
  "with_pairs w [] = []"
  "with_pairs w ((r, slot) # ns) = (if w AND slot \<noteq> 0 then [r, r + 1] else [r]) @ with_pairs w ns"
  by (simp_all add: with_pairs_def)

lemma with_pairs_args: "with_pairs w (map (\<lambda>r. (r, 0)) rs) = rs"
  by (induction rs) (simp_all add: with_pairs_def)

text \<open>The grammar in terms of the tables of the walker.\<close>

lemma format_regs_dalvik:
  "dalvik_op (opcode u) = Some (f, ws) \<Longrightarrow> format_regs u = layout_of f"
  by (simp add: format_regs_def format_of_dalvik)

lemma operand_halves_if: "operand_halves (if c then Wide else Single) r = (if c then [r, r + 1] else [r])"
  by simp

lemma instruction_registers_layout:
  assumes "dalvik_op op = Some (f, ws)"
  shows "instruction_registers f ws us = with_pairs (wide_slots op) (named (layout_of f) us)"
proof -
  have ws: "ws = take (operand_slots (layout_of f)) (slot_widths (wide_slots op))"
    using slot_widths_dalvik [OF assms] by simp
  show ?thesis
    unfolding ws instruction_registers_def slot_widths_def
    by (cases f) (simp_all add: with_pairs_simps with_pairs_args listed_arguments_def ranged_arguments_def)
qed

lemma touched_layout:
  "touched us =
     (if is_payload_ident (us ! 0) then []
      else with_pairs (wide_slots (opcode (us ! 0))) (named (format_regs (us ! 0)) us))"
proof (cases "dalvik_op (opcode (us ! 0))")
  case None
  then show ?thesis by (simp add: touched_def format_regs_def format_of_dalvik with_pairs_def)
next
  case (Some fw)
  then show ?thesis
    by (cases fw) (simp add: touched_def format_regs_dalvik instruction_registers_layout)
qed

lemma argument_words_layout:
  "argument_words us =
     (if is_payload_ident (us ! 0) then 0
      else case format_regs (us ! 0) of
             Args35c \<Rightarrow> high_byte (us ! 0) div 16 | Args3rc \<Rightarrow> high_byte (us ! 0) | _ \<Rightarrow> 0)"
proof (cases "dalvik_op (opcode (us ! 0))")
  case None
  then show ?thesis by (simp add: argument_words_def format_regs_def format_of_dalvik)
next
  case (Some fw)
  then obtain f ws where "dalvik_op (opcode (us ! 0)) = Some (f, ws)" by (cases fw) simp
  then show ?thesis by (cases f) (simp_all add: argument_words_def format_regs_dalvik)
qed

lemma item_layout:
  "item us \<longleftrightarrow> us \<noteq> [] \<and>
     (if is_payload_ident (us ! 0)
      then payload_length us = Some (length us) \<and> length us < 2 ^ 32
      else (case format_of (opcode (us ! 0)) of None \<Rightarrow> False
            | Some (width, regs) \<Rightarrow> length us = width \<and>
                (regs = Args35c \<longrightarrow> high_byte (us ! 0) div 16 \<le> 5) \<and>
                (regs = Args3rc \<longrightarrow> unat (us ! 2) + high_byte (us ! 0) \<le> 65536)))"
proof (cases "dalvik_op (opcode (us ! 0))")
  case None
  then show ?thesis by (simp add: item_def format_of_dalvik)
next
  case (Some fw)
  then obtain f ws where op: "dalvik_op (opcode (us ! 0)) = Some (f, ws)" by (cases fw) simp
  have "arguments_ok f us \<longleftrightarrow> (layout_of f = Args35c \<longrightarrow> high_byte (us ! 0) div 16 \<le> 5) \<and>
      (layout_of f = Args3rc \<longrightarrow> unat (us ! 2) + high_byte (us ! 0) \<le> 65536)"
    by (cases f) (simp_all add: arguments_ok_def)
  with op show ?thesis by (simp add: item_def format_of_dalvik)
qed

section \<open>Reading units\<close>

lemma length_code_units: "length (code_units bs) = length bs div 2"
  by (induction bs rule: code_units.induct) simp_all

lemma nth_code_units:
  "i < length bs div 2 \<Longrightarrow> code_units bs ! i = le_word [bs ! (i * 2), bs ! (i * 2 + 1)]"
proof (induction bs arbitrary: i rule: code_units.induct)
  case (1 a b bs)
  then show ?case by (cases i) simp_all
qed simp_all

lemma unit_at_code_units:
  "unit_at bs i = (if i < length (code_units bs) then Some (code_units bs ! i) else None)"
proof -
  have "i * 2 + 1 < length bs \<longleftrightarrow> i < length bs div 2" by linarith
  then show ?thesis
    by (simp add: unit_at_def length_code_units nth_code_units)
qed

lemma nat_low_bits: "n AND 0xF = n mod 16" "n AND 0xFF = n mod 256" for n :: nat
  using take_bit_eq_mask [of 4 n] take_bit_eq_mask [of 8 n]
  by (simp_all add: take_bit_eq_mod mask_eq_exp_minus_1)

lemma u16_low_bits: "unat (u AND 0xF) = unat u mod 16" "unat (u AND 0xFF) = unat u mod 256"
  for u :: u16
  by (simp_all add: unsigned_and_eq nat_low_bits)

lemma nat_drop_bits: "drop_bit 4 n = n div 16" "drop_bit 8 n = n div 256" "drop_bit 12 n = n div 4096"
  for n :: nat
  by (simp_all add: drop_bit_eq_div)

lemma u16_drop_bits:
  "unat (drop_bit 4 u) = unat u div 16" "unat (drop_bit 8 u) = unat u div 256"
  "unat (drop_bit 12 u) = unat u div 4096" for u :: u16
  by (simp_all add: unat_drop_bit_eq nat_drop_bits)

lemmas unit_bits = nat_low_bits u16_low_bits nat_drop_bits u16_drop_bits

lemma nth_here: "drop pos xs = us @ rest \<Longrightarrow> i < length us \<Longrightarrow> pos + i < length xs \<and> xs ! (pos + i) = us ! i"
proof -
  assume d: "drop pos xs = us @ rest" and i: "i < length us"
  from arg_cong [OF d, of length] i have "pos + i < length xs" by simp
  moreover from this have "xs ! (pos + i) = drop pos xs ! i" by simp
  ultimately show ?thesis using d i by (simp add: nth_append)
qed

lemma unit_here:
  "drop pos (code_units bs) = us @ rest \<Longrightarrow> i < length us \<Longrightarrow> unit_at bs (pos + i) = Some (us ! i)"
  using nth_here [of pos "code_units bs" us rest i] by (simp add: unit_at_code_units)

section \<open>High-water marks\<close>

lemma foldr_max_start: "foldr max xs (max a m) = max a (foldr max xs m)" for m :: nat
  by (induction xs) (auto simp: max_def)

lemma foldr_max_zero: "foldr max xs m = max (foldr max xs 0) m" for m :: nat
  using foldr_max_start [of xs m 0] by (simp add: max.commute)

lemma note_reg_max:
  "note_reg w (r, slot) m = max m (foldr max (map Suc (with_pairs w [(r, slot)])) 0)"
  by (simp add: note_reg_def with_pairs_def Let_def max_def)

lemma with_pairs_Cons: "with_pairs w (n # ns) = with_pairs w [n] @ with_pairs w ns"
  by (simp add: with_pairs_def)

lemma fold_note_reg:
  "fold (note_reg w) ns m = foldr max (map Suc (with_pairs w ns)) m"
proof (induction ns arbitrary: m)
  case Nil
  then show ?case by (simp add: with_pairs_def)
next
  case (Cons n ns)
  obtain r slot where n: "n = (r, slot)" by (cases n)
  let ?a = "foldr max (map Suc (with_pairs w [n])) 0" and ?ns = "map Suc (with_pairs w ns)"
  have "fold (note_reg w) (n # ns) m = foldr max ?ns (max ?a m)"
    by (simp only: fold_simps Cons n note_reg_max max.commute)
  also have "\<dots> = max ?a (foldr max ?ns m)" by (rule foldr_max_start)
  also have "\<dots> = foldr max (map Suc (with_pairs w [n])) (foldr max ?ns m)"
    by (rule foldr_max_zero [symmetric])
  finally show ?case
    by (simp only: with_pairs_Cons [of w n ns] map_append foldr_append o_apply)
qed

lemma foldr_max_upt: "0 < n \<Longrightarrow> foldr max (map Suc [a..<a + n]) m = max m (a + n)" for m :: nat
proof (induction n arbitrary: m)
  case (Suc n)
  then show ?case
    by (cases "n = 0") (simp_all add: foldr_max_start max_def)
qed simp

section \<open>Operands\<close>

lemma read_operands_ok:
  assumes here: "drop pos (code_units bs) = us @ rest" and len: "min_width regs \<le> length us"
    and args: "regs = Args35c \<longrightarrow> high_byte (us ! 0) div 16 \<le> 5"
    and range: "regs = Args3rc \<longrightarrow> unat (us ! 2) + high_byte (us ! 0) \<le> 65536"
  shows "\<exists>noted n. read_operands regs bs pos (high_byte (us ! 0)) = Some (Inr (noted, n)) \<and>
    fold (note_reg w) noted m = foldr max (map Suc (with_pairs w (named regs us))) m \<and>
    n = (case regs of Args35c \<Rightarrow> high_byte (us ! 0) div 16 | Args3rc \<Rightarrow> high_byte (us ! 0) | _ \<Rightarrow> 0)"
proof (cases regs)
  case Args35c
  with len have "unit_at bs (pos + 2) = Some (us ! 2)" by (intro unit_here [OF here]) simp
  with Args35c args show ?thesis
    by (simp add: read_operands_def unit_bits Let_def fold_note_reg not_less div_mult2_eq
        flip: div_mult2_eq)
next
  case Args3rc
  with len have "unit_at bs (pos + 2) = Some (us ! 2)" by (intro unit_here [OF here]) simp
  with Args3rc range show ?thesis
    by (cases "high_byte (us ! 0) = 0")
      (simp_all add: read_operands_def Let_def with_pairs_args foldr_max_upt note_reg_def,
        auto simp: with_pairs_def max_def)
next
  case UnitAUnitB
  with len have "unit_at bs (pos + 1) = Some (us ! 1)" "unit_at bs (pos + 2) = Some (us ! 2)"
    using unit_here [OF here, of 1] unit_here [OF here, of 2] by simp_all
  with UnitAUnitB show ?thesis by (simp add: read_operands_def fold_note_reg del: add_Suc_right)
next
  case ByteAUnitB
  with len have "unit_at bs (pos + 1) = Some (us ! 1)" by (intro unit_here [OF here]) simp
  with ByteAUnitB show ?thesis by (simp add: read_operands_def fold_note_reg)
next
  case ByteABytesBc
  with len have "unit_at bs (pos + 1) = Some (us ! 1)" by (intro unit_here [OF here]) simp
  with ByteABytesBc show ?thesis by (simp add: read_operands_def fold_note_reg unit_bits)
next
  case ByteAByteB
  with len have "unit_at bs (pos + 1) = Some (us ! 1)" by (intro unit_here [OF here]) simp
  with ByteAByteB show ?thesis by (simp add: read_operands_def fold_note_reg unit_bits)
qed (simp_all add: read_operands_def fold_note_reg unit_bits)

lemma read_operands_bad:
  assumes here: "drop pos (code_units bs) = us @ rest" and len: "min_width regs \<le> length us"
    and bad: "\<not> ((regs = Args35c \<longrightarrow> high_byte (us ! 0) div 16 \<le> 5) \<and>
      (regs = Args3rc \<longrightarrow> unat (us ! 2) + high_byte (us ! 0) \<le> 65536))"
  shows "\<exists>err. read_operands regs bs pos (high_byte (us ! 0)) = Some (Inl err)"
proof (cases "regs = Args35c")
  case True
  with bad show ?thesis by (simp add: read_operands_def Let_def unit_bits)
next
  case False
  with bad have "regs = Args3rc" and big: "65536 < unat (us ! 2) + high_byte (us ! 0)" by auto
  moreover from len this have "unit_at bs (pos + 2) = Some (us ! 2)"
    by (intro unit_here [OF here]) simp
  moreover have "0 < high_byte (us ! 0)"
    using big unsigned_less [of "us ! 2", where 'a = nat] by simp
  ultimately show ?thesis by (simp add: read_operands_def Let_def)
qed

section \<open>Payloads\<close>

lemma payload_unit_here:
  "payload_unit bs (length (code_units bs)) pos i =
     Some (if i < length (code_units bs) then Inr (unat (code_units bs ! i))
           else Inl (TruncatedInsn pos))"
  by (simp add: payload_unit_def unit_at_code_units)

lemma or_push_16: "a < 65536 \<Longrightarrow> a OR push_bit 16 b = a + 65536 * b" for a b :: nat
proof -
  assume "a < 65536"
  then have a: "take_bit 16 a = a" by (simp add: take_bit_nat_eq_self)
  have "take_bit 16 a AND push_bit 16 b = 0"
    by (auto simp: bit_eq_iff bit_simps)
  then have "a OR push_bit 16 b = a + push_bit 16 b"
    unfolding a by (simp only: disjunctive_add_eq_or)
  then show ?thesis by (simp add: push_bit_eq_mult mult.commute)
qed

lemma payload_units_item:
  assumes here: "drop pos (code_units bs) = us @ rest" and "us \<noteq> []"
    and "payload_length us = Some (length us)" and "length us < 2 ^ 32"
  shows "payload_units bs (length (code_units bs)) pos (us ! 0) = Some (Inr (length us))"
proof -
  let ?U = "code_units bs"
  have len: "length us \<le> length ?U - pos" using arg_cong [OF here, of length] by simp
  have u: "i < length us \<Longrightarrow> pos + i < length ?U \<and> ?U ! (pos + i) = us ! i" for i
    using nth_here [OF here] .
  have lo: "unat (us ! 2) < 65536" for us :: "u16 list"
    using unsigned_less [of "us ! 2", where 'a = nat] by simp
  show ?thesis
    using assms(3,4) len u [of 1] u [of 2] u [of 3] or_push_16 [OF lo, of us]
    by (auto simp: payload_length_def payload_units_def payload_unit_here try_unit_def Let_def
        mult.commute split: if_splits)
qed

lemma payload_units_sound:
  assumes "pos < length (code_units bs)"
    and "payload_units bs (length (code_units bs)) pos (code_units bs ! pos) = Some (Inr w)"
  shows "\<exists>us rest. drop pos (code_units bs) = us @ rest \<and> length us = w \<and>
    payload_length us = Some w \<and> w < 2 ^ 32 \<and> us ! 0 = code_units bs ! pos"
proof (intro exI conjI)
  let ?U = "code_units bs"
  let ?us = "take w (drop pos ?U)"
  have n16: "unat (u :: u16) < 65536" for u
    using unsigned_less [of u, where 'a = nat] by simp
  have "0 < w" by (rule payload_units_pos [OF assms(2)])
  moreover from assms(2) have "w \<le> length ?U - pos"
    by (auto simp: payload_units_def [of bs] try_unit_Inr split: if_splits)
  ultimately have w: "0 < w" "w \<le> length ?U - pos" by simp_all
  show "drop pos ?U = ?us @ drop w (drop pos ?U)" by (rule append_take_drop_id [symmetric])
  show "length ?us = w" using w by simp
  have nth: "i < w \<Longrightarrow> ?us ! i = ?U ! (pos + i)" for i using w by simp
  show "?us ! 0 = ?U ! pos" using nth [of 0] w by simp
  show "payload_length ?us = Some w"
    using assms w nth [of 0] nth [of 1] nth [of 2] nth [of 3]
      or_push_16 [OF n16, of "?U ! (pos + 2)"]
    by (auto simp: payload_length_def payload_units_def payload_unit_here try_unit_Inr Let_def
        mult.commute split: if_splits)
  show "w < 2 ^ 32"
    using assms n16 [of "?U ! (pos + 1)"]
    by (auto simp: payload_units_def payload_unit_here try_unit_Inr Let_def split: if_splits)
qed

lemma payload_units_total:
  "payload_units bs (length (code_units bs)) pos ident \<noteq> None"
  by (auto simp: payload_units_def payload_unit_here try_unit_def Let_def split: sum.splits)

section \<open>One step of the walk\<close>

lemma scan_loop_payload:
  "pos < units \<Longrightarrow> unit_at bs pos = Some u \<Longrightarrow> is_payload_ident u \<Longrightarrow>
     scan_loop bs units m outs pos =
       (case payload_units bs units pos u of
          None \<Rightarrow> None
        | Some (Inl err) \<Rightarrow> scan_fail m outs pos err
        | Some (Inr width) \<Rightarrow> scan_loop bs units m outs (pos + width))"
  by (subst scan_loop.simps) (simp add: is_payload_ident_def opcode_def)

lemma scan_loop_insn:
  "pos < units \<Longrightarrow> unit_at bs pos = Some u \<Longrightarrow> \<not> is_payload_ident u \<Longrightarrow>
     scan_loop bs units m outs pos =
       (case format_of (opcode u) of
          None \<Rightarrow> scan_fail m outs pos (UnknownOpcode (opcode u) pos)
        | Some (width, regs) \<Rightarrow>
            if units - pos < width then scan_fail m outs pos (TruncatedInsn pos)
            else
              (case read_operands regs bs pos (high_byte u) of
                 None \<Rightarrow> None
               | Some (Inl err) \<Rightarrow> scan_fail m outs pos err
               | Some (Inr (noted, args)) \<Rightarrow>
                   scan_loop bs units (fold (note_reg (wide_slots (opcode u))) noted m)
                     (max outs args) (pos + width)))"
  by (subst scan_loop.simps)
    (simp only: is_payload_ident_def opcode_def high_byte_def Let_def if_True if_False
      option.case simp_thms)

lemma scan_loop_item:
  assumes here: "drop pos (code_units bs) = us @ rest" and it: "item us"
  shows "scan_loop bs (length (code_units bs)) m outs pos =
    scan_loop bs (length (code_units bs)) (foldr max (map Suc (touched us)) m)
      (max outs (argument_words us)) (pos + length us)"
proof -
  let ?U = "code_units bs"
  have ne: "us \<noteq> []" using it by (simp add: item_layout)
  then have pos: "pos < length ?U" using nth_here [OF here, of 0] by simp
  have u0: "unit_at bs pos = Some (us ! 0)"
    using unit_here [OF here, of 0] ne by simp
  have len: "length us \<le> length ?U - pos" using arg_cong [OF here, of length] by simp
  show ?thesis
  proof (cases "is_payload_ident (us ! 0)")
    case True
    with it have "payload_length us = Some (length us)" and "length us < 2 ^ 32"
      by (simp_all add: item_layout)
    note p = payload_units_item [OF here ne this]
    from True have "touched us = []" and "argument_words us = 0"
      by (simp_all add: touched_layout argument_words_layout)
    with True p u0 pos show ?thesis
      by (simp add: scan_loop_payload)
  next
    case False
    with it obtain width regs where f: "format_of (opcode (us ! 0)) = Some (width, regs)"
      and w: "length us = width"
      and a: "regs = Args35c \<longrightarrow> high_byte (us ! 0) div 16 \<le> 5"
        "regs = Args3rc \<longrightarrow> unat (us ! 2) + high_byte (us ! 0) \<le> 65536"
      by (auto simp: item_layout split: option.splits)
    have "min_width regs \<le> length us" using format_of_width [OF f] w by simp
    from read_operands_ok [OF here this a, of "wide_slots (opcode (us ! 0))" m]
    obtain noted n where
      r: "read_operands regs bs pos (high_byte (us ! 0)) = Some (Inr (noted, n))"
      and n: "fold (note_reg (wide_slots (opcode (us ! 0)))) noted m =
          foldr max (map Suc (with_pairs (wide_slots (opcode (us ! 0))) (named regs us))) m"
        "n = (case regs of Args35c \<Rightarrow> high_byte (us ! 0) div 16 | Args3rc \<Rightarrow> high_byte (us ! 0)
              | _ \<Rightarrow> 0)"
      by blast
    have "touched us = with_pairs (wide_slots (opcode (us ! 0))) (named regs us)"
      and "argument_words us = n"
      using False f n(2) by (simp_all add: touched_layout argument_words_layout format_regs_def)
    with False f w len u0 pos r n(1) show ?thesis
      by (simp add: scan_loop_insn)
  qed
qed

lemma item_start:
  assumes "pos < length (code_units bs)" and "0 < w" and "w \<le> length (code_units bs) - pos"
  shows "\<exists>us rest. drop pos (code_units bs) = us @ rest \<and> length us = w \<and> us ! 0 = code_units bs ! pos"
proof (intro exI conjI)
  let ?U = "code_units bs"
  show "drop pos ?U = take w (drop pos ?U) @ drop w (drop pos ?U)"
    by (rule append_take_drop_id [symmetric])
qed (use assms in simp_all)

lemma scan_loop_stuck:
  assumes pos: "pos < length (code_units bs)"
    and none: "\<nexists>us rest. drop pos (code_units bs) = us @ rest \<and> item us"
  shows "\<exists>err. scan_loop bs (length (code_units bs)) m outs pos = scan_fail m outs pos err"
proof -
  let ?U = "code_units bs"
  let ?u = "?U ! pos"
  have u0: "unit_at bs pos = Some ?u" using pos by (simp add: unit_at_code_units)
  show ?thesis
  proof (cases "is_payload_ident ?u")
    case True
    have "payload_units bs (length ?U) pos ?u \<noteq> Some (Inr w)" for w
    proof
      assume p: "payload_units bs (length ?U) pos ?u = Some (Inr w)"
      from payload_units_sound [OF pos p] payload_units_pos [OF p] True
      have "\<exists>us rest. drop pos ?U = us @ rest \<and> item us"
        by (auto simp: item_layout)
      with none show False by blast
    qed
    then obtain err where "payload_units bs (length ?U) pos ?u = Some (Inl err)"
      using payload_units_total [of bs pos ?u]
      by (cases "payload_units bs (length ?U) pos ?u") (auto, metis old.sum.exhaust)
    with True u0 pos have "scan_loop bs (length ?U) m outs pos = scan_fail m outs pos err"
      by (simp add: scan_loop_payload)
    then show ?thesis ..
  next
    case False
    show ?thesis
    proof (cases "format_of (opcode ?u)")
      case None
      with False u0 pos show ?thesis by (simp add: scan_loop_insn, blast)
    next
      case (Some f)
      then obtain width regs where f: "format_of (opcode ?u) = Some (width, regs)" by (cases f) simp
      show ?thesis
      proof (cases "length ?U - pos < width")
        case True
        with False f u0 pos show ?thesis by (simp add: scan_loop_insn, blast)
      next
        case wide: False
        from item_start [OF pos format_of_pos [OF f]] wide
        obtain us rest where here: "drop pos ?U = us @ rest" and w: "length us = width"
          and u: "us ! 0 = ?u" by auto
        have ne: "us \<noteq> []" using format_of_pos [OF f] w by auto
        have "\<not> item us" using none here by blast
        with False f w u ne have bad: "\<not> ((regs = Args35c \<longrightarrow> high_byte (us ! 0) div 16 \<le> 5) \<and>
            (regs = Args3rc \<longrightarrow> unat (us ! 2) + high_byte (us ! 0) \<le> 65536))"
          by (simp add: item_layout)
        have "min_width regs \<le> length us" using format_of_width [OF f] w by simp
        from read_operands_bad [OF here this bad] obtain err where
          "read_operands regs bs pos (high_byte ?u) = Some (Inl err)" using u by auto
        with False f wide u0 pos show ?thesis by (simp add: scan_loop_insn, blast)
      qed
    qed
  qed
qed

section \<open>The whole walk\<close>

lemma half_twice: "n div 2 * 2 = n \<longleftrightarrow> even n" for n :: nat
  by presburger

lemma foldr_max_append: "foldr max (xs @ ys) 0 = max (foldr max xs 0) (foldr max ys 0)"
  for xs :: "nat list"
  by (induction xs) (auto simp: max_def)

lemma reg_limit_simps [simp]:
  "reg_limit [] = 0"
  "reg_limit (us # items) = max (foldr max (map Suc (touched us)) 0) (reg_limit items)"
  by (simp_all add: reg_limit_def foldr_max_append del: foldr_append)

lemma arg_limit_simps [simp]:
  "arg_limit [] = 0" "arg_limit (us # items) = max (argument_words us) (arg_limit items)"
  by (simp_all add: arg_limit_def)

lemma scan_loop_items:
  "list_all item items \<Longrightarrow> drop pos (code_units bs) = concat items @ rest \<Longrightarrow>
     scan_loop bs (length (code_units bs)) m outs pos =
       scan_loop bs (length (code_units bs)) (max m (reg_limit items)) (max outs (arg_limit items))
         (pos + length (concat items))"
proof (induction items arbitrary: pos m outs)
  case Nil
  then show ?case by simp
next
  case (Cons us items)
  have here: "drop pos (code_units bs) = us @ concat items @ rest" and it: "item us"
    using Cons.prems by simp_all
  have "drop (pos + length us) (code_units bs) = drop (length us) (drop pos (code_units bs))"
    by (simp add: add.commute)
  then have next_pos: "drop (pos + length us) (code_units bs) = concat items @ rest"
    using here by simp
  have "list_all item items" using Cons.prems by simp
  note IH = Cons.IH [OF this next_pos]
  show ?case
    unfolding scan_loop_item [OF here it] IH
    using foldr_max_zero [of "map Suc (touched us)" m]
    by (simp add: max.assoc max.commute max.left_commute add.assoc)
qed

text \<open>Every stream starts with a longest sequence of items.\<close>

lemma item_prefix:
  "\<exists>items rest. us = concat items @ rest \<and> list_all item items \<and>
     (\<nexists>it r. rest = it @ r \<and> item it)"
proof (induction "length us" arbitrary: us rule: less_induct)
  case less
  show ?case
  proof (cases "\<exists>it r. us = it @ r \<and> item it")
    case True
    then obtain it r where us: "us = it @ r" and it: "item it" by blast
    then have "length r < length us" by (auto simp: item_layout)
    from less [OF this] obtain items rest where "r = concat items @ rest" "list_all item items"
      "\<nexists>it r. rest = it @ r \<and> item it" by blast
    with us it show ?thesis by (intro exI [of _ "it # items"] exI [of _ rest]) simp
  next
    case False
    then show ?thesis by (intro exI [of _ "[]"] exI [of _ us]) simp
  qed
qed

lemma scan_loop_end:
  "scan_loop bs n m outs n =
     (if 65535 < m then scan_fail m outs n (RegisterOverflow n)
      else Some (Inr \<lparr>registers_used = of_nat m, outs_size = of_nat (min outs 65535),
                      units_walked = n\<rparr>))"
  by (simp add: scan_loop.simps)

text \<open>The result of the walk, given the longest sequence of items.\<close>

lemma scan_result:
  assumes "even (length bs)" and us: "code_units bs = concat items @ rest"
    and items: "list_all item items" and stuck: "\<nexists>it r. rest = it @ r \<and> item it"
  shows "rest = [] \<and> reg_limit items \<le> 65535 \<and> scan_insns bs = Some (Inr (scan_of items)) \<or>
    (rest \<noteq> [] \<or> 65535 < reg_limit items) \<and>
    (\<exists>err. scan_insns bs = Some (Inl \<lparr>ps_scan = scan_of items, ps_error = err\<rparr>))"
proof -
  let ?n = "length (code_units bs)" and ?pos = "length (concat items)"
  have fail: "scan_fail (reg_limit items) (arg_limit items) ?pos err =
      Some (Inl \<lparr>ps_scan = scan_of items, ps_error = err\<rparr>)" for err
    by (simp add: scan_fail_def scan_of_def)
  have "length bs div 2 * 2 = length bs" using assms(1) by (simp add: half_twice)
  then have "scan_insns bs = scan_loop bs ?n 0 0 0"
    by (simp add: scan_insns_def length_code_units)
  also have "\<dots> = scan_loop bs ?n (reg_limit items) (arg_limit items) ?pos"
    using scan_loop_items [OF items, of 0 bs rest 0 0] us by simp
  finally have scan: "scan_insns bs = scan_loop bs ?n (reg_limit items) (arg_limit items) ?pos" .
  show ?thesis
  proof (cases "rest = []")
    case True
    then have "?pos = ?n" using us by simp
    with True scan fail show ?thesis
      by (cases "65535 < reg_limit items") (simp_all add: scan_loop_end scan_of_def)
  next
    case False
    have "?pos < ?n" using us False by simp
    moreover have "drop ?pos (code_units bs) = rest" using us by simp
    with stuck have "\<nexists>it r. drop ?pos (code_units bs) = it @ r \<and> item it" by simp
    ultimately obtain err where
      "scan_loop bs ?n (reg_limit items) (arg_limit items) ?pos =
        scan_fail (reg_limit items) (arg_limit items) ?pos err"
      using scan_loop_stuck by blast
    with False scan fail show ?thesis by auto
  qed
qed

lemma scan_accepts:
  "scan_insns bs = Some (Inr s) \<longleftrightarrow> even (length bs) \<and>
     (\<exists>items. list_all item items \<and> concat items = code_units bs \<and> reg_limit items \<le> 65535 \<and>
        s = scan_of items)"
proof (cases "even (length bs)")
  case even: True
  show ?thesis
  proof
    assume s: "scan_insns bs = Some (Inr s)"
    obtain items rest where "code_units bs = concat items @ rest" "list_all item items"
      "\<nexists>it r. rest = it @ r \<and> item it" using item_prefix by blast
    with scan_result [OF even this] s show "even (length bs) \<and> (\<exists>items. list_all item items \<and>
        concat items = code_units bs \<and> reg_limit items \<le> 65535 \<and> s = scan_of items)"
      using even by auto
  next
    assume "even (length bs) \<and> (\<exists>items. list_all item items \<and> concat items = code_units bs \<and>
        reg_limit items \<le> 65535 \<and> s = scan_of items)"
    then obtain items where i: "list_all item items" "code_units bs = concat items @ []"
      "reg_limit items \<le> 65535" "s = scan_of items" by auto
    have "\<nexists>it r. [] = it @ r \<and> item it" by (auto simp: item_layout)
    from scan_result [OF even i(2,1) this] i show "scan_insns bs = Some (Inr s)" by auto
  qed
next
  case False
  then have "length bs div 2 * 2 \<noteq> length bs" by (simp add: half_twice)
  with False show ?thesis by (simp add: scan_insns_def)
qed

lemma scan_rejects:
  "even (length bs) \<Longrightarrow> scan_insns bs = Some (Inl ps) \<Longrightarrow>
     \<exists>items rest. code_units bs = concat items @ rest \<and> list_all item items \<and>
       (rest \<noteq> [] \<or> 65535 < reg_limit items) \<and> (\<nexists>it r. rest = it @ r \<and> item it) \<and>
       ps_scan ps = scan_of items"
proof -
  assume even: "even (length bs)" and ps: "scan_insns bs = Some (Inl ps)"
  obtain items rest where i: "code_units bs = concat items @ rest" "list_all item items"
    "\<nexists>it r. rest = it @ r \<and> item it" using item_prefix by blast
  from scan_result [OF even i] ps have "ps_scan ps = scan_of items"
    and "rest \<noteq> [] \<or> 65535 < reg_limit items" by auto
  with i show ?thesis by blast
qed

lemma scan_never_panics: "scan_insns bs \<noteq> None"
proof (cases "even (length bs)")
  case True
  obtain items rest where i: "code_units bs = concat items @ rest" "list_all item items"
    "\<nexists>it r. rest = it @ r \<and> item it" using item_prefix by blast
  from scan_result [OF True i] show ?thesis by auto
next
  case False
  then have "length bs div 2 * 2 \<noteq> length bs" by (simp add: half_twice)
  then show ?thesis by (simp add: scan_insns_def)
qed

lemma foldr_max_ge: "x \<in> set xs \<Longrightarrow> x \<le> foldr max xs 0" for x :: nat
  by (induction xs) auto

lemma foldr_max_in: "xs \<noteq> [] \<Longrightarrow> foldr max xs 0 \<in> set xs" for xs :: "nat list"
proof (induction xs)
  case (Cons x xs)
  then show ?case by (cases "xs = []") (auto simp: max_def)
qed simp

text \<open>The limit is the least that covers every register named.\<close>

lemma reg_limit_covers: "us \<in> set items \<Longrightarrow> r \<in> set (touched us) \<Longrightarrow> r < reg_limit items"
  unfolding reg_limit_def by (rule Suc_le_lessD, rule foldr_max_ge) auto

lemma reg_limit_least:
  "0 < reg_limit items \<Longrightarrow> \<exists>us \<in> set items. reg_limit items - 1 \<in> set (touched us)"
  using foldr_max_in [of "map Suc (concat (map touched items))"]
  by (cases "concat (map touched items) = []") (auto simp: reg_limit_def)

section \<open>Opcodes\<close>

text \<open>Exactly the opcodes the format leaves unused are refused.\<close>

definition unused_opcode :: "u8 \<Rightarrow> bool" where
  "unused_opcode op \<longleftrightarrow> (0x3E \<le> op \<and> op \<le> 0x43) \<or> op = 0x73 \<or> (0x79 \<le> op \<and> op \<le> 0x7A) \<or>
     (0xE3 \<le> op \<and> op \<le> 0xF9)"

lemma format_of_None: "format_of op = None \<longleftrightarrow> unused_opcode op"
proof -
  have "unat op < 256" using unsigned_less [of op, where 'a = nat] by simp
  moreover have "op = 0x73 \<longleftrightarrow> unat op = 0x73" by (simp add: word_unat_eq_iff)
  ultimately show ?thesis
    by (simp add: format_of_def format_arms_def unused_opcode_def word_le_nat_alt) linarith
qed

end
