(* ===== verification/Code_Items.thy ===== *)
theory Code_Items
  imports Fix_Facts Bytecode_Grammar
begin

text \<open>
  Code items in \<^verbatim>\<open>src/fix.rs\<close>: finding the end of an existing one with its try table and
  handlers (\<^verbatim>\<open>code_item_insns_len\<close>, \<^verbatim>\<open>code_item_end\<close>, \<^verbatim>\<open>take_sleb\<close>) and building one around captured
  instructions (\<^verbatim>\<open>synthesize_code_item\<close>, \<^verbatim>\<open>incoming_words\<close>). A built item is read back as exactly
  these instructions; its register window covers what the body touches and the arguments.
\<close>

section \<open>Existing code items\<close>

definition CODE_ITEM_HEADER_SIZE :: nat where "CODE_ITEM_HEADER_SIZE = 0x10"

definition code_item_insns_len :: "u8 list \<Rightarrow> u32 \<Rightarrow> nat option" where
  "code_item_insns_len dex code_off =
     (if code_off = 0 then None
      else let off = unat code_off
      in case slice_get dex off (off + CODE_ITEM_HEADER_SIZE) of None \<Rightarrow> None
         | Some header \<Rightarrow>
             let insns_bytes = unat (hdr_le32 header 0x0c) * 2
             in if off + CODE_ITEM_HEADER_SIZE + insns_bytes \<le> length dex
                then Some insns_bytes else None)"

text \<open>
  \<^verbatim>\<open>take_sleb\<close> with the shift of the current byte; the sign bits above the last byte are set when
  its bit 6 is. Five bytes have 35 bits, so the \<^verbatim>\<open>i64\<close> never overflows.
\<close>

fun sleb_loop :: "nat \<Rightarrow> u8 list \<Rightarrow> nat \<Rightarrow> nat \<Rightarrow> int \<Rightarrow> fix_error + (int \<times> nat)" where
  "sleb_loop 0 bytes pos shift v = Inl (Msg ''invalid SLEB128'')"
| "sleb_loop (Suc n) bytes pos shift v =
     (if length bytes \<le> pos then Inl (Msg ''truncated SLEB128'')
      else let byte = bytes ! pos;
               v = v OR push_bit shift (uint (byte AND 0x7f))
           in if byte AND 0x80 = 0
              then (let v = (if byte AND 0x40 \<noteq> 0 then v OR push_bit (shift + 7) (- 1) else v)
                    in if - (2 ^ 31) \<le> v \<and> v < 2 ^ 31 then Inr (v, pos + 1)
                       else Inl (Msg ''SLEB128 overflow''))
              else sleb_loop n bytes (pos + 1) (shift + 7) v)"

definition take_sleb :: "u8 list \<Rightarrow> nat \<Rightarrow> fix_error + (int \<times> nat)" where
  "take_sleb bytes pos = sleb_loop 5 bytes pos 0 0"

text \<open>The address of a handler must lie in the instructions.\<close>

definition take_addr :: "u8 list \<Rightarrow> nat \<Rightarrow> string \<Rightarrow> nat \<Rightarrow> fix_error + nat" where
  "take_addr bytes insns_units message pos =
     and_then (take_uleb bytes pos) (\<lambda>(addr, pos).
       if unat addr < insns_units then Inr pos else Inl (Msg message))"

fun typed_handlers :: "u8 list \<Rightarrow> nat \<Rightarrow> nat \<Rightarrow> nat \<Rightarrow> fix_error + nat" where
  "typed_handlers bytes insns_units 0 pos = Inr pos"
| "typed_handlers bytes insns_units (Suc n) pos =
     and_then (take_uleb bytes pos) (\<lambda>(_, pos).
     and_then (take_addr bytes insns_units ''handler address out of bounds'' pos)
       (typed_handlers bytes insns_units n))"

fun handler_lists :: "u8 list \<Rightarrow> nat \<Rightarrow> nat \<Rightarrow> nat \<Rightarrow> nat \<Rightarrow> nat list \<Rightarrow> fix_error + (nat list \<times> nat)"
  where
  "handler_lists bytes insns_units start 0 pos offsets = Inr (offsets, pos)"
| "handler_lists bytes insns_units start (Suc n) pos offsets =
     and_then (take_sleb bytes pos) (\<lambda>(sz, pos1).
     and_then (typed_handlers bytes insns_units (nat \<bar>sz\<bar>) pos1) (\<lambda>pos2.
     and_then (if sz \<le> 0 then take_addr bytes insns_units ''catch-all address out of bounds'' pos2
               else Inr pos2) (\<lambda>pos3.
       handler_lists bytes insns_units start n pos3 ((pos - start) # offsets))))"

definition u16_at :: "u8 list \<Rightarrow> nat \<Rightarrow> nat" where
  "u16_at bytes at = unat (le_word (take 2 (drop at bytes)) :: u16)"

definition try_ok :: "u8 list \<Rightarrow> nat \<Rightarrow> nat list \<Rightarrow> nat \<Rightarrow> bool" where
  "try_ok bytes insns_units offsets at \<longleftrightarrow>
     unat (hdr_le32 bytes at) + u16_at bytes (at + 4) \<le> insns_units \<and>
     u16_at bytes (at + 6) \<in> set offsets"

definition code_item_end :: "u8 list \<Rightarrow> u32 \<Rightarrow> fix_error + nat" where
  "code_item_end bytes off =
     (if off = 0 \<or> unat off mod 4 \<noteq> 0 then Inl (Msg ''unaligned code_item'')
      else and_then (ok_or (Msg ''code_item out of bounds'') (code_item_insns_len bytes off))
        (\<lambda>insns_len.
          let start = unat off; insns_units = insns_len div 2;
              pos = start + CODE_ITEM_HEADER_SIZE + insns_len;
              tries = u16_at bytes (start + 6)
          in if tries = 0 then Inr pos
             else let tries_start = (pos + 3) div 4 * 4;
                      handlers_start = tries_start + tries * 8
             in if length bytes \<le> handlers_start then Inl (Msg ''try table out of bounds'')
                else and_then (take_uleb bytes handlers_start) (\<lambda>(count, pos).
                     and_then (handler_lists bytes insns_units handlers_start (unat count) pos [])
                       (\<lambda>(offsets, pos).
                         if list_all (\<lambda>i. try_ok bytes insns_units offsets (tries_start + i * 8))
                              [0..<tries]
                         then Inr pos else Inl (Msg ''invalid try item'')))))"

section \<open>A code item around captured instructions\<close>

definition ACC_STATIC :: u32 where "ACC_STATIC = 0x0008"
definition ACC_NATIVE :: u32 where "ACC_NATIVE = 0x0100"
definition ACC_ABSTRACT :: u32 where "ACC_ABSTRACT = 0x0400"

definition parameter_words :: "rust_string \<Rightarrow> u32" where
  "parameter_words parameter =
     (if parameter = str_lit ''J'' \<or> parameter = str_lit ''D'' then 2 else 1)"

definition incoming_words :: "dex_parser \<Rightarrow> u32 \<Rightarrow> u32 \<Rightarrow> fix_error + u16" where
  "incoming_words p method_idx access_flags =
     (case get_method_info p method_idx of Inl err \<Rightarrow> Inl (Dex_err err)
      | Inr info \<Rightarrow>
          let words = fold (\<lambda>parameter words. words + parameter_words parameter)
            (mi_parameters info) (if access_flags AND ACC_STATIC = 0 then 1 else 0)
          in if unat words < 2 ^ 16 then Inr (ucast words)
             else Inl (Msg ''signature needs more than 65535 registers''))"

text \<open>The header in front of the instructions; no tries, no debug information.\<close>

definition code_item_bytes :: "u16 \<Rightarrow> u16 \<Rightarrow> u16 \<Rightarrow> u32 \<Rightarrow> u8 list \<Rightarrow> u8 list" where
  "code_item_bytes registers_size ins_size outs insns_units insns =
     le_bytes 2 registers_size @ le_bytes 2 ins_size @ le_bytes 2 outs @ le_bytes 2 (0 :: u16) @
     le_bytes 4 (0 :: u32) @ le_bytes 4 insns_units @ insns"

text \<open>
  The walk of the instructions never panics (\<open>scan_never_panics\<close>), so its result is taken out of
  the option. With \<^verbatim>\<open>--force-mismatch\<close> a partial result is good enough.
\<close>

definition scan_or_partial :: "fix_options \<Rightarrow> u8 list \<Rightarrow> fix_error + insn_scan" where
  "scan_or_partial opts insns =
     (case the (scan_insns insns) of
        Inr s \<Rightarrow> Inr s
      | Inl partial \<Rightarrow>
          if fo_force_mismatch opts then Inr (ps_scan partial) else Inl (Msg ''scan failed''))"

definition synthesize_code_item ::
  "libs \<Rightarrow> dex_parser \<Rightarrow> u32 \<Rightarrow> u32 \<Rightarrow> method_code_record \<Rightarrow> fix_options \<Rightarrow> fix_error + u8 list" where
  "synthesize_code_item lb p method_idx access_flags record opts =
     and_then (ok_or (Msg ''bytecode is not valid hex'') (lib_hex_decode lb (mcr_code record)))
       (\<lambda>insns.
         if insns = [] then Inl (Msg ''record carries no bytecode'')
         else if length insns mod 2 \<noteq> 0 then Inl (Msg ''not a whole number of code units'')
         else and_then (scan_or_partial opts insns) (\<lambda>scan.
              and_then (incoming_words p method_idx access_flags) (\<lambda>ins_size.
                if 2 ^ 32 \<le> length insns div 2
                then Inl (Msg ''bytecode is longer than a code_item can address'')
                else Inr (code_item_bytes (max (registers_used scan) ins_size) ins_size
                            (outs_size scan) (of_nat (length insns div 2)) insns))))"

section \<open>Reading a built item back\<close>

lemma length_code_item_bytes [simp]: "length (code_item_bytes r i out_n n insns) = 16 + length insns"
  by (simp add: code_item_bytes_def)

lemma take_le_bytes: "take 4 (drop 12 (code_item_bytes r i out_n n insns)) = le_bytes 4 n"
  "take 2 (drop 6 (code_item_bytes r i out_n n insns)) = le_bytes 2 (0 :: u16)"
  by (simp_all add: code_item_bytes_def)

lemma code_item_at:
  assumes at: "drop (unat off) dex = code_item_bytes r i out_n n insns @ rest"
    and len: "length insns = 2 * unat n" and off: "off \<noteq> 0"
  shows "code_item_insns_len dex off = Some (length insns)"
    and "insns_at dex (unat off) = insns"
    and "unat off mod 4 = 0 \<Longrightarrow> code_item_end dex off = Inr (unat off + 16 + length insns)"
proof -
  have le: "unat off + 16 + length insns \<le> length dex"
    using arg_cong [OF at, of length] by simp
  have d: "drop (unat off + k) dex = drop k (code_item_bytes r i out_n n insns @ rest)" for k
    using arg_cong [OF at, of "drop k"] by (simp add: add.commute)
  have n: "take 4 (drop (unat off + 12) dex) = le_bytes 4 n"
    unfolding d using take_le_bytes(1) [of r i out_n n insns] by (simp add: take_append)
  have tries: "take 2 (drop (unat off + 6) dex) = le_bytes 2 (0 :: u16)"
    unfolding d using take_le_bytes(2) [of r i out_n n insns] by (simp add: take_append)
  have h: "hdr_le32 dex (unat off + 12) = n" by (simp add: hdr_le32_def n)
  then have il: "insns_len dex (unat off) = length insns" by (simp add: insns_len_def len)
  then show "insns_at dex (unat off) = insns"
    using d [of 16] by (simp add: insns_at_def code_item_bytes_def)
  show cl: "code_item_insns_len dex off = Some (length insns)"
  proof -
    have "hdr_le32 (take 16 (drop (unat off) dex)) 12 = n"
      using n by (simp add: hdr_le32_def drop_take add.commute)
    then show ?thesis
      using off le len by (simp add: code_item_insns_len_def slice_get_def CODE_ITEM_HEADER_SIZE_def)
  qed
  show "code_item_end dex off = Inr (unat off + 16 + length insns)" if "unat off mod 4 = 0"
    using off that cl tries
    by (simp add: code_item_end_def Let_def u16_at_def CODE_ITEM_HEADER_SIZE_def le_word_le_bytes)
qed

section \<open>What is built\<close>

lemma synthesize_Inr:
  assumes "synthesize_code_item lb p idx flags r opts = Inr code"
  obtains insns scan ins where "lib_hex_decode lb (mcr_code r) = Some insns" and "insns \<noteq> []"
    and "even (length insns)" and "scan_or_partial opts insns = Inr scan"
    and "incoming_words p idx flags = Inr ins" and "length insns div 2 < 2 ^ 32"
    and "code = code_item_bytes (max (registers_used scan) ins) ins (outs_size scan)
      (of_nat (length insns div 2)) insns"
  using assms by (auto simp: synthesize_code_item_def and_then_Inr ok_or_Inr split: if_splits)

lemma synthesized_item_at:
  assumes "synthesize_code_item lb p idx flags r opts = Inr code"
    and "drop (unat off) dex = code @ rest" and "off \<noteq> 0"
  obtains insns where "lib_hex_decode lb (mcr_code r) = Some insns"
    and "code_item_insns_len dex off = Some (length insns)" and "insns_at dex (unat off) = insns"
    and "unat off mod 4 = 0 \<Longrightarrow> code_item_end dex off = Inr (unat off + length code)"
proof -
  from assms(1) obtain insns ins and scan :: insn_scan where hex: "lib_hex_decode lb (mcr_code r) = Some insns"
    and even: "even (length insns)" and short: "length insns div 2 < 2 ^ 32"
    and code: "code = code_item_bytes (max (registers_used scan) ins) ins (outs_size scan)
      (of_nat (length insns div 2)) insns"
    by (rule synthesize_Inr) blast
  have len: "length insns = 2 * unat (of_nat (length insns div 2) :: u32)"
    using even short by (simp add: count_back)
  note facts = code_item_at [OF assms(2) [unfolded code] len assms(3)]
  show thesis
    by (rule that [OF hex facts(1,2)]) (use facts(3) in \<open>simp add: code\<close>)
qed

text \<open>
  The register window of a well-formed body: large enough for what the body touches and for
  the arguments, and no larger.
\<close>

lemma synthesized_window:
  assumes "synthesize_code_item lb p idx flags r opts = Inr code" and "\<not> fo_force_mismatch opts"
    and "lib_hex_decode lb (mcr_code r) = Some insns"
  obtains items ins where "list_all item items" and "concat items = code_units insns"
    and "incoming_words p idx flags = Inr ins"
    and "unat (le_word (take 2 code) :: u16) = max (reg_limit items) (unat ins)"
    and "le_word (take 2 (drop 2 code)) = ins"
    and "unat (le_word (take 2 (drop 4 code)) :: u16) = min (arg_limit items) 65535"
    and "le_word (take 4 (drop 12 code)) = (of_nat (length insns div 2) :: u32)"
    and "drop 16 code = insns"
proof -
  from assms(1) obtain insns' scan ins where hex: "lib_hex_decode lb (mcr_code r) = Some insns'"
    and even: "even (length insns')" and scan: "scan_or_partial opts insns' = Inr scan"
    and ins: "incoming_words p idx flags = Inr ins" and short: "length insns' div 2 < 2 ^ 32"
    and code: "code = code_item_bytes (max (registers_used scan) ins) ins (outs_size scan)
      (of_nat (length insns' div 2)) insns'"
    by (rule synthesize_Inr) blast
  have eq: "insns' = insns" using hex assms(3) by simp
  have "scan_insns insns = Some (Inr scan)"
    using scan assms(2) scan_never_panics [of insns]
    by (auto simp: scan_or_partial_def eq split: sum.splits)
  then obtain items where items: "list_all item items" "concat items = code_units insns"
    "reg_limit items \<le> 65535" "scan = scan_of items"
    using scan_accepts [of insns scan] by auto
  have small: "unat (of_nat n :: u16) = n" if "n \<le> 65535" for n
    using that by (simp add: unat_of_nat take_bit_nat_eq_self)
  have fields: "take 2 code = le_bytes 2 (max (registers_used scan) ins)"
    "take 2 (drop 2 code) = le_bytes 2 ins" "take 2 (drop 4 code) = le_bytes 2 (outs_size scan)"
    "take 4 (drop 12 code) = le_bytes 4 (of_nat (length insns div 2) :: u32)" "drop 16 code = insns"
    by (simp_all add: code code_item_bytes_def eq)
  show thesis
  proof (rule that [OF items(1,2) ins])
    show "unat (le_word (take 2 code) :: u16) = max (reg_limit items) (unat ins)"
      using items small by (simp add: fields le_word_le_bytes scan_of_def max_def word_le_nat_alt)
    show "unat (le_word (take 2 (drop 4 code)) :: u16) = min (arg_limit items) 65535"
      using items small by (simp add: fields le_word_le_bytes scan_of_def)
  qed (simp_all add: fields le_word_le_bytes)
qed

end
