(* ===== verification/Dex_Map.thy ===== *)
theory Dex_Map
  imports Code_Items
begin

text \<open>
  The structural parts of the repair in \<^verbatim>\<open>src/fix.rs\<close>: reading the map list and writing a sorted
  one at the end of the file (\<^verbatim>\<open>read_map_entries\<close>, \<^verbatim>\<open>rebuild_map\<close>), the bounds in the header
  (\<^verbatim>\<open>fix_header_bounds\<close>), the id tables (\<^verbatim>\<open>validate_id_bounds\<close>) and stale offsets
  (\<^verbatim>\<open>fix_format_fields\<close>). Offsets and counts are below \<open>2 ^ 32\<close>, so the checked additions on
  \<^verbatim>\<open>usize\<close> cannot fail and are plain additions here.
\<close>

section \<open>The map list\<close>

record map_entry =
  mp_typ :: u16
  mp_size :: u32
  mp_off :: u32

definition MAP_TYPE_MAP_LIST :: u16 where "MAP_TYPE_MAP_LIST = 0x1000"

definition HDR_FILE_SIZE :: nat where "HDR_FILE_SIZE = 0x20"
definition HDR_MAP_OFF :: nat where "HDR_MAP_OFF = 0x34"
definition HDR_DATA_SIZE :: nat where "HDR_DATA_SIZE = 0x68"
definition HDR_DATA_OFF :: nat where "HDR_DATA_OFF = 0x6c"

fun map_entries_from :: "u8 list \<Rightarrow> nat \<Rightarrow> nat \<Rightarrow> u16 list \<Rightarrow> fix_error + map_entry list" where
  "map_entries_from bytes at 0 types = Inr []"
| "map_entries_from bytes at (Suc n) types =
     (let entry = \<lparr>mp_typ = le_word (take 2 (drop at bytes)), mp_size = hdr_le32 bytes (at + 4),
                   mp_off = hdr_le32 bytes (at + 8)\<rparr>
      in if mp_typ entry \<in> set types then Inl (Msg ''duplicate map type'')
         else if \<not> (mp_size entry \<noteq> 0 \<and> unat (mp_off entry) < length bytes)
         then Inl (Msg ''map item out of bounds'')
         else and_then (map_entries_from bytes (at + 12) n (mp_typ entry # types))
                (\<lambda>entries. Inr (entry # entries)))"

definition read_map_entries :: "u8 list \<Rightarrow> fix_error + map_entry list" where
  "read_map_entries bytes =
     and_then (ok_or (Msg ''missing map_off'') (le32 bytes HDR_MAP_OFF)) (\<lambda>map_off.
       let off = unat map_off
       in if \<not> (DEX_HEADER_LEN \<le> off \<and> off mod 4 = 0) then Inl (Msg ''invalid map_off'')
          else and_then (ok_or (Msg ''unreadable map list'') (le32 bytes off)) (\<lambda>count.
            if \<not> (count \<noteq> 0 \<and> off + 4 + unat count * 12 \<le> length bytes)
            then Inl (Msg ''map list out of bounds'')
            else map_entries_from bytes (off + 4) (unat count) []))"

definition align_to :: "u8 list \<Rightarrow> nat \<Rightarrow> u8 list" where
  "align_to buf align =
     (let remainder = length buf mod align
      in if remainder \<noteq> 0 then buf @ replicate (align - remainder) 0 else buf)"

text \<open>The replacement of the entries of relocated sections.\<close>

definition replace_entry :: "map_entry \<Rightarrow> map_entry list \<Rightarrow> map_entry list" where
  "replace_entry replacement entries =
     (let entries = filter (\<lambda>e. mp_typ e \<noteq> mp_typ replacement) entries
      in if mp_size replacement \<noteq> 0 then entries @ [replacement] else entries)"

fun ordered :: "map_entry list \<Rightarrow> bool" where
  "ordered (a # b # es) \<longleftrightarrow> mp_off a < mp_off b \<and> ordered (b # es)"
| "ordered _ \<longleftrightarrow> True"

definition encode_map_entry :: "map_entry \<Rightarrow> u8 list" where
  "encode_map_entry e =
     le_bytes 2 (mp_typ e) @ le_bytes 2 (0 :: u16) @ le_bytes 4 (mp_size e) @ le_bytes 4 (mp_off e)"

definition encode_map :: "map_entry list \<Rightarrow> u8 list" where
  "encode_map entries = le_bytes 4 (of_nat (length entries) :: u32) @ concat (map encode_map_entry entries)"

definition self_entry :: "u32 \<Rightarrow> map_entry" where
  "self_entry off = \<lparr>mp_typ = MAP_TYPE_MAP_LIST, mp_size = 1, mp_off = off\<rparr>"

definition rebuild_map :: "u8 list \<Rightarrow> map_entry list option \<Rightarrow> fix_error + (bool \<times> u8 list)" where
  "rebuild_map dex relocated =
     and_then (read_map_entries dex) (\<lambda>entries.
       let map_off = hdr_le32 dex HDR_MAP_OFF;
           old_map_off = unat map_off; old_map_end = old_map_off + 4 + length entries * 12
       in if list_ex (\<lambda>e. mp_typ e \<noteq> MAP_TYPE_MAP_LIST \<and> old_map_off \<le> unat (mp_off e) \<and>
              unat (mp_off e) < old_map_end) entries
          then Inl (Msg ''map overlaps another section'')
          else
            let entries = (case relocated of None \<Rightarrow> entries | Some rs \<Rightarrow> fold replace_entry rs entries);
                is_last = entries \<noteq> [] \<and> last entries = self_entry map_off
            in if relocated = None \<and> ordered entries \<and> is_last \<and>
                  old_map_off + 4 + length entries * 12 = length dex
               then Inr (False, dex)
               else
                 let dex = align_to dex 4
                 in if 2 ^ 32 \<le> length dex then Inl (Msg ''DEX grew past 4 GiB'')
                    else
                      let new_off = of_nat (length dex);
                          entries = sort_key mp_off
                            (filter (\<lambda>e. mp_typ e \<noteq> MAP_TYPE_MAP_LIST) entries @ [self_entry new_off]);
                          dex = dex @ encode_map entries;
                          dex = splice dex HDR_MAP_OFF (le_bytes 4 new_off)
                      in Inr (True, splice dex old_map_off (replicate (old_map_end - old_map_off) 0)))"

section \<open>The id tables and the header bounds\<close>

definition id_tables :: "dex_header \<Rightarrow> (u32 \<times> u32 \<times> nat) list" where
  "id_tables h =
     [(dh_string_ids_size h, dh_string_ids_off h, 4), (dh_type_ids_size h, dh_type_ids_off h, 4),
      (dh_proto_ids_size h, dh_proto_ids_off h, 12), (dh_field_ids_size h, dh_field_ids_off h, 8),
      (dh_method_ids_size h, dh_method_ids_off h, 8),
      (dh_class_defs_size h, dh_class_defs_off h, CLASS_DEF_SIZE)]"

fun id_spans :: "nat \<Rightarrow> (u32 \<times> u32 \<times> nat) list \<Rightarrow> fix_error + (nat \<times> nat) list" where
  "id_spans len [] = Inr []"
| "id_spans len ((cnt, off, width) # tables) =
     (if cnt = 0 then id_spans len tables
      else let table_end = unat off + unat cnt * width
           in if DEX_HEADER_LEN \<le> unat off \<and> unat off mod 4 = 0 \<and> table_end \<le> len
              then and_then (id_spans len tables) (\<lambda>spans. Inr ((unat off, table_end) # spans))
              else Inl (Msg ''id table out of bounds''))"

fun not_overlapping :: "(nat \<times> nat) list \<Rightarrow> bool" where
  "not_overlapping (a # b # spans) \<longleftrightarrow> snd a \<le> fst b \<and> not_overlapping (b # spans)"
| "not_overlapping _ \<longleftrightarrow> True"

text \<open>\<^verbatim>\<open>sort_unstable\<close> on pairs is lexicographic; equal pairs are indistinguishable.\<close>

definition sort_spans :: "(nat \<times> nat) list \<Rightarrow> (nat \<times> nat) list" where
  "sort_spans spans = sort_key fst (sort_key snd spans)"

definition validate_id_bounds :: "u8 list \<Rightarrow> fix_error + unit" where
  "validate_id_bounds bytes =
     (case parse_dex_header bytes of Inl err \<Rightarrow> Inl (Dex_err err)
      | Inr header \<Rightarrow>
          if dh_header_size header \<noteq> 0x70 then Inl (Msg ''unsupported DEX header size'')
          else if dh_endian_tag header \<noteq> 0x12345678 then Inl (Msg ''unsupported DEX endian tag'')
          else and_then (id_spans (length bytes) (id_tables header)) (\<lambda>spans.
            if not_overlapping (sort_spans spans) then Inr ()
            else Inl (Msg ''overlapping id tables'')))"

definition tables_end :: "dex_header \<Rightarrow> nat" where
  "tables_end h =
     (case filter (\<lambda>(cnt, _, _). cnt \<noteq> 0) (id_tables h) of
        [] \<Rightarrow> DEX_HEADER_LEN
      | tables \<Rightarrow> Max (set (map (\<lambda>(cnt, off, width). unat off + unat cnt * width) tables)))"

text \<open>One assignment of the loop: the field is written when it differs.\<close>

definition set_field :: "nat \<times> u32 \<Rightarrow> bool \<times> u8 list \<Rightarrow> bool \<times> u8 list" where
  "set_field = (\<lambda>(offset, v) (changed, dex).
     if take 4 (drop offset dex) \<noteq> le_bytes 4 v then (True, splice dex offset (le_bytes 4 v))
     else (changed, dex))"

definition fix_header_bounds :: "u8 list \<Rightarrow> bool \<times> u8 list" where
  "fix_header_bounds dex =
     (case parse_dex_header dex of Inl _ \<Rightarrow> (False, dex)
      | Inr header \<Rightarrow>
          let data_off = (tables_end header + 3) div 4 * 4
          in if length dex < data_off then (False, dex)
             else if 2 ^ 32 \<le> length dex then (False, dex)
             else fold set_field
               [(HDR_FILE_SIZE, of_nat (length dex)), (HDR_DATA_SIZE, of_nat (length dex - data_off)),
                (HDR_DATA_OFF, of_nat data_off)] (False, dex))"

end
