(* ===== verification/Map_Facts.thy ===== *)
theory Map_Facts
  imports Dex_Map
begin

text \<open>
  What the structural repair guarantees: the rewritten map list is read back as the sorted
  entries of the old one and ends the file, nothing else moves, and the header bounds describe
  the file.
\<close>

section \<open>Reading a written map\<close>

lemma length_encode_map_entry [simp]: "length (encode_map_entry e) = 12"
  by (simp add: encode_map_entry_def)

lemma length_concat_entries [simp]: "length (concat (map encode_map_entry es)) = 12 * length es"
  by (induction es) simp_all

lemma length_encode_map [simp]: "length (encode_map es) = 4 + 12 * length es"
  by (simp add: encode_map_def)

definition entries_ok :: "nat \<Rightarrow> map_entry list \<Rightarrow> bool" where
  "entries_ok len es \<longleftrightarrow> distinct (map mp_typ es) \<and>
     list_all (\<lambda>e. mp_size e \<noteq> 0 \<and> unat (mp_off e) < len) es"

lemma entry_fields:
  fixes e :: map_entry
  assumes "drop at bytes = encode_map_entry e @ rest"
  shows "\<lparr>mp_typ = le_word (take 2 (drop at bytes)), mp_size = hdr_le32 bytes (at + 4),
      mp_off = hdr_le32 bytes (at + 8)\<rparr> = e"
    and "drop (at + 12) bytes = rest"
proof -
  have d: "drop (at + k) bytes = drop k (encode_map_entry e @ rest)" for k
    using arg_cong [OF assms, of "drop k"] by (simp add: add.commute)
  show "\<lparr>mp_typ = le_word (take 2 (drop at bytes)), mp_size = hdr_le32 bytes (at + 4),
      mp_off = hdr_le32 bytes (at + 8)\<rparr> = e"
    unfolding hdr_le32_def d assms by (simp add: encode_map_entry_def le_word_le_bytes)
  show "drop (at + 12) bytes = rest" unfolding d by simp
qed

lemma map_entries_from_encoded:
  assumes "drop at bytes = concat (map encode_map_entry es) @ rest"
    and "list_all (\<lambda>e. mp_size e \<noteq> 0 \<and> unat (mp_off e) < length bytes) es"
    and "distinct (map mp_typ es)" and "set types \<inter> mp_typ ` set es = {}"
  shows "map_entries_from bytes at (length es) types = Inr es"
  using assms
proof (induction es arbitrary: at types)
  case (Cons e es)
  have here: "drop at bytes = encode_map_entry e @ concat (map encode_map_entry es) @ rest"
    using Cons.prems(1) by simp
  note f = entry_fields [OF here]
  have "map_entries_from bytes (at + 12) (length es) (mp_typ e # types) = Inr es"
    by (rule Cons.IH [OF f(2)]) (use Cons.prems in auto)
  moreover have "map_entries_from bytes at (Suc (length es)) types =
      (if mp_typ e \<in> set types then Inl (Msg ''duplicate map type'')
       else if \<not> (mp_size e \<noteq> 0 \<and> unat (mp_off e) < length bytes)
       then Inl (Msg ''map item out of bounds'')
       else and_then (map_entries_from bytes (at + 12) (length es) (mp_typ e # types))
              (\<lambda>entries. Inr (e # entries)))"
    unfolding map_entries_from.simps(2) Let_def f(1) by (rule refl)
  ultimately show ?case using Cons.prems(2-4) by simp
qed simp

lemma map_entries_from_ok:
  "map_entries_from bytes at n types = Inr es \<Longrightarrow>
     entries_ok (length bytes) es \<and> set types \<inter> mp_typ ` set es = {} \<and> length es = n"
proof (induction n arbitrary: at types es)
  case (Suc n)
  define e where "e = \<lparr>mp_typ = le_word (take 2 (drop at bytes)), mp_size = hdr_le32 bytes (at + 4),
    mp_off = hdr_le32 bytes (at + 8)\<rparr>"
  from Suc.prems obtain es' where es: "es = e # es'" and ok: "mp_typ e \<notin> set types" "mp_size e \<noteq> 0"
      "unat (mp_off e) < length bytes"
    and rest: "map_entries_from bytes (at + 12) n (mp_typ e # types) = Inr es'"
    unfolding map_entries_from.simps Let_def e_def [symmetric] by (auto simp: and_then_Inr split: if_splits)
  from Suc.IH [OF rest] es ok show ?case by (auto simp: entries_ok_def)
qed (simp add: entries_ok_def)

lemma read_map_entries_ok:
  assumes "read_map_entries bytes = Inr es"
  obtains off where "hdr_le32 bytes HDR_MAP_OFF = off" and "DEX_HEADER_LEN \<le> unat off"
    and "unat off mod 4 = 0" and "unat off + 4 + length es * 12 \<le> length bytes"
    and "entries_ok (length bytes) es" and "es \<noteq> []"
proof -
  from assms obtain off and n :: u32 where off: "le32 bytes HDR_MAP_OFF = Some off" "DEX_HEADER_LEN \<le> unat off"
      "4 dvd unat off" and n: "n \<noteq> 0" "unat off + 4 + unat n * 12 \<le> length bytes"
    and es: "map_entries_from bytes (unat off + 4) (unat n) [] = Inr es"
    by (auto simp: read_map_entries_def and_then_Inr ok_or_Inr Let_def split: if_splits)
  have "hdr_le32 bytes HDR_MAP_OFF = off"
    using off(1) by (auto simp: le32_def slice_get_def hdr_le32_def split: if_splits)
  moreover have "length es = unat n" "entries_ok (length bytes) es"
    using map_entries_from_ok [OF es] by simp_all
  moreover have "0 < unat n" using n(1) by (simp add: unat_gt_0)
  ultimately show thesis using that off(2,3) n(2) by (simp add: mod_eq_0_iff_dvd) force
qed

lemma distinct_types_few: "distinct (map mp_typ es) \<Longrightarrow> length es \<le> 65536"
proof -
  assume "distinct (map mp_typ es)"
  then have "length es = card (set (map mp_typ es))" using distinct_card by fastforce
  also have "\<dots> \<le> card (UNIV :: u16 set)" by (rule card_mono) simp_all
  also have "\<dots> = 65536" by (simp add: card_word)
  finally show ?thesis .
qed

lemma read_encoded_map:
  assumes off: "le32 bytes HDR_MAP_OFF = Some off" "DEX_HEADER_LEN \<le> unat off" "unat off mod 4 = 0"
    and at: "drop (unat off) bytes = encode_map es @ rest"
    and ok: "entries_ok (length bytes) es" and "es \<noteq> []"
  shows "read_map_entries bytes = Inr es"
proof -
  have few: "length es \<le> 65536" using ok by (auto simp: entries_ok_def intro: distinct_types_few)
  then have n: "unat (of_nat (length es) :: u32) = length es"
    by (simp add: unat_of_nat take_bit_nat_eq_self)
  have nz: "(of_nat (length es) :: u32) \<noteq> 0"
    using n \<open>es \<noteq> []\<close> by (metis length_0_conv unsigned_0)
  have len: "unat off + 4 + 12 * length es \<le> length bytes"
    using arg_cong [OF at, of length] by simp
  have "slice_get bytes (unat off) (unat off + 4) = Some (le_bytes 4 (of_nat (length es) :: u32))"
    using len at by (simp add: slice_get_def encode_map_def)
  then have count: "le32 bytes (unat off) = Some (of_nat (length es))" by (simp add: le32_def)
  have "drop (unat off + 4) bytes = drop 4 (drop (unat off) bytes)" by (simp add: add.commute)
  also have "\<dots> = concat (map encode_map_entry es) @ rest" by (simp add: at encode_map_def)
  finally have "map_entries_from bytes (unat off + 4) (length es) [] = Inr es"
    by (rule map_entries_from_encoded) (use ok in \<open>simp_all add: entries_ok_def\<close>)
  then show ?thesis
    using off count nz n len by (simp add: read_map_entries_def Let_def mult.commute)
qed

section \<open>Rebuilding the map\<close>

lemma replace_entry_ok:
  "entries_ok len es \<Longrightarrow> unat (mp_off r) < len \<Longrightarrow> entries_ok len (replace_entry r es)"
  by (auto simp: entries_ok_def replace_entry_def Let_def list_all_iff distinct_map inj_on_def)

lemma replace_entries_ok:
  "entries_ok len es \<Longrightarrow> list_all (\<lambda>r. unat (mp_off r) < len) rs \<Longrightarrow>
     entries_ok len (fold replace_entry rs es)"
  by (induction rs arbitrary: es) (simp_all add: replace_entry_ok)

lemma length_align_to: "length (align_to buf 4) = (length buf + 3) div 4 * 4"
proof -
  have "length buf mod 4 \<noteq> 0 \<Longrightarrow> length buf + (4 - length buf mod 4) = (length buf + 3) div 4 * 4"
    by presburger
  moreover have "length buf mod 4 = 0 \<Longrightarrow> length buf = (length buf + 3) div 4 * 4" by presburger
  ultimately show ?thesis unfolding align_to_def Let_def by auto
qed

lemma align_to_prefix: "\<exists>pad. align_to buf 4 = buf @ pad"
  by (auto simp: align_to_def Let_def)

text \<open>The entries of the new map, in front of the one for the map itself.\<close>

definition kept_entries :: "map_entry list option \<Rightarrow> map_entry list \<Rightarrow> map_entry list" where
  "kept_entries relocated es =
     filter (\<lambda>e. mp_typ e \<noteq> MAP_TYPE_MAP_LIST)
       (case relocated of None \<Rightarrow> es | Some rs \<Rightarrow> fold replace_entry rs es)"

lemma new_entries_ok:
  assumes "entries_ok len es" and "case relocated of None \<Rightarrow> True | Some rs \<Rightarrow>
      list_all (\<lambda>r. unat (mp_off r) < len) rs"
    and "len \<le> unat off" and "unat off < len'"
  shows "entries_ok len' (sort_key mp_off (kept_entries relocated es @ [self_entry off]))"
proof -
  let ?es = "case relocated of None \<Rightarrow> es | Some rs \<Rightarrow> fold replace_entry rs es"
  have ok: "entries_ok len ?es"
    using assms(1,2) by (auto simp: replace_entries_ok split: option.split)
  have "distinct (map mp_typ (kept_entries relocated es @ [self_entry off]))"
    using ok by (auto simp: entries_ok_def kept_entries_def self_entry_def distinct_map inj_on_def)
  then have "distinct (map mp_typ (sort_key mp_off (kept_entries relocated es @ [self_entry off])))"
    by (metis mset_eq_imp_distinct_iff mset_map mset_sort)
  moreover have "list_all (\<lambda>e. mp_size e \<noteq> 0 \<and> unat (mp_off e) < len')
      (kept_entries relocated es @ [self_entry off])"
    using ok assms(3,4) by (auto simp: entries_ok_def kept_entries_def self_entry_def list_all_iff)
  ultimately show ?thesis by (simp add: entries_ok_def list_all_iff)
qed

lemma rebuild_map_changed:
  fixes relocated :: "map_entry list option"
  assumes run: "rebuild_map dex relocated = Inr (True, dex')" and old: "read_map_entries dex = Inr es"
    and rel: "case relocated of None \<Rightarrow> True | Some rs \<Rightarrow> list_all (\<lambda>r. unat (mp_off r) < length dex) rs"
  obtains new_off where "read_map_entries dex' =
      Inr (sort_key mp_off (kept_entries relocated es @ [self_entry new_off]))"
    and "hdr_le32 dex' HDR_MAP_OFF = new_off"
    and "length dex' = unat new_off + 4 + 12 * (length (kept_entries relocated es) + 1)"
    and "unat new_off = (length dex + 3) div 4 * 4"
    and "\<And>i. i < length dex \<Longrightarrow> i \<notin> {HDR_MAP_OFF..<HDR_MAP_OFF + 4} \<Longrightarrow>
      i \<notin> {unat (hdr_le32 dex HDR_MAP_OFF) ..< unat (hdr_le32 dex HDR_MAP_OFF) + 4 + length es * 12} \<Longrightarrow>
      dex' ! i = dex ! i"
proof -
  define old_off where "old_off = unat (hdr_le32 dex HDR_MAP_OFF)"
  define old_end where "old_end = old_off + 4 + length es * 12"
  define dex0 where "dex0 = align_to dex 4"
  define new_off :: u32 where "new_off = of_nat (length dex0)"
  define fs where "fs = sort_key mp_off (kept_entries relocated es @ [self_entry new_off])"
  define dex2 where "dex2 = splice (dex0 @ encode_map fs) HDR_MAP_OFF (le_bytes 4 new_off)"
  from read_map_entries_ok [OF old] have bounds: "0x70 \<le> old_off" "old_end \<le> length dex"
    and ok: "entries_ok (length dex) es"
    by (auto simp: old_off_def old_end_def DEX_HEADER_LEN_def)
  have small: "length dex0 < 2 ^ 32" and dex': "dex' = splice dex2 old_off (replicate (old_end - old_off) 0)"
    using run unfolding rebuild_map_def old and_then_simps Let_def
    by (auto simp: old_off_def old_end_def dex0_def new_off_def fs_def dex2_def kept_entries_def
        split: if_splits)
  have new: "unat new_off = length dex0" using small by (simp add: new_off_def count_back)
  obtain pad where pad: "dex0 = dex @ pad" using align_to_prefix dex0_def by blast
  then have le: "length dex \<le> length dex0" by simp
  have old_le: "old_end \<le> length dex0" "old_off \<le> old_end"
    using bounds le by (simp_all add: old_end_def)
  have hdr: "HDR_MAP_OFF + 4 \<le> old_off" using bounds(1) by (simp add: HDR_MAP_OFF_def)
  have len2: "length dex2 = length dex0 + length (encode_map fs)"
    using hdr old_le by (simp add: dex2_def length_splice)
  have len': "length dex' = length dex0 + length (encode_map fs)"
    unfolding dex' using len2 old_le by (simp add: length_splice)
  have off': "take 4 (drop HDR_MAP_OFF dex') = le_bytes 4 new_off"
  proof -
    have "take 4 (drop HDR_MAP_OFF dex') = take 4 (drop HDR_MAP_OFF dex2)"
      unfolding dex' by (rule splice_read_other) (use hdr len2 old_le in auto)
    also have "\<dots> = le_bytes 4 new_off"
      unfolding dex2_def by (rule splice_read) (use hdr old_le in auto)
    finally show ?thesis .
  qed
  have le_off: "le32 dex' HDR_MAP_OFF = Some new_off"
    using off' hdr old_le len' by (simp add: le32_def slice_get_def)
  have at: "drop (unat new_off) dex' = encode_map fs @ []"
  proof -
    have "drop (length dex0) dex' = drop (length dex0) dex2"
      unfolding dex' by (rule splice_drop) (use len2 old_le in auto)
    also have "\<dots> = drop (length dex0) (dex0 @ encode_map fs)"
      unfolding dex2_def by (rule splice_drop) (use hdr old_le in auto)
    finally show ?thesis by (simp add: new)
  qed
  have n: "length fs = length (kept_entries relocated es) + 1" by (simp add: fs_def)
  then have "fs \<noteq> []" by auto
  have ok': "entries_ok (length dex') fs"
    unfolding fs_def by (rule new_entries_ok [OF ok rel]) (use new le len' in simp_all)
  show thesis
  proof (rule that [of new_off])
    have al: "length dex0 = (length dex + 3) div 4 * 4" by (simp add: dex0_def length_align_to)
    then show "unat new_off = (length dex + 3) div 4 * 4" by (simp add: new)
    have "DEX_HEADER_LEN \<le> unat new_off" using bounds old_le new by (simp add: DEX_HEADER_LEN_def)
    moreover have "unat new_off mod 4 = 0" unfolding new al by simp
    ultimately show "read_map_entries dex' =
        Inr (sort_key mp_off (kept_entries relocated es @ [self_entry new_off]))"
      using read_encoded_map [OF le_off _ _ at ok' \<open>fs \<noteq> []\<close>] by (simp add: fs_def)
    show "hdr_le32 dex' HDR_MAP_OFF = new_off" by (simp add: hdr_le32_def off')
    show "length dex' = unat new_off + 4 + 12 * (length (kept_entries relocated es) + 1)"
      by (simp add: len' new n)
    fix i assume i: "i < length dex" "i \<notin> {HDR_MAP_OFF..<HDR_MAP_OFF + 4}"
      "i \<notin> {unat (hdr_le32 dex HDR_MAP_OFF) ..< unat (hdr_le32 dex HDR_MAP_OFF) + 4 + length es * 12}"
    then have "dex' ! i = dex2 ! i"
      unfolding dex' using len2 le old_le by (auto simp: nth_splice old_off_def old_end_def)
    also have "\<dots> = (dex0 @ encode_map fs) ! i"
      unfolding dex2_def using i le hdr old_le by (auto simp: nth_splice)
    also have "\<dots> = dex ! i" using i by (simp add: pad nth_append)
    finally show "dex' ! i = dex ! i" .
  qed
qed

section \<open>The header bounds\<close>

lemma hdr_splice_other:
  "off + length p \<le> length b \<Longrightarrow> k + 4 \<le> off \<or> off + length p \<le> k \<Longrightarrow>
     hdr_le32 (splice b off p) k = hdr_le32 b k"
  by (simp add: hdr_le32_def splice_read_other)

lemma hdr_splice_same:
  "off + 4 \<le> length b \<Longrightarrow> hdr_le32 (splice b off (le_bytes 4 v)) off = v"
  by (simp add: hdr_le32_def splice_read)

lemma hdr_le32_take: "k + 4 \<le> n \<Longrightarrow> hdr_le32 (take n xs) k = hdr_le32 xs k"
  by (simp add: hdr_le32_def drop_take min_def)

lemma parse_dex_header_fields:
  "112 \<le> length xs \<Longrightarrow> parse_dex_header xs = Inr \<lparr>
     dh_magic = take 8 xs, dh_checksum = hdr_le32 xs 8, dh_signature = take 20 (drop 12 xs),
     dh_file_size = hdr_le32 xs 32, dh_header_size = hdr_le32 xs 36,
     dh_endian_tag = hdr_le32 xs 40, dh_link_size = hdr_le32 xs 44,
     dh_link_off = hdr_le32 xs 48, dh_map_off = hdr_le32 xs 52,
     dh_string_ids_size = hdr_le32 xs 56, dh_string_ids_off = hdr_le32 xs 60,
     dh_type_ids_size = hdr_le32 xs 64, dh_type_ids_off = hdr_le32 xs 68,
     dh_proto_ids_size = hdr_le32 xs 72, dh_proto_ids_off = hdr_le32 xs 76,
     dh_field_ids_size = hdr_le32 xs 80, dh_field_ids_off = hdr_le32 xs 84,
     dh_method_ids_size = hdr_le32 xs 88, dh_method_ids_off = hdr_le32 xs 92,
     dh_class_defs_size = hdr_le32 xs 96, dh_class_defs_off = hdr_le32 xs 100,
     dh_data_size = hdr_le32 xs 104, dh_data_off = hdr_le32 xs 108 \<rparr>"
  by (simp add: parse_dex_header_def slice_get_def DEX_HEADER_LEN_def hdr_le32_take drop_take min_def)

lemma parse_dex_header_size: "parse_dex_header xs = Inr h \<Longrightarrow> 112 \<le> length xs"
  by (auto simp: parse_dex_header_def slice_get_def DEX_HEADER_LEN_def split: if_splits)

text \<open>The fields of a parsed header are where the format has them.\<close>

lemma header_fields:
  assumes "parse_dex_header xs = Inr h"
  shows
    "dh_magic h = take 8 xs" "dh_checksum h = hdr_le32 xs 8"
    "dh_signature h = take 20 (drop 12 xs)" "dh_file_size h = hdr_le32 xs 32"
    "dh_header_size h = hdr_le32 xs 36" "dh_endian_tag h = hdr_le32 xs 40"
    "dh_link_size h = hdr_le32 xs 44" "dh_link_off h = hdr_le32 xs 48"
    "dh_map_off h = hdr_le32 xs 52" "dh_string_ids_size h = hdr_le32 xs 56"
    "dh_string_ids_off h = hdr_le32 xs 60" "dh_type_ids_size h = hdr_le32 xs 64"
    "dh_type_ids_off h = hdr_le32 xs 68" "dh_proto_ids_size h = hdr_le32 xs 72"
    "dh_proto_ids_off h = hdr_le32 xs 76" "dh_field_ids_size h = hdr_le32 xs 80"
    "dh_field_ids_off h = hdr_le32 xs 84" "dh_method_ids_size h = hdr_le32 xs 88"
    "dh_method_ids_off h = hdr_le32 xs 92" "dh_class_defs_size h = hdr_le32 xs 96"
    "dh_class_defs_off h = hdr_le32 xs 100" "dh_data_size h = hdr_le32 xs 104"
    "dh_data_off h = hdr_le32 xs 108"
  using assms parse_dex_header_fields [OF parse_dex_header_size [OF assms]] by auto

lemma set_field_snd:
  "off + 4 \<le> length (snd acc) \<Longrightarrow> snd (set_field (off, v) acc) = splice (snd acc) off (le_bytes 4 v)"
  by (cases acc) (auto simp: set_field_def splice_same)

lemma set_field_fst:
  "off + 4 \<le> length (snd acc) \<Longrightarrow>
     fst (set_field (off, v) acc) \<longleftrightarrow> fst acc \<or> snd (set_field (off, v) acc) \<noteq> snd acc"
proof -
  assume le: "off + 4 \<le> length (snd acc)"
  show ?thesis
  proof (cases "take 4 (drop off (snd acc)) = le_bytes 4 v")
    case False
    have "take 4 (drop off (splice (snd acc) off (le_bytes 4 v))) = le_bytes 4 v"
      by (rule splice_read) (use le in simp_all)
    with False have "splice (snd acc) off (le_bytes 4 v) \<noteq> snd acc" by auto
    with False show ?thesis by (cases acc) (simp add: set_field_def)
  qed (cases acc, simp add: set_field_def)
qed

definition fixed_bounds :: "nat \<Rightarrow> dex_header \<Rightarrow> dex_header" where
  "fixed_bounds len h = (let data_off = (tables_end h + 3) div 4 * 4
     in h\<lparr>dh_file_size := of_nat len, dh_data_size := of_nat (len - data_off),
          dh_data_off := of_nat data_off\<rparr>)"

lemma fixed_bounds_simps [simp]:
  "dh_magic (fixed_bounds len h) = dh_magic h" "dh_checksum (fixed_bounds len h) = dh_checksum h"
  "dh_signature (fixed_bounds len h) = dh_signature h"
  "dh_file_size (fixed_bounds len h) = of_nat len"
  "dh_header_size (fixed_bounds len h) = dh_header_size h"
  "dh_endian_tag (fixed_bounds len h) = dh_endian_tag h"
  "dh_link_size (fixed_bounds len h) = dh_link_size h"
  "dh_link_off (fixed_bounds len h) = dh_link_off h"
  "dh_map_off (fixed_bounds len h) = dh_map_off h"
  "dh_string_ids_size (fixed_bounds len h) = dh_string_ids_size h"
  "dh_string_ids_off (fixed_bounds len h) = dh_string_ids_off h"
  "dh_type_ids_size (fixed_bounds len h) = dh_type_ids_size h"
  "dh_type_ids_off (fixed_bounds len h) = dh_type_ids_off h"
  "dh_proto_ids_size (fixed_bounds len h) = dh_proto_ids_size h"
  "dh_proto_ids_off (fixed_bounds len h) = dh_proto_ids_off h"
  "dh_field_ids_size (fixed_bounds len h) = dh_field_ids_size h"
  "dh_field_ids_off (fixed_bounds len h) = dh_field_ids_off h"
  "dh_method_ids_size (fixed_bounds len h) = dh_method_ids_size h"
  "dh_method_ids_off (fixed_bounds len h) = dh_method_ids_off h"
  "dh_class_defs_size (fixed_bounds len h) = dh_class_defs_size h"
  "dh_class_defs_off (fixed_bounds len h) = dh_class_defs_off h"
  "dh_data_size (fixed_bounds len h) = of_nat (len - (tables_end h + 3) div 4 * 4)"
  "dh_data_off (fixed_bounds len h) = of_nat ((tables_end h + 3) div 4 * 4)"
  by (simp_all add: fixed_bounds_def Let_def)

lemma fix_header_bounds:
  assumes h: "parse_dex_header dex = Inr h" and fits: "(tables_end h + 3) div 4 * 4 \<le> length dex"
    and small: "length dex < 2 ^ 32"
  defines "dex' \<equiv> snd (fix_header_bounds dex)"
  shows "parse_dex_header dex' = Inr (fixed_bounds (length dex) h)"
    and "length dex' = length dex" and "drop 112 dex' = drop 112 dex"
    and "fix_header_bounds dex' = (False, dex')"
proof -
  let ?o = "(tables_end h + 3) div 4 * 4"
  define v1 v2 v3 :: u32 where v: "v1 = of_nat (length dex)" "v2 = of_nat (length dex - ?o)"
    "v3 = of_nat ?o"
  let ?d1 = "splice dex 0x20 (le_bytes 4 v1)"
  let ?d2 = "splice ?d1 0x68 (le_bytes 4 v2)"
  let ?d3 = "splice ?d2 0x6c (le_bytes 4 v3)"
  have len: "112 \<le> length dex" by (rule parse_dex_header_size [OF h])
  have l1: "length ?d1 = length dex" by (rule length_splice) (use len in simp)
  have l2: "length ?d2 = length dex" using length_splice [of "0x68" "le_bytes 4 v2" ?d1] len l1 by simp
  have l3: "length ?d3 = length dex" using length_splice [of "0x6c" "le_bytes 4 v3" ?d2] len l2 by simp
  note lens = l1 l2 l3
  have run: "fix_header_bounds dex = fold set_field
      [(0x20, v1), (0x68, v2), (0x6c, v3)] (False, dex)"
    using h fits small
    by (simp add: v fix_header_bounds_def Let_def HDR_FILE_SIZE_def HDR_DATA_SIZE_def HDR_DATA_OFF_def
        del: fold.simps)
  have dex': "dex' = ?d3"
    unfolding dex'_def run using lens len by (simp add: set_field_snd)
  show len': "length dex' = length dex" by (simp add: dex' lens)
  show "drop 112 dex' = drop 112 dex" unfolding dex' using lens len by (simp add: splice_drop)
  have other: "hdr_le32 dex' k = hdr_le32 dex k"
    if "k + 4 \<le> 0x20 \<or> 0x24 \<le> k" "k + 4 \<le> 0x68 \<or> 0x70 \<le> k" for k
    unfolding dex' using that lens len by (auto simp: hdr_splice_other)
  have new: "hdr_le32 dex' 0x20 = v1" "hdr_le32 dex' 0x68 = v2" "hdr_le32 dex' 0x6c = v3"
    unfolding dex' using lens len by (simp_all add: hdr_splice_other hdr_splice_same)
  have bytes: "take 8 dex' = take 8 dex" "take 20 (drop 12 dex') = take 20 (drop 12 dex)"
    unfolding dex' using lens len by (simp_all add: splice_take splice_read_other)
  have others:
    "hdr_le32 dex' 8 = hdr_le32 dex 8" "hdr_le32 dex' 36 = hdr_le32 dex 36"
    "hdr_le32 dex' 40 = hdr_le32 dex 40" "hdr_le32 dex' 44 = hdr_le32 dex 44"
    "hdr_le32 dex' 48 = hdr_le32 dex 48" "hdr_le32 dex' 52 = hdr_le32 dex 52"
    "hdr_le32 dex' 56 = hdr_le32 dex 56" "hdr_le32 dex' 60 = hdr_le32 dex 60"
    "hdr_le32 dex' 64 = hdr_le32 dex 64" "hdr_le32 dex' 68 = hdr_le32 dex 68"
    "hdr_le32 dex' 72 = hdr_le32 dex 72" "hdr_le32 dex' 76 = hdr_le32 dex 76"
    "hdr_le32 dex' 80 = hdr_le32 dex 80" "hdr_le32 dex' 84 = hdr_le32 dex 84"
    "hdr_le32 dex' 88 = hdr_le32 dex 88" "hdr_le32 dex' 92 = hdr_le32 dex 92"
    "hdr_le32 dex' 96 = hdr_le32 dex 96" "hdr_le32 dex' 100 = hdr_le32 dex 100"
    by (simp_all add: other)
  have "112 \<le> length dex'" using len len' by simp
  then obtain h' where h': "parse_dex_header dex' = Inr h'"
    using parse_dex_header_fields by blast
  have "h' = fixed_bounds (length dex) h"
    by (rule dex_header.equality)
      (simp_all add: header_fields [OF h'] header_fields [OF h] others bytes new v)
  then show parse': "parse_dex_header dex' = Inr (fixed_bounds (length dex) h)" using h' by simp
  have same: "tables_end (fixed_bounds (length dex) h) = tables_end h"
    by (simp add: tables_end_def id_tables_def)
  have stay: "take 4 (drop k dex') = le_bytes 4 v" if "hdr_le32 dex' k = v" "k + 4 \<le> length dex'" for k v
    using that by (auto simp: hdr_le32_def le_bytes_le_word)
  show "fix_header_bounds dex' = (False, dex')"
    using parse' fits small new [unfolded v] stay len len'
    by (simp add: fix_header_bounds_def same Let_def HDR_FILE_SIZE_def HDR_DATA_SIZE_def
        HDR_DATA_OFF_def set_field_def)
qed

end
