(* ===== verification/Repair.thy ===== *)
theory Repair
  imports Map_Facts
begin

text \<open>
  The structural repair of \<^verbatim>\<open>src/fix.rs\<close> (\<^verbatim>\<open>repair_one_dex\<close>): captured bodies that fit are written in
  place, all others get a new code item; code items and class data are relocated to the end of the
  file in two runs (\<^verbatim>\<open>append_missing_code_items\<close>), stale offsets are cleared
  (\<^verbatim>\<open>fix_format_fields\<close>), the map and the header follow, and the result is validated
  (\<^verbatim>\<open>validate_repaired_dex\<close>). Console output is left out.
\<close>

section \<open>Stale offsets\<close>

definition clear_stale :: "nat \<Rightarrow> nat \<Rightarrow> bool \<times> u8 list \<Rightarrow> bool \<times> u8 list" where
  "clear_stale len field = (\<lambda>(changed, dex).
     let v = hdr_le32 dex field
     in if v \<noteq> 0 \<and> len \<le> unat v then (True, splice dex field (le_bytes 4 (0 :: u32)))
        else (changed, dex))"

fun clear_class_fields :: "nat \<Rightarrow> nat \<Rightarrow> nat \<Rightarrow> bool \<times> u8 list \<Rightarrow> bool \<times> u8 list" where
  "clear_class_fields len off 0 acc = acc"
| "clear_class_fields len off (Suc n) acc =
     (if len < off + 32 then acc
      else clear_class_fields len (off + 32) n
             (clear_stale len (off + 0x1c) (clear_stale len (off + 0x14)
                (clear_stale len (off + 0x0c) acc))))"

definition clear_tries :: "nat \<Rightarrow> nat \<Rightarrow> bool \<times> u8 list \<Rightarrow> bool \<times> u8 list" where
  "clear_tries len co = (\<lambda>(changed, dex).
     let tries = u16_at dex (co + 0x06)
     in if 0 < tries
        then let try_data_off = (co + 0x10 + unat (hdr_le32 dex (co + 0x0c)) * 2 + 3) div 4 * 4
             in if len < try_data_off + tries * 8
                then (True, splice dex (co + 0x06) (le_bytes 2 (0 :: u16))) else (changed, dex)
        else (changed, dex))"

definition clear_method_fields :: "nat \<Rightarrow> encoded_method \<Rightarrow> bool \<times> u8 list \<Rightarrow> bool \<times> u8 list" where
  "clear_method_fields len m acc =
     (let co = unat (em_code_off m)
      in if co = 0 \<or> len < co + 0x10 then acc
         else clear_tries len co (clear_stale len (co + 0x08) acc))"

fun clear_code_fields :: "nat \<Rightarrow> nat \<Rightarrow> nat \<Rightarrow> bool \<times> u8 list \<Rightarrow> bool \<times> u8 list" where
  "clear_code_fields len off 0 acc = acc"
| "clear_code_fields len off (Suc n) acc =
     (if len < off + 32 then acc
      else clear_code_fields len (off + 32) n
        (let class_data_off = hdr_le32 (snd acc) (off + 24)
         in if class_data_off = 0 \<or> len \<le> unat class_data_off then acc
            else case parse_class_data (snd acc) class_data_off of
                   Inl _ \<Rightarrow> acc
                 | Inr cd \<Rightarrow> fold (clear_method_fields len) (class_methods cd) acc))"

definition fix_format_fields :: "u8 list \<Rightarrow> bool \<times> u8 list" where
  "fix_format_fields dex =
     (case parse_dex_header dex of Inl _ \<Rightarrow> (False, dex)
      | Inr h \<Rightarrow>
          let len = length dex; off = unat (dh_class_defs_off h); n = unat (dh_class_defs_size h)
          in clear_code_fields len off n (clear_class_fields len off n (False, dex)))"

section \<open>Planning the new code items\<close>

record append_outcome =
  ao_appended :: nat
  ao_failed :: nat
  ao_unrecovered :: nat
  ao_first_failure :: "fix_error option"
  ao_relocated :: "map_entry list option"

definition no_outcome :: append_outcome where
  "no_outcome = \<lparr>ao_appended = 0, ao_failed = 0, ao_unrecovered = 0, ao_first_failure = None,
     ao_relocated = None\<rparr>"

text \<open>Collecting into a \<^verbatim>\<open>HashMap\<close> keeps the last record of a method.\<close>

definition by_method :: "method_code_record list \<Rightarrow> u32 \<Rightarrow> method_code_record option" where
  "by_method records = map_of (rev (map (\<lambda>r. (mcr_method_idx r, r)) records))"

definition record_failure :: "fix_error \<Rightarrow> append_outcome \<Rightarrow> append_outcome" where
  "record_failure err out1 = out1\<lparr>ao_failed := ao_failed out1 + 1,
     ao_first_failure := (case ao_first_failure out1 of None \<Rightarrow> Some err | Some e \<Rightarrow> Some e)\<rparr>"

text \<open>One method of the plan: the method, whether it was touched, the outcome.\<close>

definition plan_method ::
  "libs \<Rightarrow> dex_parser \<Rightarrow> method_code_record list \<Rightarrow> fix_options \<Rightarrow> encoded_method \<Rightarrow> append_outcome \<Rightarrow>
     fix_error + (encoded_method \<times> bool \<times> append_outcome)" where
  "plan_method lb p records opts m out1 =
     (if em_access_flags m AND (ACC_NATIVE OR ACC_ABSTRACT) \<noteq> 0 then Inr (m, False, out1)
      else let dex = dp_data p; on_disk = code_item_insns_len dex (em_code_off m)
      in and_then (if on_disk \<noteq> None then code_item_end dex (em_code_off m) else Inr 0) (\<lambda>_.
         case by_method records (em_method_idx m) of
           None \<Rightarrow>
             if on_disk = None
             then Inr (m\<lparr>em_code_off := 0\<rparr>, True, out1\<lparr>ao_unrecovered := ao_unrecovered out1 + 1\<rparr>)
             else Inr (m, False, out1)
         | Some record \<Rightarrow>
             if on_disk = Some (length (utf8_bytes (mcr_code record)) div 2) then Inr (m, False, out1)
             else case synthesize_code_item lb p (em_method_idx m) (em_access_flags m) record opts of
                    Inr code_item \<Rightarrow> Inr (m\<lparr>em_pending_code := Some code_item\<rparr>, True, out1)
                  | Inl err \<Rightarrow> Inr (m, False, record_failure err out1)))"

fun plan_methods ::
  "libs \<Rightarrow> dex_parser \<Rightarrow> method_code_record list \<Rightarrow> fix_options \<Rightarrow> encoded_method list \<Rightarrow> append_outcome \<Rightarrow>
     fix_error + (encoded_method list \<times> bool \<times> append_outcome)" where
  "plan_methods lb p records opts [] out1 = Inr ([], False, out1)"
| "plan_methods lb p records opts (m # ms) out1 =
     and_then (plan_method lb p records opts m out1) (\<lambda>(m', t1, out2).
     and_then (plan_methods lb p records opts ms out2) (\<lambda>(ms', t2, out3).
       Inr (m' # ms', t1 \<or> t2, out3)))"

text \<open>The loop over the classes; it stops at the first class definition past the end.\<close>

fun plan_classes ::
  "libs \<Rightarrow> dex_parser \<Rightarrow> method_code_record list \<Rightarrow> fix_options \<Rightarrow> nat \<Rightarrow> nat \<Rightarrow> append_outcome \<Rightarrow>
     fix_error + ((nat \<times> class_data) list \<times> bool \<times> append_outcome)" where
  "plan_classes lb p records opts off 0 out1 = Inr ([], False, out1)"
| "plan_classes lb p records opts off (Suc n) out1 =
     (case slice_get (dp_data p) off (off + CLASS_DEF_SIZE) of None \<Rightarrow> Inr ([], False, out1)
      | Some class_def \<Rightarrow>
          let class_data_off = hdr_le32 class_def 24
          in if class_data_off = 0 then plan_classes lb p records opts (off + CLASS_DEF_SIZE) n out1
             else and_then (parse_class_data (dp_data p) class_data_off) (\<lambda>cd.
                  and_then (plan_methods lb p records opts (cd_direct_methods cd) out1)
                    (\<lambda>(direct, t1, out2).
                  and_then (plan_methods lb p records opts (cd_virtual_methods cd) out2)
                    (\<lambda>(virtual, t2, out3).
                  and_then (plan_classes lb p records opts (off + CLASS_DEF_SIZE) n out3)
                    (\<lambda>(planned, t3, out4).
                      Inr ((off, cd\<lparr>cd_direct_methods := direct, cd_virtual_methods := virtual\<rparr>) # planned,
                           t1 \<or> t2 \<or> t3, out4))))))"

section \<open>Relocating code and class data\<close>

definition section_end :: "map_entry list \<Rightarrow> u32 \<Rightarrow> nat \<Rightarrow> nat" where
  "section_end entries off len =
     (case filter (\<lambda>e. off < mp_off e) entries of
        [] \<Rightarrow> len
      | later \<Rightarrow> Min (set (map (\<lambda>e. unat (mp_off e)) later)))"

fun retired_ranges :: "map_entry list \<Rightarrow> nat \<Rightarrow> map_entry list \<Rightarrow> fix_error + (nat \<times> nat) list" where
  "retired_ranges entries len [] = Inr []"
| "retired_ranges entries len (e # es) =
     (if mp_typ e \<noteq> 0x2000 \<and> mp_typ e \<noteq> 0x2001 then retired_ranges entries len es
      else let start = unat (mp_off e); stop = section_end entries (mp_off e) len
           in if DEX_HEADER_LEN \<le> start \<and> start < stop \<and> stop \<le> len
              then and_then (retired_ranges entries len es) (\<lambda>ranges. Inr ((start, stop) # ranges))
              else Inl (Msg ''invalid retired section bounds''))"

text \<open>The file, the entry of the code section, and how many pending items were appended.\<close>

record placing =
  pl_dex :: "u8 list"
  pl_code_map :: map_entry
  pl_appended :: nat

definition place_item :: "encoded_method \<Rightarrow> u8 list \<Rightarrow> placing \<Rightarrow> fix_error + (encoded_method \<times> placing)"
  where
  "place_item m code_item st =
     (let dex = align_to (pl_dex st) 4; code_map = pl_code_map st
      in if 2 ^ 32 \<le> length dex then Inl (Msg ''DEX grew past 4 GiB while rebuilding code items'')
         else let new_off = of_nat (length dex)
         in Inr (m\<lparr>em_code_off := new_off, em_pending_code := None\<rparr>,
                 st\<lparr>pl_dex := dex @ code_item,
                    pl_code_map := code_map\<lparr>
                      mp_off := (if mp_size code_map = 0 then new_off else mp_off code_map),
                      mp_size := mp_size code_map + 1\<rparr>\<rparr>))"

definition place_method :: "encoded_method \<Rightarrow> placing \<Rightarrow> fix_error + (encoded_method \<times> placing)" where
  "place_method m st =
     (case em_pending_code m of
        Some code \<Rightarrow> place_item m code (st\<lparr>pl_appended := pl_appended st + 1\<rparr>)
      | None \<Rightarrow>
          if em_code_off m \<noteq> 0
          then and_then (code_item_end (pl_dex st) (em_code_off m)) (\<lambda>stop.
                 place_item m (take (stop - unat (em_code_off m)) (drop (unat (em_code_off m)) (pl_dex st))) st)
          else Inr (m, st))"

fun place_methods :: "encoded_method list \<Rightarrow> placing \<Rightarrow> fix_error + (encoded_method list \<times> placing)" where
  "place_methods [] st = Inr ([], st)"
| "place_methods (m # ms) st =
     and_then (place_method m st) (\<lambda>(m', st1).
     and_then (place_methods ms st1) (\<lambda>(ms', st2). Inr (m' # ms', st2)))"

fun place_classes ::
  "(nat \<times> class_data) list \<Rightarrow> placing \<Rightarrow> fix_error + ((nat \<times> class_data) list \<times> placing)" where
  "place_classes [] st = Inr ([], st)"
| "place_classes ((off, cd) # planned) st =
     and_then (place_methods (cd_direct_methods cd) st) (\<lambda>(direct, st1).
     and_then (place_methods (cd_virtual_methods cd) st1) (\<lambda>(virtual, st2).
     and_then (place_classes planned st2) (\<lambda>(planned', st3).
       Inr ((off, cd\<lparr>cd_direct_methods := direct, cd_virtual_methods := virtual\<rparr>) # planned', st3))))"

fun append_class_data :: "(nat \<times> class_data) list \<Rightarrow> u8 list \<Rightarrow> fix_error + u8 list" where
  "append_class_data [] dex = Inr dex"
| "append_class_data ((off, cd) # planned) dex =
     (if 2 ^ 32 \<le> length dex then Inl (Msg ''DEX grew past 4 GiB while rebuilding class data'')
      else append_class_data planned
             (splice (dex @ encode_class_data cd) (off + 24) (le_bytes 4 (of_nat (length dex) :: u32))))"

definition retire :: "nat \<times> nat \<Rightarrow> u8 list \<Rightarrow> u8 list" where
  "retire = (\<lambda>(start, stop) dex. splice dex start (replicate (stop - start) 0))"

definition relocate ::
  "(nat \<times> class_data) list \<Rightarrow> append_outcome \<Rightarrow> u8 list \<Rightarrow> fix_error + (append_outcome \<times> u8 list)" where
  "relocate planned out1 dex =
     and_then (read_map_entries dex) (\<lambda>original_map.
     and_then (retired_ranges original_map (length dex) original_map) (\<lambda>retired.
     and_then (place_classes planned \<lparr>pl_dex = dex,
         pl_code_map = \<lparr>mp_typ = 0x2001, mp_size = 0, mp_off = 0\<rparr>, pl_appended = 0\<rparr>) (\<lambda>(planned, st).
       if 2 ^ 32 \<le> length planned \<or> 2 ^ 32 \<le> length (pl_dex st) then Inl (Msg ''out of range'')
       else let class_map = \<lparr>mp_typ = 0x2000, mp_size = of_nat (length planned),
                             mp_off = of_nat (length (pl_dex st))\<rparr>
            in and_then (append_class_data planned (pl_dex st)) (\<lambda>dex.
                 Inr (out1\<lparr>ao_appended := pl_appended st, ao_relocated := Some [pl_code_map st, class_map]\<rparr>,
                      fold retire retired dex)))))"

definition append_missing_code_items ::
  "libs \<Rightarrow> u8 list \<Rightarrow> method_code_record list \<Rightarrow> fix_options \<Rightarrow> fix_error + (append_outcome \<times> u8 list)" where
  "append_missing_code_items lb dex records opts =
     (case dex_parser_new dex of Inl err \<Rightarrow> Inl (Dex_err err)
      | Inr h \<Rightarrow>
          and_then (plan_classes lb \<lparr>dp_data = dex, dp_header = h\<rparr> records opts
              (unat (dh_class_defs_off h)) (unat (dh_class_defs_size h)) no_outcome)
            (\<lambda>(planned, needs_relocation, out1).
              if needs_relocation then relocate planned out1 dex else Inr (out1, dex)))"

section \<open>Validation\<close>

fun check_methods :: "u8 list \<Rightarrow> u32 \<Rightarrow> encoded_method list \<Rightarrow> u32 list \<Rightarrow> fix_error + u32 list" where
  "check_methods bytes method_ids_size [] codes = Inr codes"
| "check_methods bytes method_ids_size (m # ms) codes =
     (if method_ids_size \<le> em_method_idx m then Inl (Msg ''method index out of bounds'')
      else if em_code_off m \<noteq> 0
      then and_then (code_item_end bytes (em_code_off m)) (\<lambda>_.
             check_methods bytes method_ids_size ms (List.insert (em_code_off m) codes))
      else check_methods bytes method_ids_size ms codes)"

fun check_classes ::
  "u8 list \<Rightarrow> u32 \<Rightarrow> nat \<Rightarrow> nat \<Rightarrow> u32 list \<times> u32 list \<Rightarrow> fix_error + (u32 list \<times> u32 list)" where
  "check_classes bytes method_ids_size at 0 acc = Inr acc"
| "check_classes bytes method_ids_size at (Suc n) acc =
     (case acc of (classes, codes) \<Rightarrow>
      let off = hdr_le32 bytes (at + 24)
      in if off = 0 then check_classes bytes method_ids_size (at + CLASS_DEF_SIZE) n acc
         else and_then (parse_class_data bytes off) (\<lambda>cd.
              and_then (check_methods bytes method_ids_size (class_methods cd) codes) (\<lambda>codes.
                check_classes bytes method_ids_size (at + CLASS_DEF_SIZE) n
                  (List.insert off classes, codes))))"

text \<open>The items of one run must follow each other without gaps (code items aligned to four).\<close>

definition align4 :: "u16 \<Rightarrow> nat \<Rightarrow> nat" where
  "align4 typ pos = (if typ = 0x2001 then (pos + 3) div 4 * 4 else pos)"

definition item_stop :: "u16 \<Rightarrow> u8 list \<Rightarrow> u32 \<Rightarrow> fix_error + nat" where
  "item_stop typ bytes off =
     (if typ = 0x2001 then code_item_end bytes off
      else and_then (parse_class_data_end bytes off) (\<lambda>(_, stop). Inr stop))"

fun check_run :: "u16 \<Rightarrow> u8 list \<Rightarrow> u32 list \<Rightarrow> nat \<Rightarrow> fix_error + nat" where
  "check_run typ bytes [] pos = Inr pos"
| "check_run typ bytes (off # offs) pos =
     (if unat off \<noteq> align4 typ pos then Inl (Msg ''noncontiguous map run'')
      else and_then (item_stop typ bytes off) (check_run typ bytes offs))"

definition check_section :: "u8 list \<Rightarrow> map_entry list \<Rightarrow> u16 \<Rightarrow> u32 list \<Rightarrow> fix_error + unit" where
  "check_section bytes entries typ offsets =
     (case find (\<lambda>e. mp_typ e = typ) entries of
        None \<Rightarrow> if offsets = [] then Inr () else Inl (Msg ''missing live item map'')
      | Some e \<Rightarrow>
          if \<not> (unat (mp_size e) = length offsets \<and> offsets \<noteq> [] \<and> Min (set offsets) = mp_off e)
          then Inl (Msg ''live item/map mismatch'')
          else and_then (check_run typ bytes (sort offsets) (unat (mp_off e))) (\<lambda>pos.
                 if pos \<le> section_end entries (mp_off e) (length bytes) then Inr ()
                 else Inl (Msg ''overlapping map run'')))"

definition validate_repaired_dex :: "libs \<Rightarrow> u8 list \<Rightarrow> fix_error + unit" where
  "validate_repaired_dex lb bytes =
     and_then (validate_id_bounds bytes) (\<lambda>_.
     case dex_parser_new bytes of Inl err \<Rightarrow> Inl (Dex_err err)
     | Inr h \<Rightarrow>
         if unat (dh_file_size h) \<noteq> length bytes then Inl (Msg ''file_size mismatch'')
         else if \<not> (0x70 \<le> unat (dh_data_off h) \<and>
             unat (dh_data_off h) + unat (dh_data_size h) = length bytes)
         then Inl (Msg ''data bounds mismatch'')
         else if dh_signature h \<noteq> lib_sha1 lb (drop 32 bytes) then Inl (Msg ''signature mismatch'')
         else if dh_checksum h \<noteq> lib_adler32 lb (drop 12 bytes) then Inl (Msg ''checksum mismatch'')
         else and_then (read_map_entries bytes) (\<lambda>entries.
           if \<not> ordered entries then Inl (Msg ''unordered map'')
           else if \<not> list_ex (\<lambda>e. e = self_entry (dh_map_off h)) entries
           then Inl (Msg ''map self-entry mismatch'')
           else and_then (check_classes bytes (dh_method_ids_size h) (unat (dh_class_defs_off h))
                    (unat (dh_class_defs_size h)) ([], [])) (\<lambda>(classes, codes).
                and_then (check_section bytes entries 0x2000 classes) (\<lambda>_.
                  check_section bytes entries 0x2001 codes))))"

section \<open>Repairing one DEX\<close>

record repair_stats =
  rs_header_fixed :: bool
  rs_map_rebuilt :: bool
  rs_inline_applied :: nat
  rs_appended :: nat
  rs_append_failed :: nat
  rs_unrecovered :: nat
  rs_format_fixed :: bool
  rs_validation_passed :: bool
  rs_bytecode_decode_failed :: nat

text \<open>In place only exact fits are written, whatever \<^verbatim>\<open>--force-mismatch\<close> says.\<close>

definition exact_fits :: fix_options where
  "exact_fits = \<lparr>fo_force_mismatch = False, fo_dedup = False\<rparr>"

definition restore_bytecode ::
  "libs \<Rightarrow> u8 list \<Rightarrow> method_code_record list \<Rightarrow> fix_options \<Rightarrow>
     fix_error + (nat \<times> append_outcome \<times> u8 list)" where
  "restore_bytecode lb dex records opts =
     (case dex_parser_new dex of Inl err \<Rightarrow> Inl (Dex_err err)
      | Inr h \<Rightarrow>
          and_then (build_method_code_off_map \<lparr>dp_data = dex, dp_header = h\<rparr>) (\<lambda>method2off.
            case apply_records_to_dex lb dex method2off records exact_fits of
              (dex, applied) \<Rightarrow>
                and_then (append_missing_code_items lb dex records opts) (\<lambda>(out1, dex).
                  Inr (fs_applied applied, out1, dex))))"

definition repair_one_dex ::
  "libs \<Rightarrow> u8 list \<Rightarrow> method_code_record list option \<Rightarrow> fix_options \<Rightarrow>
     fix_error + (repair_stats \<times> u8 list)" where
  "repair_one_dex lb dex records opts =
     (case dex_parser_new dex of Inl err \<Rightarrow> Inl (Dex_err err)
      | Inr _ \<Rightarrow>
          and_then (validate_id_bounds dex) (\<lambda>_.
          and_then (read_map_entries dex) (\<lambda>_.
          and_then (restore_bytecode lb dex (case records of None \<Rightarrow> [] | Some rs \<Rightarrow> rs) opts)
            (\<lambda>(inline_applied, out1, dex).
            let (format_fixed, dex) = fix_format_fields dex
            in and_then (rebuild_map dex (ao_relocated out1)) (\<lambda>(map_rebuilt, dex).
               let (header_fixed, dex) = fix_header_bounds dex; dex = recalc_dex_header lb dex
               in and_then (validate_repaired_dex lb dex) (\<lambda>_.
                    Inr (\<lparr>rs_header_fixed = header_fixed, rs_map_rebuilt = map_rebuilt,
                          rs_inline_applied = inline_applied, rs_appended = ao_appended out1,
                          rs_append_failed = ao_failed out1, rs_unrecovered = ao_unrecovered out1,
                          rs_format_fixed = format_fixed, rs_validation_passed = True,
                          rs_bytecode_decode_failed = 0\<rparr>, dex)))))))"

text \<open>
  What \<^verbatim>\<open>repair_directory\<close> does with one file: nothing is written when a capture was unusable.
\<close>

definition repair_file ::
  "libs \<Rightarrow> u8 list \<Rightarrow> method_code_record list option \<Rightarrow> fix_options \<Rightarrow>
     fix_error + (repair_stats \<times> u8 list)" where
  "repair_file lb dex records opts =
     and_then (repair_one_dex lb dex records opts) (\<lambda>(stats, dex).
       if rs_append_failed stats \<noteq> 0 then Inl (Msg ''unusable method capture(s)'')
       else Inr (stats, dex))"

end
