(* ===== verification/Repair_Facts.thy ===== *)
theory Repair_Facts
  imports Repair
begin

text \<open>
  Relocation loses nothing: after \<^verbatim>\<open>append_missing_code_items\<close> every class still has its fields
  and methods, and every method the body it should have: the original code item where it was
  intact, the rebuilt one where a capture replaces it, none where there is neither.
\<close>

section \<open>Readers on a longer file\<close>

lemma uleb_loop_append:
  "uleb_loop bytes pos r shift = Inr x \<Longrightarrow> uleb_loop (bytes @ ext) pos r shift = Inr x"
proof (induction bytes pos r shift rule: uleb_loop.induct)
  case (1 bytes pos r shift)
  then show ?case
    by (subst uleb_loop.simps, subst (asm) (2) uleb_loop.simps)
      (auto simp: Let_def nth_append split: if_splits)
qed

lemma take_uleb_append: "take_uleb bytes pos = Inr x \<Longrightarrow> take_uleb (bytes @ ext) pos = Inr x"
  by (auto simp: take_uleb_def read_uleb128_def uleb_loop_append split: sum.splits)

lemma take_uleb_range: "take_uleb bytes pos = Inr (v, q) \<Longrightarrow> pos < q \<and> q \<le> length bytes"
  by (auto simp: take_uleb_def read_uleb128_def dest: uleb_loop_range split: sum.splits)

lemma sleb_loop_append:
  "sleb_loop n bytes pos shift v = Inr x \<Longrightarrow> sleb_loop n (bytes @ ext) pos shift v = Inr x"
  by (induction n bytes pos shift v rule: sleb_loop.induct)
    (auto simp: Let_def nth_append split: if_splits)

lemma sleb_loop_range:
  "sleb_loop n bytes pos shift v = Inr (w, q) \<Longrightarrow> pos \<le> q \<and> q \<le> length bytes"
  by (induction n bytes pos shift v rule: sleb_loop.induct) (force simp: Let_def split: if_splits)+

lemma take_sleb_append: "take_sleb bytes pos = Inr x \<Longrightarrow> take_sleb (bytes @ ext) pos = Inr x"
  by (simp add: take_sleb_def sleb_loop_append)

text \<open>A computation that succeeds succeeds with the same value when its parts do.\<close>

lemma and_then_mono:
  assumes "and_then r f = Inr y" and "\<And>x. r = Inr x \<Longrightarrow> r' = Inr x"
    and "\<And>x. r = Inr x \<Longrightarrow> f x = Inr y \<Longrightarrow> f' x = Inr y"
  shows "and_then r' f' = Inr y"
  using assms by (cases r) auto

lemma take_addr_append:
  assumes "take_addr bytes u msg pos = Inr x"
  shows "take_addr (bytes @ ext) u msg pos = Inr x"
  using assms unfolding take_addr_def
  by (rule and_then_mono) (simp_all add: take_uleb_append)

lemma take_addr_range: "take_addr bytes u msg pos = Inr q \<Longrightarrow> pos \<le> q \<and> q \<le> length bytes"
  by (auto simp: take_addr_def and_then_Inr dest: take_uleb_range split: if_splits)

lemma typed_handlers_append:
  "typed_handlers bytes u n pos = Inr x \<Longrightarrow> typed_handlers (bytes @ ext) u n pos = Inr x"
proof (induction n arbitrary: pos)
  case (Suc n)
  show ?case unfolding typed_handlers.simps
  proof (rule and_then_mono [OF Suc.prems [unfolded typed_handlers.simps]])
    fix y assume "(case y of (_, q) \<Rightarrow> and_then
        (take_addr bytes u ''handler address out of bounds'' q) (typed_handlers bytes u n)) = Inr x"
    then show "(case y of (_, q) \<Rightarrow> and_then
        (take_addr (bytes @ ext) u ''handler address out of bounds'' q)
        (typed_handlers (bytes @ ext) u n)) = Inr x"
      by (cases y) (auto intro: and_then_mono take_addr_append Suc.IH)
  qed (rule take_uleb_append)
qed simp

lemma typed_handlers_range:
  "typed_handlers bytes u n pos = Inr q \<Longrightarrow> pos \<le> length bytes \<Longrightarrow> pos \<le> q \<and> q \<le> length bytes"
proof (induction n arbitrary: pos)
  case (Suc n)
  then obtain v p1 p2 where v: "take_uleb bytes pos = Inr (v, p1)"
    and addr: "take_addr bytes u ''handler address out of bounds'' p1 = Inr p2"
    and r: "typed_handlers bytes u n p2 = Inr q" by (auto simp: and_then_Inr)
  from Suc.IH [OF r] take_addr_range [OF addr] take_uleb_range [OF v] show ?case by simp
qed simp

lemma handler_lists_append:
  "handler_lists bytes u start n pos offs = Inr x \<Longrightarrow>
     handler_lists (bytes @ ext) u start n pos offs = Inr x"
proof (induction n arbitrary: pos offs)
  case (Suc n)
  then obtain sz p1 p2 p3 where sz: "take_sleb bytes pos = Inr (sz, p1)"
    and typed: "typed_handlers bytes u (nat \<bar>sz\<bar>) p1 = Inr p2"
    and all: "(if sz \<le> 0 then take_addr bytes u ''catch-all address out of bounds'' p2 else Inr p2) = Inr p3"
    and rest: "handler_lists bytes u start n p3 ((pos - start) # offs) = Inr x"
    unfolding handler_lists.simps and_then_Inr split_paired_Ex prod.case by blast
  have "(if sz \<le> 0 then take_addr (bytes @ ext) u ''catch-all address out of bounds'' p2 else Inr p2) = Inr p3"
    using all by (simp add: take_addr_append split: if_splits)
  with take_sleb_append [OF sz] typed_handlers_append [OF typed] Suc.IH [OF rest]
  show ?case by simp
qed simp

lemma handler_lists_range:
  "handler_lists bytes u start n pos offs = Inr (offs', q) \<Longrightarrow> pos \<le> length bytes \<Longrightarrow>
     pos \<le> q \<and> q \<le> length bytes"
proof (induction n arbitrary: pos offs)
  case (Suc n)
  then obtain sz p1 p2 p3 where sz: "take_sleb bytes pos = Inr (sz, p1)"
    and typed: "typed_handlers bytes u (nat \<bar>sz\<bar>) p1 = Inr p2"
    and all: "(if sz \<le> 0 then take_addr bytes u ''catch-all address out of bounds'' p2 else Inr p2) = Inr p3"
    and rest: "handler_lists bytes u start n p3 ((pos - start) # offs) = Inr (offs', q)"
    unfolding handler_lists.simps and_then_Inr split_paired_Ex prod.case by blast
  have 1: "pos \<le> p1 \<and> p1 \<le> length bytes" using sz sleb_loop_range by (simp add: take_sleb_def)
  have 2: "p1 \<le> p2 \<and> p2 \<le> length bytes" using typed_handlers_range [OF typed] 1 by simp
  have 3: "p2 \<le> p3 \<and> p3 \<le> length bytes" using all 2 by (auto dest: take_addr_range split: if_splits)
  from Suc.IH [OF rest] 1 2 3 show ?case by simp
qed simp

lemma take_drop_append: "a + n \<le> length xs \<Longrightarrow> take n (drop a (xs @ ys)) = take n (drop a xs)"
  by simp

lemma code_item_insns_len_append:
  "code_item_insns_len bytes off = Some n \<Longrightarrow> code_item_insns_len (bytes @ ext) off = Some n"
  by (auto simp: code_item_insns_len_def slice_get_def CODE_ITEM_HEADER_SIZE_def Let_def
      split: if_splits)

lemma code_item_insns_len_range:
  "code_item_insns_len bytes off = Some n \<Longrightarrow> unat off + 16 + n \<le> length bytes \<and> off \<noteq> 0"
  by (auto simp: code_item_insns_len_def slice_get_def CODE_ITEM_HEADER_SIZE_def Let_def
      split: if_splits)

lemma try_ok_append:
  "at + 8 \<le> length bytes \<Longrightarrow> try_ok (bytes @ ext) u offs at = try_ok bytes u offs at"
  by (simp add: try_ok_def u16_at_def hdr_le32_def)

text \<open>The parts of the end of a code item.\<close>

lemma code_item_end_cases:
  assumes "code_item_end bytes off = Inr stop"
  obtains insns_len where "off \<noteq> 0" and "unat off mod 4 = 0"
    and "code_item_insns_len bytes off = Some insns_len"
    and "u16_at bytes (unat off + 6) = 0" and "stop = unat off + 16 + insns_len"
  | insns_len ts hs n p offs where "off \<noteq> 0" and "unat off mod 4 = 0"
    and "code_item_insns_len bytes off = Some insns_len" and "u16_at bytes (unat off + 6) \<noteq> 0"
    and "ts = (unat off + 16 + insns_len + 3) div 4 * 4"
    and "hs = ts + u16_at bytes (unat off + 6) * 8" and "hs < length bytes"
    and "take_uleb bytes hs = Inr (n, p)"
    and "handler_lists bytes (insns_len div 2) hs (unat n) p [] = Inr (offs, stop)"
    and "list_all (\<lambda>i. try_ok bytes (insns_len div 2) offs (ts + i * 8)) [0..<u16_at bytes (unat off + 6)]"
  using assms
  by (fastforce simp: code_item_end_def Let_def and_then_Inr ok_or_Inr CODE_ITEM_HEADER_SIZE_def not_le
      split: if_splits)

lemma code_item_end_range:
  assumes "code_item_end bytes off = Inr stop"
  shows "unat off \<le> stop \<and> stop \<le> length bytes"
  using assms
proof (cases rule: code_item_end_cases)
  case (1 insns_len)
  then show ?thesis using code_item_insns_len_range [OF 1(3)] by simp
next
  case (2 insns_len ts hs n p offs)
  have "hs < p \<and> p \<le> length bytes" by (rule take_uleb_range [OF 2(8)])
  moreover from this handler_lists_range [OF 2(9)] have "p \<le> stop \<and> stop \<le> length bytes" by simp
  moreover have "unat off \<le> hs" unfolding 2(5,6) by simp
  ultimately show ?thesis by simp
qed

lemma code_item_end_append:
  assumes "code_item_end bytes off = Inr stop"
  shows "code_item_end (bytes @ ext) off = Inr stop"
  using assms
proof (cases rule: code_item_end_cases)
  case (1 insns_len)
  have "u16_at (bytes @ ext) (unat off + 6) = u16_at bytes (unat off + 6)"
    using code_item_insns_len_range [OF 1(3)] by (simp add: u16_at_def)
  then show ?thesis
    using 1 code_item_insns_len_append [OF 1(3)]
    by (simp add: code_item_end_def CODE_ITEM_HEADER_SIZE_def)
next
  case (2 insns_len ts hs n p offs)
  let ?b = "bytes @ ext" and ?t = "u16_at bytes (unat off + 6)"
  have t: "u16_at ?b (unat off + 6) = ?t"
    using code_item_insns_len_range [OF 2(3)] by (simp add: u16_at_def)
  have "try_ok ?b (insns_len div 2) offs (ts + i * 8)" if "i < ?t" for i
  proof -
    have "i * 8 + 8 \<le> ?t * 8" using that by simp
    then have "ts + i * 8 + 8 \<le> length bytes" using 2(6,7) by simp
    then show ?thesis using 2(10) that by (simp add: try_ok_append list_all_iff)
  qed
  then have tries: "list_all (\<lambda>i. try_ok ?b (insns_len div 2) offs (ts + i * 8)) [0..<?t]"
    by (simp add: list_all_iff)
  have "\<not> length ?b \<le> hs" using 2(7) by simp
  then show ?thesis
    using 2(1,2,4) t tries code_item_insns_len_append [OF 2(3), of ext] take_uleb_append [OF 2(8), of ext]
      handler_lists_append [OF 2(9), of ext]
    by (simp add: code_item_end_def CODE_ITEM_HEADER_SIZE_def Let_def 2(5,6))
qed

section \<open>Placing the code items\<close>

text \<open>The bytes a planned method brings along, and where they lie after placing.\<close>

definition item_bytes :: "u8 list \<Rightarrow> u32 \<Rightarrow> u8 list option" where
  "item_bytes dex off =
     (case code_item_end dex off of Inl _ \<Rightarrow> None
      | Inr stop \<Rightarrow> Some (take (stop - unat off) (drop (unat off) dex)))"

definition planned_item :: "u8 list \<Rightarrow> encoded_method \<Rightarrow> u8 list option" where
  "planned_item dex m =
     (case em_pending_code m of Some code \<Rightarrow> Some code
      | None \<Rightarrow> if em_code_off m = 0 then None else item_bytes dex (em_code_off m))"

definition has_code :: "u8 list \<Rightarrow> encoded_method \<Rightarrow> u8 list \<Rightarrow> bool" where
  "has_code dex m code \<longleftrightarrow> em_code_off m \<noteq> 0 \<and> unat (em_code_off m) mod 4 = 0 \<and>
     unat (em_code_off m) + length code \<le> length dex \<and>
     take (length code) (drop (unat (em_code_off m)) dex) = code"

definition placed :: "u8 list \<Rightarrow> u8 list \<Rightarrow> encoded_method \<Rightarrow> encoded_method \<Rightarrow> bool" where
  "placed dex dex' m m' \<longleftrightarrow> em_method_idx m' = em_method_idx m \<and>
     em_access_flags m' = em_access_flags m \<and> em_pending_code m' = None \<and>
     (em_pending_code m = None \<and> em_code_off m = 0 \<longrightarrow> em_code_off m' = 0) \<and>
     (\<forall>code. planned_item dex m = Some code \<longrightarrow>
        has_code dex' m' code \<and> length dex \<le> unat (em_code_off m'))"

lemma item_bytes_append: "item_bytes dex off = Some code \<Longrightarrow> item_bytes (dex @ ext) off = Some code"
proof -
  assume "item_bytes dex off = Some code"
  then obtain stop where stop: "code_item_end dex off = Inr stop"
    and code: "code = take (stop - unat off) (drop (unat off) dex)"
    by (auto simp: item_bytes_def split: sum.splits)
  from code_item_end_range [OF stop] show ?thesis
    by (simp add: item_bytes_def code_item_end_append [OF stop] code)
qed

lemma planned_item_append: "planned_item dex m = Some code \<Longrightarrow> planned_item (dex @ ext) m = Some code"
  by (auto simp: planned_item_def item_bytes_append split: option.splits if_splits)

lemma has_code_append: "has_code dex m code \<Longrightarrow> has_code (dex @ ext) m code"
  by (auto simp: has_code_def)

lemma placed_append:
  assumes "placed (dex @ ext1) dex' m m'"
  shows "placed dex (dex' @ ext2) m m'"
proof -
  have "has_code (dex' @ ext2) m' code \<and> length dex \<le> unat (em_code_off m')"
    if "planned_item dex m = Some code" for code
    using assms planned_item_append [OF that, of ext1] by (auto simp: placed_def intro: has_code_append)
  then show ?thesis using assms by (simp add: placed_def)
qed

lemma place_item:
  assumes "place_item m code st = Inr (m', st')" and "pl_dex st \<noteq> []"
  shows "\<exists>ext. pl_dex st' = pl_dex st @ ext" and "has_code (pl_dex st') m' code"
    and "length (pl_dex st) \<le> unat (em_code_off m')" and "em_method_idx m' = em_method_idx m" and "em_access_flags m' = em_access_flags m"
    and "em_pending_code m' = None"
proof -
  let ?d = "align_to (pl_dex st) 4"
  have small: "length ?d < 2 ^ 32"
    and m': "m' = m\<lparr>em_code_off := of_nat (length ?d), em_pending_code := None\<rparr>"
    and st': "pl_dex st' = ?d @ code"
    using assms(1) by (auto simp: place_item_def Let_def not_le split: if_splits)
  obtain pad where pad: "?d = pl_dex st @ pad" using align_to_prefix by blast
  then show "\<exists>ext. pl_dex st' = pl_dex st @ ext" by (simp add: st')
  have off: "unat (em_code_off m') = length ?d" using small by (simp add: m' count_back)
  show "length (pl_dex st) \<le> unat (em_code_off m')" by (simp add: off pad)
  have "length ?d mod 4 = 0" unfolding length_align_to by simp
  moreover have "length ?d \<noteq> 0" using assms(2) pad by simp
  then have "em_code_off m' \<noteq> 0" using off by (metis unsigned_0)
  ultimately show "has_code (pl_dex st') m' code" by (simp add: has_code_def off st')
qed (use assms in \<open>auto simp: place_item_def Let_def split: if_splits\<close>)

lemma place_method:
  assumes run: "place_method m st = Inr (m', st')" and ne: "pl_dex st \<noteq> []"
  shows "\<exists>ext. pl_dex st' = pl_dex st @ ext" and "placed (pl_dex st) (pl_dex st') m m'"
proof -
  have "(\<exists>ext. pl_dex st' = pl_dex st @ ext) \<and> placed (pl_dex st) (pl_dex st') m m'"
  proof (cases "em_pending_code m")
    case (Some code)
    then have r: "place_item m code (st\<lparr>pl_appended := pl_appended st + 1\<rparr>) = Inr (m', st')"
      using run by (simp add: place_method_def)
    from place_item [OF r] ne Some show ?thesis by (simp add: placed_def planned_item_def)
  next
    case None
    show ?thesis
    proof (cases "em_code_off m = 0")
      case True
      then have "m' = m" "st' = st" using run None by (simp_all add: place_method_def)
      with True None show ?thesis by (simp add: placed_def planned_item_def)
    next
      case False
      then obtain stop where stop: "code_item_end (pl_dex st) (em_code_off m) = Inr stop"
        and r: "place_item m (take (stop - unat (em_code_off m)) (drop (unat (em_code_off m)) (pl_dex st))) st
          = Inr (m', st')"
        using run None by (auto simp: place_method_def and_then_Inr)
      from place_item [OF r ne] None False stop show ?thesis
        by (simp add: placed_def planned_item_def item_bytes_def)
    qed
  qed
  then show "\<exists>ext. pl_dex st' = pl_dex st @ ext" and "placed (pl_dex st) (pl_dex st') m m'" by blast+
qed

lemma place_methods:
  "place_methods ms st = Inr (ms', st') \<Longrightarrow> pl_dex st \<noteq> [] \<Longrightarrow>
     (\<exists>ext. pl_dex st' = pl_dex st @ ext) \<and> list_all2 (placed (pl_dex st) (pl_dex st')) ms ms'"
proof (induction ms arbitrary: st ms')
  case (Cons m ms)
  from Cons.prems(1) obtain m1 st1 ms1 where m1: "place_method m st = Inr (m1, st1)"
    and rest: "place_methods ms st1 = Inr (ms1, st')" and ms': "ms' = m1 # ms1"
    by (auto simp: and_then_Inr)
  obtain ext1 where e1: "pl_dex st1 = pl_dex st @ ext1" using place_method(1) [OF m1 Cons.prems(2)] by blast
  then have "pl_dex st1 \<noteq> []" using Cons.prems(2) by simp
  from Cons.IH [OF rest this] obtain ext2 where e2: "pl_dex st' = pl_dex st1 @ ext2"
    and all: "list_all2 (placed (pl_dex st1) (pl_dex st')) ms ms1" by blast
  have "list_all2 (placed (pl_dex st) (pl_dex st')) ms ms1"
    using all by (rule list_all2_mono) (use placed_append [where ?ext2.0 = "[]"] in \<open>simp add: e1\<close>)
  moreover have "placed (pl_dex st) (pl_dex st') m m1"
    using placed_append [where ?ext1.0 = "[]"] place_method(2) [OF m1 Cons.prems(2)] by (simp add: e2)
  ultimately show ?case by (simp add: ms' e1 e2)
qed simp

text \<open>A placed class: the same fields, every method placed.\<close>

definition class_placed :: "u8 list \<Rightarrow> u8 list \<Rightarrow> class_data \<Rightarrow> class_data \<Rightarrow> bool" where
  "class_placed dex dex' cd cd' \<longleftrightarrow> cd_static_fields cd' = cd_static_fields cd \<and>
     cd_instance_fields cd' = cd_instance_fields cd \<and>
     list_all2 (placed dex dex') (cd_direct_methods cd) (cd_direct_methods cd') \<and>
     list_all2 (placed dex dex') (cd_virtual_methods cd) (cd_virtual_methods cd')"

lemma list_all2_placed_append:
  "list_all2 (placed (dex @ ext1) dex') ms ms' \<Longrightarrow> list_all2 (placed dex (dex' @ ext2)) ms ms'"
  by (erule list_all2_mono) (rule placed_append)

lemma class_placed_append:
  "class_placed (dex @ ext1) dex' cd cd' \<Longrightarrow> class_placed dex (dex' @ ext2) cd cd'"
  unfolding class_placed_def by (blast intro: list_all2_placed_append)

lemma place_classes:
  "place_classes planned st = Inr (planned', st') \<Longrightarrow> pl_dex st \<noteq> [] \<Longrightarrow>
     (\<exists>ext. pl_dex st' = pl_dex st @ ext) \<and>
     list_all2 (\<lambda>(off, cd) (off', cd'). off' = off \<and> class_placed (pl_dex st) (pl_dex st') cd cd')
       planned planned'"
proof (induction planned arbitrary: st planned')
  case (Cons c planned)
  obtain off cd where c: "c = (off, cd)" by (cases c)
  from Cons.prems(1) obtain direct st1 virtual st2 rest' where
    d: "place_methods (cd_direct_methods cd) st = Inr (direct, st1)"
    and v: "place_methods (cd_virtual_methods cd) st1 = Inr (virtual, st2)"
    and rest: "place_classes planned st2 = Inr (rest', st')"
    and p': "planned' = (off, cd\<lparr>cd_direct_methods := direct, cd_virtual_methods := virtual\<rparr>) # rest'"
    by (auto simp: c and_then_Inr)
  from place_methods [OF d Cons.prems(2)] obtain e1 where e1: "pl_dex st1 = pl_dex st @ e1"
    and all1: "list_all2 (placed (pl_dex st) (pl_dex st1)) (cd_direct_methods cd) direct" by blast
  have "pl_dex st1 \<noteq> []" using e1 Cons.prems(2) by simp
  from place_methods [OF v this] obtain e2 where e2: "pl_dex st2 = pl_dex st1 @ e2"
    and all2: "list_all2 (placed (pl_dex st1) (pl_dex st2)) (cd_virtual_methods cd) virtual" by blast
  have "pl_dex st2 \<noteq> []" using e1 e2 Cons.prems(2) by simp
  from Cons.IH [OF rest this] obtain e3 where e3: "pl_dex st' = pl_dex st2 @ e3"
    and all3: "list_all2 (\<lambda>(off, cd) (off', cd'). off' = off \<and>
      class_placed (pl_dex st2) (pl_dex st') cd cd') planned rest'" by blast
  have "list_all2 (placed (pl_dex st) (pl_dex st')) (cd_direct_methods cd) direct"
    using list_all2_placed_append [of "pl_dex st" "[]" "pl_dex st1" _ _ "e2 @ e3"] all1
    by (simp add: e2 e3)
  moreover have "list_all2 (placed (pl_dex st) (pl_dex st')) (cd_virtual_methods cd) virtual"
    using list_all2_placed_append [of "pl_dex st" e1 "pl_dex st2" _ _ e3] all2 by (simp add: e1 e3)
  moreover have "list_all2 (\<lambda>(off, cd) (off', cd'). off' = off \<and>
      class_placed (pl_dex st) (pl_dex st') cd cd') planned rest'"
    using all3 by (rule list_all2_mono)
      (use class_placed_append [of "pl_dex st" "e1 @ e2" "pl_dex st'" _ _ "[]"] in \<open>auto simp: e1 e2\<close>)
  ultimately show ?case by (simp add: p' c class_placed_def e1 e2 e3)
qed simp

end
