(* ===== verification/Relocation.thy ===== *)
theory Relocation
  imports Repair_Facts
begin

text \<open>
  The second half of the relocation: the class data goes behind the code items, the class
  definitions are pointed to it, and the retired sections are cleared; with the plan this gives
  the specification of \<^verbatim>\<open>append_missing_code_items\<close>.
\<close>

section \<open>Appending the class data\<close>

lemma range_eqI:
  assumes "\<And>i. a \<le> i \<Longrightarrow> i < a + n \<Longrightarrow> xs ! i = ys ! i" and "a + n \<le> length xs" and "a + n \<le> length ys"
  shows "take n (drop a xs) = take n (drop a ys)"
  by (rule nth_equalityI) (use assms in auto)

definition class_field :: "nat \<Rightarrow> nat set" where
  "class_field off = {off + 24 ..< off + 28}"

definition has_class_data :: "u8 list \<Rightarrow> nat \<Rightarrow> nat \<Rightarrow> class_data \<Rightarrow> bool" where
  "has_class_data dex low off cd \<longleftrightarrow>
     low \<le> unat (hdr_le32 dex (off + 24)) \<and> unat (hdr_le32 dex (off + 24)) \<le> length dex \<and>
     (\<exists>rest. drop (unat (hdr_le32 dex (off + 24))) dex = encode_class_data cd @ rest)"

lemma append_class_data:
  assumes "append_class_data planned dex = Inr dex'"
    and "sorted_wrt (\<lambda>a b. fst a + 32 \<le> fst b) planned"
    and "\<forall>c\<in>set planned. fst c + 32 \<le> length dex"
  shows "length dex \<le> length dex'"
    and "\<And>i. i < length dex \<Longrightarrow> \<forall>c\<in>set planned. i \<notin> class_field (fst c) \<Longrightarrow> dex' ! i = dex ! i"
    and "\<And>off cd. (off, cd) \<in> set planned \<Longrightarrow> has_class_data dex' (length dex) off cd"
proof -
  have "length dex \<le> length dex' \<and>
    (\<forall>i < length dex. (\<forall>c\<in>set planned. i \<notin> class_field (fst c)) \<longrightarrow> dex' ! i = dex ! i) \<and>
    (\<forall>(off, cd) \<in> set planned. has_class_data dex' (length dex) off cd)"
    using assms
  proof (induction planned arbitrary: dex)
    case (Cons c planned)
    obtain off cd where c: "c = (off, cd)" by (cases c)
    let ?cdo = "of_nat (length dex) :: u32"
    let ?d0 = "dex @ encode_class_data cd"
    let ?d1 = "splice ?d0 (off + 24) (le_bytes 4 ?cdo)"
    have small: "length dex < 2 ^ 32" and run: "append_class_data planned ?d1 = Inr dex'"
      using Cons.prems(1) by (auto simp: c not_le split: if_splits)
    have cdo: "unat ?cdo = length dex" using small by (simp add: count_back)
    have fits: "off + 32 \<le> length dex" using Cons.prems(3) by (simp add: c)
    have len1: "length ?d1 = length ?d0" by (rule length_splice) (use fits in simp)
    have later: "\<forall>b\<in>set planned. off + 32 \<le> fst b \<and> fst b + 32 \<le> length dex"
      using Cons.prems(2,3) by (auto simp: c)
    have IH: "length ?d1 \<le> length dex' \<and>
      (\<forall>i < length ?d1. (\<forall>c\<in>set planned. i \<notin> class_field (fst c)) \<longrightarrow> dex' ! i = ?d1 ! i) \<and>
      (\<forall>(off, cd) \<in> set planned. has_class_data dex' (length ?d1) off cd)"
      by (rule Cons.IH [OF run]) (use Cons.prems(2) later len1 in \<open>auto simp: c\<close>)
    then have len: "length ?d0 \<le> length dex'" unfolding len1 by blast
    have same: "dex' ! i = ?d1 ! i" if "i < length ?d0" "\<forall>c\<in>set planned. i \<notin> class_field (fst c)" for i
      using IH that unfolding len1 by blast
    have field: "hdr_le32 dex' (off + 24) = ?cdo"
    proof -
      have "take 4 (drop (off + 24) dex') = take 4 (drop (off + 24) ?d1)"
      proof (rule range_eqI)
        fix i assume "off + 24 \<le> i" "i < off + 24 + 4"
        then show "dex' ! i = ?d1 ! i"
          using later fits by (intro same) (auto simp: class_field_def)
      qed (use len len1 fits in auto)
      also have "\<dots> = le_bytes 4 ?cdo" by (rule splice_read) (use fits in simp_all)
      finally show ?thesis by (simp add: hdr_le32_def)
    qed
    have body: "take (length (encode_class_data cd)) (drop (length dex) dex') = encode_class_data cd"
    proof -
      have "take (length (encode_class_data cd)) (drop (length dex) dex') =
          take (length (encode_class_data cd)) (drop (length dex) ?d1)"
      proof (rule range_eqI)
        fix i assume "length dex \<le> i" "i < length dex + length (encode_class_data cd)"
        then show "dex' ! i = ?d1 ! i"
          using later by (intro same) (auto simp: class_field_def)
      qed (use len len1 in auto)
      also have "\<dots> = take (length (encode_class_data cd)) (drop (length dex) ?d0)"
        by (subst splice_drop) (use fits in simp_all)
      finally show ?thesis by simp
    qed
    have "has_class_data dex' (length dex) off cd"
      unfolding has_class_data_def field cdo
    proof (intro conjI exI)
      show "length dex \<le> length dex'" using len by simp
      show "drop (length dex) dex' =
          encode_class_data cd @ drop (length (encode_class_data cd)) (drop (length dex) dex')"
        using append_take_drop_id [of "length (encode_class_data cd)" "drop (length dex) dex'"]
        unfolding body by (rule sym)
    qed simp
    moreover have "has_class_data dex' (length dex) o' c'" if "(o', c') \<in> set planned" for o' c'
      using IH that len1 by (fastforce simp: has_class_data_def)
    moreover have "dex' ! i = dex ! i" if "i < length dex" "i \<notin> class_field off"
      "\<forall>c\<in>set planned. i \<notin> class_field (fst c)" for i
    proof -
      have "dex' ! i = ?d1 ! i" by (rule same) (use that in auto)
      also have "\<dots> = dex ! i"
        using that fits by (auto simp: nth_splice nth_append class_field_def)
      finally show ?thesis .
    qed
    ultimately show ?case using len by (auto simp: c)
  qed simp
  then show "length dex \<le> length dex'"
    and "\<And>i. i < length dex \<Longrightarrow> \<forall>c\<in>set planned. i \<notin> class_field (fst c) \<Longrightarrow> dex' ! i = dex ! i"
    and "\<And>off cd. (off, cd) \<in> set planned \<Longrightarrow> has_class_data dex' (length dex) off cd"
    by auto
qed

section \<open>Clearing the retired sections\<close>

lemma fold_retire:
  assumes "list_all (\<lambda>(start, stop). start \<le> stop \<and> stop \<le> low) ranges" and "low \<le> length dex"
  shows "length (fold retire ranges dex) = length dex"
    and "drop low (fold retire ranges dex) = drop low dex"
    and "\<And>i. i < length dex \<Longrightarrow> list_all (\<lambda>(start, stop). i \<notin> {start..<stop}) ranges \<Longrightarrow>
      fold retire ranges dex ! i = dex ! i"
proof -
  have "length (fold retire ranges dex) = length dex \<and>
    drop low (fold retire ranges dex) = drop low dex \<and>
    (\<forall>i < length dex. list_all (\<lambda>(start, stop). i \<notin> {start..<stop}) ranges \<longrightarrow>
      fold retire ranges dex ! i = dex ! i)"
    using assms
  proof (induction ranges arbitrary: dex)
    case (Cons r ranges)
    obtain start stop where r: "r = (start, stop)" by (cases r)
    from Cons.prems have le: "start \<le> stop" "stop \<le> low" by (simp_all add: r)
    have len: "length (retire r dex) = length dex"
      unfolding r retire_def by (simp, rule length_splice) (use le Cons.prems in simp)
    have low: "drop low (retire r dex) = drop low dex"
      unfolding r retire_def prod.case by (rule splice_drop) (use le Cons.prems in simp_all)
    have nth: "retire r dex ! i = dex ! i" if "i < length dex" "i \<notin> {start..<stop}" for i
      unfolding r retire_def using that le Cons.prems by (auto simp: nth_splice)
    have "length (fold retire ranges (retire r dex)) = length (retire r dex) \<and>
      drop low (fold retire ranges (retire r dex)) = drop low (retire r dex) \<and>
      (\<forall>i < length (retire r dex). list_all (\<lambda>(start, stop). i \<notin> {start..<stop}) ranges \<longrightarrow>
        fold retire ranges (retire r dex) ! i = retire r dex ! i)"
      by (rule Cons.IH) (use Cons.prems len in \<open>simp_all add: r\<close>)
    then show ?case using len low nth by (simp add: r)
  qed simp
  then show "length (fold retire ranges dex) = length dex"
    and "drop low (fold retire ranges dex) = drop low dex"
    and "\<And>i. i < length dex \<Longrightarrow> list_all (\<lambda>(start, stop). i \<notin> {start..<stop}) ranges \<Longrightarrow>
      fold retire ranges dex ! i = dex ! i" by auto
qed

lemma retired_ranges_bounds:
  "retired_ranges entries len es = Inr ranges \<Longrightarrow>
     list_all (\<lambda>(start, stop). start \<le> stop \<and> stop \<le> len) ranges"
  by (induction entries len es arbitrary: ranges rule: retired_ranges.induct)
    (auto simp: and_then_Inr Let_def split: if_splits)

lemma retired_ranges_set:
  "retired_ranges entries len es = Inr ranges \<Longrightarrow> set ranges =
     {(unat (mp_off e), section_end entries (mp_off e) len) | e. e \<in> set es \<and>
        (mp_typ e = 0x2000 \<or> mp_typ e = 0x2001)}"
  by (induction entries len es arbitrary: ranges rule: retired_ranges.induct)
    (auto simp: and_then_Inr Let_def split: if_splits)

section \<open>The plan\<close>

definition concrete :: "encoded_method \<Rightarrow> bool" where
  "concrete m \<longleftrightarrow> em_access_flags m AND (ACC_NATIVE OR ACC_ABSTRACT) = 0"

text \<open>The code item a concrete method should have in the repaired file.\<close>

definition body_for ::
  "libs \<Rightarrow> dex_parser \<Rightarrow> method_code_record list \<Rightarrow> fix_options \<Rightarrow> encoded_method \<Rightarrow> u8 list option" where
  "body_for lb p records opts m =
     (let on_disk = code_item_insns_len (dp_data p) (em_code_off m);
          original = item_bytes (dp_data p) (em_code_off m)
      in case by_method records (em_method_idx m) of
           None \<Rightarrow> if on_disk = None then None else original
         | Some r \<Rightarrow>
             if on_disk = Some (length (utf8_bytes (mcr_code r)) div 2) then original
             else case synthesize_code_item lb p (em_method_idx m) (em_access_flags m) r opts of
                    Inl _ \<Rightarrow> None | Inr code \<Rightarrow> Some code)"

definition planned_as ::
  "libs \<Rightarrow> dex_parser \<Rightarrow> method_code_record list \<Rightarrow> fix_options \<Rightarrow> encoded_method \<Rightarrow> encoded_method \<Rightarrow> bool"
  where
  "planned_as lb p records opts m m' \<longleftrightarrow> em_method_idx m' = em_method_idx m \<and>
     em_access_flags m' = em_access_flags m \<and>
     (concrete m \<longrightarrow> planned_item (dp_data p) m' = body_for lb p records opts m \<and>
        (body_for lb p records opts m = None \<longrightarrow> em_pending_code m' = None \<and> em_code_off m' = 0))"

lemma plan_method:
  assumes run: "plan_method lb p records opts m out1 = Inr (m', t, out2)"
    and none: "em_pending_code m = None" and ok: "ao_failed out2 = 0"
  shows "ao_failed out1 = 0" and "planned_as lb p records opts m m'"
proof -
  have "ao_failed out1 = 0 \<and> planned_as lb p records opts m m'"
  proof (cases "concrete m")
    case False
    then have "m' = m" "out2 = out1" using run by (auto simp: plan_method_def concrete_def)
    with False ok show ?thesis by (simp add: planned_as_def)
  next
    case True
    let ?dex = "dp_data p"
    let ?on_disk = "code_item_insns_len ?dex (em_code_off m)"
    have stop: "?on_disk = None \<or> (\<exists>stop. code_item_end ?dex (em_code_off m) = Inr stop)"
      and rest: "(case by_method records (em_method_idx m) of
           None \<Rightarrow>
             if ?on_disk = None
             then Inr (m\<lparr>em_code_off := 0\<rparr>, True, out1\<lparr>ao_unrecovered := ao_unrecovered out1 + 1\<rparr>)
             else Inr (m, False, out1)
         | Some record \<Rightarrow>
             if ?on_disk = Some (length (utf8_bytes (mcr_code record)) div 2) then Inr (m, False, out1)
             else case synthesize_code_item lb p (em_method_idx m) (em_access_flags m) record opts of
                    Inr code_item \<Rightarrow> Inr (m\<lparr>em_pending_code := Some code_item\<rparr>, True, out1)
                  | Inl err \<Rightarrow> Inr (m, False, record_failure err out1)) =
        (Inr (m', t, out2) :: fix_error + (encoded_method \<times> bool \<times> append_outcome))"
      using run True by (auto simp: plan_method_def concrete_def Let_def and_then_Inr split: if_splits)
    have item: "planned_item ?dex m = item_bytes ?dex (em_code_off m) \<and>
        item_bytes ?dex (em_code_off m) \<noteq> None" if "?on_disk \<noteq> None"
      using stop that none code_item_insns_len_range [of ?dex "em_code_off m"]
      by (auto simp: planned_item_def item_bytes_def)
    show ?thesis
    proof (cases "by_method records (em_method_idx m)")
      case None
      with rest ok none item show ?thesis
        by (auto simp: planned_as_def body_for_def Let_def planned_item_def split: if_splits)
    next
      case (Some r)
      show ?thesis
      proof (cases "?on_disk = Some (length (utf8_bytes (mcr_code r)) div 2)")
        case True
        with rest ok item Some show ?thesis by (auto simp: planned_as_def body_for_def Let_def)
      next
        case False
        with rest ok Some show ?thesis
          by (auto simp: planned_as_def body_for_def Let_def planned_item_def record_failure_def
              split: sum.splits)
      qed
    qed
  qed
  then show "ao_failed out1 = 0" and "planned_as lb p records opts m m'" by blast+
qed

lemma plan_methods:
  "plan_methods lb p records opts ms out1 = Inr (ms', t, out2) \<Longrightarrow>
     list_all (\<lambda>m. em_pending_code m = None) ms \<Longrightarrow> ao_failed out2 = 0 \<Longrightarrow>
     ao_failed out1 = 0 \<and> list_all2 (planned_as lb p records opts) ms ms'"
proof (induction ms arbitrary: out1 ms' t)
  case (Cons m ms)
  from Cons.prems(1) obtain m1 t1 o1 ms1 t2 where one: "plan_method lb p records opts m out1 = Inr (m1, t1, o1)"
    and rest: "plan_methods lb p records opts ms o1 = Inr (ms1, t2, out2)" and ms': "ms' = m1 # ms1"
    unfolding plan_methods.simps and_then_Inr split_paired_Ex prod.case by blast
  from Cons.IH [OF rest] Cons.prems(2,3) have "ao_failed o1 = 0"
    and "list_all2 (planned_as lb p records opts) ms ms1" by simp_all
  with plan_method [OF one] Cons.prems(2) show ?case by (simp add: ms')
qed simp

definition class_planned ::
  "libs \<Rightarrow> dex_parser \<Rightarrow> method_code_record list \<Rightarrow> fix_options \<Rightarrow> class_data \<Rightarrow> class_data \<Rightarrow> bool" where
  "class_planned lb p records opts cd cd' \<longleftrightarrow> cd_static_fields cd' = cd_static_fields cd \<and>
     cd_instance_fields cd' = cd_instance_fields cd \<and>
     list_all2 (planned_as lb p records opts) (cd_direct_methods cd) (cd_direct_methods cd') \<and>
     list_all2 (planned_as lb p records opts) (cd_virtual_methods cd) (cd_virtual_methods cd')"

text \<open>Every class of the table that has data is planned, and the plan is in table order.\<close>

definition table_planned ::
  "libs \<Rightarrow> dex_parser \<Rightarrow> method_code_record list \<Rightarrow> fix_options \<Rightarrow> nat \<Rightarrow> nat \<Rightarrow>
     (nat \<times> class_data) list \<Rightarrow> bool" where
  "table_planned lb p records opts off n planned \<longleftrightarrow>
     sorted_wrt (\<lambda>a b. fst a + 32 \<le> fst b) planned \<and>
     (\<forall>c\<in>set planned. off \<le> fst c \<and> fst c + 32 \<le> off + 32 * n \<and>
        hdr_le32 (dp_data p) (fst c + 24) \<noteq> 0 \<and>
        (\<exists>cd. parse_class_data (dp_data p) (hdr_le32 (dp_data p) (fst c + 24)) = Inr cd \<and>
           class_data_ok cd \<and> class_planned lb p records opts cd (snd c))) \<and>
     (\<forall>i<n. hdr_le32 (dp_data p) (off + 32 * i + 24) \<noteq> 0 \<longrightarrow> off + 32 * i \<in> fst ` set planned)"

lemma parse_class_data_Inr:
  "parse_class_data bytes off = Inr cd \<Longrightarrow> class_data_ok cd"
  by (auto simp: parse_class_data_def and_then_Inr dest: parse_class_data_ok)

lemma plan_classes:
  "plan_classes lb p records opts off n out1 = Inr (planned, t, out2) \<Longrightarrow>
     off + 32 * n \<le> length (dp_data p) \<Longrightarrow> ao_failed out2 = 0 \<Longrightarrow>
     ao_failed out1 = 0 \<and> table_planned lb p records opts off n planned"
proof (induction n arbitrary: off out1 planned t)
  case (Suc n)
  let ?dex = "dp_data p"
  let ?cdo = "hdr_le32 ?dex (off + 24)"
  have get: "slice_get ?dex off (off + 32) = Some (take 32 (drop off ?dex))"
    using Suc.prems(2) by (simp add: slice_get_def)
  have cdo: "hdr_le32 (take 32 (drop off ?dex)) 24 = ?cdo"
    by (simp add: hdr_le32_def drop_take add.commute)
  have split: "(\<forall>i < Suc n. P (off + 32 * i)) \<longleftrightarrow> P off \<and> (\<forall>i < n. P (off + 32 + 32 * i))" for P
    by (simp add: All_less_Suc2 algebra_simps)
  show ?case
  proof (cases "?cdo = 0")
    case True
    with Suc.prems(1) have "plan_classes lb p records opts (off + 32) n out1 = Inr (planned, t, out2)"
      by (simp add: get cdo CLASS_DEF_SIZE_def)
    from Suc.IH [OF this] Suc.prems(2,3) True show ?thesis
      unfolding table_planned_def
      by (subst split [of "\<lambda>d. hdr_le32 ?dex (d + 24) \<noteq> 0 \<longrightarrow> d \<in> fst ` set planned"]) auto
  next
    case False
    then have "and_then (parse_class_data ?dex ?cdo) (\<lambda>cd.
        and_then (plan_methods lb p records opts (cd_direct_methods cd) out1) (\<lambda>(direct, t1, out2).
        and_then (plan_methods lb p records opts (cd_virtual_methods cd) out2) (\<lambda>(virtual, t2, out3).
        and_then (plan_classes lb p records opts (off + 32) n out3) (\<lambda>(planned, t3, out4).
          Inr ((off, cd\<lparr>cd_direct_methods := direct, cd_virtual_methods := virtual\<rparr>) # planned,
               t1 \<or> t2 \<or> t3, out4))))) = Inr (planned, t, out2)"
      using Suc.prems(1) by (simp add: get cdo CLASS_DEF_SIZE_def Let_def)
    then obtain cd direct t1 o1 virtual t2 o2 rest t3 where
      cd: "parse_class_data ?dex ?cdo = Inr cd"
      and d: "plan_methods lb p records opts (cd_direct_methods cd) out1 = Inr (direct, t1, o1)"
      and v: "plan_methods lb p records opts (cd_virtual_methods cd) o1 = Inr (virtual, t2, o2)"
      and r: "plan_classes lb p records opts (off + 32) n o2 = Inr (rest, t3, out2)"
      and planned: "planned = (off, cd\<lparr>cd_direct_methods := direct, cd_virtual_methods := virtual\<rparr>) # rest"
      unfolding and_then_Inr split_paired_Ex prod.case by blast
    from Suc.IH [OF r] Suc.prems(2,3) have o2: "ao_failed o2 = 0"
      and tail: "table_planned lb p records opts (off + 32) n rest" by auto
    have ok: "class_data_ok cd" by (rule parse_class_data_Inr [OF cd])
    then have pend: "list_all (\<lambda>m. em_pending_code m = None) (cd_direct_methods cd)"
      "list_all (\<lambda>m. em_pending_code m = None) (cd_virtual_methods cd)"
      by (simp_all add: class_data_ok_def)
    from plan_methods [OF v pend(2) o2] have o1: "ao_failed o1 = 0"
      and vs: "list_all2 (planned_as lb p records opts) (cd_virtual_methods cd) virtual" by blast+
    from plan_methods [OF d pend(1) o1] have o0: "ao_failed out1 = 0"
      and ds: "list_all2 (planned_as lb p records opts) (cd_direct_methods cd) direct" by blast+
    have "class_planned lb p records opts cd
        (cd\<lparr>cd_direct_methods := direct, cd_virtual_methods := virtual\<rparr>)"
      using vs ds by (simp add: class_planned_def)
    with o0 ok cd False tail show ?thesis
      unfolding table_planned_def
      by (subst split [of "\<lambda>d. hdr_le32 ?dex (d + 24) \<noteq> 0 \<longrightarrow> d \<in> fst ` set planned"])
        (auto simp: planned)
  qed
qed (auto simp: table_planned_def)

end
