(* ===== verification/Relocated.thy ===== *)
theory Relocated
  imports Relocation
begin

section \<open>The relocated file\<close>

text \<open>What becomes of a method: the same method, with the body it should have, if any.\<close>

definition method_rebuilt ::
  "libs \<Rightarrow> dex_parser \<Rightarrow> method_code_record list \<Rightarrow> fix_options \<Rightarrow> u8 list \<Rightarrow>
     encoded_method \<Rightarrow> encoded_method \<Rightarrow> bool" where
  "method_rebuilt lb p records opts dex' m m' \<longleftrightarrow> em_method_idx m' = em_method_idx m \<and>
     em_access_flags m' = em_access_flags m \<and>
     (concrete m \<longrightarrow> (case body_for lb p records opts m of
        None \<Rightarrow> em_code_off m' = 0
      | Some code \<Rightarrow> has_code dex' m' code))"

definition class_rebuilt ::
  "libs \<Rightarrow> dex_parser \<Rightarrow> method_code_record list \<Rightarrow> fix_options \<Rightarrow> u8 list \<Rightarrow> class_data \<Rightarrow> class_data \<Rightarrow> bool"
  where
  "class_rebuilt lb p records opts dex' cd cd' \<longleftrightarrow>
     cd_static_fields cd' = cd_static_fields cd \<and> cd_instance_fields cd' = cd_instance_fields cd \<and>
     list_all2 (method_rebuilt lb p records opts dex') (cd_direct_methods cd) (cd_direct_methods cd') \<and>
     list_all2 (method_rebuilt lb p records opts dex') (cd_virtual_methods cd) (cd_virtual_methods cd')"

text \<open>The bytes from \<^term>\<open>low\<close> on are those of an earlier version.\<close>

definition kept_from :: "nat \<Rightarrow> u8 list \<Rightarrow> u8 list \<Rightarrow> bool" where
  "kept_from low dex dex' \<longleftrightarrow> length dex \<le> length dex' \<and>
     (\<forall>i. low \<le> i \<and> i < length dex \<longrightarrow> dex' ! i = dex ! i)"

lemma has_code_kept:
  assumes "kept_from low dex dex'" and "has_code dex m code" and "low \<le> unat (em_code_off m)"
  shows "has_code dex' m code"
proof -
  have "take (length code) (drop (unat (em_code_off m)) dex') =
      take (length code) (drop (unat (em_code_off m)) dex)"
    by (rule range_eqI) (use assms in \<open>auto simp: kept_from_def has_code_def\<close>)
  then show ?thesis using assms(1,2) by (auto simp: kept_from_def has_code_def)
qed

lemma planned_placed:
  assumes plan: "planned_as lb p records opts m m1" and place: "placed (dp_data p) dex m1 m2"
    and kept: "kept_from (length (dp_data p)) dex dex'"
  shows "method_rebuilt lb p records opts dex' m m2"
proof -
  have "has_code dex' m2 code" if "planned_item (dp_data p) m1 = Some code" for code
    using place that has_code_kept [OF kept] by (auto simp: placed_def)
  with plan place show ?thesis
    by (auto simp: method_rebuilt_def planned_as_def placed_def split: option.split)
qed

lemma planned_placed_list:
  assumes "list_all2 (planned_as lb p records opts) ms ms1" and "list_all2 (placed (dp_data p) dex) ms1 ms2"
    and "kept_from (length (dp_data p)) dex dex'"
  shows "list_all2 (method_rebuilt lb p records opts dex') ms ms2"
    and "map em_method_idx ms2 = map em_method_idx ms" and "length ms2 = length ms"
    and "list_all (\<lambda>m. em_pending_code m = None) ms2"
proof -
  show rebuilt: "list_all2 (method_rebuilt lb p records opts dex') ms ms2"
    by (rule list_all2_trans [OF _ assms(1,2)]) (rule planned_placed [OF _ _ assms(3)])
  show "length ms2 = length ms" using rebuilt by (simp add: list_all2_lengthD)
  with rebuilt show "map em_method_idx ms2 = map em_method_idx ms"
    by (intro nth_equalityI) (auto simp: list_all2_conv_all_nth method_rebuilt_def)
  show "list_all (\<lambda>m. em_pending_code m = None) ms2"
    using assms(2) by (auto simp: list_all2_conv_all_nth list_all_length placed_def)
qed

lemma class_planned_placed:
  assumes "class_planned lb p records opts cd cd1" and "class_placed (dp_data p) dex cd1 cd2"
    and "kept_from (length (dp_data p)) dex dex'" and "class_data_ok cd"
  shows "class_rebuilt lb p records opts dex' cd cd2" and "class_data_ok cd2"
proof -
  note d = planned_placed_list [of lb p records opts "cd_direct_methods cd" "cd_direct_methods cd1" dex
      "cd_direct_methods cd2" dex']
  note v = planned_placed_list [of lb p records opts "cd_virtual_methods cd" "cd_virtual_methods cd1" dex
      "cd_virtual_methods cd2" dex']
  show "class_rebuilt lb p records opts dex' cd cd2"
    using assms d(1) v(1) by (simp add: class_rebuilt_def class_planned_def class_placed_def)
  show "class_data_ok cd2"
    using assms d(2-4) v(2-4) by (simp add: class_data_ok_def class_planned_def class_placed_def)
qed

lemma parse_has_class_data:
  "has_class_data dex low off cd \<Longrightarrow> class_data_ok cd \<Longrightarrow>
     parse_class_data dex (hdr_le32 dex (off + 24)) = Inr cd"
  unfolding has_class_data_def parse_class_data_def using parse_encode_class_data by fastforce

lemma relocate_cases:
  assumes "relocate planned out1 dex = Inr (out2, dex')"
  obtains es ranges planned1 st dex2 where "read_map_entries dex = Inr es"
    and "retired_ranges es (length dex) es = Inr ranges"
    and "place_classes planned \<lparr>pl_dex = dex,
      pl_code_map = \<lparr>mp_typ = 0x2001, mp_size = 0, mp_off = 0\<rparr>, pl_appended = 0\<rparr> = Inr (planned1, st)"
    and "append_class_data planned1 (pl_dex st) = Inr dex2"
    and "dex' = fold retire ranges dex2" and "ao_failed out2 = ao_failed out1"
    and "ao_relocated out2 = Some [pl_code_map st,
      \<lparr>mp_typ = 0x2000, mp_size = of_nat (length planned1), mp_off = of_nat (length (pl_dex st))\<rparr>]"
  using assms by (auto simp: relocate_def and_then_Inr Let_def split: if_splits)

text \<open>
  One class of the relocation: its definition points to a class data item with the placed methods,
  and what lies behind the old end of the file survives the clearing of the retired sections.
\<close>

lemma relocated_class:
  assumes run: "relocate planned out1 dex = Inr (out2, dex')" and ne: "dex \<noteq> []"
    and order: "sorted_wrt (\<lambda>a b. fst a + 32 \<le> fst b) planned"
    and inside: "\<forall>c\<in>set planned. fst c + 32 \<le> length dex"
    and es: "read_map_entries dex = Inr es"
    and apart: "\<forall>e\<in>set es. mp_typ e = 0x2000 \<or> mp_typ e = 0x2001 \<longrightarrow>
      section_end es (mp_off e) (length dex) \<le> off + 24 \<or> off + 28 \<le> unat (mp_off e)"
    and c: "(off, cd) \<in> set planned"
  shows "\<exists>dex1 cd'. kept_from (length dex) dex1 dex' \<and> class_placed dex dex1 cd cd' \<and>
    has_class_data dex' (length dex) off cd'"
proof -
  obtain ranges planned1 st dex2 where ranges: "retired_ranges es (length dex) es = Inr ranges"
    and place: "place_classes planned \<lparr>pl_dex = dex,
      pl_code_map = \<lparr>mp_typ = 0x2001, mp_size = 0, mp_off = 0\<rparr>, pl_appended = 0\<rparr> = Inr (planned1, st)"
    and app: "append_class_data planned1 (pl_dex st) = Inr dex2"
    and dex': "dex' = fold retire ranges dex2"
    using relocate_cases [OF run] es by (metis sum.inject(2))
  from place_classes [OF place] ne obtain ext where ext: "pl_dex st = dex @ ext"
    and all: "list_all2 (\<lambda>(off, cd) (off', cd'). off' = off \<and> class_placed dex (pl_dex st) cd cd')
       planned planned1" by auto
  have fsts: "map fst planned1 = map fst planned"
    using all by (intro nth_equalityI) (auto simp: list_all2_conv_all_nth split_beta)
  have order1: "sorted_wrt (\<lambda>a b. fst a + 32 \<le> fst b) planned1"
    using order fsts sorted_wrt_map [of "\<lambda>a b. a + 32 \<le> b" fst planned]
      sorted_wrt_map [of "\<lambda>a b. a + 32 \<le> b" fst planned1] by simp
  have "fst ` set planned1 = fst ` set planned" using fsts by (metis list.set_map)
  then have old: "fst c + 32 \<le> length dex" if "c \<in> set planned1" for c
    using inside that by (metis (no_types, lifting) image_iff)
  then have inside1: "\<forall>c\<in>set planned1. fst c + 32 \<le> length (pl_dex st)"
    unfolding ext length_append by (blast intro: trans_le_add1)
  note data = append_class_data [OF app order1 inside1]
  from c obtain i where i: "i < length planned" "planned ! i = (off, cd)" by (auto simp: in_set_conv_nth)
  define cd' where "cd' = snd (planned1 ! i)"
  have c': "(off, cd') \<in> set planned1" and pc: "class_placed dex (pl_dex st) cd cd'"
    using all i by (auto simp: list_all2_conv_all_nth cd'_def split_beta in_set_conv_nth)
      (metis prod.collapse fst_conv)
  from data(1) have longer: "length dex \<le> length dex2" by (simp add: ext)
  note cleared = fold_retire [OF retired_ranges_bounds [OF ranges] longer, folded dex']
  have beyond: "dex' ! j = dex2 ! j" if "length dex \<le> j" "j < length dex2" for j
    using cleared(2) that by (metis (no_types) le_add_diff_inverse nth_drop cleared(1) less_imp_le_nat order.trans)
  have "kept_from (length dex) (pl_dex st) dex'"
    unfolding kept_from_def
  proof (intro conjI allI impI)
    show "length (pl_dex st) \<le> length dex'" using cleared(1) data(1) by simp
    fix j assume j: "length dex \<le> j \<and> j < length (pl_dex st)"
    have "dex2 ! j = pl_dex st ! j"
      by (rule data(2)) (use j old in \<open>fastforce simp: class_field_def\<close>)+
    with beyond [of j] j data(1) show "dex' ! j = pl_dex st ! j" by simp
  qed
  moreover have "has_class_data dex' (length dex) off cd'"
  proof -
    have field: "hdr_le32 dex' (off + 24) = hdr_le32 dex2 (off + 24)"
      unfolding hdr_le32_def
    proof (rule arg_cong [where f = le_word], rule range_eqI)
      fix j assume j: "off + 24 \<le> j" "j < off + 24 + 4"
      show "dex' ! j = dex2 ! j"
      proof (rule cleared(3))
        show "j < length dex2" using j old [OF c'] longer by simp
        show "list_all (\<lambda>(start, stop). j \<notin> {start..<stop}) ranges"
          using apart j by (fastforce simp: list_all_iff retired_ranges_set [OF ranges])
      qed
    qed (use old [OF c'] longer cleared(1) in auto)
    let ?at = "unat (hdr_le32 dex2 (off + 24))"
    have at: "length (pl_dex st) \<le> ?at" using data(3) [OF c'] by (simp add: has_class_data_def)
    then have le: "length dex \<le> ?at" by (simp add: ext)
    then have "drop ?at dex' = drop ?at dex2"
      using cleared(2) by (metis drop_drop le_add_diff_inverse2)
    then show ?thesis
      using data(3) [OF c'] le cleared(1) by (simp add: has_class_data_def field)
  qed
  ultimately show ?thesis using pc by blast
qed

text \<open>The plan leaves the relocation to the second half.\<close>

lemma plan_method_relocated:
  "plan_method lb p records opts m out1 = Inr (m', t, out2) \<Longrightarrow> ao_relocated out2 = ao_relocated out1"
  by (auto simp: plan_method_def record_failure_def and_then_Inr Let_def
      split: if_splits option.splits sum.splits)

lemma plan_methods_relocated:
  "plan_methods lb p records opts ms out1 = Inr (ms', t, out2) \<Longrightarrow> ao_relocated out2 = ao_relocated out1"
proof (induction ms arbitrary: out1 ms' t)
  case (Cons m ms)
  then obtain m1 t1 o1 ms1 t2 where "plan_method lb p records opts m out1 = Inr (m1, t1, o1)"
    and "plan_methods lb p records opts ms o1 = Inr (ms1, t2, out2)"
    unfolding plan_methods.simps and_then_Inr split_paired_Ex prod.case by blast
  with Cons.IH plan_method_relocated show ?case by metis
qed simp

lemma plan_classes_relocated:
  "plan_classes lb p records opts off n out1 = Inr (planned, t, out2) \<Longrightarrow>
     ao_relocated out1 = r \<Longrightarrow> ao_relocated out2 = r"
proof (induction n arbitrary: off out1 planned t)
  case (Suc n)
  show ?case
  proof (cases "slice_get (dp_data p) off (off + CLASS_DEF_SIZE)")
    case None
    with Suc.prems show ?thesis by simp
  next
    case (Some class_def)
    show ?thesis
    proof (cases "hdr_le32 class_def 24 = 0")
      case True
      with Suc Some show ?thesis by (simp add: Let_def)
    next
      case False
      with Suc.prems(1) Some obtain cd :: class_data and direct t1 o1 virtual t2 o2 rest t3 where
        "plan_methods lb p records opts (cd_direct_methods cd) out1 = Inr (direct, t1, o1)"
        "plan_methods lb p records opts (cd_virtual_methods cd) o1 = Inr (virtual, t2, o2)"
        "plan_classes lb p records opts (off + CLASS_DEF_SIZE) n o2 = Inr (rest, t3, out2)"
        unfolding plan_classes.simps Some option.case Let_def if_not_P [OF False]
          and_then_Inr split_paired_Ex prod.case by blast
      with Suc.IH Suc.prems(2) plan_methods_relocated show ?thesis by metis
    qed
  qed
qed simp

text \<open>The specification of \<^verbatim>\<open>append_missing_code_items\<close> when it relocates.\<close>

lemma append_relocated:
  assumes run: "append_missing_code_items lb dex records opts = Inr (out1, dex')"
    and moved: "ao_relocated out1 \<noteq> None" and usable: "ao_failed out1 = 0"
    and h: "dex_parser_new dex = Inr h"
    and table: "unat (dh_class_defs_off h) + 32 * unat (dh_class_defs_size h) \<le> length dex"
    and es: "read_map_entries dex = Inr es"
    and i: "i < unat (dh_class_defs_size h)" and off: "off = unat (dh_class_defs_off h) + 32 * i"
    and data: "hdr_le32 dex (off + 24) \<noteq> 0"
    and apart: "\<forall>e\<in>set es. mp_typ e = 0x2000 \<or> mp_typ e = 0x2001 \<longrightarrow>
      section_end es (mp_off e) (length dex) \<le> off + 24 \<or> off + 28 \<le> unat (mp_off e)"
  shows "\<exists>cd cd'. parse_class_data dex (hdr_le32 dex (off + 24)) = Inr cd \<and>
    parse_class_data dex' (hdr_le32 dex' (off + 24)) = Inr cd' \<and>
    class_rebuilt lb \<lparr>dp_data = dex, dp_header = h\<rparr> records opts dex' cd cd'"
proof -
  let ?p = "\<lparr>dp_data = dex, dp_header = h\<rparr>"
  obtain planned t out0 where
    plan: "plan_classes lb ?p records opts (unat (dh_class_defs_off h)) (unat (dh_class_defs_size h))
      no_outcome = Inr (planned, t, out0)"
    and rest: "(if t then relocate planned out0 dex else Inr (out0, dex)) = Inr (out1, dex')"
    using run unfolding append_missing_code_items_def h sum.case and_then_Inr split_paired_Ex prod.case
    by blast
  have "ao_relocated out0 = None" by (rule plan_classes_relocated [OF plan]) (simp add: no_outcome_def)
  then have reloc: "relocate planned out0 dex = Inr (out1, dex')"
    using rest moved by (auto split: if_splits)
  have "ao_failed out0 = 0" using relocate_cases [OF reloc] usable by metis
  with plan_classes [OF plan] table have tab: "table_planned lb ?p records opts
      (unat (dh_class_defs_off h)) (unat (dh_class_defs_size h)) planned" by simp
  from h have ne: "dex \<noteq> []"
    by (auto simp: dex_parser_new_def parse_dex_header_def slice_get_def DEX_HEADER_LEN_def)
  from tab i data have "off \<in> fst ` set planned" by (simp add: table_planned_def off)
  then obtain cd1 where c: "(off, cd1) \<in> set planned" by force
  with tab obtain cd where cd: "parse_class_data dex (hdr_le32 dex (off + 24)) = Inr cd"
    and ok: "class_data_ok cd" and cp: "class_planned lb ?p records opts cd cd1"
    by (fastforce simp: table_planned_def)
  obtain dex1 cd' where kept: "kept_from (length dex) dex1 dex'"
    and pl: "class_placed dex dex1 cd1 cd'" and has: "has_class_data dex' (length dex) off cd'"
    using relocated_class [OF reloc ne _ _ es apart c] tab table by (fastforce simp: table_planned_def)
  note built = class_planned_placed [OF cp _ _ ok, of dex1 cd' dex']
  have "class_rebuilt lb ?p records opts dex' cd cd'" "class_data_ok cd'"
    using built pl kept by simp_all
  with cd parse_has_class_data [OF has] show ?thesis by blast
qed

end
