(* ===== verification/Repair_Result.thy ===== *)
theory Repair_Result
  imports Relocated
begin

text \<open>
  What a repair that reports success leaves behind: the validator visits every class and every
  method of the class table, so the file that is written has consistent bounds and checksums, an
  ordered map and complete code items. A repair without captures leaves a valid file as it is.
\<close>

section \<open>What the validator has seen\<close>

definition methods_ok :: "u8 list \<Rightarrow> u32 \<Rightarrow> encoded_method list \<Rightarrow> bool" where
  "methods_ok bytes method_ids_size ms \<longleftrightarrow>
     (\<forall>m\<in>set ms. em_method_idx m < method_ids_size \<and>
        (em_code_off m \<noteq> 0 \<longrightarrow> (\<exists>stop. code_item_end bytes (em_code_off m) = Inr stop)))"

definition class_table_ok :: "u8 list \<Rightarrow> u32 \<Rightarrow> nat \<Rightarrow> nat \<Rightarrow> bool" where
  "class_table_ok bytes method_ids_size at n \<longleftrightarrow>
     (\<forall>i<n. hdr_le32 bytes (at + 32 * i + 24) \<noteq> 0 \<longrightarrow>
        (\<exists>cd. parse_class_data bytes (hdr_le32 bytes (at + 32 * i + 24)) = Inr cd \<and>
           methods_ok bytes method_ids_size (class_methods cd)))"

lemma check_methods_ok: "check_methods bytes k ms codes = Inr codes' \<Longrightarrow> methods_ok bytes k ms"
proof (induction ms arbitrary: codes)
  case (Cons m ms)
  have "\<not> k \<le> em_method_idx m" using Cons.prems by (auto split: if_splits)
  then have k: "em_method_idx m < k" and step: "check_methods bytes k (m # ms) codes =
      (if em_code_off m \<noteq> 0
       then and_then (code_item_end bytes (em_code_off m)) (\<lambda>_.
              check_methods bytes k ms (List.insert (em_code_off m) codes))
       else check_methods bytes k ms codes)" by simp_all
  show ?case
  proof (cases "em_code_off m = 0")
    case True
    with step Cons.prems have "check_methods bytes k ms codes = Inr codes'" by simp
    from Cons.IH [OF this] k True show ?thesis by (simp add: methods_ok_def)
  next
    case False
    with step Cons.prems obtain stop where "code_item_end bytes (em_code_off m) = Inr stop"
      and "check_methods bytes k ms (List.insert (em_code_off m) codes) = Inr codes'"
      by (auto simp: and_then_Inr)
    with Cons.IH k show ?thesis by (auto simp: methods_ok_def)
  qed
qed (simp add: methods_ok_def)

lemma class_table_ok_Suc:
  "class_table_ok bytes k at (Suc n) \<longleftrightarrow>
     (hdr_le32 bytes (at + 24) \<noteq> 0 \<longrightarrow>
        (\<exists>cd. parse_class_data bytes (hdr_le32 bytes (at + 24)) = Inr cd \<and>
           methods_ok bytes k (class_methods cd))) \<and>
     class_table_ok bytes k (at + 32) n"
  by (simp add: class_table_ok_def All_less_Suc2 algebra_simps)

lemma check_classes_ok:
  "check_classes bytes k at n acc = Inr acc' \<Longrightarrow> class_table_ok bytes k at n"
proof (induction n arbitrary: at acc)
  case (Suc n)
  obtain classes codes where acc: "acc = (classes, codes)" by (cases acc)
  show ?case
  proof (cases "hdr_le32 bytes (at + 24) = 0")
    case True
    with Suc show ?thesis by (simp add: acc class_table_ok_Suc CLASS_DEF_SIZE_def)
  next
    case False
    with Suc.prems obtain cd codes1 where
      "parse_class_data bytes (hdr_le32 bytes (at + 24)) = Inr cd"
      "check_methods bytes k (class_methods cd) codes = Inr codes1"
      "check_classes bytes k (at + 32) n
        (List.insert (hdr_le32 bytes (at + 24)) classes, codes1) = Inr acc'"
      by (auto simp: acc Let_def and_then_Inr CLASS_DEF_SIZE_def)
    with Suc.IH check_methods_ok show ?thesis by (auto simp: class_table_ok_Suc)
  qed
qed (simp add: class_table_ok_def)

text \<open>The specification of a valid file.\<close>

definition valid_dex :: "libs \<Rightarrow> u8 list \<Rightarrow> dex_header \<Rightarrow> bool" where
  "valid_dex lb dex h \<longleftrightarrow> dex_parser_new dex = Inr h \<and> unat (dh_file_size h) = length dex \<and>
     unat (dh_data_off h) + unat (dh_data_size h) = length dex \<and> checksums_ok lb dex \<and>
     (\<exists>es. read_map_entries dex = Inr es \<and> ordered es \<and> self_entry (dh_map_off h) \<in> set es) \<and>
     class_table_ok dex (dh_method_ids_size h) (unat (dh_class_defs_off h)) (unat (dh_class_defs_size h))"

lemma validate_repaired:
  assumes "validate_repaired_dex lb dex = Inr u"
  shows "\<exists>h. valid_dex lb dex h"
proof -
  from assms obtain h es acc where h: "dex_parser_new dex = Inr h"
    and len: "unat (dh_file_size h) = length dex"
    "unat (dh_data_off h) + unat (dh_data_size h) = length dex"
    and sums: "dh_signature h = lib_sha1 lb (drop 32 dex)" "dh_checksum h = lib_adler32 lb (drop 12 dex)"
    and es: "read_map_entries dex = Inr es" "ordered es" "list_ex (\<lambda>e. e = self_entry (dh_map_off h)) es"
    and classes: "check_classes dex (dh_method_ids_size h) (unat (dh_class_defs_off h))
      (unat (dh_class_defs_size h)) ([], []) = Inr acc"
    unfolding validate_repaired_dex_def
    by (auto simp: and_then_Inr split: sum.splits if_splits)
  have "parse_dex_header dex = Inr h"
    using h by (auto simp: dex_parser_new_def Let_def split: sum.splits if_splits)
  note f = header_fields [OF this]
  have "checksums_ok lb dex" using sums f by (simp add: checksums_ok_def)
  with h len es check_classes_ok [OF classes] show ?thesis
    by (auto simp: valid_dex_def list_ex_iff)
qed

lemma repair_file_valid:
  assumes "repair_file lb dex records opts = Inr (stats, dex')"
  shows "\<exists>h. valid_dex lb dex' h" and "rs_append_failed stats = 0"
proof -
  from assms have run: "repair_one_dex lb dex records opts = Inr (stats, dex')"
    and "rs_append_failed stats = 0"
    by (auto simp: repair_file_def and_then_Inr split: if_splits)
  then show "rs_append_failed stats = 0" by simp
  from run obtain u where "validate_repaired_dex lb dex' = Inr u"
    by (auto simp: repair_one_dex_def and_then_Inr Let_def split_beta split: sum.splits)
  then show "\<exists>h. valid_dex lb dex' h" by (rule validate_repaired)
qed

end
