(* ===== verification/Dex_Names.thy ===== *)
theory Dex_Names
  imports Dump_Handlers Rust_Text
begin

text \<open>
  File names: those the dumper gives to DEX files and their records (\<^verbatim>\<open>save_dex\<close> and
  \<^verbatim>\<open>flush_json\<close> in \<^verbatim>\<open>src/dump.rs\<close>), and how \<^verbatim>\<open>src/fix.rs\<close> recognises them in a directory and
  pairs them (\<^verbatim>\<open>dex_file_base\<close>, \<^verbatim>\<open>dex_code_json_base\<close>, \<^verbatim>\<open>find_pairs\<close>, \<^verbatim>\<open>find_root_dex_files\<close>).
  A directory is the list of the names of its regular files; \<open>enc\<close> is \<^verbatim>\<open>hex::encode\<close>.
\<close>

section \<open>Names written\<close>

definition dex_stem :: "(u8 list \<Rightarrow> rust_string) \<Rightarrow> dex_file \<Rightarrow> rust_string" where
  "dex_stem enc f =
     (case f of
        Dex_plain pid b sz \<Rightarrow>
          str_lit ''dex_'' @ lower_hex pid @ str_lit ''_'' @ lower_hex b @ str_lit ''_'' @ lower_hex sz
      | Dex_hashed pid b hash sz \<Rightarrow>
          str_lit ''dex_'' @ lower_hex pid @ str_lit ''_'' @ lower_hex b @ str_lit ''_'' @ enc hash @
          str_lit ''_'' @ lower_hex sz)"

definition dex_file_name :: "(u8 list \<Rightarrow> rust_string) \<Rightarrow> dex_file \<Rightarrow> rust_string" where
  "dex_file_name enc f = dex_stem enc f @ str_lit ''.dex''"

definition json_file_name :: "u32 \<times> u64 \<times> u32 \<Rightarrow> rust_string" where
  "json_file_name = (\<lambda>(pid, b, sz). str_lit ''dex_'' @ lower_hex pid @ str_lit ''_'' @ lower_hex b @
     str_lit ''_'' @ lower_hex sz @ str_lit ''_code.json'')"

section \<open>Names recognised\<close>

definition dex_file_base :: "rust_string \<Rightarrow> rust_string option" where
  "dex_file_base name =
     (if \<not> prefix (str_lit ''dex_'') name \<or> \<not> suffix (str_lit ''.dex'') name then None
      else case strip_suffix (str_lit ''.dex'') name of None \<Rightarrow> None
      | Some stem \<Rightarrow>
          case strip_prefix (str_lit ''dex_'') stem of None \<Rightarrow> None
          | Some ids \<Rightarrow>
              let parts = split_char 0x5F ids
              in if 2 \<le> length parts \<and> length parts \<le> 4 \<and>
                    list_all (\<lambda>part. part \<noteq> [] \<and> list_all is_hexdigit part) parts
                 then Some stem else None)"

definition dex_code_json_base :: "rust_string \<Rightarrow> rust_string option" where
  "dex_code_json_base name =
     (if \<not> prefix (str_lit ''dex_'') name \<or> \<not> suffix (str_lit ''_code.json'') name then None
      else case strip_suffix (str_lit ''_code.json'') name of None \<Rightarrow> None
      | Some stem \<Rightarrow> dex_file_base (stem @ str_lit ''.dex''))"

definition find_pairs :: "rust_string list \<Rightarrow> rust_string \<Rightarrow> rust_string option" where
  "find_pairs names = fold (\<lambda>name pairs.
     case dex_code_json_base name of None \<Rightarrow> pairs | Some base \<Rightarrow> pairs(base \<mapsto> name)) names (\<lambda>_. None)"

definition find_root_dex_files :: "rust_string list \<Rightarrow> rust_string \<Rightarrow> rust_string option" where
  "find_root_dex_files names = fold (\<lambda>name dex_files.
     case dex_file_base name of None \<Rightarrow> dex_files | Some base \<Rightarrow> dex_files(base \<mapsto> name)) names (\<lambda>_. None)"

text \<open>
  What \<^verbatim>\<open>fix_dex_directory_with\<close> does with the DEX of a base name: the file it reads, and the
  records it writes back, if there are any (otherwise the file is copied).
\<close>

definition fix_plan :: "rust_string list \<Rightarrow> rust_string \<Rightarrow> (rust_string \<times> rust_string option) option" where
  "fix_plan names base = map_option (\<lambda>dex. (dex, find_pairs names base)) (find_root_dex_files names base)"

section \<open>Written names are recognised\<close>

text \<open>The identity fields of a name; each is a nonempty hexadecimal number.\<close>

definition stem_parts :: "(u8 list \<Rightarrow> rust_string) \<Rightarrow> dex_file \<Rightarrow> rust_string list" where
  "stem_parts enc f =
     (case f of Dex_plain pid b sz \<Rightarrow> [lower_hex pid, lower_hex b, lower_hex sz]
      | Dex_hashed pid b hash sz \<Rightarrow> [lower_hex pid, lower_hex b, enc hash, lower_hex sz])"

definition hex_encoder :: "(u8 list \<Rightarrow> rust_string) \<Rightarrow> bool" where
  "hex_encoder enc \<longleftrightarrow> inj enc \<and> (\<forall>bs. list_all is_hexdigit (enc bs) \<and> (bs \<noteq> [] \<longrightarrow> enc bs \<noteq> []))"

definition file_ok :: "dex_file \<Rightarrow> bool" where
  "file_ok f \<longleftrightarrow> (case f of Dex_plain pid b sz \<Rightarrow> True | Dex_hashed pid b hash sz \<Rightarrow> hash \<noteq> [])"

lemma dex_stem_parts: "dex_stem enc f = str_lit ''dex_'' @ join [0x5F] (stem_parts enc f)"
  by (simp add: dex_stem_def stem_parts_def split: dex_file.split)

lemma stem_parts_ok:
  assumes "hex_encoder enc" and "file_ok f"
  shows "list_all (\<lambda>part. part \<noteq> [] \<and> list_all is_hexdigit part) (stem_parts enc f)"
    and "2 \<le> length (stem_parts enc f)" and "length (stem_parts enc f) \<le> 4"
  using assms by (auto simp: stem_parts_def hex_encoder_def file_ok_def split: dex_file.splits)

lemma split_stem:
  assumes "hex_encoder enc" and "file_ok f"
  shows "split_char 0x5F (join [0x5F] (stem_parts enc f)) = stem_parts enc f"
proof (rule split_char_join)
  show "stem_parts enc f \<noteq> []" by (simp add: stem_parts_def split: dex_file.split)
  show "list_all (\<lambda>part. 0x5F \<notin> set part) (stem_parts enc f)"
    unfolding list_all_iff
  proof
    fix part assume "part \<in> set (stem_parts enc f)"
    then have "list_all is_hexdigit part" using stem_parts_ok(1) [OF assms] by (simp add: list_all_iff)
    then show "0x5F \<notin> set part" by (rule hexdigits_avoid) simp
  qed
qed

lemma dex_file_base_eq:
  "dex_file_base (str_lit ''dex_'' @ ids @ str_lit ''.dex'') =
     (let parts = split_char 0x5F ids
      in if 2 \<le> length parts \<and> length parts \<le> 4 \<and>
            list_all (\<lambda>part. part \<noteq> [] \<and> list_all is_hexdigit part) parts
         then Some (str_lit ''dex_'' @ ids) else None)"
proof -
  have "prefix (str_lit ''dex_'') (str_lit ''dex_'' @ ids @ str_lit ''.dex'')" by (rule prefixI) simp
  moreover have "suffix (str_lit ''.dex'') (str_lit ''dex_'' @ ids @ str_lit ''.dex'')"
    by (rule suffixI [of _ "str_lit ''dex_'' @ ids"]) simp
  moreover have "strip_suffix (str_lit ''.dex'') (str_lit ''dex_'' @ ids @ str_lit ''.dex'') =
      Some (str_lit ''dex_'' @ ids)"
    using strip_suffix_append [of "str_lit ''.dex''" "str_lit ''dex_'' @ ids"] by simp
  ultimately show ?thesis unfolding dex_file_base_def by (simp del: str_lit_simps)
qed

lemma base_of_name:
  assumes "hex_encoder enc" and "file_ok f"
  shows "dex_file_base (dex_file_name enc f) = Some (dex_stem enc f)"
  using stem_parts_ok [OF assms]
  by (simp add: dex_file_name_def dex_stem_parts dex_file_base_eq split_stem [OF assms] Let_def
      del: str_lit_simps)

lemma base_dex_name: "dex_file_base name = Some base \<Longrightarrow> name = base @ str_lit ''.dex''"
  by (auto simp: dex_file_base_def Let_def simp del: str_lit_simps dest!: strip_suffix_Some
      split: if_splits option.splits)

lemma base_json_name:
  assumes "dex_code_json_base name = Some base"
  shows "name = base @ str_lit ''_code.json''"
proof -
  from assms obtain stem where "strip_suffix (str_lit ''_code.json'') name = Some stem"
    and "dex_file_base (stem @ str_lit ''.dex'') = Some base"
    by (auto simp: dex_code_json_base_def simp del: str_lit_simps split: if_splits option.splits)
  with base_dex_name [of "stem @ str_lit ''.dex''" base] strip_suffix_Some show ?thesis by fastforce
qed

lemma json_name: "json_file_name (pid, b, sz) = dex_stem enc (Dex_plain pid b sz) @ str_lit ''_code.json''"
  by (simp add: json_file_name_def dex_stem_def)

lemma base_of_json:
  assumes "hex_encoder enc"
  shows "dex_code_json_base (json_file_name (pid, b, sz)) = Some (dex_stem enc (Dex_plain pid b sz))"
proof -
  let ?f = "Dex_plain pid b sz"
  have "prefix (str_lit ''dex_'') (dex_stem enc ?f @ str_lit ''_code.json'')"
    unfolding dex_stem_parts by (rule prefixI) simp
  moreover have "suffix (str_lit ''_code.json'') (dex_stem enc ?f @ str_lit ''_code.json'')"
    by (rule suffixI) simp
  moreover have "dex_file_base (dex_stem enc ?f @ str_lit ''.dex'') = Some (dex_stem enc ?f)"
    using base_of_name [OF assms, of ?f] by (simp add: dex_file_name_def file_ok_def)
  ultimately show ?thesis
    unfolding json_name [of pid b sz enc] dex_code_json_base_def by (simp del: str_lit_simps)
qed

text \<open>Different files have different names.\<close>

lemma dex_stem_inject:
  assumes "hex_encoder enc" and "file_ok f" and "file_ok g"
  shows "dex_stem enc f = dex_stem enc g \<longleftrightarrow> f = g"
proof
  assume "dex_stem enc f = dex_stem enc g"
  then have "join [0x5F] (stem_parts enc f) = join [0x5F] (stem_parts enc g)"
    by (simp add: dex_stem_parts)
  then have "stem_parts enc f = stem_parts enc g" using split_stem assms by metis
  then show "f = g"
    using assms(1) by (auto simp: stem_parts_def hex_encoder_def inj_def split: dex_file.splits)
qed simp

lemma dex_file_name_inject:
  "hex_encoder enc \<Longrightarrow> file_ok f \<Longrightarrow> file_ok g \<Longrightarrow> dex_file_name enc f = dex_file_name enc g \<longleftrightarrow> f = g"
  by (simp add: dex_file_name_def dex_stem_inject)

section \<open>Pairing\<close>

lemma fold_names:
  assumes "\<And>name base. f name = Some base \<Longrightarrow> name = base @ ext"
  shows "fold (\<lambda>name m. case f name of None \<Rightarrow> m | Some base \<Rightarrow> m(base \<mapsto> name)) names m0 base =
    (if base @ ext \<in> set names \<and> f (base @ ext) = Some base then Some (base @ ext) else m0 base)"
proof (induction names arbitrary: m0)
  case (Cons name names)
  show ?case
    by (cases "f name") (auto simp: Cons dest: assms)
qed simp

lemma find_pairs_eq:
  "find_pairs names base =
     (if base @ str_lit ''_code.json'' \<in> set names \<and>
         dex_code_json_base (base @ str_lit ''_code.json'') = Some base
      then Some (base @ str_lit ''_code.json'') else None)"
  unfolding find_pairs_def by (rule fold_names) (rule base_json_name)

lemma find_root_dex_files_eq:
  "find_root_dex_files names base =
     (if base @ str_lit ''.dex'' \<in> set names \<and> dex_file_base (base @ str_lit ''.dex'') = Some base
      then Some (base @ str_lit ''.dex'') else None)"
  unfolding find_root_dex_files_def by (rule fold_names) (rule base_dex_name)

text \<open>The directory that the dumper leaves: DEX files \<open>fs\<close> and records \<open>js\<close>.\<close>

definition dump_directory ::
  "(u8 list \<Rightarrow> rust_string) \<Rightarrow> dex_file list \<Rightarrow> (u32 \<times> u64 \<times> u32) list \<Rightarrow> rust_string list" where
  "dump_directory enc fs js = map (dex_file_name enc) fs @ map json_file_name js"

definition records_of_file :: "(u32 \<times> u64 \<times> u32) list \<Rightarrow> dex_file \<Rightarrow> rust_string option" where
  "records_of_file js f =
     (case f of
        Dex_plain pid b sz \<Rightarrow> if (pid, b, sz) \<in> set js then Some (json_file_name (pid, b, sz)) else None
      | Dex_hashed pid b hash sz \<Rightarrow> None)"

lemma suffixes_differ:
  "a @ str_lit ''.dex'' \<noteq> b @ str_lit ''_code.json''"
proof
  assume "a @ str_lit ''.dex'' = b @ str_lit ''_code.json''"
  then have "rev (a @ str_lit ''.dex'') = rev (b @ str_lit ''_code.json'')" by simp
  then show False by simp
qed

lemma fix_plan_directory:
  assumes enc: "hex_encoder enc" and ok: "list_all file_ok fs" and f: "f \<in> set fs"
  shows "fix_plan (dump_directory enc fs js) (dex_stem enc f) =
    Some (dex_file_name enc f, records_of_file js f)"
proof -
  let ?dir = "dump_directory enc fs js"
  have okf: "file_ok f" using ok f by (simp add: list_all_iff)
  have dex: "find_root_dex_files ?dir (dex_stem enc f) = Some (dex_file_name enc f)"
    using f base_of_name [OF enc okf]
    by (simp add: find_root_dex_files_eq dump_directory_def dex_file_name_def del: str_lit_simps)
  have json: "dex_stem enc f @ str_lit ''_code.json'' \<in> set ?dir \<longleftrightarrow> records_of_file js f \<noteq> None"
  proof -
    let ?name = "dex_stem enc f @ str_lit ''_code.json''"
    have eq: "?name = json_file_name (pid, b, sz) \<longleftrightarrow> f = Dex_plain pid b sz" for pid b sz
      unfolding json_name [of pid b sz enc]
      using dex_stem_inject [OF enc okf, of "Dex_plain pid b sz"] by (simp add: file_ok_def)
    have "?name \<noteq> dex_file_name enc g" for g
      using suffixes_differ [of "dex_stem enc g" "dex_stem enc f"] by (metis dex_file_name_def)
    then have "?name \<in> set ?dir \<longleftrightarrow> (\<exists>(pid, b, sz)\<in>set js. f = Dex_plain pid b sz)"
      unfolding dump_directory_def set_append set_map image_iff Un_iff using eq by fast
    then show ?thesis by (cases f) (auto simp: records_of_file_def split: if_splits)
  qed
  have "find_pairs ?dir (dex_stem enc f) = records_of_file js f"
  proof (cases f)
    case (Dex_plain pid b sz)
    have "json_file_name (pid, b, sz) = dex_stem enc f @ str_lit ''_code.json''"
      unfolding Dex_plain by (rule json_name)
    with json base_of_json [OF enc, of pid b sz] Dex_plain show ?thesis
      by (auto simp: find_pairs_eq records_of_file_def simp del: str_lit_simps)
  next
    case (Dex_hashed pid b hash sz)
    with json show ?thesis by (simp add: find_pairs_eq records_of_file_def del: str_lit_simps)
  qed
  with dex show ?thesis by (simp add: fix_plan_def)
qed

text \<open>The DEX files of the directory are those the dumper wrote.\<close>

lemma dump_directory_dex:
  assumes "find_root_dex_files (dump_directory enc fs js) base = Some dex"
  shows "\<exists>f\<in>set fs. dex = dex_file_name enc f"
proof -
  have "base @ str_lit ''.dex'' \<in> set (dump_directory enc fs js)" and dex: "dex = base @ str_lit ''.dex''"
    using assms by (simp_all add: find_root_dex_files_eq del: str_lit_simps split: if_splits)
  moreover have "base @ str_lit ''.dex'' \<noteq> json_file_name j" for j
    using suffixes_differ [of base] by (cases j) (metis json_name)
  ultimately show ?thesis unfolding dump_directory_def set_append set_map by auto
qed

lemma dump_directory_lists:
  assumes "hex_encoder enc" and "list_all file_ok fs"
  shows "find_root_dex_files (dump_directory enc fs js) =
    map_of (map (\<lambda>f. (dex_stem enc f, dex_file_name enc f)) fs)"
proof
  fix base
  show "find_root_dex_files (dump_directory enc fs js) base =
    map_of (map (\<lambda>f. (dex_stem enc f, dex_file_name enc f)) fs) base"
  proof (cases "\<exists>f\<in>set fs. base = dex_stem enc f")
    case True
    then obtain f where f: "f \<in> set fs" "base = dex_stem enc f" by blast
    have "map_of (map (\<lambda>f. (dex_stem enc f, dex_file_name enc f)) fs) base = Some (base @ str_lit ''.dex'')"
      using f by (induction fs) (auto simp: dex_file_name_def simp del: str_lit_simps)
    with f fix_plan_directory [OF assms f(1), of js] show ?thesis
      by (simp add: fix_plan_def dex_file_name_def del: str_lit_simps)
  next
    case False
    have "find_root_dex_files (dump_directory enc fs js) base = None"
    proof (rule ccontr)
      assume "\<not> ?thesis"
      then obtain dex where d: "find_root_dex_files (dump_directory enc fs js) base = Some dex" by auto
      then have "dex = base @ str_lit ''.dex''"
        by (simp add: find_root_dex_files_eq del: str_lit_simps split: if_splits)
      with dump_directory_dex [OF d] False show False
        unfolding dex_file_name_def by (metis append_same_eq)
    qed
    moreover have "map_of (map (\<lambda>f. (dex_stem enc f, dex_file_name enc f)) fs) base = None"
      using False by (auto simp: map_of_eq_None_iff)
    ultimately show ?thesis by simp
  qed
qed

lemma hex_encode_encoder: "hex_encoder hex_encode"
proof -
  have "is_hexdigit (hex_digit d)" if "d < 16" for d :: u8
    using that by (simp add: is_hexdigit_def hex_value_digit)
  then have "list_all is_hexdigit (hex_encode bs)" for bs
    by (induction bs) (simp_all add: hex_encode_def hex_nibbles)
  moreover have "inj hex_encode" by (rule injI) (metis hex_decode_encode option.inject)
  moreover have "bs \<noteq> [] \<Longrightarrow> hex_encode bs \<noteq> []" for bs by (simp flip: length_greater_0_conv)
  ultimately show ?thesis by (simp add: hex_encoder_def)
qed

end
