(* ===== verification/Fix_Directory.thy ===== *)
theory Fix_Directory
  imports Repair_Result Dex_Names "HOL-Library.List_Lexorder"
begin

text \<open>
  The directory passes of \<^verbatim>\<open>src/fix.rs\<close>: \<^verbatim>\<open>fix_dex_directory_with\<close>, which writes one final file per
  dump, and \<^verbatim>\<open>repair_directory\<close> with the removal of duplicate inputs (\<^verbatim>\<open>dedup_dex_files\<close>).
  The input directories are functions from names to what reading the file gives; the output
  directories are maps from names to contents. JSON parsing and the shutdown flag are parameters;
  writing into the output directories succeeds.
\<close>

section \<open>Files\<close>

datatype file_read = Missing | Unreadable | Content "u8 list"

type_synonym files = "rust_string \<Rightarrow> file_read"

text \<open>\<open>fe_going k\<close>: the shutdown flag before the \<open>k\<close>-th file; \<open>fe_report_ok\<close>: the report can be written.\<close>

record fix_env =
  fe_libs :: libs
  fe_dex :: files
  fe_records :: files
  fe_json :: "u8 list \<Rightarrow> method_code_record list option"
  fe_going :: "nat \<Rightarrow> bool"
  fe_report_ok :: "rust_string \<Rightarrow> bool"

record fix_output =
  fd_fix :: "rust_string \<rightharpoonup> u8 list"
  fd_final :: "rust_string \<rightharpoonup> u8 list"
  fd_missed :: "rust_string \<rightharpoonup> coverage_report"

definition dex_ext :: rust_string where "dex_ext = str_lit ''.dex''"
definition fix_ext :: rust_string where "fix_ext = str_lit ''_fix.dex''"
definition missed_ext :: rust_string where "missed_ext = str_lit ''_missed.json''"
definition code_ext :: rust_string where "code_ext = str_lit ''_code.json''"

section \<open>One final file per dump\<close>

definition read_records :: "fix_env \<Rightarrow> rust_string \<Rightarrow> fix_error + method_code_record list" where
  "read_records fe json =
     (case fe_dex fe json of
        Content bytes \<Rightarrow> (case fe_json fe bytes of None \<Rightarrow> Inl (Msg ''failed to parse'') | Some rs \<Rightarrow> Inr rs)
      | _ \<Rightarrow> Inl (Msg ''failed to open''))"

definition fix_one_dex ::
  "fix_env \<Rightarrow> rust_string \<Rightarrow> rust_string \<Rightarrow> rust_string \<Rightarrow> fix_options \<Rightarrow> fix_output \<Rightarrow>
     (fix_error + fix_outcome) \<times> fix_output" where
  "fix_one_dex fe dex json out_name opts fd =
     (case fe_dex fe dex of
        Content bytes \<Rightarrow>
          (case fix_one_dex_bytes (fe_libs fe) bytes (read_records fe json) opts of
             Inl err \<Rightarrow> (Inl err, fd)
           | Inr (outcome, bytes') \<Rightarrow> (Inr outcome, fd\<lparr>fd_fix := (fd_fix fd)(out_name \<mapsto> bytes')\<rparr>))
      | _ \<Rightarrow> (Inl (Msg ''failed to read''), fd))"

definition copy_in :: "fix_env \<Rightarrow> rust_string \<Rightarrow> rust_string \<Rightarrow> fix_output \<Rightarrow> fix_output option" where
  "copy_in fe src dst fd =
     (case fe_dex fe src of Content bytes \<Rightarrow> Some (fd\<lparr>fd_final := (fd_final fd)(dst \<mapsto> bytes)\<rparr>) | _ \<Rightarrow> None)"

definition copy_out :: "rust_string \<Rightarrow> rust_string \<Rightarrow> fix_output \<Rightarrow> fix_output option" where
  "copy_out src dst fd = map_option (\<lambda>bytes. fd\<lparr>fd_final := (fd_final fd)(dst \<mapsto> bytes)\<rparr>) (fd_fix fd src)"

definition write_missed ::
  "fix_env \<Rightarrow> rust_string \<Rightarrow> coverage_report \<Rightarrow> nat \<times> fix_output \<Rightarrow> nat \<times> fix_output" where
  "write_missed fe base coverage =
     (\<lambda>(failures, fd).
        if cov_missed_methods coverage = [] then (failures, fd)
        else if fe_report_ok fe (base @ missed_ext)
        then (failures, fd\<lparr>fd_missed := (fd_missed fd)(base @ missed_ext \<mapsto> coverage)\<rparr>)
        else (failures + 1, fd))"

text \<open>One round of the loop; \<open>None\<close> is the error of a copy, which ends the pass.\<close>

definition fix_entry ::
  "fix_env \<Rightarrow> fix_options \<Rightarrow> (rust_string \<Rightarrow> rust_string option) \<Rightarrow> rust_string \<times> rust_string \<Rightarrow>
     nat \<times> fix_output \<Rightarrow> (nat \<times> fix_output) option" where
  "fix_entry fe opts pairs =
     (\<lambda>(base, dex) (failures, fd).
        case pairs base of
          None \<Rightarrow> map_option (Pair failures) (copy_in fe dex (base @ dex_ext) fd)
        | Some json \<Rightarrow>
            (case fix_one_dex fe dex json (base @ fix_ext) opts fd of
               (Inr outcome, fd) \<Rightarrow>
                 map_option (\<lambda>fd. write_missed fe base (fx_coverage outcome) (failures, fd))
                   (copy_out (base @ fix_ext) (base @ dex_ext) fd)
             | (Inl err, fd) \<Rightarrow> map_option (Pair (failures + 1)) (copy_in fe dex (base @ dex_ext) fd)))"

fun fix_loop ::
  "fix_env \<Rightarrow> fix_options \<Rightarrow> (rust_string \<Rightarrow> rust_string option) \<Rightarrow> nat \<Rightarrow> (rust_string \<times> rust_string) list \<Rightarrow>
     nat \<times> fix_output \<Rightarrow> (fix_error + nat) \<times> fix_output" where
  "fix_loop fe opts pairs k [] (failures, fd) = (Inr failures, fd)"
| "fix_loop fe opts pairs k (entry # entries) (failures, fd) =
     (if \<not> fe_going fe k then (Inl (Msg ''fix interrupted''), fd)
      else case fix_entry fe opts pairs entry (failures, fd) of
        None \<Rightarrow> (Inl (Msg ''failed to copy''), fd)
      | Some st \<Rightarrow> fix_loop fe opts pairs (Suc k) entries st)"

text \<open>
  \<open>names\<close> are the regular files of the output directory, \<open>dex_files\<close> the DEX files among them in
  the order of the hash map.
\<close>

definition no_output :: fix_output where
  "no_output = \<lparr>fd_fix = (\<lambda>_. None), fd_final = (\<lambda>_. None), fd_missed = (\<lambda>_. None)\<rparr>"

definition fix_dex_directory ::
  "fix_env \<Rightarrow> fix_options \<Rightarrow> rust_string list \<Rightarrow> (rust_string \<times> rust_string) list \<Rightarrow> fix_output \<Rightarrow>
     (fix_error + unit) \<times> fix_output" where
  "fix_dex_directory fe opts names dex_files fd =
     (if dex_files = [] then (Inl (Msg ''no dex_*.dex found''), fd)
      else case fix_loop fe opts (find_pairs names) 0 dex_files (0, fd) of
        (Inl err, fd) \<Rightarrow> (Inl err, fd)
      | (Inr failures, fd) \<Rightarrow>
          (if failures = 0 then Inr () else Inl (Msg ''fix/report failure(s)''), fd))"

definition lists_dex_files :: "rust_string list \<Rightarrow> (rust_string \<times> rust_string) list \<Rightarrow> bool" where
  "lists_dex_files names dex_files \<longleftrightarrow>
     distinct (map fst dex_files) \<and> map_of dex_files = find_root_dex_files names"

section \<open>Repairing a directory\<close>

definition identity :: "fix_env \<Rightarrow> u8 list \<Rightarrow> u8 list option \<Rightarrow> u8 list \<times> u8 list option" where
  "identity fe bytes records = (lib_sha1 (fe_libs fe) bytes, map_option (lib_sha1 (fe_libs fe)) records)"

fun dedup_dex_files ::
  "fix_env \<Rightarrow> (u8 list \<times> u8 list option) list \<Rightarrow> (rust_string \<times> rust_string) list \<Rightarrow>
     (rust_string \<times> rust_string) list" where
  "dedup_dex_files fe seen [] = []"
| "dedup_dex_files fe seen ((base, path) # rest) =
     (case fe_dex fe path of
        Content bytes \<Rightarrow>
          (case fe_records fe (base @ code_ext) of
             Unreadable \<Rightarrow> (base, path) # dedup_dex_files fe seen rest
           | records \<Rightarrow>
               let i = identity fe bytes (case records of Content r \<Rightarrow> Some r | _ \<Rightarrow> None)
               in if i \<in> set seen then dedup_dex_files fe seen rest
                  else (base, path) # dedup_dex_files fe (i # seen) rest)
      | _ \<Rightarrow> (base, path) # dedup_dex_files fe seen rest)"

definition repair_one ::
  "fix_env \<Rightarrow> fix_options \<Rightarrow> rust_string \<times> rust_string \<Rightarrow> fix_error + (repair_stats \<times> u8 list)" where
  "repair_one fe opts =
     (\<lambda>(base, path).
        and_then
          (case fe_records fe (base @ code_ext) of
             Content bytes \<Rightarrow>
               (case fe_json fe bytes of None \<Rightarrow> Inl (Msg ''invalid records'') | Some rs \<Rightarrow> Inr (Some rs))
           | Missing \<Rightarrow> Inr None
           | Unreadable \<Rightarrow> Inl (Msg ''read'')) (\<lambda>records.
        case fe_dex fe path of
          Content bytes \<Rightarrow> repair_file (fe_libs fe) bytes records opts
        | _ \<Rightarrow> Inl (Msg ''read'')))"

text \<open>The repaired files, and the errors of the files that could not be repaired.\<close>

fun repair_loop ::
  "fix_env \<Rightarrow> fix_options \<Rightarrow> nat \<Rightarrow> (rust_string \<times> rust_string) list \<Rightarrow>
     (rust_string \<rightharpoonup> u8 list) \<times> (rust_string \<times> fix_error) list \<Rightarrow>
     (fix_error + (rust_string \<times> fix_error) list) \<times> (rust_string \<rightharpoonup> u8 list)" where
  "repair_loop fe opts k [] (written, failures) = (Inr failures, written)"
| "repair_loop fe opts k ((base, path) # rest) (written, failures) =
     (if \<not> fe_going fe k then (Inl (Msg ''repair interrupted''), written)
      else case repair_one fe opts (base, path) of
        Inr (stats, bytes) \<Rightarrow>
          repair_loop fe opts (Suc k) rest (written(base @ dex_ext \<mapsto> bytes), failures)
      | Inl err \<Rightarrow> repair_loop fe opts (Suc k) rest (written, failures @ [(base, err)]))"

definition repair_inputs ::
  "fix_env \<Rightarrow> fix_options \<Rightarrow> (rust_string \<times> rust_string) list \<Rightarrow> (rust_string \<times> rust_string) list" where
  "repair_inputs fe opts dex_files =
     (let sorted = sort_key fst dex_files
      in if fo_dedup opts then dedup_dex_files fe [] sorted else sorted)"

definition repair_directory ::
  "fix_env \<Rightarrow> fix_options \<Rightarrow> (rust_string \<times> rust_string) list \<Rightarrow> (rust_string \<rightharpoonup> u8 list) \<Rightarrow>
     (fix_error + unit) \<times> (rust_string \<rightharpoonup> u8 list)" where
  "repair_directory fe opts dex_files written =
     (if dex_files = [] then (Inl (Msg ''no dex_*.dex found''), written)
      else case repair_loop fe opts 0 (repair_inputs fe opts dex_files) (written, []) of
        (Inl err, written) \<Rightarrow> (Inl err, written)
      | (Inr failures, written) \<Rightarrow>
          (if failures = [] then Inr () else Inl (Msg ''repair failure(s)''), written))"

section \<open>Every dump has a final file\<close>

definition fixed_bytes ::
  "fix_env \<Rightarrow> fix_options \<Rightarrow> (rust_string \<Rightarrow> rust_string option) \<Rightarrow> rust_string \<Rightarrow> u8 list \<Rightarrow>
     (fix_error + (fix_outcome \<times> u8 list)) option" where
  "fixed_bytes fe opts pairs base bytes =
     map_option (\<lambda>json. fix_one_dex_bytes (fe_libs fe) bytes (read_records fe json) opts) (pairs base)"

text \<open>The final file: the fixed bytes, or the dumped ones if there are no records or the fix fails.\<close>

definition final_bytes ::
  "fix_env \<Rightarrow> fix_options \<Rightarrow> (rust_string \<Rightarrow> rust_string option) \<Rightarrow> rust_string \<Rightarrow> u8 list \<Rightarrow> u8 list" where
  "final_bytes fe opts pairs base bytes =
     (case fixed_bytes fe opts pairs base bytes of Some (Inr (outcome, bytes')) \<Rightarrow> bytes' | _ \<Rightarrow> bytes)"

definition entry_failed ::
  "fix_env \<Rightarrow> fix_options \<Rightarrow> (rust_string \<Rightarrow> rust_string option) \<Rightarrow> rust_string \<Rightarrow> u8 list \<Rightarrow> bool" where
  "entry_failed fe opts pairs base bytes \<longleftrightarrow>
     (case fixed_bytes fe opts pairs base bytes of None \<Rightarrow> False
      | Some (Inl _) \<Rightarrow> True
      | Some (Inr (outcome, _)) \<Rightarrow>
          cov_missed_methods (fx_coverage outcome) \<noteq> [] \<and> \<not> fe_report_ok fe (base @ missed_ext))"

lemma fix_entry_final:
  assumes "fe_dex fe dex = Content bytes"
  shows "\<exists>fd'. fix_entry fe opts pairs (base, dex) (failures, fd) =
      Some (failures + of_bool (entry_failed fe opts pairs base bytes), fd') \<and>
    fd_final fd' = (fd_final fd)(base @ dex_ext \<mapsto> final_bytes fe opts pairs base bytes)"
  using assms
  by (auto simp: fix_entry_def fix_one_dex_def copy_in_def copy_out_def write_missed_def final_bytes_def
      entry_failed_def fixed_bytes_def split: option.split sum.split)

lemma fix_loop_final:
  assumes going: "\<And>k. fe_going fe k" and "distinct (map fst entries)"
    and "list_all (\<lambda>(base, dex). fe_dex fe dex = Content (content dex)) entries"
  shows "\<exists>fd'. fix_loop fe opts pairs k entries (failures, fd) =
      (Inr (failures + length (filter (\<lambda>(base, dex). entry_failed fe opts pairs base (content dex)) entries)), fd') \<and>
    (\<forall>(base, dex)\<in>set entries. fd_final fd' (base @ dex_ext) = Some (final_bytes fe opts pairs base (content dex))) \<and>
    (\<forall>name. name \<notin> (\<lambda>(base, dex). base @ dex_ext) ` set entries \<longrightarrow> fd_final fd' name = fd_final fd name)"
  using assms(2,3)
proof (induction entries arbitrary: k failures fd)
  case (Cons entry entries)
  obtain base dex where entry: "entry = (base, dex)" by (cases entry)
  then have "fe_dex fe dex = Content (content dex)" using Cons.prems(2) by simp
  from fix_entry_final [OF this, of opts pairs base failures fd]
  obtain fd1 where
    one: "fix_entry fe opts pairs (base, dex) (failures, fd) =
      Some (failures + of_bool (entry_failed fe opts pairs base (content dex)), fd1)"
    and fd1: "fd_final fd1 = (fd_final fd)(base @ dex_ext \<mapsto> final_bytes fe opts pairs base (content dex))"
    by blast
  have "base @ dex_ext \<notin> (\<lambda>(base, dex). base @ dex_ext) ` set entries"
    using Cons.prems(1) by (force simp: entry)
  moreover obtain fd' where
    "fix_loop fe opts pairs (Suc k) entries (failures + of_bool (entry_failed fe opts pairs base (content dex)), fd1) =
      (Inr (failures + of_bool (entry_failed fe opts pairs base (content dex)) +
        length (filter (\<lambda>(base, dex). entry_failed fe opts pairs base (content dex)) entries)), fd')"
    "\<forall>(base, dex)\<in>set entries. fd_final fd' (base @ dex_ext) = Some (final_bytes fe opts pairs base (content dex))"
    "\<forall>name. name \<notin> (\<lambda>(base, dex). base @ dex_ext) ` set entries \<longrightarrow> fd_final fd' name = fd_final fd1 name"
    using Cons.IH [of "Suc k" "failures + of_bool (entry_failed fe opts pairs base (content dex))" fd1]
      Cons.prems by auto
  ultimately show ?case
    using one fd1 by (intro exI [of _ fd']) (auto simp: entry going)
qed simp

lemma lists_dex_files_set:
  assumes "lists_dex_files names dex_files"
  shows "(base, dex) \<in> set dex_files \<longleftrightarrow> find_root_dex_files names base = Some dex"
  using assms map_of_eq_Some_iff [of dex_files base dex] by (simp add: lists_dex_files_def)

text \<open>What the pass leaves for every DEX of the directory.\<close>

theorem fix_directory_final:
  assumes "\<And>k. fe_going fe k" and dex: "lists_dex_files names dex_files" and ne: "dex_files \<noteq> []"
    and read: "\<And>base dex. find_root_dex_files names base = Some dex \<Longrightarrow> fe_dex fe dex = Content (content dex)"
  obtains fd' where
    "fix_dex_directory fe opts names dex_files fd =
      (if list_ex (\<lambda>(base, dex). entry_failed fe opts (find_pairs names) base (content dex)) dex_files
       then Inl (Msg ''fix/report failure(s)'') else Inr (), fd')"
    and "\<And>base dex. find_root_dex_files names base = Some dex \<Longrightarrow>
      fd_final fd' (base @ dex_ext) = Some (final_bytes fe opts (find_pairs names) base (content dex))"
proof -
  have "list_all (\<lambda>(base, dex). fe_dex fe dex = Content (content dex)) dex_files"
    using read lists_dex_files_set [OF dex] by (auto simp: list_all_iff)
  with fix_loop_final [OF assms(1), of dex_files content opts "find_pairs names" 0 0 fd] dex
  obtain fd' where
    loop: "fix_loop fe opts (find_pairs names) 0 dex_files (0, fd) =
      (Inr (length (filter (\<lambda>(base, dex). entry_failed fe opts (find_pairs names) base (content dex)) dex_files)), fd')"
    and files: "\<forall>(base, dex)\<in>set dex_files.
      fd_final fd' (base @ dex_ext) = Some (final_bytes fe opts (find_pairs names) base (content dex))"
    by (auto simp: lists_dex_files_def)
  show ?thesis
  proof (rule that)
    show "fix_dex_directory fe opts names dex_files fd =
      (if list_ex (\<lambda>(base, dex). entry_failed fe opts (find_pairs names) base (content dex)) dex_files
       then Inl (Msg ''fix/report failure(s)'') else Inr (), fd')"
      using ne by (simp add: fix_dex_directory_def loop filter_empty_conv list_ex_iff)
    show "fd_final fd' (base @ dex_ext) = Some (final_bytes fe opts (find_pairs names) base (content dex))"
      if "find_root_dex_files names base = Some dex" for base dex
      using files that lists_dex_files_set [OF dex] by auto
  qed
qed

section \<open>Duplicates and repairs\<close>

text \<open>The inputs of a repair: the DEX and its records, if both can be read.\<close>

definition inputs_of :: "fix_env \<Rightarrow> rust_string \<times> rust_string \<Rightarrow> (u8 list \<times> u8 list option) option" where
  "inputs_of fe =
     (\<lambda>(base, path).
        case fe_dex fe path of
          Content bytes \<Rightarrow>
            (case fe_records fe (base @ code_ext) of
               Content r \<Rightarrow> Some (bytes, Some r) | Missing \<Rightarrow> Some (bytes, None) | Unreadable \<Rightarrow> None)
        | _ \<Rightarrow> None)"

lemma dedup_Cons:
  "dedup_dex_files fe seen (x # rest) =
     (case inputs_of fe x of None \<Rightarrow> x # dedup_dex_files fe seen rest
      | Some (bytes, records) \<Rightarrow>
          if identity fe bytes records \<in> set seen then dedup_dex_files fe seen rest
          else x # dedup_dex_files fe (identity fe bytes records # seen) rest)"
  by (cases x) (simp add: inputs_of_def Let_def split: file_read.split)

lemma dedup_subset: "set (dedup_dex_files fe seen dex_files) \<subseteq> set dex_files"
  by (induction dex_files arbitrary: seen)
    (auto simp: dedup_Cons simp del: dedup_dex_files.simps(2) split: option.splits prod.splits if_splits)

lemma dedup_retains:
  assumes "x \<in> set dex_files"
  shows "x \<in> set (dedup_dex_files fe seen dex_files) \<or>
    (\<exists>bytes records. inputs_of fe x = Some (bytes, records) \<and>
      (identity fe bytes records \<in> set seen \<or>
       (\<exists>y\<in>set (dedup_dex_files fe seen dex_files). \<exists>b r. inputs_of fe y = Some (b, r) \<and>
          identity fe b r = identity fe bytes records)))"
  using assms
proof (induction dex_files arbitrary: seen)
  case (Cons z zs)
  show ?case
  proof (cases "inputs_of fe z")
    case None
    with Cons show ?thesis by (auto simp: dedup_Cons simp del: dedup_dex_files.simps(2))
  next
    case (Some i)
    obtain bytes records where i: "i = (bytes, records)" by (cases i)
    show ?thesis
    proof (cases "identity fe bytes records \<in> set seen")
      case True
      with Cons Some i show ?thesis by (auto simp: dedup_Cons simp del: dedup_dex_files.simps(2))
    next
      case False
      show ?thesis
      proof (cases "x = z")
        case True
        with False Some i show ?thesis by (simp add: dedup_Cons del: dedup_dex_files.simps(2))
      next
        case ne: False
        with Cons have "x \<in> set zs" by simp
        from Cons.IH [OF this, of "identity fe bytes records # seen"] False Some i
        show ?thesis by (auto simp: dedup_Cons simp del: dedup_dex_files.simps(2))
      qed
    qed
  qed
qed simp

lemma repair_one_inputs:
  assumes "inputs_of fe x = Some (bytes, records)"
  shows "repair_one fe opts x =
    and_then (case records of None \<Rightarrow> Inr None
        | Some r \<Rightarrow> (case fe_json fe r of None \<Rightarrow> Inl (Msg ''invalid records'') | Some rs \<Rightarrow> Inr (Some rs)))
      (\<lambda>records. repair_file (fe_libs fe) bytes records opts)"
  using assms by (cases x) (auto simp: inputs_of_def repair_one_def split: file_read.splits)

text \<open>The contents that the hashes have to tell apart.\<close>

definition contents :: "fix_env \<Rightarrow> (rust_string \<times> rust_string) list \<Rightarrow> u8 list set" where
  "contents fe dex_files =
     {b. \<exists>x\<in>set dex_files. \<exists>bytes records. inputs_of fe x = Some (bytes, records) \<and> (b = bytes \<or> records = Some b)}"

lemma identity_inject:
  assumes "inj_on (lib_sha1 (fe_libs fe)) (contents fe dex_files)"
    and "x \<in> set dex_files" "inputs_of fe x = Some (b, r)" and "y \<in> set dex_files" "inputs_of fe y = Some (b', r')"
    and "identity fe b r = identity fe b' r'"
  shows "b = b' \<and> r = r'"
proof -
  have c: "b \<in> contents fe dex_files" "b' \<in> contents fe dex_files"
    "r = Some s \<Longrightarrow> s \<in> contents fe dex_files" "r' = Some s' \<Longrightarrow> s' \<in> contents fe dex_files" for s s'
    using assms(2-5) by (auto simp: contents_def)
  have "b = b'" using assms(1,6) c(1,2) by (auto simp: identity_def inj_on_def)
  moreover have "r = r'"
  proof (cases r)
    case None
    with assms(6) show ?thesis by (cases r') (auto simp: identity_def)
  next
    case (Some s)
    with assms(6) obtain s' where s': "r' = Some s'" "lib_sha1 (fe_libs fe) s = lib_sha1 (fe_libs fe) s'"
      by (cases r') (auto simp: identity_def)
    with assms(1) c(3) [OF Some] c(4) [OF s'(1)] show ?thesis by (auto simp: inj_on_def Some)
  qed
  ultimately show ?thesis by simp
qed

text \<open>Skipping duplicates skips no result.\<close>

lemma dedup_same_repair:
  assumes "inj_on (lib_sha1 (fe_libs fe)) (contents fe dex_files)" and "x \<in> set dex_files"
  shows "\<exists>y\<in>set (dedup_dex_files fe [] dex_files). repair_one fe opts y = repair_one fe opts x"
proof (cases "x \<in> set (dedup_dex_files fe [] dex_files)")
  case False
  with dedup_retains [OF assms(2), of fe "[]"] obtain bytes records y b r where
    i: "inputs_of fe x = Some (bytes, records)" "inputs_of fe y = Some (b, r)"
      "identity fe b r = identity fe bytes records" and y: "y \<in> set (dedup_dex_files fe [] dex_files)"
    by auto
  moreover have "y \<in> set dex_files" using y dedup_subset by blast
  ultimately have "b = bytes \<and> r = records"
    using identity_inject [OF assms(1)] assms(2) by blast
  with i y show ?thesis by (metis repair_one_inputs)
qed blast

section \<open>Every dump is repaired or reported\<close>

lemma repair_loop_written:
  assumes "repair_loop fe opts k inputs (written, failures) = (Inr failures', written')"
    and "distinct (map fst inputs)"
  shows "failures' = failures @ List.map_filter (\<lambda>(base, path).
        case repair_one fe opts (base, path) of Inl err \<Rightarrow> Some (base, err) | Inr _ \<Rightarrow> None) inputs \<and>
    (\<forall>(base, path)\<in>set inputs. \<forall>stats dex. repair_one fe opts (base, path) = Inr (stats, dex) \<longrightarrow>
       written' (base @ dex_ext) = Some dex) \<and>
    (\<forall>name. name \<notin> (\<lambda>(base, path). base @ dex_ext) ` set inputs \<longrightarrow> written' name = written name)"
  using assms
proof (induction inputs arbitrary: k written failures)
  case (Cons x inputs)
  obtain base path where x: "x = (base, path)" by (cases x)
  have go: "fe_going fe k" using Cons.prems(1) by (cases "fe_going fe k") (auto simp: x)
  have fresh: "base @ dex_ext \<notin> (\<lambda>(base, path). base @ dex_ext) ` set inputs"
    using Cons.prems(2) by (force simp: x)
  show ?case
  proof (cases "repair_one fe opts (base, path)")
    case (Inl err)
    with Cons.prems go Cons.IH [of "Suc k" written "failures @ [(base, err)]"] fresh show ?thesis
      by (auto simp: x List.map_filter_simps)
  next
    case (Inr r)
    obtain stats dex where r: "r = (stats, dex)" by (cases r)
    with Inr Cons.prems go have
      "repair_loop fe opts (Suc k) inputs (written(base @ dex_ext \<mapsto> dex), failures) = (Inr failures', written')"
      and "distinct (map fst inputs)" by (simp_all add: x)
    note rest = Cons.IH [OF this]
    have "written' (base @ dex_ext) = Some dex" using rest fresh by simp
    with rest Inr r show ?thesis by (auto simp: x List.map_filter_simps)
  qed
qed (simp add: List.map_filter_simps)

lemma map_filter_Nil_iff: "List.map_filter f xs = [] \<longleftrightarrow> (\<forall>x\<in>set xs. f x = None)"
  by (induction xs) (auto simp: List.map_filter_simps split: option.split)

lemma repair_loop_success:
  assumes "repair_loop fe opts k inputs (written, []) = (Inr [], written')"
    and "distinct (map fst inputs)" and x: "(base, path) \<in> set inputs"
  shows "\<exists>stats dex. repair_one fe opts (base, path) = Inr (stats, dex) \<and> written' (base @ dex_ext) = Some dex"
proof -
  note w = repair_loop_written [OF assms(1,2)]
  from w have "List.map_filter (\<lambda>(base, path). case repair_one fe opts (base, path) of
      Inl err \<Rightarrow> Some (base, err) | Inr _ \<Rightarrow> None) inputs = []" by simp
  with x have "(case repair_one fe opts (base, path) of Inl err \<Rightarrow> Some (base, err) | Inr _ \<Rightarrow> None) = None"
    unfolding map_filter_Nil_iff by fast
  then obtain stats dex where r: "repair_one fe opts (base, path) = Inr (stats, dex)"
    by (cases "repair_one fe opts (base, path)") auto
  with w x show ?thesis by blast
qed

lemma repair_one_valid:
  "repair_one fe opts x = Inr (stats, dex) \<Longrightarrow> \<exists>h. valid_dex (fe_libs fe) dex h"
proof -
  assume ok: "repair_one fe opts x = Inr (stats, dex)"
  obtain base path where x: "x = (base, path)" by (cases x)
  from ok obtain records where
    "(case fe_dex fe path of Content bytes \<Rightarrow> repair_file (fe_libs fe) bytes records opts
      | _ \<Rightarrow> Inl (Msg ''read'')) = Inr (stats, dex)"
    unfolding x repair_one_def prod.case and_then_Inr by blast
  then obtain bytes where "repair_file (fe_libs fe) bytes records opts = Inr (stats, dex)"
    by (cases "fe_dex fe path") auto
  then show "\<exists>h. valid_dex (fe_libs fe) dex h" by (rule repair_file_valid)
qed

lemma dedup_distinct: "distinct (map fst xs) \<Longrightarrow> distinct (map fst (dedup_dex_files fe seen xs))"
proof (induction xs arbitrary: seen)
  case (Cons x xs)
  have "fst x \<notin> fst ` set (dedup_dex_files fe s xs)" for s
    using Cons.prems dedup_subset [of fe s xs] by auto
  with Cons show ?case
    by (auto simp: dedup_Cons simp del: dedup_dex_files.simps(2) split: option.split)
qed simp

lemma repair_inputs_distinct:
  assumes "distinct (map fst dex_files)" shows "distinct (map fst (repair_inputs fe opts dex_files))"
proof -
  have "distinct (map fst (sort_key fst dex_files))"
    using assms by (simp add: distinct_map)
  then show ?thesis by (simp add: repair_inputs_def Let_def dedup_distinct)
qed

text \<open>
  When the pass succeeds, every DEX of the directory has a valid repaired file: its own, or that
  of a DEX with the same contents.
\<close>

theorem repair_directory_covers:
  assumes run: "repair_directory fe opts dex_files written = (Inr (), written')"
    and dex: "distinct (map fst dex_files)"
    and sha1: "inj_on (lib_sha1 (fe_libs fe)) (contents fe dex_files)"
    and x: "(base, path) \<in> set dex_files"
  obtains base' path' stats dex' h where "(base', path') \<in> set dex_files"
    and "repair_one fe opts (base, path) = Inr (stats, dex')"
    and "written' (base' @ dex_ext) = Some dex'" and "valid_dex (fe_libs fe) dex' h"
    and "\<not> fo_dedup opts \<Longrightarrow> base' = base"
proof -
  let ?inputs = "repair_inputs fe opts dex_files"
  have loop: "repair_loop fe opts 0 ?inputs (written, []) = (Inr [], written')"
    using run by (auto simp: repair_directory_def split: if_splits prod.splits sum.splits)
  have inputs: "set ?inputs \<subseteq> set dex_files"
    using dedup_subset [of fe "[]" "sort_key fst dex_files"] by (auto simp: repair_inputs_def Let_def)
  have "inj_on (lib_sha1 (fe_libs fe)) (contents fe (sort_key fst dex_files))"
    using sha1 by (simp add: contents_def)
  from dedup_same_repair [OF this, of "(base, path)" opts] x
  obtain y where y: "y \<in> set ?inputs" "repair_one fe opts y = repair_one fe opts (base, path)"
    "\<not> fo_dedup opts \<Longrightarrow> y = (base, path)"
    by (cases "fo_dedup opts") (auto simp: repair_inputs_def Let_def)
  obtain base' path' where y': "y = (base', path')" by (cases y)
  from repair_loop_success [OF loop repair_inputs_distinct [OF dex] y(1) [unfolded y']]
  obtain stats dex' where r: "repair_one fe opts y = Inr (stats, dex')"
    and "written' (base' @ dex_ext) = Some dex'" by (auto simp: y')
  moreover obtain h where "valid_dex (fe_libs fe) dex' h" using repair_one_valid [OF r] by blast
  ultimately show ?thesis
    using that [of base' path' stats dex' h] y r inputs by (auto simp: y')
qed

end
