(* ===== verification/Method_Events.thy ===== *)
theory Method_Events
  imports Method_Trace
begin

text \<open>
  The records one traced method produces, in order, when the kernel grants the ring space:
  diagnostics, announcement, chunks and the method record (\<^verbatim>\<open>handle_art_method\<close> of
  \<^verbatim>\<open>bpf/bpf.c\<close> along its success path).
\<close>

lemma submit_partial_frame:
  "methodCodeCache_map (submit_dex_chunks_partial e b pid sz s) = methodCodeCache_map s \<and>
   art_layout_map (submit_dex_chunks_partial e b pid sz s) = art_layout_map s \<and>
   dexFileCache_map (submit_dex_chunks_partial e b pid sz s) = dexFileCache_map s \<and>
   bufs_m (submit_dex_chunks_partial e b pid sz s) = bufs_m s"
proof (cases rule: submit_partial_cases [where e = e and b = b and pid = pid and sz = sz and s = s])
  case idle
  then show ?thesis by simp
next
  case (sent to cs fs)
  from emits_frame [OF sent(6)] show ?thesis by simp
qed

lemma submit_partial_out:
  "\<exists>cs fs. out (submit_dex_chunks_partial e b pid sz s) = out s @ forced (cs @ fs) \<and>
     list_all (\<lambda>c. chunk_ok c \<and> ring_of c = dex_chunks \<and> event_pid c = pid) cs \<and>
     list_all (\<lambda>f. ring_of f = read_failures) fs \<and> length fs \<le> 1"
proof (cases rule: submit_partial_cases [where e = e and b = b and pid = pid and sz = sz and s = s])
  case idle
  then show ?thesis by (intro exI [of _ "[]"]) simp
next
  case (sent to cs fs)
  from sent(5) have "list_all (\<lambda>f. ring_of f = read_failures) fs" "length fs \<le> 1"
    by (auto simp: failure_tail_def read_failure_event_def)
  with emits_frame(9) [OF sent(6)] tiles_chunk_ok [OF sent(3)] show ?thesis
    by (intro exI [of _ cs] exI [of _ fs]) (simp add: list_all_iff)
qed

text \<open>The announcement, unless the DEX has been announced before.\<close>

definition announcement :: "env \<Rightarrow> u32 \<Rightarrow> u64 \<Rightarrow> u32 \<Rightarrow> bpf_state \<Rightarrow> (bpf_event \<times> u64) list" where
  "announcement e pid b z s =
     (if map_of (dexFileCache_map s) (dex_key e pid b z) = Some 1 then []
      else [(Dex_event \<lparr>ded_begin = b, ded_pid = pid, ded_size = z\<rparr>, BPF_RB_FORCE_WAKEUP)])"

lemma submit_dex_from_begin_out:
  assumes "b \<noteq> 0" and "z \<noteq> 0" and "z \<le> MAX_DEX_FILE_SIZE"
    and "e_rb_ok e events (rb_tries s events)"
  shows "\<exists>cs fs. out (submit_dex_from_begin e pid b z s) =
      out s @ announcement e pid b z s @ forced (cs @ fs) \<and>
    list_all (\<lambda>c. chunk_ok c \<and> ring_of c = dex_chunks \<and> event_pid c = pid) cs \<and>
    list_all (\<lambda>f. ring_of f = read_failures) fs \<and> length fs \<le> 1 \<and>
    methodCodeCache_map (submit_dex_from_begin e pid b z s) = methodCodeCache_map s \<and>
    art_layout_map (submit_dex_from_begin e pid b z s) = art_layout_map s \<and>
    bufs_m (submit_dex_from_begin e pid b z s) = bufs_m s \<and>
    map_of (dexFileCache_map (submit_dex_from_begin e pid b z s)) (dex_key e pid b z) = Some 1"
proof (cases "map_of (dexFileCache_map s) (dex_key e pid b z) = Some 1")
  case True
  with assms submit_partial_out [of e b pid z s] submit_partial_frame [of e b pid z s] show ?thesis
    by (simp add: submit_dex_from_begin_def announcement_def not_less [symmetric])
next
  case False
  let ?ev = "Dex_event \<lparr>ded_begin = b, ded_pid = pid, ded_size = z\<rparr>"
  let ?s1 = "send e ?ev BPF_RB_FORCE_WAKEUP s"
  have em: "emits s [(?ev, BPF_RB_FORCE_WAKEUP)] ?s1" using assms(4) by (intro send_ok) simp
  have run: "submit_dex_from_begin e pid b z s = (submit_dex_chunks_partial e b pid z ?s1)
      \<lparr>dexFileCache_map := AList.update (dex_key e pid b z) 1
         (dexFileCache_map (submit_dex_chunks_partial e b pid z ?s1))\<rparr>"
    using assms(1-3) False by (simp add: submit_dex_from_begin_def Let_def not_less [symmetric])
  from submit_partial_out [of e b pid z ?s1] submit_partial_frame [of e b pid z ?s1] False
    emits_frame [OF em] show ?thesis
    by (simp add: run announcement_def update_conv')
qed

lemma method_code_cong:
  assumes "methodCodeCache_map s' = methodCodeCache_map s" and "art_layout_map s' = art_layout_map s"
  shows "captured_code e am s' = captured_code e am s"
  unfolding captured_code_def method_code_def get_art_layout_def assms ..

text \<open>The magic at the DEX's address makes the later test of its first byte redundant.\<close>

lemma dex_magic_first_byte:
  assumes "read_u32 e a = Some 0x0a786564"
  shows "probe_u8 e a = 0x64"
proof -
  from assms obtain bs where bs: "read_bytes (e_mem e) a 4 = Some bs" "le_word bs = (0x0a786564 :: u32)"
    by (auto simp: read_u32_def bpf_probe_read_user_def)
  have "bs = le_bytes 4 (le_word bs :: u32)"
    using read_bytes_length [OF bs(1)] by (intro le_bytes_le_word [symmetric]) simp_all
  then have "bs ! 0 = 0x64" by (simp add: bs(2) le_bytes_def upt_rec)
  with read_bytes_nth [OF bs(1), of 0] have "e_mem e a = Some 0x64" by simp
  then show ?thesis
    by (simp add: probe_u8_def or_zero_def read_u8_def bpf_probe_read_user_def)
qed

definition layout_note :: "config_t option \<Rightarrow> u32 \<Rightarrow> u64 \<Rightarrow> u64 \<Rightarrow> u32 \<Rightarrow> (bpf_event \<times> u64) list" where
  "layout_note conf pid am b z =
     (case conf of None \<Rightarrow> [] | Some c \<Rightarrow>
        if cfg_debug_layout c = 0 then []
        else [(Layout_debug \<lparr>lde_art_method_ptr = am, lde_code_item_ptr = 0, lde_begin = b,
           lde_pid = pid, lde_size = z, lde_reason = 0, lde_source = LAYOUT_SOURCE_ART_CHAIN\<rparr>,
           BPF_RB_FORCE_WAKEUP)])"

lemma layout_note_emits:
  assumes "\<forall>r n. e_rb_ok e r n"
  shows "emits s (layout_note conf pid am b z)
    (submit_layout_debug_event e conf pid am 0 b z 0 LAYOUT_SOURCE_ART_CHAIN s)"
proof -
  have "LAYOUT_SOURCE_ART_CHAIN \<noteq> LAYOUT_SOURCE_CODE_ITEM" by (simp add: layout_consts)
  then show ?thesis
    using assms
    by (auto simp: submit_layout_debug_event_def layout_note_def Let_def
        intro!: send_ok split: option.split)
qed

lemma handle_art_method_records:
  assumes "\<not> is_compressed_ref am" and "\<forall>r n. e_rb_ok e r n"
    and res: "resolve_dex_from_art_method e am (get_art_layout s) = (True, b, z, idx)"
    and buf: "bufs_m s (e_cpu e) = Some buf"
  shows "\<exists>cs fs m. out (handle_art_method e conf pid am s) =
      out s @ layout_note conf pid am b z @ announcement e pid b z s @ forced (cs @ fs) @
      [(Method_event m (captured_code e am s), BPF_RB_FORCE_WAKEUP)] \<and>
    list_all (\<lambda>c. chunk_ok c \<and> ring_of c = dex_chunks \<and> event_pid c = pid) cs \<and>
    list_all (\<lambda>f. ring_of f = read_failures) fs \<and> length fs \<le> 1 \<and>
    med_begin m = b \<and> med_pid m = pid \<and> med_size m = z \<and> med_art_method_ptr m = am \<and>
    med_method_index m = idx \<and> unat (med_codeitem_size m) = length (captured_code e am s)"
proof -
  note hdr = resolve_dex_True [OF res]
  from hdr(1) have b: "b \<noteq> 0" by (rule dex_header_at_nonzero)
  from dex_size_ok_pos [OF dex_header_at_size [OF hdr(1)]] have z: "z \<noteq> 0" "z \<le> MAX_DEX_FILE_SIZE"
    by simp_all
  have first: "probe_u8 e (untag b) = 0x64"
    using hdr(1) by (intro dex_magic_first_byte) (simp add: dex_header_at_def)
  let ?s1 = "submit_layout_debug_event e conf pid am 0 b z 0 LAYOUT_SOURCE_ART_CHAIN s"
  let ?s2 = "submit_dex_from_begin e pid b z ?s1"
  note f1 = emits_frame [OF layout_note_emits [OF assms(2), of s conf pid am b z]]
  have ok: "e_rb_ok e events (rb_tries ?s1 events)" using assms(2) by simp
  from submit_dex_from_begin_out [OF b z ok, of pid] obtain cs fs where
    o2: "out ?s2 = out ?s1 @ announcement e pid b z ?s1 @ forced (cs @ fs)"
    and l2: "list_all (\<lambda>c. chunk_ok c \<and> ring_of c = dex_chunks \<and> event_pid c = pid) cs"
      "list_all (\<lambda>f. ring_of f = read_failures) fs" "length fs \<le> 1"
    and m2: "methodCodeCache_map ?s2 = methodCodeCache_map ?s1" "art_layout_map ?s2 = art_layout_map ?s1"
      "bufs_m ?s2 = bufs_m ?s1" by blast
  obtain r cis s3 where run: "read_method_bytecode e am ?s2 = (r, cis, s3)"
    by (metis prod_cases3)
  have buf2: "bufs_m ?s2 (e_cpu e) = Some buf" using buf m2(3) f1(8) by simp
  from method_event_sent [OF buf2 run, of b pid z idx] obtain m s4 where
    sc: "scratch_eq ?s2 s4" and em: "emits s4
      (if e_rb_ok e method_events (rb_tries ?s2 method_events)
       then [(Method_event (fill_method b pid z am idx cis m) (captured_code e am ?s2),
              BPF_RB_FORCE_WAKEUP)] else [])
      (submit_method_event_with_bytecode e b pid z am idx cis s3)"
    and len: "unat cis = length (captured_code e am ?s2)" by blast
  have cc: "captured_code e am ?s2 = captured_code e am s"
    using m2 f1 by (intro method_code_cong) simp_all
  have ann: "announcement e pid b z ?s1 = announcement e pid b z s"
    using f1(3) by (simp add: announcement_def)
  have "handle_art_method e conf pid am s = submit_method_event_with_bytecode e b pid z am idx cis s3"
    using assms(1) res b z first run by (simp add: handle_art_method_def Let_def)
  with emits_frame(9) [OF em] scratch_eq_same(1) [OF sc] o2 f1(9) assms(2) cc ann len l2 show ?thesis
    by (intro exI [of _ cs] exI [of _ fs] exI [of _ "fill_method b pid z am idx cis m"]) simp
qed

end
