(* ===== verification/Samples.thy ===== *)
theory Samples
  imports Pipeline Receiver_Inv Method_Events Hex
begin

text \<open>
  A small traced process on which the properties are exercised: an \<^verbatim>\<open>ArtMethod\<close> with its
  class, dex cache, \<^verbatim>\<open>DexFile\<close>, code item and a header-only DEX of 112 bytes.
\<close>

definition region :: "u64 \<Rightarrow> u8 list \<Rightarrow> u64 \<Rightarrow> u8 option" where
  "region b xs a = (if unat (a - b) < length xs then Some (xs ! unat (a - b)) else None)"

lemma region_read:
  assumes "i + n \<le> length xs" and "length xs \<le> 0x100000000"
  shows "read_bytes (region b xs) (b + of_nat i) n = Some (take n (drop i xs))"
proof -
  have at: "region b xs (b + of_nat i + of_nat j) = Some (xs ! (i + j))" if "j < n" for j
  proof -
    have "unat (of_nat (i + j) :: u64) = i + j"
      using that assms unfolding unat_of_nat by simp
    moreover have "b + of_nat i + of_nat j - b = (of_nat (i + j) :: u64)" by simp
    ultimately have "unat (b + of_nat i + of_nat j - b) = i + j" by simp
    with that assms show ?thesis by (simp add: region_def)
  qed
  then obtain bs where bs: "read_bytes (region b xs) (b + of_nat i) n = Some bs"
    using read_bytes_Some_iff [of "region b xs" "b + of_nat i" n] by auto
  have "bs = take n (drop i xs)"
  proof (rule nth_equalityI)
    show "length bs = length (take n (drop i xs))"
      using read_bytes_length [OF bs] assms(1) by simp
    fix j assume "j < length bs"
    then have j: "j < n" using read_bytes_length [OF bs] by simp
    from read_bytes_nth [OF bs j] at [OF j] j assms(1) show "bs ! j = take n (drop i xs) ! j"
      by (simp add: nth_append)
  qed
  with bs show ?thesis by simp
qed

definition sample_dex :: "u8 list" where
  "sample_dex = [0x64, 0x65, 0x78, 0x0a, 0x30, 0x33, 0x35, 0] @ replicate 24 7 @
     [0x70, 0, 0, 0, 0x70, 0, 0, 0, 0x78, 0x56, 0x34, 0x12] @ replicate 68 0"

definition sample_base :: u64 where "sample_base = 0x7000000000"
definition sample_begin :: u64 where "sample_begin = 0x7000000040"

text \<open>
  From \<open>sample_base\<close>: the ArtMethod (24 bytes), the DexFile (16), the code item (20),
  four bytes of padding and the DEX. From \<open>0x1000\<close>: the class (20) and the dex cache.
\<close>

definition sample_high :: "u8 list" where
  "sample_high =
     [0, 0x10, 0, 0, 0, 0, 0, 0, 5, 0, 0, 0, 0, 0, 0, 0, 0x28, 0, 0, 0, 0x70, 0, 0, 0] @
     [0, 0, 0, 0, 0, 0, 0, 0, 0x40, 0, 0, 0, 0x70, 0, 0, 0] @
     replicate 12 0 @ [2, 0, 0, 0, 0x12, 0, 0x0f, 0] @ replicate 4 0 @ sample_dex"

definition sample_low :: "u8 list" where
  "sample_low = replicate 16 0 @ [0x14, 0x10, 0, 0] @ replicate 16 0 @
     [0x18, 0, 0, 0, 0x70, 0, 0, 0]"

definition sample_mem :: "u64 \<Rightarrow> u8 option" where
  "sample_mem a = (if a < 0x100000000 then region 0x1000 sample_low a
     else region sample_base sample_high a)"

definition blank_method :: method_event_data_t where
  "blank_method = \<lparr>med_begin = 0, med_pid = 0, med_size = 0, med_thread = 0,
     med_art_method_ptr = 0, med_method_index = 0, med_codeitem_size = 0\<rparr>"

definition sample_env :: env where
  "sample_env = \<lparr>e_mem = sample_mem, e_pid_tgid = 0x0000002A0000002B, e_uid_gid = 10123,
     e_cpu = 0, e_rb_ok = (\<lambda>_ _. True), e_stale_method = blank_method\<rparr>"

definition sample_regs :: "u64 \<Rightarrow> u64 \<Rightarrow> u64 \<Rightarrow> u64 \<Rightarrow> user_pt_regs" where
  "sample_regs a b c d = \<lparr>pr_regs = (\<lambda>i. if i = 0 then a else if i = 1 then b else if i = 2 then c
     else if i = 3 then d else 0), pr_sp = 0, pr_pc = 0, pr_pstate = 0\<rparr>"

definition sample_state :: bpf_state where "sample_state = start_state None None"

definition sample_host :: host where
  "sample_host = \<lparr>h_skip_system = (\<lambda>_ _ _. False), h_sha1 = (\<lambda>_. replicate 20 0),
     h_write_ok = (\<lambda>_. True), h_hex_encode = hex_encode\<rparr>"

lemmas sample_defs = sample_mem_def sample_env_def sample_state_def sample_base_def
  sample_begin_def sample_host_def

lemma sample_lengths [simp]: "length sample_dex = 112" "length sample_high = 176" "length sample_low = 44"
  by (simp_all add: sample_dex_def sample_high_def sample_low_def)

text \<open>Reads inside the two regions compute.\<close>

lemma read_bytes_cong:
  "(\<And>i. i < n \<Longrightarrow> m (a + of_nat i) = m' (a + of_nat i)) \<Longrightarrow> read_bytes m a n = read_bytes m' a n"
proof (induction n arbitrary: a)
  case 0
  then show ?case by simp
next
  case (Suc n)
  have "m a = m' a" using Suc.prems [of 0] by simp
  moreover have "read_bytes m (a + 1) n = read_bytes m' (a + 1) n"
  proof (rule Suc.IH)
    fix i assume "i < n"
    then show "m (a + 1 + of_nat i) = m' (a + 1 + of_nat i)"
      using Suc.prems [of "Suc i"] by (simp add: add.assoc)
  qed
  ultimately show ?case by (simp cong: option.case_cong)
qed

lemma unat_base_add:
  assumes "i < 0x10000" and "unat b < 0x10000000000"
  shows "unat ((b :: u64) + of_nat i) = unat b + i"
proof -
  have "unat (of_nat i :: u64) = i"
    using assms(1) unfolding unat_of_nat by simp
  then show ?thesis using assms by (subst unat_add_lem [THEN iffD1]) simp_all
qed

lemma high_read:
  assumes "unat (a - 0x7000000000) + n \<le> 176"
  shows "read_bytes sample_mem a n = Some (take n (drop (unat (a - 0x7000000000)) sample_high))"
proof -
  let ?i = "unat (a - 0x7000000000)"
  have a: "a = 0x7000000000 + of_nat ?i" by simp
  have "read_bytes sample_mem (0x7000000000 + of_nat ?i) n =
      read_bytes (region 0x7000000000 sample_high) (0x7000000000 + of_nat ?i) n"
  proof (rule read_bytes_cong)
    fix j assume "j < n"
    then have "unat (0x7000000000 + of_nat (?i + j) :: u64) = 0x7000000000 + (?i + j)"
      using assms unat_base_add [of "?i + j" "0x7000000000"] by simp
    then have "\<not> (0x7000000000 + of_nat (?i + j) :: u64) < 0x100000000"
      by (simp add: word_less_nat_alt del: of_nat_add)
    then show "sample_mem (0x7000000000 + of_nat ?i + of_nat j) =
        region 0x7000000000 sample_high (0x7000000000 + of_nat ?i + of_nat j)"
      by (simp add: sample_mem_def sample_base_def add.assoc)
  qed
  with region_read [of ?i n sample_high "0x7000000000"] assms show ?thesis
    unfolding a [symmetric] by simp
qed

lemma low_read:
  assumes "unat (a - 0x1000) + n \<le> 44"
  shows "read_bytes sample_mem a n = Some (take n (drop (unat (a - 0x1000)) sample_low))"
proof -
  let ?i = "unat (a - 0x1000)"
  have a: "a = 0x1000 + of_nat ?i" by simp
  have "read_bytes sample_mem (0x1000 + of_nat ?i) n =
      read_bytes (region 0x1000 sample_low) (0x1000 + of_nat ?i) n"
  proof (rule read_bytes_cong)
    fix j assume "j < n"
    then have "unat (0x1000 + of_nat (?i + j) :: u64) = 0x1000 + (?i + j)"
      using assms unat_base_add [of "?i + j" "0x1000"] by simp
    then have "(0x1000 + of_nat (?i + j) :: u64) < 0x100000000"
      using assms \<open>j < n\<close> by (simp add: word_less_nat_alt del: of_nat_add)
    then show "sample_mem (0x1000 + of_nat ?i + of_nat j) =
        region 0x1000 sample_low (0x1000 + of_nat ?i + of_nat j)"
      by (simp add: sample_mem_def add.assoc)
  qed
  with region_read [of ?i n sample_low "0x1000"] assms show ?thesis
    unfolding a [symmetric] by simp
qed

lemmas sample_read = high_read low_read sample_high_def sample_low_def sample_dex_def

lemmas probe_defs = probe_u8_def probe_u32_def probe_u64_def or_zero_def read_u8_def read_u32_def
  read_u64_def bpf_probe_read_user_def

lemma sample_dex_read: "read_bytes (e_mem sample_env) sample_begin 112 = Some sample_dex"
  by (simp add: sample_defs high_read sample_high_def)

lemma sample_header: "dex_header_at sample_env 0x20 sample_begin 112"
  by (simp add: dex_header_at_def probe_defs sample_defs untag_def dex_size_ok_def sample_read)

lemma sample_accepted: "dex_accepted sample_dex"
  by (simp add: dex_accepted_iff DEX_FILE_MAGIC_def) (simp add: sample_dex_def)

lemma sample_unobstructed: "unobstructed sample_env sample_begin sample_dex"
  using sample_dex_read by (simp add: unobstructed_def sample_env_def)

lemma sample_host_saves: "host_saves sample_host pid b sample_dex"
  using sample_accepted by (simp add: host_saves_def sample_host_def)

lemma sample_header_ok: "looks_like_dex_header sample_env sample_begin 0x20 = (True, 112)"
  using sample_header by (simp add: looks_like_dex_header_iff)

lemma sample_begin_found:
  "read_valid_dex_begin sample_env 0x7000000018 0x08 0x20 = (True, sample_begin, 112)"
proof -
  have "untag (probe_u64 sample_env 0x7000000020) = sample_begin"
    by (simp add: probe_defs sample_defs untag_def sample_read)
  with sample_header_ok show ?thesis
    by (simp add: read_valid_dex_begin_def begin_offsets_def Let_def)
qed

lemma sample_chain:
  "read_dex_from_art_method sample_env sample_base 0 0x10 0x10 0x08 0x20 = (True, sample_begin, 112)"
proof -
  have "probe_u32 sample_env sample_base = 0x1000" and "probe_u32 sample_env 0x1010 = 0x1014"
    and "probe_u64 sample_env 0x1024 = 0x7000000018"
    by (simp_all add: probe_defs sample_defs sample_read)
  with sample_begin_found show ?thesis
    by (simp add: read_dex_from_art_method_def untag_def sample_begin_def)
qed

lemma sample_resolve:
  "resolve_dex_from_art_method sample_env sample_base default_art_layout =
     (True, sample_begin, 112, 5)"
proof -
  have "probe_u32 sample_env (sample_base + 8) = 5"
    by (simp add: probe_defs sample_defs sample_read)
  with sample_chain show ?thesis
    by (simp add: resolve_dex_from_art_method_def default_art_layout_def)
qed

lemma sample_method_code:
  "method_code sample_env sample_base sample_state =
     Some (bytecode_key sample_env sample_base 0x7000000028 2, [0x12, 0, 0x0f, 0])"
proof -
  have "get_art_layout sample_state = default_art_layout"
    by (simp add: sample_state_def start_state_def get_art_layout_def)
  moreover have "read_u64 sample_env (sample_base + 0x10) = Some 0x7000000028"
    and "read_u32 sample_env 0x7000000034 = Some 2"
    and "bpf_probe_read_user sample_env 4 0x7000000038 = Some [0x12, 0, 0x0f, 0]"
    by (simp_all add: probe_defs sample_defs sample_read)
  ultimately show ?thesis
    by (simp add: method_code_def default_art_layout_def untag_def sample_state_def start_state_def
        empty_state_def)
qed

text \<open>A method with 12288 code units, every byte of memory readable.\<close>

definition long_env :: env where
  "long_env = sample_env\<lparr>e_mem := (\<lambda>a. if a = 0x7000000011 then Some 1
     else if a = 0x10D then Some 0x30 else Some 0)\<rparr>"

lemma read_bytes_numeral:
  "read_bytes m a (numeral k) = (case m a of None \<Rightarrow> None
     | Some b \<Rightarrow> map_option (Cons b) (read_bytes m (a + 1) (pred_numeral k)))"
  by (simp add: numeral_eq_Suc)

lemma long_method_code:
  "\<exists>bytes. method_code long_env 0x7000000000 sample_state =
     Some (bytecode_key long_env 0x7000000000 0x100 0x3000, bytes)"
proof -
  have "get_art_layout sample_state = default_art_layout"
    by (simp add: sample_state_def start_state_def get_art_layout_def)
  moreover have "read_u64 long_env 0x7000000010 = Some 0x100" and "read_u32 long_env 0x10C = Some 0x3000"
    by (simp_all add: probe_defs long_env_def read_bytes_numeral)
  moreover have "\<exists>bytes. bpf_probe_read_user long_env 16344 0x110 = Some bytes"
    unfolding bpf_probe_read_user_def read_bytes_Some_iff by (intro allI impI) (simp add: long_env_def)
  ultimately show ?thesis
    by (auto simp: method_code_def default_art_layout_def untag_def sample_state_def start_state_def
        empty_state_def)
qed

end
