(* ===== verification/Dex_Samples.thy ===== *)
theory Dex_Samples
  imports Samples User_Machine
begin

text \<open>
  Small inputs for the properties of the user-space side: a DEX of 163 bytes that declares
  the one method \<^verbatim>\<open>void a.f()\<close>, and processes whose memory is one or two regions.
\<close>

section \<open>A DEX with one method\<close>

definition tiny_header :: "u8 list" where
  "tiny_header = [0x64, 0x65, 0x78, 0x0a, 0x30, 0x33, 0x35, 0] @ replicate 24 0 @
     [0xA3, 0, 0, 0, 0x70, 0, 0, 0, 0x78, 0x56, 0x34, 0x12] @ replicate 12 0 @
     [3, 0, 0, 0, 0x70, 0, 0, 0, 2, 0, 0, 0, 0x7C, 0, 0, 0, 1, 0, 0, 0, 0x84, 0, 0, 0] @
     replicate 8 0 @ [1, 0, 0, 0, 0x90, 0, 0, 0] @ replicate 16 0"

text \<open>The string, type, prototype and method tables, then the strings \<open>V\<close>, \<open>La;\<close> and \<open>f\<close>.\<close>

definition tiny_body :: "u8 list" where
  "tiny_body = [0x98, 0, 0, 0, 0x9B, 0, 0, 0, 0xA0, 0, 0, 0] @ [0, 0, 0, 0, 1, 0, 0, 0] @
     [0, 0, 0, 0, 0, 0, 0, 0, 0, 0, 0, 0] @ [1, 0, 0, 0, 2, 0, 0, 0] @
     [1, 0x56, 0] @ [3, 0x4C, 0x61, 0x3B, 0] @ [1, 0x66, 0]"

definition tiny_dex :: "u8 list" where "tiny_dex = tiny_header @ tiny_body"

definition tiny_info :: method_info where
  "tiny_info = \<lparr>mi_class_name = [0x4C, 0x61, 0x3B], mi_method_name = [0x66],
     mi_return_type = [0x56], mi_parameters = []\<rparr>"

lemma tiny_lengths [simp]: "length tiny_header = 112" "length tiny_body = 51" "length tiny_dex = 163"
  by (simp_all add: tiny_header_def tiny_body_def tiny_dex_def)

lemma tiny_magic: "le_word (take 4 tiny_header) = DEX_FILE_MAGIC"
  by (simp add: tiny_header_def DEX_FILE_MAGIC_def)

definition tiny_parsed :: dex_header where
  "tiny_parsed = (case dex_parser_new tiny_dex of Inr header \<Rightarrow> header)"

lemma tiny_parser: "dex_parser_new tiny_dex = Inr tiny_parsed"
proof -
  have "dex_accepted tiny_dex"
    using tiny_magic by (simp add: dex_accepted_iff tiny_dex_def)
  then show ?thesis
    by (auto simp: dex_accepted_def tiny_parsed_def split: sum.splits)
qed

lemma tiny_fields:
  "dh_string_ids_size tiny_parsed = 3" "dh_string_ids_off tiny_parsed = 0x70"
  "dh_type_ids_size tiny_parsed = 2" "dh_type_ids_off tiny_parsed = 0x7C"
  "dh_proto_ids_size tiny_parsed = 1" "dh_proto_ids_off tiny_parsed = 0x84"
  "dh_method_ids_size tiny_parsed = 1" "dh_method_ids_off tiny_parsed = 0x90"
proof -
  have "slice_get tiny_dex 0 DEX_HEADER_LEN = Some tiny_header"
    by (simp add: tiny_dex_def slice_get_def DEX_HEADER_LEN_def)
  then have fields: "parse_dex_header tiny_dex = Inr \<lparr>
      dh_magic = take 8 tiny_header, dh_checksum = hdr_le32 tiny_header 8,
      dh_signature = take 20 (drop 12 tiny_header),
      dh_file_size = hdr_le32 tiny_header 32, dh_header_size = hdr_le32 tiny_header 36,
      dh_endian_tag = hdr_le32 tiny_header 40, dh_link_size = hdr_le32 tiny_header 44,
      dh_link_off = hdr_le32 tiny_header 48, dh_map_off = hdr_le32 tiny_header 52,
      dh_string_ids_size = hdr_le32 tiny_header 56, dh_string_ids_off = hdr_le32 tiny_header 60,
      dh_type_ids_size = hdr_le32 tiny_header 64, dh_type_ids_off = hdr_le32 tiny_header 68,
      dh_proto_ids_size = hdr_le32 tiny_header 72, dh_proto_ids_off = hdr_le32 tiny_header 76,
      dh_field_ids_size = hdr_le32 tiny_header 80, dh_field_ids_off = hdr_le32 tiny_header 84,
      dh_method_ids_size = hdr_le32 tiny_header 88, dh_method_ids_off = hdr_le32 tiny_header 92,
      dh_class_defs_size = hdr_le32 tiny_header 96, dh_class_defs_off = hdr_le32 tiny_header 100,
      dh_data_size = hdr_le32 tiny_header 104, dh_data_off = hdr_le32 tiny_header 108\<rparr>"
    by (simp add: parse_dex_header_def)
  have "parse_dex_header tiny_dex = Inr tiny_parsed"
    using tiny_parser by (auto simp: dex_parser_new_def Let_def split: sum.splits if_splits)
  note parsed = Inr_inject [OF trans [OF this [symmetric] fields]]
  show
    "dh_string_ids_size tiny_parsed = 3" "dh_string_ids_off tiny_parsed = 0x70"
    "dh_type_ids_size tiny_parsed = 2" "dh_type_ids_off tiny_parsed = 0x7C"
    "dh_proto_ids_size tiny_parsed = 1" "dh_proto_ids_off tiny_parsed = 0x84"
    "dh_method_ids_size tiny_parsed = 1" "dh_method_ids_off tiny_parsed = 0x90"
    by (simp_all add: parsed hdr_le32_def tiny_header_def)
qed

lemma tiny_drop: "112 \<le> a \<Longrightarrow> drop a tiny_dex = drop (a - 112) tiny_body"
  by (simp add: tiny_dex_def)

lemma uleb_small: "v < 0x80 \<Longrightarrow> encode_uleb128 v = [ucast v]"
  by (simp add: encode_uleb128.simps)

lemma tiny_strings:
  "string_data_at tiny_dex 0x98 [0x56]" "string_data_at tiny_dex 0x9B [0x4C, 0x61, 0x3B]"
  "string_data_at tiny_dex 0xA0 [0x66]"
proof -
  have d: "drop 0x98 tiny_dex = [1, 0x56, 0, 3, 0x4C, 0x61, 0x3B, 0, 1, 0x66, 0]"
    by (simp add: tiny_dex_def tiny_body_def)
  have e: "drop 0x9B tiny_dex = [3, 0x4C, 0x61, 0x3B, 0, 1, 0x66, 0]"
    by (simp add: tiny_dex_def tiny_body_def)
  have f: "drop 0xA0 tiny_dex = [1, 0x66, 0]"
    by (simp add: tiny_dex_def tiny_body_def)
  have "drop 0x98 tiny_dex = encode_uleb128 1 @ encode_mutf8 [0x56] @ [0] @
      [3, 0x4C, 0x61, 0x3B, 0, 1, 0x66, 0]"
    by (simp add: d uleb_small encode_mutf8_def mutf8_char_def)
  then show "string_data_at tiny_dex 0x98 [0x56]" by (auto simp: string_data_at_def scalar_def)
  have "drop 0x9B tiny_dex = encode_uleb128 3 @ encode_mutf8 [0x4C, 0x61, 0x3B] @ [0] @ [1, 0x66, 0]"
    by (simp add: e uleb_small encode_mutf8_def mutf8_char_def)
  then show "string_data_at tiny_dex 0x9B [0x4C, 0x61, 0x3B]"
    by (auto simp: string_data_at_def scalar_def)
  have "drop 0xA0 tiny_dex = encode_uleb128 1 @ encode_mutf8 [0x66] @ [0] @ []"
    by (simp add: f uleb_small encode_mutf8_def mutf8_char_def)
  then show "string_data_at tiny_dex 0xA0 [0x66]" unfolding string_data_at_def
    by (auto simp: scalar_def)
qed

definition tiny_parser_of :: dex_parser where
  "tiny_parser_of = \<lparr>dp_data = tiny_dex, dp_header = tiny_parsed\<rparr>"

lemma tiny_string_at:
  "string_at tiny_parser_of 0 [0x56]" "string_at tiny_parser_of 1 [0x4C, 0x61, 0x3B]"
  "string_at tiny_parser_of 2 [0x66]"
  using tiny_strings
  by (auto simp: string_at_def tiny_parser_of_def tiny_fields tiny_drop le32_def slice_get_def
      tiny_body_def)

lemma tiny_type_at: "type_at tiny_parser_of 0 [0x56]" "type_at tiny_parser_of 1 [0x4C, 0x61, 0x3B]"
  using tiny_string_at
  by (auto simp: type_at_def tiny_fields tiny_drop le32_def slice_get_def tiny_body_def
      tiny_parser_of_def)

lemma tiny_proto_at: "proto_at tiny_parser_of 0 \<lparr>pi_return_type = [0x56], pi_parameters = []\<rparr>"
proof -
  have "slice_get tiny_dex 0x84 0x90 = Some (le_bytes 4 (0 :: u32) @ le_bytes 4 (0 :: u32) @ le_bytes 4 (0 :: u32))"
    by (simp add: tiny_drop slice_get_def tiny_body_def le_bytes_def upt_rec)
  then show ?thesis
    using tiny_type_at(1)
    by (auto simp: proto_at_def parameters_at_def tiny_parser_of_def tiny_fields
        intro!: exI [of _ 0])
qed

lemma tiny_method_at: "method_at tiny_parser_of 0 tiny_info"
proof -
  have "slice_get tiny_dex 0x90 0x98 = Some (le_bytes 2 (1 :: u16) @ le_bytes 2 (0 :: u16) @ le_bytes 4 (2 :: u32))"
    by (simp add: tiny_drop slice_get_def tiny_body_def le_bytes_def upt_rec)
  note facts = this tiny_type_at(2) tiny_string_at(3) tiny_proto_at
  show ?thesis
    unfolding method_at_def
    by (rule conjI, simp add: tiny_parser_of_def tiny_fields,
        rule exI [of _ 1], rule exI [of _ 0], rule exI [of _ 2], insert facts)
      (simp add: tiny_parser_of_def tiny_fields tiny_info_def)
qed

lemma tiny_describes: "describes tiny_dex 0 tiny_info"
  using tiny_method_at by (simp add: describes_def tiny_parser tiny_parser_of_def)

lemma tiny_pretty: "pretty_method tiny_info = str_lit ''void a.f()''"
  by (simp add: pretty_method_def tiny_info_def Let_def fmt_type.simps primitive_name_def
      fmt_class_name_def is_class_descriptor_def utf8_char_def)

lemma le_word_zeros [simp]: "le_word (replicate n 0) = 0"
  by (induction n) simp_all

section \<open>Processes\<close>

definition whole_reader :: "(u64 \<Rightarrow> u8 option) \<Rightarrow> remote" where
  "whole_reader m = \<lparr>rm_readv = (\<lambda>_ a n. read_bytes m a n), rm_running = (\<lambda>_. True)\<rparr>"

lemma whole_reader_reads: "reads_memory (whole_reader m) pid m"
  by (auto simp: reads_memory_def whole_reader_def dest: read_bytes_length)

definition sample_world :: "(u64 \<Rightarrow> u8 option) \<Rightarrow> world" where
  "sample_world m = \<lparr>w_remote = whole_reader m, w_running = True, w_second_passed = False,
     w_write_elf_ok = (\<lambda>_ _ _. True)\<rparr>"

lemma sample_world_simps [simp]:
  "w_remote (sample_world m) = whole_reader m" "w_running (sample_world m)"
  by (simp_all add: sample_world_def)

text \<open>The fallback on the sample DEX.\<close>

lemma sample_image: "read_bytes (region sample_begin sample_dex) sample_begin 112 = Some sample_dex"
  using region_read [of 0 112 sample_dex sample_begin] by simp

lemma sample_file_size: "le32 sample_dex 0x20 = Some 112"
  by (simp add: sample_dex_def le32_def slice_get_def)

lemma sample_fallback:
  "files (handle_read_failure sample_host (sample_world (region sample_begin sample_dex))
     (image [0, 0, 0, 0] (Read_failure \<lparr>drf_begin = sample_begin, drf_pid = 42, drf_size = 112,
        drf_failed_offset = 0\<rparr>)) dump_state_new) = [(Dex_plain 42 sample_begin 112, sample_dex)]"
  "dex_cache (handle_read_failure sample_host (sample_world (region sample_begin sample_dex))
     (image [0, 0, 0, 0] (Read_failure \<lparr>drf_begin = sample_begin, drf_pid = 42, drf_size = 112,
        drf_failed_offset = 0\<rparr>)) dump_state_new) (42, sample_begin) = Some sample_dex"
proof -
  have z: "dex_len sample_dex = 112" by (simp add: dex_len_def)
  have st: "key_fresh dump_state_new 42 sample_begin (dex_len sample_dex)"
    by (simp add: key_fresh_def dump_state_new_def)
  have ev: "failure_of 42 sample_begin (dex_len sample_dex) \<lparr>drf_begin = sample_begin,
      drf_pid = 42, drf_size = 112, drf_failed_offset = 0\<rparr>"
    by (simp add: failure_of_def z sample_begin_def)
  have mem: "reads_memory (w_remote (sample_world (region sample_begin sample_dex))) 42
      (region sample_begin sample_dex)"
    by (simp add: whole_reader_reads)
  note all = fallback_fetches_all [OF mem _ sample_host_saves _ ev _ _ st, where ex = "[0, 0, 0, 0]"]
  show "files (handle_read_failure sample_host (sample_world (region sample_begin sample_dex))
     (image [0, 0, 0, 0] (Read_failure \<lparr>drf_begin = sample_begin, drf_pid = 42, drf_size = 112,
        drf_failed_offset = 0\<rparr>)) dump_state_new) = [(Dex_plain 42 sample_begin 112, sample_dex)]"
    using all(1) sample_image sample_file_size z
    by (simp add: dump_state_new_def del: image.simps)
  show "dex_cache (handle_read_failure sample_host (sample_world (region sample_begin sample_dex))
     (image [0, 0, 0, 0] (Read_failure \<lparr>drf_begin = sample_begin, drf_pid = 42, drf_size = 112,
        drf_failed_offset = 0\<rparr>)) dump_state_new) (42, sample_begin) = Some sample_dex"
    using all(2) sample_image sample_file_size z by (simp del: image.simps)
qed

section \<open>A DEX of three pages with a hole\<close>

definition first_page :: "u8 list" where
  "first_page = take 32 sample_dex @ [0, 0x30, 0, 0] @ drop 36 sample_dex @ replicate 3984 0"

definition holed_memory :: "u64 \<Rightarrow> u8 option" where
  "holed_memory a = (if a < 0x6000 then region 0x5000 first_page a
     else region 0x7000 (replicate 0x1000 7) a)"

lemma first_page_length [simp]: "length first_page = 0x1000"
  by (simp add: first_page_def)

lemma first_page_size: "le32 first_page 0x20 = Some 0x3000"
  by (simp add: first_page_def le32_def slice_get_def)

lemma first_page_accepted: "dex_accepted (first_page @ rest)"
  by (simp add: dex_accepted_iff first_page_def sample_dex_def DEX_FILE_MAGIC_def)

lemma small_address:
  "i < 0x3000 \<Longrightarrow> unat ((0x5000 :: u64) + of_nat i) = 0x5000 + i"
  using unat_base_add [of i "0x5000"] by simp

lemma holed_pages:
  "read_bytes holed_memory 0x5000 0x1000 = Some first_page"
  "read_bytes holed_memory 0x6000 0x1000 = None"
  "read_bytes holed_memory 0x7000 0x1000 = Some (replicate 0x1000 7)"
proof -
  have "read_bytes holed_memory 0x5000 0x1000 = read_bytes (region 0x5000 first_page) 0x5000 0x1000"
  proof (rule read_bytes_cong)
    fix i :: nat assume "i < 0x1000"
    with small_address [of i] have "0x5000 + of_nat i < (0x6000 :: u64)"
      by (simp add: word_less_nat_alt)
    then show "holed_memory (0x5000 + of_nat i) = region 0x5000 first_page (0x5000 + of_nat i)"
      by (simp add: holed_memory_def)
  qed
  with region_read [of 0 "0x1000" first_page "0x5000"]
  show "read_bytes holed_memory 0x5000 0x1000 = Some first_page" by simp
  have "holed_memory 0x6000 = None" by (simp add: holed_memory_def region_def)
  with read_bytes_numeral [of holed_memory "0x6000"]
  show "read_bytes holed_memory 0x6000 0x1000 = None" by simp
  have "read_bytes holed_memory 0x7000 0x1000 =
      read_bytes (region 0x7000 (replicate 0x1000 7)) 0x7000 0x1000"
  proof (rule read_bytes_cong)
    fix i :: nat assume "i < 0x1000"
    with small_address [of "0x2000 + i"] have "\<not> 0x7000 + of_nat i < (0x6000 :: u64)"
      by (simp add: word_less_nat_alt add.assoc)
    then show "holed_memory (0x7000 + of_nat i) =
        region 0x7000 (replicate 0x1000 7) (0x7000 + of_nat i)"
      by (simp add: holed_memory_def)
  qed
  with region_read [of 0 "0x1000" "replicate 0x1000 7" "0x7000"]
  show "read_bytes holed_memory 0x7000 0x1000 = Some (replicate 0x1000 7)" by simp
qed

section \<open>A DEX that takes two calls\<close>

definition big_dex :: "u8 list" where "big_dex = sample_dex @ replicate 16774144 0"

definition big_env :: env where
  "big_env = sample_env\<lparr>e_mem := region 0x5000 big_dex\<rparr>"

lemma big_length [simp]: "length big_dex = 16774256"
  by (simp add: big_dex_def)

lemma big_accepted: "dex_accepted big_dex"
  by (simp add: dex_accepted_iff big_dex_def sample_dex_def DEX_FILE_MAGIC_def)

lemma big_unobstructed: "unobstructed big_env 0x5000 big_dex"
  using region_read [of 0 16774256 big_dex "0x5000"]
  by (simp add: unobstructed_def big_env_def sample_env_def)

lemma tiny_accepted: "dex_accepted tiny_dex"
  using tiny_parser by (simp add: dex_accepted_def)

section \<open>A captured method body\<close>

lemma sample_code: "h_hex_encode sample_host [0x0E, 0] = str_lit ''0e00''"
  by (simp add: sample_host_def hex_encode_def hex_digit_def)

end
