(* ===== verification/Fix_Samples.thy ===== *)
theory Fix_Samples
  imports Repair_Result Dex_Samples
begin

text \<open>
  A DEX of 272 bytes for the properties of the repair: one class \<^verbatim>\<open>a\<close> with one instance method
  \<^verbatim>\<open>void f(a)\<close>, whose code item has three registers, two of them arguments, and two empty code
  units; class data, code items and the map list are sections of its map.
\<close>

section \<open>The file\<close>

definition item_header :: "u8 list" where
  "item_header = [0x64, 0x65, 0x78, 0x0a, 0x30, 0x33, 0x35, 0] @ replicate 24 0 @
     [0x10, 1, 0, 0, 0x70, 0, 0, 0, 0x78, 0x56, 0x34, 0x12] @ replicate 8 0 @ [0xE8, 0, 0, 0] @
     [3, 0, 0, 0, 0x70, 0, 0, 0, 2, 0, 0, 0, 0x7C, 0, 0, 0, 1, 0, 0, 0, 0x84, 0, 0, 0] @
     replicate 8 0 @ [1, 0, 0, 0, 0x90, 0, 0, 0] @ [1, 0, 0, 0, 0x98, 0, 0, 0] @
     [0x58, 0, 0, 0, 0xB8, 0, 0, 0]"

text \<open>String, type, prototype, method and class tables.\<close>

definition item_tables :: "u8 list" where
  "item_tables = [0xB8, 0, 0, 0, 0xBB, 0, 0, 0, 0xC0, 0, 0, 0] @ [0, 0, 0, 0, 1, 0, 0, 0] @
     [0, 0, 0, 0, 0, 0, 0, 0, 0xC4, 0, 0, 0] @ [1, 0, 0, 0, 2, 0, 0, 0] @
     [1, 0, 0, 0] @ replicate 20 0 @ [0xE0, 0, 0, 0] @ replicate 4 0"

text \<open>Strings \<open>V\<close>, \<open>La;\<close> and \<open>f\<close>, the parameter list, the code item, the class data.\<close>

definition item_data :: "u8 list" where
  "item_data = [1, 0x56, 0, 3, 0x4C, 0x61, 0x3B, 0, 1, 0x66, 0, 0] @ [1, 0, 0, 0, 1, 0, 0, 0] @
     [3, 0, 2, 0, 0, 0, 0, 0, 0, 0, 0, 0, 2, 0, 0, 0, 0, 0, 0, 0] @ [0, 0, 1, 0, 0, 1, 0xCC, 1]"

definition item_map :: "map_entry list" where
  "item_map = [\<lparr>mp_typ = 0x2001, mp_size = 1, mp_off = 0xCC\<rparr>,
     \<lparr>mp_typ = 0x2000, mp_size = 1, mp_off = 0xE0\<rparr>, self_entry 0xE8]"

definition item_dex :: "u8 list" where
  "item_dex = item_header @ item_tables @ item_data @ encode_map item_map"

lemma item_lengths [simp]:
  "length item_header = 112" "length item_tables = 72" "length item_data = 48" "length item_dex = 272"
  by (simp_all add: item_header_def item_tables_def item_data_def item_dex_def item_map_def)

text \<open>Slices of the parts.\<close>

lemma item_slices:
  "a + n \<le> 112 \<Longrightarrow> take n (drop a item_dex) = take n (drop a item_header)"
  "112 \<le> a \<Longrightarrow> a + n \<le> 184 \<Longrightarrow> take n (drop a item_dex) = take n (drop (a - 112) item_tables)"
  "184 \<le> a \<Longrightarrow> a + n \<le> 232 \<Longrightarrow> take n (drop a item_dex) = take n (drop (a - 184) item_data)"
  by (simp_all add: item_dex_def)

lemma item_header_fields:
  "hdr_le32 item_dex 32 = 272" "hdr_le32 item_dex 36 = 0x70" "hdr_le32 item_dex 40 = 0x12345678"
  "hdr_le32 item_dex 52 = 0xE8" "hdr_le32 item_dex 56 = 3" "hdr_le32 item_dex 60 = 0x70"
  "hdr_le32 item_dex 64 = 2" "hdr_le32 item_dex 68 = 0x7C" "hdr_le32 item_dex 72 = 1"
  "hdr_le32 item_dex 76 = 0x84" "hdr_le32 item_dex 80 = 0" "hdr_le32 item_dex 84 = 0"
  "hdr_le32 item_dex 88 = 1" "hdr_le32 item_dex 92 = 0x90" "hdr_le32 item_dex 96 = 1"
  "hdr_le32 item_dex 100 = 0x98" "hdr_le32 item_dex 104 = 0x58" "hdr_le32 item_dex 108 = 0xB8"
  by (simp_all add: hdr_le32_def item_slices item_header_def)

definition item_parsed :: dex_header where
  "item_parsed = (case parse_dex_header item_dex of Inr h \<Rightarrow> h)"

lemma item_parse: "parse_dex_header item_dex = Inr item_parsed"
  using parse_dex_header_fields [of item_dex] by (auto simp: item_parsed_def)

lemmas item_fields = header_fields [OF item_parse, unfolded item_header_fields]

lemma item_magic: "le_word (take 4 item_dex) = DEX_FILE_MAGIC"
  using item_slices(1) [of 0 4] by (simp add: item_header_def DEX_FILE_MAGIC_def)

lemma item_accepted: "dex_parser_new item_dex = Inr item_parsed"
  by (simp add: dex_parser_new_def item_parse item_fields item_magic DEX_FILE_MAGIC_def
      COMPACT_DEX_FILE_MAGIC_def)

definition item_parser :: dex_parser where
  "item_parser = \<lparr>dp_data = item_dex, dp_header = item_parsed\<rparr>"

lemma item_parser_simps [simp]: "dp_data item_parser = item_dex" "dp_header item_parser = item_parsed"
  by (simp_all add: item_parser_def)


lemma item_map_at: "drop 0xE8 item_dex = encode_map item_map"
  by (simp add: item_dex_def)

lemma item_le32: "a + 4 \<le> 272 \<Longrightarrow> le32 item_dex a = Some (hdr_le32 item_dex a)"
  by (simp add: le32_def slice_get_def hdr_le32_def)

lemma item_read_map: "read_map_entries item_dex = Inr item_map"
proof (rule read_encoded_map)
  show "le32 item_dex HDR_MAP_OFF = Some 0xE8"
    by (simp add: item_le32 HDR_MAP_OFF_def item_header_fields)
  show "drop (unat (0xE8 :: u32)) item_dex = encode_map item_map @ []" by (simp add: item_map_at)
qed (simp_all add: DEX_HEADER_LEN_def entries_ok_def item_map_def self_entry_def MAP_TYPE_MAP_LIST_def)

section \<open>The method and its code item\<close>

definition item_method :: encoded_method where
  "item_method = \<lparr>em_method_idx = 0, em_access_flags = 1, em_code_off = 0xCC, em_pending_code = None\<rparr>"

definition item_class :: class_data where
  "item_class = \<lparr>cd_static_fields = [], cd_instance_fields = [], cd_direct_methods = [item_method],
     cd_virtual_methods = []\<rparr>"

lemma encode_item_class: "encode_class_data item_class = [0, 0, 1, 0, 0, 1, 0xCC, 1]"
  by (simp add: item_class_def item_method_def encode_class_data_eq encode_uleb128.simps
      saturating_u32_sub_def)

lemma item_class_ok: "class_data_ok item_class"
  by (simp add: class_data_ok_def item_class_def item_method_def)

lemma item_class_at: "drop 0xE0 item_dex = encode_class_data item_class @ encode_map item_map"
  unfolding encode_item_class by (simp add: item_dex_def item_data_def)

lemma item_parse_class: "parse_class_data item_dex 0xE0 = Inr item_class"
  using parse_encode_class_data [OF item_class_ok, of "0xE0" item_dex "encode_map item_map"]
  by (simp add: parse_class_data_def item_class_at)

lemma item_class_def_field: "hdr_le32 item_dex (0x98 + 24) = 0xE0"
  by (simp add: hdr_le32_def item_slices item_tables_def)

lemma item_code_at:
  "drop 0xCC item_dex = code_item_bytes 3 2 0 2 [0, 0, 0, 0] @ drop 0xE0 item_dex"
proof -
  have "code_item_bytes 3 2 0 2 [0, 0, 0, 0] =
      [3, 0, 2, 0, 0, 0, 0, 0, 0, 0, 0, 0, 2, 0, 0, 0, 0, 0, 0, 0]"
    by (simp add: code_item_bytes_def le_bytes_def upt_rec)
  then show ?thesis by (simp add: item_dex_def item_data_def)
qed

lemma item_code:
  "code_item_insns_len item_dex 0xCC = Some 4" "insns_at item_dex 0xCC = [0, 0, 0, 0]"
  "code_item_end item_dex 0xCC = Inr 0xE0"
  using code_item_at [where off = "0xCC" and dex = item_dex and rest = "drop 0xE0 item_dex"] item_code_at
  by simp_all

lemma item_code_offs: "build_method_code_off_map item_parser = Inr [(0, 0xCC)]"
proof -
  have "slice_get item_dex 0x98 0xB8 = Some (take 32 (drop 0x98 item_dex))"
    by (simp add: slice_get_def)
  moreover have "hdr_le32 (take 32 (drop 0x98 item_dex)) 24 = 0xE0"
    using item_class_def_field by (simp add: hdr_le32_def drop_take)
  ultimately show ?thesis
    by (simp add: build_method_code_off_map_def item_fields CLASS_DEF_SIZE_def
        class_code_offs_parse item_parse_class add_code_offs_def class_methods_def item_class_def
        item_method_def)
qed


section \<open>The tables of the file\<close>

lemma item_strings:
  "string_data_at item_dex 0xB8 [0x56]" "string_data_at item_dex 0xBB [0x4C, 0x61, 0x3B]"
  "string_data_at item_dex 0xC0 [0x66]"
proof -
  have "drop 0xB8 item_dex = encode_uleb128 1 @ encode_mutf8 [0x56] @ [0] @ drop 0xBB item_dex"
    by (simp add: item_dex_def item_data_def uleb_small encode_mutf8_def mutf8_char_def)
  then show "string_data_at item_dex 0xB8 [0x56]" by (auto simp: string_data_at_def scalar_def)
  have "drop 0xBB item_dex =
      encode_uleb128 3 @ encode_mutf8 [0x4C, 0x61, 0x3B] @ [0] @ drop 0xC0 item_dex"
    by (simp add: item_dex_def item_data_def uleb_small encode_mutf8_def mutf8_char_def)
  then show "string_data_at item_dex 0xBB [0x4C, 0x61, 0x3B]"
    by (auto simp: string_data_at_def scalar_def)
  have "drop 0xC0 item_dex = encode_uleb128 1 @ encode_mutf8 [0x66] @ [0] @ drop 0xC3 item_dex"
    by (simp add: item_dex_def item_data_def uleb_small encode_mutf8_def mutf8_char_def)
  then show "string_data_at item_dex 0xC0 [0x66]" by (auto simp: string_data_at_def scalar_def)
qed

lemma item_table_words:
  "hdr_le32 item_dex 0x70 = 0xB8" "hdr_le32 item_dex 0x74 = 0xBB" "hdr_le32 item_dex 0x78 = 0xC0"
  "hdr_le32 item_dex 0x7C = 0" "hdr_le32 item_dex 0x80 = 1" "hdr_le32 item_dex 0xC4 = 1"
  by (simp_all add: hdr_le32_def item_slices item_tables_def item_data_def)

lemma item_string_at:
  "string_at item_parser 0 [0x56]" "string_at item_parser 1 [0x4C, 0x61, 0x3B]"
  "string_at item_parser 2 [0x66]"
  using item_strings by (simp_all add: string_at_def item_fields item_le32 item_table_words)

lemma item_type_at: "type_at item_parser 0 [0x56]" "type_at item_parser 1 [0x4C, 0x61, 0x3B]"
  using item_string_at by (simp_all add: type_at_def item_fields item_le32 item_table_words)

lemma item_slice_get: "a \<le> b \<Longrightarrow> b \<le> 272 \<Longrightarrow> slice_get item_dex a b = Some (take (b - a) (drop a item_dex))"
  by (simp add: slice_get_def)

lemma item_proto_at: "proto_at item_parser 0 \<lparr>pi_return_type = [0x56], pi_parameters = [[0x4C, 0x61, 0x3B]]\<rparr>"
proof -
  have "slice_get item_dex 0x84 0x90 =
      Some (le_bytes 4 (0 :: u32) @ le_bytes 4 (0 :: u32) @ le_bytes 4 (0xC4 :: u32))"
    by (simp add: item_slice_get item_slices item_tables_def le_bytes_def upt_rec)
  moreover have "slice_get item_dex 0xC8 0xCA = Some (le_bytes 2 (1 :: u16))"
    by (simp add: item_slice_get item_slices item_data_def le_bytes_def upt_rec)
  then have "parameters_at item_parser 0xC4 [[0x4C, 0x61, 0x3B]]"
    using item_type_at(2) by (auto simp: parameters_at_def item_le32 item_table_words intro!: exI [of _ 1])
  moreover note item_type_at(1)
  ultimately show ?thesis
    unfolding proto_at_def
    by (intro conjI exI [of _ "0xC4 :: u32"] exI [of _ "0 :: u32"]; simp add: item_fields)
qed

definition item_info :: method_info where
  "item_info = \<lparr>mi_class_name = [0x4C, 0x61, 0x3B], mi_method_name = [0x66],
     mi_return_type = [0x56], mi_parameters = [[0x4C, 0x61, 0x3B]]\<rparr>"

lemma item_method_at: "method_at item_parser 0 item_info"
proof -
  have "slice_get item_dex 0x90 0x98 =
      Some (le_bytes 2 (1 :: u16) @ le_bytes 2 (0 :: u16) @ le_bytes 4 (2 :: u32))"
    by (simp add: item_slice_get item_slices item_tables_def le_bytes_def upt_rec)
  note facts = this item_type_at(2) item_string_at(3) item_proto_at
  show ?thesis
    unfolding method_at_def
    by (rule conjI, simp add: item_fields,
        rule exI [of _ 1], rule exI [of _ 0], rule exI [of _ 2], insert facts)
      (simp add: item_fields item_info_def)
qed

lemma item_describes: "describes item_dex 0 item_info"
  using item_method_at by (simp add: describes_def item_accepted item_parser_def)

lemma item_method_info: "get_method_info item_parser 0 = Inr item_info"
  by (rule get_method_info_at [OF item_method_at]) simp

lemma item_incoming: "incoming_words item_parser 0 1 = Inr 2"
  by (simp add: incoming_words_def item_method_info item_info_def parameter_words_def ACC_STATIC_def)

section \<open>Captured bodies\<close>

definition sample_libs :: libs where
  "sample_libs = \<lparr>lib_hex_decode = hex_decode, lib_sha1 = (\<lambda>_. replicate 20 0), lib_adler32 = (\<lambda>_. 0)\<rparr>"

lemma sample_libs_simps [simp]:
  "lib_hex_decode sample_libs = hex_decode" "lib_sha1 sample_libs = (\<lambda>_. replicate 20 0)"
  "lib_adler32 sample_libs = (\<lambda>_. 0)"
  by (simp_all add: sample_libs_def)

lemma sample_sha1: "sha1_size sample_libs"
  by (simp add: sha1_size_def)

text \<open>
  The body reads its receiver: \<^verbatim>\<open>move-object v0, v1; return-void\<close>. In the longer version a
  \<^verbatim>\<open>nop\<close> comes first, so it does not fit the code item of the file.
\<close>

definition short_body :: "u8 list" where "short_body = [0x07, 0x10, 0x0E, 0]"
definition long_body :: "u8 list" where "long_body = [0, 0] @ short_body"

lemma body_lengths [simp]: "length short_body = 4" "length long_body = 6"
  by (simp_all add: short_body_def long_body_def)

definition body_record :: "u8 list \<Rightarrow> method_code_record" where
  "body_record code = \<lparr>mcr_name = pretty_method item_info, mcr_method_idx = 0, mcr_code = hex_encode code\<rparr>"


lemma body_formats:
  "format_of 0 = Some (1, NoRegs)" "format_of 0x07 = Some (1, NibbleAb)" "format_of 0x0E = Some (1, NoRegs)"
  "wide_slots 0 = 0" "wide_slots 0x07 = 0" "wide_slots 0x0E = 0"
  by (simp_all add: format_of_def format_arms_def wide_slots_def wide_arms_def word_le_nat_alt)

lemmas walk = scan_insns_def scan_loop.simps unit_at_def body_formats read_operands_def note_reg_def

lemma short_scan:
  "scan_insns short_body = Some (Inr \<lparr>registers_used = 2, outs_size = 0, units_walked = 2\<rparr>)"
  by (simp add: walk short_body_def)

lemma long_scan:
  "scan_insns long_body = Some (Inr \<lparr>registers_used = 2, outs_size = 0, units_walked = 3\<rparr>)"
  by (simp add: walk long_body_def short_body_def)


text \<open>The items built around the bodies.\<close>

lemma synthesized_bodies:
  "synthesize_code_item sample_libs item_parser 0 1 (body_record short_body) exact_fits =
     Inr (code_item_bytes 2 2 0 2 short_body)"
  "synthesize_code_item sample_libs item_parser 0 1 (body_record long_body) exact_fits =
     Inr (code_item_bytes 2 2 0 3 long_body)"
proof -
  have ne: "short_body \<noteq> []" "long_body \<noteq> []" by (simp_all add: short_body_def long_body_def)
  show "synthesize_code_item sample_libs item_parser 0 1 (body_record short_body) exact_fits =
      Inr (code_item_bytes 2 2 0 2 short_body)"
    "synthesize_code_item sample_libs item_parser 0 1 (body_record long_body) exact_fits =
      Inr (code_item_bytes 2 2 0 3 long_body)"
    by (simp_all add: synthesize_code_item_def body_record_def hex_decode_encode scan_or_partial_def
        short_scan long_scan item_incoming ne)
qed

section \<open>Relocating the long body\<close>

lemma item_plan_method:
  "plan_method sample_libs item_parser [body_record long_body] exact_fits item_method no_outcome =
     Inr (item_method\<lparr>em_pending_code := Some (code_item_bytes 2 2 0 3 long_body)\<rparr>, True, no_outcome)"
proof -
  have "length (utf8_bytes (hex_encode long_body)) div 2 = 6"
    by (simp add: hex_encode_def long_body_def short_body_def hex_digit_def utf8_bytes_def utf8_char_def)
  then show ?thesis
    using item_code synthesized_bodies(2)
    by (simp add: plan_method_def item_method_def ACC_NATIVE_def ACC_ABSTRACT_def Let_def by_method_def
        body_record_def)
qed

lemma item_relocates:
  obtains out1 dex' where "append_missing_code_items sample_libs item_dex [body_record long_body]
      exact_fits = Inr (out1, dex')" and "ao_relocated out1 \<noteq> None" and "ao_failed out1 = 0"
proof -
  let ?code = "code_item_bytes 2 2 0 3 long_body"
  have class_def: "slice_get item_dex 0x98 0xB8 = Some (take 32 (drop 0x98 item_dex))"
    by (simp add: slice_get_def)
  have field: "hdr_le32 (take 32 (drop 0x98 item_dex)) 24 = 0xE0"
    using item_class_def_field by (simp add: hdr_le32_def drop_take)
  have plan: "plan_classes sample_libs item_parser [body_record long_body] exact_fits 0x98 1 no_outcome =
      Inr ([(0x98, item_class\<lparr>cd_direct_methods :=
        [item_method\<lparr>em_pending_code := Some ?code\<rparr>]\<rparr>)], True, no_outcome)"
    using item_plan_method
    by (simp add: class_def field CLASS_DEF_SIZE_def item_parse_class Let_def item_class_def)
  have retired: "retired_ranges item_map 272 item_map = Inr [(0xCC, 0xE0), (0xE0, 0xE8)]"
    by (simp add: item_map_def self_entry_def MAP_TYPE_MAP_LIST_def section_end_def DEX_HEADER_LEN_def)
  obtain out1 dex' where "relocate [(0x98, item_class\<lparr>cd_direct_methods :=
        [item_method\<lparr>em_pending_code := Some ?code\<rparr>]\<rparr>)] no_outcome item_dex = Inr (out1, dex')"
    and "ao_relocated out1 \<noteq> None" and "ao_failed out1 = 0"
    by (simp add: relocate_def item_read_map retired item_class_def item_method_def place_method_def
        place_item_def Let_def align_to_def no_outcome_def)
  with plan show thesis
    by (intro that) (simp_all add: append_missing_code_items_def item_accepted item_fields item_parser_def)
qed


section \<open>Repairing the file without captures\<close>

lemma item_append_nothing: "append_missing_code_items sample_libs item_dex [] opts = Inr (no_outcome, item_dex)"
proof -
  have class_def: "slice_get item_dex 0x98 0xB8 = Some (take 32 (drop 0x98 item_dex))"
    by (simp add: slice_get_def)
  have field: "hdr_le32 (take 32 (drop 0x98 item_dex)) 24 = 0xE0"
    using item_class_def_field by (simp add: hdr_le32_def drop_take)
  have "plan_method sample_libs item_parser [] opts item_method no_outcome =
      Inr (item_method, False, no_outcome)"
    using item_code by (simp add: plan_method_def item_method_def ACC_NATIVE_def ACC_ABSTRACT_def by_method_def)
  then have "plan_classes sample_libs item_parser [] opts 0x98 1 no_outcome =
      Inr ([(0x98, item_class)], False, no_outcome)"
    by (simp add: class_def field CLASS_DEF_SIZE_def item_parse_class Let_def item_class_def)
  then show ?thesis
    by (simp add: append_missing_code_items_def item_accepted item_fields item_parser_def)
qed

lemma item_restore: "restore_bytecode sample_libs item_dex [] opts = Inr (0, no_outcome, item_dex)"
  using item_code_offs
  by (simp add: restore_bytecode_def item_accepted item_parser_def apply_records_to_dex_def
      item_append_nothing no_stats_def)

lemma item_format: "fix_format_fields item_dex = (False, item_dex)"
proof -
  have zero: "hdr_le32 item_dex 0xA4 = 0" "hdr_le32 item_dex 0xAC = 0" "hdr_le32 item_dex 0xB4 = 0"
    "hdr_le32 item_dex 0xD4 = 0" "u16_at item_dex 0xD2 = 0"
    by (simp_all add: hdr_le32_def u16_at_def item_slices item_tables_def item_data_def)
  then have stale: "clear_class_fields 272 0x98 1 (False, item_dex) = (False, item_dex)"
    "clear_method_fields 272 item_method (False, item_dex) = (False, item_dex)"
    by (simp_all add: clear_stale_def clear_method_fields_def clear_tries_def item_method_def)
  have "clear_code_fields 272 0x98 1 (False, item_dex) = (False, item_dex)"
    using item_class_def_field stale(2)
    by (simp add: item_parse_class item_class_def class_methods_def)
  with stale(1) show ?thesis
    by (simp add: fix_format_fields_def item_parse item_fields Let_def
        del: clear_class_fields.simps clear_code_fields.simps One_nat_def)
qed

lemma item_map_unchanged: "rebuild_map item_dex None = Inr (False, item_dex)"
  by (simp add: rebuild_map_def item_read_map HDR_MAP_OFF_def item_header_fields)
    (simp add: item_map_def self_entry_def MAP_TYPE_MAP_LIST_def)

lemma item_tables_end: "tables_end item_parsed = 0xB8"
  by (simp add: tables_end_def id_tables_def item_fields CLASS_DEF_SIZE_def)

lemma item_header_unchanged: "fix_header_bounds item_dex = (False, item_dex)"
proof -
  have "take 4 (drop 0x20 item_dex) = le_bytes 4 (272 :: u32)"
    "take 4 (drop 0x68 item_dex) = le_bytes 4 (88 :: u32)"
    "take 4 (drop 0x6C item_dex) = le_bytes 4 (184 :: u32)"
    by (simp_all add: item_slices item_header_def le_bytes_def upt_rec)
  then show ?thesis
    by (simp add: fix_header_bounds_def item_parse item_tables_end HDR_FILE_SIZE_def
        HDR_DATA_SIZE_def HDR_DATA_OFF_def set_field_def)
qed

lemma item_zeros: "take 20 (drop 12 item_dex) = replicate 20 0" "hdr_le32 item_dex 8 = 0"
  "take 4 (drop 8 item_dex) = le_bytes 4 (0 :: u32)"
proof -
  have z: "take 24 (drop 8 item_dex) = replicate 24 0" by (simp add: item_slices item_header_def)
  show "take 20 (drop 12 item_dex) = replicate 20 0"
    using arg_cong [OF z, of "drop 4"] by (simp add: drop_take)
  have "take 4 (drop 8 item_dex) = replicate 4 0"
    using arg_cong [OF z, of "take 4"] by (simp add: min_def)
  then show "take 4 (drop 8 item_dex) = le_bytes 4 (0 :: u32)" "hdr_le32 item_dex 8 = 0"
    by (simp_all add: hdr_le32_def le_bytes_def upt_rec numeral_eq_Suc)
qed

lemma item_checksums: "recalc_dex_header sample_libs item_dex = item_dex"
proof -
  have "splice item_dex 12 (replicate 20 0) = item_dex"
    "splice item_dex 8 (le_bytes 4 (0 :: u32)) = item_dex"
    by (simp_all add: splice_same item_zeros)
  then show ?thesis by (simp add: recalc_dex_header_def)
qed

lemma item_id_bounds: "validate_id_bounds item_dex = Inr ()"
  by (simp add: validate_id_bounds_def item_parse item_fields id_tables_def CLASS_DEF_SIZE_def
      DEX_HEADER_LEN_def sort_spans_def)

lemma item_validates: "validate_repaired_dex sample_libs item_dex = Inr ()"
proof -
  have classes: "check_classes item_dex 1 0x98 1 ([], []) = Inr ([0xE0], [0xCC])"
    using item_class_def_field item_code(3)
    by (simp add: item_parse_class item_class_def class_methods_def item_method_def)
  have "parse_class_data_end item_dex 0xE0 = Inr (item_class, 0xE8)"
    using parse_encode_class_data [OF item_class_ok, of "0xE0" item_dex "encode_map item_map"]
      encode_item_class item_class_at by simp
  then have "check_section item_dex item_map 0x2000 [0xE0] = Inr ()"
    "check_section item_dex item_map 0x2001 [0xCC] = Inr ()"
    using item_code(3)
    by (simp_all add: check_section_def item_map_def self_entry_def MAP_TYPE_MAP_LIST_def align4_def
        item_stop_def section_end_def)
  then show ?thesis
    using classes
    by (simp add: validate_repaired_dex_def item_id_bounds item_accepted item_fields item_zeros
        item_read_map)
      (simp add: item_map_def self_entry_def MAP_TYPE_MAP_LIST_def)
qed

lemma item_repair: "\<exists>stats. repair_file sample_libs item_dex None opts = Inr (stats, item_dex)"
  by (simp add: repair_file_def repair_one_dex_def item_accepted item_id_bounds item_read_map
      item_restore item_format item_map_unchanged item_header_unchanged item_checksums item_validates
      no_outcome_def)

end
