(* ===== verification/Helper_Abi.thy ===== *)
theory Helper_Abi
  imports Prelude
begin

text \<open>
  The kernel interface the object is compiled against: the prototypes of
  \<^verbatim>\<open>headers/bpf_helper_defs.h\<close>, each a function pointer whose value is the helper's number,
  as one table per stretch of the header. A record has the helper's name, its C result and
  parameter types and its number; the calls of the object are checked against it.
\<close>

datatype c_type = Void | Char | SInt | Long | ULong | U16t | U32t | U64t | S32t | S64t
  | Be16 | Be32 | Wsum | Struct string | Const c_type | Ptr c_type

record helper =
  hp_name :: string
  hp_ret :: c_type
  hp_params :: "(string \<times> c_type) list"
  hp_variadic :: bool
  hp_id :: nat

section \<open>The tables\<close>

definition helpers_1 :: "helper list" where
  "helpers_1 = [
     \<lparr>hp_name = ''bpf_map_lookup_elem'', hp_ret = Ptr Void,
       hp_params = [(''map'', Ptr Void), (''key'', Ptr (Const Void))],
       hp_variadic = False, hp_id = 1\<rparr>,
     \<lparr>hp_name = ''bpf_map_update_elem'', hp_ret = Long,
       hp_params = [(''map'', Ptr Void), (''key'', Ptr (Const Void)), (''value'', Ptr (Const Void)), (''flags'', U64t)],
       hp_variadic = False, hp_id = 2\<rparr>,
     \<lparr>hp_name = ''bpf_map_delete_elem'', hp_ret = Long,
       hp_params = [(''map'', Ptr Void), (''key'', Ptr (Const Void))],
       hp_variadic = False, hp_id = 3\<rparr>,
     \<lparr>hp_name = ''bpf_probe_read'', hp_ret = Long,
       hp_params = [(''dst'', Ptr Void), (''size'', U32t), (''unsafe_ptr'', Ptr (Const Void))],
       hp_variadic = False, hp_id = 4\<rparr>,
     \<lparr>hp_name = ''bpf_ktime_get_ns'', hp_ret = U64t,
       hp_params = [],
       hp_variadic = False, hp_id = 5\<rparr>,
     \<lparr>hp_name = ''bpf_trace_printk'', hp_ret = Long,
       hp_params = [(''fmt'', Ptr (Const Char)), (''fmt_size'', U32t)],
       hp_variadic = True, hp_id = 6\<rparr>,
     \<lparr>hp_name = ''bpf_get_prandom_u32'', hp_ret = U32t,
       hp_params = [],
       hp_variadic = False, hp_id = 7\<rparr>]"

definition helpers_8 :: "helper list" where
  "helpers_8 = [
     \<lparr>hp_name = ''bpf_get_smp_processor_id'', hp_ret = U32t,
       hp_params = [],
       hp_variadic = False, hp_id = 8\<rparr>,
     \<lparr>hp_name = ''bpf_skb_store_bytes'', hp_ret = Long,
       hp_params = [(''skb'', Ptr (Struct ''__sk_buff'')), (''offset'', U32t), (''from'', Ptr (Const Void)), (''len'', U32t), (''flags'', U64t)],
       hp_variadic = False, hp_id = 9\<rparr>,
     \<lparr>hp_name = ''bpf_l3_csum_replace'', hp_ret = Long,
       hp_params = [(''skb'', Ptr (Struct ''__sk_buff'')), (''offset'', U32t), (''from'', U64t), (''to'', U64t), (''size'', U64t)],
       hp_variadic = False, hp_id = 10\<rparr>,
     \<lparr>hp_name = ''bpf_l4_csum_replace'', hp_ret = Long,
       hp_params = [(''skb'', Ptr (Struct ''__sk_buff'')), (''offset'', U32t), (''from'', U64t), (''to'', U64t), (''flags'', U64t)],
       hp_variadic = False, hp_id = 11\<rparr>,
     \<lparr>hp_name = ''bpf_tail_call'', hp_ret = Long,
       hp_params = [(''ctx'', Ptr Void), (''prog_array_map'', Ptr Void), (''index'', U32t)],
       hp_variadic = False, hp_id = 12\<rparr>]"

definition helpers_13 :: "helper list" where
  "helpers_13 = [
     \<lparr>hp_name = ''bpf_clone_redirect'', hp_ret = Long,
       hp_params = [(''skb'', Ptr (Struct ''__sk_buff'')), (''ifindex'', U32t), (''flags'', U64t)],
       hp_variadic = False, hp_id = 13\<rparr>,
     \<lparr>hp_name = ''bpf_get_current_pid_tgid'', hp_ret = U64t,
       hp_params = [],
       hp_variadic = False, hp_id = 14\<rparr>,
     \<lparr>hp_name = ''bpf_get_current_uid_gid'', hp_ret = U64t,
       hp_params = [],
       hp_variadic = False, hp_id = 15\<rparr>,
     \<lparr>hp_name = ''bpf_get_current_comm'', hp_ret = Long,
       hp_params = [(''buf'', Ptr Void), (''size_of_buf'', U32t)],
       hp_variadic = False, hp_id = 16\<rparr>,
     \<lparr>hp_name = ''bpf_get_cgroup_classid'', hp_ret = U32t,
       hp_params = [(''skb'', Ptr (Struct ''__sk_buff''))],
       hp_variadic = False, hp_id = 17\<rparr>,
     \<lparr>hp_name = ''bpf_skb_vlan_push'', hp_ret = Long,
       hp_params = [(''skb'', Ptr (Struct ''__sk_buff'')), (''vlan_proto'', Be16), (''vlan_tci'', U16t)],
       hp_variadic = False, hp_id = 18\<rparr>,
     \<lparr>hp_name = ''bpf_skb_vlan_pop'', hp_ret = Long,
       hp_params = [(''skb'', Ptr (Struct ''__sk_buff''))],
       hp_variadic = False, hp_id = 19\<rparr>]"

definition helpers_20 :: "helper list" where
  "helpers_20 = [
     \<lparr>hp_name = ''bpf_skb_get_tunnel_key'', hp_ret = Long,
       hp_params = [(''skb'', Ptr (Struct ''__sk_buff'')), (''key'', Ptr (Struct ''bpf_tunnel_key'')), (''size'', U32t), (''flags'', U64t)],
       hp_variadic = False, hp_id = 20\<rparr>,
     \<lparr>hp_name = ''bpf_skb_set_tunnel_key'', hp_ret = Long,
       hp_params = [(''skb'', Ptr (Struct ''__sk_buff'')), (''key'', Ptr (Struct ''bpf_tunnel_key'')), (''size'', U32t), (''flags'', U64t)],
       hp_variadic = False, hp_id = 21\<rparr>,
     \<lparr>hp_name = ''bpf_perf_event_read'', hp_ret = U64t,
       hp_params = [(''map'', Ptr Void), (''flags'', U64t)],
       hp_variadic = False, hp_id = 22\<rparr>]"

definition helpers_23 :: "helper list" where
  "helpers_23 = [
     \<lparr>hp_name = ''bpf_redirect'', hp_ret = Long,
       hp_params = [(''ifindex'', U32t), (''flags'', U64t)],
       hp_variadic = False, hp_id = 23\<rparr>,
     \<lparr>hp_name = ''bpf_get_route_realm'', hp_ret = U32t,
       hp_params = [(''skb'', Ptr (Struct ''__sk_buff''))],
       hp_variadic = False, hp_id = 24\<rparr>,
     \<lparr>hp_name = ''bpf_perf_event_output'', hp_ret = Long,
       hp_params = [(''ctx'', Ptr Void), (''map'', Ptr Void), (''flags'', U64t), (''data'', Ptr Void), (''size'', U64t)],
       hp_variadic = False, hp_id = 25\<rparr>,
     \<lparr>hp_name = ''bpf_skb_load_bytes'', hp_ret = Long,
       hp_params = [(''skb'', Ptr (Const Void)), (''offset'', U32t), (''to'', Ptr Void), (''len'', U32t)],
       hp_variadic = False, hp_id = 26\<rparr>]"

definition helpers_27 :: "helper list" where
  "helpers_27 = [
     \<lparr>hp_name = ''bpf_get_stackid'', hp_ret = Long,
       hp_params = [(''ctx'', Ptr Void), (''map'', Ptr Void), (''flags'', U64t)],
       hp_variadic = False, hp_id = 27\<rparr>,
     \<lparr>hp_name = ''bpf_csum_diff'', hp_ret = S64t,
       hp_params = [(''from'', Ptr Be32), (''from_size'', U32t), (''to'', Ptr Be32), (''to_size'', U32t), (''seed'', Wsum)],
       hp_variadic = False, hp_id = 28\<rparr>,
     \<lparr>hp_name = ''bpf_skb_get_tunnel_opt'', hp_ret = Long,
       hp_params = [(''skb'', Ptr (Struct ''__sk_buff'')), (''opt'', Ptr Void), (''size'', U32t)],
       hp_variadic = False, hp_id = 29\<rparr>,
     \<lparr>hp_name = ''bpf_skb_set_tunnel_opt'', hp_ret = Long,
       hp_params = [(''skb'', Ptr (Struct ''__sk_buff'')), (''opt'', Ptr Void), (''size'', U32t)],
       hp_variadic = False, hp_id = 30\<rparr>,
     \<lparr>hp_name = ''bpf_skb_change_proto'', hp_ret = Long,
       hp_params = [(''skb'', Ptr (Struct ''__sk_buff'')), (''proto'', Be16), (''flags'', U64t)],
       hp_variadic = False, hp_id = 31\<rparr>]"

definition helpers_32 :: "helper list" where
  "helpers_32 = [
     \<lparr>hp_name = ''bpf_skb_change_type'', hp_ret = Long,
       hp_params = [(''skb'', Ptr (Struct ''__sk_buff'')), (''type'', U32t)],
       hp_variadic = False, hp_id = 32\<rparr>,
     \<lparr>hp_name = ''bpf_skb_under_cgroup'', hp_ret = Long,
       hp_params = [(''skb'', Ptr (Struct ''__sk_buff'')), (''map'', Ptr Void), (''index'', U32t)],
       hp_variadic = False, hp_id = 33\<rparr>,
     \<lparr>hp_name = ''bpf_get_hash_recalc'', hp_ret = U32t,
       hp_params = [(''skb'', Ptr (Struct ''__sk_buff''))],
       hp_variadic = False, hp_id = 34\<rparr>,
     \<lparr>hp_name = ''bpf_get_current_task'', hp_ret = U64t,
       hp_params = [],
       hp_variadic = False, hp_id = 35\<rparr>,
     \<lparr>hp_name = ''bpf_probe_write_user'', hp_ret = Long,
       hp_params = [(''dst'', Ptr Void), (''src'', Ptr (Const Void)), (''len'', U32t)],
       hp_variadic = False, hp_id = 36\<rparr>,
     \<lparr>hp_name = ''bpf_current_task_under_cgroup'', hp_ret = Long,
       hp_params = [(''map'', Ptr Void), (''index'', U32t)],
       hp_variadic = False, hp_id = 37\<rparr>,
     \<lparr>hp_name = ''bpf_skb_change_tail'', hp_ret = Long,
       hp_params = [(''skb'', Ptr (Struct ''__sk_buff'')), (''len'', U32t), (''flags'', U64t)],
       hp_variadic = False, hp_id = 38\<rparr>]"

definition helpers_39 :: "helper list" where
  "helpers_39 = [
     \<lparr>hp_name = ''bpf_skb_pull_data'', hp_ret = Long,
       hp_params = [(''skb'', Ptr (Struct ''__sk_buff'')), (''len'', U32t)],
       hp_variadic = False, hp_id = 39\<rparr>,
     \<lparr>hp_name = ''bpf_csum_update'', hp_ret = S64t,
       hp_params = [(''skb'', Ptr (Struct ''__sk_buff'')), (''csum'', Wsum)],
       hp_variadic = False, hp_id = 40\<rparr>,
     \<lparr>hp_name = ''bpf_set_hash_invalid'', hp_ret = Void,
       hp_params = [(''skb'', Ptr (Struct ''__sk_buff''))],
       hp_variadic = False, hp_id = 41\<rparr>,
     \<lparr>hp_name = ''bpf_get_numa_node_id'', hp_ret = Long,
       hp_params = [],
       hp_variadic = False, hp_id = 42\<rparr>,
     \<lparr>hp_name = ''bpf_skb_change_head'', hp_ret = Long,
       hp_params = [(''skb'', Ptr (Struct ''__sk_buff'')), (''len'', U32t), (''flags'', U64t)],
       hp_variadic = False, hp_id = 43\<rparr>,
     \<lparr>hp_name = ''bpf_xdp_adjust_head'', hp_ret = Long,
       hp_params = [(''xdp_md'', Ptr (Struct ''xdp_md'')), (''delta'', SInt)],
       hp_variadic = False, hp_id = 44\<rparr>,
     \<lparr>hp_name = ''bpf_probe_read_str'', hp_ret = Long,
       hp_params = [(''dst'', Ptr Void), (''size'', U32t), (''unsafe_ptr'', Ptr (Const Void))],
       hp_variadic = False, hp_id = 45\<rparr>]"

definition helpers_46 :: "helper list" where
  "helpers_46 = [
     \<lparr>hp_name = ''bpf_get_socket_cookie'', hp_ret = U64t,
       hp_params = [(''ctx'', Ptr Void)],
       hp_variadic = False, hp_id = 46\<rparr>,
     \<lparr>hp_name = ''bpf_get_socket_uid'', hp_ret = U32t,
       hp_params = [(''skb'', Ptr (Struct ''__sk_buff''))],
       hp_variadic = False, hp_id = 47\<rparr>,
     \<lparr>hp_name = ''bpf_set_hash'', hp_ret = Long,
       hp_params = [(''skb'', Ptr (Struct ''__sk_buff'')), (''hash'', U32t)],
       hp_variadic = False, hp_id = 48\<rparr>,
     \<lparr>hp_name = ''bpf_setsockopt'', hp_ret = Long,
       hp_params = [(''bpf_socket'', Ptr Void), (''level'', SInt), (''optname'', SInt), (''optval'', Ptr Void), (''optlen'', SInt)],
       hp_variadic = False, hp_id = 49\<rparr>,
     \<lparr>hp_name = ''bpf_skb_adjust_room'', hp_ret = Long,
       hp_params = [(''skb'', Ptr (Struct ''__sk_buff'')), (''len_diff'', S32t), (''mode'', U32t), (''flags'', U64t)],
       hp_variadic = False, hp_id = 50\<rparr>]"

definition helpers_51 :: "helper list" where
  "helpers_51 = [
     \<lparr>hp_name = ''bpf_redirect_map'', hp_ret = Long,
       hp_params = [(''map'', Ptr Void), (''key'', U32t), (''flags'', U64t)],
       hp_variadic = False, hp_id = 51\<rparr>,
     \<lparr>hp_name = ''bpf_sk_redirect_map'', hp_ret = Long,
       hp_params = [(''skb'', Ptr (Struct ''__sk_buff'')), (''map'', Ptr Void), (''key'', U32t), (''flags'', U64t)],
       hp_variadic = False, hp_id = 52\<rparr>,
     \<lparr>hp_name = ''bpf_sock_map_update'', hp_ret = Long,
       hp_params = [(''skops'', Ptr (Struct ''bpf_sock_ops'')), (''map'', Ptr Void), (''key'', Ptr Void), (''flags'', U64t)],
       hp_variadic = False, hp_id = 53\<rparr>,
     \<lparr>hp_name = ''bpf_xdp_adjust_meta'', hp_ret = Long,
       hp_params = [(''xdp_md'', Ptr (Struct ''xdp_md'')), (''delta'', SInt)],
       hp_variadic = False, hp_id = 54\<rparr>]"

definition helpers_55 :: "helper list" where
  "helpers_55 = [
     \<lparr>hp_name = ''bpf_perf_event_read_value'', hp_ret = Long,
       hp_params = [(''map'', Ptr Void), (''flags'', U64t), (''buf'', Ptr (Struct ''bpf_perf_event_value'')), (''buf_size'', U32t)],
       hp_variadic = False, hp_id = 55\<rparr>,
     \<lparr>hp_name = ''bpf_perf_prog_read_value'', hp_ret = Long,
       hp_params = [(''ctx'', Ptr (Struct ''bpf_perf_event_data'')), (''buf'', Ptr (Struct ''bpf_perf_event_value'')), (''buf_size'', U32t)],
       hp_variadic = False, hp_id = 56\<rparr>,
     \<lparr>hp_name = ''bpf_getsockopt'', hp_ret = Long,
       hp_params = [(''bpf_socket'', Ptr Void), (''level'', SInt), (''optname'', SInt), (''optval'', Ptr Void), (''optlen'', SInt)],
       hp_variadic = False, hp_id = 57\<rparr>,
     \<lparr>hp_name = ''bpf_override_return'', hp_ret = Long,
       hp_params = [(''regs'', Ptr (Struct ''pt_regs'')), (''rc'', U64t)],
       hp_variadic = False, hp_id = 58\<rparr>]"

definition helpers_59 :: "helper list" where
  "helpers_59 = [
     \<lparr>hp_name = ''bpf_sock_ops_cb_flags_set'', hp_ret = Long,
       hp_params = [(''bpf_sock'', Ptr (Struct ''bpf_sock_ops'')), (''argval'', SInt)],
       hp_variadic = False, hp_id = 59\<rparr>,
     \<lparr>hp_name = ''bpf_msg_redirect_map'', hp_ret = Long,
       hp_params = [(''msg'', Ptr (Struct ''sk_msg_md'')), (''map'', Ptr Void), (''key'', U32t), (''flags'', U64t)],
       hp_variadic = False, hp_id = 60\<rparr>,
     \<lparr>hp_name = ''bpf_msg_apply_bytes'', hp_ret = Long,
       hp_params = [(''msg'', Ptr (Struct ''sk_msg_md'')), (''bytes'', U32t)],
       hp_variadic = False, hp_id = 61\<rparr>,
     \<lparr>hp_name = ''bpf_msg_cork_bytes'', hp_ret = Long,
       hp_params = [(''msg'', Ptr (Struct ''sk_msg_md'')), (''bytes'', U32t)],
       hp_variadic = False, hp_id = 62\<rparr>]"

definition helpers_63 :: "helper list" where
  "helpers_63 = [
     \<lparr>hp_name = ''bpf_msg_pull_data'', hp_ret = Long,
       hp_params = [(''msg'', Ptr (Struct ''sk_msg_md'')), (''start'', U32t), (''end'', U32t), (''flags'', U64t)],
       hp_variadic = False, hp_id = 63\<rparr>,
     \<lparr>hp_name = ''bpf_bind'', hp_ret = Long,
       hp_params = [(''ctx'', Ptr (Struct ''bpf_sock_addr'')), (''addr'', Ptr (Struct ''sockaddr'')), (''addr_len'', SInt)],
       hp_variadic = False, hp_id = 64\<rparr>,
     \<lparr>hp_name = ''bpf_xdp_adjust_tail'', hp_ret = Long,
       hp_params = [(''xdp_md'', Ptr (Struct ''xdp_md'')), (''delta'', SInt)],
       hp_variadic = False, hp_id = 65\<rparr>,
     \<lparr>hp_name = ''bpf_skb_get_xfrm_state'', hp_ret = Long,
       hp_params = [(''skb'', Ptr (Struct ''__sk_buff'')), (''index'', U32t), (''xfrm_state'', Ptr (Struct ''bpf_xfrm_state'')), (''size'', U32t), (''flags'', U64t)],
       hp_variadic = False, hp_id = 66\<rparr>,
     \<lparr>hp_name = ''bpf_get_stack'', hp_ret = Long,
       hp_params = [(''ctx'', Ptr Void), (''buf'', Ptr Void), (''size'', U32t), (''flags'', U64t)],
       hp_variadic = False, hp_id = 67\<rparr>]"

definition helpers_68 :: "helper list" where
  "helpers_68 = [
     \<lparr>hp_name = ''bpf_skb_load_bytes_relative'', hp_ret = Long,
       hp_params = [(''skb'', Ptr (Const Void)), (''offset'', U32t), (''to'', Ptr Void), (''len'', U32t), (''start_header'', U32t)],
       hp_variadic = False, hp_id = 68\<rparr>,
     \<lparr>hp_name = ''bpf_fib_lookup'', hp_ret = Long,
       hp_params = [(''ctx'', Ptr Void), (''params'', Ptr (Struct ''bpf_fib_lookup'')), (''plen'', SInt), (''flags'', U32t)],
       hp_variadic = False, hp_id = 69\<rparr>,
     \<lparr>hp_name = ''bpf_sock_hash_update'', hp_ret = Long,
       hp_params = [(''skops'', Ptr (Struct ''bpf_sock_ops'')), (''map'', Ptr Void), (''key'', Ptr Void), (''flags'', U64t)],
       hp_variadic = False, hp_id = 70\<rparr>,
     \<lparr>hp_name = ''bpf_msg_redirect_hash'', hp_ret = Long,
       hp_params = [(''msg'', Ptr (Struct ''sk_msg_md'')), (''map'', Ptr Void), (''key'', Ptr Void), (''flags'', U64t)],
       hp_variadic = False, hp_id = 71\<rparr>,
     \<lparr>hp_name = ''bpf_sk_redirect_hash'', hp_ret = Long,
       hp_params = [(''skb'', Ptr (Struct ''__sk_buff'')), (''map'', Ptr Void), (''key'', Ptr Void), (''flags'', U64t)],
       hp_variadic = False, hp_id = 72\<rparr>]"

definition helpers_73 :: "helper list" where
  "helpers_73 = [
     \<lparr>hp_name = ''bpf_lwt_push_encap'', hp_ret = Long,
       hp_params = [(''skb'', Ptr (Struct ''__sk_buff'')), (''type'', U32t), (''hdr'', Ptr Void), (''len'', U32t)],
       hp_variadic = False, hp_id = 73\<rparr>,
     \<lparr>hp_name = ''bpf_lwt_seg6_store_bytes'', hp_ret = Long,
       hp_params = [(''skb'', Ptr (Struct ''__sk_buff'')), (''offset'', U32t), (''from'', Ptr (Const Void)), (''len'', U32t)],
       hp_variadic = False, hp_id = 74\<rparr>,
     \<lparr>hp_name = ''bpf_lwt_seg6_adjust_srh'', hp_ret = Long,
       hp_params = [(''skb'', Ptr (Struct ''__sk_buff'')), (''offset'', U32t), (''delta'', S32t)],
       hp_variadic = False, hp_id = 75\<rparr>,
     \<lparr>hp_name = ''bpf_lwt_seg6_action'', hp_ret = Long,
       hp_params = [(''skb'', Ptr (Struct ''__sk_buff'')), (''action'', U32t), (''param'', Ptr Void), (''param_len'', U32t)],
       hp_variadic = False, hp_id = 76\<rparr>,
     \<lparr>hp_name = ''bpf_rc_repeat'', hp_ret = Long,
       hp_params = [(''ctx'', Ptr Void)],
       hp_variadic = False, hp_id = 77\<rparr>]"

definition helpers_78 :: "helper list" where
  "helpers_78 = [
     \<lparr>hp_name = ''bpf_rc_keydown'', hp_ret = Long,
       hp_params = [(''ctx'', Ptr Void), (''protocol'', U32t), (''scancode'', U64t), (''toggle'', U32t)],
       hp_variadic = False, hp_id = 78\<rparr>,
     \<lparr>hp_name = ''bpf_skb_cgroup_id'', hp_ret = U64t,
       hp_params = [(''skb'', Ptr (Struct ''__sk_buff''))],
       hp_variadic = False, hp_id = 79\<rparr>,
     \<lparr>hp_name = ''bpf_get_current_cgroup_id'', hp_ret = U64t,
       hp_params = [],
       hp_variadic = False, hp_id = 80\<rparr>,
     \<lparr>hp_name = ''bpf_get_local_storage'', hp_ret = Ptr Void,
       hp_params = [(''map'', Ptr Void), (''flags'', U64t)],
       hp_variadic = False, hp_id = 81\<rparr>,
     \<lparr>hp_name = ''bpf_sk_select_reuseport'', hp_ret = Long,
       hp_params = [(''reuse'', Ptr (Struct ''sk_reuseport_md'')), (''map'', Ptr Void), (''key'', Ptr Void), (''flags'', U64t)],
       hp_variadic = False, hp_id = 82\<rparr>,
     \<lparr>hp_name = ''bpf_skb_ancestor_cgroup_id'', hp_ret = U64t,
       hp_params = [(''skb'', Ptr (Struct ''__sk_buff'')), (''ancestor_level'', SInt)],
       hp_variadic = False, hp_id = 83\<rparr>]"

definition helpers_84 :: "helper list" where
  "helpers_84 = [
     \<lparr>hp_name = ''bpf_sk_lookup_tcp'', hp_ret = Ptr (Struct ''bpf_sock''),
       hp_params = [(''ctx'', Ptr Void), (''tuple'', Ptr (Struct ''bpf_sock_tuple'')), (''tuple_size'', U32t), (''netns'', U64t), (''flags'', U64t)],
       hp_variadic = False, hp_id = 84\<rparr>,
     \<lparr>hp_name = ''bpf_sk_lookup_udp'', hp_ret = Ptr (Struct ''bpf_sock''),
       hp_params = [(''ctx'', Ptr Void), (''tuple'', Ptr (Struct ''bpf_sock_tuple'')), (''tuple_size'', U32t), (''netns'', U64t), (''flags'', U64t)],
       hp_variadic = False, hp_id = 85\<rparr>,
     \<lparr>hp_name = ''bpf_sk_release'', hp_ret = Long,
       hp_params = [(''sock'', Ptr Void)],
       hp_variadic = False, hp_id = 86\<rparr>,
     \<lparr>hp_name = ''bpf_map_push_elem'', hp_ret = Long,
       hp_params = [(''map'', Ptr Void), (''value'', Ptr (Const Void)), (''flags'', U64t)],
       hp_variadic = False, hp_id = 87\<rparr>,
     \<lparr>hp_name = ''bpf_map_pop_elem'', hp_ret = Long,
       hp_params = [(''map'', Ptr Void), (''value'', Ptr Void)],
       hp_variadic = False, hp_id = 88\<rparr>,
     \<lparr>hp_name = ''bpf_map_peek_elem'', hp_ret = Long,
       hp_params = [(''map'', Ptr Void), (''value'', Ptr Void)],
       hp_variadic = False, hp_id = 89\<rparr>,
     \<lparr>hp_name = ''bpf_msg_push_data'', hp_ret = Long,
       hp_params = [(''msg'', Ptr (Struct ''sk_msg_md'')), (''start'', U32t), (''len'', U32t), (''flags'', U64t)],
       hp_variadic = False, hp_id = 90\<rparr>]"

definition helpers_91 :: "helper list" where
  "helpers_91 = [
     \<lparr>hp_name = ''bpf_msg_pop_data'', hp_ret = Long,
       hp_params = [(''msg'', Ptr (Struct ''sk_msg_md'')), (''start'', U32t), (''len'', U32t), (''flags'', U64t)],
       hp_variadic = False, hp_id = 91\<rparr>,
     \<lparr>hp_name = ''bpf_rc_pointer_rel'', hp_ret = Long,
       hp_params = [(''ctx'', Ptr Void), (''rel_x'', S32t), (''rel_y'', S32t)],
       hp_variadic = False, hp_id = 92\<rparr>,
     \<lparr>hp_name = ''bpf_spin_lock'', hp_ret = Long,
       hp_params = [(''lock'', Ptr (Struct ''bpf_spin_lock''))],
       hp_variadic = False, hp_id = 93\<rparr>,
     \<lparr>hp_name = ''bpf_spin_unlock'', hp_ret = Long,
       hp_params = [(''lock'', Ptr (Struct ''bpf_spin_lock''))],
       hp_variadic = False, hp_id = 94\<rparr>,
     \<lparr>hp_name = ''bpf_sk_fullsock'', hp_ret = Ptr (Struct ''bpf_sock''),
       hp_params = [(''sk'', Ptr (Struct ''bpf_sock''))],
       hp_variadic = False, hp_id = 95\<rparr>,
     \<lparr>hp_name = ''bpf_tcp_sock'', hp_ret = Ptr (Struct ''bpf_tcp_sock''),
       hp_params = [(''sk'', Ptr (Struct ''bpf_sock''))],
       hp_variadic = False, hp_id = 96\<rparr>,
     \<lparr>hp_name = ''bpf_skb_ecn_set_ce'', hp_ret = Long,
       hp_params = [(''skb'', Ptr (Struct ''__sk_buff''))],
       hp_variadic = False, hp_id = 97\<rparr>,
     \<lparr>hp_name = ''bpf_get_listener_sock'', hp_ret = Ptr (Struct ''bpf_sock''),
       hp_params = [(''sk'', Ptr (Struct ''bpf_sock''))],
       hp_variadic = False, hp_id = 98\<rparr>]"

definition helpers_99 :: "helper list" where
  "helpers_99 = [
     \<lparr>hp_name = ''bpf_skc_lookup_tcp'', hp_ret = Ptr (Struct ''bpf_sock''),
       hp_params = [(''ctx'', Ptr Void), (''tuple'', Ptr (Struct ''bpf_sock_tuple'')), (''tuple_size'', U32t), (''netns'', U64t), (''flags'', U64t)],
       hp_variadic = False, hp_id = 99\<rparr>,
     \<lparr>hp_name = ''bpf_tcp_check_syncookie'', hp_ret = Long,
       hp_params = [(''sk'', Ptr Void), (''iph'', Ptr Void), (''iph_len'', U32t), (''th'', Ptr (Struct ''tcphdr'')), (''th_len'', U32t)],
       hp_variadic = False, hp_id = 100\<rparr>,
     \<lparr>hp_name = ''bpf_sysctl_get_name'', hp_ret = Long,
       hp_params = [(''ctx'', Ptr (Struct ''bpf_sysctl'')), (''buf'', Ptr Char), (''buf_len'', ULong), (''flags'', U64t)],
       hp_variadic = False, hp_id = 101\<rparr>,
     \<lparr>hp_name = ''bpf_sysctl_get_current_value'', hp_ret = Long,
       hp_params = [(''ctx'', Ptr (Struct ''bpf_sysctl'')), (''buf'', Ptr Char), (''buf_len'', ULong)],
       hp_variadic = False, hp_id = 102\<rparr>,
     \<lparr>hp_name = ''bpf_sysctl_get_new_value'', hp_ret = Long,
       hp_params = [(''ctx'', Ptr (Struct ''bpf_sysctl'')), (''buf'', Ptr Char), (''buf_len'', ULong)],
       hp_variadic = False, hp_id = 103\<rparr>,
     \<lparr>hp_name = ''bpf_sysctl_set_new_value'', hp_ret = Long,
       hp_params = [(''ctx'', Ptr (Struct ''bpf_sysctl'')), (''buf'', Ptr (Const Char)), (''buf_len'', ULong)],
       hp_variadic = False, hp_id = 104\<rparr>]"

definition helpers_105 :: "helper list" where
  "helpers_105 = [
     \<lparr>hp_name = ''bpf_strtol'', hp_ret = Long,
       hp_params = [(''buf'', Ptr (Const Char)), (''buf_len'', ULong), (''flags'', U64t), (''res'', Ptr Long)],
       hp_variadic = False, hp_id = 105\<rparr>,
     \<lparr>hp_name = ''bpf_strtoul'', hp_ret = Long,
       hp_params = [(''buf'', Ptr (Const Char)), (''buf_len'', ULong), (''flags'', U64t), (''res'', Ptr ULong)],
       hp_variadic = False, hp_id = 106\<rparr>,
     \<lparr>hp_name = ''bpf_sk_storage_get'', hp_ret = Ptr Void,
       hp_params = [(''map'', Ptr Void), (''sk'', Ptr Void), (''value'', Ptr Void), (''flags'', U64t)],
       hp_variadic = False, hp_id = 107\<rparr>,
     \<lparr>hp_name = ''bpf_sk_storage_delete'', hp_ret = Long,
       hp_params = [(''map'', Ptr Void), (''sk'', Ptr Void)],
       hp_variadic = False, hp_id = 108\<rparr>,
     \<lparr>hp_name = ''bpf_send_signal'', hp_ret = Long,
       hp_params = [(''sig'', U32t)],
       hp_variadic = False, hp_id = 109\<rparr>]"

definition helpers_110 :: "helper list" where
  "helpers_110 = [
     \<lparr>hp_name = ''bpf_tcp_gen_syncookie'', hp_ret = S64t,
       hp_params = [(''sk'', Ptr Void), (''iph'', Ptr Void), (''iph_len'', U32t), (''th'', Ptr (Struct ''tcphdr'')), (''th_len'', U32t)],
       hp_variadic = False, hp_id = 110\<rparr>,
     \<lparr>hp_name = ''bpf_skb_output'', hp_ret = Long,
       hp_params = [(''ctx'', Ptr Void), (''map'', Ptr Void), (''flags'', U64t), (''data'', Ptr Void), (''size'', U64t)],
       hp_variadic = False, hp_id = 111\<rparr>,
     \<lparr>hp_name = ''bpf_probe_read_user'', hp_ret = Long,
       hp_params = [(''dst'', Ptr Void), (''size'', U32t), (''unsafe_ptr'', Ptr (Const Void))],
       hp_variadic = False, hp_id = 112\<rparr>,
     \<lparr>hp_name = ''bpf_probe_read_kernel'', hp_ret = Long,
       hp_params = [(''dst'', Ptr Void), (''size'', U32t), (''unsafe_ptr'', Ptr (Const Void))],
       hp_variadic = False, hp_id = 113\<rparr>,
     \<lparr>hp_name = ''bpf_probe_read_user_str'', hp_ret = Long,
       hp_params = [(''dst'', Ptr Void), (''size'', U32t), (''unsafe_ptr'', Ptr (Const Void))],
       hp_variadic = False, hp_id = 114\<rparr>,
     \<lparr>hp_name = ''bpf_probe_read_kernel_str'', hp_ret = Long,
       hp_params = [(''dst'', Ptr Void), (''size'', U32t), (''unsafe_ptr'', Ptr (Const Void))],
       hp_variadic = False, hp_id = 115\<rparr>]"

definition helpers_116 :: "helper list" where
  "helpers_116 = [
     \<lparr>hp_name = ''bpf_tcp_send_ack'', hp_ret = Long,
       hp_params = [(''tp'', Ptr Void), (''rcv_nxt'', U32t)],
       hp_variadic = False, hp_id = 116\<rparr>,
     \<lparr>hp_name = ''bpf_send_signal_thread'', hp_ret = Long,
       hp_params = [(''sig'', U32t)],
       hp_variadic = False, hp_id = 117\<rparr>,
     \<lparr>hp_name = ''bpf_jiffies64'', hp_ret = U64t,
       hp_params = [],
       hp_variadic = False, hp_id = 118\<rparr>,
     \<lparr>hp_name = ''bpf_read_branch_records'', hp_ret = Long,
       hp_params = [(''ctx'', Ptr (Struct ''bpf_perf_event_data'')), (''buf'', Ptr Void), (''size'', U32t), (''flags'', U64t)],
       hp_variadic = False, hp_id = 119\<rparr>,
     \<lparr>hp_name = ''bpf_get_ns_current_pid_tgid'', hp_ret = Long,
       hp_params = [(''dev'', U64t), (''ino'', U64t), (''nsdata'', Ptr (Struct ''bpf_pidns_info'')), (''size'', U32t)],
       hp_variadic = False, hp_id = 120\<rparr>,
     \<lparr>hp_name = ''bpf_xdp_output'', hp_ret = Long,
       hp_params = [(''ctx'', Ptr Void), (''map'', Ptr Void), (''flags'', U64t), (''data'', Ptr Void), (''size'', U64t)],
       hp_variadic = False, hp_id = 121\<rparr>,
     \<lparr>hp_name = ''bpf_get_netns_cookie'', hp_ret = U64t,
       hp_params = [(''ctx'', Ptr Void)],
       hp_variadic = False, hp_id = 122\<rparr>,
     \<lparr>hp_name = ''bpf_get_current_ancestor_cgroup_id'', hp_ret = U64t,
       hp_params = [(''ancestor_level'', SInt)],
       hp_variadic = False, hp_id = 123\<rparr>]"

definition helpers_124 :: "helper list" where
  "helpers_124 = [
     \<lparr>hp_name = ''bpf_sk_assign'', hp_ret = Long,
       hp_params = [(''ctx'', Ptr Void), (''sk'', Ptr Void), (''flags'', U64t)],
       hp_variadic = False, hp_id = 124\<rparr>,
     \<lparr>hp_name = ''bpf_ktime_get_boot_ns'', hp_ret = U64t,
       hp_params = [],
       hp_variadic = False, hp_id = 125\<rparr>,
     \<lparr>hp_name = ''bpf_seq_printf'', hp_ret = Long,
       hp_params = [(''m'', Ptr (Struct ''seq_file'')), (''fmt'', Ptr (Const Char)), (''fmt_size'', U32t), (''data'', Ptr (Const Void)), (''data_len'', U32t)],
       hp_variadic = False, hp_id = 126\<rparr>,
     \<lparr>hp_name = ''bpf_seq_write'', hp_ret = Long,
       hp_params = [(''m'', Ptr (Struct ''seq_file'')), (''data'', Ptr (Const Void)), (''len'', U32t)],
       hp_variadic = False, hp_id = 127\<rparr>,
     \<lparr>hp_name = ''bpf_sk_cgroup_id'', hp_ret = U64t,
       hp_params = [(''sk'', Ptr Void)],
       hp_variadic = False, hp_id = 128\<rparr>,
     \<lparr>hp_name = ''bpf_sk_ancestor_cgroup_id'', hp_ret = U64t,
       hp_params = [(''sk'', Ptr Void), (''ancestor_level'', SInt)],
       hp_variadic = False, hp_id = 129\<rparr>]"

definition helpers_130 :: "helper list" where
  "helpers_130 = [
     \<lparr>hp_name = ''bpf_ringbuf_output'', hp_ret = Long,
       hp_params = [(''ringbuf'', Ptr Void), (''data'', Ptr Void), (''size'', U64t), (''flags'', U64t)],
       hp_variadic = False, hp_id = 130\<rparr>,
     \<lparr>hp_name = ''bpf_ringbuf_reserve'', hp_ret = Ptr Void,
       hp_params = [(''ringbuf'', Ptr Void), (''size'', U64t), (''flags'', U64t)],
       hp_variadic = False, hp_id = 131\<rparr>,
     \<lparr>hp_name = ''bpf_ringbuf_submit'', hp_ret = Void,
       hp_params = [(''data'', Ptr Void), (''flags'', U64t)],
       hp_variadic = False, hp_id = 132\<rparr>,
     \<lparr>hp_name = ''bpf_ringbuf_discard'', hp_ret = Void,
       hp_params = [(''data'', Ptr Void), (''flags'', U64t)],
       hp_variadic = False, hp_id = 133\<rparr>,
     \<lparr>hp_name = ''bpf_ringbuf_query'', hp_ret = U64t,
       hp_params = [(''ringbuf'', Ptr Void), (''flags'', U64t)],
       hp_variadic = False, hp_id = 134\<rparr>,
     \<lparr>hp_name = ''bpf_csum_level'', hp_ret = Long,
       hp_params = [(''skb'', Ptr (Struct ''__sk_buff'')), (''level'', U64t)],
       hp_variadic = False, hp_id = 135\<rparr>,
     \<lparr>hp_name = ''bpf_skc_to_tcp6_sock'', hp_ret = Ptr (Struct ''tcp6_sock''),
       hp_params = [(''sk'', Ptr Void)],
       hp_variadic = False, hp_id = 136\<rparr>,
     \<lparr>hp_name = ''bpf_skc_to_tcp_sock'', hp_ret = Ptr (Struct ''tcp_sock''),
       hp_params = [(''sk'', Ptr Void)],
       hp_variadic = False, hp_id = 137\<rparr>]"

definition helpers_138 :: "helper list" where
  "helpers_138 = [
     \<lparr>hp_name = ''bpf_skc_to_tcp_timewait_sock'', hp_ret = Ptr (Struct ''tcp_timewait_sock''),
       hp_params = [(''sk'', Ptr Void)],
       hp_variadic = False, hp_id = 138\<rparr>,
     \<lparr>hp_name = ''bpf_skc_to_tcp_request_sock'', hp_ret = Ptr (Struct ''tcp_request_sock''),
       hp_params = [(''sk'', Ptr Void)],
       hp_variadic = False, hp_id = 139\<rparr>,
     \<lparr>hp_name = ''bpf_skc_to_udp6_sock'', hp_ret = Ptr (Struct ''udp6_sock''),
       hp_params = [(''sk'', Ptr Void)],
       hp_variadic = False, hp_id = 140\<rparr>,
     \<lparr>hp_name = ''bpf_get_task_stack'', hp_ret = Long,
       hp_params = [(''task'', Ptr (Struct ''task_struct'')), (''buf'', Ptr Void), (''size'', U32t), (''flags'', U64t)],
       hp_variadic = False, hp_id = 141\<rparr>,
     \<lparr>hp_name = ''bpf_load_hdr_opt'', hp_ret = Long,
       hp_params = [(''skops'', Ptr (Struct ''bpf_sock_ops'')), (''searchby_res'', Ptr Void), (''len'', U32t), (''flags'', U64t)],
       hp_variadic = False, hp_id = 142\<rparr>]"

definition helpers_143 :: "helper list" where
  "helpers_143 = [
     \<lparr>hp_name = ''bpf_store_hdr_opt'', hp_ret = Long,
       hp_params = [(''skops'', Ptr (Struct ''bpf_sock_ops'')), (''from'', Ptr (Const Void)), (''len'', U32t), (''flags'', U64t)],
       hp_variadic = False, hp_id = 143\<rparr>,
     \<lparr>hp_name = ''bpf_reserve_hdr_opt'', hp_ret = Long,
       hp_params = [(''skops'', Ptr (Struct ''bpf_sock_ops'')), (''len'', U32t), (''flags'', U64t)],
       hp_variadic = False, hp_id = 144\<rparr>,
     \<lparr>hp_name = ''bpf_inode_storage_get'', hp_ret = Ptr Void,
       hp_params = [(''map'', Ptr Void), (''inode'', Ptr Void), (''value'', Ptr Void), (''flags'', U64t)],
       hp_variadic = False, hp_id = 145\<rparr>,
     \<lparr>hp_name = ''bpf_inode_storage_delete'', hp_ret = SInt,
       hp_params = [(''map'', Ptr Void), (''inode'', Ptr Void)],
       hp_variadic = False, hp_id = 146\<rparr>,
     \<lparr>hp_name = ''bpf_d_path'', hp_ret = Long,
       hp_params = [(''path'', Ptr (Struct ''path'')), (''buf'', Ptr Char), (''sz'', U32t)],
       hp_variadic = False, hp_id = 147\<rparr>,
     \<lparr>hp_name = ''bpf_copy_from_user'', hp_ret = Long,
       hp_params = [(''dst'', Ptr Void), (''size'', U32t), (''user_ptr'', Ptr (Const Void))],
       hp_variadic = False, hp_id = 148\<rparr>]"

definition helpers_149 :: "helper list" where
  "helpers_149 = [
     \<lparr>hp_name = ''bpf_snprintf_btf'', hp_ret = Long,
       hp_params = [(''str'', Ptr Char), (''str_size'', U32t), (''ptr'', Ptr (Struct ''btf_ptr'')), (''btf_ptr_size'', U32t), (''flags'', U64t)],
       hp_variadic = False, hp_id = 149\<rparr>,
     \<lparr>hp_name = ''bpf_seq_printf_btf'', hp_ret = Long,
       hp_params = [(''m'', Ptr (Struct ''seq_file'')), (''ptr'', Ptr (Struct ''btf_ptr'')), (''ptr_size'', U32t), (''flags'', U64t)],
       hp_variadic = False, hp_id = 150\<rparr>,
     \<lparr>hp_name = ''bpf_skb_cgroup_classid'', hp_ret = U64t,
       hp_params = [(''skb'', Ptr (Struct ''__sk_buff''))],
       hp_variadic = False, hp_id = 151\<rparr>,
     \<lparr>hp_name = ''bpf_redirect_neigh'', hp_ret = Long,
       hp_params = [(''ifindex'', U32t), (''params'', Ptr (Struct ''bpf_redir_neigh'')), (''plen'', SInt), (''flags'', U64t)],
       hp_variadic = False, hp_id = 152\<rparr>,
     \<lparr>hp_name = ''bpf_per_cpu_ptr'', hp_ret = Ptr Void,
       hp_params = [(''percpu_ptr'', Ptr (Const Void)), (''cpu'', U32t)],
       hp_variadic = False, hp_id = 153\<rparr>,
     \<lparr>hp_name = ''bpf_this_cpu_ptr'', hp_ret = Ptr Void,
       hp_params = [(''percpu_ptr'', Ptr (Const Void))],
       hp_variadic = False, hp_id = 154\<rparr>,
     \<lparr>hp_name = ''bpf_redirect_peer'', hp_ret = Long,
       hp_params = [(''ifindex'', U32t), (''flags'', U64t)],
       hp_variadic = False, hp_id = 155\<rparr>]"

definition helpers_156 :: "helper list" where
  "helpers_156 = [
     \<lparr>hp_name = ''bpf_task_storage_get'', hp_ret = Ptr Void,
       hp_params = [(''map'', Ptr Void), (''task'', Ptr (Struct ''task_struct'')), (''value'', Ptr Void), (''flags'', U64t)],
       hp_variadic = False, hp_id = 156\<rparr>,
     \<lparr>hp_name = ''bpf_task_storage_delete'', hp_ret = Long,
       hp_params = [(''map'', Ptr Void), (''task'', Ptr (Struct ''task_struct''))],
       hp_variadic = False, hp_id = 157\<rparr>,
     \<lparr>hp_name = ''bpf_get_current_task_btf'', hp_ret = Ptr (Struct ''task_struct''),
       hp_params = [],
       hp_variadic = False, hp_id = 158\<rparr>,
     \<lparr>hp_name = ''bpf_bprm_opts_set'', hp_ret = Long,
       hp_params = [(''bprm'', Ptr (Struct ''linux_binprm'')), (''flags'', U64t)],
       hp_variadic = False, hp_id = 159\<rparr>,
     \<lparr>hp_name = ''bpf_ktime_get_coarse_ns'', hp_ret = U64t,
       hp_params = [],
       hp_variadic = False, hp_id = 160\<rparr>,
     \<lparr>hp_name = ''bpf_ima_inode_hash'', hp_ret = Long,
       hp_params = [(''inode'', Ptr (Struct ''inode'')), (''dst'', Ptr Void), (''size'', U32t)],
       hp_variadic = False, hp_id = 161\<rparr>,
     \<lparr>hp_name = ''bpf_sock_from_file'', hp_ret = Ptr (Struct ''socket''),
       hp_params = [(''file'', Ptr (Struct ''file''))],
       hp_variadic = False, hp_id = 162\<rparr>]"

definition helpers_163 :: "helper list" where
  "helpers_163 = [
     \<lparr>hp_name = ''bpf_check_mtu'', hp_ret = Long,
       hp_params = [(''ctx'', Ptr Void), (''ifindex'', U32t), (''mtu_len'', Ptr U32t), (''len_diff'', S32t), (''flags'', U64t)],
       hp_variadic = False, hp_id = 163\<rparr>,
     \<lparr>hp_name = ''bpf_for_each_map_elem'', hp_ret = Long,
       hp_params = [(''map'', Ptr Void), (''callback_fn'', Ptr Void), (''callback_ctx'', Ptr Void), (''flags'', U64t)],
       hp_variadic = False, hp_id = 164\<rparr>,
     \<lparr>hp_name = ''bpf_snprintf'', hp_ret = Long,
       hp_params = [(''str'', Ptr Char), (''str_size'', U32t), (''fmt'', Ptr (Const Char)), (''data'', Ptr U64t), (''data_len'', U32t)],
       hp_variadic = False, hp_id = 165\<rparr>,
     \<lparr>hp_name = ''bpf_sys_bpf'', hp_ret = Long,
       hp_params = [(''cmd'', U32t), (''attr'', Ptr Void), (''attr_size'', U32t)],
       hp_variadic = False, hp_id = 166\<rparr>]"

definition helpers_167 :: "helper list" where
  "helpers_167 = [
     \<lparr>hp_name = ''bpf_btf_find_by_name_kind'', hp_ret = Long,
       hp_params = [(''name'', Ptr Char), (''name_sz'', SInt), (''kind'', U32t), (''flags'', SInt)],
       hp_variadic = False, hp_id = 167\<rparr>,
     \<lparr>hp_name = ''bpf_sys_close'', hp_ret = Long,
       hp_params = [(''fd'', U32t)],
       hp_variadic = False, hp_id = 168\<rparr>,
     \<lparr>hp_name = ''bpf_timer_init'', hp_ret = Long,
       hp_params = [(''timer'', Ptr (Struct ''bpf_timer'')), (''map'', Ptr Void), (''flags'', U64t)],
       hp_variadic = False, hp_id = 169\<rparr>,
     \<lparr>hp_name = ''bpf_timer_set_callback'', hp_ret = Long,
       hp_params = [(''timer'', Ptr (Struct ''bpf_timer'')), (''callback_fn'', Ptr Void)],
       hp_variadic = False, hp_id = 170\<rparr>,
     \<lparr>hp_name = ''bpf_timer_start'', hp_ret = Long,
       hp_params = [(''timer'', Ptr (Struct ''bpf_timer'')), (''nsecs'', U64t), (''flags'', U64t)],
       hp_variadic = False, hp_id = 171\<rparr>,
     \<lparr>hp_name = ''bpf_timer_cancel'', hp_ret = Long,
       hp_params = [(''timer'', Ptr (Struct ''bpf_timer''))],
       hp_variadic = False, hp_id = 172\<rparr>,
     \<lparr>hp_name = ''bpf_get_func_ip'', hp_ret = U64t,
       hp_params = [(''ctx'', Ptr Void)],
       hp_variadic = False, hp_id = 173\<rparr>,
     \<lparr>hp_name = ''bpf_get_attach_cookie'', hp_ret = U64t,
       hp_params = [(''ctx'', Ptr Void)],
       hp_variadic = False, hp_id = 174\<rparr>,
     \<lparr>hp_name = ''bpf_task_pt_regs'', hp_ret = Long,
       hp_params = [(''task'', Ptr (Struct ''task_struct''))],
       hp_variadic = False, hp_id = 175\<rparr>]"

definition helpers_176 :: "helper list" where
  "helpers_176 = [
     \<lparr>hp_name = ''bpf_get_branch_snapshot'', hp_ret = Long,
       hp_params = [(''entries'', Ptr Void), (''size'', U32t), (''flags'', U64t)],
       hp_variadic = False, hp_id = 176\<rparr>,
     \<lparr>hp_name = ''bpf_trace_vprintk'', hp_ret = Long,
       hp_params = [(''fmt'', Ptr (Const Char)), (''fmt_size'', U32t), (''data'', Ptr (Const Void)), (''data_len'', U32t)],
       hp_variadic = False, hp_id = 177\<rparr>,
     \<lparr>hp_name = ''bpf_skc_to_unix_sock'', hp_ret = Ptr (Struct ''unix_sock''),
       hp_params = [(''sk'', Ptr Void)],
       hp_variadic = False, hp_id = 178\<rparr>,
     \<lparr>hp_name = ''bpf_kallsyms_lookup_name'', hp_ret = Long,
       hp_params = [(''name'', Ptr (Const Char)), (''name_sz'', SInt), (''flags'', SInt), (''res'', Ptr U64t)],
       hp_variadic = False, hp_id = 179\<rparr>,
     \<lparr>hp_name = ''bpf_find_vma'', hp_ret = Long,
       hp_params = [(''task'', Ptr (Struct ''task_struct'')), (''addr'', U64t), (''callback_fn'', Ptr Void), (''callback_ctx'', Ptr Void), (''flags'', U64t)],
       hp_variadic = False, hp_id = 180\<rparr>]"

section \<open>The whole table\<close>

definition all_helpers :: "helper list" where
  "all_helpers =
     helpers_1 @ helpers_8 @ helpers_13 @ helpers_20 @ helpers_23 @ helpers_27 @ helpers_32 @
     helpers_39 @ helpers_46 @ helpers_51 @ helpers_55 @ helpers_59 @ helpers_63 @ helpers_68 @
     helpers_73 @ helpers_78 @ helpers_84 @ helpers_91 @ helpers_99 @ helpers_105 @ helpers_110
     @ helpers_116 @ helpers_124 @ helpers_130 @ helpers_138 @ helpers_143 @ helpers_149 @
     helpers_156 @ helpers_163 @ helpers_167 @ helpers_176"

lemmas helper_tables =
  helpers_1_def helpers_8_def helpers_13_def helpers_20_def helpers_23_def helpers_27_def
  helpers_32_def helpers_39_def helpers_46_def helpers_51_def helpers_55_def helpers_59_def
  helpers_63_def helpers_68_def helpers_73_def helpers_78_def helpers_84_def helpers_91_def
  helpers_99_def helpers_105_def helpers_110_def helpers_116_def helpers_124_def
  helpers_130_def helpers_138_def helpers_143_def helpers_149_def helpers_156_def
  helpers_163_def helpers_167_def helpers_176_def

section \<open>Facts of the whole table\<close>

lemma helper_ids: "map hp_id all_helpers = [1..<181]"
  by (simp add: all_helpers_def helper_tables upt_rec)

lemma helper_arity: "list_all (\<lambda>h. length (hp_params h) \<le> 5) all_helpers"
  by (simp add: all_helpers_def helper_tables)

lemma helper_nth_id: "i < 180 \<Longrightarrow> hp_id (all_helpers ! i) = Suc i"
  using arg_cong [OF helper_ids, of "\<lambda>xs. xs ! i"] arg_cong [OF helper_ids, of length]
  by (simp add: nth_append)

end
