(* ===== verification/Kernel_Abi.thy ===== *)
theory Kernel_Abi
  imports Helper_Abi Bpf_Types
begin

text \<open>
  The kernel's side of that interface, \<^verbatim>\<open>enum bpf_func_id\<close> of the bundled kernel headers
  (\<^verbatim>\<open>vmlinux/arm64/\<close>; the enumerators without their common prefix \<^verbatim>\<open>BPF_FUNC_\<close>), the map types,
  and the maps \<^verbatim>\<open>bpf/header.h\<close> declares. The facts: whichever bundled kernel runs the object,
  a helper number means the function of that name, and every map declaration is one the
  kernel accepts.
\<close>

section \<open>Helper numbers of the bundled kernels\<close>

definition func_ids_vmlinux_a :: "(string \<times> nat) list" where
  "func_ids_vmlinux_a = [
     (''unspec'', 0), (''map_lookup_elem'', 1), (''map_update_elem'', 2), (''map_delete_elem'',
     3), (''probe_read'', 4), (''ktime_get_ns'', 5), (''trace_printk'', 6), (''get_prandom_u32'',
     7), (''get_smp_processor_id'', 8), (''skb_store_bytes'', 9), (''l3_csum_replace'', 10),
     (''l4_csum_replace'', 11), (''tail_call'', 12), (''clone_redirect'', 13),
     (''get_current_pid_tgid'', 14), (''get_current_uid_gid'', 15), (''get_current_comm'', 16),
     (''get_cgroup_classid'', 17), (''skb_vlan_push'', 18), (''skb_vlan_pop'', 19),
     (''skb_get_tunnel_key'', 20), (''skb_set_tunnel_key'', 21), (''perf_event_read'', 22),
     (''redirect'', 23), (''get_route_realm'', 24), (''perf_event_output'', 25),
     (''skb_load_bytes'', 26), (''get_stackid'', 27), (''csum_diff'', 28),
     (''skb_get_tunnel_opt'', 29), (''skb_set_tunnel_opt'', 30), (''skb_change_proto'', 31),
     (''skb_change_type'', 32), (''skb_under_cgroup'', 33), (''get_hash_recalc'', 34),
     (''get_current_task'', 35), (''probe_write_user'', 36), (''current_task_under_cgroup'', 37),
     (''skb_change_tail'', 38), (''skb_pull_data'', 39), (''csum_update'', 40),
     (''set_hash_invalid'', 41), (''get_numa_node_id'', 42), (''skb_change_head'', 43),
     (''xdp_adjust_head'', 44), (''probe_read_str'', 45), (''get_socket_cookie'', 46),
     (''get_socket_uid'', 47), (''set_hash'', 48), (''setsockopt'', 49), (''skb_adjust_room'',
     50), (''redirect_map'', 51), (''sk_redirect_map'', 52), (''sock_map_update'', 53),
     (''xdp_adjust_meta'', 54), (''perf_event_read_value'', 55), (''perf_prog_read_value'', 56),
     (''getsockopt'', 57), (''override_return'', 58), (''sock_ops_cb_flags_set'', 59),
     (''msg_redirect_map'', 60), (''msg_apply_bytes'', 61), (''msg_cork_bytes'', 62),
     (''msg_pull_data'', 63), (''bind'', 64), (''xdp_adjust_tail'', 65), (''skb_get_xfrm_state'',
     66), (''get_stack'', 67), (''skb_load_bytes_relative'', 68), (''fib_lookup'', 69),
     (''sock_hash_update'', 70), (''msg_redirect_hash'', 71), (''sk_redirect_hash'', 72),
     (''lwt_push_encap'', 73), (''lwt_seg6_store_bytes'', 74), (''lwt_seg6_adjust_srh'', 75),
     (''lwt_seg6_action'', 76), (''rc_repeat'', 77), (''rc_keydown'', 78), (''skb_cgroup_id'',
     79), (''get_current_cgroup_id'', 80), (''get_local_storage'', 81), (''sk_select_reuseport'',
     82), (''skb_ancestor_cgroup_id'', 83), (''sk_lookup_tcp'', 84), (''sk_lookup_udp'', 85),
     (''sk_release'', 86), (''map_push_elem'', 87), (''map_pop_elem'', 88), (''map_peek_elem'',
     89), (''msg_push_data'', 90), (''msg_pop_data'', 91), (''rc_pointer_rel'', 92),
     (''spin_lock'', 93), (''spin_unlock'', 94), (''sk_fullsock'', 95), (''tcp_sock'', 96),
     (''skb_ecn_set_ce'', 97), (''get_listener_sock'', 98), (''skc_lookup_tcp'', 99),
     (''tcp_check_syncookie'', 100), (''sysctl_get_name'', 101), (''sysctl_get_current_value'',
     102), (''sysctl_get_new_value'', 103), (''sysctl_set_new_value'', 104), (''strtol'', 105),
     (''strtoul'', 106), (''sk_storage_get'', 107), (''sk_storage_delete'', 108),
     (''send_signal'', 109), (''tcp_gen_syncookie'', 110), (''skb_output'', 111),
     (''probe_read_user'', 112), (''probe_read_kernel'', 113), (''probe_read_user_str'', 114),
     (''probe_read_kernel_str'', 115), (''tcp_send_ack'', 116), (''send_signal_thread'', 117),
     (''jiffies64'', 118), (''read_branch_records'', 119), (''get_ns_current_pid_tgid'', 120),
     (''xdp_output'', 121), (''get_netns_cookie'', 122), (''get_current_ancestor_cgroup_id'',
     123), (''sk_assign'', 124), (''ktime_get_boot_ns'', 125), (''seq_printf'', 126),
     (''seq_write'', 127), (''sk_cgroup_id'', 128), (''sk_ancestor_cgroup_id'', 129),
     (''ringbuf_output'', 130), (''ringbuf_reserve'', 131), (''ringbuf_submit'', 132),
     (''ringbuf_discard'', 133), (''ringbuf_query'', 134), (''csum_level'', 135),
     (''skc_to_tcp6_sock'', 136), (''skc_to_tcp_sock'', 137), (''skc_to_tcp_timewait_sock'',
     138), (''skc_to_tcp_request_sock'', 139)]"

definition func_ids_vmlinux_b :: "(string \<times> nat) list" where
  "func_ids_vmlinux_b = [
     (''skc_to_udp6_sock'', 140), (''get_task_stack'', 141), (''load_hdr_opt'', 142),
     (''store_hdr_opt'', 143), (''reserve_hdr_opt'', 144), (''inode_storage_get'', 145),
     (''inode_storage_delete'', 146), (''d_path'', 147), (''copy_from_user'', 148),
     (''snprintf_btf'', 149), (''seq_printf_btf'', 150), (''skb_cgroup_classid'', 151),
     (''redirect_neigh'', 152), (''per_cpu_ptr'', 153), (''this_cpu_ptr'', 154),
     (''redirect_peer'', 155)]"

definition func_ids_vmlinux :: "(string \<times> nat) list" where
  "func_ids_vmlinux = func_ids_vmlinux_a @ func_ids_vmlinux_b"

definition max_id_vmlinux :: nat where "max_id_vmlinux = 156"

definition func_ids_vmlinux_515 :: "(string \<times> nat) list" where
  "func_ids_vmlinux_515 = func_ids_vmlinux"

definition max_id_vmlinux_515 :: nat where "max_id_vmlinux_515 = 156"

definition func_ids_vmlinux_516_a :: "(string \<times> nat) list" where
  "func_ids_vmlinux_516_a = [
     (''unspec'', 0), (''map_lookup_elem'', 1), (''map_update_elem'', 2), (''map_delete_elem'',
     3), (''probe_read'', 4), (''ktime_get_ns'', 5), (''trace_printk'', 6), (''get_prandom_u32'',
     7), (''get_smp_processor_id'', 8), (''skb_store_bytes'', 9), (''l3_csum_replace'', 10),
     (''l4_csum_replace'', 11), (''tail_call'', 12), (''clone_redirect'', 13),
     (''get_current_pid_tgid'', 14), (''get_current_uid_gid'', 15), (''get_current_comm'', 16),
     (''get_cgroup_classid'', 17), (''skb_vlan_push'', 18), (''skb_vlan_pop'', 19),
     (''skb_get_tunnel_key'', 20), (''skb_set_tunnel_key'', 21), (''perf_event_read'', 22),
     (''redirect'', 23), (''get_route_realm'', 24), (''perf_event_output'', 25),
     (''skb_load_bytes'', 26), (''get_stackid'', 27), (''csum_diff'', 28),
     (''skb_get_tunnel_opt'', 29), (''skb_set_tunnel_opt'', 30), (''skb_change_proto'', 31),
     (''skb_change_type'', 32), (''skb_under_cgroup'', 33), (''get_hash_recalc'', 34),
     (''get_current_task'', 35), (''probe_write_user'', 36), (''current_task_under_cgroup'', 37),
     (''skb_change_tail'', 38), (''skb_pull_data'', 39), (''csum_update'', 40),
     (''set_hash_invalid'', 41), (''get_numa_node_id'', 42), (''skb_change_head'', 43),
     (''xdp_adjust_head'', 44), (''probe_read_str'', 45), (''get_socket_cookie'', 46),
     (''get_socket_uid'', 47), (''set_hash'', 48), (''setsockopt'', 49), (''skb_adjust_room'',
     50), (''redirect_map'', 51), (''sk_redirect_map'', 52), (''sock_map_update'', 53),
     (''xdp_adjust_meta'', 54), (''perf_event_read_value'', 55), (''perf_prog_read_value'', 56),
     (''getsockopt'', 57), (''override_return'', 58), (''sock_ops_cb_flags_set'', 59),
     (''msg_redirect_map'', 60), (''msg_apply_bytes'', 61), (''msg_cork_bytes'', 62),
     (''msg_pull_data'', 63), (''bind'', 64), (''xdp_adjust_tail'', 65), (''skb_get_xfrm_state'',
     66), (''get_stack'', 67), (''skb_load_bytes_relative'', 68), (''fib_lookup'', 69),
     (''sock_hash_update'', 70), (''msg_redirect_hash'', 71), (''sk_redirect_hash'', 72),
     (''lwt_push_encap'', 73), (''lwt_seg6_store_bytes'', 74), (''lwt_seg6_adjust_srh'', 75),
     (''lwt_seg6_action'', 76), (''rc_repeat'', 77), (''rc_keydown'', 78), (''skb_cgroup_id'',
     79), (''get_current_cgroup_id'', 80), (''get_local_storage'', 81), (''sk_select_reuseport'',
     82), (''skb_ancestor_cgroup_id'', 83), (''sk_lookup_tcp'', 84), (''sk_lookup_udp'', 85),
     (''sk_release'', 86), (''map_push_elem'', 87), (''map_pop_elem'', 88), (''map_peek_elem'',
     89), (''msg_push_data'', 90), (''msg_pop_data'', 91), (''rc_pointer_rel'', 92),
     (''spin_lock'', 93), (''spin_unlock'', 94), (''sk_fullsock'', 95), (''tcp_sock'', 96),
     (''skb_ecn_set_ce'', 97), (''get_listener_sock'', 98), (''skc_lookup_tcp'', 99),
     (''tcp_check_syncookie'', 100), (''sysctl_get_name'', 101), (''sysctl_get_current_value'',
     102), (''sysctl_get_new_value'', 103), (''sysctl_set_new_value'', 104), (''strtol'', 105),
     (''strtoul'', 106), (''sk_storage_get'', 107), (''sk_storage_delete'', 108),
     (''send_signal'', 109), (''tcp_gen_syncookie'', 110), (''skb_output'', 111),
     (''probe_read_user'', 112), (''probe_read_kernel'', 113), (''probe_read_user_str'', 114),
     (''probe_read_kernel_str'', 115), (''tcp_send_ack'', 116), (''send_signal_thread'', 117),
     (''jiffies64'', 118), (''read_branch_records'', 119), (''get_ns_current_pid_tgid'', 120),
     (''xdp_output'', 121), (''get_netns_cookie'', 122), (''get_current_ancestor_cgroup_id'',
     123), (''sk_assign'', 124), (''ktime_get_boot_ns'', 125), (''seq_printf'', 126),
     (''seq_write'', 127), (''sk_cgroup_id'', 128), (''sk_ancestor_cgroup_id'', 129),
     (''ringbuf_output'', 130), (''ringbuf_reserve'', 131), (''ringbuf_submit'', 132),
     (''ringbuf_discard'', 133), (''ringbuf_query'', 134), (''csum_level'', 135),
     (''skc_to_tcp6_sock'', 136), (''skc_to_tcp_sock'', 137), (''skc_to_tcp_timewait_sock'',
     138), (''skc_to_tcp_request_sock'', 139)]"

definition func_ids_vmlinux_516_b :: "(string \<times> nat) list" where
  "func_ids_vmlinux_516_b = [
     (''skc_to_udp6_sock'', 140), (''get_task_stack'', 141), (''load_hdr_opt'', 142),
     (''store_hdr_opt'', 143), (''reserve_hdr_opt'', 144), (''inode_storage_get'', 145),
     (''inode_storage_delete'', 146), (''d_path'', 147), (''copy_from_user'', 148),
     (''snprintf_btf'', 149), (''seq_printf_btf'', 150), (''skb_cgroup_classid'', 151),
     (''redirect_neigh'', 152), (''per_cpu_ptr'', 153), (''this_cpu_ptr'', 154),
     (''redirect_peer'', 155), (''task_storage_get'', 156), (''task_storage_delete'', 157),
     (''get_current_task_btf'', 158), (''bprm_opts_set'', 159), (''ktime_get_coarse_ns'', 160),
     (''ima_inode_hash'', 161), (''sock_from_file'', 162), (''check_mtu'', 163),
     (''for_each_map_elem'', 164), (''snprintf'', 165), (''sys_bpf'', 166),
     (''btf_find_by_name_kind'', 167), (''sys_close'', 168), (''timer_init'', 169),
     (''timer_set_callback'', 170), (''timer_start'', 171), (''timer_cancel'', 172),
     (''get_func_ip'', 173), (''get_attach_cookie'', 174), (''task_pt_regs'', 175),
     (''get_branch_snapshot'', 176), (''trace_vprintk'', 177), (''skc_to_unix_sock'', 178),
     (''kallsyms_lookup_name'', 179)]"

definition func_ids_vmlinux_516 :: "(string \<times> nat) list" where
  "func_ids_vmlinux_516 = func_ids_vmlinux_516_a @ func_ids_vmlinux_516_b"

definition max_id_vmlinux_516 :: nat where "max_id_vmlinux_516 = 180"

definition func_ids_vmlinux_601_a :: "(string \<times> nat) list" where
  "func_ids_vmlinux_601_a = [
     (''unspec'', 0), (''map_lookup_elem'', 1), (''map_update_elem'', 2), (''map_delete_elem'',
     3), (''probe_read'', 4), (''ktime_get_ns'', 5), (''trace_printk'', 6), (''get_prandom_u32'',
     7), (''get_smp_processor_id'', 8), (''skb_store_bytes'', 9), (''l3_csum_replace'', 10),
     (''l4_csum_replace'', 11), (''tail_call'', 12), (''clone_redirect'', 13),
     (''get_current_pid_tgid'', 14), (''get_current_uid_gid'', 15), (''get_current_comm'', 16),
     (''get_cgroup_classid'', 17), (''skb_vlan_push'', 18), (''skb_vlan_pop'', 19),
     (''skb_get_tunnel_key'', 20), (''skb_set_tunnel_key'', 21), (''perf_event_read'', 22),
     (''redirect'', 23), (''get_route_realm'', 24), (''perf_event_output'', 25),
     (''skb_load_bytes'', 26), (''get_stackid'', 27), (''csum_diff'', 28),
     (''skb_get_tunnel_opt'', 29), (''skb_set_tunnel_opt'', 30), (''skb_change_proto'', 31),
     (''skb_change_type'', 32), (''skb_under_cgroup'', 33), (''get_hash_recalc'', 34),
     (''get_current_task'', 35), (''probe_write_user'', 36), (''current_task_under_cgroup'', 37),
     (''skb_change_tail'', 38), (''skb_pull_data'', 39), (''csum_update'', 40),
     (''set_hash_invalid'', 41), (''get_numa_node_id'', 42), (''skb_change_head'', 43),
     (''xdp_adjust_head'', 44), (''probe_read_str'', 45), (''get_socket_cookie'', 46),
     (''get_socket_uid'', 47), (''set_hash'', 48), (''setsockopt'', 49), (''skb_adjust_room'',
     50), (''redirect_map'', 51), (''sk_redirect_map'', 52), (''sock_map_update'', 53),
     (''xdp_adjust_meta'', 54), (''perf_event_read_value'', 55), (''perf_prog_read_value'', 56),
     (''getsockopt'', 57), (''override_return'', 58), (''sock_ops_cb_flags_set'', 59),
     (''msg_redirect_map'', 60), (''msg_apply_bytes'', 61), (''msg_cork_bytes'', 62),
     (''msg_pull_data'', 63), (''bind'', 64), (''xdp_adjust_tail'', 65), (''skb_get_xfrm_state'',
     66), (''get_stack'', 67), (''skb_load_bytes_relative'', 68), (''fib_lookup'', 69),
     (''sock_hash_update'', 70), (''msg_redirect_hash'', 71), (''sk_redirect_hash'', 72),
     (''lwt_push_encap'', 73), (''lwt_seg6_store_bytes'', 74), (''lwt_seg6_adjust_srh'', 75),
     (''lwt_seg6_action'', 76), (''rc_repeat'', 77), (''rc_keydown'', 78), (''skb_cgroup_id'',
     79), (''get_current_cgroup_id'', 80), (''get_local_storage'', 81), (''sk_select_reuseport'',
     82), (''skb_ancestor_cgroup_id'', 83), (''sk_lookup_tcp'', 84), (''sk_lookup_udp'', 85),
     (''sk_release'', 86), (''map_push_elem'', 87), (''map_pop_elem'', 88), (''map_peek_elem'',
     89), (''msg_push_data'', 90), (''msg_pop_data'', 91), (''rc_pointer_rel'', 92),
     (''spin_lock'', 93), (''spin_unlock'', 94), (''sk_fullsock'', 95), (''tcp_sock'', 96),
     (''skb_ecn_set_ce'', 97), (''get_listener_sock'', 98), (''skc_lookup_tcp'', 99),
     (''tcp_check_syncookie'', 100), (''sysctl_get_name'', 101), (''sysctl_get_current_value'',
     102), (''sysctl_get_new_value'', 103), (''sysctl_set_new_value'', 104), (''strtol'', 105),
     (''strtoul'', 106), (''sk_storage_get'', 107), (''sk_storage_delete'', 108),
     (''send_signal'', 109), (''tcp_gen_syncookie'', 110), (''skb_output'', 111),
     (''probe_read_user'', 112), (''probe_read_kernel'', 113), (''probe_read_user_str'', 114),
     (''probe_read_kernel_str'', 115), (''tcp_send_ack'', 116), (''send_signal_thread'', 117),
     (''jiffies64'', 118), (''read_branch_records'', 119), (''get_ns_current_pid_tgid'', 120),
     (''xdp_output'', 121), (''get_netns_cookie'', 122), (''get_current_ancestor_cgroup_id'',
     123), (''sk_assign'', 124), (''ktime_get_boot_ns'', 125), (''seq_printf'', 126),
     (''seq_write'', 127), (''sk_cgroup_id'', 128), (''sk_ancestor_cgroup_id'', 129),
     (''ringbuf_output'', 130), (''ringbuf_reserve'', 131), (''ringbuf_submit'', 132),
     (''ringbuf_discard'', 133), (''ringbuf_query'', 134), (''csum_level'', 135),
     (''skc_to_tcp6_sock'', 136), (''skc_to_tcp_sock'', 137), (''skc_to_tcp_timewait_sock'',
     138), (''skc_to_tcp_request_sock'', 139)]"

definition func_ids_vmlinux_601_b :: "(string \<times> nat) list" where
  "func_ids_vmlinux_601_b = [
     (''skc_to_udp6_sock'', 140), (''get_task_stack'', 141), (''load_hdr_opt'', 142),
     (''store_hdr_opt'', 143), (''reserve_hdr_opt'', 144), (''inode_storage_get'', 145),
     (''inode_storage_delete'', 146), (''d_path'', 147), (''copy_from_user'', 148),
     (''snprintf_btf'', 149), (''seq_printf_btf'', 150), (''skb_cgroup_classid'', 151),
     (''redirect_neigh'', 152), (''per_cpu_ptr'', 153), (''this_cpu_ptr'', 154),
     (''redirect_peer'', 155), (''task_storage_get'', 156), (''task_storage_delete'', 157),
     (''get_current_task_btf'', 158), (''bprm_opts_set'', 159), (''ktime_get_coarse_ns'', 160),
     (''ima_inode_hash'', 161), (''sock_from_file'', 162), (''check_mtu'', 163),
     (''for_each_map_elem'', 164), (''snprintf'', 165), (''sys_bpf'', 166),
     (''btf_find_by_name_kind'', 167), (''sys_close'', 168), (''timer_init'', 169),
     (''timer_set_callback'', 170), (''timer_start'', 171), (''timer_cancel'', 172),
     (''get_func_ip'', 173), (''get_attach_cookie'', 174), (''task_pt_regs'', 175),
     (''get_branch_snapshot'', 176), (''trace_vprintk'', 177), (''skc_to_unix_sock'', 178),
     (''kallsyms_lookup_name'', 179), (''find_vma'', 180), (''loop'', 181), (''strncmp'', 182),
     (''get_func_arg'', 183), (''get_func_ret'', 184), (''get_func_arg_cnt'', 185),
     (''get_retval'', 186), (''set_retval'', 187), (''xdp_get_buff_len'', 188),
     (''xdp_load_bytes'', 189), (''xdp_store_bytes'', 190), (''copy_from_user_task'', 191),
     (''skb_set_tstamp'', 192), (''ima_file_hash'', 193), (''kptr_xchg'', 194),
     (''map_lookup_percpu_elem'', 195), (''skc_to_mptcp_sock'', 196), (''dynptr_from_mem'', 197),
     (''ringbuf_reserve_dynptr'', 198), (''ringbuf_submit_dynptr'', 199),
     (''ringbuf_discard_dynptr'', 200), (''dynptr_read'', 201), (''dynptr_write'', 202),
     (''dynptr_data'', 203), (''tcp_raw_gen_syncookie_ipv4'', 204),
     (''tcp_raw_gen_syncookie_ipv6'', 205), (''tcp_raw_check_syncookie_ipv4'', 206),
     (''tcp_raw_check_syncookie_ipv6'', 207), (''ktime_get_tai_ns'', 208),
     (''user_ringbuf_drain'', 209), (''cgrp_storage_get'', 210), (''cgrp_storage_delete'', 211)]"

definition func_ids_vmlinux_601 :: "(string \<times> nat) list" where
  "func_ids_vmlinux_601 = func_ids_vmlinux_601_a @ func_ids_vmlinux_601_b"

definition max_id_vmlinux_601 :: nat where "max_id_vmlinux_601 = 212"

definition kernels :: "((string \<times> nat) list \<times> nat) list" where
  "kernels = [(func_ids_vmlinux, max_id_vmlinux), (func_ids_vmlinux_515, max_id_vmlinux_515),
     (func_ids_vmlinux_516, max_id_vmlinux_516), (func_ids_vmlinux_601, max_id_vmlinux_601)]"

text \<open>The numbers both sides know are given to the same names.\<close>

definition same_numbers :: "(string \<times> nat) list \<Rightarrow> bool" where
  "same_numbers ids \<longleftrightarrow>
     (let n = min (length ids - 1) (length all_helpers)
      in map (\<lambda>(s, v). (''bpf_'' @ s, v)) (take n (tl ids)) =
         map (\<lambda>h. (hp_name h, hp_id h)) (take n all_helpers))"

lemmas func_id_tables = func_ids_vmlinux_def func_ids_vmlinux_a_def func_ids_vmlinux_b_def
  func_ids_vmlinux_515_def func_ids_vmlinux_516_def func_ids_vmlinux_516_a_def
  func_ids_vmlinux_516_b_def func_ids_vmlinux_601_def func_ids_vmlinux_601_a_def
  func_ids_vmlinux_601_b_def max_id_vmlinux_def max_id_vmlinux_515_def max_id_vmlinux_516_def
  max_id_vmlinux_601_def

lemma length_all_helpers: "length all_helpers = 180"
  using arg_cong [OF helper_ids, of length] by simp

lemma same_numbers_vmlinux: "same_numbers func_ids_vmlinux"
  by (simp add: same_numbers_def length_all_helpers func_id_tables)
     (simp add: all_helpers_def helper_tables)

lemma same_numbers_516: "same_numbers func_ids_vmlinux_516"
  by (simp add: same_numbers_def length_all_helpers func_id_tables)
     (simp add: all_helpers_def helper_tables)

lemma same_numbers_601: "same_numbers func_ids_vmlinux_601"
  by (simp add: same_numbers_def length_all_helpers func_id_tables)
     (simp add: all_helpers_def helper_tables)

lemma func_ids_length: "\<forall>(ids, n) \<in> set kernels. length ids = n"
  by (simp add: kernels_def func_id_tables)

section \<open>The maps of the object\<close>

text \<open>The map types of the kernel, without their prefix \<^verbatim>\<open>BPF_MAP_TYPE_\<close>.\<close>

definition bpf_map_types :: "(string \<times> nat) list" where
  "bpf_map_types = [
     (''UNSPEC'', 0), (''HASH'', 1), (''ARRAY'', 2), (''PROG_ARRAY'', 3), (''PERF_EVENT_ARRAY'',
     4), (''PERCPU_HASH'', 5), (''PERCPU_ARRAY'', 6), (''STACK_TRACE'', 7), (''CGROUP_ARRAY'',
     8), (''LRU_HASH'', 9), (''LRU_PERCPU_HASH'', 10), (''LPM_TRIE'', 11), (''ARRAY_OF_MAPS'',
     12), (''HASH_OF_MAPS'', 13), (''DEVMAP'', 14), (''SOCKMAP'', 15), (''CPUMAP'', 16),
     (''XSKMAP'', 17), (''SOCKHASH'', 18), (''CGROUP_STORAGE'', 19), (''REUSEPORT_SOCKARRAY'',
     20), (''PERCPU_CGROUP_STORAGE'', 21), (''QUEUE'', 22), (''STACK'', 23), (''SK_STORAGE'',
     24), (''DEVMAP_HASH'', 25), (''STRUCT_OPS'', 26), (''RINGBUF'', 27), (''INODE_STORAGE'', 28)]"

definition config_members :: "(nat \<times> nat) list" where
  "config_members = [U32m, U32m, U32m, U32m, U32m, U32m]"
definition art_layout_members :: "(nat \<times> nat) list" where
  "art_layout_members = [U32m, U32m, U32m, U32m, U32m, U32m, U32m, U32m, U32m, U32m]"
definition capture_key_members :: "(nat \<times> nat) list" where
  "capture_key_members = [U64m, U64m, U32m, U32m]"
definition buf_members :: "(nat \<times> nat) list" where
  "buf_members = [CHARSm MAX_PERCPU_BUFSIZE, U32m]"
definition native_copy_args_members :: "(nat \<times> nat) list" where
  "native_copy_args_members = [U64m, U64m, U32m]"
definition native_alloc_args_members :: "(nat \<times> nat) list" where
  "native_alloc_args_members = [U64m, U32m, U32m]"

lemmas map_member_defs = config_members_def art_layout_members_def capture_key_members_def
  buf_members_def native_copy_args_members_def native_alloc_args_members_def
  U32m_def U64m_def CHARSm_def

text \<open>A declaration: type, capacity and, where the type has them, key and value size.\<close>

record map_decl =
  md_name :: string
  md_type :: string
  md_max_entries :: nat
  md_key_size :: "nat option"
  md_value_size :: "nat option"

definition ring_decl :: "string \<Rightarrow> nat \<Rightarrow> map_decl" where
  "ring_decl name n = \<lparr>md_name = name, md_type = ''RINGBUF'', md_max_entries = n,
     md_key_size = None, md_value_size = None\<rparr>"

definition kv_decl :: "string \<Rightarrow> string \<Rightarrow> nat \<Rightarrow> nat \<Rightarrow> nat \<Rightarrow> map_decl" where
  "kv_decl name t n k v = \<lparr>md_name = name, md_type = t, md_max_entries = n,
     md_key_size = Some k, md_value_size = Some v\<rparr>"

definition bpf_maps :: "map_decl list" where
  "bpf_maps = [
     ring_decl ''events'' (push_bit 22 1),
     ring_decl ''method_events'' (push_bit 24 1),
     ring_decl ''dex_chunks'' (push_bit 24 1),
     ring_decl ''read_failures'' (push_bit 20 1),
     ring_decl ''layout_debug_events'' (push_bit 20 1),
     ring_decl ''native_buffer_events'' (push_bit 20 1),
     ring_decl ''jni_events'' (push_bit 20 1),
     kv_decl ''config_map'' ''HASH'' 1 4 (c_sizeof config_members),
     kv_decl ''art_layout_map'' ''HASH'' 1 4 (c_sizeof art_layout_members),
     kv_decl ''dexFileCache_map'' ''LRU_HASH'' 10240 (c_sizeof capture_key_members) 4,
     kv_decl ''methodCodeCache_map'' ''LRU_HASH'' 100000 (c_sizeof capture_key_members) 4,
     kv_decl ''bufs_m'' ''PERCPU_ARRAY'' 1 4 (c_sizeof buf_members),
     kv_decl ''dexProgress_map'' ''LRU_HASH'' 10240 (c_sizeof capture_key_members) 4,
     kv_decl ''native_copy_args_map'' ''HASH'' 4096 8 (c_sizeof native_copy_args_members),
     kv_decl ''native_alloc_args_map'' ''HASH'' 4096 8 (c_sizeof native_alloc_args_members)]"

text \<open>
  What the kernel demands when it creates a map: a ring has no key and no value and a
  capacity that is a power of two and a multiple of the page size; a per-CPU array is
  indexed by four bytes and a value fits the per-CPU allocator's 32 KB unit; a hash has
  keys, values and capacity.
\<close>

definition map_accepted :: "map_decl \<Rightarrow> bool" where
  "map_accepted d \<longleftrightarrow>
     map_of bpf_map_types (md_type d) \<noteq> None \<and>
     (if md_type d = ''RINGBUF''
      then md_key_size d = None \<and> md_value_size d = None \<and>
        list_ex (\<lambda>i. md_max_entries d = push_bit i 1) [12..<32]
      else if md_type d = ''PERCPU_ARRAY''
      then md_key_size d = Some 4 \<and> 0 < md_max_entries d \<and>
        (case md_value_size d of None \<Rightarrow> False | Some v \<Rightarrow> 0 < v \<and> v \<le> 32768)
      else 0 < md_max_entries d \<and>
        (case md_key_size d of None \<Rightarrow> False | Some k \<Rightarrow> 0 < k \<and> k \<le> 512) \<and>
        (case md_value_size d of None \<Rightarrow> False | Some v \<Rightarrow> 0 < v))"

lemma map_value_sizes:
  "c_sizeof config_members = 24" "c_sizeof art_layout_members = 40"
  "c_sizeof capture_key_members = 24" "c_sizeof buf_members = 16388"
  "c_sizeof native_copy_args_members = 24" "c_sizeof native_alloc_args_members = 16"
  by (simp_all add: c_sizeof_def map_member_defs round_up_def MAX_PERCPU_BUFSIZE_def)

lemma bpf_maps_accepted: "list_all map_accepted bpf_maps"
  by (simp add: bpf_maps_def ring_decl_def kv_decl_def map_value_sizes map_accepted_def
      bpf_map_types_def upt_rec)

text \<open>The ring a record goes to, as declared.\<close>

fun ring_name :: "ring \<Rightarrow> string" where
  "ring_name events = ''events''"
| "ring_name method_events = ''method_events''"
| "ring_name dex_chunks = ''dex_chunks''"
| "ring_name read_failures = ''read_failures''"
| "ring_name layout_debug_events = ''layout_debug_events''"
| "ring_name native_buffer_events = ''native_buffer_events''"
| "ring_name jni_events = ''jni_events''"

definition find_map :: "string \<Rightarrow> map_decl option" where
  "find_map name = List.find (\<lambda>d. md_name d = name) bpf_maps"

lemma find_ring: "find_map (ring_name r) = Some (ring_decl (ring_name r) (ring_max_entries r))"
  by (cases r) (simp_all add: find_map_def bpf_maps_def ring_decl_def kv_decl_def)

section \<open>Common numbers\<close>

lemma kernels_same_numbers: "(ids, n) \<in> set kernels \<Longrightarrow> same_numbers ids \<and> length ids = n \<and> 156 \<le> n"
  using func_ids_length same_numbers_vmlinux same_numbers_516 same_numbers_601
  by (auto simp: kernels_def func_ids_vmlinux_515_def max_id_vmlinux_def max_id_vmlinux_515_def
      max_id_vmlinux_516_def max_id_vmlinux_601_def)

end
