(* ===== verification/Liveness.thy ===== *)
theory Liveness
  imports Dex_Transfer
begin

text \<open>
  Progress under fairness: an endless interleaving of calls of
  \<^verbatim>\<open>submit_dex_chunks_partial\<close> for any DEX files, processes and environments, and of evictions
  from the LRU map \<^verbatim>\<open>dexProgress_map\<close>, and what happens to the progress of one DEX in it.
\<close>

section \<open>Endless runs\<close>

record dex_call =
  dc_env :: env
  dc_begin :: u64
  dc_pid :: u32
  dc_size :: u32

definition do_call :: "dex_call \<Rightarrow> bpf_state \<Rightarrow> bpf_state" where
  "do_call c s = submit_dex_chunks_partial (dc_env c) (dc_begin c) (dc_pid c) (dc_size c) s"

text \<open>Besides the calls, the kernel evicts entries of the LRU map as it likes (\<open>evict_progress\<close>).\<close>

datatype dex_action = Call dex_call | Evict capture_key_t

fun act :: "dex_action \<Rightarrow> bpf_state \<Rightarrow> bpf_state" where
  "act (Call c) s = do_call c s"
| "act (Evict k) s = s\<lparr>dexProgress_map := AList.delete k (dexProgress_map s)\<rparr>"

primrec endless_run :: "(nat \<Rightarrow> dex_action) \<Rightarrow> bpf_state \<Rightarrow> nat \<Rightarrow> bpf_state" where
  "endless_run acts s 0 = s"
| "endless_run acts s (Suc n) = act (acts n) (endless_run acts s n)"

text \<open>A call for the DEX \<open>D\<close> that nothing stands in the way of.\<close>

definition clear_call :: "u32 \<Rightarrow> u64 \<Rightarrow> u8 list \<Rightarrow> dex_call \<Rightarrow> bool" where
  "clear_call pid b D c \<longleftrightarrow> unobstructed (dc_env c) b D \<and> dc_begin c = b \<and> dc_pid c = pid \<and>
     unat (dc_size c) = length D"

section \<open>No call loses ground\<close>

lemma do_call_mono: "dex_progress s k \<le> dex_progress (do_call c s) k"
proof (cases "k = dex_key (dc_env c) (dc_pid c) (dc_begin c) (dc_size c)")
  case True
  then show ?thesis by (simp add: do_call_def submit_partial_progress)
next
  case False
  then show ?thesis by (simp add: do_call_def dex_progress_def submit_partial_other)
qed

lemma act_mono: "a \<noteq> Evict k \<Longrightarrow> dex_progress s k \<le> dex_progress (act a s) k"
proof (cases a)
  case (Call c)
  then show ?thesis by (simp add: do_call_mono)
next
  case (Evict j)
  assume "a \<noteq> Evict k"
  with Evict show ?thesis by (simp add: dex_progress_def map_of_delete_other)
qed

lemma act_ok: "progress_ok (dexProgress_map s) \<Longrightarrow> progress_ok (dexProgress_map (act a s))"
  by (cases a) (simp_all add: do_call_def submit_partial_progress_ok progress_ok_delete)

lemma endless_run_ok:
  "progress_ok (dexProgress_map s) \<Longrightarrow> progress_ok (dexProgress_map (endless_run acts s n))"
  by (induction n) (simp_all add: act_ok)

lemma endless_run_mono:
  "n \<le> m \<Longrightarrow> (\<And>i. n \<le> i \<Longrightarrow> acts i \<noteq> Evict k) \<Longrightarrow>
     dex_progress (endless_run acts s n) k \<le> dex_progress (endless_run acts s m) k"
  by (induction m rule: dec_induct) (auto intro: order_trans act_mono)

lemma endless_run_le:
  "progress_ok (dexProgress_map s) \<Longrightarrow> dex_progress (endless_run acts s n) k \<le> ck_size k"
  by (rule dex_progress_le [OF endless_run_ok])

section \<open>Clear calls gain ground\<close>

lemma clear_call_gains:
  assumes "clear_call pid b D c" and "16 \<le> length D"
    and "dex_progress s (dex_image_key pid b D) \<le> ck_size (dex_image_key pid b D)"
  shows "min (length D) (unat (dex_progress s (dex_image_key pid b D)) + 1) \<le>
    unat (dex_progress (do_call c s) (dex_image_key pid b D))"
proof -
  have len: "length D = unat (dc_size c)" using assms(1) by (simp add: clear_call_def)
  then have "ck_size (dex_image_key pid b D) = dc_size c" by (simp add: dex_image_key_def)
  with submit_partial_unobstructed [of "dc_env c" b D "dc_size c" s pid] assms len
  have "unat (dex_progress (do_call c s) (dex_image_key pid b D)) =
      min (length D) (unat (dex_progress s (dex_image_key pid b D)) + BYTES_PER_CALL)"
    by (auto simp: clear_call_def do_call_def)
  then show ?thesis by (simp add: BYTES_PER_CALL_def)
qed

text \<open>From step \<open>n0\<close> on the entry of the DEX stays in the map.\<close>

lemma fair_run_reaches:
  assumes ok: "progress_ok (dexProgress_map s)" and fair: "\<And>n. \<exists>m\<ge>n. \<exists>c. acts m = Call c \<and> clear_call pid b D c"
    and kept: "\<And>i. n0 \<le> i \<Longrightarrow> acts i \<noteq> Evict (dex_image_key pid b D)" and len: "16 \<le> length D"
  shows "\<exists>n\<ge>n0. min (length D) j \<le> unat (dex_progress (endless_run acts s n) (dex_image_key pid b D))"
proof (induction j)
  case 0
  then show ?case by auto
next
  case (Suc j)
  let ?k = "dex_image_key pid b D"
  from Suc obtain n where n: "n0 \<le> n" "min (length D) j \<le> unat (dex_progress (endless_run acts s n) ?k)" by blast
  from fair obtain m c where m: "n \<le> m" "acts m = Call c" "clear_call pid b D c" by blast
  have "dex_progress (endless_run acts s n) ?k \<le> dex_progress (endless_run acts s m) ?k"
    by (rule endless_run_mono [OF m(1)]) (use kept n(1) in simp)
  with n have "min (length D) (Suc j) \<le>
      min (length D) (unat (dex_progress (endless_run acts s m) ?k) + 1)"
    by (simp add: word_le_nat_alt)
  also have "\<dots> \<le> unat (dex_progress (endless_run acts s (Suc m)) ?k)"
    using clear_call_gains [OF m(3) len endless_run_le [OF ok]] by (simp add: m(2))
  finally show ?case using m(1) n(1) by (intro exI [of _ "Suc m"]) simp
qed

lemma fair_run_completes:
  assumes ok: "progress_ok (dexProgress_map s)" and fair: "\<And>n. \<exists>m\<ge>n. \<exists>c. acts m = Call c \<and> clear_call pid b D c"
    and kept: "\<And>i. n0 \<le> i \<Longrightarrow> acts i \<noteq> Evict (dex_image_key pid b D)" and len: "16 \<le> length D"
  shows "\<exists>n. \<forall>m\<ge>n. dex_progress (endless_run acts s m) (dex_image_key pid b D) =
    of_nat (length D)"
proof -
  let ?k = "dex_image_key pid b D"
  from fair [of 0] obtain m0 c where "acts m0 = Call c" "clear_call pid b D c" by blast
  then have "length D = unat (dc_size c)" by (simp add: clear_call_def)
  then have size: "unat (ck_size ?k) = length D" by (simp add: dex_image_key_def)
  from fair_run_reaches [OF ok fair kept len, where j = "length D"] obtain n where
    n: "n0 \<le> n" "length D \<le> unat (dex_progress (endless_run acts s n) ?k)" by auto
  have "dex_progress (endless_run acts s m) ?k = ck_size ?k" if "n \<le> m" for m
  proof (rule antisym)
    show "dex_progress (endless_run acts s m) ?k \<le> ck_size ?k" by (rule endless_run_le [OF ok])
    show "ck_size ?k \<le> dex_progress (endless_run acts s m) ?k"
      using n size endless_run_mono [OF that, of acts ?k s] kept by (simp add: word_le_nat_alt)
  qed
  then show ?thesis by (auto simp: dex_image_key_def)
qed

end
