(* ===== verification/Proc_Maps.thy ===== *)
theory Proc_Maps
  imports Remote_Facts Rust_Text
begin

text \<open>
  The memory map of a process (\<^verbatim>\<open>/proc/<pid>/maps\<close>) as \<^verbatim>\<open>src/dump.rs\<close> reads it: its lines
  (\<^verbatim>\<open>parse_maps_entry\<close>, \<^verbatim>\<open>parse_readable_map_region\<close>), the look-up of an address and the test
  for ranges of the system (\<^verbatim>\<open>MapsRegions\<close>), and the search of all readable mappings for DEX files
  (\<^verbatim>\<open>scan_process_maps\<close>). The content of the file is a parameter.
\<close>

section \<open>Lines\<close>

record maps_entry =
  me_start :: u64
  me_end :: u64
  me_path :: rust_string

record map_region =
  mr_start :: u64
  mr_end :: u64

text \<open>\<^verbatim>\<open>str::lines\<close>: the last line may lack its line feed, a carriage return before it is dropped.\<close>

definition str_lines :: "rust_string \<Rightarrow> rust_string list" where
  "str_lines s =
     (let ls = split_char 0x0A s; ls = (if last ls = [] then butlast ls else ls)
      in map (\<lambda>l. case strip_suffix [0x0D] l of None \<Rightarrow> l | Some l' \<Rightarrow> l') ls)"

definition parse_range :: "rust_string \<Rightarrow> (u64 \<times> u64) option" where
  "parse_range extent =
     (case split_once 0x2D extent of None \<Rightarrow> None
      | Some (a, b) \<Rightarrow>
          case u64_from_hex a of None \<Rightarrow> None
          | Some start \<Rightarrow> map_option (Pair start) (u64_from_hex b))"

definition parse_maps_entry :: "rust_string \<Rightarrow> maps_entry option" where
  "parse_maps_entry line =
     (case split_whitespace line of
        extent # _ # _ # _ # _ # path \<Rightarrow>
          map_option (\<lambda>(start, stop). \<lparr>me_start = start, me_end = stop, me_path = join [0x20] path\<rparr>)
            (parse_range extent)
      | _ \<Rightarrow> None)"

definition parse_readable_map_region :: "rust_string \<Rightarrow> map_region option" where
  "parse_readable_map_region line =
     (case split_whitespace line of
        extent # perms # rest \<Rightarrow>
          if \<not> starts_with perms [0x72] then None
          else (case rest of
                  _ # _ # _ # _ \<Rightarrow>
                    map_option (\<lambda>(start, stop). \<lparr>mr_start = start, mr_end = stop\<rparr>) (parse_range extent)
                | _ \<Rightarrow> None)
      | _ \<Rightarrow> None)"

section \<open>The map of a process\<close>

definition maps_refresh :: "rust_string option \<Rightarrow> maps_entry list \<Rightarrow> maps_entry list" where
  "maps_refresh content regions =
     (case content of None \<Rightarrow> regions
      | Some text \<Rightarrow> sort_key me_start (List.map_filter parse_maps_entry (str_lines text)))"

text \<open>\<^verbatim>\<open>partition_point\<close> on the sorted regions.\<close>

definition maps_lookup :: "maps_entry list \<Rightarrow> u64 \<Rightarrow> rust_string option" where
  "maps_lookup regions addr =
     (let idx = length (takeWhile (\<lambda>r. me_start r \<le> addr) regions)
      in if idx = 0 then None
         else let r = regions ! (idx - 1) in if addr < me_end r then Some (me_path r) else None)"

definition is_system_dex_path :: "rust_string \<Rightarrow> bool" where
  "is_system_dex_path path =
     (if path = [] then False
      else starts_with path (str_lit ''/apex/'') \<or> starts_with path (str_lit ''/system/framework/'') \<or>
           starts_with path (str_lit ''/data/dalvik-cache/''))"

fun system_loop :: "maps_entry list \<Rightarrow> u64 \<Rightarrow> u64 \<Rightarrow> bool" where
  "system_loop [] cursor stop = False"
| "system_loop (r # rs) cursor stop =
     (if me_end r \<le> cursor then system_loop rs cursor stop
      else if cursor < me_start r \<or> stop \<le> cursor then False
      else if \<not> is_system_dex_path (me_path r) then False
      else let cursor = min (me_end r) stop
           in if cursor = stop then True else system_loop rs cursor stop)"

definition range_is_exclusively_system :: "maps_entry list \<Rightarrow> u64 \<Rightarrow> u32 \<Rightarrow> bool" where
  "range_is_exclusively_system regions start sz =
     (case checked_u64_add start (ucast sz) of None \<Rightarrow> False
      | Some stop \<Rightarrow> system_loop regions start stop)"

text \<open>The regions of the cache after the call, and the path of a range to be skipped.\<close>

definition should_skip_system ::
  "rust_string option \<Rightarrow> maps_entry list \<Rightarrow> u64 \<Rightarrow> u32 \<Rightarrow> maps_entry list \<times> rust_string option" where
  "should_skip_system content cached addr sz =
     (let regions = maps_refresh content cached
      in (regions, if range_is_exclusively_system regions addr sz then maps_lookup regions addr else None))"

section \<open>Searching a process\<close>

definition MAPS_SCAN_MAX_REGION :: u64 where "MAPS_SCAN_MAX_REGION = 512 * 1024 * 1024"

text \<open>\<^verbatim>\<open>contiguous_readable_end\<close> on the region and those behind it.\<close>

fun contiguous_end :: "u64 \<Rightarrow> map_region list \<Rightarrow> u64" where
  "contiguous_end stop [] = stop"
| "contiguous_end stop (r # rs) = (if mr_start r \<noteq> stop then stop else contiguous_end (mr_end r) rs)"

fun scan_regions :: "remote \<Rightarrow> u32 \<Rightarrow> map_region list \<Rightarrow> found_dex list \<Rightarrow> found_dex list" where
  "scan_regions rm pid [] found = found"
| "scan_regions rm pid (r # rs) found =
     (if \<not> rm_running rm (mr_start r) then found
      else if mr_end r \<le> mr_start r \<or> MAPS_SCAN_MAX_REGION < mr_end r - mr_start r
      then scan_regions rm pid rs found
      else scan_regions rm pid rs
             (scan_region_for_dex rm pid (mr_start r) (mr_end r) (contiguous_end (mr_end r) rs) found))"

definition scan_process_maps :: "remote \<Rightarrow> u32 \<Rightarrow> rust_string \<Rightarrow> found_dex list" where
  "scan_process_maps rm pid maps =
     (let regions = List.map_filter parse_readable_map_region (str_lines maps);
          system_ranges = List.map_filter parse_maps_entry (str_lines maps)
      in filter (\<lambda>(b, sz, _). \<not> range_is_exclusively_system system_ranges b sz)
           (scan_regions rm pid regions []))"

section \<open>A line is read back\<close>

text \<open>The line the kernel prints; the columns between range and path are words, the path is
  words separated by single spaces (the kernel escapes line feeds), or empty.\<close>

definition maps_line ::
  "u64 \<Rightarrow> u64 \<Rightarrow> rust_string list \<Rightarrow> rust_string list \<Rightarrow> rust_string" where
  "maps_line start stop columns path =
     join [0x20] ((lower_hex start @ [0x2D] @ lower_hex stop) # columns @ path)"

lemma is_word_hex: "list_all is_hexdigit s \<Longrightarrow> s \<noteq> [] \<Longrightarrow> is_word s"
proof -
  assume s: "list_all is_hexdigit s" "s \<noteq> []"
  have "\<not> is_whitespace c" if "is_hexdigit c" for c
    using that by (auto simp: is_whitespace_def is_hexdigit_def hex_value_def)
  with s show "is_word s" by (auto simp: is_word_def list_all_iff)
qed

lemma is_word_range: "is_word (lower_hex start @ [0x2D] @ lower_hex stop)" for start stop :: u64
  using is_word_hex [OF lower_hex_digits(1,2), of start] is_word_hex [OF lower_hex_digits(1,2), of stop]
  by (simp add: is_word_def is_whitespace_def)

lemma parse_range_hex: "parse_range (lower_hex start @ [0x2D] @ lower_hex stop) = Some (start, stop)"
proof -
  have "0x2D \<notin> set (lower_hex start)" by (rule hexdigits_avoid [OF lower_hex_digits(1)]) simp
  from split_once_at [OF this] show ?thesis by (simp add: parse_range_def u64_from_lower_hex)
qed

lemma parse_maps_line:
  assumes "list_all is_word columns" and "length columns = 4" and "list_all is_word path"
  shows "parse_maps_entry (maps_line start stop columns path) =
      Some \<lparr>me_start = start, me_end = stop, me_path = join [0x20] path\<rparr>"
    and "parse_readable_map_region (maps_line start stop columns path) =
      (if hd (hd columns) = 0x72 then Some \<lparr>mr_start = start, mr_end = stop\<rparr> else None)"
proof -
  obtain a b c d where cols: "columns = [a, b, c, d]"
    using assms(2) by (auto simp: length_Suc_conv eval_nat_numeral)
  have s: "split_whitespace (maps_line start stop columns path) =
      (lower_hex start @ [0x2D] @ lower_hex stop) # columns @ path"
    unfolding maps_line_def
    by (rule split_whitespace_words) (use assms is_word_range in simp)
  note words = s [unfolded cols append_Cons append_Nil] and range = parse_range_hex [unfolded append_Cons append_Nil]
  show "parse_maps_entry (maps_line start stop columns path) =
      Some \<lparr>me_start = start, me_end = stop, me_path = join [0x20] path\<rparr>"
    by (simp add: parse_maps_entry_def words cols range)
  have "a \<noteq> []" using assms(1) by (simp add: cols is_word_def)
  then have r: "starts_with a [0x72] \<longleftrightarrow> hd a = 0x72" by (cases a) (simp_all add: starts_with_def)
  show "parse_readable_map_region (maps_line start stop columns path) =
      (if hd (hd columns) = 0x72 then Some \<lparr>mr_start = start, mr_end = stop\<rparr> else None)"
    by (simp add: parse_readable_map_region_def words cols range r)
qed

section \<open>Addresses of the map\<close>

text \<open>The kernel lists the mappings in ascending order; they are not empty and do not overlap.\<close>

fun disjoint_maps :: "maps_entry list \<Rightarrow> bool" where
  "disjoint_maps [] \<longleftrightarrow> True"
| "disjoint_maps (r # rs) \<longleftrightarrow>
     me_start r < me_end r \<and> list_all (\<lambda>s. me_end r \<le> me_start s) rs \<and> disjoint_maps rs"

definition in_entry :: "u64 \<Rightarrow> maps_entry \<Rightarrow> bool" where
  "in_entry a r \<longleftrightarrow> me_start r \<le> a \<and> a < me_end r"

lemma in_entry_unique:
  "disjoint_maps regions \<Longrightarrow> r \<in> set regions \<Longrightarrow> s \<in> set regions \<Longrightarrow> in_entry a r \<Longrightarrow> in_entry a s \<Longrightarrow> r = s"
proof (induction regions)
  case (Cons q regions)
  have "\<not> in_entry a t" if "in_entry a q" "t \<in> set regions" for t
  proof -
    have "me_end q \<le> me_start t" using Cons.prems(1) that by (simp add: list_all_iff)
    with that(1) show ?thesis by (auto simp: in_entry_def)
  qed
  with Cons show ?case by auto
qed simp

lemma maps_lookup_Cons:
  "maps_lookup (r # rs) addr =
     (if \<not> me_start r \<le> addr then None
      else if rs \<noteq> [] \<and> me_start (hd rs) \<le> addr then maps_lookup rs addr
      else if addr < me_end r then Some (me_path r) else None)"
proof (cases rs)
  case (Cons s ss)
  then show ?thesis by (simp add: maps_lookup_def Let_def nth_Cons')
qed (simp add: maps_lookup_def)

lemma maps_lookup_exact:
  "disjoint_maps regions \<Longrightarrow>
     maps_lookup regions a = Some path \<longleftrightarrow> (\<exists>r\<in>set regions. in_entry a r \<and> me_path r = path)"
proof (induction regions)
  case Nil
  show ?case by (simp add: maps_lookup_def)
next
  case (Cons r rs)
  have above: "me_end r \<le> me_start s" if "s \<in> set rs" for s
    using Cons.prems that by (simp add: list_all_iff)
  have first: "me_start (hd rs) \<le> me_start s" if "s \<in> set rs" for s
  proof (cases rs)
    case (Cons q qs)
    with that Cons.prems show ?thesis
      by (auto simp: list_all_iff)
  qed (use that in simp)
  consider "a < me_start r" | "me_start r \<le> a" "rs \<noteq> []" "me_start (hd rs) \<le> a"
    | "me_start r \<le> a" "rs = [] \<or> a < me_start (hd rs)" by fastforce
  then show ?case
  proof cases
    case 1
    have "\<not> in_entry a s" if "s \<in> set rs" for s
      using above [OF that] 1 Cons.prems by (auto simp: in_entry_def)
    with 1 show ?thesis by (auto simp: maps_lookup_Cons in_entry_def)
  next
    case 2
    have "me_end r \<le> a" using above [of "hd rs"] 2 by auto
    with 2 Cons show ?thesis by (auto simp: maps_lookup_Cons in_entry_def)
  next
    case 3
    have "\<not> in_entry a s" if "s \<in> set rs" for s
      using first [OF that] 3 that by (auto simp: in_entry_def)
    with 3 show ?thesis by (auto simp: maps_lookup_Cons in_entry_def)
  qed
qed

text \<open>The addresses from \<open>cursor\<close> to \<open>stop\<close> all belong to mappings of the system.\<close>

definition all_system :: "maps_entry list \<Rightarrow> u64 \<Rightarrow> u64 \<Rightarrow> bool" where
  "all_system regions cursor stop \<longleftrightarrow>
     (\<forall>a. cursor \<le> a \<and> a < stop \<longrightarrow> (\<exists>r\<in>set regions. in_entry a r \<and> is_system_dex_path (me_path r)))"

lemma system_loop_exact:
  "disjoint_maps regions \<Longrightarrow> cursor < stop \<Longrightarrow> system_loop regions cursor stop \<longleftrightarrow> all_system regions cursor stop"
proof (induction regions arbitrary: cursor)
  case Nil
  then show ?case by (auto simp: all_system_def)
next
  case (Cons r rs)
  have above: "me_end r \<le> me_start s" if "s \<in> set rs" for s
    using Cons.prems(1) that by (simp add: list_all_iff)
  have rs: "disjoint_maps rs" using Cons.prems(1) by simp
  show ?case
  proof (cases "me_end r \<le> cursor")
    case True
    then have "\<not> in_entry a r" if "cursor \<le> a" for a using that by (auto simp: in_entry_def)
    then have "all_system (r # rs) cursor stop \<longleftrightarrow> all_system rs cursor stop" by (auto simp: all_system_def)
    with True Cons.IH [OF rs Cons.prems(2)] show ?thesis by simp
  next
    case past: False
    have only: "\<not> in_entry a s" if "s \<in> set rs" "a < me_end r" for a s
      using above [OF that(1)] that(2) by (auto simp: in_entry_def)
    show ?thesis
    proof (cases "me_start r \<le> cursor \<and> is_system_dex_path (me_path r)")
      case False
      have "\<not> all_system (r # rs) cursor stop"
        unfolding all_system_def
        using False past only [of _ cursor] Cons.prems(2) by (auto simp: in_entry_def)
      with False past Cons.prems(2) show ?thesis by auto
    next
      case True
      have split: "all_system (r # rs) cursor stop \<longleftrightarrow> all_system rs (me_end r) stop"
      proof
        assume all: "all_system (r # rs) cursor stop"
        show "all_system rs (me_end r) stop"
          unfolding all_system_def
        proof (intro allI impI)
          fix a assume a: "me_end r \<le> a \<and> a < stop"
          then have "cursor \<le> a" using past by (meson le_less_linear less_imp_le order.trans)
          with all a show "\<exists>s\<in>set rs. in_entry a s \<and> is_system_dex_path (me_path s)"
            by (auto simp: all_system_def in_entry_def)
        qed
      next
        assume tail: "all_system rs (me_end r) stop"
        show "all_system (r # rs) cursor stop"
          unfolding all_system_def
        proof (intro allI impI)
          fix a assume "cursor \<le> a \<and> a < stop"
          with tail True show "\<exists>s\<in>set (r # rs). in_entry a s \<and> is_system_dex_path (me_path s)"
            by (cases "a < me_end r") (auto simp: all_system_def in_entry_def)
        qed
      qed
      show ?thesis
      proof (cases "stop \<le> me_end r")
        case stop: True
        then have "all_system rs (me_end r) stop" by (auto simp: all_system_def)
        with split True past stop Cons.prems(2) show ?thesis by (auto simp: min_def not_less not_le)
      next
        case False
        then have "me_end r < stop" by simp
        from Cons.IH [OF rs this] split True past False Cons.prems(2) show ?thesis
          by (auto simp: min_def)
      qed
    qed
  qed
qed

lemma unat_ucast_u32: "unat (ucast sz :: u64) = unat sz" for sz :: u32
  using unsigned_less [of sz, where 'a = nat] by (simp add: unsigned_ucast_eq take_bit_nat_eq_self)

lemma range_is_system_exact:
  assumes "disjoint_maps regions"
  shows "range_is_exclusively_system regions start sz \<longleftrightarrow>
    sz \<noteq> 0 \<and> unat start + unat sz < 2 ^ 64 \<and> all_system regions start (start + ucast sz)"
proof (cases "unat start + unat sz < 2 ^ 64")
  case True
  have stop: "unat (start + ucast sz) = unat start + unat sz"
    using True no_wrap_add [of start "ucast sz"] by (simp add: unat_ucast_u32)
  show ?thesis
  proof (cases "sz = 0")
    case True
    have "\<not> system_loop rs start start" for rs by (induction rs) auto
    with True show ?thesis by (simp add: range_is_exclusively_system_def checked_u64_add_def)
  next
    case False
    then have "0 < unat sz" by (simp add: unat_gt_0)
    then have "start < start + ucast sz" using stop by (simp add: word_less_nat_alt)
    from system_loop_exact [OF assms this] True False show ?thesis
      by (simp add: range_is_exclusively_system_def checked_u64_add_def unat_ucast_u32)
  qed
qed (simp add: range_is_exclusively_system_def checked_u64_add_def unat_ucast_u32)

section \<open>The whole map\<close>

text \<open>A line of the map: range, the columns (permissions first), and the path.\<close>

type_synonym map_line = "u64 \<times> u64 \<times> rust_string list \<times> rust_string list"

definition line_ok :: "map_line \<Rightarrow> bool" where
  "line_ok = (\<lambda>(start, stop, columns, path).
     list_all is_word columns \<and> length columns = 4 \<and> list_all is_word path)"

definition line_readable :: "map_line \<Rightarrow> bool" where
  "line_readable = (\<lambda>(start, stop, columns, path). hd (hd columns) = 0x72)"

definition line_entry :: "map_line \<Rightarrow> maps_entry" where
  "line_entry = (\<lambda>(start, stop, columns, path).
     \<lparr>me_start = start, me_end = stop, me_path = join [0x20] path\<rparr>)"

definition line_region :: "map_line \<Rightarrow> map_region" where
  "line_region = (\<lambda>(start, stop, columns, path). \<lparr>mr_start = start, mr_end = stop\<rparr>)"

definition line_text :: "map_line \<Rightarrow> rust_string" where
  "line_text = (\<lambda>(start, stop, columns, path). maps_line start stop columns path)"

definition maps_text :: "map_line list \<Rightarrow> rust_string" where
  "maps_text ls = concat (map (\<lambda>l. line_text l @ [0x0A]) ls)"

lemma str_lines_concat:
  assumes "list_all (\<lambda>l. 0x0A \<notin> set l \<and> 0x0D \<notin> set l) ls"
  shows "str_lines (concat (map (\<lambda>l. l @ [0x0A]) ls)) = ls"
proof -
  have cr: "(case strip_suffix [0x0D] l of None \<Rightarrow> l | Some l' \<Rightarrow> l') = l" if "0x0D \<notin> set l" for l :: rust_string
    using that by (auto split: option.split dest: strip_suffix_Some)
  have "split_char 0x0A (concat (map (\<lambda>l. l @ [0x0A]) ls)) = ls @ [[]]"
    using assms by (induction ls) (simp_all add: split_char_cons)
  moreover have "map (\<lambda>l. case strip_suffix [0x0D] l of None \<Rightarrow> l | Some l' \<Rightarrow> l') ls = ls"
    using assms cr by (simp add: list_all_iff map_idI)
  ultimately show ?thesis by (simp add: str_lines_def)
qed

lemma join_words_chars:
  "list_all is_word ws \<Longrightarrow> c \<in> set (join [0x20] ws) \<Longrightarrow> c = 0x20 \<or> \<not> is_whitespace c"
  by (induction "[0x20] :: rust_string" ws rule: join.induct) (auto simp: is_word_def list_all_iff)

lemma line_text_one_line:
  assumes "line_ok l" shows "0x0A \<notin> set (line_text l)" and "0x0D \<notin> set (line_text l)"
proof -
  obtain start stop columns path where l: "l = (start, stop, columns, path)" by (cases l) auto
  have "list_all is_word ((lower_hex start @ [0x2D] @ lower_hex stop) # columns @ path)"
    using assms is_word_range by (simp add: l line_ok_def)
  note chars = join_words_chars [OF this]
  show "0x0A \<notin> set (line_text l)" "0x0D \<notin> set (line_text l)"
    using chars [of "0x0A"] chars [of "0x0D"]
    by (auto simp: l line_text_def maps_line_def is_whitespace_def)
qed

lemma maps_text_lines:
  assumes "list_all line_ok ls" shows "str_lines (maps_text ls) = map line_text ls"
proof -
  have "list_all (\<lambda>l. 0x0A \<notin> set l \<and> 0x0D \<notin> set l) (map line_text ls)"
    using assms line_text_one_line by (simp add: list_all_iff)
  from str_lines_concat [OF this] show ?thesis by (simp add: maps_text_def comp_def)
qed

lemma maps_text_parsed:
  assumes "list_all line_ok ls"
  shows "List.map_filter parse_maps_entry (str_lines (maps_text ls)) = map line_entry ls"
    and "List.map_filter parse_readable_map_region (str_lines (maps_text ls)) =
      map line_region (filter line_readable ls)"
proof -
  have line: "parse_maps_entry (line_text l) = Some (line_entry l)"
    "parse_readable_map_region (line_text l) = (if line_readable l then Some (line_region l) else None)"
    if "line_ok l" for l
    using that parse_maps_line
    by (auto simp: line_ok_def line_text_def line_entry_def line_region_def line_readable_def split: prod.splits)
  show "List.map_filter parse_maps_entry (str_lines (maps_text ls)) = map line_entry ls"
    unfolding maps_text_lines [OF assms] using assms
    by (induction ls) (simp_all add: line List.map_filter_simps)
  show "List.map_filter parse_readable_map_region (str_lines (maps_text ls)) =
      map line_region (filter line_readable ls)"
    unfolding maps_text_lines [OF assms] using assms
    by (induction ls) (simp_all add: line List.map_filter_simps)
qed

section \<open>What the search of a process finds\<close>

lemma scan_regions_mono: "(\<And>p. rm_running rm p) \<Longrightarrow> set found \<subseteq> set (scan_regions rm pid rs found)"
  using scan_region_mono by (induction rs arbitrary: found) (auto; blast)+

lemma scan_regions_visits:
  assumes run: "\<And>p. rm_running rm p" and range: "mr_start r < mr_end r" "mr_end r - mr_start r \<le> MAPS_SCAN_MAX_REGION"
    and found: "\<And>fs. x \<in> set (scan_region_for_dex rm pid (mr_start r) (mr_end r) (contiguous_end (mr_end r) rs) fs)"
  shows "x \<in> set (scan_regions rm pid (before @ r # rs) fs)"
proof (induction before arbitrary: fs)
  case Nil
  show ?case
    using scan_regions_mono [OF run] found [of fs] range by (auto simp: run not_le not_less)
qed (simp add: run)

lemma process_scan_complete:
  assumes ls: "list_all line_ok ls" and disjoint: "disjoint_maps (map line_entry ls)"
    and mem: "reads_memory rm pid m" and run: "\<And>p. rm_running rm p" and dex: "dex_at m b sz D"
    and region: "filter line_readable ls = before @ (start, stop, columns, path) # behind"
    and range: "start < stop" "stop - start \<le> MAPS_SCAN_MAX_REGION"
    and bytes: "read_bytes m start (unat stop - unat start) = Some bytes"
    and inside: "unat start \<le> unat b" "unat b + 4 \<le> unat stop" "(unat b - unat start) mod 0x1000 \<le> 0xFFC"
    and fits: "unat b + unat sz \<le> unat (contiguous_end stop (map line_region behind))"
  shows "(b, sz, D) \<in> set (scan_process_maps rm pid (maps_text ls)) \<longleftrightarrow>
    \<not> all_system (map line_entry ls) b (b + ucast sz)"
proof -
  let ?readable = "contiguous_end stop (map line_region behind)"
  have "unat b + unat sz < 2 ^ 64"
    using fits unsigned_less [of ?readable, where 'a = nat] by simp
  moreover have "sz \<noteq> 0" using dex_at_facts(2) [OF dex] by auto
  ultimately have system: "range_is_exclusively_system (map line_entry ls) b sz \<longleftrightarrow>
      all_system (map line_entry ls) b (b + ucast sz)"
    by (simp add: range_is_system_exact [OF disjoint])
  have "(b, sz, D) \<in> set (scan_regions rm pid
      (map line_region before @ line_region (start, stop, columns, path) # map line_region behind) [])"
    using scan_region_complete [OF mem run bytes dex inside(1,2) fits inside(3)] range
    by (intro scan_regions_visits run) (simp_all add: line_region_def)
  with system show ?thesis
    by (simp add: scan_process_maps_def maps_text_parsed [OF ls] region)
qed

section \<open>The processes of a user\<close>

text \<open>\<^verbatim>\<open>str::parse::<u32>\<close>: decimal digits, a plus sign is allowed, overflow is an error.\<close>

definition dec_value :: "u32 \<Rightarrow> nat option" where
  "dec_value c = (if 0x30 \<le> c \<and> c \<le> 0x39 then Some (unat (c - 0x30)) else None)"

fun dec_digits :: "nat \<Rightarrow> rust_string \<Rightarrow> nat option" where
  "dec_digits acc [] = Some acc"
| "dec_digits acc (c # cs) =
     (case dec_value c of None \<Rightarrow> None
      | Some d \<Rightarrow> let acc = acc * 10 + d in if acc < 2 ^ 32 then dec_digits acc cs else None)"

definition u32_from_dec :: "rust_string \<Rightarrow> u32 option" where
  "u32_from_dec s =
     (let digits = (case s of [] \<Rightarrow> [] | c # cs \<Rightarrow> if c = 0x2B then cs else s)
      in if digits = [] then None else map_option of_nat (dec_digits 0 digits))"

definition uid_line_matches :: "rust_string \<Rightarrow> u32 \<Rightarrow> bool" where
  "uid_line_matches line uid =
     (case strip_prefix (str_lit ''Uid:'') line of None \<Rightarrow> False
      | Some rest \<Rightarrow>
          case split_whitespace rest of [] \<Rightarrow> False | v # _ \<Rightarrow> u32_from_dec v = Some uid)"

text \<open>
  \<^verbatim>\<open>/proc\<close>: the names of its entries (\<open>None\<close>: not UTF-8), and for each process id the text of
  \<^verbatim>\<open>status\<close> and of \<^verbatim>\<open>maps\<close>, if they can be read.
\<close>

record proc_fs =
  pf_entries :: "rust_string option list"
  pf_status :: "u32 \<Rightarrow> rust_string option"
  pf_maps :: "u32 \<Rightarrow> rust_string option"

definition pids_for_uid :: "proc_fs \<Rightarrow> u32 \<Rightarrow> u32 list" where
  "pids_for_uid pf uid =
     filter (\<lambda>pid. let status = (case pf_status pf pid of None \<Rightarrow> [] | Some t \<Rightarrow> t)
                   in list_ex (\<lambda>line. uid_line_matches line uid) (str_lines status))
       (List.map_filter (\<lambda>entry. case entry of None \<Rightarrow> None | Some name \<Rightarrow> u32_from_dec name) (pf_entries pf))"

text \<open>\<open>going\<close> is \<^verbatim>\<open>keep_running()\<close> when the process is reached.\<close>

fun scan_pids ::
  "remote \<Rightarrow> proc_fs \<Rightarrow> (u32 \<Rightarrow> bool) \<Rightarrow> u32 list \<Rightarrow> (u32 \<times> found_dex) list" where
  "scan_pids rm pf going [] = []"
| "scan_pids rm pf going (pid # pids) =
     (if \<not> going pid then []
      else (case pf_maps pf pid of None \<Rightarrow> [] | Some maps \<Rightarrow> map (Pair pid) (scan_process_maps rm pid maps)) @
           scan_pids rm pf going pids)"

definition scan_uid_maps :: "remote \<Rightarrow> proc_fs \<Rightarrow> (u32 \<Rightarrow> bool) \<Rightarrow> u32 \<Rightarrow> (u32 \<times> found_dex) list" where
  "scan_uid_maps rm pf going uid = scan_pids rm pf going (pids_for_uid pf uid)"

lemma scan_uid_maps_iff:
  assumes "\<And>pid. going pid"
  shows "(pid, d) \<in> set (scan_uid_maps rm pf going uid) \<longleftrightarrow>
    pid \<in> set (pids_for_uid pf uid) \<and> (\<exists>maps. pf_maps pf pid = Some maps \<and> d \<in> set (scan_process_maps rm pid maps))"
proof -
  have "(pid, d) \<in> set (scan_pids rm pf going pids) \<longleftrightarrow>
      pid \<in> set pids \<and> (\<exists>maps. pf_maps pf pid = Some maps \<and> d \<in> set (scan_process_maps rm pid maps))" for pids
  proof (induction pids)
    case (Cons p pids)
    then show ?case by (cases "pf_maps pf p") (auto simp: assms)
  qed simp
  then show ?thesis by (simp add: scan_uid_maps_def)
qed

text \<open>A process is one of the user's if its status names the user as the real owner.\<close>

lemma uid_line:
  assumes "is_word v" and "u32_from_dec v = Some owner" and "rest = [] \<or> is_whitespace (hd rest)"
  shows "uid_line_matches (str_lit ''Uid:'' @ [0x09] @ v @ rest) uid \<longleftrightarrow> owner = uid"
proof -
  have "split_whitespace ([0x09] @ v @ rest) = v # split_whitespace rest"
    by (rule split_whitespace_word) (use assms in \<open>simp_all add: is_whitespace_def\<close>)
  then show ?thesis
    using assms(2) by (simp add: uid_line_matches_def del: str_lit_simps)
qed

end
