(* ===== verification/Maps_Only.thy ===== *)
theory Maps_Only
  imports Proc_Maps Handler_Facts
begin

text \<open>
  The mode without probes (\<^verbatim>\<open>--probe-mode maps-only\<close>): \<^verbatim>\<open>scan_uid_maps_once\<close>,
  \<^verbatim>\<open>save_scanned_dexes\<close> and the branch of \<^verbatim>\<open>run\<close> in \<^verbatim>\<open>src/dump.rs\<close> that searches the readable
  mappings of one process, or of the processes of a user, saves what it finds and flushes. Also the
  test for system files that \<^verbatim>\<open>save_dex\<close> repeats on fresh maps.
\<close>

section \<open>Saving what was found\<close>

fun save_uid_found :: "host \<Rightarrow> (u32 \<times> found_dex) list \<Rightarrow> dump_state \<Rightarrow> dump_state" where
  "save_uid_found h [] st = st"
| "save_uid_found h ((pid, b, sz, bytes) # found) st =
     save_uid_found h found (save_dex h (Some pid) b sz bytes st)"

definition scan_uid_maps_once ::
  "host \<Rightarrow> remote \<Rightarrow> proc_fs \<Rightarrow> (u32 \<Rightarrow> bool) \<Rightarrow> u32 \<Rightarrow> dump_state \<Rightarrow> nat \<times> dump_state" where
  "scan_uid_maps_once h rm pf going uid st =
     (let found = scan_uid_maps rm pf going uid in (length found, save_uid_found h found st))"

definition save_scanned_dexes :: "host \<Rightarrow> u32 \<Rightarrow> found_dex list \<Rightarrow> dump_state \<Rightarrow> dump_state" where
  "save_scanned_dexes h pid dexes st = save_found h pid dexes st"

definition maps_only_run ::
  "host \<Rightarrow> remote \<Rightarrow> proc_fs \<Rightarrow> (u32 \<Rightarrow> bool) \<Rightarrow> u32 \<Rightarrow> u32 option \<Rightarrow>
     (dex_id \<Rightarrow> ((u32 \<times> u64 \<times> u32) \<times> method_code_record list) option) \<times> dump_state" where
  "maps_only_run h rm pf going uid pid_opt =
     flush_json
       (case pid_opt of
          Some pid \<Rightarrow>
            (case pf_maps pf pid of None \<Rightarrow> dump_state_new
             | Some maps \<Rightarrow> save_scanned_dexes h pid (scan_process_maps rm pid maps) dump_state_new)
        | None \<Rightarrow> snd (scan_uid_maps_once h rm pf going uid dump_state_new))"

section \<open>The test for system files\<close>

lemma maps_lookup_in:
  assumes "disjoint_maps regions" shows "maps_lookup regions a \<noteq> None \<longleftrightarrow> (\<exists>r\<in>set regions. in_entry a r)"
  using maps_lookup_exact [OF assms, of a] by auto

lemma disjoint_sorted: "disjoint_maps regions \<Longrightarrow> sorted (map me_start regions)"
proof (induction regions)
  case (Cons r rs)
  have "me_start r \<le> me_start s" if "s \<in> set rs" for s
  proof -
    have "me_end r \<le> me_start s" using Cons.prems that by (simp add: list_all_iff)
    with Cons.prems show ?thesis by (meson disjoint_maps.simps(2) less_imp_le order.trans)
  qed
  with Cons show ?case by auto
qed simp

lemma should_skip_system_exact:
  assumes "list_all line_ok ls" and disjoint: "disjoint_maps (map line_entry ls)"
  shows "snd (should_skip_system (Some (maps_text ls)) cached b sz) \<noteq> None \<longleftrightarrow>
    sz \<noteq> 0 \<and> unat b + unat sz < 2 ^ 64 \<and> all_system (map line_entry ls) b (b + ucast sz)"
proof -
  let ?rs = "map line_entry ls"
  have fresh: "maps_refresh (Some (maps_text ls)) cached = ?rs"
    using disjoint_sorted [OF disjoint]
    by (simp add: maps_refresh_def maps_text_parsed [OF assms(1)] sorted_sort_id sort_key_id_if_sorted)
  have "maps_lookup ?rs b \<noteq> None" if "range_is_exclusively_system ?rs b sz"
  proof -
    from that have sys: "sz \<noteq> 0" "unat b + unat sz < 2 ^ 64" "all_system ?rs b (b + ucast sz)"
      by (simp_all add: range_is_system_exact [OF disjoint])
    have "0 < unat sz" using sys(1) by (simp add: unat_gt_0)
    moreover have "unat (b + ucast sz) = unat b + unat sz"
      using sys(2) no_wrap_add [of b "ucast sz"] by (simp add: unat_ucast_u32)
    ultimately have "b < b + ucast sz" by (simp add: word_less_nat_alt)
    with sys(3) show ?thesis unfolding maps_lookup_in [OF disjoint] all_system_def by blast
  qed
  then show ?thesis
    by (auto simp: should_skip_system_def Let_def fresh range_is_system_exact [OF disjoint])
qed

section \<open>Everything found is written\<close>

text \<open>The host reads the maps of the processes, and writing files succeeds.\<close>

definition host_reads_maps :: "host \<Rightarrow> proc_fs \<Rightarrow> bool" where
  "host_reads_maps h pf \<longleftrightarrow> (\<forall>pid b sz maps. pf_maps pf pid = Some maps \<longrightarrow>
     h_skip_system h pid b sz = (snd (should_skip_system (Some maps) [] b sz) \<noteq> None))"

definition host_writes :: "host \<Rightarrow> bool" where
  "host_writes h \<longleftrightarrow> (\<forall>file. h_write_ok h file)"

definition cache_written :: "dump_state \<Rightarrow> bool" where
  "cache_written st \<longleftrightarrow> (\<forall>k bytes. dex_cache st k = Some bytes \<longrightarrow> bytes \<in> snd ` set (files st))"

lemma cache_written_new: "cache_written dump_state_new"
  by (simp add: cache_written_def dump_state_new_def)

lemma observe_files [simp]:
  "files (observe_dex pid b z st) = files st" "dex_cache (observe_dex pid b z st) = dex_cache st"
  "captures_sealed (observe_dex pid b z st) = captures_sealed st"
  by (simp_all add: observe_dex_def Let_def split: option.split)

lemma save_dex_written:
  assumes "cache_written st"
  shows "cache_written (save_dex h p b sz bytes st)"
    and "set (files st) \<subseteq> set (files (save_dex h p b sz bytes st))"
    and "captures_sealed (save_dex h p b sz bytes st) = captures_sealed st"
  using assms by (auto simp: save_dex_def cache_written_def Let_def split: option.split)

lemma save_dex_writes:
  assumes "cache_written st" and "host_writes h" and "\<not> captures_sealed st"
    and "\<not> h_skip_system h pid b sz" and "dex_accepted bytes"
  shows "bytes \<in> snd ` set (files (save_dex h (Some pid) b sz bytes st))"
  using assms by (auto simp: save_dex_def cache_written_def host_writes_def Let_def split: option.split)

lemma save_found_uid: "save_found h pid found st = save_uid_found h (map (Pair pid) found) st"
  by (induction h pid found st rule: save_found.induct) simp_all

lemma save_uid_found_written:
  assumes "cache_written st"
  shows "cache_written (save_uid_found h found st) \<and> set (files st) \<subseteq> set (files (save_uid_found h found st)) \<and>
    captures_sealed (save_uid_found h found st) = captures_sealed st"
  using assms
proof (induction h found st rule: save_uid_found.induct)
  case (2 h pid b sz bytes found st)
  note d = save_dex_written [OF "2.prems", of h "Some pid" b sz bytes]
  from "2.IH" [OF d(1)] d show ?case by auto
qed simp

lemma save_uid_found_writes:
  assumes "cache_written st" and "host_writes h" and "\<not> captures_sealed st"
    and "(pid, b, sz, bytes) \<in> set found" and "\<not> h_skip_system h pid b sz" and "dex_accepted bytes"
  shows "bytes \<in> snd ` set (files (save_uid_found h found st))"
  using assms(1,3,4)
proof (induction found arbitrary: st)
  case (Cons x found)
  obtain pid' b' sz' bytes' where x: "x = (pid', b', sz', bytes')" by (cases x)
  let ?st = "save_dex h (Some pid') b' sz' bytes' st"
  note d = save_dex_written [OF Cons.prems(1), of h "Some pid'" b' sz' bytes']
  show ?case
  proof (cases "x = (pid, b, sz, bytes)")
    case True
    then have "bytes \<in> snd ` set (files ?st)"
      using save_dex_writes [OF Cons.prems(1) assms(2) Cons.prems(2) assms(5,6)] by (simp add: x)
    with save_uid_found_written [OF d(1), of h found] show ?thesis by (auto simp: x)
  next
    case False
    with Cons.IH [OF d(1)] d(3) Cons.prems show ?thesis by (auto simp: x)
  qed
qed simp

text \<open>What the mode writes, for one process and for a user.\<close>

lemma maps_only_files:
  "files (snd (maps_only_run h rm pf going uid pid_opt)) =
     files (save_uid_found h
       (case pid_opt of
          Some pid \<Rightarrow>
            (case pf_maps pf pid of None \<Rightarrow> [] | Some maps \<Rightarrow> map (Pair pid) (scan_process_maps rm pid maps))
        | None \<Rightarrow> scan_uid_maps rm pf going uid) dump_state_new)"
  by (simp add: maps_only_run_def flush_json_def save_scanned_dexes_def save_found_uid
      scan_uid_maps_once_def Let_def split: option.split)

lemma maps_only_saves:
  assumes "host_reads_maps h pf" and "host_writes h" and going: "\<And>p. going p"
    and target: "pid_opt = Some pid \<or> (pid_opt = None \<and> pid \<in> set (pids_for_uid pf uid))"
    and maps: "pf_maps pf pid = Some (maps_text ls)"
    and ls: "list_all line_ok ls" "disjoint_maps (map line_entry ls)"
    and found: "(b, sz, D) \<in> set (scan_process_maps rm pid (maps_text ls))"
    and user: "\<not> all_system (map line_entry ls) b (b + ucast sz)" and "dex_accepted D"
  shows "D \<in> snd ` set (files (snd (maps_only_run h rm pf going uid pid_opt)))"
proof -
  have "\<not> h_skip_system h pid b sz"
    using assms(1) maps user should_skip_system_exact [OF ls, of "[]" b sz]
    by (simp add: host_reads_maps_def)
  moreover have "(pid, b, sz, D) \<in> set (case pid_opt of
        Some pid \<Rightarrow>
          (case pf_maps pf pid of None \<Rightarrow> [] | Some maps \<Rightarrow> map (Pair pid) (scan_process_maps rm pid maps))
      | None \<Rightarrow> scan_uid_maps rm pf going uid)"
    using target maps found scan_uid_maps_iff [of going pid "(b, sz, D)" rm pf uid, OF going] by auto
  ultimately show ?thesis
    unfolding maps_only_files
    by (intro save_uid_found_writes [OF cache_written_new assms(2)])
      (use assms(10) in \<open>simp_all add: dump_state_new_def\<close>)
qed

end
