(* ===== verification/Elf_Layout.thy ===== *)
theory Elf_Layout
  imports Byte_Edit Rust_Text
begin

text \<open>
  The byte layout of ELF32 and ELF64 as \<^verbatim>\<open>ElfLayout\<close> of \<^verbatim>\<open>src/so_fix.rs\<close> abstracts it: reads and
  writes of little-endian integers in a slice, the fields of headers, dynamic entries and symbols,
  and the images of a section header and a symbol. An index out of range is a panic, so every
  access is a result; \<^verbatim>\<open>usize\<close> is a natural number and sums that may wrap are taken modulo
  \<open>2 ^ 64\<close> (the release build has no overflow checks).
\<close>

datatype so_error = Panic | Bail string

type_synonym 'a so_result = "so_error + 'a"

section \<open>Integers in a slice\<close>

definition rd_u16 :: "u8 list \<Rightarrow> nat \<Rightarrow> u16 so_result" where
  "rd_u16 b off = (if off + 2 \<le> length b then Inr (le_word (take 2 (drop off b))) else Inl Panic)"

definition rd_u32 :: "u8 list \<Rightarrow> nat \<Rightarrow> u32 so_result" where
  "rd_u32 b off = (if off + 4 \<le> length b then Inr (le_word (take 4 (drop off b))) else Inl Panic)"

definition rd_u64 :: "u8 list \<Rightarrow> nat \<Rightarrow> u64 so_result" where
  "rd_u64 b off = (if off + 8 \<le> length b then Inr (le_word (take 8 (drop off b))) else Inl Panic)"

definition wr_u16 :: "u8 list \<Rightarrow> nat \<Rightarrow> u16 \<Rightarrow> u8 list so_result" where
  "wr_u16 b off v = (if off + 2 \<le> length b then Inr (splice b off (le_bytes 2 v)) else Inl Panic)"

definition wr_u32 :: "u8 list \<Rightarrow> nat \<Rightarrow> u32 \<Rightarrow> u8 list so_result" where
  "wr_u32 b off v = (if off + 4 \<le> length b then Inr (splice b off (le_bytes 4 v)) else Inl Panic)"

definition wr_u64 :: "u8 list \<Rightarrow> nat \<Rightarrow> u64 \<Rightarrow> u8 list so_result" where
  "wr_u64 b off v = (if off + 8 \<le> length b then Inr (splice b off (le_bytes 8 v)) else Inl Panic)"

text \<open>\<^verbatim>\<open>&data[off..]\<close>, and a write through \<^verbatim>\<open>&mut data[off..]\<close>.\<close>

definition slice_from :: "u8 list \<Rightarrow> nat \<Rightarrow> u8 list so_result" where
  "slice_from data off = (if off \<le> length data then Inr (drop off data) else Inl Panic)"

definition edit_from ::
  "u8 list \<Rightarrow> nat \<Rightarrow> (u8 list \<Rightarrow> u8 list so_result) \<Rightarrow> u8 list so_result" where
  "edit_from data off f =
     (if off \<le> length data then and_then (f (drop off data)) (\<lambda>b. Inr (take off data @ b)) else Inl Panic)"

text \<open>Addition of \<^verbatim>\<open>usize\<close>.\<close>

definition wadd :: "nat \<Rightarrow> nat \<Rightarrow> nat" where
  "wadd a b = (a + b) mod 2 ^ 64"

section \<open>Layout\<close>

record elf_layout =
  is64 :: bool

definition pick :: "elf_layout \<Rightarrow> nat \<Rightarrow> nat \<Rightarrow> nat" where
  "pick l a b = (if is64 l then a else b)"

definition ehdr_size :: "elf_layout \<Rightarrow> nat" where "ehdr_size l = pick l 64 52"
definition phdr_size :: "elf_layout \<Rightarrow> nat" where "phdr_size l = pick l 56 32"
definition shdr_size :: "elf_layout \<Rightarrow> nat" where "shdr_size l = pick l 64 40"
definition dyn_size :: "elf_layout \<Rightarrow> nat" where "dyn_size l = pick l 16 8"
definition sym_size :: "elf_layout \<Rightarrow> nat" where "sym_size l = pick l 24 16"
definition elf_word :: "elf_layout \<Rightarrow> u64" where "elf_word l = (if is64 l then 8 else 4)"

definition read_addr :: "elf_layout \<Rightarrow> u8 list \<Rightarrow> nat \<Rightarrow> nat \<Rightarrow> u64 so_result" where
  "read_addr l b off64 off32 =
     (if is64 l then rd_u64 b off64 else and_then (rd_u32 b off32) (\<lambda>v. Inr (ucast v)))"

definition put_addr :: "elf_layout \<Rightarrow> u8 list \<Rightarrow> nat \<Rightarrow> nat \<Rightarrow> u64 \<Rightarrow> u8 list so_result" where
  "put_addr l b off64 off32 v = (if is64 l then wr_u64 b off64 v else wr_u32 b off32 (ucast v))"

definition phoff :: "elf_layout \<Rightarrow> u8 list \<Rightarrow> u64 so_result" where "phoff l d = read_addr l d 32 28"
definition phentsize :: "elf_layout \<Rightarrow> u8 list \<Rightarrow> nat so_result" where
  "phentsize l d = and_then (rd_u16 d (pick l 54 42)) (\<lambda>v. Inr (unat v))"
definition phnum :: "elf_layout \<Rightarrow> u8 list \<Rightarrow> nat so_result" where
  "phnum l d = and_then (rd_u16 d (pick l 56 44)) (\<lambda>v. Inr (unat v))"
definition set_shoff :: "elf_layout \<Rightarrow> u8 list \<Rightarrow> u64 \<Rightarrow> u8 list so_result" where
  "set_shoff l d v = put_addr l d 40 32 v"
definition set_shentsize :: "elf_layout \<Rightarrow> u8 list \<Rightarrow> u16 \<Rightarrow> u8 list so_result" where
  "set_shentsize l d v = wr_u16 d (pick l 58 46) v"
definition set_shnum :: "elf_layout \<Rightarrow> u8 list \<Rightarrow> u16 \<Rightarrow> u8 list so_result" where
  "set_shnum l d v = wr_u16 d (pick l 60 48) v"
definition set_shstrndx :: "elf_layout \<Rightarrow> u8 list \<Rightarrow> u16 \<Rightarrow> u8 list so_result" where
  "set_shstrndx l d v = wr_u16 d (pick l 62 50) v"

definition p_type :: "elf_layout \<Rightarrow> u8 list \<Rightarrow> u32 so_result" where "p_type l b = rd_u32 b 0"
definition p_vaddr :: "elf_layout \<Rightarrow> u8 list \<Rightarrow> u64 so_result" where "p_vaddr l b = read_addr l b 16 8"
definition p_filesz :: "elf_layout \<Rightarrow> u8 list \<Rightarrow> u64 so_result" where "p_filesz l b = read_addr l b 32 16"
definition p_memsz :: "elf_layout \<Rightarrow> u8 list \<Rightarrow> u64 so_result" where "p_memsz l b = read_addr l b 40 20"
definition set_p_offset :: "elf_layout \<Rightarrow> u64 \<Rightarrow> u8 list \<Rightarrow> u8 list so_result" where
  "set_p_offset l v b = put_addr l b 8 4 v"
definition set_p_filesz :: "elf_layout \<Rightarrow> u64 \<Rightarrow> u8 list \<Rightarrow> u8 list so_result" where
  "set_p_filesz l v b = put_addr l b 32 16 v"

text \<open>Dynamic tags are signed; a tag of ELF32 is sign-extended. Only equality is used.\<close>

definition d_tag :: "elf_layout \<Rightarrow> u8 list \<Rightarrow> u64 so_result" where
  "d_tag l b = (if is64 l then rd_u64 b 0 else and_then (rd_u32 b 0) (\<lambda>v. Inr (scast v)))"
definition d_val :: "elf_layout \<Rightarrow> u8 list \<Rightarrow> u64 so_result" where "d_val l b = read_addr l b 8 4"

definition sym_value :: "elf_layout \<Rightarrow> u8 list \<Rightarrow> u64 so_result" where
  "sym_value l b = (if is64 l then rd_u64 b 8 else and_then (rd_u32 b 4) (\<lambda>v. Inr (ucast v)))"
definition sym_info :: "elf_layout \<Rightarrow> u8 list \<Rightarrow> u8 so_result" where
  "sym_info l b = (let i = pick l 4 12 in if i < length b then Inr (b ! i) else Inl Panic)"
definition sym_shndx_off :: "elf_layout \<Rightarrow> nat" where "sym_shndx_off l = pick l 6 14"
definition sym_shndx :: "elf_layout \<Rightarrow> u8 list \<Rightarrow> u16 so_result" where
  "sym_shndx l b = rd_u16 b (sym_shndx_off l)"
definition set_sym_shndx :: "elf_layout \<Rightarrow> u16 \<Rightarrow> u8 list \<Rightarrow> u8 list so_result" where
  "set_sym_shndx l v b = wr_u16 b (sym_shndx_off l) v"

text \<open>
  What \<^verbatim>\<open>put_shdr\<close> and \<^verbatim>\<open>put_sym\<close> leave in the entry they are given; every byte of it is written.
\<close>

definition put_shdr ::
  "elf_layout \<Rightarrow> u32 \<Rightarrow> u32 \<Rightarrow> u64 \<Rightarrow> u64 \<Rightarrow> u64 \<Rightarrow> u64 \<Rightarrow> u32 \<Rightarrow> u32 \<Rightarrow> u64 \<Rightarrow> u64 \<Rightarrow> u8 list" where
  "put_shdr l name typ flags addr off sz link info align entsize =
     le_bytes 4 name @ le_bytes 4 typ @
     (if is64 l then
        le_bytes 8 flags @ le_bytes 8 addr @ le_bytes 8 off @ le_bytes 8 sz @
        le_bytes 4 link @ le_bytes 4 info @ le_bytes 8 align @ le_bytes 8 entsize
      else
        le_bytes 4 (ucast flags :: u32) @ le_bytes 4 (ucast addr :: u32) @ le_bytes 4 (ucast off :: u32) @
        le_bytes 4 (ucast sz :: u32) @ le_bytes 4 link @ le_bytes 4 info @
        le_bytes 4 (ucast align :: u32) @ le_bytes 4 (ucast entsize :: u32))"

definition put_sym ::
  "elf_layout \<Rightarrow> u32 \<Rightarrow> u64 \<Rightarrow> u64 \<Rightarrow> u8 \<Rightarrow> u8 \<Rightarrow> u16 \<Rightarrow> u8 list" where
  "put_sym l name val sz info other shndx =
     (if is64 l then
        le_bytes 4 name @ [info, other] @ le_bytes 2 shndx @ le_bytes 8 val @ le_bytes 8 sz
      else
        le_bytes 4 name @ le_bytes 4 (ucast val :: u32) @ le_bytes 4 (ucast sz :: u32) @
        [info, other] @ le_bytes 2 shndx)"

lemma length_put_shdr [simp]: "length (put_shdr l n t f a off sz lk i al e) = shdr_size l"
  by (simp add: put_shdr_def shdr_size_def pick_def)

lemma length_put_sym [simp]: "length (put_sym l n v s i oth x) = sym_size l"
  by (simp add: put_sym_def sym_size_def pick_def)

end
