(* ===== verification/So_Sections.thy ===== *)
theory So_Sections
  imports Elf_Layout Dex_Map
begin

text \<open>
  \<^verbatim>\<open>rebuild_so_sections\<close> of \<^verbatim>\<open>src/so_fix.rs\<close>: from the memory image of a library, the program
  headers with file offsets equal to addresses, and a section header table reconstructed from the
  dynamic segment, with the symbols the caller supplies in a symbol table of their own.
\<close>

section \<open>Constants\<close>

definition PT_LOAD :: u32 where "PT_LOAD = 1"
definition PT_DYNAMIC :: u32 where "PT_DYNAMIC = 2"

definition SHT_PROGBITS :: u32 where "SHT_PROGBITS = 1"
definition SHT_SYMTAB :: u32 where "SHT_SYMTAB = 2"
definition SHT_STRTAB :: u32 where "SHT_STRTAB = 3"
definition SHT_RELA :: u32 where "SHT_RELA = 4"
definition SHT_HASH :: u32 where "SHT_HASH = 5"
definition SHT_DYNAMIC :: u32 where "SHT_DYNAMIC = 6"
definition SHT_NOBITS :: u32 where "SHT_NOBITS = 8"
definition SHT_REL :: u32 where "SHT_REL = 9"
definition SHT_DYNSYM :: u32 where "SHT_DYNSYM = 11"
definition SHT_INIT_ARRAY :: u32 where "SHT_INIT_ARRAY = 14"
definition SHT_FINI_ARRAY :: u32 where "SHT_FINI_ARRAY = 15"
definition SHT_RELR :: u32 where "SHT_RELR = 19"
definition SHT_ANDROID_REL :: u32 where "SHT_ANDROID_REL = 0x60000001"
definition SHT_ANDROID_RELA :: u32 where "SHT_ANDROID_RELA = 0x60000002"
definition SHT_ANDROID_RELR :: u32 where "SHT_ANDROID_RELR = 0x6fffff00"
definition SHT_GNU_HASH :: u32 where "SHT_GNU_HASH = 0x6ffffff6"
definition SHT_GNU_VERDEF :: u32 where "SHT_GNU_VERDEF = 0x6ffffffd"
definition SHT_GNU_VERNEED :: u32 where "SHT_GNU_VERNEED = 0x6ffffffe"
definition SHT_GNU_VERSYM :: u32 where "SHT_GNU_VERSYM = 0x6fffffff"

definition SHF_WRITE :: u64 where "SHF_WRITE = 1"
definition SHF_ALLOC :: u64 where "SHF_ALLOC = 2"
definition SHF_EXEC :: u64 where "SHF_EXEC = 4"
definition SHF_INFO_LINK :: u64 where "SHF_INFO_LINK = 0x40"

definition DT_NULL :: u64 where "DT_NULL = 0"
definition DT_PLTRELSZ :: u64 where "DT_PLTRELSZ = 2"
definition DT_PLTGOT :: u64 where "DT_PLTGOT = 3"
definition DT_HASH :: u64 where "DT_HASH = 4"
definition DT_STRTAB :: u64 where "DT_STRTAB = 5"
definition DT_SYMTAB :: u64 where "DT_SYMTAB = 6"
definition DT_RELA :: u64 where "DT_RELA = 7"
definition DT_RELASZ :: u64 where "DT_RELASZ = 8"
definition DT_STRSZ :: u64 where "DT_STRSZ = 10"
definition DT_SYMENT :: u64 where "DT_SYMENT = 11"
definition DT_INIT :: u64 where "DT_INIT = 12"
definition DT_REL :: u64 where "DT_REL = 17"
definition DT_RELSZ :: u64 where "DT_RELSZ = 18"
definition DT_PLTREL :: u64 where "DT_PLTREL = 20"
definition DT_JMPREL :: u64 where "DT_JMPREL = 23"
definition DT_INIT_ARRAY :: u64 where "DT_INIT_ARRAY = 25"
definition DT_FINI_ARRAY :: u64 where "DT_FINI_ARRAY = 26"
definition DT_INIT_ARRAYSZ :: u64 where "DT_INIT_ARRAYSZ = 27"
definition DT_FINI_ARRAYSZ :: u64 where "DT_FINI_ARRAYSZ = 28"
definition DT_RELRSZ :: u64 where "DT_RELRSZ = 35"
definition DT_RELR :: u64 where "DT_RELR = 36"
definition DT_ANDROID_REL :: u64 where "DT_ANDROID_REL = 0x6000000f"
definition DT_ANDROID_RELSZ :: u64 where "DT_ANDROID_RELSZ = 0x60000010"
definition DT_ANDROID_RELA :: u64 where "DT_ANDROID_RELA = 0x60000011"
definition DT_ANDROID_RELASZ :: u64 where "DT_ANDROID_RELASZ = 0x60000012"
definition DT_ANDROID_RELR :: u64 where "DT_ANDROID_RELR = 0x6fffe000"
definition DT_ANDROID_RELRSZ :: u64 where "DT_ANDROID_RELRSZ = 0x6fffe001"
definition DT_GNU_HASH :: u64 where "DT_GNU_HASH = 0x6ffffef5"
definition DT_VERSYM :: u64 where "DT_VERSYM = 0x6ffffff0"
definition DT_VERDEF :: u64 where "DT_VERDEF = 0x6ffffffc"
definition DT_VERDEFNUM :: u64 where "DT_VERDEFNUM = 0x6ffffffd"
definition DT_VERNEED :: u64 where "DT_VERNEED = 0x6ffffffe"
definition DT_VERNEEDNUM :: u64 where "DT_VERNEEDNUM = 0x6fffffff"

section \<open>Data\<close>

record sec_desc =
  sd_name :: rust_string
  sd_typ :: u32
  sd_flags :: u64
  sd_addr :: u64
  sd_size :: u64
  sd_has_size :: bool
  sd_link_name :: rust_string
  sd_info_name :: rust_string
  sd_info :: u32
  sd_entsize :: u64
  sd_align :: u64
  sd_file_data :: "u8 list option"
  sd_file_off :: u64

definition default_sec :: sec_desc where
  "default_sec = \<lparr>sd_name = [], sd_typ = 0, sd_flags = 0, sd_addr = 0, sd_size = 0, sd_has_size = False,
     sd_link_name = [], sd_info_name = [], sd_info = 0, sd_entsize = 0, sd_align = 0,
     sd_file_data = None, sd_file_off = 0\<rparr>"

record load_seg =
  ls_vaddr :: u64
  ls_filesz :: u64
  ls_memsz :: u64

record injected_sym =
  is_name :: rust_string
  is_value :: u64

text \<open>The first allocatable section whose range contains the address.\<close>

definition contains_addr :: "u64 \<Rightarrow> sec_desc \<Rightarrow> bool" where
  "contains_addr v s \<longleftrightarrow>
     \<not> (sd_flags s AND SHF_ALLOC = 0 \<or> sd_size s = 0) \<and> sd_addr s \<le> v \<and> v < sd_addr s + sd_size s"

fun first_containing :: "u64 \<Rightarrow> nat \<Rightarrow> sec_desc list \<Rightarrow> nat option" where
  "first_containing v i [] = None"
| "first_containing v i (s # secs) = (if contains_addr v s then Some i else first_containing v (Suc i) secs)"

definition section_index_of :: "u64 \<Rightarrow> sec_desc list \<Rightarrow> u16" where
  "section_index_of v secs = (case first_containing v 0 secs of None \<Rightarrow> 0 | Some i \<Rightarrow> of_nat i)"

section \<open>Program headers\<close>

text \<open>The header loop of the rebuild: image, segments, dynamic segment.\<close>

type_synonym phdr_state = "u8 list \<times> load_seg list \<times> u64 \<times> u64"

definition phdr_step :: "elf_layout \<Rightarrow> nat \<Rightarrow> phdr_state \<Rightarrow> phdr_state so_result" where
  "phdr_step l off = (\<lambda>(data, loads, dyn_addr, dyn_sz).
     and_then (slice_from data off) (\<lambda>ph.
     and_then (p_type l ph) (\<lambda>typ.
     and_then (p_vaddr l ph) (\<lambda>vaddr.
     and_then (p_filesz l ph) (\<lambda>filesz.
     and_then (p_memsz l ph) (\<lambda>memsz.
     and_then (edit_from data off (set_p_offset l vaddr)) (\<lambda>data.
       if typ = PT_LOAD then
         let loads = loads @ [\<lparr>ls_vaddr = vaddr, ls_filesz = filesz, ls_memsz = memsz\<rparr>]
         in if filesz < memsz
            then and_then (edit_from data off (set_p_filesz l memsz)) (\<lambda>data. Inr (data, loads, dyn_addr, dyn_sz))
            else Inr (data, loads, dyn_addr, dyn_sz)
       else if typ = PT_DYNAMIC then Inr (data, loads, vaddr, memsz)
       else Inr (data, loads, dyn_addr, dyn_sz))))))))"

fun phdr_loop :: "elf_layout \<Rightarrow> u64 \<Rightarrow> nat \<Rightarrow> nat \<Rightarrow> nat \<Rightarrow> phdr_state \<Rightarrow> phdr_state so_result" where
  "phdr_loop l po es i 0 st = Inr st"
| "phdr_loop l po es i (Suc n) st =
     (let off = wadd (unat po) (i * es)
      in if length (fst st) < wadd off (phdr_size l) then Inr st
         else and_then (phdr_step l off st) (phdr_loop l po es (Suc i) n))"

text \<open>\<^verbatim>\<open>max_vaddr\<close> and \<^verbatim>\<open>load_file_end\<close>.\<close>

definition load_bounds :: "load_seg list \<Rightarrow> u64 \<times> u64" where
  "load_bounds loads = fold (\<lambda>seg (max_vaddr, load_file_end).
     (if max_vaddr < ls_vaddr seg + ls_memsz seg then ls_vaddr seg + ls_memsz seg else max_vaddr,
      if load_file_end < ls_vaddr seg + ls_filesz seg then ls_vaddr seg + ls_filesz seg else load_file_end))
     loads (0, 0)"

section \<open>The dynamic segment\<close>

type_synonym dyn_map = "u64 \<Rightarrow> u64 option"

function dyn_loop :: "elf_layout \<Rightarrow> u8 list \<Rightarrow> nat \<Rightarrow> nat \<Rightarrow> dyn_map \<Rightarrow> dyn_map so_result" where
  "dyn_loop l data limit off m =
     (if wadd off (dyn_size l) \<le> length data \<and> wadd off (dyn_size l) \<le> limit then
        and_then (slice_from data off) (\<lambda>b.
        and_then (d_tag l b) (\<lambda>tag.
        and_then (d_val l b) (\<lambda>val.
          if tag = DT_NULL then Inr m
          else dyn_loop l data limit (off + dyn_size l) (m(tag \<mapsto> val)))))
      else Inr m)"
  by pat_completeness auto
termination
  by (relation "measure (\<lambda>(l, data, limit, off, m). Suc (length data) - off)")
    (auto simp: slice_from_def dyn_size_def pick_def split: if_splits)

declare dyn_loop.simps [simp del]

fun max_bucket :: "u8 list \<Rightarrow> nat \<Rightarrow> nat \<Rightarrow> nat \<Rightarrow> nat so_result" where
  "max_bucket data off 0 max_sym = Inr max_sym"
| "max_bucket data off (Suc n) max_sym =
     (if length data < off + 4 then Inr max_sym
      else and_then (rd_u32 data off) (\<lambda>b.
        max_bucket data (off + 4) n (if max_sym < unat b then unat b else max_sym)))"

function chain_end :: "u8 list \<Rightarrow> nat \<Rightarrow> nat \<Rightarrow> nat so_result" where
  "chain_end data off k =
     (if length data < off + 4 then Inr k
      else and_then (rd_u32 data off) (\<lambda>h.
        if h AND 1 \<noteq> 0 then Inr k else chain_end data (off + 4) (Suc k)))"
  by pat_completeness auto
termination by (relation "measure (\<lambda>(data, off, k). length data - off)") auto

declare chain_end.simps [simp del]

text \<open>
  Only the first sum can wrap: when the header of the table can be read, \<open>off\<close> is below the
  length of the image and the table sizes are below \<open>2 ^ 32\<close>.
\<close>

definition gnu_hash_sym_count :: "elf_layout \<Rightarrow> u8 list \<Rightarrow> nat \<Rightarrow> nat so_result" where
  "gnu_hash_sym_count l data off =
     (if length data < wadd off 16 then Inr 0
      else
        and_then (rd_u32 data off) (\<lambda>nbuckets.
        and_then (rd_u32 data (off + 4)) (\<lambda>symoffset.
        and_then (rd_u32 data (off + 8)) (\<lambda>bloom_size.
          if nbuckets = 0 then Inr (unat symoffset)
          else
            let buckets_off = off + 16 + unat bloom_size * unat (elf_word l);
                chain_base = buckets_off + unat nbuckets * 4
            in if length data < chain_base then Inr 0
               else and_then (max_bucket data buckets_off (unat nbuckets) 0) (\<lambda>max_sym.
                 if max_sym < unat symoffset then Inr (unat symoffset)
                 else and_then (chain_end data (chain_base + (max_sym - unat symoffset) * 4) max_sym)
                   (\<lambda>k. Inr (k + 1)))))))"

fun locals_loop :: "elf_layout \<Rightarrow> u8 list \<Rightarrow> nat \<Rightarrow> nat \<Rightarrow> nat \<Rightarrow> nat so_result" where
  "locals_loop l data off i 0 = Inr 0"
| "locals_loop l data off i (Suc n) =
     (let off_i = wadd off (i * sym_size l)
      in if length data < wadd off_i (sym_size l) then Inr 0
         else and_then (slice_from data off_i) (\<lambda>b.
              and_then (sym_info l b) (\<lambda>info.
                if drop_bit 4 info = 0
                then and_then (locals_loop l data off (Suc i) n) (\<lambda>k. Inr (Suc k))
                else Inr 0)))"

definition count_local_syms :: "elf_layout \<Rightarrow> u8 list \<Rightarrow> nat \<Rightarrow> nat \<Rightarrow> nat so_result" where
  "count_local_syms l data off cnt =
     (if cnt = 0 then Inr 1
      else and_then (locals_loop l data off 0 cnt) (\<lambda>locals. Inr (if locals = 0 then 1 else locals)))"

definition dynamic_symcount :: "elf_layout \<Rightarrow> u8 list \<Rightarrow> dyn_map \<Rightarrow> nat so_result" where
  "dynamic_symcount l data get =
     (case get DT_HASH of
        Some h \<Rightarrow>
          if wadd (unat h) 8 \<le> length data
          then and_then (rd_u32 data (wadd (unat h) 4)) (\<lambda>n. Inr (unat n)) else Inr 0
      | None \<Rightarrow>
          (case get DT_GNU_HASH of Some gh \<Rightarrow> gnu_hash_sym_count l data (unat gh) | None \<Rightarrow> Inr 0))"

section \<open>The sections the dynamic segment names\<close>

text \<open>The size of a section, if the dynamic segment gives a positive one (\<^verbatim>\<open>with_size\<close>).\<close>

definition with_size :: "u64 \<Rightarrow> sec_desc \<Rightarrow> sec_desc" where
  "with_size sz d = (if 0 < sz then d\<lparr>sd_size := sz, sd_has_size := True\<rparr> else d)"

definition dyn_value :: "dyn_map \<Rightarrow> u64 \<Rightarrow> u64" where
  "dyn_value get tag = (case get tag of None \<Rightarrow> 0 | Some v \<Rightarrow> v)"

text \<open>A section whose header is anchored at the address of a tag.\<close>

definition at_tag :: "dyn_map \<Rightarrow> u64 \<Rightarrow> (u64 \<Rightarrow> sec_desc) \<Rightarrow> sec_desc list" where
  "at_tag get tag f = (case get tag of None \<Rightarrow> [] | Some addr \<Rightarrow> [f addr])"

definition rela_ent :: "elf_layout \<Rightarrow> u64" where "rela_ent l = (if is64 l then 24 else 12)"
definition rel_ent :: "elf_layout \<Rightarrow> u64" where "rel_ent l = (if is64 l then 16 else 8)"

definition hash_secs :: "elf_layout \<Rightarrow> dyn_map \<Rightarrow> sec_desc list" where
  "hash_secs l get =
     at_tag get DT_GNU_HASH (\<lambda>gh. default_sec\<lparr>sd_name := str_lit ''.gnu.hash'', sd_typ := SHT_GNU_HASH,
       sd_flags := SHF_ALLOC, sd_addr := gh, sd_link_name := str_lit ''.dynsym'', sd_align := elf_word l\<rparr>) @
     at_tag get DT_HASH (\<lambda>h. default_sec\<lparr>sd_name := str_lit ''.hash'', sd_typ := SHT_HASH,
       sd_flags := SHF_ALLOC, sd_addr := h, sd_link_name := str_lit ''.dynsym'', sd_entsize := 4,
       sd_align := elf_word l\<rparr>)"

text \<open>Counted sections: the dynamic symbols and their versions.\<close>

definition counted :: "nat \<Rightarrow> u64 \<Rightarrow> sec_desc \<Rightarrow> sec_desc" where
  "counted symcount ent d =
     (if 0 < symcount then d\<lparr>sd_size := of_nat symcount * ent, sd_has_size := True\<rparr> else d)"

definition dynsym_sec :: "elf_layout \<Rightarrow> dyn_map \<Rightarrow> nat \<Rightarrow> nat \<Rightarrow> u64 \<Rightarrow> sec_desc" where
  "dynsym_sec l get symcount locals symtab =
     (let syment = (if dyn_value get DT_SYMENT = 0 then of_nat (sym_size l) else dyn_value get DT_SYMENT)
      in (counted symcount syment (default_sec\<lparr>sd_name := str_lit ''.dynsym'', sd_typ := SHT_DYNSYM,
            sd_flags := SHF_ALLOC, sd_addr := symtab, sd_link_name := str_lit ''.dynstr'',
            sd_entsize := syment, sd_align := elf_word l\<rparr>))\<lparr>sd_info := of_nat locals\<rparr>)"

definition symbol_secs :: "elf_layout \<Rightarrow> dyn_map \<Rightarrow> nat \<Rightarrow> nat \<Rightarrow> sec_desc list" where
  "symbol_secs l get symcount locals =
     at_tag get DT_SYMTAB (dynsym_sec l get symcount locals) @
     at_tag get DT_STRTAB (\<lambda>addr. with_size (dyn_value get DT_STRSZ) (default_sec\<lparr>sd_name := str_lit ''.dynstr'',
       sd_typ := SHT_STRTAB, sd_flags := SHF_ALLOC, sd_addr := addr, sd_align := 1\<rparr>)) @
     at_tag get DT_VERSYM (\<lambda>vs. counted symcount 2 (default_sec\<lparr>sd_name := str_lit ''.gnu.version'',
       sd_typ := SHT_GNU_VERSYM, sd_flags := SHF_ALLOC, sd_addr := vs, sd_link_name := str_lit ''.dynsym'',
       sd_entsize := 2, sd_align := 2\<rparr>)) @
     at_tag get DT_VERDEF (\<lambda>vd. default_sec\<lparr>sd_name := str_lit ''.gnu.version_d'', sd_typ := SHT_GNU_VERDEF,
       sd_flags := SHF_ALLOC, sd_addr := vd, sd_link_name := str_lit ''.dynstr'', sd_align := elf_word l,
       sd_info := ucast (dyn_value get DT_VERDEFNUM)\<rparr>) @
     at_tag get DT_VERNEED (\<lambda>vn. default_sec\<lparr>sd_name := str_lit ''.gnu.version_r'', sd_typ := SHT_GNU_VERNEED,
       sd_flags := SHF_ALLOC, sd_addr := vn, sd_link_name := str_lit ''.dynstr'', sd_align := elf_word l,
       sd_info := ucast (dyn_value get DT_VERNEEDNUM)\<rparr>)"

definition reloc_secs :: "elf_layout \<Rightarrow> dyn_map \<Rightarrow> sec_desc list" where
  "reloc_secs l get =
     at_tag get DT_RELA (\<lambda>rela. with_size (dyn_value get DT_RELASZ) (default_sec\<lparr>sd_name := str_lit ''.rela.dyn'',
       sd_typ := SHT_RELA, sd_flags := SHF_ALLOC, sd_addr := rela, sd_link_name := str_lit ''.dynsym'',
       sd_entsize := rela_ent l, sd_align := elf_word l\<rparr>)) @
     at_tag get DT_REL (\<lambda>rel. with_size (dyn_value get DT_RELSZ) (default_sec\<lparr>sd_name := str_lit ''.rel.dyn'',
       sd_typ := SHT_REL, sd_flags := SHF_ALLOC, sd_addr := rel, sd_link_name := str_lit ''.dynsym'',
       sd_entsize := rel_ent l, sd_align := elf_word l\<rparr>)) @
     at_tag get DT_RELR (\<lambda>relr. with_size (dyn_value get DT_RELRSZ) (default_sec\<lparr>sd_name := str_lit ''.relr.dyn'',
       sd_typ := SHT_RELR, sd_flags := SHF_ALLOC, sd_addr := relr, sd_entsize := elf_word l,
       sd_align := elf_word l\<rparr>)) @
     at_tag get DT_ANDROID_RELA (\<lambda>ar. with_size (dyn_value get DT_ANDROID_RELASZ)
       (default_sec\<lparr>sd_name := str_lit ''.rela.dyn'', sd_typ := SHT_ANDROID_RELA, sd_flags := SHF_ALLOC,
         sd_addr := ar, sd_link_name := str_lit ''.dynsym'', sd_align := elf_word l\<rparr>)) @
     at_tag get DT_ANDROID_REL (\<lambda>ar. with_size (dyn_value get DT_ANDROID_RELSZ)
       (default_sec\<lparr>sd_name := str_lit ''.rel.dyn'', sd_typ := SHT_ANDROID_REL, sd_flags := SHF_ALLOC,
         sd_addr := ar, sd_link_name := str_lit ''.dynsym'', sd_align := elf_word l\<rparr>)) @
     at_tag get DT_ANDROID_RELR (\<lambda>ar. with_size (dyn_value get DT_ANDROID_RELRSZ)
       (default_sec\<lparr>sd_name := str_lit ''.relr.dyn'', sd_typ := SHT_ANDROID_RELR, sd_flags := SHF_ALLOC,
         sd_addr := ar, sd_entsize := elf_word l, sd_align := elf_word l\<rparr>))"

definition plt_is_rela :: "elf_layout \<Rightarrow> dyn_map \<Rightarrow> bool" where
  "plt_is_rela l get = (case get DT_PLTREL of None \<Rightarrow> is64 l | Some pr \<Rightarrow> pr = DT_RELA)"

definition plt_rel_ent :: "elf_layout \<Rightarrow> dyn_map \<Rightarrow> u64" where
  "plt_rel_ent l get = (if plt_is_rela l get then rela_ent l else rel_ent l)"

definition plt_start :: "dyn_map \<Rightarrow> u64 \<Rightarrow> u64" where
  "plt_start get jmp = (jmp + dyn_value get DT_PLTRELSZ + 0xf) AND NOT 0xf"

definition text_start :: "dyn_map \<Rightarrow> u64" where
  "text_start get =
     (case get DT_JMPREL of Some jmp \<Rightarrow> plt_start get jmp | None \<Rightarrow> dyn_value get DT_INIT)"

definition code_secs :: "elf_layout \<Rightarrow> dyn_map \<Rightarrow> sec_desc list" where
  "code_secs l get =
     at_tag get DT_JMPREL (\<lambda>jmp. with_size (dyn_value get DT_PLTRELSZ) (default_sec\<lparr>
       sd_name := (if plt_is_rela l get then str_lit ''.rela.plt'' else str_lit ''.rel.plt''),
       sd_typ := (if plt_is_rela l get then SHT_RELA else SHT_REL),
       sd_flags := SHF_ALLOC OR SHF_INFO_LINK, sd_addr := jmp, sd_link_name := str_lit ''.dynsym'',
       sd_info_name := str_lit ''.got.plt'', sd_entsize := plt_rel_ent l get, sd_align := elf_word l\<rparr>)) @
     at_tag get DT_INIT (\<lambda>ini. default_sec\<lparr>sd_name := str_lit ''.init'', sd_typ := SHT_PROGBITS,
       sd_flags := SHF_ALLOC OR SHF_EXEC, sd_addr := ini, sd_align := 4\<rparr>) @
     at_tag get DT_JMPREL (\<lambda>jmp. default_sec\<lparr>sd_name := str_lit ''.plt'', sd_typ := SHT_PROGBITS,
       sd_flags := SHF_ALLOC OR SHF_EXEC, sd_addr := plt_start get jmp, sd_entsize := 16, sd_align := 16\<rparr>) @
     (if text_start get \<noteq> 0 then
        [default_sec\<lparr>sd_name := str_lit ''.text'', sd_typ := SHT_PROGBITS, sd_flags := SHF_ALLOC OR SHF_EXEC,
           sd_addr := text_start get + 0x40, sd_align := elf_word l\<rparr>]
      else [])"

definition got_plt_sized :: "elf_layout \<Rightarrow> dyn_map \<Rightarrow> bool" where
  "got_plt_sized l get \<longleftrightarrow> 0 < dyn_value get DT_PLTRELSZ \<and> 0 < plt_rel_ent l get"

definition got_plt_size :: "elf_layout \<Rightarrow> dyn_map \<Rightarrow> u64" where
  "got_plt_size l get = (3 + dyn_value get DT_PLTRELSZ div plt_rel_ent l get) * elf_word l"

definition got_plt_end :: "elf_layout \<Rightarrow> dyn_map \<Rightarrow> u64" where
  "got_plt_end l get =
     (case get DT_PLTGOT of None \<Rightarrow> 0
      | Some got \<Rightarrow> if got_plt_sized l get then got + got_plt_size l get else 0)"

definition data_secs :: "elf_layout \<Rightarrow> dyn_map \<Rightarrow> u64 \<Rightarrow> u64 \<Rightarrow> u64 \<Rightarrow> u64 \<Rightarrow> sec_desc list" where
  "data_secs l get dyn_addr dyn_sz max_vaddr load_file_end =
     at_tag get DT_INIT_ARRAY (\<lambda>ia. with_size (dyn_value get DT_INIT_ARRAYSZ) (default_sec\<lparr>
       sd_name := str_lit ''.init_array'', sd_typ := SHT_INIT_ARRAY, sd_flags := SHF_WRITE OR SHF_ALLOC,
       sd_addr := ia, sd_entsize := elf_word l, sd_align := elf_word l\<rparr>)) @
     at_tag get DT_FINI_ARRAY (\<lambda>fa. with_size (dyn_value get DT_FINI_ARRAYSZ) (default_sec\<lparr>
       sd_name := str_lit ''.fini_array'', sd_typ := SHT_FINI_ARRAY, sd_flags := SHF_WRITE OR SHF_ALLOC,
       sd_addr := fa, sd_entsize := elf_word l, sd_align := elf_word l\<rparr>)) @
     [default_sec\<lparr>sd_name := str_lit ''.dynamic'', sd_typ := SHT_DYNAMIC, sd_flags := SHF_WRITE OR SHF_ALLOC,
        sd_addr := dyn_addr, sd_size := dyn_sz, sd_has_size := True, sd_link_name := str_lit ''.dynstr'',
        sd_entsize := of_nat (dyn_size l), sd_align := elf_word l\<rparr>] @
     at_tag get DT_PLTGOT (\<lambda>got.
       let d = default_sec\<lparr>sd_name := str_lit ''.got.plt'', sd_typ := SHT_PROGBITS,
                 sd_flags := SHF_WRITE OR SHF_ALLOC, sd_addr := got, sd_entsize := elf_word l,
                 sd_align := elf_word l\<rparr>
       in if got_plt_sized l get then d\<lparr>sd_size := got_plt_size l get, sd_has_size := True\<rparr> else d) @
     (if 0 < got_plt_end l get \<and> got_plt_end l get < load_file_end then
        [default_sec\<lparr>sd_name := str_lit ''.data'', sd_typ := SHT_PROGBITS, sd_flags := SHF_WRITE OR SHF_ALLOC,
           sd_addr := got_plt_end l get, sd_align := elf_word l\<rparr>]
      else []) @
     (if load_file_end < max_vaddr then
        [default_sec\<lparr>sd_name := str_lit ''.bss'', sd_typ := SHT_NOBITS, sd_flags := SHF_WRITE OR SHF_ALLOC,
           sd_addr := load_file_end, sd_size := max_vaddr - load_file_end, sd_has_size := True,
           sd_align := elf_word l\<rparr>]
      else [])"

section \<open>Sizes from the neighbours\<close>

fun size_pass :: "u64 \<Rightarrow> u64 \<Rightarrow> sec_desc list \<Rightarrow> sec_desc list" where
  "size_pass max_vaddr load_file_end [] = []"
| "size_pass max_vaddr load_file_end (s # rest) =
     (let next_addr = (case rest of n # _ \<Rightarrow> sd_addr n
            | [] \<Rightarrow> if sd_typ s = SHT_NOBITS then max_vaddr else load_file_end);
          s' = (if next_addr \<le> sd_addr s then s
                else let gap = next_addr - sd_addr s
                     in if \<not> sd_has_size s \<or> gap < sd_size s then s\<lparr>sd_size := gap\<rparr> else s)
      in s' # size_pass max_vaddr load_file_end rest)"

definition alloc_secs ::
  "elf_layout \<Rightarrow> dyn_map \<Rightarrow> nat \<Rightarrow> nat \<Rightarrow> u64 \<Rightarrow> u64 \<Rightarrow> u64 \<Rightarrow> u64 \<Rightarrow> sec_desc list" where
  "alloc_secs l get symcount locals dyn_addr dyn_sz max_vaddr load_file_end =
     default_sec # size_pass max_vaddr load_file_end (sort_key sd_addr
       (hash_secs l get @ symbol_secs l get symcount locals @ reloc_secs l get @ code_secs l get @
        data_secs l get dyn_addr dyn_sz max_vaddr load_file_end))"

section \<open>Injected symbols and names\<close>

text \<open>The string table and the symbols behind the null symbol.\<close>

fun inject_loop ::
  "elf_layout \<Rightarrow> sec_desc list \<Rightarrow> injected_sym list \<Rightarrow> u8 list \<times> u8 list \<Rightarrow> u8 list \<times> u8 list" where
  "inject_loop l secs [] (strtab, symtab) = (strtab, symtab)"
| "inject_loop l secs (s # ss) (strtab, symtab) =
     inject_loop l secs ss
       (strtab @ utf8_bytes (is_name s) @ [0],
        symtab @ put_sym l (of_nat (length strtab)) (is_value s) 0 0x12 0 (section_index_of (is_value s) secs))"

definition injected_secs :: "elf_layout \<Rightarrow> sec_desc list \<Rightarrow> injected_sym list \<Rightarrow> sec_desc list" where
  "injected_secs l secs injected =
     (if injected = [] then []
      else let (strtab, symtab) = inject_loop l secs injected ([0], replicate (sym_size l) 0)
           in [default_sec\<lparr>sd_name := str_lit ''.symtab'', sd_typ := SHT_SYMTAB,
                 sd_entsize := of_nat (sym_size l), sd_align := elf_word l, sd_file_data := Some symtab,
                 sd_link_name := str_lit ''.strtab'', sd_info := 1\<rparr>,
               default_sec\<lparr>sd_name := str_lit ''.strtab'', sd_typ := SHT_STRTAB, sd_align := 1,
                 sd_file_data := Some strtab\<rparr>])"

definition shstrtab_sec :: sec_desc where
  "shstrtab_sec = default_sec\<lparr>sd_name := str_lit ''.shstrtab'', sd_typ := SHT_STRTAB, sd_align := 1\<rparr>"

text \<open>The section name table and the offset of each name in it.\<close>

type_synonym name_table = "u8 list \<times> (rust_string \<Rightarrow> u32 option)"

definition add_name :: "sec_desc \<Rightarrow> name_table \<Rightarrow> name_table" where
  "add_name s = (\<lambda>(tab, offs).
     if sd_name s = [] \<or> offs (sd_name s) \<noteq> None then (tab, offs)
     else (tab @ utf8_bytes (sd_name s) @ [0], offs(sd_name s \<mapsto> of_nat (length tab))))"

definition section_names :: "sec_desc list \<Rightarrow> name_table" where
  "section_names secs = fold add_name secs ([0], [[] \<mapsto> 0])"

text \<open>Of equal names the last section counts.\<close>

fun index_of_name :: "nat \<Rightarrow> sec_desc list \<Rightarrow> (rust_string \<Rightarrow> u32 option) \<Rightarrow> rust_string \<Rightarrow> u32 option" where
  "index_of_name i [] idx = idx"
| "index_of_name i (s # secs) idx =
     index_of_name (Suc i) secs (if sd_name s = [] then idx else idx(sd_name s \<mapsto> of_nat i))"

section \<open>The file\<close>

text \<open>The section indices of the dynamic symbols.\<close>

fun remap_sym_shndx ::
  "elf_layout \<Rightarrow> nat \<Rightarrow> sec_desc list \<Rightarrow> nat \<Rightarrow> nat \<Rightarrow> u8 list \<Rightarrow> u8 list so_result" where
  "remap_sym_shndx l off secs i 0 data = Inr data"
| "remap_sym_shndx l off secs i (Suc n) data =
     (let o_i = wadd off (i * sym_size l)
      in if length data < wadd o_i (sym_size l) then Inr data
         else and_then (slice_from data o_i) (\<lambda>b.
              and_then (sym_shndx l b) (\<lambda>shndx.
                if shndx = 0 \<or> 0xff00 \<le> shndx then remap_sym_shndx l off secs (Suc i) n data
                else and_then (sym_value l b) (\<lambda>v.
                  and_then (case first_containing v 0 secs of None \<Rightarrow> Inr data
                            | Some si \<Rightarrow> edit_from data o_i (set_sym_shndx l (of_nat si)))
                    (remap_sym_shndx l off secs (Suc i) n)))))"

text \<open>The payloads behind the image, and where each of them went.\<close>

fun place_payloads :: "u8 list \<Rightarrow> sec_desc list \<Rightarrow> u8 list \<times> sec_desc list" where
  "place_payloads data [] = (data, [])"
| "place_payloads data (s # secs) =
     (case sd_file_data s of
        None \<Rightarrow> (case place_payloads data secs of (data, secs) \<Rightarrow> (data, s # secs))
      | Some payload \<Rightarrow>
          let data = (if 1 < sd_align s then align_to data (unat (sd_align s)) else data)
          in case place_payloads (data @ payload) secs of
               (data', secs) \<Rightarrow> (data', s\<lparr>sd_file_off := of_nat (length data)\<rparr> # secs))"

text \<open>The header of a section; every name is in the table, so the index \<^verbatim>\<open>name_off[&s.name]\<close> is defined.\<close>

definition section_header ::
  "elf_layout \<Rightarrow> name_table \<Rightarrow> (rust_string \<Rightarrow> u32 option) \<Rightarrow> u64 \<Rightarrow> sec_desc \<Rightarrow> u8 list" where
  "section_header l names idx shstrtab_off s =
     (let sh_name = (if sd_name s = [] then 0 else case snd names (sd_name s) of Some n \<Rightarrow> n | None \<Rightarrow> 0);
          (sh_addr, sh_offset, sh_size) =
            (if sd_name s = [] then (0, 0, sd_size s)
             else if sd_name s = str_lit ''.shstrtab'' then (0, shstrtab_off, of_nat (length (fst names)))
             else case sd_file_data s of
               Some payload \<Rightarrow> (0, sd_file_off s, of_nat (length payload))
             | None \<Rightarrow> (sd_addr s, sd_addr s, sd_size s));
          link = (if sd_link_name s = [] then 0 else case idx (sd_link_name s) of Some i \<Rightarrow> i | None \<Rightarrow> 0);
          info = (if sd_info_name s = [] then sd_info s
                  else case idx (sd_info_name s) of Some i \<Rightarrow> i | None \<Rightarrow> 0)
      in put_shdr l sh_name (sd_typ s) (sd_flags s) sh_addr sh_offset sh_size link info (sd_align s)
           (sd_entsize s))"

definition patch_header ::
  "elf_layout \<Rightarrow> u64 \<Rightarrow> nat \<Rightarrow> nat \<Rightarrow> u8 list \<Rightarrow> u8 list so_result" where
  "patch_header l shoff shnum shstrndx data =
     and_then (set_shoff l data shoff) (\<lambda>data.
     and_then (set_shentsize l data (of_nat (shdr_size l))) (\<lambda>data.
     and_then (set_shnum l data (of_nat shnum)) (\<lambda>data.
       set_shstrndx l data (of_nat shstrndx))))"

definition emit_sections ::
  "elf_layout \<Rightarrow> nat \<Rightarrow> sec_desc list \<Rightarrow> u8 list \<Rightarrow> u8 list so_result" where
  "emit_sections l shstrtab_idx secs data =
     (let names = section_names secs;
          idx = index_of_name 0 secs (\<lambda>_. None);
          (data, secs) = place_payloads data secs;
          shstrtab_off = of_nat (length data);
          data = align_to (data @ fst names) (unat (elf_word l));
          shoff = of_nat (length data);
          data = data @ concat (map (section_header l names idx shstrtab_off) secs)
      in patch_header l shoff (length secs) shstrtab_idx data)"

definition elf_magic_bytes :: "u8 list" where "elf_magic_bytes = [0x7f, 0x45, 0x4c, 0x46]"

text \<open>The checks of the file header, and the program header table it names.\<close>

definition elf_header :: "u8 list \<Rightarrow> (elf_layout \<times> u64 \<times> nat \<times> nat) so_result" where
  "elf_header data =
     (if length data < 16 then Inl (Bail ''image too small'')
      else if take 4 data \<noteq> elf_magic_bytes then Inl (Bail ''not an ELF image'')
      else if data ! 4 \<noteq> 1 \<and> data ! 4 \<noteq> 2 then Inl (Bail ''unsupported EI_CLASS'')
      else if data ! 5 \<noteq> 1 then Inl (Bail ''only little-endian images supported'')
      else let l = \<lparr>is64 = (data ! 4 = 2)\<rparr>
           in if length data < ehdr_size l then Inl (Bail ''image smaller than ELF header'')
              else and_then (phoff l data) (\<lambda>po.
                   and_then (phentsize l data) (\<lambda>es.
                   and_then (phnum l data) (\<lambda>n.
                     if po = 0 \<or> n = 0 then Inl (Bail ''no program headers'')
                     else Inr (l, po, if es = 0 then phdr_size l else es, n)))))"

text \<open>From the dynamic segment to the file: sections, symbol indices, table.\<close>

definition finish_sections ::
  "elf_layout \<Rightarrow> injected_sym list \<Rightarrow> dyn_map \<Rightarrow> nat \<Rightarrow> nat \<Rightarrow> u64 \<Rightarrow> u64 \<Rightarrow> load_seg list \<Rightarrow> u8 list \<Rightarrow>
     u8 list so_result" where
  "finish_sections l injected get symcount locals dyn_addr dyn_sz loads data =
     (let bounds = load_bounds loads;
          secs = alloc_secs l get symcount locals dyn_addr dyn_sz (fst bounds) (snd bounds);
          secs = secs @ injected_secs l secs injected;
          all_secs = secs @ [shstrtab_sec]
      in and_then (case get DT_SYMTAB of
                     Some symtab \<Rightarrow>
                       if 0 < symcount then remap_sym_shndx l (unat symtab) all_secs 0 symcount data
                       else Inr data
                   | None \<Rightarrow> Inr data)
           (emit_sections l (length secs) all_secs))"

definition rebuild_so_sections :: "u8 list \<Rightarrow> injected_sym list \<Rightarrow> u8 list so_result" where
  "rebuild_so_sections img injected =
     and_then (elf_header img) (\<lambda>(l, po, es, n).
     and_then (phdr_loop l po es 0 n (img, [], 0, 0)) (\<lambda>(data, loads, dyn_addr, dyn_sz).
       if dyn_addr = 0 then Inl (Bail ''no PT_DYNAMIC segment; cannot rebuild sections'')
       else if loads = [] then Inl (Bail ''no PT_LOAD segments'')
       else
         and_then (dyn_loop l data (unat (dyn_addr + dyn_sz)) (unat dyn_addr) (\<lambda>_. None)) (\<lambda>get.
         and_then (dynamic_symcount l data get) (\<lambda>symcount.
         and_then (case get DT_SYMTAB of None \<Rightarrow> Inr 0
                   | Some symtab \<Rightarrow> count_local_syms l data (unat symtab) symcount) (\<lambda>locals.
           finish_sections l injected get symcount locals dyn_addr dyn_sz loads data)))))"

end
