(* ===== verification/So_Facts.thy ===== *)
theory So_Facts
  imports So_Sections
begin

text \<open>
  What a reader of the rebuilt library finds: the section header table where the file header says,
  every header with the values chosen for its section and its name in the name table, allocatable
  sections in the order of their addresses, and the injected symbols with their
  values and names. The bytes of the image outside the headers are those of the dump.
\<close>

section \<open>Reading section headers\<close>

record section_hdr =
  sh_name :: u32
  sh_type :: u32
  sh_flags :: u64
  sh_addr :: u64
  sh_offset :: u64
  sh_size :: u64
  sh_link :: u32
  sh_info :: u32
  sh_addralign :: u64
  sh_entsize :: u64

definition le_at :: "u8 list \<Rightarrow> nat \<Rightarrow> nat \<Rightarrow> 'a::len word" where
  "le_at b off n = le_word (take n (drop off b))"

definition addr_at :: "elf_layout \<Rightarrow> u8 list \<Rightarrow> nat \<Rightarrow> nat \<Rightarrow> u64" where
  "addr_at l b off64 off32 = (if is64 l then le_at b off64 8 else ucast (le_at b off32 4 :: u32))"

definition read_shdr :: "elf_layout \<Rightarrow> u8 list \<Rightarrow> section_hdr" where
  "read_shdr l b = \<lparr>sh_name = le_at b 0 4, sh_type = le_at b 4 4, sh_flags = addr_at l b 8 8,
     sh_addr = addr_at l b 16 12, sh_offset = addr_at l b 24 16, sh_size = addr_at l b 32 20,
     sh_link = le_at b (pick l 40 24) 4, sh_info = le_at b (pick l 44 28) 4,
     sh_addralign = addr_at l b 48 32, sh_entsize = addr_at l b 56 36\<rparr>"

text \<open>What a field of the class holds of a value.\<close>

definition fits :: "elf_layout \<Rightarrow> u64 \<Rightarrow> u64" where
  "fits l v = (if is64 l then v else ucast (ucast v :: u32))"

lemma le_at_bytes [simp]:
  "le_at (le_bytes 4 v @ rest) 0 4 = v" for v :: u32
  by (simp add: le_at_def)

lemma read_put_shdr:
  "read_shdr l (put_shdr l name typ flags addr off sz link info align entsize @ rest) =
     \<lparr>sh_name = name, sh_type = typ, sh_flags = fits l flags, sh_addr = fits l addr,
       sh_offset = fits l off, sh_size = fits l sz, sh_link = link, sh_info = info,
       sh_addralign = fits l align, sh_entsize = fits l entsize\<rparr>"
  by (simp add: read_shdr_def put_shdr_def addr_at_def le_at_def fits_def pick_def)

text \<open>The table the file header names.\<close>

definition e_shoff :: "elf_layout \<Rightarrow> u8 list \<Rightarrow> nat" where "e_shoff l data = unat (addr_at l data 40 32)"
definition e_shnum :: "elf_layout \<Rightarrow> u8 list \<Rightarrow> nat" where
  "e_shnum l data = unat (le_at data (pick l 60 48) 2 :: u16)"
definition e_shentsize :: "elf_layout \<Rightarrow> u8 list \<Rightarrow> nat" where
  "e_shentsize l data = unat (le_at data (pick l 58 46) 2 :: u16)"
definition e_shstrndx :: "elf_layout \<Rightarrow> u8 list \<Rightarrow> nat" where
  "e_shstrndx l data = unat (le_at data (pick l 62 50) 2 :: u16)"

definition section_table :: "elf_layout \<Rightarrow> u8 list \<Rightarrow> section_hdr list" where
  "section_table l data =
     map (\<lambda>i. read_shdr l (drop (e_shoff l data + i * e_shentsize l data) data)) [0..<e_shnum l data]"

section \<open>Edits\<close>

text \<open>The bytes at positions outside \<open>P\<close> are the same.\<close>

definition same_outside :: "(nat \<Rightarrow> bool) \<Rightarrow> u8 list \<Rightarrow> u8 list \<Rightarrow> bool" where
  "same_outside P a b \<longleftrightarrow> length a = length b \<and> (\<forall>i<length a. \<not> P i \<longrightarrow> a ! i = b ! i)"

lemma same_outside_refl [simp]: "same_outside P a a"
  by (simp add: same_outside_def)

lemma same_outside_trans: "same_outside P a b \<Longrightarrow> same_outside P b c \<Longrightarrow> same_outside P a c"
  by (auto simp: same_outside_def)

lemma same_outside_mono: "same_outside P a b \<Longrightarrow> (\<And>i. P i \<Longrightarrow> Q i) \<Longrightarrow> same_outside Q a b"
  by (auto simp: same_outside_def)

lemma same_outside_take: "same_outside P (a @ b) c \<Longrightarrow> same_outside P a (take (length a) c)"
proof -
  assume same: "same_outside P (a @ b) c"
  then have len: "length c = length a + length b" by (simp add: same_outside_def)
  have "a ! i = c ! i" if "i < length a" "\<not> P i" for i
    using same that by (auto simp: same_outside_def nth_append dest: spec [of _ i])
  with len show ?thesis by (simp add: same_outside_def)
qed

lemma wr_Inr:
  "wr_u16 b off v = Inr b' \<longleftrightarrow> off + 2 \<le> length b \<and> b' = splice b off (le_bytes 2 v)"
  "wr_u32 b off v' = Inr b' \<longleftrightarrow> off + 4 \<le> length b \<and> b' = splice b off (le_bytes 4 v')"
  "wr_u64 b off v'' = Inr b' \<longleftrightarrow> off + 8 \<le> length b \<and> b' = splice b off (le_bytes 8 v'')"
  by (auto simp: wr_u16_def wr_u32_def wr_u64_def)

lemma splice_outside:
  "off + length p \<le> length b \<Longrightarrow> (\<And>i. off \<le> i \<Longrightarrow> i < off + length p \<Longrightarrow> P i) \<Longrightarrow> same_outside P b (splice b off p)"
  by (auto simp: same_outside_def length_splice nth_splice)

lemma put_addr_outside:
  assumes "put_addr l b off64 off32 v = Inr b'"
    and "\<And>i. (if is64 l then off64 \<le> i \<and> i < off64 + 8 else off32 \<le> i \<and> i < off32 + 4) \<Longrightarrow> P i"
  shows "same_outside P b b'"
proof (cases "is64 l")
  case True
  with assms show ?thesis by (auto simp: put_addr_def wr_Inr intro!: splice_outside)
next
  case False
  with assms show ?thesis by (auto simp: put_addr_def wr_Inr intro!: splice_outside)
qed

lemma edit_from_outside:
  assumes "edit_from data off f = Inr data'"
    and f: "\<And>b. f (drop off data) = Inr b \<Longrightarrow> same_outside (\<lambda>i. P (off + i)) (drop off data) b"
  shows "same_outside P data data'"
proof -
  obtain b where off: "off \<le> length data" and b: "f (drop off data) = Inr b" "data' = take off data @ b"
    using assms(1) by (auto simp: edit_from_def and_then_Inr split: if_splits)
  from f [OF b(1)] have s: "length b = length data - off"
    "\<And>i. i < length data - off \<Longrightarrow> \<not> P (off + i) \<Longrightarrow> data ! (off + i) = b ! i"
    by (auto simp: same_outside_def off)
  have "data ! i = data' ! i" if "i < length data" "\<not> P i" for i
  proof (cases "i < off")
    case False
    with s(2) [of "i - off"] that off show ?thesis by (simp add: b(2) nth_append)
  qed (use off in \<open>simp add: b(2) nth_append\<close>)
  with s(1) off show ?thesis by (simp add: same_outside_def b(2))
qed

section \<open>Program headers and symbol indices change in place\<close>

definition in_phdrs :: "elf_layout \<Rightarrow> u64 \<Rightarrow> nat \<Rightarrow> nat \<Rightarrow> nat \<Rightarrow> bool" where
  "in_phdrs l po es n i \<longleftrightarrow>
     (\<exists>k<n. wadd (unat po) (k * es) \<le> i \<and> i < wadd (unat po) (k * es) + phdr_size l)"

lemma phdr_step_outside:
  assumes "phdr_step l off (data, loads, da, ds) = Inr (data', loads', da', ds')"
    and P: "\<And>i. off \<le> i \<Longrightarrow> i < off + phdr_size l \<Longrightarrow> P i"
  shows "same_outside P data data'"
proof -
  have edit: "same_outside P d d'"
    if "edit_from d off (set_p_offset l v) = Inr d' \<or> edit_from d off (set_p_filesz l v) = Inr d'" for d d' v
  proof -
    have "same_outside (\<lambda>i. P (off + i)) (drop off d) b"
      if "set_p_offset l v (drop off d) = Inr b \<or> set_p_filesz l v (drop off d) = Inr b" for b
      using that
      by (auto simp: set_p_offset_def set_p_filesz_def phdr_size_def pick_def split: if_splits
          intro!: P elim!: put_addr_outside)
    with that show ?thesis by (auto elim!: edit_from_outside)
  qed
  from assms(1) obtain vaddr memsz d1 where
    d1: "edit_from data off (set_p_offset l vaddr) = Inr d1"
    and rest: "data' = d1 \<or> edit_from d1 off (set_p_filesz l memsz) = Inr data'"
    by (auto simp: phdr_step_def and_then_Inr Let_def split: if_splits)
  have "same_outside P data d1" using edit d1 by blast
  moreover have "same_outside P d1 data'" using rest edit by (metis same_outside_refl)
  ultimately show ?thesis by (rule same_outside_trans)
qed

lemma phdr_loop_outside:
  "phdr_loop l po es i n st = Inr st' \<Longrightarrow> same_outside (in_phdrs l po es (i + n)) (fst st) (fst st')"
proof (induction n arbitrary: i st)
  case (Suc n)
  let ?off = "wadd (unat po) (i * es)"
  show ?case
  proof (cases "length (fst st) < wadd ?off (phdr_size l)")
    case False
    with Suc.prems obtain st1 where one: "phdr_step l ?off st = Inr st1"
      and rest: "phdr_loop l po es (Suc i) n st1 = Inr st'"
      by (auto simp: and_then_Inr Let_def)
    have "same_outside (in_phdrs l po es (i + Suc n)) (fst st) (fst st1)"
    proof -
      obtain data loads da ds data' loads' da' ds'
        where st: "st = (data, loads, da, ds)" "st1 = (data', loads', da', ds')" by (cases st, cases st1)
      have "in_phdrs l po es (i + Suc n) j" if "?off \<le> j" "j < ?off + phdr_size l" for j
        unfolding in_phdrs_def using that by (intro exI [of _ i]) simp
      from phdr_step_outside [OF one [unfolded st] this] show ?thesis by (simp add: st)
    qed
    with Suc.IH [OF rest] show ?thesis by (auto intro: same_outside_trans)
  qed (use Suc.prems in \<open>simp add: Let_def\<close>)
qed simp

definition in_symbols :: "elf_layout \<Rightarrow> nat \<Rightarrow> nat \<Rightarrow> nat \<Rightarrow> bool" where
  "in_symbols l off n i \<longleftrightarrow>
     (\<exists>k<n. wadd off (k * sym_size l) \<le> i \<and> i < wadd off (k * sym_size l) + sym_size l)"

lemma remap_outside:
  "remap_sym_shndx l off secs i n data = Inr data' \<Longrightarrow> same_outside (in_symbols l off (i + n)) data data'"
proof (induction n arbitrary: i data)
  case (Suc n)
  let ?o = "wadd off (i * sym_size l)" and ?P = "in_symbols l off (i + Suc n)"
  have edit: "same_outside ?P data d" if "edit_from data ?o (set_sym_shndx l v) = Inr d" for d v
  proof (rule edit_from_outside [OF that])
    fix b assume "set_sym_shndx l v (drop ?o data) = Inr b"
    then have fit: "sym_shndx_off l + length (le_bytes 2 v) \<le> length (drop ?o data)"
      and b: "b = splice (drop ?o data) (sym_shndx_off l) (le_bytes 2 v)"
      by (simp_all add: set_sym_shndx_def wr_Inr)
    have "?P (?o + j)" if "sym_shndx_off l \<le> j" "j < sym_shndx_off l + length (le_bytes 2 v)" for j
    proof -
      have "j < sym_size l" using that by (simp add: sym_shndx_off_def sym_size_def pick_def split: if_splits)
      then show ?thesis unfolding in_symbols_def by (intro exI [of _ i]) simp
    qed
    then show "same_outside (\<lambda>j. ?P (?o + j)) (drop ?o data) b"
      unfolding b by (intro splice_outside [OF fit])
  qed
  show ?case
  proof (cases "length data < wadd ?o (sym_size l)")
    case False
    with Suc.prems obtain shndx :: u16 and b where body: "(if shndx = 0 \<or> 0xff00 \<le> shndx
        then remap_sym_shndx l off secs (Suc i) n data
        else and_then (sym_value l b) (\<lambda>v.
          and_then (case first_containing v 0 secs of None \<Rightarrow> Inr data
                    | Some si \<Rightarrow> edit_from data ?o (set_sym_shndx l (of_nat si)))
            (remap_sym_shndx l off secs (Suc i) n))) = Inr data'"
      by (simp add: and_then_Inr Let_def) blast
    have "\<exists>d. remap_sym_shndx l off secs (Suc i) n d = Inr data' \<and> same_outside ?P data d"
    proof (cases "shndx = 0 \<or> 0xff00 \<le> shndx")
      case True
      with body show ?thesis by auto
    next
      case False
      with body obtain v d where d: "(case first_containing v 0 secs of None \<Rightarrow> Inr data
          | Some si \<Rightarrow> edit_from data ?o (set_sym_shndx l (of_nat si))) = Inr d"
        and "remap_sym_shndx l off secs (Suc i) n d = Inr data'"
        by (simp only: if_False and_then_Inr) blast
      moreover have "same_outside ?P data d" using d edit by (cases "first_containing v 0 secs") auto
      ultimately show ?thesis by blast
    qed
    then obtain d where "remap_sym_shndx l off secs (Suc i) n d = Inr data'" "same_outside ?P data d" by blast
    with Suc.IH [of "Suc i" d] show ?thesis by (auto intro: same_outside_trans)
  qed (use Suc.prems in \<open>simp add: Let_def\<close>)
qed simp

section \<open>The header of the file\<close>

lemma le_at_splice_same:
  "off + length p \<le> length b \<Longrightarrow> length p = n \<Longrightarrow> le_at (splice b off p) off n = le_word p"
  by (simp add: le_at_def splice_read)

lemma le_at_splice_other:
  "off + length p \<le> length b \<Longrightarrow> a + n \<le> off \<or> off + length p \<le> a \<Longrightarrow> le_at (splice b off p) a n = le_at b a n"
  unfolding le_at_def by (subst splice_read_other) auto

lemma patch_header_reads:
  assumes "ehdr_size l \<le> length data"
  shows "\<exists>out. patch_header l shoff n ix data = Inr out \<and> length out = length data \<and>
    drop (ehdr_size l) out = drop (ehdr_size l) data \<and> addr_at l out 40 32 = fits l shoff \<and>
    le_at out (pick l 58 46) 2 = (of_nat (shdr_size l) :: u16) \<and>
    le_at out (pick l 60 48) 2 = (of_nat n :: u16) \<and> le_at out (pick l 62 50) 2 = (of_nat ix :: u16) \<and>
    same_outside (\<lambda>i. i < ehdr_size l) data out"
proof (cases "is64 l")
  case True
  let ?d1 = "splice data 40 (le_bytes 8 shoff)"
  let ?d2 = "splice ?d1 58 (le_bytes 2 (of_nat (shdr_size l) :: u16))"
  let ?d3 = "splice ?d2 60 (le_bytes 2 (of_nat n :: u16))"
  let ?d4 = "splice ?d3 62 (le_bytes 2 (of_nat ix :: u16))"
  have len: "64 \<le> length data" using assms True by (simp add: ehdr_size_def pick_def)
  then have "length ?d1 = length data" "length ?d2 = length data" "length ?d3 = length data" "length ?d4 = length data"
    by (simp_all add: length_splice)
  note lens = this
  have "patch_header l shoff n ix data = Inr ?d4"
    using True len lens
    by (simp add: patch_header_def set_shoff_def set_shentsize_def set_shnum_def set_shstrndx_def
        put_addr_def wr_u16_def wr_u64_def pick_def)
  moreover have "same_outside (\<lambda>i. i < 64) data ?d4"
  proof -
    have "same_outside (\<lambda>i. i < 64) data ?d1" "same_outside (\<lambda>i. i < 64) ?d1 ?d2"
      "same_outside (\<lambda>i. i < 64) ?d2 ?d3" "same_outside (\<lambda>i. i < 64) ?d3 ?d4"
      by (rule splice_outside; use len lens in simp)+
    then show ?thesis by (meson same_outside_trans)
  qed
  moreover have "le_at ?d4 40 8 = shoff" "le_at ?d4 58 2 = (of_nat (shdr_size l) :: u16)"
    "le_at ?d4 60 2 = (of_nat n :: u16)" "le_at ?d4 62 2 = (of_nat ix :: u16)"
    using len lens by (simp_all add: le_at_splice_same le_at_splice_other)
  moreover have "drop 64 ?d4 = drop 64 data" using len lens by (simp add: splice_drop)
  ultimately show ?thesis
    using True lens by (auto simp: ehdr_size_def pick_def addr_at_def fits_def)
next
  case False
  let ?d1 = "splice data 32 (le_bytes 4 (ucast shoff :: u32))"
  let ?d2 = "splice ?d1 46 (le_bytes 2 (of_nat (shdr_size l) :: u16))"
  let ?d3 = "splice ?d2 48 (le_bytes 2 (of_nat n :: u16))"
  let ?d4 = "splice ?d3 50 (le_bytes 2 (of_nat ix :: u16))"
  have len: "52 \<le> length data" using assms False by (simp add: ehdr_size_def pick_def)
  then have "length ?d1 = length data" "length ?d2 = length data" "length ?d3 = length data" "length ?d4 = length data"
    by (simp_all add: length_splice)
  note lens = this
  have "patch_header l shoff n ix data = Inr ?d4"
    using False len lens
    by (simp add: patch_header_def set_shoff_def set_shentsize_def set_shnum_def set_shstrndx_def
        put_addr_def wr_u16_def wr_u32_def pick_def)
  moreover have "same_outside (\<lambda>i. i < 52) data ?d4"
  proof -
    have "same_outside (\<lambda>i. i < 52) data ?d1" "same_outside (\<lambda>i. i < 52) ?d1 ?d2"
      "same_outside (\<lambda>i. i < 52) ?d2 ?d3" "same_outside (\<lambda>i. i < 52) ?d3 ?d4"
      by (rule splice_outside; use len lens in simp)+
    then show ?thesis by (meson same_outside_trans)
  qed
  moreover have "le_at ?d4 32 4 = (ucast shoff :: u32)" "le_at ?d4 46 2 = (of_nat (shdr_size l) :: u16)"
    "le_at ?d4 48 2 = (of_nat n :: u16)" "le_at ?d4 50 2 = (of_nat ix :: u16)"
    using len lens by (simp_all add: le_at_splice_same le_at_splice_other)
  moreover have "drop 52 ?d4 = drop 52 data" using len lens by (simp add: splice_drop)
  ultimately show ?thesis
    using False lens by (auto simp: ehdr_size_def pick_def addr_at_def fits_def)
qed

section \<open>Names\<close>

text \<open>A string of a string table: its bytes and a zero.\<close>

definition string_in :: "u8 list \<Rightarrow> nat \<Rightarrow> rust_string \<Rightarrow> bool" where
  "string_in tab off name \<longleftrightarrow> take (Suc (length (utf8_bytes name))) (drop off tab) = utf8_bytes name @ [0]"

lemma string_in_append: "string_in tab off name \<Longrightarrow> string_in (tab @ extra) off name"
  unfolding string_in_def
  by (metis (no_types, lifting) append_Nil2 diff_is_0_eq' drop_append length_append_singleton length_take min.cobounded1
      nat_le_linear take_0 take_append take_all)

lemma string_in_end: "string_in (tab @ utf8_bytes name @ [0]) (length tab) name"
  by (simp add: string_in_def)

lemma string_in_behind: "string_in tab off name \<Longrightarrow> string_in (pre @ tab) (length pre + off) name"
  by (simp add: string_in_def)

definition names_in :: "name_table \<Rightarrow> bool" where
  "names_in = (\<lambda>(tab, offs). length tab < 2 ^ 32 \<longrightarrow>
     (\<forall>name off. offs name = Some off \<longrightarrow> string_in tab (unat off) name))"

lemma add_name_in: "names_in nt \<Longrightarrow> names_in (add_name s nt)"
proof -
  assume nt: "names_in nt"
  obtain tab offs where [simp]: "nt = (tab, offs)" by (cases nt)
  show ?thesis
  proof (cases "sd_name s = [] \<or> offs (sd_name s) \<noteq> None")
    case False
    then have new: "add_name s nt = (tab @ utf8_bytes (sd_name s) @ [0], offs(sd_name s \<mapsto> of_nat (length tab)))"
      by (simp add: add_name_def)
    show ?thesis
      unfolding names_in_def new prod.case
    proof (intro impI allI)
      fix name off
      assume len: "length (tab @ utf8_bytes (sd_name s) @ [0]) < 2 ^ 32"
        and off: "(offs(sd_name s \<mapsto> of_nat (length tab))) name = Some off"
      then have t: "unat (of_nat (length tab) :: u32) = length tab" by (simp add: unat_of_nat take_bit_nat_eq_self)
      show "string_in (tab @ utf8_bytes (sd_name s) @ [0]) (unat off) name"
      proof (cases "name = sd_name s")
        case True
        with off have o: "unat off = length tab" using t by auto
        show ?thesis unfolding True o by (rule string_in_end)
      next
        case False
        with off nt len show ?thesis by (auto simp: names_in_def intro: string_in_append)
      qed
    qed
  qed (use nt in \<open>simp add: add_name_def\<close>)
qed

lemma add_name_dom: "dom (snd nt) \<subseteq> dom (snd (add_name s nt))" "sd_name s = [] \<or> snd (add_name s nt) (sd_name s) \<noteq> None"
  by (cases nt; auto simp: add_name_def)+

lemma section_names_fold:
  assumes "names_in nt"
  shows "names_in (fold add_name secs nt) \<and> dom (snd nt) \<subseteq> dom (snd (fold add_name secs nt)) \<and>
    (\<forall>s\<in>set secs. sd_name s = [] \<or> snd (fold add_name secs nt) (sd_name s) \<noteq> None)"
  using assms
proof (induction secs arbitrary: nt)
  case (Cons s secs)
  from Cons.IH [OF add_name_in [OF Cons.prems, of s]] add_name_dom(1) [of nt s] add_name_dom(2) [of s nt]
  show ?case by (auto simp: subset_iff domIff)
qed simp

lemma section_name:
  assumes "length (fst (section_names secs)) < 2 ^ 32" and "s \<in> set secs"
  shows "string_in (fst (section_names secs))
    (unat (if sd_name s = [] then 0 else case snd (section_names secs) (sd_name s) of Some n \<Rightarrow> n | None \<Rightarrow> 0))
    (sd_name s)"
proof -
  have "names_in ([0], [[] \<mapsto> 0])" by (simp add: names_in_def string_in_def)
  from section_names_fold [OF this, of secs] have
    ok: "names_in (section_names secs)" and dom: "snd (section_names secs) [] \<noteq> None"
      "sd_name s = [] \<or> snd (section_names secs) (sd_name s) \<noteq> None"
    using assms(2) by (auto simp: section_names_def)
  have first: "fold add_name secs (tab, offs) = (tab', offs') \<Longrightarrow> offs [] = Some 0 \<Longrightarrow> offs' [] = Some 0" for tab offs tab' offs'
    by (induction secs arbitrary: tab offs) (auto simp: add_name_def split: if_splits)
  obtain tab offs where "section_names secs = (tab, offs)" by (cases "section_names secs")
  with first [of "[0]" "[[] \<mapsto> 0]" tab offs] have "snd (section_names secs) [] = Some 0"
    by (simp add: section_names_def)
  with dom have "snd (section_names secs) (sd_name s) =
      Some (if sd_name s = [] then 0 else case snd (section_names secs) (sd_name s) of Some n \<Rightarrow> n | None \<Rightarrow> 0)"
    by auto
  with ok assms(1) show ?thesis by (cases "section_names secs") (simp add: names_in_def)
qed

section \<open>The table behind the file\<close>

definition align_pad :: "nat \<Rightarrow> nat \<Rightarrow> nat" where
  "align_pad n align = (if n mod align \<noteq> 0 then align - n mod align else 0)"

lemma align_to_pad: "align_to buf align = buf @ replicate (align_pad (length buf) align) 0"
  by (simp add: align_to_def align_pad_def Let_def)

text \<open>A section with a payload got an offset at which the payload lies.\<close>

definition placed_in :: "nat \<Rightarrow> u8 list \<Rightarrow> sec_desc \<Rightarrow> sec_desc \<Rightarrow> bool" where
  "placed_in base final s s' \<longleftrightarrow>
     (case sd_file_data s of None \<Rightarrow> s' = s
      | Some payload \<Rightarrow> \<exists>off. s' = s\<lparr>sd_file_off := of_nat off\<rparr> \<and> take (length payload) (drop off final) = payload \<and>
          base \<le> off \<and> off + length payload \<le> length final)"

lemma placed_in_base: "placed_in base final s s' \<Longrightarrow> base' \<le> base \<Longrightarrow> placed_in base' final s s'"
  by (auto simp: placed_in_def split: option.splits)

lemma placed_in_append: "placed_in base final s s' \<Longrightarrow> placed_in base (final @ extra) s s'"
proof (cases "sd_file_data s")
  case (Some payload)
  assume "placed_in base final s s'"
  then obtain off where "s' = s\<lparr>sd_file_off := of_nat off\<rparr>" "take (length payload) (drop off final) = payload"
    "base \<le> off" "off + length payload \<le> length final" by (auto simp: placed_in_def Some)
  then show ?thesis unfolding placed_in_def Some option.case by (intro exI [of _ off]) simp
qed (simp add: placed_in_def)

lemma place_payloads_placed:
  "place_payloads data secs = (final, secs') \<Longrightarrow>
     (\<exists>extra. final = data @ extra) \<and> list_all2 (placed_in (length data) final) secs secs'"
proof (induction data secs arbitrary: final secs' rule: place_payloads.induct)
  case (2 data s secs)
  show ?case
  proof (cases "sd_file_data s")
    case None
    with 2 show ?thesis by (auto simp: placed_in_def split: prod.splits)
  next
    case (Some payload)
    define start where "start = (if 1 < sd_align s then align_to data (unat (sd_align s)) else data)"
    obtain final1 secs1 where rest: "place_payloads (start @ payload) secs = (final1, secs1)"
      by (cases "place_payloads (start @ payload) secs")
    with "2.prems" Some have r: "final = final1" "secs' = s\<lparr>sd_file_off := of_nat (length start)\<rparr> # secs1"
      by (simp_all add: start_def [symmetric] Let_def)
    from "2.IH"(2) [OF Some refl] rest have ih: "\<exists>extra. final1 = (start @ payload) @ extra"
      "list_all2 (placed_in (length (start @ payload)) final1) secs secs1"
      by (auto simp: start_def [symmetric])
    obtain extra where e: "final1 = (start @ payload) @ extra" using ih(1) by blast
    have start: "\<exists>e. start = data @ e" by (auto simp: start_def align_to_pad)
    then have le: "length data \<le> length start" by auto
    have "placed_in (length data) final s (s\<lparr>sd_file_off := of_nat (length start)\<rparr>)"
      unfolding placed_in_def Some option.case r(1) e using le by (intro exI [of _ "length start"]) simp
    moreover have "list_all2 (placed_in (length data) final1) secs secs1"
      using ih(2) by (rule list_all2_mono) (use le in \<open>auto elim!: placed_in_base\<close>)
    ultimately show ?thesis using start e r by auto
  qed
qed simp

lemma drop_concat_map:
  assumes "\<And>x. x \<in> set xs \<Longrightarrow> length (f x) = n" and "i < length xs"
  shows "\<exists>rest. drop (i * n) (concat (map f xs)) = f (xs ! i) @ rest"
  using assms
proof (induction xs arbitrary: i)
  case (Cons x xs)
  show ?case
  proof (cases i)
    case (Suc j)
    have "drop (Suc j * n) (concat (map f (x # xs))) = drop (j * n) (concat (map f xs))"
      using Cons.prems(1) by simp
    with Cons.IH [of j] Cons.prems Suc show ?thesis by auto
  qed auto
qed simp

lemma length_concat_map:
  "(\<And>x. x \<in> set xs \<Longrightarrow> length (f x) = n) \<Longrightarrow> length (concat (map f xs)) = length xs * n"
  by (induction xs) auto

lemma length_section_header [simp]: "length (section_header l names idx str_off s) = shdr_size l"
  by (simp add: section_header_def Let_def split: prod.split)

text \<open>What a reader finds of a section.\<close>

definition section_reads ::
  "elf_layout \<Rightarrow> (rust_string \<Rightarrow> u32 option) \<Rightarrow> u8 list \<Rightarrow> nat \<Rightarrow> sec_desc \<Rightarrow> section_hdr \<Rightarrow> bool" where
  "section_reads l idx out names_off s h \<longleftrightarrow>
     string_in out (names_off + unat (sh_name h)) (sd_name s) \<and>
     sh_type h = sd_typ s \<and> sh_flags h = fits l (sd_flags s) \<and>
     sh_addralign h = fits l (sd_align s) \<and> sh_entsize h = fits l (sd_entsize s) \<and>
     sh_link h = (if sd_link_name s = [] then 0 else case idx (sd_link_name s) of Some i \<Rightarrow> i | None \<Rightarrow> 0) \<and>
     sh_info h = (if sd_info_name s = [] then sd_info s
       else case idx (sd_info_name s) of Some i \<Rightarrow> i | None \<Rightarrow> 0) \<and>
     (if sd_name s = [] \<or> sd_name s = str_lit ''.shstrtab'' then True
      else case sd_file_data s of
        None \<Rightarrow> sh_addr h = fits l (sd_addr s) \<and> sh_offset h = fits l (sd_addr s) \<and> sh_size h = fits l (sd_size s)
      | Some payload \<Rightarrow> sh_addr h = 0 \<and> unat (sh_size h) = length payload \<and>
          take (length payload) (drop (unat (sh_offset h)) out) = payload)"

lemma fits_small: "n < 2 ^ 32 \<Longrightarrow> unat (fits l (of_nat n)) = n"
proof -
  assume n: "n < 2 ^ 32"
  then have "unat (of_nat n :: u64) = n" by (simp add: unat_of_nat take_bit_nat_eq_self)
  moreover have "unat (ucast (ucast (of_nat n :: u64) :: u32) :: u64) = n"
    using n by (simp add: unsigned_ucast_eq unsigned_take_bit_eq unat_of_nat take_bit_nat_eq_self)
  ultimately show ?thesis by (simp add: fits_def)
qed

lemma fits_0 [simp]: "fits l 0 = 0"
  by (simp add: fits_def)

lemma placed_fields:
  "placed_in base final s s' \<Longrightarrow> sd_name s' = sd_name s \<and> sd_typ s' = sd_typ s \<and> sd_flags s' = sd_flags s \<and>
     sd_addr s' = sd_addr s \<and> sd_size s' = sd_size s \<and> sd_link_name s' = sd_link_name s \<and>
     sd_info_name s' = sd_info_name s \<and> sd_info s' = sd_info s \<and> sd_align s' = sd_align s \<and>
     sd_entsize s' = sd_entsize s \<and> sd_file_data s' = sd_file_data s"
  by (auto simp: placed_in_def split: option.splits)

text \<open>The table is written behind everything it section_reads.\<close>

lemma emit_sections_reads:
  assumes run: "emit_sections l ix secs data = Inr out" and small: "length out < 2 ^ 32"
    and count: "length secs < 2 ^ 16" "ix < length secs" and ehdr: "ehdr_size l \<le> length data"
    and strtab: "secs ! ix = shstrtab_sec"
  shows "e_shoff l out + e_shnum l out * e_shentsize l out = length out"
    and "e_shnum l out = length secs" and "e_shentsize l out = shdr_size l" and "e_shstrndx l out = ix"
    and "same_outside (\<lambda>i. i < ehdr_size l) data (take (length data) out)"
    and "i < length secs \<Longrightarrow> section_reads l (index_of_name 0 secs (\<lambda>_. None)) out
      (unat (sh_offset (section_table l out ! ix))) (secs ! i) (section_table l out ! i)"
proof -
  let ?names = "section_names secs" and ?idx = "index_of_name 0 secs (\<lambda>_. None)"
  obtain final secs' where place: "place_payloads data secs = (final, secs')"
    by (cases "place_payloads data secs")
  note placed = place_payloads_placed [OF place]
  obtain extra where final: "final = data @ extra" using placed(1) by blast
  let ?names_off = "of_nat (length final) :: u64"
  define body where "body = align_to (final @ fst ?names) (unat (elf_word l))"
  let ?hdr = "section_header l ?names ?idx ?names_off"
  define whole where "whole = body @ concat (map ?hdr secs')"
  obtain pad where body: "body = final @ fst ?names @ pad" by (auto simp: body_def align_to_pad)
  have len': "length secs' = length secs" using placed by (auto dest: list_all2_lengthD)
  have table_len: "length (concat (map ?hdr secs')) = length secs * shdr_size l"
    by (subst length_concat_map [of _ _ "shdr_size l"]) (simp_all add: len')
  have "ehdr_size l \<le> length whole" using ehdr by (simp add: whole_def body final)
  from patch_header_reads [OF this, of "of_nat (length body)" "length secs" ix] run
  have out: "length out = length whole" "drop (ehdr_size l) out = drop (ehdr_size l) whole"
    "addr_at l out 40 32 = fits l (of_nat (length body))" "le_at out (pick l 58 46) 2 = (of_nat (shdr_size l) :: u16)"
    "le_at out (pick l 60 48) 2 = (of_nat (length secs) :: u16)" "le_at out (pick l 62 50) 2 = (of_nat ix :: u16)"
    "same_outside (\<lambda>i. i < ehdr_size l) whole out"
    by (auto simp: emit_sections_def place whole_def body_def Let_def len')
  have small': "length body < 2 ^ 32" "length final < 2 ^ 32" "length (fst ?names) < 2 ^ 32"
    using small out(1) by (simp_all add: whole_def body)
  have u16: "unat (of_nat k :: u16) = k" if "k < 2 ^ 16" for k
    using that by (simp add: unat_of_nat take_bit_nat_eq_self)
  show num: "e_shnum l out = length secs" using out(5) count(1) u16 by (simp add: e_shnum_def)
  show ent: "e_shentsize l out = shdr_size l"
    using out(4) u16 [of "shdr_size l"] by (simp add: e_shentsize_def shdr_size_def pick_def)
  show ndx: "e_shstrndx l out = ix" using out(6) count u16 [of ix] by (simp add: e_shstrndx_def)
  have shoff: "e_shoff l out = length body" using out(3) small'(1) by (simp add: e_shoff_def fits_small)
  show "e_shoff l out + e_shnum l out * e_shentsize l out = length out"
    unfolding shoff num ent out(1) whole_def using table_len by simp
  show "same_outside (\<lambda>i. i < ehdr_size l) data (take (length data) out)"
    using out(7) unfolding whole_def body final append.assoc by (rule same_outside_take)
  have behind: "drop k out = drop k whole" if "ehdr_size l \<le> k" for k
  proof -
    have "drop (k - ehdr_size l) (drop (ehdr_size l) out) = drop (k - ehdr_size l) (drop (ehdr_size l) whole)"
      using out(2) by simp
    with that show ?thesis by simp
  qed
  have hdr: "section_table l out ! j = read_shdr l (?hdr (secs' ! j) @ rest)"
    if "j < length secs" "drop (j * shdr_size l) (concat (map ?hdr secs')) = ?hdr (secs' ! j) @ rest" for j rest
  proof -
    have "ehdr_size l \<le> length body + j * shdr_size l" using ehdr by (simp add: body final)
    from behind [OF this] that show ?thesis
      by (simp add: section_table_def num ent shoff whole_def)
  qed
  have table: "\<exists>rest. section_table l out ! j = read_shdr l (?hdr (secs' ! j) @ rest)" if "j < length secs" for j
  proof -
    have "j < length secs'" using that len' by simp
    from drop_concat_map [of secs' ?hdr "shdr_size l", OF _ this] obtain rest where
      "drop (j * shdr_size l) (concat (map ?hdr secs')) = ?hdr (secs' ! j) @ rest" by auto
    from hdr [OF that this] show ?thesis by blast
  qed
  have nth: "placed_in (length data) final (secs ! j) (secs' ! j)" if "j < length secs" for j
    using placed that by (auto simp: list_all2_conv_all_nth)
  have names_off: "unat (sh_offset (section_table l out ! ix)) = length final"
  proof -
    obtain rest where t: "section_table l out ! ix = read_shdr l (?hdr (secs' ! ix) @ rest)"
      using table count(2) by blast
    have "sd_name (secs' ! ix) = str_lit ''.shstrtab''"
      using placed_fields [OF nth [OF count(2)]] by (simp add: strtab shstrtab_sec_def del: str_lit_simps)
    moreover have "str_lit ''.shstrtab'' \<noteq> []" by simp
    ultimately show ?thesis
      unfolding t section_header_def using small'(2)
      by (simp add: read_put_shdr fits_small del: str_lit_simps)
  qed
  show "section_reads l ?idx out (unat (sh_offset (section_table l out ! ix))) (secs ! i) (section_table l out ! i)"
    if i: "i < length secs"
  proof -
    let ?s = "secs ! i"
    obtain rest where t: "section_table l out ! i = read_shdr l (?hdr (secs' ! i) @ rest)"
      using table i by blast
    note f = placed_fields [OF nth [OF i]]
    let ?n = "if sd_name ?s = [] then 0 else case snd ?names (sd_name ?s) of Some n \<Rightarrow> n | None \<Rightarrow> 0"
    have "string_in (fst ?names) (unat ?n) (sd_name ?s)"
      using section_name [OF small'(3)] i by simp
    then have "string_in whole (length final + unat ?n) (sd_name ?s)"
      unfolding whole_def body append.assoc by (intro string_in_behind string_in_append)
    then have name: "string_in out (length final + unat ?n) (sd_name ?s)"
      unfolding string_in_def using behind [of "length final + unat ?n"] ehdr by (simp add: final)
    have payload: "unat (fits l (of_nat (length p))) = length p \<and>
        take (length p) (drop (unat (fits l (sd_file_off (secs' ! i)))) out) = p"
      if p: "sd_file_data ?s = Some p" for p
    proof -
      obtain off where off: "sd_file_off (secs' ! i) = of_nat off" "take (length p) (drop off final) = p"
        "length data \<le> off" "off + length p \<le> length final"
        using nth [OF i] by (auto simp: placed_in_def p)
      have "take (length p) (drop off whole) = p"
        using off(2,4) by (simp add: whole_def body)
      moreover have "drop off out = drop off whole" using behind [of off] ehdr off(3) by simp
      ultimately show ?thesis using off small'(2) by (simp add: fits_small)
    qed
    show ?thesis
      unfolding section_reads_def t names_off section_header_def
      using name payload f by (auto simp: read_put_shdr simp del: str_lit_simps split: option.split)
  qed
qed

section \<open>Sections in address order\<close>

definition resized :: "u64 \<Rightarrow> sec_desc \<Rightarrow> sec_desc \<Rightarrow> bool" where
  "resized next_addr s s' \<longleftrightarrow> (\<exists>z. s' = s\<lparr>sd_size := z\<rparr> \<and>
     (sd_addr s < next_addr \<longrightarrow> unat (sd_addr s) + unat z \<le> unat next_addr))"

lemma size_pass_resized:
  "length (size_pass mv lf secs) = length secs \<and>
   (\<forall>i<length secs. resized (if Suc i < length secs then sd_addr (secs ! Suc i)
       else if sd_typ (secs ! i) = SHT_NOBITS then mv else lf) (secs ! i) (size_pass mv lf secs ! i))"
proof (induction mv lf secs rule: size_pass.induct)
  case (2 mv lf s rest)
  define nx where "nx = (case rest of n # _ \<Rightarrow> sd_addr n | [] \<Rightarrow> if sd_typ s = SHT_NOBITS then mv else lf)"
  define s' where "s' = (if nx \<le> sd_addr s then s
      else if \<not> sd_has_size s \<or> nx - sd_addr s < sd_size s then s\<lparr>sd_size := nx - sd_addr s\<rparr> else s)"
  have split: "size_pass mv lf (s # rest) = s' # size_pass mv lf rest"
    by (simp add: s'_def nx_def Let_def)
  have gap: "unat (sd_addr s) + unat (nx - sd_addr s) = unat nx" if "sd_addr s < nx"
    using that by (simp add: unat_sub word_le_nat_alt word_less_nat_alt)
  have "resized nx s s'"
  proof (cases "sd_addr s < nx \<and> (\<not> sd_has_size s \<or> nx - sd_addr s < sd_size s)")
    case True
    then show ?thesis using gap
      by (auto simp: resized_def s'_def intro!: exI [of _ "nx - sd_addr s"])
  next
    case False
    then have "s' = s" by (auto simp: s'_def not_le)
    moreover have "unat (sd_addr s) + unat (sd_size s) \<le> unat nx" if "sd_addr s < nx"
    proof -
      have "unat (sd_size s) \<le> unat (nx - sd_addr s)" using False that by (auto simp: word_less_nat_alt)
      with gap [OF that] show ?thesis by simp
    qed
    ultimately show ?thesis by (auto simp: resized_def intro!: exI [of _ "sd_size s"])
  qed
  moreover have "nx = (if Suc 0 < length (s # rest) then sd_addr ((s # rest) ! Suc 0)
      else if sd_typ s = SHT_NOBITS then mv else lf)" by (cases rest) (simp_all add: nx_def)
  ultimately show ?case
    using 2 [OF refl refl] unfolding split by (auto simp: less_Suc_eq_0_disj nth_Cons' split: if_splits)
qed simp

lemma resized_addr: "resized nx s s' \<Longrightarrow> sd_addr s' = sd_addr s"
  by (auto simp: resized_def)

text \<open>The allocatable sections behind the null section.\<close>

definition in_order :: "sec_desc list \<Rightarrow> bool" where
  "in_order secs \<longleftrightarrow> sorted (map sd_addr secs) \<and>
     (\<forall>i j. i < j \<and> j < length secs \<and> sd_addr (secs ! i) < sd_addr (secs ! Suc i) \<longrightarrow>
        unat (sd_addr (secs ! i)) + unat (sd_size (secs ! i)) \<le> unat (sd_addr (secs ! j)))"

lemma size_pass_neighbours:
  assumes "sorted (map sd_addr secs)"
  shows "\<forall>i. Suc i < length (size_pass mv lf secs) \<longrightarrow>
     sd_addr (size_pass mv lf secs ! i) \<le> sd_addr (size_pass mv lf secs ! Suc i) \<and>
     (sd_addr (size_pass mv lf secs ! i) < sd_addr (size_pass mv lf secs ! Suc i) \<longrightarrow>
        unat (sd_addr (size_pass mv lf secs ! i)) + unat (sd_size (size_pass mv lf secs ! i)) \<le>
          unat (sd_addr (size_pass mv lf secs ! Suc i)))"
proof (intro allI impI)
  fix i assume i: "Suc i < length (size_pass mv lf secs)"
  note r = size_pass_resized [of mv lf secs]
  have len: "Suc i < length secs" using i r by simp
  have all: "\<exists>nx. resized nx (secs ! j) (size_pass mv lf secs ! j) \<and> (Suc j < length secs \<longrightarrow> nx = sd_addr (secs ! Suc j))"
    if "j < length secs" for j
    using r that by auto
  have i': "resized (sd_addr (secs ! Suc i)) (secs ! i) (size_pass mv lf secs ! i)"
    using all [of i] len by auto
  have "\<exists>nx. resized nx (secs ! Suc i) (size_pass mv lf secs ! Suc i)" using all [OF len] by blast
  with i' have addr: "sd_addr (size_pass mv lf secs ! i) = sd_addr (secs ! i)"
    "sd_addr (size_pass mv lf secs ! Suc i) = sd_addr (secs ! Suc i)" by (auto dest: resized_addr)
  have "sd_addr (secs ! i) \<le> sd_addr (secs ! Suc i)"
    using sorted_nth_mono [OF assms, of i "Suc i"] len by simp
  with i' show "sd_addr (size_pass mv lf secs ! i) \<le> sd_addr (size_pass mv lf secs ! Suc i) \<and>
      (sd_addr (size_pass mv lf secs ! i) < sd_addr (size_pass mv lf secs ! Suc i) \<longrightarrow>
       unat (sd_addr (size_pass mv lf secs ! i)) + unat (sd_size (size_pass mv lf secs ! i))
         \<le> unat (sd_addr (size_pass mv lf secs ! Suc i)))"
    unfolding addr by (auto simp: resized_def)
qed

lemma size_pass_in_order:
  assumes "sorted (map sd_addr secs)" shows "in_order (size_pass mv lf secs)"
proof -
  let ?ss = "size_pass mv lf secs"
  note next_sec = size_pass_neighbours [OF assms, of mv lf, rule_format]
  have sorted: "sorted (map sd_addr ?ss)"
    using next_sec by (simp add: sorted_iff_nth_Suc)
  have "unat (sd_addr (?ss ! i)) + unat (sd_size (?ss ! i)) \<le> unat (sd_addr (?ss ! j))"
    if "i < j" "j < length ?ss" "sd_addr (?ss ! i) < sd_addr (?ss ! Suc i)" for i j
  proof -
    have "sd_addr (?ss ! Suc i) \<le> sd_addr (?ss ! j)"
      using sorted_nth_mono [OF sorted, of "Suc i" j] that by simp
    with next_sec [of i] that show ?thesis by (simp add: word_le_nat_alt)
  qed
  with sorted show ?thesis by (auto simp: in_order_def)
qed

text \<open>Sections at one address are not kept apart: the earlier one keeps its size.\<close>

lemma size_pass_same_address:
  "sd_addr t = sd_addr s \<Longrightarrow> size_pass mv lf (s # t # rest) = s # size_pass mv lf (t # rest)"
  by simp

lemma length_at_tag: "length (at_tag get tag f) = (if get tag = None then 0 else 1)"
  by (simp add: at_tag_def split: option.split)

lemma length_sec_groups:
  "length (hash_secs l get) \<le> 2" "length (symbol_secs l get n k) \<le> 5" "length (reloc_secs l get) \<le> 6"
  "length (code_secs l get) \<le> 4" "length (data_secs l get a z mv lf) \<le> 6"
  by (simp_all add: hash_secs_def symbol_secs_def reloc_secs_def code_secs_def data_secs_def length_at_tag)

lemma alloc_secs_facts:
  fixes l get n k a z mv lf
  defines "secs \<equiv> alloc_secs l get n k a z mv lf"
  shows "length secs \<le> 24" and "hd secs = default_sec" and "in_order (tl secs)" and "secs \<noteq> []"
proof -
  let ?body = "sort_key sd_addr (hash_secs l get @ symbol_secs l get n k @ reloc_secs l get @ code_secs l get @
    data_secs l get a z mv lf)"
  have secs: "secs = default_sec # size_pass mv lf ?body" by (simp add: secs_def alloc_secs_def)
  show "length secs \<le> 24"
    using length_sec_groups(1) [of l get] length_sec_groups(2) [of l get n k] length_sec_groups(3) [of l get]
      length_sec_groups(4) [of l get] length_sec_groups(5) [of l get a z mv lf]
    by (simp add: secs size_pass_resized)
  show "hd secs = default_sec" "secs \<noteq> []" by (simp_all add: secs)
  show "in_order (tl secs)" by (simp add: secs size_pass_in_order)
qed

section \<open>Injected symbols\<close>

text \<open>Each symbol has its entry behind those before it, and its name in the string table.\<close>

definition symbol_at ::
  "elf_layout \<Rightarrow> sec_desc list \<Rightarrow> u8 list \<Rightarrow> u8 list \<Rightarrow> nat \<Rightarrow> injected_sym \<Rightarrow> bool" where
  "symbol_at l secs strtab symtab i s \<longleftrightarrow> (\<exists>name_off.
     string_in strtab name_off (is_name s) \<and>
     take (sym_size l) (drop (i * sym_size l) symtab) =
       put_sym l (of_nat name_off) (is_value s) 0 0x12 0 (section_index_of (is_value s) secs))"

lemma symbol_at_append: "symbol_at l secs strtab symtab i s \<Longrightarrow> symbol_at l secs (strtab @ a) (symtab @ b) i s"
proof -
  assume "symbol_at l secs strtab symtab i s"
  then obtain name_off where n: "string_in strtab name_off (is_name s)"
    and e: "take (sym_size l) (drop (i * sym_size l) symtab) =
       put_sym l (of_nat name_off) (is_value s) 0 0x12 0 (section_index_of (is_value s) secs)"
    by (auto simp: symbol_at_def)
  have "length (take (sym_size l) (drop (i * sym_size l) symtab)) = sym_size l" unfolding e by simp
  then have "take (sym_size l) (drop (i * sym_size l) (symtab @ b)) = take (sym_size l) (drop (i * sym_size l) symtab)"
    by simp
  with n e show ?thesis unfolding symbol_at_def by (metis string_in_append)
qed

lemma inject_loop_symbols:
  assumes "length symtab = k * sym_size l"
  shows "inject_loop l secs ss (strtab, symtab) = (strtab', symtab') \<Longrightarrow>
    (\<exists>a. strtab' = strtab @ a) \<and> (\<exists>b. symtab' = symtab @ b) \<and>
    length symtab' = (k + length ss) * sym_size l \<and>
    (\<forall>i<length ss. symbol_at l secs strtab' symtab' (k + i) (ss ! i))"
  using assms
proof (induction ss arbitrary: strtab symtab k)
  case (Cons s ss)
  let ?str = "strtab @ utf8_bytes (is_name s) @ [0]"
  let ?sym = "symtab @ put_sym l (of_nat (length strtab)) (is_value s) 0 0x12 0 (section_index_of (is_value s) secs)"
  have "length ?sym = Suc k * sym_size l" using Cons.prems(2) by simp
  from Cons.IH [OF _ this, of ?str] Cons.prems(1) have ih: "\<exists>a. strtab' = ?str @ a" "\<exists>b. symtab' = ?sym @ b"
    "length symtab' = (Suc k + length ss) * sym_size l"
    "\<forall>i<length ss. symbol_at l secs strtab' symtab' (Suc k + i) (ss ! i)"
    by simp_all
  have "symbol_at l secs ?str ?sym k s"
    unfolding symbol_at_def using Cons.prems(2) string_in_end
    by (intro exI [of _ "length strtab"]) simp
  with ih(1,2) have "symbol_at l secs strtab' symtab' k s" by (auto dest: symbol_at_append)
  with ih show ?case by (auto simp: nth_Cons' less_Suc_eq_0_disj)
qed simp

section \<open>The rebuilt library\<close>

lemma rd_Inr:
  "rd_u16 b off = Inr v \<Longrightarrow> off + 2 \<le> length b" "rd_u32 b off = Inr w \<Longrightarrow> off + 4 \<le> length b"
  "rd_u64 b off = Inr x \<Longrightarrow> off + 8 \<le> length b"
  by (simp_all add: rd_u16_def rd_u32_def rd_u64_def split: if_splits)

lemma if_Inl: "(if c then Inl e else x) = Inr y \<longleftrightarrow> \<not> c \<and> x = Inr y"
  by simp

lemma elf_header_Inr:
  "elf_header data = Inr (l, po, es, n) \<Longrightarrow>
     ehdr_size l \<le> length data \<and> l = \<lparr>is64 = (data ! 4 = 2)\<rparr> \<and> 0 < n \<and> po \<noteq> 0 \<and>
     phoff l data = Inr po \<and> phnum l data = Inr n"
proof -
  assume run: "elf_header data = Inr (l, po, es, n)"
  let ?l = "\<lparr>is64 = (data ! 4 = 2)\<rparr>"
  note r = run [unfolded elf_header_def Let_def if_Inl]
  have "ehdr_size ?l \<le> length data" using r by (elim conjE) (simp only: not_less)
  moreover have "and_then (phoff ?l data) (\<lambda>po. and_then (phentsize ?l data) (\<lambda>es.
      and_then (phnum ?l data) (\<lambda>n. if po = 0 \<or> n = 0 then Inl (Bail ''no program headers'')
        else Inr (?l, po, if es = 0 then phdr_size ?l else es, n)))) = Inr (l, po, es, n)"
    using r by (elim conjE) assumption
  ultimately obtain po' es' n' where "phoff ?l data = Inr po'" "phnum ?l data = Inr n'" "ehdr_size ?l \<le> length data"
    and "(if po' = 0 \<or> n' = 0 then Inl (Bail ''no program headers'')
        else Inr (?l, po', if es' = 0 then phdr_size ?l else es', n')) = Inr (l, po, es, n)"
    unfolding and_then_Inr by blast
  then show ?thesis by (simp split: if_split_asm)
qed

text \<open>The parts of a successful rebuild.\<close>

lemma rebuild_Inr:
  assumes "rebuild_so_sections img injected = Inr out"
  obtains l po es n loads da ds data get k locals where
    "elf_header img = Inr (l, po, es, n)" "phdr_loop l po es 0 n (img, [], 0, 0) = Inr (data, loads, da, ds)"
    "dyn_loop l data (unat (da + ds)) (unat da) (\<lambda>_. None) = Inr get" "dynamic_symcount l data get = Inr k"
    "finish_sections l injected get k locals da ds loads data = Inr out"
proof -
  obtain l po es n where hd: "elf_header img = Inr (l, po, es, n)"
    using assms by (cases "elf_header img") (auto simp: rebuild_so_sections_def)
  obtain data loads da ds where loop: "phdr_loop l po es 0 n (img, [], 0, 0) = Inr (data, loads, da, ds)"
    using assms by (cases "phdr_loop l po es 0 n (img, [], 0, 0)") (auto simp: rebuild_so_sections_def hd)
  have rest: "(if da = 0 then Inl (Bail ''no PT_DYNAMIC segment; cannot rebuild sections'')
       else if loads = [] then Inl (Bail ''no PT_LOAD segments'')
       else
         and_then (dyn_loop l data (unat (da + ds)) (unat da) (\<lambda>_. None)) (\<lambda>get.
         and_then (dynamic_symcount l data get) (\<lambda>symcount.
         and_then (case get DT_SYMTAB of None \<Rightarrow> Inr 0
                   | Some symtab \<Rightarrow> count_local_syms l data (unat symtab) symcount) (\<lambda>locals.
           finish_sections l injected get symcount locals da ds loads data)))) = Inr out"
    using assms by (simp only: rebuild_so_sections_def hd loop and_then_simps prod.case)
  have "da \<noteq> 0" "loads \<noteq> []" using rest by (auto split: if_splits)
  with rest have "and_then (dyn_loop l data (unat (da + ds)) (unat da) (\<lambda>_. None)) (\<lambda>get.
      and_then (dynamic_symcount l data get) (\<lambda>symcount.
      and_then (case get DT_SYMTAB of None \<Rightarrow> Inr 0
                | Some symtab \<Rightarrow> count_local_syms l data (unat symtab) symcount) (\<lambda>locals.
        finish_sections l injected get symcount locals da ds loads data))) = Inr out" by simp
  then obtain get k locals where "dyn_loop l data (unat (da + ds)) (unat da) (\<lambda>_. None) = Inr get"
    "dynamic_symcount l data get = Inr k" "finish_sections l injected get k locals da ds loads data = Inr out"
    unfolding and_then_Inr by blast
  with that hd loop show ?thesis by blast
qed

text \<open>The image behind the headers, and the sections a reader finds.\<close>

definition header_bytes :: "elf_layout \<Rightarrow> u64 \<Rightarrow> nat \<Rightarrow> nat \<Rightarrow> dyn_map \<Rightarrow> nat \<Rightarrow> nat \<Rightarrow> bool" where
  "header_bytes l po es n get k i \<longleftrightarrow> i < ehdr_size l \<or> in_phdrs l po es n i \<or>
     (\<exists>symtab. get DT_SYMTAB = Some symtab \<and> in_symbols l (unat symtab) k i)"

definition all_sections :: "elf_layout \<Rightarrow> sec_desc list \<Rightarrow> injected_sym list \<Rightarrow> sec_desc list" where
  "all_sections l secs injected = secs @ injected_secs l secs injected @ [shstrtab_sec]"

lemma length_injected: "length (injected_secs l secs injected) \<le> 2"
  by (simp add: injected_secs_def split: prod.split)

lemma finish_sections_reads:
  assumes run: "finish_sections l injected get k locals da ds loads data = Inr out"
    and ehdr: "ehdr_size l \<le> length data" and small: "length out < 2 ^ 32"
  obtains secs where
    "secs = alloc_secs l get k locals da ds (fst (load_bounds loads)) (snd (load_bounds loads))"
    "e_shoff l out + e_shnum l out * e_shentsize l out = length out"
    "e_shnum l out = length (all_sections l secs injected)" "e_shentsize l out = shdr_size l"
    "e_shstrndx l out = length secs + length (injected_secs l secs injected)"
    "\<And>i. i < length (all_sections l secs injected) \<Longrightarrow>
      section_reads l (index_of_name 0 (all_sections l secs injected) (\<lambda>_. None)) out
        (unat (sh_offset (section_table l out ! e_shstrndx l out)))
        (all_sections l secs injected ! i) (section_table l out ! i)"
    "same_outside (header_bytes l po es n get k) data (take (length data) out)"
proof -
  define secs where "secs = alloc_secs l get k locals da ds (fst (load_bounds loads)) (snd (load_bounds loads))"
  let ?all = "all_sections l secs injected" and ?ix = "length secs + length (injected_secs l secs injected)"
  have "and_then (case get DT_SYMTAB of Some symtab \<Rightarrow>
        if 0 < k then remap_sym_shndx l (unat symtab) ?all 0 k data else Inr data
      | None \<Rightarrow> Inr data) (emit_sections l ?ix ?all) = Inr out"
    using run
    unfolding finish_sections_def Let_def secs_def [symmetric] all_sections_def append_assoc length_append .
  then obtain data' where
    remap: "(case get DT_SYMTAB of Some symtab \<Rightarrow>
        if 0 < k then remap_sym_shndx l (unat symtab) ?all 0 k data else Inr data
      | None \<Rightarrow> Inr data) = Inr data'"
    and emit: "emit_sections l ?ix ?all data' = Inr out"
    unfolding and_then_Inr by blast
  have changed: "same_outside (header_bytes l po es n get k) data data'"
  proof (cases "get DT_SYMTAB")
    case (Some symtab)
    have "same_outside (in_symbols l (unat symtab) k) data data'"
      using remap Some remap_outside [of l "unat symtab" ?all 0 k data data'] by (auto split: if_splits)
    then show ?thesis by (rule same_outside_mono) (auto simp: header_bytes_def Some)
  qed (use remap in simp)
  then have len: "length data' = length data" by (simp add: same_outside_def)
  have cnt: "length ?all < 2 ^ 16"
    using alloc_secs_facts(1) [of l get k locals da ds "fst (load_bounds loads)" "snd (load_bounds loads)"]
      length_injected [of l secs injected] by (simp add: all_sections_def secs_def)
  have ix: "?ix < length ?all" "?all ! ?ix = shstrtab_sec"
    by (simp_all add: all_sections_def nth_append)
  have "ehdr_size l \<le> length data'" using ehdr len by simp
  note reads = emit_sections_reads [OF emit small cnt ix(1) this ix(2)]
  have "same_outside (header_bytes l po es n get k) data' (take (length data') out)"
    using reads(5) by (rule same_outside_mono) (simp add: header_bytes_def)
  with changed have "same_outside (header_bytes l po es n get k) data (take (length data) out)"
    unfolding len by (rule same_outside_trans)
  with reads show ?thesis
    by (intro that [OF secs_def reads(1,2,3,4)]) (simp_all only: reads(4))
qed

text \<open>A file with all of this: the section table is read back, the image is kept.\<close>

lemma rebuild_reads:
  assumes run: "rebuild_so_sections img injected = Inr out" and small: "length out < 2 ^ 32"
  obtains l po es n loads da ds data get k locals secs where
    "elf_header img = Inr (l, po, es, n)" "phdr_loop l po es 0 n (img, [], 0, 0) = Inr (data, loads, da, ds)"
    "dyn_loop l data (unat (da + ds)) (unat da) (\<lambda>_. None) = Inr get" "dynamic_symcount l data get = Inr k"
    "secs = alloc_secs l get k locals da ds (fst (load_bounds loads)) (snd (load_bounds loads))"
    "e_shoff l out + e_shnum l out * e_shentsize l out = length out"
    "e_shnum l out = length (all_sections l secs injected)" "e_shentsize l out = shdr_size l"
    "e_shstrndx l out = length secs + length (injected_secs l secs injected)"
    "\<And>i. i < length (all_sections l secs injected) \<Longrightarrow>
      section_reads l (index_of_name 0 (all_sections l secs injected) (\<lambda>_. None)) out
        (unat (sh_offset (section_table l out ! e_shstrndx l out)))
        (all_sections l secs injected ! i) (section_table l out ! i)"
    "same_outside (header_bytes l po es n get k) img (take (length img) out)"
proof -
  obtain l po es n loads da ds data get k locals where
    hd: "elf_header img = Inr (l, po, es, n)" and loop: "phdr_loop l po es 0 n (img, [], 0, 0) = Inr (data, loads, da, ds)"
    and dyn: "dyn_loop l data (unat (da + ds)) (unat da) (\<lambda>_. None) = Inr get" and k: "dynamic_symcount l data get = Inr k"
    and fin: "finish_sections l injected get k locals da ds loads data = Inr out"
    by (rule rebuild_Inr [OF run])
  have "same_outside (in_phdrs l po es n) img data" using phdr_loop_outside [OF loop] by simp
  then have phdrs: "same_outside (header_bytes l po es n get k) img data"
    by (rule same_outside_mono) (simp add: header_bytes_def)
  then have len: "length data = length img" by (simp add: same_outside_def)
  have "ehdr_size l \<le> length data" using elf_header_Inr [OF hd] unfolding len by blast
  then obtain secs where
    secs: "secs = alloc_secs l get k locals da ds (fst (load_bounds loads)) (snd (load_bounds loads))"
    and reads: "e_shoff l out + e_shnum l out * e_shentsize l out = length out"
    "e_shnum l out = length (all_sections l secs injected)" "e_shentsize l out = shdr_size l"
    "e_shstrndx l out = length secs + length (injected_secs l secs injected)"
    "\<And>i. i < length (all_sections l secs injected) \<Longrightarrow>
      section_reads l (index_of_name 0 (all_sections l secs injected) (\<lambda>_. None)) out
        (unat (sh_offset (section_table l out ! e_shstrndx l out)))
        (all_sections l secs injected ! i) (section_table l out ! i)"
    and same: "same_outside (header_bytes l po es n get k) data (take (length data) out)"
    using finish_sections_reads [where po = po and es = es and n = n, OF fin _ small] by metis
  have "same_outside (header_bytes l po es n get k) img (take (length img) out)"
    using phdrs same unfolding len by (rule same_outside_trans)
  from that [OF hd loop dyn k secs reads this] show ?thesis .
qed

section \<open>Reading the injected symbols\<close>

lemma string_in_sub:
  assumes "take (length tab) (drop o1 b) = tab" and s: "string_in tab off name"
  shows "string_in b (o1 + off) name" and "off < length tab"
proof -
  have n: "length (take (Suc (length (utf8_bytes name))) (drop off tab)) = Suc (length (utf8_bytes name))"
    using s by (simp add: string_in_def)
  then show "off < length tab" by simp
  have "take (Suc (length (utf8_bytes name))) (drop off (take (length tab) (drop o1 b))) =
      take (Suc (length (utf8_bytes name))) (drop (o1 + off) b)"
    using n by (simp add: drop_take min_absorb1 add.commute)
  with assms show "string_in b (o1 + off) name" by (simp add: string_in_def)
qed

lemma read_put_sym:
  "sym_value l (put_sym l name v sz info other shndx) = Inr (fits l v)"
  "sym_info l (put_sym l name v sz info other shndx) = Inr info"
  "sym_shndx l (put_sym l name v sz info other shndx) = Inr shndx"
  "le_at (put_sym l name v sz info other shndx) 0 4 = name"
  by (simp_all add: put_sym_def sym_value_def sym_info_def sym_shndx_def sym_shndx_off_def rd_u64_def
      rd_u32_def rd_u16_def pick_def fits_def le_at_def nth_append)

lemma index_of_name_append:
  "index_of_name i (xs @ ys) idx = index_of_name (i + length xs) ys (index_of_name i xs idx)"
  by (induction xs arbitrary: i idx) simp_all

text \<open>The address range of an allocatable section.\<close>

definition in_section :: "u64 \<Rightarrow> sec_desc \<Rightarrow> bool" where
  "in_section v s \<longleftrightarrow> sd_flags s AND SHF_ALLOC \<noteq> 0 \<and> sd_addr s \<le> v \<and> v < sd_addr s + sd_size s"

text \<open>The first allocatable section the address lies in, 0 if there is none.\<close>

definition symbol_section :: "u64 \<Rightarrow> sec_desc list \<Rightarrow> nat \<Rightarrow> bool" where
  "symbol_section v secs k \<longleftrightarrow>
     (if \<exists>s \<in> set secs. in_section v s
      then k < length secs \<and> in_section v (secs ! k) \<and> (\<forall>i<k. \<not> in_section v (secs ! i))
      else k = 0)"

lemma contains_addr_in_section: "contains_addr v s \<longleftrightarrow> in_section v s"
  by (auto simp: contains_addr_def in_section_def)

lemma first_containing_Some:
  "first_containing v i secs = Some k \<Longrightarrow> i \<le> k \<and> k - i < length secs \<and> in_section v (secs ! (k - i)) \<and>
     (\<forall>j<k - i. \<not> in_section v (secs ! j))"
proof (induction secs arbitrary: i)
  case (Cons s secs)
  show ?case
  proof (cases "contains_addr v s")
    case True
    with Cons.prems show ?thesis by (simp add: contains_addr_in_section)
  next
    case False
    with Cons have "Suc i \<le> k" "k - Suc i < length secs" "in_section v (secs ! (k - Suc i))"
      "\<forall>j<k - Suc i. \<not> in_section v (secs ! j)" by simp_all
    moreover from this(1) obtain m where "k - i = Suc m" "k - Suc i = m" by (metis Suc_diff_Suc Suc_le_lessD)
    ultimately show ?thesis using False by (auto simp: contains_addr_in_section less_Suc_eq_0_disj)
  qed
qed simp

lemma first_containing_None:
  "first_containing v i secs = None \<longleftrightarrow> (\<forall>s \<in> set secs. \<not> in_section v s)"
  by (induction secs arbitrary: i) (simp_all add: contains_addr_in_section)

lemma section_index_of_section: "\<exists>k. section_index_of v secs = of_nat k \<and> symbol_section v secs k"
proof (cases "first_containing v 0 secs")
  case None
  then have "\<not> (\<exists>s \<in> set secs. in_section v s)" by (simp add: first_containing_None)
  with None show ?thesis by (intro exI [of _ 0]) (simp add: section_index_of_def symbol_section_def)
next
  case (Some k)
  from first_containing_Some [OF Some]
  have k: "k < length secs" "in_section v (secs ! k)" "\<forall>i<k. \<not> in_section v (secs ! i)" by simp_all
  then have "\<exists>s \<in> set secs. in_section v s" by (meson nth_mem)
  with Some k show ?thesis by (intro exI [of _ k]) (simp add: section_index_of_def symbol_section_def)
qed

text \<open>A symbol of the table behind the image, with its section and its name.\<close>

definition symbol_reads ::
  "elf_layout \<Rightarrow> sec_desc list \<Rightarrow> u8 list \<Rightarrow> section_hdr \<Rightarrow> section_hdr \<Rightarrow> nat \<Rightarrow> injected_sym \<Rightarrow> bool" where
  "symbol_reads l secs out h_sym h_str i s \<longleftrightarrow>
     (let b = take (sym_size l) (drop (unat (sh_offset h_sym) + i * sym_size l) out)
      in sym_value l b = Inr (fits l (is_value s)) \<and> sym_info l b = Inr 0x12 \<and>
         (\<exists>k. sym_shndx l b = Inr (of_nat k) \<and> symbol_section (is_value s) secs k) \<and>
         string_in out (unat (sh_offset h_str) + unat (le_at b 0 4 :: u32)) (is_name s))"

lemma injected_symbols_read:
  assumes ne: "injected \<noteq> []" and small: "length out < 2 ^ 32" and cnt: "length secs < 2 ^ 16"
    and d: "\<And>i. i < length (all_sections l secs injected) \<Longrightarrow>
      section_reads l (index_of_name 0 (all_sections l secs injected) (\<lambda>_. None)) out off
        (all_sections l secs injected ! i) (section_table l out ! i)"
  shows "sh_type (section_table l out ! length secs) = SHT_SYMTAB"
    and "sh_link (section_table l out ! length secs) = of_nat (Suc (length secs))"
    and "i < length injected \<Longrightarrow> symbol_reads l secs out (section_table l out ! length secs)
      (section_table l out ! Suc (length secs)) (Suc i) (injected ! i)"
proof -
  let ?all = "all_sections l secs injected"
  obtain strtab symtab where inj: "inject_loop l secs injected ([0], replicate (sym_size l) 0) = (strtab, symtab)"
    by (cases "inject_loop l secs injected ([0], replicate (sym_size l) 0)")
  have "length (replicate (sym_size l) (0 :: u8)) = 1 * sym_size l" by simp
  note syms = inject_loop_symbols [OF this inj]
  define sy where "sy = default_sec\<lparr>sd_name := str_lit ''.symtab'', sd_typ := SHT_SYMTAB,
                 sd_entsize := of_nat (sym_size l), sd_align := elf_word l, sd_file_data := Some symtab,
                 sd_link_name := str_lit ''.strtab'', sd_info := 1\<rparr>"
  define st where "st = default_sec\<lparr>sd_name := str_lit ''.strtab'', sd_typ := SHT_STRTAB, sd_align := 1,
                 sd_file_data := Some strtab\<rparr>"
  have all: "?all = secs @ [sy, st, shstrtab_sec]"
    using ne inj by (simp add: all_sections_def injected_secs_def sy_def st_def)
  have at: "?all ! length secs = sy" "?all ! Suc (length secs) = st" "length ?all = length secs + 3"
    by (simp_all add: all nth_append)
  let ?hs = "section_table l out ! length secs" and ?ht = "section_table l out ! Suc (length secs)"
  have idx: "index_of_name 0 ?all (\<lambda>_. None) (str_lit ''.strtab'') = Some (of_nat (Suc (length secs)))"
    by (simp add: all index_of_name_append sy_def st_def shstrtab_sec_def)
  have ds: "section_reads l (index_of_name 0 ?all (\<lambda>_. None)) out off sy ?hs"
    and dt: "section_reads l (index_of_name 0 ?all (\<lambda>_. None)) out off st ?ht"
    using d [of "length secs"] d [of "Suc (length secs)"] at by simp_all
  show "sh_type ?hs = SHT_SYMTAB" using ds by (simp add: section_reads_def sy_def)
  show "sh_link ?hs = of_nat (Suc (length secs))"
    using ds idx by (simp add: section_reads_def sy_def del: str_lit_simps) (simp add: str_lit_simps)
  have sym_at: "take (length symtab) (drop (unat (sh_offset ?hs)) out) = symtab"
    using ds by (simp add: section_reads_def sy_def)
  have str_at: "take (length strtab) (drop (unat (sh_offset ?ht)) out) = strtab"
    using dt by (simp add: section_reads_def st_def)
  show "symbol_reads l secs out ?hs ?ht (Suc i) (injected ! i)" if i: "i < length injected"
  proof -
    obtain name_off where name: "string_in strtab name_off (is_name (injected ! i))"
      and e: "take (sym_size l) (drop (Suc i * sym_size l) symtab) = put_sym l (of_nat name_off)
        (is_value (injected ! i)) 0 0x12 0 (section_index_of (is_value (injected ! i)) secs)"
      using syms i by (auto simp: symbol_at_def)
    have len: "Suc i * sym_size l + sym_size l \<le> length symtab"
    proof -
      have "length (take (sym_size l) (drop (Suc i * sym_size l) symtab)) = sym_size l" unfolding e by simp
      moreover have "0 < sym_size l" by (simp add: sym_size_def pick_def)
      ultimately show ?thesis by (simp add: min_def split: if_splits)
    qed
    have "take (sym_size l) (drop (Suc i * sym_size l) symtab) =
        take (sym_size l) (drop (unat (sh_offset ?hs) + Suc i * sym_size l) out)"
      using len by (subst sym_at [symmetric]) (simp add: drop_take min_absorb1 add.commute)
    then have b: "take (sym_size l) (drop (unat (sh_offset ?hs) + Suc i * sym_size l) out) = put_sym l (of_nat name_off)
        (is_value (injected ! i)) 0 0x12 0 (section_index_of (is_value (injected ! i)) secs)"
      using e by simp
    have "length strtab \<le> length out"
      using arg_cong [OF str_at, of length] by simp
    then have "unat (of_nat name_off :: u32) = name_off"
      using string_in_sub(2) [OF str_at name] small by (simp add: unat_of_nat take_bit_nat_eq_self)
    then show ?thesis
      unfolding symbol_reads_def Let_def b read_put_sym
      using string_in_sub(1) [OF str_at name] section_index_of_section [of "is_value (injected ! i)" secs] by auto
  qed
qed

section \<open>A program header table at the end of the address space\<close>

lemma phdr_table_panics:
  assumes "elf_header img = Inr (l, po, es, n)" and "is64 l" and "2 ^ 64 \<le> unat po + 56"
    and "length img < 2 ^ 64 - 56"
  shows "rebuild_so_sections img injected = Inl Panic"
proof -
  have h: "ehdr_size l \<le> length img" "0 < n" using elf_header_Inr [OF assms(1)] by blast+
  have po: "unat po < 2 ^ 64" using unsigned_less [of po, where 'a = nat] by simp
  have size: "phdr_size l = 56" "ehdr_size l = 64" using assms(2) by (simp_all add: phdr_size_def ehdr_size_def pick_def)
  have off: "wadd (unat po) (0 * es) = unat po" using po by (simp add: wadd_def)
  have "wadd (unat po) 56 = unat po + 56 - 2 ^ 64"
    using assms(3) po by (simp add: wadd_def mod_if)
  then have "wadd (unat po) 56 \<le> 56" using po by simp
  with h size have "\<not> length img < wadd (unat po) (phdr_size l)" by simp
  moreover have "phdr_step l (unat po) (img, [], 0, 0) = Inl Panic"
    using assms(3,4) by (simp add: phdr_step_def slice_from_def)
  ultimately have "phdr_loop l po es 0 n (img, [], 0, 0) = Inl Panic"
    using h off by (cases n) (simp_all add: Let_def)
  then show ?thesis by (simp add: rebuild_so_sections_def assms(1))
qed

end
