(* ===== verification/So_Fix.thy ===== *)
theory So_Fix
  imports So_Facts Proc_Maps
begin

text \<open>
  The passes of \<^verbatim>\<open>src/so_fix.rs\<close> around the rebuild: \<^verbatim>\<open>fix_one_so\<close> with its header-only fallback,
  \<^verbatim>\<open>fix_so_directory\<close>, the choice of the libraries that get the caller's symbols, and the symbol
  file. The directory is a tree; \<^verbatim>\<open>None\<close> is a file that cannot be read, and writing succeeds.
\<close>

section \<open>One library\<close>

text \<open>The loop of the fallback: the image and the number of segments fixed.\<close>

fun fallback_loop :: "elf_layout \<Rightarrow> u64 \<Rightarrow> nat \<Rightarrow> nat \<Rightarrow> nat \<Rightarrow> u8 list \<times> nat \<Rightarrow> (u8 list \<times> nat) so_result" where
  "fallback_loop l po es i 0 st = Inr st"
| "fallback_loop l po es i (Suc n) (data, fixed) =
     (let off = wadd (unat po) (i * es)
      in if length data < wadd off (phdr_size l) then Inr (data, fixed)
         else
           and_then (slice_from data off) (\<lambda>ph.
           and_then (p_type l ph) (\<lambda>t.
             if t \<noteq> PT_LOAD then fallback_loop l po es (Suc i) n (data, fixed)
             else
               and_then (p_vaddr l ph) (\<lambda>vaddr.
               and_then (p_filesz l ph) (\<lambda>filesz.
               and_then (p_memsz l ph) (\<lambda>memsz.
               and_then (edit_from data off (set_p_offset l vaddr)) (\<lambda>data.
               and_then (if filesz < memsz then edit_from data off (set_p_filesz l memsz) else Inr data) (\<lambda>data.
                 fallback_loop l po es (Suc i) n (data, fixed + 1)))))))))"

definition header_only_fix :: "u8 list \<Rightarrow> u8 list so_result" where
  "header_only_fix data =
     (let l = \<lparr>is64 = (data ! 4 = 2)\<rparr>
      in if length data < ehdr_size l then Inl (Bail ''truncated ELF header'')
         else
           and_then (phoff l data) (\<lambda>po.
           and_then (phentsize l data) (\<lambda>es.
           and_then (phnum l data) (\<lambda>n.
             if po = 0 \<or> n = 0 then Inl (Bail ''no program headers'')
             else
               and_then (fallback_loop l po (if es = 0 then phdr_size l else es) 0 n (data, 0)) (\<lambda>(data, fixed).
                 if fixed = 0 then Inl (Bail ''no PT_LOAD segments found'')
                 else
                   and_then (set_shoff l data 0) (\<lambda>data.
                   and_then (set_shnum l data 0) (\<lambda>data. set_shstrndx l data 0)))))))"

text \<open>The bytes written to the output; a panic of the rebuild is not caught.\<close>

definition fix_one_so :: "u8 list \<Rightarrow> injected_sym list \<Rightarrow> u8 list so_result" where
  "fix_one_so data injected =
     (if length data < 16 \<or> take 4 data \<noteq> elf_magic_bytes then Inl (Bail ''not a valid ELF file'')
      else if data ! 4 \<noteq> 1 \<and> data ! 4 \<noteq> 2 then Inl (Bail ''unsupported EI_CLASS'')
      else case rebuild_so_sections data injected of
        Inr rebuilt \<Rightarrow> Inr rebuilt
      | Inl Panic \<Rightarrow> Inl Panic
      | Inl (Bail _) \<Rightarrow> header_only_fix data)"

section \<open>Names\<close>

definition so_name_char :: "u32 \<Rightarrow> bool" where
  "so_name_char c \<longleftrightarrow> (0x61 \<le> c \<and> c \<le> 0x7A) \<or> (0x41 \<le> c \<and> c \<le> 0x5A) \<or> (0x30 \<le> c \<and> c \<le> 0x39) \<or>
     c = 0x2E \<or> c = 0x5F \<or> c = 0x2D"

definition sanitize_so_name :: "rust_string \<Rightarrow> rust_string" where
  "sanitize_so_name name =
     (let trimmed = (case strip_suffix (str_lit ''.so'') name of None \<Rightarrow> name | Some s \<Rightarrow> s)
      in map (\<lambda>c. if so_name_char c then c else 0x5F) trimmed)"

definition so_matches_module :: "rust_string \<Rightarrow> rust_string \<Rightarrow> bool" where
  "so_matches_module so_file_name stem =
     (let base = sanitize_so_name so_file_name in base = stem \<or> suffix (str_lit ''_'' @ stem) base)"

definition module_stem_from_symbols_file :: "rust_string option \<Rightarrow> rust_string" where
  "module_stem_from_symbols_file file_name =
     (case file_name of None \<Rightarrow> []
      | Some base \<Rightarrow>
          case strip_prefix (str_lit ''jni_symbols_'') base of None \<Rightarrow> []
          | Some s \<Rightarrow> case strip_suffix (str_lit ''.txt'') s of None \<Rightarrow> [] | Some stem \<Rightarrow> stem)"

section \<open>The symbol file\<close>

definition str_trim :: "rust_string \<Rightarrow> rust_string" where
  "str_trim s = rev (dropWhile is_whitespace (rev (dropWhile is_whitespace s)))"

definition parse_symbol_line :: "rust_string \<Rightarrow> injected_sym option" where
  "parse_symbol_line raw =
     (let line = str_trim raw
      in if line = [] \<or> hd line = 0x23 then None
         else case split_whitespace line of
           off_str # name # _ \<Rightarrow>
             let digits = (case strip_prefix (str_lit ''0x'') off_str of Some s \<Rightarrow> s
                           | None \<Rightarrow> (case strip_prefix (str_lit ''0X'') off_str of Some s \<Rightarrow> s | None \<Rightarrow> off_str))
             in map_option (\<lambda>off. \<lparr>is_name = name, is_value = off\<rparr>) (u64_from_hex digits)
         | _ \<Rightarrow> None)"

definition parse_symbol_file :: "rust_string \<Rightarrow> injected_sym list" where
  "parse_symbol_file text = List.map_filter parse_symbol_line (str_lines text)"

section \<open>A directory\<close>

datatype so_node = So_file rust_string "u8 list option" | So_dir rust_string "so_node list"

text \<open>\<^verbatim>\<open>Path::extension\<close>: what follows the last dot, unless that is the first character.\<close>

definition path_extension :: "rust_string \<Rightarrow> rust_string option" where
  "path_extension name =
     (let e = takeWhile (\<lambda>c. c \<noteq> 0x2E) (rev name)
      in if length name \<le> Suc (length e) then None else Some (rev e))"

text \<open>The output directory \<^verbatim>\<open>fix\<close> at the top is not searched.\<close>

fun collect_so_files :: "bool \<Rightarrow> so_node list \<Rightarrow> (rust_string \<times> u8 list option) list" where
  "collect_so_files at_root [] = []"
| "collect_so_files at_root (So_dir name nodes # rest) =
     (if at_root \<and> name = str_lit ''fix'' then [] else collect_so_files False nodes) @ collect_so_files at_root rest"
| "collect_so_files at_root (So_file name content # rest) =
     (if path_extension name = Some (str_lit ''so'') then [(name, content)] else []) @ collect_so_files at_root rest"

definition symbols_for :: "rust_string \<Rightarrow> injected_sym list \<Rightarrow> rust_string \<Rightarrow> injected_sym list" where
  "symbols_for name injected module_stem =
     (if injected \<noteq> [] \<and> (module_stem = [] \<or> so_matches_module name module_stem) then injected else [])"

definition fixed_name :: "rust_string \<Rightarrow> rust_string" where
  "fixed_name name =
     (case strip_suffix (str_lit ''.so'') name of None \<Rightarrow> name | Some s \<Rightarrow> s) @ str_lit ''_fix.so''"

text \<open>The number of files written, and the output directory; \<open>Inl\<close> is a panic that ends the program.\<close>

fun so_loop ::
  "injected_sym list \<Rightarrow> rust_string \<Rightarrow> (rust_string \<times> u8 list option) list \<Rightarrow>
     nat \<times> (rust_string \<Rightarrow> u8 list option) \<Rightarrow> (nat \<times> (rust_string \<Rightarrow> u8 list option)) so_result" where
  "so_loop injected module_stem [] st = Inr st"
| "so_loop injected module_stem ((name, content) # rest) (written, dir) =
     (case content of None \<Rightarrow> so_loop injected module_stem rest (written, dir)
      | Some data \<Rightarrow>
          (case fix_one_so data (symbols_for name injected module_stem) of
             Inr fixed \<Rightarrow> so_loop injected module_stem rest (written + 1, dir(fixed_name name \<mapsto> fixed))
           | Inl (Bail _) \<Rightarrow> so_loop injected module_stem rest (written, dir)
           | Inl Panic \<Rightarrow> Inl Panic))"

definition fix_so_directory ::
  "so_node list \<Rightarrow> injected_sym list \<Rightarrow> rust_string \<Rightarrow> (rust_string \<Rightarrow> u8 list option) \<Rightarrow>
     (rust_string \<Rightarrow> u8 list option) so_result" where
  "fix_so_directory tree injected module_stem dir =
     and_then (so_loop injected module_stem (collect_so_files True tree) (0, dir)) (\<lambda>(written, dir).
       if written = 0 then Inl (Bail ''no .so files found'') else Inr dir)"

section \<open>What a pass leaves\<close>

lemma fix_one_panics:
  "rebuild_so_sections data injected = Inl Panic \<Longrightarrow> elf_header data = Inr h \<Longrightarrow> fix_one_so data injected = Inl Panic"
  by (simp add: fix_one_so_def elf_header_def split: if_splits)

lemma so_loop_panics:
  "(name, Some data) \<in> set sos \<Longrightarrow> fix_one_so data (symbols_for name injected module_stem) = Inl Panic \<Longrightarrow>
     so_loop injected module_stem sos st = Inl Panic"
proof (induction sos arbitrary: st)
  case (Cons f sos)
  obtain nm content written dir where f: "f = (nm, content)" "st = (written, dir)" by (cases f, cases st)
  show ?case
  proof (cases "f = (name, Some data)")
    case True
    then show ?thesis using Cons.prems(2) f by simp
  next
    case False
    with Cons show ?thesis by (auto simp: f split: option.split sum.split so_error.split)
  qed
qed simp

lemma fix_so_directory_panics:
  assumes "\<And>syms. rebuild_so_sections data syms = Inl Panic" and "elf_header data = Inr h"
    and "(name, Some data) \<in> set (collect_so_files True tree)"
  shows "fix_so_directory tree injected module_stem dir = Inl Panic"
  using so_loop_panics [OF assms(3) fix_one_panics [OF assms(1,2)]] by (simp add: fix_so_directory_def)

lemma so_loop_other:
  "so_loop injected module_stem sos (w, dir) = Inr (w', dir') \<Longrightarrow> fx \<notin> set (map (fixed_name \<circ> fst) sos) \<Longrightarrow>
     dir' fx = dir fx"
proof (induction sos arbitrary: w dir)
  case (Cons f sos)
  then show ?case by (cases f) (auto split: option.splits sum.splits so_error.splits)
qed simp

lemma so_loop_written:
  "so_loop injected module_stem sos (w, dir) = Inr (w', dir') \<Longrightarrow> distinct (map (fixed_name \<circ> fst) sos) \<Longrightarrow>
     (name, Some data) \<in> set sos \<Longrightarrow> fix_one_so data (symbols_for name injected module_stem) = Inr fixed \<Longrightarrow>
     dir' (fixed_name name) = Some fixed"
proof (induction sos arbitrary: w dir)
  case (Cons f sos)
  show ?case
  proof (cases "f = (name, Some data)")
    case True
    with Cons.prems have "so_loop injected module_stem sos (w + 1, dir(fixed_name name \<mapsto> fixed)) = Inr (w', dir')"
      and "fixed_name name \<notin> set (map (fixed_name \<circ> fst) sos)" by simp_all
    then show ?thesis using so_loop_other by fastforce
  next
    case False
    with Cons show ?thesis by (cases f) (auto split: option.splits sum.splits so_error.splits)
  qed
qed simp

lemma fix_so_directory_written:
  assumes "fix_so_directory tree injected module_stem dir = Inr dir'"
    and "distinct (map (fixed_name \<circ> fst) (collect_so_files True tree))"
    and "(name, Some data) \<in> set (collect_so_files True tree)"
    and "fix_one_so data (symbols_for name injected module_stem) = Inr fixed"
  shows "dir' (fixed_name name) = Some fixed"
proof -
  obtain w d where "so_loop injected module_stem (collect_so_files True tree) (0, dir) = Inr (w, d)" "d = dir'"
    using assms(1) by (auto simp: fix_so_directory_def and_then_Inr split: if_splits)
  with so_loop_written assms(2-4) show ?thesis by blast
qed

lemma so_matches_module_end:
  assumes "list_all so_name_char stem"
  shows "so_matches_module (pre @ str_lit ''_'' @ stem @ str_lit ''.so'') stem"
proof -
  have "map (\<lambda>c. if so_name_char c then c else 0x5F) stem = stem"
    using assms by (induction stem) auto
  moreover have "strip_suffix (str_lit ''.so'') ((pre @ str_lit ''_'' @ stem) @ str_lit ''.so'') =
      Some (pre @ str_lit ''_'' @ stem)" by (rule strip_suffix_append)
  moreover have "map (\<lambda>c. if so_name_char c then c else 0x5F) (str_lit ''_'') = str_lit ''_''"
    by (simp add: so_name_char_def)
  ultimately have "sanitize_so_name (pre @ str_lit ''_'' @ stem @ str_lit ''.so'') =
      map (\<lambda>c. if so_name_char c then c else 0x5F) pre @ str_lit ''_'' @ stem"
    by (simp add: sanitize_so_name_def del: str_lit_simps)
  then show ?thesis by (simp add: so_matches_module_def suffix_def del: str_lit_simps)
qed

end
