(* ===== verification/So_Samples.thy ===== *)
theory So_Samples
  imports So_Fix
begin

text \<open>
  A small library image: the ELF64 header, a \<^verbatim>\<open>PT_LOAD\<close> and a \<^verbatim>\<open>PT_DYNAMIC\<close> segment, a dynamic
  segment with an entry for \<^verbatim>\<open>DT_INIT\<close>, and the code it names.
\<close>

definition so_header :: "u64 \<Rightarrow> u16 \<Rightarrow> u8 list" where
  "so_header po n = elf_magic_bytes @ [2, 1, 1, 0] @ replicate 8 0 @ le_bytes 2 (3 :: u16) @ le_bytes 2 (183 :: u16) @
     le_bytes 4 (1 :: u32) @ le_bytes 8 (0 :: u64) @ le_bytes 8 po @ le_bytes 8 (0 :: u64) @
     le_bytes 4 (0 :: u32) @ le_bytes 2 (64 :: u16) @ le_bytes 2 (56 :: u16) @ le_bytes 2 n @
     le_bytes 2 (64 :: u16) @ le_bytes 2 (0 :: u16) @ le_bytes 2 (0 :: u16)"

definition so_phdr :: "u32 \<Rightarrow> u64 \<Rightarrow> u64 \<Rightarrow> u64 \<Rightarrow> u8 list" where
  "so_phdr typ off vaddr memsz = le_bytes 4 typ @ le_bytes 4 (5 :: u32) @ le_bytes 8 off @ le_bytes 8 vaddr @
     le_bytes 8 vaddr @ le_bytes 8 memsz @ le_bytes 8 memsz @ le_bytes 8 (8 :: u64)"

definition so_tail :: "u8 list" where
  "so_tail = le_bytes 8 DT_INIT @ le_bytes 8 (0xD0 :: u64) @ le_bytes 8 DT_NULL @ le_bytes 8 (0 :: u64) @
     [0xC0, 0x03, 0x5F, 0xD6] @ replicate 12 0"

definition so_image :: "u8 list" where
  "so_image = so_header 64 2 @ so_phdr PT_LOAD 0 0 224 @ so_phdr PT_DYNAMIC 8 176 32 @ so_tail"

definition so_mapped :: "u8 list" where
  "so_mapped = so_header 64 2 @ so_phdr PT_LOAD 0 0 224 @ so_phdr PT_DYNAMIC 176 176 32 @ so_tail"

definition so_symbol :: injected_sym where
  "so_symbol = \<lparr>is_name = str_lit ''f'', is_value = 0xD0\<rparr>"

lemma so_lengths [simp]:
  "length (so_header po n) = 64" "length (so_phdr typ off vaddr memsz) = 56" "length so_tail = 48"
  "length so_image = 224" "length so_mapped = 224"
  by (simp_all add: so_header_def so_phdr_def so_tail_def so_image_def so_mapped_def elf_magic_bytes_def)

lemma so_phdr_fields:
  "p_type \<lparr>is64 = True\<rparr> (so_phdr typ off vaddr memsz @ rest) = Inr typ"
  "p_vaddr \<lparr>is64 = True\<rparr> (so_phdr typ off vaddr memsz @ rest) = Inr vaddr"
  "p_filesz \<lparr>is64 = True\<rparr> (so_phdr typ off vaddr memsz @ rest) = Inr memsz"
  "p_memsz \<lparr>is64 = True\<rparr> (so_phdr typ off vaddr memsz @ rest) = Inr memsz"
  "set_p_offset \<lparr>is64 = True\<rparr> v (so_phdr typ off vaddr memsz @ rest) = Inr (so_phdr typ v vaddr memsz @ rest)"
  by (simp_all add: p_type_def p_vaddr_def p_filesz_def p_memsz_def set_p_offset_def read_addr_def put_addr_def
      rd_u64_def rd_u32_def wr_u64_def so_phdr_def splice_def)

lemma so_image_phdrs:
  "phdr_loop \<lparr>is64 = True\<rparr> 64 56 0 (Suc (Suc 0)) (so_image, [], 0, 0) =
     Inr (so_mapped, [\<lparr>ls_vaddr = 0, ls_filesz = 224, ls_memsz = 224\<rparr>], 176, 32)"
  by (simp add: wadd_def phdr_size_def pick_def phdr_step_def so_image_def so_mapped_def slice_from_def
      edit_from_def so_phdr_fields PT_LOAD_def PT_DYNAMIC_def)

lemma so_image_header: "elf_header so_image = Inr (\<lparr>is64 = True\<rparr>, 64, 56, Suc (Suc 0))"
  by code_simp

lemma so_image_dyn:
  "dyn_loop \<lparr>is64 = True\<rparr> so_mapped 208 176 (\<lambda>_. None) = Inr [DT_INIT \<mapsto> 0xD0]"
  by (simp add: dyn_loop.simps wadd_def dyn_size_def pick_def so_mapped_def so_tail_def slice_from_def d_tag_def
      d_val_def rd_u64_def read_addr_def DT_INIT_def DT_NULL_def)

text \<open>Writing the sections succeeds, and the file is longer by the parts behind the image.\<close>

lemma emit_sections_total:
  assumes "ehdr_size l \<le> length data"
  obtains out where "emit_sections l ix secs data = Inr out"
    "length out \<le> length (fst (place_payloads data secs)) + length (fst (section_names secs)) + 8 + 64 * length secs"
proof -
  obtain final secs' where place: "place_payloads data secs = (final, secs')"
    by (cases "place_payloads data secs")
  note placed = place_payloads_placed [OF place]
  let ?hdr = "section_header l (section_names secs) (index_of_name 0 secs (\<lambda>_. None)) (of_nat (length final))"
  define body where "body = align_to (final @ fst (section_names secs)) (unat (elf_word l))"
  define whole where "whole = body @ concat (map ?hdr secs')"
  have "length data \<le> length whole" using placed(1) by (auto simp: whole_def body_def align_to_pad)
  with assms obtain out where out: "patch_header l (of_nat (length body)) (length secs') ix whole = Inr out"
    "length out = length whole"
    using patch_header_reads [of l whole "of_nat (length body)" "length secs'" ix] by auto
  have "length secs' = length secs" using placed by (auto dest: list_all2_lengthD)
  moreover have "align_pad k (unat (elf_word l)) \<le> 8" for k
    by (auto simp: align_pad_def elf_word_def intro: le_trans [OF diff_le_self])
  then have "length body \<le> length final + length (fst (section_names secs)) + 8"
    by (simp add: body_def align_to_pad)
  moreover have "length secs' * shdr_size l \<le> 64 * length secs'"
    by (simp add: shdr_size_def pick_def)
  moreover have "length out = length body + length secs' * shdr_size l"
    using out(2) by (simp add: whole_def length_concat_map)
  ultimately have "length out \<le> length final + length (fst (section_names secs)) + 8 + 64 * length secs" by linarith
  moreover have "emit_sections l ix secs data = Inr out"
    using out by (simp add: emit_sections_def place Let_def body_def whole_def)
  ultimately show ?thesis using that place by simp
qed

definition so_sections :: "sec_desc list" where
  "so_sections = alloc_secs \<lparr>is64 = True\<rparr> [DT_INIT \<mapsto> 0xD0] 0 0 176 32 224 224"

lemma so_image_parts:
  "(let secs = so_sections; all_secs = secs @ injected_secs \<lparr>is64 = True\<rparr> secs [so_symbol] @ [shstrtab_sec]
    in length (fst (place_payloads so_mapped all_secs)) + length (fst (section_names all_secs)) +
         64 * length all_secs < 2000)"
  by code_simp

lemma so_image_finish:
  "(case finish_sections \<lparr>is64 = True\<rparr> [so_symbol] [DT_INIT \<mapsto> 0xD0] 0 0 176 32
      [\<lparr>ls_vaddr = 0, ls_filesz = 224, ls_memsz = 224\<rparr>] so_mapped of Inl _ \<Rightarrow> False | Inr out \<Rightarrow> length out < 2008)"
proof -
  define all_secs where
    "all_secs = so_sections @ injected_secs \<lparr>is64 = True\<rparr> so_sections [so_symbol] @ [shstrtab_sec]"
  have "ehdr_size \<lparr>is64 = True\<rparr> \<le> length so_mapped" by (simp add: ehdr_size_def pick_def)
  then obtain out where out: "emit_sections \<lparr>is64 = True\<rparr> (length so_sections +
      length (injected_secs \<lparr>is64 = True\<rparr> so_sections [so_symbol])) all_secs so_mapped = Inr out"
    "length out \<le> length (fst (place_payloads so_mapped all_secs)) + length (fst (section_names all_secs)) + 8 +
      64 * length all_secs"
    using emit_sections_total by metis
  have "finish_sections \<lparr>is64 = True\<rparr> [so_symbol] [DT_INIT \<mapsto> 0xD0] 0 0 176 32
      [\<lparr>ls_vaddr = 0, ls_filesz = 224, ls_memsz = 224\<rparr>] so_mapped = Inr out"
    using out(1) by (simp add: finish_sections_def load_bounds_def Let_def so_sections_def all_secs_def DT_INIT_def
        DT_SYMTAB_def)
  with out(2) so_image_parts show ?thesis by (simp add: all_secs_def Let_def)
qed

lemma so_image_rebuilds:
  obtains out where "rebuild_so_sections so_image [so_symbol] = Inr out" "length out < 2 ^ 32"
proof -
  have "rebuild_so_sections so_image [so_symbol] = finish_sections \<lparr>is64 = True\<rparr> [so_symbol] [DT_INIT \<mapsto> 0xD0] 0 0 176 32
      [\<lparr>ls_vaddr = 0, ls_filesz = 224, ls_memsz = 224\<rparr>] so_mapped"
    by (simp add: rebuild_so_sections_def so_image_header so_image_phdrs so_image_dyn dynamic_symcount_def
        DT_INIT_def DT_HASH_def DT_GNU_HASH_def DT_SYMTAB_def del: phdr_loop.simps)
  with so_image_finish that show ?thesis by (auto split: sum.splits)
qed

text \<open>A header whose program header table ends with the address space.\<close>

lemma so_last_header: "elf_header (so_header 0xFFFFFFFFFFFFFFC8 1) = Inr (\<lparr>is64 = True\<rparr>, 0xFFFFFFFFFFFFFFC8, 56, Suc 0)"
  by code_simp

end
