(* ===== verification/Spec2Isabelle.thy ===== *)
theory Spec2Isabelle
  imports Chunk_Slices Fix_Directory Fix_Samples Kernel_Abi Liveness Maps_Only So_Samples
begin

text \<open>
  Verification of eBPFDexDumper: an eBPF object (\<^verbatim>\<open>bpf/bpf.c\<close>, \<^verbatim>\<open>bpf/header.h\<close>) that finds DEX
  files and executed methods in the memory of Android processes and sends them through ring
  buffers, and the user-space receiver (\<^verbatim>\<open>src/dump.rs\<close>) that puts them together and writes
  them to disk, and the passes that write captured bytecode back and repair the files
  (\<^verbatim>\<open>src/fix.rs\<close>), and the repair of dumped native libraries (\<^verbatim>\<open>src/so_fix.rs\<close>).

  \<^bold>\<open>The program and its model.\<close> Uprobes fire in traced processes. The ART probes resolve an
  ArtMethod or a DexFile object to a DEX in memory, announce it, send its bytes in chunks
  of at most 131048 bytes and 128 chunks per invocation, remember the progress per DEX, and
  send the bytecode of the interpreted method once. The libc probes report buffers that may
  hold a DEX, the JNI probe reports registered native methods. User space parses the
  records, keeps a sorted list of received intervals per process and address, and writes
  the file when one interval covers the DEX.

  One invocation of a probe is a function \<open>env => user_pt_regs => bpf_state => bpf_state\<close>.
  The environment holds what the invocation finds: memory (a partial function of bytes), the
  caller's ids, its CPU, and an oracle for the ring space the kernel grants. The state holds
  the maps that outlive it and the log of records sent. A helper that can fail returns an
  option; an out-parameter is a component of the result; u8, u32 and u64 are words, so
  address and offset arithmetic wraps as in C.

  \<^bold>\<open>Theories.\<close>
  \<^item> Prelude: words as bytes, partial memory, bounded hash maps as association lists.
  \<^item> Bpf_Types: the structs and constants of \<^verbatim>\<open>header.h\<close>, C sizes and offsets, the byte image
    of every record. Bpf_Env: environment, state, helpers, filter and small functions.
  \<^item> Dex_Probe: \<^verbatim>\<open>looks_like_dex_header\<close>, \<^verbatim>\<open>read_valid_dex_begin\<close>, \<^verbatim>\<open>resolve_dex_from_art_method\<close>.
  \<^item> Chunks, Dex_Transfer: \<^verbatim>\<open>dex_key\<close>, \<^verbatim>\<open>submit_dex_chunks_partial\<close>, \<^verbatim>\<open>submit_dex_from_begin\<close>; one
    call sends consecutive chunks (\<open>tiles\<close>), several unobstructed calls the whole DEX
    (\<open>dex_tiles\<close>).
  \<^item> Step_Frame: what any handler may change (\<open>good_step\<close>); Method_Trace, Method_Events:
    layout notes, bytecode capture, method records, \<^verbatim>\<open>handle_art_method\<close>.
  \<^item> Kernel_Map: the contract of a BPF hash map as a locale, interpreted for the LRU caches
    and the bounded argument maps; Native_Probes and Jni_Probe: the libc and JNI probes.
  \<^item> Probes, Machine: all fourteen probes, the step relation (any probe in any process, or an
    eviction from an LRU map), reachable states, the invariant \<open>bpf_inv\<close>.
  \<^item> Helper_Abi, Kernel_Abi: the helper prototypes of \<^verbatim>\<open>headers/bpf_helper_defs.h\<close>, the helper
    numbers of the bundled kernels, the map declarations of \<^verbatim>\<open>header.h\<close>.
  \<^item> Intervals, Dex_Format, Receiver: the interval list, the DEX header and acceptance test of
    \<^verbatim>\<open>src/dex.rs\<close>, the parsers and the announcement and chunk handlers of \<^verbatim>\<open>src/dump.rs\<close>.
    Reassembly proves them order-independent and exact, Receiver_Inv gives the invariant for
    arbitrary bytes, Pipeline joins both sides, Liveness shows that fair interleavings with
    evictions from the LRU map send every DEX that keeps its entry. Chunk_Slices is the chunk handler
    with checked slices, which never panics.
  \<^item> Rust_Std: the integer and string operations of Rust the parsers use. Mutf8, Dex_Lookup:
    the decoder of modified UTF-8, ULEB128 and the string, type, prototype and method look-up
    of \<^verbatim>\<open>src/dex.rs\<close>; Dex_Tables states the tables of the file format as relations and proves
    the look-up against them, Java_Names does the same for printed signatures.
  \<^item> Bytecode: the walker of \<^verbatim>\<open>src/bytecode.rs\<close>. Dalvik: the instruction set as its documentation
    lists it, opcode by opcode; Dalvik_Agree: the walker's tables are those. Bytecode_Grammar: the
    grammar of method bodies over that instruction set, and the walker as its decision procedure.
  \<^item> Remote, Remote_Scan, Remote_Facts, Native_Elf: reading the memory of another process
    (\<^verbatim>\<open>read_remote_mem\<close>, \<^verbatim>\<open>read_remote_range\<close>), the searches for DEX and ELF files in it, what
    they find and what they miss.
  \<^item> Dump_Handlers: the handlers of the other five rings and \<^verbatim>\<open>flush_json\<close>. Handler_Facts: the
    invariant \<open>dump_inv\<close> under all seven handlers; Fallback: what the read-failure handler
    writes; Method_Records: what a method event leaves for the JSON file.
  \<^item> Main_Loop, User_Machine: one iteration of the loop of \<^verbatim>\<open>run\<close>, the shutdown, and user space
    as a state machine. Samples and Dex_Samples are a small traced process, a small DEX and
    small memories on which the properties are exercised.
  \<^item> Rust_Text, Proc_Maps, Maps_Only: numbers in hexadecimal and the string methods that take
    lines and names apart; \<^verbatim>\<open>/proc/<pid>/maps\<close> line by line, the test for system files, the search
    of a process and of a user's processes, and the mode without probes.
  \<^item> Hex, Byte_Edit, Class_Data: hexadecimal text, writing into a byte list, and the class data
    of a DEX with its encoder. Fix_Apply and Fix_Facts: \<^verbatim>\<open>fix_one_dex_bytes_from_json_file\<close> of
    \<^verbatim>\<open>src/fix.rs\<close>: which captured method goes to which code item, coverage, checksums.
  \<^item> Code_Items, Dex_Map, Map_Facts: synthesised code items, the map list, the header bounds.
    Repair, Repair_Facts: \<^verbatim>\<open>append_missing_code_items\<close>, \<^verbatim>\<open>validate_repaired_dex\<close> and
    \<^verbatim>\<open>repair_one_dex\<close>. Relocation, Relocated, Repair_Result: what relocation and a repair leave
    behind, stated of what reading the file again gives.
  \<^item> Dex_Names, Fix_Directory: the names of dumps and their records, their pairing, and the two
    passes over a directory. Fix_Samples is a DEX of 272 bytes with a class, a method, a code item
    and a map.

  \<^item> Elf_Layout, So_Sections: the fields of ELF32 and ELF64 and the rebuild of a section header table
    from the memory image of a library (\<^verbatim>\<open>src/so_fix.rs\<close>). So_Facts: what a reader of the result finds.
    So_Fix: the fallback, the symbol file and the pass over a directory. So_Samples is an image of
    224 bytes.

  \<^bold>\<open>Bounds.\<close> The chunk loop is bounded by the source (128 iterations), as are the begin
  search (5), the slot search (17) and the JNI loop (512), so they are plain recursion and
  no fuel is needed. 65 invocations transfer the largest accepted DEX (1 GB). The loops of
  the parsers and the walker end by a measure. The two searches of dump.rs whose address
  arithmetic saturates need not end: they are partial functions whose value \<open>None\<close> is a loop
  that runs until shutdown, and their return is proved where they return.

  \<^bold>\<open>Not modelled.\<close> Races of two invocations on one map entry (an invocation is atomic); the
  verifier; timeouts (which buffers are stale is a parameter); a failing allocation
  (\<^verbatim>\<open>Vec::with_capacity\<close> with a count from a file, in \<^verbatim>\<open>get_parameter_types\<close>, may abort); the thread that
  scans the maps beside the main loop (one thread, here its scans are whole); in user space the text of the JSON
  files, locking, attaching the probes, command line and console output, and the
  dump of native libraries (\<^verbatim>\<open>so.rs\<close>) and the look-up of symbols and offsets in libart
  (\<^verbatim>\<open>art.rs\<close>), which rests on the ELF parser of another crate. The file system, SHA-1,
  Adler-32, JSON parsing and the test for system files are parameters (\<open>host\<close>, \<open>libs\<close>,
  \<open>fix_env\<close>); the memory and the maps of other processes and the shutdown flag are the parameters of
  \<open>world\<close>, \<open>remote\<close> and \<open>proc_fs\<close>.
\<close>

section \<open>The DEX transfer, from the probe to the file\<close>

text \<open>
  C1: End to end. Take enough unobstructed invocations for a DEX that has not been sent
  yet, and let user space receive the chunk records they sent in any order, each at least
  once and as often as the rings repeat them, with any bytes behind the payload. Then
  exactly one file is written, under the DEX's plain name, and its content is the DEX byte
  for byte.
\<close>

theorem dex_transfer_end_to_end:
  assumes "fresh_calls es pid b D s" and "host_saves h pid b D" and "length D = unat sz"
    and "set (map snd recs) = set (sent_since s (submit_dex_calls es b pid sz s))"
  shows "files (receive_all h recs dump_state_new) = [(Dex_plain pid b sz, D)] \<and>
    dex_cache (receive_all h recs dump_state_new) (pid, b) = Some D"
  using assembled_whole [OF fresh_calls_received [OF assms]] assms(3)
  by (simp add: dex_len_def)

lemma dex_transfer_end_to_end_witness:
  "files (receive_all sample_host
     (rev (map (Pair [1, 2, 3]) (sent_since sample_state
       (submit_dex_calls [sample_env] sample_begin 42 112 sample_state)))) dump_state_new) =
   [(Dex_plain 42 sample_begin 112, sample_dex)]"
proof -
  have "fresh_calls [sample_env] 42 sample_begin sample_dex sample_state"
    by (simp add: fresh_calls_def sample_unobstructed BYTES_PER_CALL_def sample_state_def
        start_state_def empty_state_def)
  from dex_transfer_end_to_end [OF this sample_host_saves, where sz = 112
      and recs = "rev (map (Pair [1, 2, 3]) (sent_since sample_state
        (submit_dex_calls [sample_env] sample_begin 42 112 sample_state)))"]
  show ?thesis by (simp add: image_image)
qed

text \<open>
  C3: However large a DEX the program accepts (up to \<^verbatim>\<open>MAX_DEX_FILE_SIZE\<close>), 65 unobstructed
  invocations send it completely: the payloads in the order they are sent are the DEX,
  every chunk record is well formed, and the stored progress is the DEX's size.
\<close>

theorem transfer_takes_at_most_65_calls:
  assumes "list_all (\<lambda>e. unobstructed e b D) es" and "65 \<le> length es"
    and "map_of (dexProgress_map s) (dex_image_key pid b D) = None"
    and "length D = unat sz" and "16 \<le> length D" and "sz \<le> MAX_DEX_FILE_SIZE"
  shows "\<exists>cs. out (submit_dex_calls es b pid sz s) = out s @ forced cs \<and>
    list_all (\<lambda>c. chunk_ok c \<and> ring_of c = dex_chunks \<and> event_pid c = pid) cs \<and>
    concat (map payload_of cs) = D \<and>
    map_of (dexProgress_map (submit_dex_calls es b pid sz s)) (dex_image_key pid b D) = Some sz"
proof -
  have "length D \<le> 0x40000000" using assms(4,6) by (simp add: MAX_DEX_FILE_SIZE_def word_le_nat_alt)
  then have "fresh_calls es pid b D s"
    using assms by (simp add: fresh_calls_def BYTES_PER_CALL_def)
  from fresh_calls_pieces [OF this assms(5,4)] obtain cs where
    cs: "out (submit_dex_calls es b pid sz s) = out s @ forced cs" "dex_tiles b pid sz D 0 cs sz"
    "map_of (dexProgress_map (submit_dex_calls es b pid sz s)) (dex_image_key pid b D) = Some sz"
    by blast
  have "chunk_ok c \<and> ring_of c = dex_chunks \<and> event_pid c = pid" if "c \<in> set cs" for c
    using dex_tiles_pieces [OF assms(4) cs(2)] that by (cases c) (auto simp: piece_of_def)
  with cs dex_tiles_payload [OF assms(4) cs(2)] assms(4) show ?thesis
    by (intro exI [of _ cs]) (simp add: list_all_iff)
qed

lemma transfer_takes_at_most_65_calls_witness:
  "\<exists>cs. out (submit_dex_calls (replicate 65 sample_env) sample_begin 42 112 sample_state) =
     out sample_state @ forced cs \<and> concat (map payload_of cs) = sample_dex"
proof -
  have "list_all (\<lambda>e. unobstructed e sample_begin sample_dex) (replicate 65 sample_env)"
    by (simp add: list_all_iff sample_unobstructed)
  moreover have "map_of (dexProgress_map sample_state) (dex_image_key 42 sample_begin sample_dex) = None"
    by (simp add: sample_state_def start_state_def empty_state_def)
  ultimately show ?thesis
    using transfer_takes_at_most_65_calls [of sample_begin sample_dex "replicate 65 sample_env"
        sample_state 42 112] by (auto simp: MAX_DEX_FILE_SIZE_def)
qed

text \<open>
  C30: One call in any environment (pages missing, rings full): it sends at most 128 chunks,
  whose payloads together are the bytes of the traced memory from the old progress to the
  new one, and after them at most one failure record, which names the offset reached.
\<close>

theorem one_call_sends_a_contiguous_stretch:
  assumes "0 < sz" and "dex_progress s (dex_key e pid b sz) < sz"
  shows "\<exists>cs fs to. out (submit_dex_chunks_partial e b pid sz s) = out s @ forced (cs @ fs) \<and>
    dex_progress (submit_dex_chunks_partial e b pid sz s) (dex_key e pid b sz) = to \<and>
    dex_progress s (dex_key e pid b sz) \<le> to \<and> to \<le> sz \<and> length cs \<le> 128 \<and>
    read_bytes (e_mem e) (b + ucast (dex_progress s (dex_key e pid b sz)))
      (unat to - unat (dex_progress s (dex_key e pid b sz))) = Some (concat (map payload_of cs)) \<and>
    (fs = [] \<or> to < sz \<and> fs = [read_failure_event b pid sz to])"
proof -
  let ?k = "dex_key e pid b sz"
  from submit_partial_call [OF assms refl] obtain to cs fs where
    t: "tiles e b pid sz (dex_progress s ?k) cs to" "length cs \<le> MAX_CHUNKS_PER_CALL"
    "failure_tail b pid sz to fs"
    and em: "emits (s\<lparr>dexProgress_map := AList.update ?k to (dexProgress_map s)\<rparr>)
      (forced (cs @ fs)) (submit_dex_chunks_partial e b pid sz s)" by blast
  have "dex_progress (submit_dex_chunks_partial e b pid sz s) ?k = to"
    using emits_frame(5) [OF em] by (simp add: dex_progress_def update_conv')
  with t emits_frame(9) [OF em] tiles_le [OF t(1)] tiles_payload [OF t(1)] assms(2) show ?thesis
    by (intro exI [of _ cs] exI [of _ fs] exI [of _ to])
      (simp add: failure_tail_def MAX_CHUNKS_PER_CALL_def)
qed

lemma one_call_sends_a_contiguous_stretch_witness:
  "\<exists>cs fs. out (submit_dex_chunks_partial sample_env sample_begin 42 112 sample_state) =
     out sample_state @ forced (cs @ fs) \<and> length cs \<le> 128"
proof -
  have "dex_progress sample_state k = 0" for k
    by (simp add: dex_progress_def sample_state_def start_state_def empty_state_def)
  with one_call_sends_a_contiguous_stretch [of 112 sample_state sample_env 42 sample_begin]
  show ?thesis by auto
qed

text \<open>
  In every reachable state a call never moves a DEX's progress back, never beyond its
  size, and leaves the progress of every other DEX alone.
\<close>

theorem progress_only_grows:
  assumes "reachable c l s"
  shows "dex_progress s (dex_key e pid b sz) \<le>
      dex_progress (submit_dex_chunks_partial e b pid sz s) (dex_key e pid b sz) \<and>
    dex_progress (submit_dex_chunks_partial e b pid sz s) (dex_key e pid b sz) \<le> sz \<and>
    (k = dex_key e pid b sz \<or>
     dex_progress (submit_dex_chunks_partial e b pid sz s) k = dex_progress s k)"
proof -
  have "progress_ok (dexProgress_map s)" using reachable_inv [OF assms] by (simp add: bpf_inv_def)
  from dex_progress_le [OF submit_partial_progress_ok [OF this, of e b pid sz], of "dex_key e pid b sz"]
  have "dex_progress (submit_dex_chunks_partial e b pid sz s) (dex_key e pid b sz) \<le> sz" by simp
  moreover have "k \<noteq> dex_key e pid b sz \<Longrightarrow>
      dex_progress (submit_dex_chunks_partial e b pid sz s) k = dex_progress s k"
    using submit_partial_other [of k e pid b sz s] by (simp add: dex_progress_def)
  ultimately show ?thesis using submit_partial_progress by blast
qed

lemma progress_only_grows_witness:
  "dex_progress (submit_dex_chunks_partial sample_env sample_begin 42 112 (start_state None None))
     (dex_key sample_env 42 sample_begin 112) \<le> 112"
  using progress_only_grows [OF reachable.start, of None None sample_env 42 sample_begin 112]
  by blast

text \<open>
  C4: The receiver is order-independent and exact: whatever pieces of a DEX arrive, in any
  order and with any repetitions and overlaps, it writes the file if and only if they cover
  the DEX, and then the file is the DEX.
\<close>

theorem any_order_assembles_exactly:
  assumes "host_saves h pid b D" and "list_all (\<lambda>(ex, ev). piece_of pid b D ev) recs"
  shows "files (receive_all h recs dump_state_new) =
    (if {0..<dex_len D} \<subseteq> spans (map snd recs) then [(Dex_plain pid b (dex_len D), D)] else [])"
proof -
  from assms(1) have acc: "dex_accepted D" "length D \<le> 0x40000000" by (simp_all add: host_saves_def)
  have "\<forall>(ex, ev) \<in> set recs. piece_of pid b D ev" using assms(2) by (simp add: list_all_iff)
  from assembled_all [OF assms(1) assembled_start [OF acc] this] show ?thesis
    by (auto simp: assembled_def whole_def)
qed

lemma any_order_assembles_exactly_witness:
  "files (receive_all sample_host
     [([], chunk_event sample_begin 42 112 60 52 (drop 60 sample_dex)),
      ([9], chunk_event sample_begin 42 112 0 70 (take 70 sample_dex)),
      ([], chunk_event sample_begin 42 112 60 52 (drop 60 sample_dex))] dump_state_new) =
   [(Dex_plain 42 sample_begin 112, sample_dex)]"
proof -
  let ?recs = "[([], chunk_event sample_begin 42 112 60 52 (drop 60 sample_dex)),
      ([9], chunk_event sample_begin 42 112 0 70 (take 70 sample_dex)),
      ([], chunk_event sample_begin 42 112 60 52 (drop 60 sample_dex))]"
  have "list_all (\<lambda>(ex, ev). piece_of 42 sample_begin sample_dex ev) ?recs"
    by (simp add: piece_of_def chunk_event_def chunk_header_ok_def)
  moreover have "{0..<dex_len sample_dex} \<subseteq> spans (map snd ?recs)"
    by (auto simp: chunk_event_def dex_len_def word_le_nat_alt word_less_nat_alt)
  moreover have "dex_len sample_dex = 112" by (simp add: dex_len_def)
  ultimately show ?thesis
    using any_order_assembles_exactly [OF sample_host_saves, of 42 sample_begin ?recs] by simp
qed

section \<open>The receiver\<close>

text \<open>
  Recording a received interval in the sorted interval list adds exactly that interval
  to the covered bytes and keeps the list sorted, disjoint and without adjacent intervals.
\<close>

theorem record_adds_exactly_the_interval:
  assumes "intervals_ok ivs" and "start < stop"
  shows "intervals_ok (record_interval start stop ivs) \<and>
    covered (record_interval start stop ivs) = covered ivs \<union> {start..<stop}"
  using record_interval_ok [OF assms] .

lemma record_adds_exactly_the_interval_witness:
  "covered (record_interval 30 60 [(0 :: u32, 20), (25, 40), (50, 55), (80, 90)]) =
     covered [(0, 20), (25, 40), (50, 55), (80, 90)] \<union> {30..<60}"
  using record_adds_exactly_the_interval [of "[(0 :: u32, 20), (25, 40), (50, 55), (80, 90)]" 30 60]
  by simp

text \<open>
  The one-interval test of \<^verbatim>\<open>is_complete\<close> decides whether every byte of the DEX has been
  received, in every well-formed reassembly state.
\<close>

theorem complete_iff_every_byte_received:
  assumes "recv_wf rs"
  shows "recv_is_complete rs \<longleftrightarrow> {0..<rs_total rs} \<subseteq> covered (rs_intervals rs)"
proof -
  have "0 < rs_total rs" using assms by (auto simp: recv_wf_def size_in_range_def word_le_nat_alt word_less_nat_alt)
  with assms intervals_complete_iff [of "rs_intervals rs" "rs_total rs"] show ?thesis
    by (simp add: recv_wf_def recv_is_complete_def)
qed

lemma complete_iff_every_byte_received_witness:
  "recv_is_complete \<lparr>rs_total = 112, rs_intervals = [(0, 50), (60, 112)], rs_buf = replicate 112 0\<rparr> \<longleftrightarrow>
     {0..<112} \<subseteq> covered [(0 :: u32, 50), (60, 112)]"
  using complete_iff_every_byte_received
    [of "\<lparr>rs_total = 112, rs_intervals = [(0, 50), (60, 112)], rs_buf = replicate 112 0\<rparr>"]
  by (simp add: recv_wf_def size_in_range_def)

text \<open>
  C31: Whatever bytes arrive on the announcement and chunk rings, every file the receiver
  writes is accepted by the DEX parser and has the announced size, and no two files share
  a process and address under the plain naming scheme, so no capture overwrites another.
\<close>

theorem only_accepted_files_and_no_overwrite:
  "list_all (\<lambda>(f, bytes). dex_accepted bytes \<and> length bytes = unat (file_size f))
     (files (fold (handle_record h) recs dump_state_new)) \<and>
   distinct (plain_ids (files (fold (handle_record h) recs dump_state_new)))"
  using records_recv_inv [OF recv_inv_new, of h recs]
  by (simp add: recv_inv_def files_inv_def sized_def list_all_iff)

text \<open>
  C32: The chunk handler never panics: in every state user space can reach, whatever bytes arrive,
  every slice the handler takes (the two it compares for each received interval, the one it copies
  the payload into) is within bounds and the copied slices have the same length, so the handler
  with checked slices returns, and returns the state of the handler.
\<close>

theorem chunk_handler_never_panics:
  assumes "user_reachable h conf st"
  shows "handle_dex_chunk_checked h xs st = Some (handle_dex_chunk h xs st)"
proof -
  have "recv_inv any_file st" using user_reachable_inv [OF assms] by (simp add: dump_inv_def)
  then show ?thesis by (rule handle_dex_chunk_in_range)
qed

lemma chunk_handler_never_panics_witness:
  "\<exists>st. handle_dex_chunk_checked sample_host
     (image [] (chunk_event sample_begin 42 112 0 70 (take 70 sample_dex))) dump_state_new = Some st"
  using chunk_handler_never_panics [OF user_start, where h = sample_host and
      xs = "image [] (chunk_event sample_begin 42 112 0 70 (take 70 sample_dex))"] by blast

text \<open>
  C33: A chunk whose bytes contradict the ones already received is never merged: the
  address is quarantined (no reassembly state, no method records, no cached names) and
  nothing is written.
\<close>

theorem contradicting_chunk_is_quarantined:
  assumes "parse_dex_chunk xs = Some hdr" and "size_in_range (dce_size hdr)"
    and "unat (dce_data_len hdr) \<noteq> 0"
    and "unat (dce_offset hdr) + unat (dce_data_len hdr) \<le> unat (dce_size hdr)"
    and "slice_get xs 24 (24 + unat (dce_data_len hdr)) = Some payload"
    and "dex_sizes st (dce_pid hdr, dce_begin hdr) = Some (dce_size hdr)"
    and "dex_cache st (dce_pid hdr, dce_begin hdr) = None"
    and "pending_dex st (dce_pid hdr, dce_begin hdr) = Some rs"
    and "chunk_conflicts rs (unat (dce_offset hdr))
      (unat (dce_offset hdr) + unat (dce_data_len hdr)) payload"
    and "(dce_pid hdr, dce_begin hdr) \<notin> ambiguous_dex st"
  shows "handle_dex_chunk h xs st = quarantine_dex (dce_pid hdr) (dce_begin hdr) st \<and>
    files (handle_dex_chunk h xs st) = files st \<and>
    (dce_pid hdr, dce_begin hdr) \<in> ambiguous_dex (handle_dex_chunk h xs st) \<and>
    pending_dex (handle_dex_chunk h xs st) (dce_pid hdr, dce_begin hdr) = None \<and>
    method_records (handle_dex_chunk h xs st) (dce_pid hdr, dce_begin hdr) = None"
proof -
  have "observe_dex (dce_pid hdr) (dce_begin hdr) (dce_size hdr) st = st"
    using assms(2,6) by (simp add: observe_dex_def fun_upd_idem)
  moreover have "unat (dce_size hdr) < 2 ^ 32" using unsigned_less [of "dce_size hdr"] by simp
  then have "\<not> 2 ^ 32 \<le> unat (dce_offset hdr) + unat (dce_data_len hdr)" using assms(4) by linarith
  ultimately have "handle_dex_chunk h xs st = quarantine_dex (dce_pid hdr) (dce_begin hdr) st"
    using assms by (simp add: handle_dex_chunk_def Let_def)
  then show ?thesis by (simp add: quarantine_dex_def)
qed

lemma contradicting_chunk_is_quarantined_witness:
  "files (handle_dex_chunk sample_host
      (image [] (chunk_event 0x1000 42 112 0 4 [1, 2, 3, 4]))
      (dump_state_new\<lparr>dex_sizes := [(42, 0x1000) \<mapsto> 112],
        pending_dex := [(42, 0x1000) \<mapsto> \<lparr>rs_total = 112, rs_intervals = [(0, 2)],
          rs_buf = replicate 112 0\<rparr>]\<rparr>)) = []"
proof -
  let ?xs = "image [] (chunk_event 0x1000 42 112 0 4 [1, 2, 3, 4])"
  let ?hdr = "\<lparr>dce_begin = 0x1000, dce_pid = 42, dce_size = 112, dce_offset = 0, dce_data_len = 4\<rparr>"
  let ?rs = "\<lparr>rs_total = 112, rs_intervals = [(0, 2)], rs_buf = replicate 112 0\<rparr>"
  let ?st = "dump_state_new\<lparr>dex_sizes := [(42, 0x1000) \<mapsto> 112], pending_dex := [(42, 0x1000) \<mapsto> ?rs]\<rparr>"
  have p: "parse_dex_chunk ?xs = Some ?hdr" by (simp only: chunk_event_def parse_dex_chunk_image)
  have "slice_get ?xs 24 (24 + 4) = Some [1, 2, 3, 4]"
    unfolding chunk_event_def by (rule chunk_payload_image) simp
  then have s: "slice_get ?xs 24 (24 + unat (dce_data_len ?hdr)) = Some [1, 2, 3, 4]" by simp
  have c: "chunk_conflicts ?rs (unat (dce_offset ?hdr))
      (unat (dce_offset ?hdr) + unat (dce_data_len ?hdr)) [1, 2, 3, 4]"
    by (simp add: chunk_conflicts_def) (simp add: eval_nat_numeral)
  from contradicting_chunk_is_quarantined [OF p _ _ _ s, of ?st ?rs sample_host] c show ?thesis
    by (simp add: size_in_range_def dump_state_new_def del: image.simps)
qed

text \<open>
  An announcement that changes the size seen at an address disables that address: it
  is ambiguous from then on, and what was being reassembled for it is dropped.
\<close>

theorem size_change_quarantines:
  assumes "parse_dex_event xs = Some evt"
    and "dex_sizes st (ded_pid evt, ded_begin evt) = Some old" and "old \<noteq> ded_size evt"
  shows "(ded_pid evt, ded_begin evt) \<in> ambiguous_dex (handle_dex_event xs st) \<and>
    pending_dex (handle_dex_event xs st) (ded_pid evt, ded_begin evt) = None \<and>
    files (handle_dex_event xs st) = files st"
  using assms by (auto simp: handle_dex_event_def observe_dex_def quarantine_dex_def Let_def)

lemma size_change_quarantines_witness:
  "(42, 0x1000) \<in> ambiguous_dex (handle_dex_event
      (image [] (Dex_event \<lparr>ded_begin = 0x1000, ded_pid = 42, ded_size = 200\<rparr>))
      (dump_state_new\<lparr>dex_sizes := [(42, 0x1000) \<mapsto> 112]\<rparr>))"
  using size_change_quarantines
    [of "image [] (Dex_event \<lparr>ded_begin = 0x1000, ded_pid = 42, ded_size = 200\<rparr>)"
      "\<lparr>ded_begin = 0x1000, ded_pid = 42, ded_size = 200\<rparr>"
      "dump_state_new\<lparr>dex_sizes := [(42, 0x1000) \<mapsto> 112]\<rparr>" 112]
  by (simp add: parse_dex_event_image del: image.simps)

text \<open>
  After the captures have been sealed at shutdown, no record writes a file or changes
  a saved DEX.
\<close>

theorem sealed_captures_write_nothing:
  assumes "captures_sealed st"
  shows "files (fold (handle_record h) recs st) = files st \<and>
    dex_cache (fold (handle_record h) recs st) = dex_cache st"
proof -
  have save: "captures_sealed s \<Longrightarrow> save_dex h p b z bytes s = s" for s p b z bytes
    by (simp add: save_dex_def)
  have chunk: "captures_sealed (handle_dex_chunk h xs s) \<and> files (handle_dex_chunk h xs s) = files s \<and>
      dex_cache (handle_dex_chunk h xs s) = dex_cache s" if "captures_sealed s" for xs s
    using that by (simp add: handle_dex_chunk_def Let_def save split: option.split)
  have "captures_sealed (fold (handle_record h) recs st) \<and> files (fold (handle_record h) recs st) = files st \<and>
      dex_cache (fold (handle_record h) recs st) = dex_cache st"
    using assms
  proof (induction recs arbitrary: st)
    case Nil
    then show ?case by simp
  next
    case (Cons r recs)
    have "captures_sealed (handle_record h r st) \<and> files (handle_record h r st) = files st \<and>
        dex_cache (handle_record h r st) = dex_cache st"
      using chunk [OF Cons.prems] Cons.prems
      by (cases r) (simp_all add: handle_dex_event_def split: option.split)
    with Cons.IH [of "handle_record h r st"] show ?case by simp
  qed
  then show ?thesis by blast
qed

lemma sealed_captures_write_nothing_witness:
  "files (fold (handle_record sample_host)
     [Chunk (image [] (chunk_event sample_begin 42 112 0 112 sample_dex))]
     (dump_state_new\<lparr>captures_sealed := True\<rparr>)) = []"
  using sealed_captures_write_nothing [of "dump_state_new\<lparr>captures_sealed := True\<rparr>" sample_host
      "[Chunk (image [] (chunk_event sample_begin 42 112 0 112 sample_dex))]"]
  by (simp add: dump_state_new_def)

section \<open>The probe machine\<close>

text \<open>
  C20: In every reachable state, whatever probes fired in whatever processes, whatever the
  kernel granted and evicted: every record sent so far is well formed for its consumer
  (sizes and offsets in range, payload as long as announced, strings terminated), and every
  ring-buffer reservation was submitted or discarded.
\<close>

theorem every_record_sent_is_well_formed:
  assumes "reachable c l s"
  shows "list_all (\<lambda>(ev, _). evt_ok ev) (out s) \<and> rb_held s = 0"
  using reachable_inv [OF assms] by (auto simp: bpf_inv_def list_all_iff)

lemma every_record_sent_is_well_formed_witness:
  "list_all (\<lambda>(ev, _). evt_ok ev) (out (run_probe Libart_executeNterpImpl sample_env
     (sample_regs sample_base 0 0 0) (start_state None None)))"
  using every_record_sent_is_well_formed [OF reachable_fire [OF reachable.start]] by blast

text \<open>
  C21: With a process selected in the configuration, no record about any other process is
  ever sent: the filter holds for the whole history, also for the return probes, which do
  not test it themselves.
\<close>

theorem only_the_selected_process_is_reported:
  assumes "reachable (Some cfg) l s" and "valid_uid (cfg_pid cfg)"
  shows "list_all (\<lambda>(ev, _). event_pid ev = cfg_pid cfg) (out s)"
proof -
  have "\<forall>(ev, _) \<in> set (out s). pid_selected (Some cfg) (event_pid ev)"
    using reachable_inv [OF assms(1)] by (auto simp: bpf_inv_def)
  with assms(2) show ?thesis by (auto simp: list_all_iff pid_selected_def)
qed

lemma only_the_selected_process_is_reported_witness:
  "list_all (\<lambda>(ev, _). event_pid ev = 42) (out (run_probe Libart_executeNterpImpl sample_env
     (sample_regs sample_base 0 0 0)
     (start_state (Some \<lparr>cfg_uid = - 1, cfg_pid = 42, cfg_code_item_fallback = 1, cfg_debug_layout = 0,
        cfg_native_buffer_scan = 1, cfg_reserved = 0\<rparr>) None)))"
  by (rule only_the_selected_process_is_reported
      [OF reachable_fire [OF reachable.start], where cfg = "\<lparr>cfg_uid = - 1, cfg_pid = 42,
        cfg_code_item_fallback = 1, cfg_debug_layout = 0, cfg_native_buffer_scan = 1,
        cfg_reserved = 0\<rparr>", unfolded config_t.simps])
    (simp add: valid_uid_def INVALID_UID_PID_def)

text \<open>
  A probe other than the three return probes has no effect at all when the user or
  process filter rejects the caller.
\<close>

theorem rejected_caller_has_no_effect:
  assumes "\<not> trace_allowed (config_map s) (current_tgid e) (ucast (e_uid_gid e))"
    and "p \<notin> {Libc_memcpy_ret, Libc_memmove_ret, Libc_mmap_ret}"
  shows "run_probe p e ctx s = s"
  using assms
  by (intro entry_probe_blocked)
    (simp_all add: probe_allowed_def get_config_def bpf_get_current_uid_gid_u32_def is_return_probe_def)

lemma rejected_caller_has_no_effect_witness:
  "run_probe Libc_memcpy sample_env (sample_regs 0x5000 0x6000 4096 0)
     (start_state (Some \<lparr>cfg_uid = 10000, cfg_pid = - 1, cfg_code_item_fallback = 1,
        cfg_debug_layout = 0, cfg_native_buffer_scan = 1, cfg_reserved = 0\<rparr>) None) =
   start_state (Some \<lparr>cfg_uid = 10000, cfg_pid = - 1, cfg_code_item_fallback = 1,
        cfg_debug_layout = 0, cfg_native_buffer_scan = 1, cfg_reserved = 0\<rparr>) None"
  by (rule rejected_caller_has_no_effect)
    (simp_all add: trace_allowed_def start_state_def valid_uid_def INVALID_UID_PID_def sample_env_def)

text \<open>
  The two maps that carry libc arguments from entry to return stay within their 4096
  entries with distinct threads as keys, and hold only sizes from 1 byte to 1 GB.
\<close>

theorem argument_maps_stay_bounded:
  assumes "reachable c l s"
  shows "hash_ok 4096 (native_copy_args_map s) \<and> hash_ok 4096 (native_alloc_args_map s) \<and>
    list_all (\<lambda>(_, a). 0 < nca_size a \<and> nca_size a \<le> 0x40000000) (native_copy_args_map s) \<and>
    list_all (\<lambda>(_, a). 0 < naa_size a \<and> naa_size a \<le> 0x40000000) (native_alloc_args_map s)"
  using reachable_inv [OF assms]
  by (auto simp: bpf_inv_def copy_args_ok_def alloc_args_ok_def list_all_iff word_gt_0
      NATIVE_ARGS_MAX_ENTRIES_def NATIVE_MAX_COPY_SIZE_def)

lemma argument_maps_stay_bounded_witness:
  "hash_ok 4096 (native_copy_args_map (run_probe Libc_memcpy sample_env
     (sample_regs 0x5000 0x6000 4096 0) (start_state None None)))"
  using argument_maps_stay_bounded [OF reachable_fire [OF reachable.start]] by blast

text \<open>
  C29: Entry and return of a copy are paired per thread under any interleaving: when an
  admitted \<^verbatim>\<open>memcpy\<close> enters and the argument map has room, then whatever other threads do
  until it returns, the return probe examines the destination of that call, and if a DEX
  header is there it reports that address, the DEX's size and this thread's process.
\<close>

theorem copy_return_reports_its_own_call:
  assumes "trace_allowed (config_map s) (current_tgid e) (ucast (e_uid_gid e))"
    and "PT_REGS_PARM3 ctx \<noteq> 0" and "PT_REGS_PARM3 ctx \<le> 0x40000000"
    and "hash_accepts 4096 (e_pid_tgid e) (native_copy_args_map s)"
    and "list_all (\<lambda>(p, e', ctx'). e_pid_tgid e' \<noteq> e_pid_tgid e) others"
    and "e_pid_tgid e2 = e_pid_tgid e"
    and "dex_header_at e2 (dex_header_file_size_offset (get_art_layout s)) (PT_REGS_PARM1 ctx) z"
    and "case config_map s of None \<Rightarrow> True | Some cfg \<Rightarrow> cfg_native_buffer_scan cfg \<noteq> 0"
    and "\<forall>n. e_rb_ok e2 native_buffer_events n"
    and "s2 = fire_all others (run_probe Libc_memcpy e ctx s)"
  shows "out (run_probe Libc_memcpy_ret e2 ctx2 s2) = out s2 @
    [(Native_buffer \<lparr>nbe_addr = PT_REGS_PARM1 ctx, nbe_size = ucast z, nbe_pid = current_tgid e,
       nbe_source = 4, nbe_prot = 0, nbe_flags = 0\<rparr>, BPF_RB_FORCE_WAKEUP)]"
proof -
  let ?t = "e_pid_tgid e"
  let ?a = "\<lparr>nca_dst = PT_REGS_PARM1 ctx, nca_size = PT_REGS_PARM3 ctx, nca_source = NATIVE_SOURCE_MEMCPY\<rparr>"
  have "\<not> NATIVE_MAX_COPY_SIZE < PT_REGS_PARM3 ctx"
    using assms(3) by (simp add: NATIVE_MAX_COPY_SIZE_def not_less)
  with assms(1,2) have enter: "run_probe Libc_memcpy e ctx s = s\<lparr>native_copy_args_map :=
      hash_update NATIVE_ARGS_MAX_ENTRIES ?t ?a (native_copy_args_map s)\<rparr>"
    by (simp add: uprobe_libc_memcpy_def copy_enter_def probe_allowed_def get_config_def
        bpf_get_current_uid_gid_u32_def Let_def)
  have "map_of (native_copy_args_map s2) ?t = map_of (native_copy_args_map (run_probe Libc_memcpy e ctx s)) ?t"
    using assms(5) unfolding assms(10) by (intro fire_all_copy_other) (auto simp: list_all_iff)
  also have "\<dots> = Some ?a"
    unfolding enter using hash.lookup_update [OF assms(4), where v = ?a] by (simp add: NATIVE_ARGS_MAX_ENTRIES_def)
  finally have a: "map_of (native_copy_args_map s2) (e_pid_tgid e2) = Some ?a" by (simp add: assms(6))
  have cfg: "config_map s2 = config_map s" "art_layout_map s2 = art_layout_map s"
    using fire_all_config [of others "run_probe Libc_memcpy e ctx s"] run_probe_config [of Libc_memcpy e ctx s]
    by (simp_all add: assms(10))
  then have "get_art_layout s2 = get_art_layout s" by (simp add: get_art_layout_def)
  with copy_return_reports [OF a, of z] assms(7,8,9) cfg(1) show ?thesis
    by (simp add: uretprobe_libc_memcpy_def looks_like_dex_header_iff NATIVE_SOURCE_MEMCPY_def
        current_tgid_def assms(6))
qed

lemma copy_return_reports_its_own_call_witness:
  "\<exists>evs. out (run_probe Libc_memcpy_ret sample_env (sample_regs 0 0 0 0)
     (fire_all [(Libc_memcpy, sample_env\<lparr>e_pid_tgid := 7\<rparr>, sample_regs 1 2 3 4)]
       (run_probe Libc_memcpy sample_env (sample_regs sample_begin 2 112 0) sample_state))) =
   evs @ [(Native_buffer \<lparr>nbe_addr = sample_begin, nbe_size = 112, nbe_pid = 42,
       nbe_source = 4, nbe_prot = 0, nbe_flags = 0\<rparr>, BPF_RB_FORCE_WAKEUP)]"
proof -
  have st: "config_map sample_state = None" "get_art_layout sample_state = default_art_layout"
    "native_copy_args_map sample_state = []"
    by (simp_all add: sample_state_def start_state_def empty_state_def get_art_layout_def)
  have "current_tgid sample_env = 42" by (simp add: current_tgid_def sample_env_def)
  with copy_return_reports_its_own_call [of sample_state sample_env "sample_regs sample_begin 2 112 0"
      "[(Libc_memcpy, sample_env\<lparr>e_pid_tgid := 7\<rparr>, sample_regs 1 2 3 4)]" sample_env 112
      "fire_all [(Libc_memcpy, sample_env\<lparr>e_pid_tgid := 7\<rparr>, sample_regs 1 2 3 4)]
       (run_probe Libc_memcpy sample_env (sample_regs sample_begin 2 112 0) sample_state)"
      "sample_regs 0 0 0 0"] st sample_header
  show ?thesis
    by (simp add: trace_allowed_def pt_regs_defs sample_regs_def hash_accepts_def default_art_layout_def
        sample_env_def del: run_probe.simps fire_all_simps)
qed

text \<open>
  A return probe consumes its thread's entry and no other: afterwards the returning
  thread has no stored arguments, and every other thread's are as they were.
\<close>

theorem return_probe_consumes_its_entry:
  "map_of (native_copy_args_map (run_probe Libc_memcpy_ret e ctx s)) t =
     (if t = e_pid_tgid e then None else map_of (native_copy_args_map s) t) \<and>
   map_of (native_copy_args_map (run_probe Libc_memmove_ret e ctx s)) t =
     (if t = e_pid_tgid e then None else map_of (native_copy_args_map s) t) \<and>
   map_of (native_alloc_args_map (run_probe Libc_mmap_ret e ctx s)) t =
     (if t = e_pid_tgid e then None else map_of (native_alloc_args_map s) t)"
  by (simp add: uretprobe_libc_memcpy_def uretprobe_libc_memmove_def copy_return_map mmap_return_map
      delete_conv')

section \<open>Finding a DEX in memory\<close>

text \<open>
  The header check accepts an address exactly when, behind its tag byte, the DEX
  magic, the header size 0x70 and the endian constant are readable and the size field
  holds between 0x70 bytes and 1 GB; it then returns that size.
\<close>

theorem header_check_exact:
  "looks_like_dex_header e a off = (True, z) \<longleftrightarrow>
     a \<noteq> 0 \<and> read_u32 e (untag a) = Some 0x0a786564 \<and>
     read_u32 e (untag a + 0x24) = Some 0x70 \<and> read_u32 e (untag a + 0x28) = Some 0x12345678 \<and>
     read_u32 e (untag a + ucast off) = Some z \<and> 0x70 \<le> z \<and> z \<le> 0x40000000"
  by (simp add: looks_like_dex_header_iff dex_header_at_def dex_size_ok_def)

text \<open>
  The search for \<^verbatim>\<open>DexFile::begin_\<close> returns the pointer at the first of the offsets
  (configured, 0x08, 0x10, 0x18, 0x20) behind which a DEX header lies, untagged, with the
  size in that header, and fails exactly when there is none.
\<close>

theorem begin_search_takes_the_first_valid_offset:
  "read_valid_dex_begin e p cfg hdr =
     (case filter (\<lambda>off. \<exists>z. dex_header_at e hdr (untag (probe_u64 e (p + ucast off))) z)
        [cfg, 0x08, 0x10, 0x18, 0x20] of
        [] \<Rightarrow> (False, 0, 0)
      | off # _ \<Rightarrow> (True, untag (probe_u64 e (p + ucast off)),
          snd (looks_like_dex_header e (untag (probe_u64 e (p + ucast off))) hdr)))"
  unfolding read_valid_dex_begin_def first_dex_begin_spec begin_offsets_def begin_candidate_def ..

text \<open>
  Whatever an \<^verbatim>\<open>ArtMethod\<close> resolves to is a DEX: the address is canonical (no tag),
  nonzero, carries a DEX header, and the size is the one in that header.
\<close>

theorem resolved_dex_is_a_dex:
  assumes "resolve_dex_from_art_method e am layout = (True, b, z, idx)"
  shows "dex_header_at e (dex_header_file_size_offset layout) b z \<and> untag b = b \<and> b \<noteq> 0 \<and>
    0 < z \<and> z \<le> MAX_DEX_FILE_SIZE \<and>
    idx = probe_u32 e (am + ucast (art_method_dex_method_index_offset layout))"
  using resolve_dex_True [OF assms] assms dex_size_ok_pos [OF dex_header_at_size]
    dex_header_at_nonzero
  by (auto simp: resolve_dex_from_art_method_def Let_def split: prod.splits if_splits)

lemma resolved_dex_is_a_dex_witness:
  "dex_header_at sample_env 0x20 sample_begin 112 \<and> (5 :: u32) = probe_u32 sample_env (sample_base + 8)"
  using resolved_dex_is_a_dex [OF sample_resolve] by (simp add: default_art_layout_def)

text \<open>
  Resolution is complete over the layouts it knows: it succeeds exactly when the
  configured slots or one of the sixteen other pairs of class and dex-cache slots lead from
  the method to a DEX.
\<close>

theorem resolution_covers_all_slots:
  "fst (resolve_dex_from_art_method e am layout) \<longleftrightarrow>
     (\<exists>sl \<in> set ((class_dex_cache_offset layout, dex_cache_dex_file_offset layout) #
        List.product [0x10, 0x18, 0x20, 0x28] [0x10, 0x18, 0x20, 0x28]).
      slot_hits e am layout sl)"
proof -
  have "set class_slots = set (List.product [0x10, 0x18, 0x20, 0x28] [0x10, 0x18, 0x20, 0x28])"
    by (simp add: class_slots_eq)
  then show ?thesis
    using try_slots_fst [of e am layout class_slots]
    by (auto simp: resolve_dex_from_art_method_def slot_hits_def Let_def split: prod.splits)
qed

lemma resolution_covers_all_slots_witness:
  "\<exists>sl \<in> set ((0x10, 0x10) # List.product [0x10, 0x18, 0x20, 0x28] [0x10, 0x18, 0x20, 0x28]).
     slot_hits sample_env sample_base default_art_layout sl"
  using resolution_covers_all_slots [of sample_env sample_base default_art_layout] sample_resolve
  by (simp add: default_art_layout_def)

text \<open>
  What the kernel side validates, user space accepts: a DEX image copied from an
  address that passed the header check passes the DEX parser's acceptance test.
\<close>

theorem validated_dex_is_accepted:
  assumes "dex_header_at e off b z" and "untag b = b"
    and "read_bytes (e_mem e) b (unat z) = Some D"
  shows "dex_accepted D"
proof -
  have "0x70 \<le> unat z" using dex_header_at_size [OF assms(1)]
    by (simp add: dex_size_ok_def word_le_nat_alt)
  then have len: "112 \<le> length D" using read_bytes_length [OF assms(3)] by simp
  from read_bytes_take_drop [OF assms(3), of 0 4] len read_bytes_length [OF assms(3)]
  have "read_bytes (e_mem e) b 4 = Some (take 4 D)" by simp
  with assms(1,2) have "le_word (take 4 D) = (0x0a786564 :: u32)"
    by (simp add: dex_header_at_def read_u32_def bpf_probe_read_user_def)
  with len show ?thesis by (simp add: dex_accepted_iff DEX_FILE_MAGIC_def)
qed

lemma validated_dex_is_accepted_witness: "dex_accepted sample_dex"
  using validated_dex_is_accepted [OF sample_header, of sample_dex] sample_dex_read
  by (simp add: sample_begin_def untag_def)

section \<open>Tracing methods\<close>

text \<open>
  C36: The method record carries the method: its header fields, and as payload exactly
  the bytecode found in memory (at most 16344 bytes of it), with the matching length;
  without new readable bytecode the record has no payload.
\<close>

theorem method_record_carries_the_bytecode:
  assumes "bufs_m s (e_cpu e) = Some buf" and "read_method_bytecode e am s = (r, cis, s3)"
    and "e_rb_ok e method_events (rb_tries s method_events)"
  shows "\<exists>m. out (submit_method_event_with_bytecode e b pid sz am idx cis s3) = out s @
      [(Method_event m (captured_code e am s), BPF_RB_FORCE_WAKEUP)] \<and>
    med_begin m = b \<and> med_pid m = pid \<and> med_size m = sz \<and> med_art_method_ptr m = am \<and>
    med_method_index m = idx \<and> unat (med_codeitem_size m) = length (captured_code e am s)"
proof -
  from method_event_sent [OF assms(1,2), of b pid sz idx] obtain m s2 where
    sc: "scratch_eq s s2" and em: "emits s2
      (if e_rb_ok e method_events (rb_tries s method_events)
       then [(Method_event (fill_method b pid sz am idx cis m) (captured_code e am s),
              BPF_RB_FORCE_WAKEUP)] else [])
      (submit_method_event_with_bytecode e b pid sz am idx cis s3)"
    and len: "unat cis = length (captured_code e am s)" by blast
  from emits_frame(9) [OF em] scratch_eq_same(1) [OF sc] assms(3) len show ?thesis
    by (intro exI [of _ "fill_method b pid sz am idx cis m"]) simp
qed

lemma method_record_carries_the_bytecode_witness:
  "\<exists>m cis s3. out (submit_method_event_with_bytecode sample_env sample_begin 42 112 sample_base 5 cis s3) =
     [(Method_event m [0x12, 0, 0x0f, 0], BPF_RB_FORCE_WAKEUP)]"
proof -
  obtain r cis s3 where run: "read_method_bytecode sample_env sample_base sample_state = (r, cis, s3)"
    by (metis prod_cases3)
  obtain buf where "bufs_m sample_state (e_cpu sample_env) = Some buf"
    by (simp add: sample_state_def start_state_def empty_state_def)
  from method_record_carries_the_bytecode [OF this run, of sample_begin 42 112 5]
  show ?thesis
    by (auto simp: captured_code_def sample_method_code)
      (auto simp: sample_env_def sample_state_def start_state_def empty_state_def)
qed

text \<open>
  Bytecode is sent once: right after a capture the same method in the same memory has
  nothing left to capture, so the next record of it has no payload (until the cache entry
  is evicted).
\<close>

theorem bytecode_is_captured_once:
  assumes "bufs_m s (e_cpu e) = Some buf" and "method_code e am s = Some (key, bytes)"
    and "read_method_bytecode e am s = (r, cis, s3)"
  shows "map_of (methodCodeCache_map s3) key = Some 1 \<and> method_code e am s3 = None \<and>
    captured_code e am s3 = []"
proof -
  from read_method_bytecode_spec [OF assms(1,3)] assms(2)
  have s3: "methodCodeCache_map s3 = AList.update key 1 (methodCodeCache_map s)"
    "art_layout_map s3 = art_layout_map s" by simp_all
  then have lay: "get_art_layout s3 = get_art_layout s" by (simp add: get_art_layout_def)
  have key: "map_of (methodCodeCache_map s3) key = Some 1" by (simp add: s3 update_conv')
  have "method_code e am s3 = None"
    using assms(2) key
    by (auto simp: method_code_def lay Let_def split: option.splits if_splits)
  with key show ?thesis by (simp add: captured_code_def)
qed

lemma bytecode_is_captured_once_witness:
  "\<exists>s3. method_code sample_env sample_base s3 = None"
proof -
  obtain r cis s3 where run: "read_method_bytecode sample_env sample_base sample_state = (r, cis, s3)"
    by (metis prod_cases3)
  obtain buf where "bufs_m sample_state (e_cpu sample_env) = Some buf"
    by (simp add: sample_state_def start_state_def empty_state_def)
  from bytecode_is_captured_once [OF this sample_method_code run] show ?thesis by blast
qed

text \<open>
  A method longer than 8172 code units is cut: only its first 16344 bytes are sent,
  and it is marked captured all the same, so the rest is not sent later.
\<close>

theorem long_method_is_cut_and_marked:
  assumes "bufs_m s (e_cpu e) = Some buf" and "method_code e am s = Some (key, bytes)"
    and "8172 < ck_size key" and "read_method_bytecode e am s = (r, cis, s3)"
  shows "cis = 16344 \<and> length bytes = 16344 \<and> length bytes < 2 * unat (ck_size key) \<and>
    map_of (methodCodeCache_map s3) key = Some 1"
proof -
  have "length bytes = min (2 * unat (ck_size key)) 16344"
    using assms(2)
    by (auto simp: method_code_def bytecode_key_def Let_def dest!: probe_read_length
        split: option.splits if_splits)
  moreover have "8172 < unat (ck_size key)" using assms(3) by (simp add: word_less_nat_alt)
  ultimately have len: "length bytes = 16344" "length bytes < 2 * unat (ck_size key)" by simp_all
  from read_method_bytecode_spec [OF assms(1,4)] assms(2)
  have "unat cis = length bytes" and s3: "methodCodeCache_map s3 = AList.update key 1 (methodCodeCache_map s)"
    by simp_all
  with len have "cis = 16344" by (simp add: word_unat_eq_iff)
  with len s3 show ?thesis by (simp add: update_conv')
qed

lemma long_method_is_cut_and_marked_witness:
  "\<exists>key bytes. method_code long_env 0x7000000000 sample_state = Some (key, bytes) \<and>
     length bytes = 16344 \<and> 2 * unat (ck_size key) = 24576"
proof -
  from long_method_code obtain bytes where code: "method_code long_env 0x7000000000 sample_state =
     Some (bytecode_key long_env 0x7000000000 0x100 0x3000, bytes)" by blast
  obtain r cis s3 where run: "read_method_bytecode long_env 0x7000000000 sample_state = (r, cis, s3)"
    by (metis prod_cases3)
  obtain buf where "bufs_m sample_state (e_cpu long_env) = Some buf"
    by (simp add: sample_state_def start_state_def empty_state_def)
  from long_method_is_cut_and_marked [OF this code _ run] code show ?thesis
    by (simp add: bytecode_key_def)
qed

text \<open>
  One traced method, all rings granting space: the records it causes are, in order,
  the layout note (only with layout debugging), the announcement of its DEX (only the first
  time), chunks of that DEX and at most one read failure, and its method record with the
  captured bytecode. In particular no test after the header check rejects the DEX.
\<close>

theorem traced_method_records_in_order:
  assumes "2 ^ 32 \<le> am" and "\<forall>r n. e_rb_ok e r n"
    and "resolve_dex_from_art_method e am (get_art_layout s) = (True, b, z, idx)"
    and "bufs_m s (e_cpu e) = Some buf"
  shows "\<exists>cs fs m. out (handle_art_method e conf pid am s) =
      out s @ layout_note conf pid am b z @ announcement e pid b z s @ forced (cs @ fs) @
      [(Method_event m (captured_code e am s), BPF_RB_FORCE_WAKEUP)] \<and>
    list_all (\<lambda>c. chunk_ok c \<and> ring_of c = dex_chunks \<and> event_pid c = pid) cs \<and>
    list_all (\<lambda>f. ring_of f = read_failures) fs \<and> length fs \<le> 1 \<and>
    med_begin m = b \<and> med_pid m = pid \<and> med_size m = z \<and> med_art_method_ptr m = am \<and>
    med_method_index m = idx \<and> unat (med_codeitem_size m) = length (captured_code e am s)"
  using assms(1) by (intro handle_art_method_records [OF _ assms(2-4)]) (simp add: is_compressed_ref_iff not_less)

lemma traced_method_records_in_order_witness:
  "\<exists>cs fs m. out (handle_art_method sample_env None 42 sample_base sample_state) =
     (Dex_event \<lparr>ded_begin = sample_begin, ded_pid = 42, ded_size = 112\<rparr>, BPF_RB_FORCE_WAKEUP) #
     forced (cs @ fs) @ [(Method_event m [0x12, 0, 0x0f, 0], BPF_RB_FORCE_WAKEUP)]"
proof -
  have big: "2 ^ 32 \<le> sample_base" by (simp add: sample_base_def)
  have rb: "\<forall>r n. e_rb_ok sample_env r n" by (simp add: sample_env_def)
  have res: "resolve_dex_from_art_method sample_env sample_base (get_art_layout sample_state) =
      (True, sample_begin, 112, 5)"
    using sample_resolve by (simp add: sample_state_def start_state_def empty_state_def get_art_layout_def)
  obtain buf where buf: "bufs_m sample_state (e_cpu sample_env) = Some buf"
    by (simp add: sample_state_def start_state_def empty_state_def)
  have "out sample_state = []" and "announcement sample_env 42 sample_begin 112 sample_state =
      [(Dex_event \<lparr>ded_begin = sample_begin, ded_pid = 42, ded_size = 112\<rparr>, BPF_RB_FORCE_WAKEUP)]"
    by (simp_all add: sample_state_def start_state_def empty_state_def announcement_def)
  with traced_method_records_in_order [OF big rb res buf, of None 42] show ?thesis
    by (auto simp: layout_note_def captured_code_def sample_method_code)
qed

text \<open>
  A DEX is announced once per cache lifetime: after \<^verbatim>\<open>submit_dex_from_begin\<close> the cache
  holds its key, and with the key in the cache a call sends no announcement, only chunks
  and at most one failure record.
\<close>

theorem dex_is_announced_once:
  assumes "b \<noteq> 0" and "z \<noteq> 0" and "z \<le> MAX_DEX_FILE_SIZE" and "\<forall>n. e_rb_ok e events n"
  shows "map_of (dexFileCache_map (submit_dex_from_begin e pid b z s)) (dex_key e pid b z) = Some 1 \<and>
    (\<exists>evs. out (submit_dex_from_begin e pid b z s) = out s @ announcement e pid b z s @ forced evs \<and>
       list_all (\<lambda>ev. ring_of ev \<in> {dex_chunks, read_failures}) evs) \<and>
    (map_of (dexFileCache_map s) (dex_key e pid b z) = Some 1 \<longrightarrow> announcement e pid b z s = [])"
proof -
  have "e_rb_ok e events (rb_tries s events)" using assms(4) by blast
  from submit_dex_from_begin_out [OF assms(1-3) this, of pid] obtain cs fs where
    "out (submit_dex_from_begin e pid b z s) = out s @ announcement e pid b z s @ forced (cs @ fs)"
    "list_all (\<lambda>c. chunk_ok c \<and> ring_of c = dex_chunks \<and> event_pid c = pid) cs"
    "list_all (\<lambda>f. ring_of f = read_failures) fs"
    "map_of (dexFileCache_map (submit_dex_from_begin e pid b z s)) (dex_key e pid b z) = Some 1"
    by blast
  then show ?thesis
    by (intro conjI exI [of _ "cs @ fs"]) (auto simp: list_all_iff announcement_def)
qed

lemma dex_is_announced_once_witness:
  "map_of (dexFileCache_map (submit_dex_from_begin sample_env 42 sample_begin 112 sample_state))
     (dex_key sample_env 42 sample_begin 112) = Some 1"
  using dex_is_announced_once [of sample_begin 112 sample_env 42 sample_state]
  by (simp add: sample_begin_def sample_env_def MAX_DEX_FILE_SIZE_def)

text \<open>
  Layout diagnostics are gated exactly as configured: a diagnostic goes out when
  layout debugging is on and it is not a code-item diagnostic with the fallback disabled,
  or when it reports a failure and the fallback is enabled (the default without a
  configuration).
\<close>

theorem layout_diagnostics_gating:
  assumes "\<forall>n. e_rb_ok e layout_debug_events n"
  shows "out (submit_layout_debug_event e conf pid am ci b z reason source s) = out s @
    (let debug = (case conf of None \<Rightarrow> False | Some c \<Rightarrow> cfg_debug_layout c \<noteq> 0);
         fallback = (case conf of None \<Rightarrow> True | Some c \<Rightarrow> cfg_code_item_fallback c \<noteq> 0)
     in if debug \<and> (fallback \<or> source \<noteq> 2) \<or> reason \<noteq> 0 \<and> fallback
        then [(Layout_debug \<lparr>lde_art_method_ptr = am, lde_code_item_ptr = ci, lde_begin = b,
           lde_pid = pid, lde_size = z, lde_reason = reason, lde_source = source\<rparr>,
           BPF_RB_FORCE_WAKEUP)] else [])"
proof -
  let ?ev = "Layout_debug \<lparr>lde_art_method_ptr = am, lde_code_item_ptr = ci, lde_begin = b,
    lde_pid = pid, lde_size = z, lde_reason = reason, lde_source = source\<rparr>"
  have "out (send e ?ev BPF_RB_FORCE_WAKEUP s) = out s @ [(?ev, BPF_RB_FORCE_WAKEUP)]"
    using emits_frame(9) [OF send_emits [of s e ?ev BPF_RB_FORCE_WAKEUP]] assms by simp
  then show ?thesis
    by (auto simp: submit_layout_debug_event_def layout_consts Let_def split: option.split)
qed

lemma layout_diagnostics_gating_witness:
  "out (submit_layout_debug_event sample_env None 42 7 8 0 0 1 2 sample_state) =
     [(Layout_debug \<lparr>lde_art_method_ptr = 7, lde_code_item_ptr = 8, lde_begin = 0, lde_pid = 42,
        lde_size = 0, lde_reason = 1, lde_source = 2\<rparr>, BPF_RB_FORCE_WAKEUP)]"
  using layout_diagnostics_gating [of sample_env None 42 7 8 0 0 1 2 sample_state]
  by (simp add: sample_env_def sample_state_def start_state_def empty_state_def)

text \<open>
  A \<^verbatim>\<open>RegisterNatives\<close> call by an admitted process is reported completely and in table
  order: one record per entry with a function pointer among the first 512 of the announced
  count (read as a signed 32-bit number), none for a null table or a count below one.
\<close>

theorem registered_natives_are_reported:
  assumes "trace_allowed (config_map s) (current_tgid e) (ucast (e_uid_gid e))"
    and "\<forall>n. e_rb_ok e jni_events n"
  shows "out (uprobe_libart_registerNatives e ctx s) = out s @
    (if PT_REGS_PARM3 ctx = 0 then []
     else map (\<lambda>i. (jni_event e (current_tgid e) (PT_REGS_PARM3 ctx + of_nat i * 24), 0))
       (filter (\<lambda>i. probe_u64 e (PT_REGS_PARM3 ctx + of_nat i * 24 + 16) \<noteq> 0)
          [0..<nat (min 512 (sint (ucast (PT_REGS_PARM4 ctx) :: u32)))]))"
  using assms(1) jni_loop_granted [OF assms(2)]
  by (simp add: uprobe_libart_registerNatives_def get_config_def bpf_get_current_uid_gid_u32_def
      register_natives_count_def jni_reported_def jni_entry_addr_def JNI_MAX_METHODS_def
      JNI_NATIVE_METHOD_SIZE_def min_def Let_def)

lemma registered_natives_are_reported_witness:
  "out (uprobe_libart_registerNatives sample_env (sample_regs 0 0 0x7000000000 1) sample_state) =
     [(jni_event sample_env 42 0x7000000000, 0)]"
proof -
  have "probe_u64 sample_env 0x7000000010 = 0x7000000028" and "current_tgid sample_env = 42"
    by (simp_all add: probe_defs sample_defs sample_read current_tgid_def)
  with registered_natives_are_reported
    [of sample_state sample_env "sample_regs 0 0 0x7000000000 1"] show ?thesis
    by (simp add: sample_state_def start_state_def empty_state_def trace_allowed_def pt_regs_defs
        sample_regs_def sample_env_def)
qed

section \<open>The record formats\<close>

text \<open>
  C37: User space reads back exactly what the kernel side wrote: for all seven record
  kinds the parser applied to the record's byte image returns its fields (the method record
  without the unused thread field; the two strings of a JNI record that has the lengths and
  terminators of every JNI record sent, up to their terminators), and the payload of
  chunks and method records is found behind the header.
\<close>

theorem records_survive_the_ring:
  assumes "evt_ok (Jni_method j)"
  shows "parse_dex_event (image ex (Dex_event d)) = Some d \<and>
   parse_dex_chunk (image ex (Dex_chunk c payload)) = Some c \<and>
   slice_get (image ex (Dex_chunk c payload)) 24 (24 + length payload) = Some payload \<and>
   parse_method_event (image ex (Method_event m code)) = Some \<lparr>me_begin = med_begin m,
     me_pid = med_pid m, me_size = med_size m, me_art_method_ptr = med_art_method_ptr m,
     me_method_index = med_method_index m, me_codeitem_size = med_codeitem_size m\<rparr> \<and>
   slice_get (image ex (Method_event m code)) 40 (40 + length code) = Some code \<and>
   parse_read_failure (image (a # b # c' # d' # ex) (Read_failure f)) = Some f \<and>
   parse_layout_debug (image ex (Layout_debug l)) = Some l \<and>
   parse_native_buffer (image ex (Native_buffer n)) = Some n \<and>
   parse_jni_method (image ex (Jni_method j)) = Some \<lparr>jm_pid = jme_pid j, jm_fn_ptr = jme_fn_ptr j,
     jm_name = takeWhile (\<lambda>ch. ch \<noteq> 0) (jme_name j), jm_sig = takeWhile (\<lambda>ch. ch \<noteq> 0) (jme_sig j)\<rparr>"
proof (intro conjI)
  show "parse_jni_method (image ex (Jni_method j)) = Some \<lparr>jm_pid = jme_pid j, jm_fn_ptr = jme_fn_ptr j,
     jm_name = takeWhile (\<lambda>ch. ch \<noteq> 0) (jme_name j), jm_sig = takeWhile (\<lambda>ch. ch \<noteq> 0) (jme_sig j)\<rparr>"
    using assms
    by (simp add: parse_jni_method_def le32_skip le64_skip cstr_field_def JNI_NAME_MAX_def JNI_SIG_MAX_def)
  show "slice_get (image ex (Method_event m code)) 40 (40 + length code) = Some code"
    by (simp add: slice_get_def)
qed (simp_all add: parse_dex_event_image parse_dex_chunk_image parse_method_event_image
      parse_read_failure_image parse_layout_debug_image parse_native_buffer_image
      chunk_payload_image del: image.simps)

lemma records_survive_the_ring_witness:
  "parse_jni_method (image [] (Jni_method \<lparr>jme_pid = 42, jme_fn_ptr = 0x1234,
     jme_name = [0x61, 0x62] @ replicate 94 0, jme_sig = [0x28, 0x29, 0x56] @ replicate 93 0\<rparr>)) =
   Some \<lparr>jm_pid = 42, jm_fn_ptr = 0x1234, jm_name = [0x61, 0x62], jm_sig = [0x28, 0x29, 0x56]\<rparr>"
proof -
  let ?j = "\<lparr>jme_pid = 42, jme_fn_ptr = 0x1234, jme_name = [0x61, 0x62] @ replicate 94 0,
    jme_sig = [0x28, 0x29, 0x56] @ replicate 93 0\<rparr>"
  have "evt_ok (Jni_method ?j)" by (simp add: JNI_NAME_MAX_def JNI_SIG_MAX_def)
  from records_survive_the_ring [OF this, where ex = "[]"] have
    "parse_jni_method (image [] (Jni_method ?j)) = Some \<lparr>jm_pid = jme_pid ?j, jm_fn_ptr = jme_fn_ptr ?j,
       jm_name = takeWhile (\<lambda>ch. ch \<noteq> 0) (jme_name ?j), jm_sig = takeWhile (\<lambda>ch. ch \<noteq> 0) (jme_sig ?j)\<rparr>"
    by blast
  then show ?thesis by (simp add: takeWhile_append del: image.simps)
qed

text \<open>
  The C structs have the sizes and offsets user space assumes (24, 40, 24, 40, 32 and
  208 bytes; JNI pointer at 8, name at 16, signature at 112), computed from the member
  types by the alignment rule, and the image of every well-formed record has the size of
  its struct plus its payload.
\<close>

theorem record_layouts_agree:
  "c_sizeof dex_event_members = 16 \<and> c_sizeof dex_chunk_members = 24 \<and>
   c_sizeof method_event_members = 40 \<and> c_sizeof read_failure_members = 24 \<and>
   c_sizeof layout_debug_members = 40 \<and> c_sizeof native_buffer_members = 32 \<and>
   c_sizeof jni_method_members = 208 \<and>
   c_offsets 0 dex_chunk_members = [0, 8, 12, 16, 20] \<and>
   c_offsets 0 method_event_members = [0, 8, 12, 16, 24, 32, 36] \<and>
   c_offsets 0 layout_debug_members = [0, 8, 16, 24, 28, 32, 36] \<and>
   c_offsets 0 native_buffer_members = [0, 8, 16, 20, 24, 28] \<and>
   c_offsets 0 jni_method_members = [0, 8, 16, 112] \<and>
   length (image ex (Method_event m code)) = c_sizeof method_event_members + length code \<and>
   length (image ex (Layout_debug l)) = c_sizeof layout_debug_members \<and>
   length (image ex (Native_buffer n)) = c_sizeof native_buffer_members"
  by (simp, simp add: member_defs round_up_def JNI_NAME_MAX_def JNI_SIG_MAX_def)

section \<open>Pointers and native buffers\<close>

text \<open>
  Stripping the tag keeps exactly the low 56 bits of a pointer, is idempotent and
  yields a canonical address; and the compressed-reference test is true exactly of the
  pointers below 4 GB.
\<close>

theorem pointer_classification:
  "untag p = p mod 2 ^ 56 \<and> untag (untag p) = untag p \<and> untag p < 2 ^ 56 \<and>
   (is_compressed_ref p \<longleftrightarrow> p < 2 ^ 32)"
  by (intro conjI untag_eq_mod untag_idem untag_lt is_compressed_ref_iff)

text \<open>
  The constructor probe announces the pointer as it is in the register: the header is
  checked behind the tag, but the announcement (and with it every chunk) carries the tagged
  address, unlike the probes that go through \<^verbatim>\<open>read_valid_dex_begin\<close>.
\<close>

theorem dex_ctor_announces_the_raw_pointer:
  assumes "trace_allowed (config_map s) (current_tgid e) (ucast (e_uid_gid e))"
    and "dex_header_at e (dex_header_file_size_offset (get_art_layout s)) (PT_REGS_PARM2 ctx) z"
    and "\<forall>n. e_rb_ok e events n"
    and "map_of (dexFileCache_map s) (dex_key e (current_tgid e) (PT_REGS_PARM2 ctx) z) = None"
  shows "\<exists>evs. out (uprobe_libart_dexFileCtor e ctx s) = out s @
    (Dex_event \<lparr>ded_begin = PT_REGS_PARM2 ctx, ded_pid = current_tgid e, ded_size = z\<rparr>,
     BPF_RB_FORCE_WAKEUP) # forced evs"
proof -
  note hdr = assms(2)
  from dex_header_at_nonzero [OF hdr] dex_size_ok_pos [OF dex_header_at_size [OF hdr]]
  have bz: "PT_REGS_PARM2 ctx \<noteq> 0" "z \<noteq> 0" "z \<le> MAX_DEX_FILE_SIZE" by simp_all
  have ok: "e_rb_ok e events (rb_tries s events)" using assms(3) by blast
  have run: "uprobe_libart_dexFileCtor e ctx s =
      submit_dex_from_begin e (current_tgid e) (PT_REGS_PARM2 ctx) z s"
    using assms(1) hdr [folded looks_like_dex_header_iff]
    by (simp add: uprobe_libart_dexFileCtor_def get_config_def bpf_get_current_uid_gid_u32_def Let_def)
  from submit_dex_from_begin_out [OF bz ok, of "current_tgid e"] obtain cs fs where
    "out (submit_dex_from_begin e (current_tgid e) (PT_REGS_PARM2 ctx) z s) =
      out s @ announcement e (current_tgid e) (PT_REGS_PARM2 ctx) z s @ forced (cs @ fs)" by blast
  with assms(4) show ?thesis
    unfolding run by (intro exI [of _ "cs @ fs"]) (simp add: announcement_def)
qed

lemma dex_ctor_announces_the_raw_pointer_witness:
  "\<exists>evs. out (uprobe_libart_dexFileCtor sample_env (sample_regs 0 0xB400007000000040 0 0) sample_state) =
     (Dex_event \<lparr>ded_begin = 0xB400007000000040, ded_pid = 42, ded_size = 112\<rparr>,
      BPF_RB_FORCE_WAKEUP) # forced evs"
proof -
  have st: "config_map sample_state = None" "get_art_layout sample_state = default_art_layout"
    "dexFileCache_map sample_state = []" "out sample_state = []"
    by (simp_all add: sample_state_def start_state_def empty_state_def get_art_layout_def)
  have "dex_header_at sample_env 0x20 0xB400007000000040 112"
    by (simp add: dex_header_at_def probe_defs sample_defs untag_def dex_size_ok_def sample_read)
  moreover have "current_tgid sample_env = 42" "e_rb_ok sample_env = (\<lambda>_ _. True)"
    by (simp_all add: current_tgid_def sample_env_def)
  ultimately show ?thesis
    using dex_ctor_announces_the_raw_pointer [of sample_state sample_env
        "sample_regs 0 0xB400007000000040 0 0" 112] st
    by (simp add: trace_allowed_def default_art_layout_def pt_regs_defs sample_regs_def)
qed

text \<open>
  An admitted \<^verbatim>\<open>mprotect\<close> is reported exactly when native scanning is on (the default),
  the address is nonzero and the size is between 0x70 bytes and 1 GB, with the caller's
  process and the requested protection.
\<close>

theorem mprotect_report_exact:
  assumes "trace_allowed (config_map s) (current_tgid e) (ucast (e_uid_gid e))"
    and "\<forall>n. e_rb_ok e native_buffer_events n"
  shows "out (uprobe_libc_mprotect e ctx s) = out s @
    (if (case config_map s of None \<Rightarrow> True | Some cfg \<Rightarrow> cfg_native_buffer_scan cfg \<noteq> 0) \<and>
        PT_REGS_PARM1 ctx \<noteq> 0 \<and> 0x70 \<le> PT_REGS_PARM2 ctx \<and> PT_REGS_PARM2 ctx \<le> 0x40000000
     then [(Native_buffer \<lparr>nbe_addr = PT_REGS_PARM1 ctx, nbe_size = PT_REGS_PARM2 ctx,
       nbe_pid = current_tgid e, nbe_source = 2, nbe_prot = ucast (PT_REGS_PARM3 ctx),
       nbe_flags = 0\<rparr>, BPF_RB_FORCE_WAKEUP)] else [])"
  using assms
  by (auto simp: uprobe_libc_mprotect_def probe_allowed_def get_config_def
      bpf_get_current_uid_gid_u32_def submit_native_buffer_event_def native_consts not_less not_le
      send_def ringbuf_defs Let_def split: option.split)

lemma mprotect_report_exact_witness:
  "out (uprobe_libc_mprotect sample_env (sample_regs 0x5000 0x1000 5 0) sample_state) =
     [(Native_buffer \<lparr>nbe_addr = 0x5000, nbe_size = 0x1000, nbe_pid = 42, nbe_source = 2,
       nbe_prot = 5, nbe_flags = 0\<rparr>, BPF_RB_FORCE_WAKEUP)]"
  using mprotect_report_exact [of sample_state sample_env "sample_regs 0x5000 0x1000 5 0"]
  by (simp add: sample_state_def start_state_def empty_state_def trace_allowed_def pt_regs_defs
      sample_regs_def sample_env_def current_tgid_def)

section \<open>The kernel interface\<close>

text \<open>
  The helper numbers are exactly 1 to 180 in order, no helper has more than the five
  parameters a BPF call can pass, and the kernels' enumerations agree with the prototypes
  on every number they share.
\<close>

theorem helper_table_is_consistent:
  "map hp_id all_helpers = [1..<181] \<and> list_all (\<lambda>h. length (hp_params h) \<le> 5) all_helpers \<and>
   list_all (\<lambda>(ids, n). length ids = n \<and> same_numbers ids) kernels"
  using helper_ids helper_arity kernels_same_numbers by (auto simp: list_all_iff)

text \<open>
  The kernel accepts every map the object declares, each ring has the declared
  capacity the model uses, and the chunk ring holds 127 chunk records (with the kernel's
  8-byte header) at once but not the 128 one call may send.
\<close>

theorem map_declarations_are_accepted:
  "list_all map_accepted bpf_maps \<and>
   find_map (ring_name r) = Some (ring_decl (ring_name r) (ring_max_entries r)) \<and>
   127 * (unat RINGBUF_SIZE + 8) \<le> ring_max_entries dex_chunks \<and>
   ring_max_entries dex_chunks < MAX_CHUNKS_PER_CALL * (unat RINGBUF_SIZE + 8)"
  using bpf_maps_accepted find_ring [of r] by (simp add: RINGBUF_SIZE_def MAX_CHUNKS_PER_CALL_def)
section \<open>Liveness of the transfer\<close>

text \<open>
  C2: Every DEX that keeps its place in the progress map is sent: take any endless interleaving of
  calls for any DEX files, from any processes and in any environments (pages missing, rings full),
  and of evictions from the LRU progress map, in which calls for this DEX that nothing stands in
  the way of keep recurring, and its own entry is evicted only finitely often (an eviction restarts
  it from offset 0). From some step on the stored progress of this DEX is its size.
\<close>

theorem dex_is_eventually_sent:
  assumes "reachable c l s" and "\<forall>n. \<exists>m\<ge>n. \<exists>call. acts m = Call call \<and> clear_call pid b D call"
    and "\<exists>n. \<forall>m\<ge>n. acts m \<noteq> Evict (dex_image_key pid b D)" and "16 \<le> length D"
  shows "\<exists>n. \<forall>m\<ge>n. dex_progress (endless_run acts s m) (dex_image_key pid b D) =
    of_nat (length D)"
proof -
  have ok: "progress_ok (dexProgress_map s)" using reachable_inv [OF assms(1)] by (simp add: bpf_inv_def)
  obtain n0 where kept: "\<And>m. n0 \<le> m \<Longrightarrow> acts m \<noteq> Evict (dex_image_key pid b D)" using assms(3) by blast
  have fair: "\<And>n. \<exists>m\<ge>n. \<exists>call. acts m = Call call \<and> clear_call pid b D call" using assms(2) by blast
  show ?thesis by (rule fair_run_completes [OF ok fair kept assms(4)])
qed

lemma dex_is_eventually_sent_witness:
  "\<exists>n. \<forall>m\<ge>n. dex_progress (endless_run (\<lambda>i. if i = 5 then Evict (dex_image_key 42 sample_begin sample_dex)
       else if even i then Call \<lparr>dc_env = sample_env, dc_begin = sample_begin, dc_pid = 42, dc_size = 112\<rparr>
       else Call \<lparr>dc_env = sample_env, dc_begin = 0x1000, dc_pid = 7, dc_size = 500\<rparr>)
     (start_state None None) m) (dex_image_key 42 sample_begin sample_dex) = 112"
proof -
  define acts where "acts = (\<lambda>i :: nat. if i = 5 then Evict (dex_image_key 42 sample_begin sample_dex)
    else if even i then Call \<lparr>dc_env = sample_env, dc_begin = sample_begin, dc_pid = 42, dc_size = 112\<rparr>
    else Call \<lparr>dc_env = sample_env, dc_begin = 0x1000, dc_pid = 7, dc_size = 500\<rparr>)"
  have clear: "\<exists>call. acts (2 * n) = Call call \<and> clear_call 42 sample_begin sample_dex call" for n :: nat
  proof -
    have "2 * n \<noteq> 5" by presburger
    then show ?thesis by (simp add: acts_def clear_call_def sample_unobstructed)
  qed
  have "\<forall>n. \<exists>m\<ge>n. \<exists>call. acts m = Call call \<and> clear_call 42 sample_begin sample_dex call"
  proof
    fix n :: nat
    have "n \<le> 2 * n" by simp
    with clear [of n] show "\<exists>m\<ge>n. \<exists>call. acts m = Call call \<and> clear_call 42 sample_begin sample_dex call" by blast
  qed
  moreover have "\<exists>n. \<forall>m\<ge>n. acts m \<noteq> Evict (dex_image_key 42 sample_begin sample_dex)"
    by (rule exI [of _ 6]) (simp add: acts_def)
  ultimately show ?thesis
    using dex_is_eventually_sent [OF reachable.start, of acts 42 sample_begin sample_dex None None]
    by (simp add: acts_def)
qed

section \<open>Names of methods\<close>

text \<open>
  C24: Strings of a DEX are read back exactly: whatever Unicode string is stored (a ULEB128
  count, the modified UTF-8 bytes with surrogate pairs and the two-byte NUL, a terminating
  zero, anything behind it), \<^verbatim>\<open>read_string_data\<close> returns that string.
\<close>

theorem dex_strings_survive:
  assumes "list_all scalar s" and "unat off \<le> length (dp_data p)"
    and "drop (unat off) (dp_data p) = encode_uleb128 n @ encode_mutf8 s @ [0] @ rest"
  shows "read_string_data p off = Inr s"
  by (rule read_string_data_at) (use assms in \<open>auto simp: string_data_at_def\<close>)

lemma dex_strings_survive_witness:
  "read_string_data \<lparr>dp_data = encode_uleb128 300 @ encode_mutf8 [0, 0x41, 0xE9, 0x20AC, 0x1F600] @
     [0, 0x42], dp_header = tiny_parsed\<rparr> 0 = Inr [0, 0x41, 0xE9, 0x20AC, 0x1F600]"
  by (rule dex_strings_survive [where n = 300 and rest = "[0x42]"]) (simp_all add: scalar_def)

text \<open>
  C11: The method look-up implements the tables of the DEX format: where the method, type,
  prototype, parameter-list and string tables describe the method \<open>idx\<close> as \<open>info\<close>,
  \<^verbatim>\<open>get_method_info\<close> returns \<open>info\<close>; none of its checked and saturating offset computations
  gets in the way of a file below 4 GB.
\<close>

theorem method_lookup_follows_the_tables:
  assumes "method_at p idx info" and "length (dp_data p) < 2 ^ 32"
  shows "get_method_info p idx = Inr info"
  by (rule get_method_info_at [OF assms])

lemma method_lookup_follows_the_tables_witness:
  "get_method_info \<lparr>dp_data = tiny_dex, dp_header = tiny_parsed\<rparr> 0 = Inr tiny_info"
  using method_lookup_follows_the_tables [OF tiny_method_at] by (simp add: tiny_parser_of_def)

text \<open>
  \<^verbatim>\<open>pretty_method\<close> prints Java: for a method of an ASCII class with any return and
  parameter types (primitives, classes, arrays to any depth), the descriptors of the DEX
  become the type names of the language, separated as in a Java signature.
\<close>

theorem pretty_method_is_java:
  assumes "type_ok ret" and "class_ok cs" and "list_all type_ok ps"
  shows "pretty_method \<lparr>mi_class_name = descriptor (Jclass cs), mi_method_name = name,
      mi_return_type = descriptor ret, mi_parameters = map descriptor ps\<rparr> =
    java_name ret @ str_lit '' '' @ join [ch_dot] cs @ str_lit ''.'' @ name @ str_lit ''('' @
      join (str_lit '', '') (map java_name ps) @ str_lit '')''"
  by (rule pretty_method_java [OF assms])

lemma pretty_method_is_java_witness:
  "pretty_method \<lparr>mi_class_name = str_lit ''La/B;'', mi_method_name = str_lit ''f'',
     mi_return_type = str_lit ''[[I'', mi_parameters = [str_lit ''J'', str_lit ''[La/B;'']\<rparr> =
   str_lit ''int[][] a.B.f(long, a.B[])''"
  using pretty_method_is_java [of "Jarray (Jarray Jint)" "[str_lit ''a'', str_lit ''B'']"
      "[Jlong, Jarray (Jclass [str_lit ''a'', str_lit ''B''])]" "str_lit ''f''"]
  by (simp add: class_ok_def)

text \<open>
  C6: A captured method ends up in the JSON file under its name: when user space holds the
  DEX and its cache of names is coherent (an invariant, see below), the record the kernel
  side sent appends exactly one entry, with the name the DEX's tables give the method, its
  index, and the captured bytes in hexadecimal (two lower-case digits per byte, as the \<^verbatim>\<open>hex\<close>
  crate documents it), which decode to the captured bytes.
\<close>

theorem method_event_is_recorded:
  assumes "dump_inv st" and "(med_pid d, med_begin d) \<notin> ambiguous_dex st"
    and "dex_sizes st (med_pid d, med_begin d) \<in> {None, Some (med_size d)}"
    and "size_in_range (med_size d)" and "length code = unat (med_codeitem_size d)" and "code \<noteq> []"
    and "dex_cache st (med_pid d, med_begin d) = Some D" and "describes D (med_method_index d) info"
    and "\<forall>bs. h_hex_encode h bs = hex_encode bs"
  shows "records_of (handle_method_event h (image ex (Method_event d code)) st)
      (med_pid d, med_begin d) =
    records_of st (med_pid d, med_begin d) @ [\<lparr>mcr_name = pretty_method info,
      mcr_method_idx = med_method_index d, mcr_code = hex_encode code\<rparr>] \<and>
    hex_decode (hex_encode code) = Some code"
  using method_event_records [of st d code D info h ex] assms
  by (auto simp: dump_inv_def hex_decode_encode)

lemma method_event_is_recorded_witness:
  "records_of (handle_method_event sample_host (image [1] (Method_event
      \<lparr>med_begin = 0x5000, med_pid = 42, med_size = 163, med_thread = 0, med_art_method_ptr = 1,
       med_method_index = 0, med_codeitem_size = 2\<rparr> [0x0E, 0]))
     (dump_state_new\<lparr>dex_cache := [(42, 0x5000) \<mapsto> tiny_dex]\<rparr>)) (42, 0x5000) =
   [\<lparr>mcr_name = str_lit ''void a.f()'', mcr_method_idx = 0, mcr_code = str_lit ''0e00''\<rparr>]"
proof -
  let ?st = "dump_state_new\<lparr>dex_cache := [(42 :: u32, 0x5000 :: u64) \<mapsto> tiny_dex]\<rparr>"
  have "dump_inv ?st"
    using dump_inv_new
    by (auto simp: dump_inv_def recv_inv_def files_inv_def pending_inv_def names_coherent_def
        dump_state_new_def)
  from method_event_is_recorded [OF this, of "\<lparr>med_begin = 0x5000, med_pid = 42, med_size = 163,
      med_thread = 0, med_art_method_ptr = 1, med_method_index = 0, med_codeitem_size = 2\<rparr>"
      "[0x0E, 0]" tiny_dex tiny_info sample_host "[1]"] tiny_describes tiny_pretty
  have "records_of (handle_method_event sample_host (image [1] (Method_event
      \<lparr>med_begin = 0x5000, med_pid = 42, med_size = 163, med_thread = 0, med_art_method_ptr = 1,
       med_method_index = 0, med_codeitem_size = 2\<rparr> [0x0E, 0])) ?st) (42, 0x5000) =
    [\<lparr>mcr_name = str_lit ''void a.f()'', mcr_method_idx = 0, mcr_code = hex_encode [0x0E, 0]\<rparr>]"
    by (simp add: dump_state_new_def records_of_def size_in_range_def sample_host_def del: str_lit_simps image.simps)
  moreover have "hex_encode [0x0E, 0] = str_lit ''0e00''"
    using sample_code by (simp add: sample_host_def del: str_lit_simps)
  ultimately show ?thesis by (simp only:)
qed

section \<open>All records of all rings\<close>

text \<open>
  C5: Whatever records arrive in whatever order on the seven rings, whatever memory the
  fallbacks find, and whenever buffers are cleaned up, captures sealed and JSON files
  written: every file is a DEX the parser accepts, no file under a plain name overwrites
  another, every cached method name is the one the DEX in the cache gives (so a new DEX at
  an address never keeps the names of the old one), reassembly buffers stay consistent with
  the announced sizes, and the event budget never exceeds 200.
\<close>

theorem user_space_keeps_its_invariant:
  assumes "user_reachable h conf st"
  shows "list_all (\<lambda>(f, bytes). dex_accepted bytes) (files st) \<and> distinct (plain_ids (files st)) \<and>
    (\<forall>p b i name. method_sig_cache st (p, b, i) = Some name \<longrightarrow>
       name = resolve_name (dex_cache st (p, b)) i) \<and>
    (\<forall>k r. pending_dex st k = Some r \<longrightarrow> recv_wf r \<and> dex_sizes st k = Some (rs_total r)) \<and>
    native_buffer_budget st \<le> 200"
  using user_reachable_inv [OF assms]
  by (auto simp: dump_inv_def recv_inv_def files_inv_def pending_inv_def names_coherent_def
      list_all_iff)

lemma user_space_keeps_its_invariant_witness:
  "list_all (\<lambda>(f, bytes). dex_accepted bytes) (files (purge_stale (\<lambda>_. False) (handle_read_failure
     sample_host (sample_world (region sample_begin sample_dex)) (image [0, 0, 0, 0] (Read_failure
        \<lparr>drf_begin = sample_begin, drf_pid = 42, drf_size = 112, drf_failed_offset = 0\<rparr>))
     dump_state_new))) \<and>
   files (purge_stale (\<lambda>_. False) (handle_read_failure
     sample_host (sample_world (region sample_begin sample_dex)) (image [0, 0, 0, 0] (Read_failure
        \<lparr>drf_begin = sample_begin, drf_pid = 42, drf_size = 112, drf_failed_offset = 0\<rparr>))
     dump_state_new)) = [(Dex_plain 42 sample_begin 112, sample_dex)]"
proof -
  let ?conf = "\<lparr>sc_native_buffer_scan = True, sc_native_elf_scan = True\<rparr>"
  let ?w = "sample_world (region sample_begin sample_dex)"
  let ?xs = "image [0, 0, 0, 0] (Read_failure
    \<lparr>drf_begin = sample_begin, drf_pid = 42, drf_size = 112, drf_failed_offset = 0\<rparr>)"
  have "user_step sample_host ?conf dump_state_new (handle_read_failure sample_host ?w ?xs dump_state_new)"
    by (rule record_step [where r = "Failure_rec ?xs" and w = ?w]) (simp del: image.simps)
  from user_space_keeps_its_invariant [OF user_next [OF user_next [OF user_start this] purge_step]]
    sample_fallback(1)
  show ?thesis by (simp add: purge_stale_def del: image.simps)
qed

section \<open>The bytecode walker\<close>

text \<open>
  C9: The walker accepts exactly the well-formed method bodies: \<^verbatim>\<open>scan_insns\<close> succeeds if and
  only if the bytes are a whole number of code units that split into instructions, as the Dalvik
  documentation lists their formats (theory Dalvik, independent of the walker's tables), and
  payloads, within 65535 registers; and then it reports the highest
  register any instruction touches (both halves of wide pairs included) plus one, the
  largest argument count of an invoke, and the length of the body.
\<close>

theorem bytecode_scan_is_the_grammar:
  "scan_insns bs = Some (Inr s) \<longleftrightarrow> even (length bs) \<and>
     (\<exists>items. list_all item items \<and> concat items = code_units bs \<and> reg_limit items \<le> 65535 \<and>
        s = scan_of items)"
  by (rule scan_accepts)

text \<open>
  C25: Malformed bodies: the walker never panics. A body with an odd number of bytes is refused before
  any instruction, with an empty partial result. Of any other it has walked exactly the longest
  well-formed prefix when it gives up, so the partial result it returns with the error covers
  every complete instruction before the fault and nothing behind it.
\<close>

theorem bytecode_errors_are_precise:
  assumes "\<And>s. scan_insns bs \<noteq> Some (Inr s)"
  shows "if odd (length bs)
    then scan_insns bs = Some (Inl \<lparr>ps_scan = \<lparr>registers_used = 0, outs_size = 0, units_walked = 0\<rparr>,
      ps_error = OddLength (length bs)\<rparr>)
    else \<exists>ps items rest. scan_insns bs = Some (Inl ps) \<and> code_units bs = concat items @ rest \<and>
      list_all item items \<and> (\<nexists>it r. rest = it @ r \<and> item it) \<and> ps_scan ps = scan_of items \<and>
      (rest \<noteq> [] \<or> 65535 < reg_limit items)"
proof (cases "odd (length bs)")
  case True
  then have "length bs div 2 * 2 \<noteq> length bs" by presburger
  with True show ?thesis by (simp add: scan_insns_def)
next
  case False
  obtain ps where ps: "scan_insns bs = Some (Inl ps)"
    using scan_never_panics [of bs] assms by (metis not_None_eq sum.exhaust)
  from False have "even (length bs)" by simp
  from scan_rejects [OF this ps] ps False show ?thesis by auto
qed

lemma bytecode_errors_are_precise_witness:
  "\<exists>ps items rest. scan_insns [0x3E, 0] = Some (Inl ps) \<and>
     code_units [0x3E, 0] = concat items @ rest \<and> list_all item items \<and>
     ps_scan ps = scan_of items \<and> (rest \<noteq> [] \<or> 65535 < reg_limit items)"
proof -
  have "scan_insns [0x3E, 0] \<noteq> Some (Inr s)" for s
  proof -
    have "format_of 0x3E = None" by (simp add: format_of_None unused_opcode_def)
    then show ?thesis
      by (simp add: scan_insns_def scan_loop.simps unit_at_def slice_get_def scan_fail_def Let_def)
  qed
  from bytecode_errors_are_precise [OF this] show ?thesis by auto
qed

section \<open>Searching the memory of a process\<close>

text \<open>
  C22: The search of a readable region reports a valid DEX exactly when its magic does not
  cross the boundary of a scan page: with all of the region readable and the DEX inside the
  readable end, it is found if its offset in its page is at most 0xFFC, and never otherwise.
\<close>

theorem region_scan_exact:
  assumes "reads_memory rm pid m" and "\<forall>p. rm_running rm p"
    and "read_bytes m start (unat scan_end - unat start) = Some bytes" and "dex_at m b sz D"
    and "unat start \<le> unat b" and "unat b + 4 \<le> unat scan_end"
    and "unat b + unat sz \<le> unat readable_end"
  shows "(b, sz, D) \<in> set (scan_region_for_dex rm pid start scan_end readable_end []) \<longleftrightarrow>
    (unat b - unat start) mod 0x1000 \<le> 0xFFC"
proof
  assume "(b, sz, D) \<in> set (scan_region_for_dex rm pid start scan_end readable_end [])"
  then show "(unat b - unat start) mod 0x1000 \<le> 0xFFC" by (rule scan_region_one_page)
next
  assume one_page: "(unat b - unat start) mod 0x1000 \<le> 0xFFC"
  show "(b, sz, D) \<in> set (scan_region_for_dex rm pid start scan_end readable_end [])"
    using assms(2) by (intro scan_region_complete [OF assms(1) _ assms(3-7) one_page]) simp
qed

lemma region_scan_exact_witness:
  "(sample_begin, 112, sample_dex) \<in> set (scan_region_for_dex
     (whole_reader (region sample_begin sample_dex)) 42 sample_begin (sample_begin + 112)
     (sample_begin + 112) [])"
proof -
  have v: "validate_dex_header sample_dex = Some 112"
    by (simp add: validate_dex_header_iff dex_magic_def file_size_ok_def le32_def slice_get_def
        sample_dex_def)
  have "dex_at (region sample_begin sample_dex) sample_begin 112 sample_dex"
    using sample_image v by (simp add: dex_at_def)
  moreover have "unat (sample_begin + 112) = unat sample_begin + 112"
    by (simp add: sample_begin_def)
  ultimately show ?thesis
    using region_scan_exact [OF whole_reader_reads, where m = "region sample_begin sample_dex"
        and start = sample_begin and scan_end = "sample_begin + 112" and b = sample_begin
        and sz = 112 and D = sample_dex and readable_end = "sample_begin + 112" and pid = 42]
      sample_image
    by (simp add: whole_reader_def)
qed

text \<open>
  C23: The search of a reported buffer ends, wherever the buffer lies below the last 0x1070
  bytes of the address space and whatever can be read there, and everything it returns
  without an error was validated in place, passed the parser and ends inside the buffer.
\<close>

theorem buffer_scan_returns_valid_files:
  assumes "unat addr + unat (min sz NATIVE_BUFFER_SCAN_LIMIT) + 0x1070 \<le> 2 ^ 64"
  shows "\<exists>r. dump_dex_from_native_buffer rm pid addr sz = Some r \<and>
    (case r of Inl _ \<Rightarrow> True | Inr found \<Rightarrow>
      list_all (found_ok rm pid (addr + min sz NATIVE_BUFFER_SCAN_LIMIT)) found)"
proof -
  let ?stop = "addr + min sz NATIVE_BUFFER_SCAN_LIMIT"
  have stop: "unat ?stop = unat addr + unat (min sz NATIVE_BUFFER_SCAN_LIMIT)"
    by (rule no_wrap_add) (use assms in simp)
  obtain found where scan: "native_scan rm pid ?stop addr [] = Some found"
    using native_scan_returns [of ?stop addr rm pid "[]"] assms stop by auto
  moreover have "list_all (found_ok rm pid ?stop) found"
    by (rule native_scan_ok [OF scan]) simp
  moreover have "checked_u64_add addr (min sz NATIVE_BUFFER_SCAN_LIMIT) = Some ?stop"
    using assms by (simp add: checked_u64_add_def)
  ultimately show ?thesis
    by (auto simp: dump_dex_from_native_buffer_def scan_native_range_for_dex_def Let_def found_ok_def
        split: option.split)
qed

lemma buffer_scan_returns_valid_files_witness:
  "\<exists>r. dump_dex_from_native_buffer (whole_reader (region sample_begin sample_dex)) 42
     sample_begin 112 = Some r"
  using buffer_scan_returns_valid_files [of sample_begin 112
      "whole_reader (region sample_begin sample_dex)" 42]
  by (auto simp: sample_begin_def NATIVE_BUFFER_SCAN_LIMIT_def min_def)

text \<open>
  C38: One call of \<^verbatim>\<open>mprotect\<close> stops user space: when a traced process passes the address
  0xffffffffffffff00 and the length 0x80 (the kernel would refuse it, but the probe sits at
  the entry of the libc function), the probe reports it, and the handler of that record
  does not return as long as the program keeps running.
\<close>

theorem one_mprotect_call_stops_user_space:
  assumes "trace_allowed (config_map s) (current_tgid e) (ucast (e_uid_gid e))"
    and "\<forall>n. e_rb_ok e native_buffer_events n"
    and "case config_map s of None \<Rightarrow> True | Some cfg \<Rightarrow> cfg_native_buffer_scan cfg \<noteq> 0"
    and "PT_REGS_PARM1 ctx = 0xffffffffffffff00" and "PT_REGS_PARM2 ctx = 0x80"
    and "sc_native_buffer_scan conf" and "w_running w" and "\<forall>p. rm_running (w_remote w) p"
    and "0 < native_buffer_budget st"
    and "rm_readv (w_remote w) (current_tgid e) 0xffffffffffffff00 0x70 = None"
  shows "\<exists>ev fl. out (uprobe_libc_mprotect e ctx s) = out s @ [(ev, fl)] \<and>
    handle_any h conf w (Native_rec (image ex ev)) st = None"
proof -
  let ?d = "\<lparr>nbe_addr = 0xffffffffffffff00, nbe_size = 0x80, nbe_pid = current_tgid e,
    nbe_source = 2, nbe_prot = ucast (PT_REGS_PARM3 ctx), nbe_flags = 0\<rparr>"
  have "out (uprobe_libc_mprotect e ctx s) = out s @ [(Native_buffer ?d, BPF_RB_FORCE_WAKEUP)]"
    using mprotect_report_exact [OF assms(1,2)] assms(3-5) by simp
  moreover have "handle_native_buffer_event h conf w (image ex (Native_buffer ?d)) st = None"
    by (rule native_handler_hangs) (use assms(6-10) in \<open>simp_all add: NATIVE_BUFFER_SCAN_LIMIT_def min_def\<close>)
  ultimately show ?thesis by (auto simp del: image.simps)
qed

lemma one_mprotect_call_stops_user_space_witness:
  "\<exists>ev fl. out (uprobe_libc_mprotect sample_env (sample_regs 0xffffffffffffff00 0x80 4 0)
       sample_state) = out sample_state @ [(ev, fl)] \<and>
     handle_any sample_host \<lparr>sc_native_buffer_scan = True, sc_native_elf_scan = False\<rparr>
       (sample_world (\<lambda>_. None)) (Native_rec (image [] ev)) dump_state_new = None"
proof -
  have unread: "read_bytes (\<lambda>_. None) a 112 = None" for a :: u64
    using read_bytes_numeral [of "\<lambda>_. None" a] by simp
  show ?thesis
    by (rule one_mprotect_call_stops_user_space)
      (simp_all add: sample_state_def start_state_def empty_state_def trace_allowed_def
        pt_regs_defs sample_regs_def sample_env_def whole_reader_def dump_state_new_def unread)
qed

section \<open>The fallback for unreadable pages\<close>

text \<open>
  C10: The fallback completes a transfer the kernel side could not make: a record of a read
  failure for a DEX that is new to user space, whose image the other process can be read
  for, makes user space write that image under the plain name and cache it.
\<close>

theorem fallback_fetches_the_dex:
  assumes "reads_memory (w_remote w) pid m" and "read_bytes m b (length D) = Some D"
    and "host_saves h pid b D" and "le32 D 0x20 = Some (dex_len D)"
    and "failure_of pid b (dex_len D) d" and "4 \<le> length ex" and "w_running w"
    and "key_fresh st pid b (dex_len D)"
  shows "files (handle_read_failure h w (image ex (Read_failure d)) st) =
      files st @ [(Dex_plain pid b (dex_len D), D)] \<and>
    dex_cache (handle_read_failure h w (image ex (Read_failure d)) st) (pid, b) = Some D"
  using fallback_fetches_all [OF assms] by blast

lemma fallback_fetches_the_dex_witness:
  "files (handle_read_failure sample_host (sample_world (region sample_begin sample_dex))
     (image [0, 0, 0, 0] (Read_failure \<lparr>drf_begin = sample_begin OR 0xB400000000000000,
        drf_pid = 42, drf_size = 112, drf_failed_offset = 0\<rparr>)) dump_state_new) =
   [(Dex_plain 42 sample_begin 112, sample_dex)]"
proof -
  have z: "dex_len sample_dex = 112" by (simp add: dex_len_def)
  have "reads_memory (w_remote (sample_world (region sample_begin sample_dex))) 42
      (region sample_begin sample_dex)" by (simp add: whole_reader_reads)
  from fallback_fetches_the_dex [OF this _ sample_host_saves, where d = "\<lparr>drf_begin = sample_begin OR
      0xB400000000000000, drf_pid = 42, drf_size = 112, drf_failed_offset = 0\<rparr>"
      and ex = "[0, 0, 0, 0]" and st = dump_state_new] sample_image sample_file_size z
  show ?thesis
    by (simp add: failure_of_def key_fresh_def dump_state_new_def sample_begin_def del: image.simps)
qed

text \<open>
  A DEX whose tail cannot be read is lost for good: when only its first pages are
  readable, the fallback saves them with the shorter size; that contradicts the announced
  size, so the address is quarantined and its chunks and methods are ignored from then on.
\<close>

theorem unreadable_tail_quarantines:
  assumes "reads_memory (w_remote w) pid m" and "read_bytes m b (0x1000 * k) = Some p0"
    and "1 \<le> k" and "0x1000 * k < unat z" and "size_in_range z"
    and "\<And>i. 0x1000 * k \<le> i \<Longrightarrow> i < unat z \<Longrightarrow> m (b + of_nat i) = None"
    and "dex_accepted p0" and "\<And>n. \<not> h_skip_system h pid b n"
    and "failure_of pid b z d" and "4 \<le> length ex" and "w_running w" and "key_fresh st pid b z"
  shows "(pid, b) \<in> ambiguous_dex (handle_read_failure h w (image ex (Read_failure d)) st)"
  by (rule fallback_tail [OF assms])

lemma unreadable_tail_quarantines_witness:
  "(42, 0x5000) \<in> ambiguous_dex (handle_read_failure sample_host
     (sample_world (region 0x5000 (sample_dex @ replicate 3984 0)))
     (image [0, 0, 0, 0] (Read_failure \<lparr>drf_begin = 0x5000, drf_pid = 42, drf_size = 0x2000,
        drf_failed_offset = 0\<rparr>)) dump_state_new)"
proof -
  let ?p = "sample_dex @ replicate 3984 0"
  have len: "length ?p = 0x1000" by simp
  have dark: "region 0x5000 ?p (0x5000 + of_nat i) = None" if "0x1000 \<le> i" "i < 0x2000" for i
  proof -
    have "unat (of_nat i :: u64) = i" using that(2) by (simp add: unat_of_nat take_bit_nat_eq_self)
    with that(1) len show ?thesis by (simp add: region_def)
  qed
  show ?thesis
  proof (rule unreadable_tail_quarantines [where k = 1 and z = "0x2000" and ?p0.0 = "?p"
        and m = "region 0x5000 ?p"])
    show "read_bytes (region 0x5000 ?p) 0x5000 (0x1000 * 1) = Some ?p"
      using region_read [of 0 "0x1000" ?p "0x5000"] by simp
    show "dex_accepted ?p" by (simp add: dex_accepted_iff DEX_FILE_MAGIC_def sample_dex_def)
    show "region 0x5000 ?p (0x5000 + of_nat i) = None" if "0x1000 * 1 \<le> i" "i < unat (0x2000 :: u32)" for i
      using dark that by simp
  qed (simp_all add: whole_reader_reads size_in_range_def sample_host_def failure_of_def
      key_fresh_def dump_state_new_def)
qed

text \<open>
  A hole in the middle goes unnoticed: when one page of a DEX cannot be read and at
  least one page follows it, the fallback counts the bytes it got, cuts the buffer at that
  count although they are no prefix, lets the file size of the header bring the cut tail
  back, and writes the DEX under its plain name with the page it never read as zeros.
\<close>

theorem hole_is_saved_as_zeros:
  assumes "reads_memory (w_remote w) pid m" and "read_bytes m b (0x1000 * k) = Some p0"
    and "read_bytes m (b + of_nat (0x1000 * k)) 0x1000 = None"
    and "read_bytes m (b + of_nat (0x1000 * k + 0x1000)) r = Some p2"
    and "1 \<le> k" and "0x1000 \<le> r" and "Z = p0 @ replicate 0x1000 0 @ p2"
    and "host_saves h pid b Z" and "le32 p0 0x20 = Some (dex_len Z)"
    and "failure_of pid b (dex_len Z) d" and "4 \<le> length ex" and "w_running w"
    and "key_fresh st pid b (dex_len Z)"
  shows "files (handle_read_failure h w (image ex (Read_failure d)) st) =
    files st @ [(Dex_plain pid b (dex_len Z), Z)]"
  by (rule fallback_hole [OF assms])

lemma hole_is_saved_as_zeros_witness:
  "files (handle_read_failure sample_host (sample_world holed_memory)
     (image [0, 0, 0, 0] (Read_failure \<lparr>drf_begin = 0x5000, drf_pid = 42, drf_size = 0x3000,
        drf_failed_offset = 0\<rparr>)) dump_state_new) =
   [(Dex_plain 42 0x5000 0x3000, first_page @ replicate 0x1000 0 @ replicate 0x1000 7)]"
proof -
  let ?Z = "first_page @ replicate 0x1000 0 @ replicate 0x1000 7"
  have z: "dex_len ?Z = 0x3000" by (simp add: dex_len_def)
  have "files (handle_read_failure sample_host (sample_world holed_memory)
     (image [0, 0, 0, 0] (Read_failure \<lparr>drf_begin = 0x5000, drf_pid = 42, drf_size = 0x3000,
        drf_failed_offset = 0\<rparr>)) dump_state_new) =
     files dump_state_new @ [(Dex_plain 42 0x5000 (dex_len ?Z), ?Z)]"
    by (rule hole_is_saved_as_zeros [where k = 1 and r = "0x1000" and m = holed_memory, OF _ _ _ _ _ _ refl])
      (use holed_pages in \<open>simp_all add: z whole_reader_reads host_saves_def sample_host_def
        failure_of_def key_fresh_def dump_state_new_def first_page_accepted first_page_size
        del: image.simps\<close>)
  then show ?thesis by (simp add: z dump_state_new_def del: image.simps)
qed
section \<open>The main loop\<close>

text \<open>
  C34: The cleanup of stale buffers loses a DEX for good: the kernel side sends a DEX that
  needs more than one call in parts and remembers what it has sent; when user space drops
  the first part because nothing arrived for thirty seconds, the parts that follow never
  complete the file, in whatever order and however often they arrive, and once its progress
  is complete the kernel side sends nothing more.
\<close>

theorem stale_cleanup_loses_the_dex:
  assumes "map_of (dexProgress_map s) (dex_image_key pid b D) = None"
    and "list_all (\<lambda>e. unobstructed e b D) (es1 @ es2 @ es3)" and "length D = unat sz"
    and "host_saves h pid b D" and "es1 \<noteq> []" and "length es1 * BYTES_PER_CALL < length D"
    and "length D \<le> (length es1 + length es2) * BYTES_PER_CALL"
    and "s1 = submit_dex_calls es1 b pid sz s" and "s2 = submit_dex_calls es2 b pid sz s1"
    and "set (map snd recs1) = set (sent_since s s1)"
    and "set (map snd recs2) = set (sent_since s1 s2)" and "\<not> live (pid, b)"
  shows "files (receive_all h recs2 (purge_stale live (receive_all h recs1 dump_state_new))) = [] \<and>
    submit_dex_calls es3 b pid sz s2 = s2"
  using stale_cleanup [where ?es1.0 = es1 and ?es2.0 = es2 and ?es3.0 = es3 and live = live, OF assms]
  by blast

lemma stale_cleanup_loses_the_dex_witness:
  "files (receive_all sample_host (map (Pair []) (sent_since
       (submit_dex_calls [big_env] 0x5000 42 16774256 sample_state)
       (submit_dex_calls [big_env] 0x5000 42 16774256
         (submit_dex_calls [big_env] 0x5000 42 16774256 sample_state))))
     (purge_stale (\<lambda>_. False) (receive_all sample_host (map (Pair []) (sent_since sample_state
       (submit_dex_calls [big_env] 0x5000 42 16774256 sample_state))) dump_state_new))) = []"
proof -
  have new: "map_of (dexProgress_map sample_state) (dex_image_key 42 0x5000 big_dex) = None"
    by (simp add: sample_state_def start_state_def empty_state_def)
  have un: "list_all (\<lambda>e. unobstructed e 0x5000 big_dex) ([big_env] @ [big_env] @ [])"
    by (simp add: big_unobstructed)
  have host: "host_saves sample_host 42 0x5000 big_dex"
    by (simp add: host_saves_def sample_host_def big_accepted)
  from stale_cleanup_loses_the_dex [where ?es1.0 = "[big_env]" and ?es2.0 = "[big_env]" and ?es3.0 = "[]",
      OF new un _ host _ _ _ refl refl, where sz = 16774256
      and live = "\<lambda>_. False"
      and ?recs1.0 = "map (Pair []) (sent_since sample_state
        (submit_dex_calls [big_env] 0x5000 42 16774256 sample_state))"
      and ?recs2.0 = "map (Pair []) (sent_since
        (submit_dex_calls [big_env] 0x5000 42 16774256 sample_state)
        (submit_dex_calls [big_env] 0x5000 42 16774256
          (submit_dex_calls [big_env] 0x5000 42 16774256 sample_state)))"]
  show ?thesis by (simp add: BYTES_PER_CALL_def image_image)
qed

text \<open>
  C35: Methods overtake their DEX: the kernel side sends the chunks of a DEX before the record
  of the method that was traced in it, but an iteration drains the ring of methods before
  the ring of chunks. When both wait, the iteration writes the DEX and yet records the
  method under its number, whatever name the DEX gives it.
\<close>

theorem methods_overtake_their_dex:
  assumes "user_reachable h conf st" and "key_fresh st pid b (dex_len D)"
    and "pending_dex st (pid, b) = None" and "host_saves h pid b D"
    and "med_pid d = pid" and "med_begin d = b" and "med_size d = dex_len D"
    and "length code = unat (med_codeitem_size d)" and "code \<noteq> []"
    and "\<forall>(e, ev) \<in> set recs. piece_of pid b D ev" and "{0..<dex_len D} \<subseteq> spans (map snd recs)"
    and "length recs \<le> DRAIN_BATCH_LIMIT"
  shows "\<exists>st'. main_iteration h conf live (no_rings\<lparr>rg_methods := [(w, image ex (Method_event d code))],
      rg_chunks := chunk_queue w recs\<rparr>) st = Some (no_rings, st') \<and>
    files st' = files st @ [(Dex_plain pid b (dex_len D), D)] \<and> dex_cache st' (pid, b) = Some D \<and>
    records_of st' (pid, b) = records_of st (pid, b) @
      [\<lparr>mcr_name = unresolved_name (med_method_index d), mcr_method_idx = med_method_index d,
        mcr_code = h_hex_encode h code\<rparr>]"
  by (rule methods_overtake_chunks [OF user_reachable_inv [OF assms(1)] assms(2-12) refl])

lemma methods_overtake_their_dex_witness:
  "\<exists>st'. main_iteration sample_host \<lparr>sc_native_buffer_scan = True, sc_native_elf_scan = True\<rparr>
      (\<lambda>_. True) (no_rings\<lparr>rg_methods := [(sample_world (\<lambda>_. None), image [] (Method_event
        \<lparr>med_begin = 0x5000, med_pid = 42, med_size = 163, med_thread = 0, med_art_method_ptr = 1,
         med_method_index = 0, med_codeitem_size = 2\<rparr> [0x0E, 0]))],
      rg_chunks := chunk_queue (sample_world (\<lambda>_. None))
        [([], chunk_event 0x5000 42 163 0 163 tiny_dex)]\<rparr>) dump_state_new = Some (no_rings, st') \<and>
    dex_cache st' (42, 0x5000) = Some tiny_dex \<and>
    records_of st' (42, 0x5000) = [\<lparr>mcr_name = str_lit ''method_idx_0'', mcr_method_idx = 0,
      mcr_code = str_lit ''0e00''\<rparr>]"
proof -
  let ?d = "\<lparr>med_begin = 0x5000, med_pid = 42, med_size = 163, med_thread = 0,
    med_art_method_ptr = 1, med_method_index = 0, med_codeitem_size = 2\<rparr>"
  let ?recs = "[([] :: u8 list, chunk_event 0x5000 42 163 0 163 tiny_dex)]"
  have z: "dex_len tiny_dex = 163" by (simp add: dex_len_def)
  have fresh: "key_fresh dump_state_new 42 0x5000 (dex_len tiny_dex)"
    by (simp add: key_fresh_def dump_state_new_def)
  have host: "host_saves sample_host 42 0x5000 tiny_dex"
    by (simp add: host_saves_def sample_host_def tiny_accepted)
  have pieces: "\<forall>(e, ev) \<in> set ?recs. piece_of 42 0x5000 tiny_dex ev"
    by (simp add: piece_of_def chunk_event_def chunk_header_ok_def)
  have cover: "{0..<dex_len tiny_dex} \<subseteq> spans (map snd ?recs)"
    by (simp add: z chunk_event_def)
  note run = methods_overtake_their_dex [OF user_start fresh _ host, where d = ?d and code = "[0x0E, 0]"
      and recs = ?recs and conf = "\<lparr>sc_native_buffer_scan = True, sc_native_elf_scan = True\<rparr>"
      and live = "\<lambda>_. True" and w = "sample_world (\<lambda>_. None)" and ex = "[]", OF _ _ _ _ _ _ pieces cover]
  have "pending_dex dump_state_new (42, 0x5000) = None" "records_of dump_state_new (42, 0x5000) = []"
    by (simp_all add: dump_state_new_def records_of_def)
  with run z sample_code show ?thesis
    by (simp add: DRAIN_BATCH_LIMIT_def unresolved_name_def decimal_def digits_rev.simps
        del: image.simps) blast
qed

section \<open>Writing captured code back\<close>

text \<open>
  C18: Re-encoding a class data item loses nothing: whatever the reader of \<^verbatim>\<open>fix.rs\<close> returns for an
  item of any file (index differences accumulated with saturation, four counts, any ULEB128
  lengths), the writer's bytes are read back as the same fields and methods, wherever they are put.
\<close>

theorem class_data_survives_reencoding:
  assumes "parse_class_data dex off = Inr cd"
    and "drop (unat off') dex' = encode_class_data cd @ rest" and "unat off' \<le> length dex'"
  shows "parse_class_data dex' off' = Inr cd"
  using parse_encode_class_data [OF parse_class_data_Inr [OF assms(1)] assms(2,3)]
  by (simp add: parse_class_data_def)

lemma class_data_survives_reencoding_witness:
  "parse_class_data (encode_class_data item_class) 0 = Inr item_class"
  by (rule class_data_survives_reencoding [OF item_parse_class, where rest = "[]"]) simp_all

text \<open>
  C19: The write-back is exact: when no code item of the DEX overlaps another, every method whose
  capture has the length of its instructions holds the last such capture afterwards, every other
  method its old instructions; no other byte behind the checksums changes, the length stays, and
  signature and checksum are recomputed. Each record is either applied or counted as skipped.
\<close>

theorem write_back_is_exact:
  assumes "dex_parser_new dex = Inr header"
    and "build_method_code_off_map \<lparr>dp_data = dex, dp_header = header\<rparr> = Inr m"
    and "disjoint_items dex (code_offsets m)" and "\<forall>a\<in>code_offsets m. 32 \<le> a"
    and "\<not> fo_force_mismatch opts" and "sha1_size lb"
  shows "\<exists>outcome dex'. fix_one_dex_bytes lb dex (Inr rs) opts = Inr (outcome, dex') \<and>
    length dex' = length dex \<and> checksums_ok lb dex' \<and>
    (\<forall>a\<in>code_offsets m. item_fits dex a \<longrightarrow>
       insns_at dex' a = last_capture (targets lb m dex rs) a (insns_at dex a)) \<and>
    (\<forall>i. 32 \<le> i \<and> i < length dex \<and> (\<forall>(off, bs) \<in> set (targets lb m dex rs).
       i \<notin> {off + 0x10 ..< off + 0x10 + insns_len dex off}) \<longrightarrow> dex' ! i = dex ! i) \<and>
    fs_applied (fx_stats outcome) = length (targets lb m dex rs) \<and>
    fs_applied (fx_stats outcome) + fs_skipped (fx_stats outcome) = length rs"
  by (rule fix_one_dex_exact [OF assms(1-3) _ assms(5,6), of rs])
    (use assms(4) in blast, intro exI conjI, assumption+, blast+)

lemma write_back_is_exact_witness:
  "\<exists>outcome dex'. fix_one_dex_bytes sample_libs item_dex (Inr [body_record short_body]) exact_fits =
     Inr (outcome, dex') \<and> insns_at dex' 0xCC = short_body \<and> fs_applied (fx_stats outcome) = 1"
proof -
  have len: "insns_len item_dex 0xCC = 4" and offs: "code_offsets [(0, 0xCC)] = {0xCC}"
    using item_code(2)
    by (auto simp: insns_len_def hdr_le32_def item_slices item_data_def code_offsets_def)
  then have t: "targets sample_libs [(0, 0xCC)] item_dex [body_record short_body] = [(0xCC, short_body)]"
    by (simp add: target_def body_record_def hex_decode_encode item_fits_def)
  have "disjoint_items item_dex {0xCC}" by (simp add: disjoint_items_def)
  with write_back_is_exact [OF item_accepted item_code_offs [unfolded item_parser_def] _ _ _ sample_sha1,
      of exact_fits "[body_record short_body]"]
  show ?thesis
    by (auto simp: offs t exact_fits_def item_fits_def len last_capture_def simp del: targets.simps)
qed

text \<open>
  C7: A captured method reaches the repaired file: the record the kernel side sent for a method of a
  DEX that user space holds is appended to the DEX's records, and writing these records back
  puts exactly the captured bytes into the method's code item, with valid checksums, whatever
  was captured before.
\<close>

theorem captured_code_reaches_the_file:
  assumes "dump_inv st" and "(med_pid d, med_begin d) \<notin> ambiguous_dex st"
    and "dex_sizes st (med_pid d, med_begin d) \<in> {None, Some (med_size d)}"
    and "size_in_range (med_size d)" and "length code = unat (med_codeitem_size d)" and "code \<noteq> []"
    and "dex_cache st (med_pid d, med_begin d) = Some D" and "describes D (med_method_index d) info"
    and "dex_parser_new D = Inr header"
    and "build_method_code_off_map \<lparr>dp_data = D, dp_header = header\<rparr> = Inr m"
    and "disjoint_items D (code_offsets m)" and "\<forall>a\<in>code_offsets m. 32 \<le> a"
    and "map_of m (med_method_index d) = Some off" and "off \<noteq> 0" and "item_fits D (unat off)"
    and "length code = insns_len D (unat off)" and "\<not> fo_force_mismatch opts" and "sha1_size lb"
    and "\<forall>bs. lib_hex_decode lb (h_hex_encode h bs) = Some bs"
  shows "\<exists>outcome dex'. fix_one_dex_bytes lb D
      (Inr (records_of (handle_method_event h (image ex (Method_event d code)) st)
        (med_pid d, med_begin d))) opts = Inr (outcome, dex') \<and>
    insns_at dex' (unat off) = code \<and> checksums_ok lb dex' \<and> length dex' = length D"
proof -
  let ?r = "\<lparr>mcr_name = pretty_method info, mcr_method_idx = med_method_index d,
    mcr_code = h_hex_encode h code\<rparr>"
  let ?rs = "records_of st (med_pid d, med_begin d) @ [?r]"
  have rec: "records_of (handle_method_event h (image ex (Method_event d code)) st)
      (med_pid d, med_begin d) = ?rs"
    using method_event_records [of st d code D info h ex] assms(1-8) by (auto simp: dump_inv_def)
  have "target lb m D ?r = Some (unat off, code)"
    using assms(13-16,19) by (simp add: target_def)
  then have t: "targets lb m D ?rs =
      targets lb m D (records_of st (med_pid d, med_begin d)) @ [(unat off, code)]"
    by (simp add: targets_append)
  have off: "unat off \<in> code_offsets m" using assms(13,14) by (auto simp: code_offsets_def)
  show ?thesis
    unfolding rec
    by (rule fix_one_dex_exact [OF assms(9-11) _ assms(17,18), of ?rs])
      (use assms(12) in blast, use off assms(15) in \<open>auto simp: t last_capture_snoc\<close>)
qed

lemma captured_code_reaches_the_file_witness:
  "\<exists>outcome dex'. fix_one_dex_bytes sample_libs item_dex (Inr (records_of
      (handle_method_event sample_host (image [1] (Method_event
        \<lparr>med_begin = 0x5000, med_pid = 42, med_size = 272, med_thread = 0, med_art_method_ptr = 1,
         med_method_index = 0, med_codeitem_size = 4\<rparr> short_body))
        (dump_state_new\<lparr>dex_cache := [(42, 0x5000) \<mapsto> item_dex]\<rparr>)) (42, 0x5000))) exact_fits =
    Inr (outcome, dex') \<and> insns_at dex' 0xCC = short_body"
proof -
  let ?st = "dump_state_new\<lparr>dex_cache := [(42 :: u32, 0x5000 :: u64) \<mapsto> item_dex]\<rparr>"
  have "dump_inv ?st"
    using dump_inv_new
    by (auto simp: dump_inv_def recv_inv_def files_inv_def pending_inv_def names_coherent_def
        dump_state_new_def)
  moreover have len: "insns_len item_dex 0xCC = 4"
    by (simp add: insns_len_def hdr_le32_def item_slices item_data_def)
  moreover have offs: "code_offsets [(0, 0xCC)] = {0xCC}" by (auto simp: code_offsets_def)
  moreover have "disjoint_items item_dex {0xCC}" by (simp add: disjoint_items_def)
  moreover have "short_body \<noteq> []" by (simp add: short_body_def)
  moreover have "lib_hex_decode sample_libs (h_hex_encode sample_host bs) = Some bs" for bs
    by (simp add: sample_host_def hex_decode_encode)
  ultimately show ?thesis
    using captured_code_reaches_the_file [of ?st "\<lparr>med_begin = 0x5000, med_pid = 42, med_size = 272,
        med_thread = 0, med_art_method_ptr = 1, med_method_index = 0, med_codeitem_size = 4\<rparr>" short_body
        item_dex item_info item_parsed "[(0, 0xCC)]" "0xCC" exact_fits sample_libs sample_host "[1]"]
      item_describes item_accepted item_code_offs sample_sha1
    by (simp add: item_parser_def dump_state_new_def size_in_range_def item_fits_def exact_fits_def
        del: image.simps) blast
qed

text \<open>
  Coverage counts exactly: the total is the number of methods whose class data has a code offset,
  the methods reported missing are exactly those of them without a record, each once and in
  ascending order, and the captured ones are the rest.
\<close>

theorem coverage_is_exact:
  assumes "build_method_code_off_map p = Inr m"
  shows "cov_total_methods (compute_coverage p m rs) = card {i. \<exists>off. map_of m i = Some off \<and> off \<noteq> 0} \<and>
    mm_method_idx ` set (cov_missed_methods (compute_coverage p m rs)) =
      {i. (\<exists>off. map_of m i = Some off \<and> off \<noteq> 0) \<and> i \<notin> set (map mcr_method_idx rs)} \<and>
    sorted (map mm_method_idx (cov_missed_methods (compute_coverage p m rs))) \<and>
    distinct (map mm_method_idx (cov_missed_methods (compute_coverage p m rs))) \<and>
    cov_captured_methods (compute_coverage p m rs) +
      length (cov_missed_methods (compute_coverage p m rs)) = cov_total_methods (compute_coverage p m rs)"
  by (intro conjI coverage_counts [OF build_map_distinct [OF assms] refl])

lemma coverage_is_exact_witness:
  "mm_method_idx ` set (cov_missed_methods (compute_coverage item_parser [(0, 0xCC)] [])) = {0}"
proof -
  have "{i :: u32. (\<exists>off. map_of [(0 :: u32, 0xCC :: u32)] i = Some off \<and> off \<noteq> 0) \<and>
      i \<notin> set (map mcr_method_idx [])} = {0}" by auto
  with coverage_is_exact [OF item_code_offs, of "[]"] show ?thesis by simp
qed

section \<open>Rebuilding code items\<close>

text \<open>
  C27: A rebuilt code item reads back: placed at an aligned offset of a file it ends where its bytes
  end and has exactly the captured instructions, and its header gives the arguments of the
  signature, the outgoing arguments of the body, and a register window that is as large as the
  larger of what the body names and the arguments.
\<close>

theorem rebuilt_item_reads_back:
  assumes "synthesize_code_item lb p idx flags r opts = Inr code" and "\<not> fo_force_mismatch opts"
    and "drop (unat off) dex = code @ rest" and "off \<noteq> 0" and "unat off mod 4 = 0"
  shows "\<exists>insns items ins. lib_hex_decode lb (mcr_code r) = Some insns \<and>
    insns_at dex (unat off) = insns \<and> code_item_insns_len dex off = Some (length insns) \<and>
    code_item_end dex off = Inr (unat off + length code) \<and>
    list_all item items \<and> concat items = code_units insns \<and> incoming_words p idx flags = Inr ins \<and>
    unat (le_word (take 2 code) :: u16) = max (reg_limit items) (unat ins) \<and>
    le_word (take 2 (drop 2 code)) = ins \<and>
    unat (le_word (take 2 (drop 4 code)) :: u16) = min (arg_limit items) 65535"
proof (rule synthesized_item_at [OF assms(1,3,4)])
  fix insns assume hex: "lib_hex_decode lb (mcr_code r) = Some insns"
    and at: "code_item_insns_len dex off = Some (length insns)" "insns_at dex (unat off) = insns"
    and stop: "unat off mod 4 = 0 \<Longrightarrow> code_item_end dex off = Inr (unat off + length code)"
  show ?thesis
  proof (rule synthesized_window [OF assms(1,2) hex])
    fix items and ins :: u16
    assume "list_all item items" "concat items = code_units insns" "incoming_words p idx flags = Inr ins"
      "unat (le_word (take 2 code) :: u16) = max (reg_limit items) (unat ins)"
      "le_word (take 2 (drop 2 code)) = ins"
      "unat (le_word (take 2 (drop 4 code)) :: u16) = min (arg_limit items) 65535"
    then show ?thesis
      by (intro exI [of _ insns] exI [of _ items] exI [of _ ins] conjI hex at stop assms(5))
  qed
qed

lemma rebuilt_item_reads_back_witness:
  "\<exists>insns. hex_decode (mcr_code (body_record long_body)) = Some insns \<and>
     insns_at ([0, 0, 0, 0] @ code_item_bytes 2 2 0 3 long_body) 4 = insns"
  using rebuilt_item_reads_back [OF synthesized_bodies(2), of 4
      "[0, 0, 0, 0] @ code_item_bytes 2 2 0 3 long_body" "[]"]
  by (simp add: exact_fits_def)

section \<open>The structure of a repaired file\<close>

text \<open>
  C8: Relocation rebuilds every class: when code items are missing, stale or replaced, the classes get
  new data at the end of the file in which every field and method is as before, every concrete
  method has its intact original code item, the item rebuilt from its capture, or none when there
  is neither, and nothing of this is lost when the old sections are cleared, provided the map
  does not let them reach into the class table.
\<close>

theorem relocation_rebuilds_every_class:
  assumes "append_missing_code_items lb dex records opts = Inr (out1, dex')"
    and "ao_relocated out1 \<noteq> None" and "ao_failed out1 = 0" and "dex_parser_new dex = Inr h"
    and "unat (dh_class_defs_off h) + 32 * unat (dh_class_defs_size h) \<le> length dex"
    and "read_map_entries dex = Inr es"
    and "i < unat (dh_class_defs_size h)" and "off = unat (dh_class_defs_off h) + 32 * i"
    and "hdr_le32 dex (off + 24) \<noteq> 0"
    and "\<forall>e\<in>set es. mp_typ e = 0x2000 \<or> mp_typ e = 0x2001 \<longrightarrow>
      section_end es (mp_off e) (length dex) \<le> off + 24 \<or> off + 28 \<le> unat (mp_off e)"
  shows "\<exists>cd cd'. parse_class_data dex (hdr_le32 dex (off + 24)) = Inr cd \<and>
    parse_class_data dex' (hdr_le32 dex' (off + 24)) = Inr cd' \<and>
    class_rebuilt lb \<lparr>dp_data = dex, dp_header = h\<rparr> records opts dex' cd cd'"
  by (rule append_relocated [OF assms])

lemma relocation_rebuilds_every_class_witness:
  "\<exists>out1 dex' cd' m'. append_missing_code_items sample_libs item_dex [body_record long_body] exact_fits =
      Inr (out1, dex') \<and> parse_class_data dex' (hdr_le32 dex' (0x98 + 24)) = Inr cd' \<and>
    cd_direct_methods cd' = [m'] \<and> has_code dex' m' (code_item_bytes 2 2 0 3 long_body)"
proof -
  obtain out1 dex' where run: "append_missing_code_items sample_libs item_dex [body_record long_body]
      exact_fits = Inr (out1, dex')" and moved: "ao_relocated out1 \<noteq> None" and ok: "ao_failed out1 = 0"
    by (rule item_relocates)
  have "\<forall>e\<in>set item_map. mp_typ e = 0x2000 \<or> mp_typ e = 0x2001 \<longrightarrow>
      section_end item_map (mp_off e) (length item_dex) \<le> 0x98 + 24 \<or> 0x98 + 28 \<le> unat (mp_off e)"
    by (simp add: item_map_def self_entry_def MAP_TYPE_MAP_LIST_def)
  moreover have "unat (dh_class_defs_off item_parsed) + 32 * unat (dh_class_defs_size item_parsed) \<le>
      length item_dex" "0 < unat (dh_class_defs_size item_parsed)"
    "0x98 = unat (dh_class_defs_off item_parsed) + 32 * 0" "hdr_le32 item_dex (0x98 + 24) \<noteq> 0"
    unfolding item_class_def_field by (simp_all add: item_fields)
  ultimately have "\<exists>cd cd'. parse_class_data item_dex 0xE0 = Inr cd \<and>
      parse_class_data dex' (hdr_le32 dex' (0x98 + 24)) = Inr cd' \<and>
      class_rebuilt sample_libs item_parser [body_record long_body] exact_fits dex' cd cd'"
    using relocation_rebuilds_every_class [OF run moved ok item_accepted _ item_read_map]
    unfolding item_parser_def item_class_def_field [symmetric] by blast
  then obtain cd cd' where "parse_class_data item_dex 0xE0 = Inr cd"
    and new: "parse_class_data dex' (hdr_le32 dex' (0x98 + 24)) = Inr cd'"
    and cd: "class_rebuilt sample_libs item_parser [body_record long_body] exact_fits dex' cd cd'"
    by (elim exE conjE)
  then have "cd = item_class" by (simp add: item_parse_class)
  note built = cd [unfolded this]
  have body: "body_for sample_libs item_parser [body_record long_body] exact_fits item_method =
      Some (code_item_bytes 2 2 0 3 long_body)"
  proof -
    have "length (utf8_bytes (hex_encode long_body)) div 2 = 6"
      by (simp add: hex_encode_def long_body_def short_body_def hex_digit_def utf8_bytes_def utf8_char_def)
    then show ?thesis
      using item_code(1) synthesized_bodies(2)
      by (simp add: body_for_def item_method_def by_method_def body_record_def Let_def)
  qed
  have "concrete item_method" by (simp add: concrete_def item_method_def ACC_NATIVE_def ACC_ABSTRACT_def)
  with built body obtain m' where "cd_direct_methods cd' = [m']"
    and "has_code dex' m' (code_item_bytes 2 2 0 3 long_body)"
    by (auto simp: class_rebuilt_def item_class_def list_all2_Cons1 method_rebuilt_def)
  with run new show ?thesis by blast
qed

text \<open>
  C28: A rebuilt map reads back: the new map list lies at the aligned end of the file, ends it, and lists
  the entries that stay, those of relocated sections in their new place, and itself, in the
  order of their offsets; besides the map offset and the cleared old list no byte changes.
\<close>

theorem rebuilt_map_reads_back:
  assumes "rebuild_map dex relocated = Inr (True, dex')" and "read_map_entries dex = Inr es"
    and "case relocated of None \<Rightarrow> True | Some rs \<Rightarrow> list_all (\<lambda>r. unat (mp_off r) < length dex) rs"
  shows "\<exists>new_off. read_map_entries dex' =
      Inr (sort_key mp_off (kept_entries relocated es @ [self_entry new_off])) \<and>
    unat new_off = (length dex + 3) div 4 * 4 \<and>
    length dex' = unat new_off + 4 + 12 * (length (kept_entries relocated es) + 1) \<and>
    (\<forall>i < length dex. i \<notin> {HDR_MAP_OFF..<HDR_MAP_OFF + 4} \<longrightarrow>
      i \<notin> {unat (hdr_le32 dex HDR_MAP_OFF) ..< unat (hdr_le32 dex HDR_MAP_OFF) + 4 + length es * 12} \<longrightarrow>
      dex' ! i = dex ! i)"
  by (rule rebuild_map_changed [OF assms]) blast

lemma rebuilt_map_reads_back_witness:
  "\<exists>dex'. rebuild_map item_dex (Some []) = Inr (True, dex') \<and>
     read_map_entries dex' = Inr [\<lparr>mp_typ = 0x2001, mp_size = 1, mp_off = 0xCC\<rparr>,
       \<lparr>mp_typ = 0x2000, mp_size = 1, mp_off = 0xE0\<rparr>, self_entry 272]"
proof -
  obtain dex' where run: "rebuild_map item_dex (Some []) = Inr (True, dex')"
    by (simp add: rebuild_map_def item_read_map HDR_MAP_OFF_def item_header_fields align_to_def)
      (simp add: item_map_def self_entry_def MAP_TYPE_MAP_LIST_def Let_def align_to_def)
  from rebuilt_map_reads_back [OF run item_read_map] obtain new_off :: u32 where
    new: "read_map_entries dex' = Inr (sort_key mp_off (kept_entries (Some []) item_map @ [self_entry new_off]))"
    and off: "unat new_off = 272" by auto
  then have "new_off = 272" by (simp add: word_unat_eq_iff)
  then show ?thesis
    using run new by (simp add: kept_entries_def item_map_def self_entry_def MAP_TYPE_MAP_LIST_def)
qed

text \<open>
  The header bounds settle: when the id tables lie in a file below 4 GiB, the header afterwards
  declares the file's length and the data section behind the tables, nothing else changes, and a
  second run finds nothing to do.
\<close>

theorem header_bounds_settle:
  assumes "parse_dex_header dex = Inr h" and "(tables_end h + 3) div 4 * 4 \<le> length dex"
    and "length dex < 2 ^ 32" and "fix_header_bounds dex = (changed, dex')"
  shows "parse_dex_header dex' = Inr (fixed_bounds (length dex) h) \<and> length dex' = length dex \<and>
    drop 112 dex' = drop 112 dex \<and> fix_header_bounds dex' = (False, dex')"
  using fix_header_bounds [OF assms(1-3)] assms(4) by simp

lemma header_bounds_settle_witness:
  "parse_dex_header item_dex = Inr (fixed_bounds 272 item_parsed)"
  using header_bounds_settle [OF item_parse _ _ item_header_unchanged]
  by (simp add: item_tables_end)

text \<open>
  C12: A repair that reports success has written a valid file: the parser accepts it, the header gives
  its length and data section, signature and checksum hold, the map is ordered and lists itself,
  and for every class of the table the data can be read, every method index is one of the method
  table, and every code item with its try table and handlers lies in the file.
\<close>

theorem repaired_file_is_valid:
  assumes "repair_file lb dex records opts = Inr (stats, dex')"
  shows "\<exists>h. dex_parser_new dex' = Inr h \<and> unat (dh_file_size h) = length dex' \<and>
    unat (dh_data_off h) + unat (dh_data_size h) = length dex' \<and> checksums_ok lb dex' \<and>
    (\<exists>es. read_map_entries dex' = Inr es \<and> ordered es \<and> self_entry (dh_map_off h) \<in> set es) \<and>
    class_table_ok dex' (dh_method_ids_size h) (unat (dh_class_defs_off h)) (unat (dh_class_defs_size h)) \<and>
    rs_append_failed stats = 0"
  using repair_file_valid [OF assms] by (auto simp: valid_dex_def)

lemma repaired_file_is_valid_witness:
  "\<exists>h. dex_parser_new item_dex = Inr h \<and> checksums_ok sample_libs item_dex"
proof -
  obtain stats where "repair_file sample_libs item_dex None exact_fits = Inr (stats, item_dex)"
    using item_repair by blast
  from repaired_file_is_valid [OF this] show ?thesis by blast
qed
section \<open>A directory of dumps\<close>

text \<open>
  C13: Every dumped DEX reaches the final directory: in a directory with the DEX files and records
  the dumper wrote (whichever names lie beside each other), the fixer finds each DEX, pairs it with
  the records saved for the same process, address and size and with no others, and leaves a final
  file under its name: the fixed bytes, or the dumped bytes if it has no records or the fix fails.
\<close>

theorem every_dump_reaches_the_final_directory:
  assumes "hex_encoder enc" and "list_all file_ok fs" and "\<forall>k. fe_going fe k"
    and "\<forall>f\<in>set fs. fe_dex fe (dex_file_name enc f) = Content (content f)"
    and "lists_dex_files (dump_directory enc fs js) dex_files" and "dex_files \<noteq> []"
  shows "\<exists>result fd'. fix_dex_directory fe opts (dump_directory enc fs js) dex_files fd = (result, fd') \<and>
    (\<forall>f\<in>set fs. fd_final fd' (dex_file_name enc f) = Some
      (case records_of_file js f of None \<Rightarrow> content f
       | Some json \<Rightarrow>
           (case fix_one_dex_bytes (fe_libs fe) (content f) (read_records fe json) opts of
              Inl _ \<Rightarrow> content f | Inr (_, fixed) \<Rightarrow> fixed)))"
proof -
  let ?dir = "dump_directory enc fs js"
  define bytes where "bytes name = (case fe_dex fe name of Content b \<Rightarrow> b | _ \<Rightarrow> [])" for name
  have readable: "fe_dex fe dex = Content (bytes dex)" if "find_root_dex_files ?dir base = Some dex" for base dex
    using dump_directory_dex [OF that] assms(4) by (auto simp: bytes_def)
  have final: "final_bytes fe opts (find_pairs ?dir) (dex_stem enc f) (content f) =
      (case records_of_file js f of None \<Rightarrow> content f
       | Some json \<Rightarrow>
           (case fix_one_dex_bytes (fe_libs fe) (content f) (read_records fe json) opts of
              Inl _ \<Rightarrow> content f | Inr (_, fixed) \<Rightarrow> fixed))" if "f \<in> set fs" for f
    using fix_plan_directory [OF assms(1,2) that, of js]
    by (auto simp: fix_plan_def final_bytes_def fixed_bytes_def split: option.split sum.split)
  have going: "fe_going fe k" for k using assms(3) by simp
  obtain result fd' where run: "fix_dex_directory fe opts ?dir dex_files fd = (result, fd')"
    and files: "\<And>base dex. find_root_dex_files ?dir base = Some dex \<Longrightarrow>
      fd_final fd' (base @ dex_ext) = Some (final_bytes fe opts (find_pairs ?dir) base (bytes dex))"
    by (rule fix_directory_final [OF going assms(5,6), of bytes opts fd])
      (erule readable, rule that, assumption, blast)
  have "fd_final fd' (dex_file_name enc f) =
      Some (final_bytes fe opts (find_pairs ?dir) (dex_stem enc f) (content f))" if "f \<in> set fs" for f
    using files [of "dex_stem enc f" "dex_file_name enc f"] fix_plan_directory [OF assms(1,2) that, of js]
      assms(4) that
    by (auto simp: fix_plan_def bytes_def dex_file_name_def dex_ext_def simp del: str_lit_simps)
  with run final show ?thesis by auto
qed

definition sample_fix_env :: fix_env where
  "sample_fix_env = \<lparr>fe_libs = sample_libs, fe_dex = (\<lambda>_. Content item_dex), fe_records = (\<lambda>_. Missing),
     fe_json = (\<lambda>_. None), fe_going = (\<lambda>_. True), fe_report_ok = (\<lambda>_. True)\<rparr>"

lemma every_dump_reaches_the_final_directory_witness:
  "\<exists>result fd'. fix_dex_directory sample_fix_env exact_fits
      (dump_directory hex_encode [Dex_plain 42 0x5000 272] [(42, 0x5000, 272)])
      [(dex_stem hex_encode (Dex_plain 42 0x5000 272), dex_file_name hex_encode (Dex_plain 42 0x5000 272))]
      no_output = (result, fd') \<and>
    fd_final fd' (dex_file_name hex_encode (Dex_plain 42 0x5000 272)) = Some item_dex"
proof -
  let ?f = "Dex_plain 42 0x5000 272" and ?js = "[(42, 0x5000, 272)] :: (u32 \<times> u64 \<times> u32) list"
  have failed: "fix_one_dex_bytes sample_libs item_dex (read_records sample_fix_env json) exact_fits = Inl e"
    if "fix_one_dex_bytes sample_libs item_dex (Inl (Msg ''failed to parse'')) exact_fits = Inl e" for json e
    using that by (simp add: read_records_def sample_fix_env_def)
  have err: "\<exists>e. fix_one_dex_bytes sample_libs item_dex (Inl (Msg ''failed to parse'')) exact_fits = Inl e"
    by (auto simp: fix_one_dex_bytes_def and_then_def Let_def split: sum.split)
  have "lists_dex_files (dump_directory hex_encode [?f] ?js) [(dex_stem hex_encode ?f, dex_file_name hex_encode ?f)]"
    using dump_directory_lists [OF hex_encode_encoder, of "[?f]" ?js]
    by (simp add: file_ok_def lists_dex_files_def)
  from every_dump_reaches_the_final_directory [OF hex_encode_encoder _ _ _ this, of sample_fix_env "\<lambda>_. item_dex"
      exact_fits no_output] err failed
  show ?thesis by (auto simp: file_ok_def sample_fix_env_def records_of_file_def)
qed

text \<open>
  C15: A repair pass that reports success has covered the whole directory: every DEX has a valid
  repaired file with the result of repairing it, its own or, when duplicates are skipped, that
  of a DEX with the same content and records.
\<close>

theorem successful_repair_covers_the_directory:
  assumes "repair_directory fe opts dex_files written = (Inr (), written')"
    and "distinct (map fst dex_files)" and "inj_on (lib_sha1 (fe_libs fe)) (contents fe dex_files)"
    and "(base, path) \<in> set dex_files"
  shows "\<exists>base' stats dex' h. base' \<in> fst ` set dex_files \<and>
    repair_one fe opts (base, path) = Inr (stats, dex') \<and> written' (base' @ dex_ext) = Some dex' \<and>
    valid_dex (fe_libs fe) dex' h \<and> (fo_dedup opts \<or> base' = base)"
  using repair_directory_covers [OF assms] by (metis fst_conv image_eqI)

lemma successful_repair_covers_the_directory_witness:
  "\<exists>written' base' h. repair_directory sample_fix_env \<lparr>fo_force_mismatch = False, fo_dedup = True\<rparr>
      [(str_lit ''dex_1_2'', [1]), (str_lit ''dex_1_3'', [2])] (\<lambda>_. None) = (Inr (), written') \<and>
    written' (base' @ dex_ext) = Some item_dex \<and> valid_dex sample_libs item_dex h"
proof -
  let ?opts = "\<lparr>fo_force_mismatch = False, fo_dedup = True\<rparr>"
  let ?files = "[(str_lit ''dex_1_2'', [1]), (str_lit ''dex_1_3'', [2])] :: (rust_string \<times> rust_string) list"
  obtain stats where "repair_file sample_libs item_dex None ?opts = Inr (stats, item_dex)"
    using item_repair by blast
  then have one: "repair_one sample_fix_env ?opts x = Inr (stats, item_dex)" for x
    by (cases x) (simp add: repair_one_def sample_fix_env_def)
  have inputs: "inputs_of sample_fix_env x = Some (item_dex, None)" for x
    by (cases x) (simp add: inputs_of_def sample_fix_env_def)
  have going: "fe_going sample_fix_env k" for k by (simp add: sample_fix_env_def)
  have "sort_key fst ?files = ?files" by simp
  then have run: "\<exists>written'. repair_directory sample_fix_env ?opts ?files (\<lambda>_. None) = (Inr (), written')"
    by (simp add: repair_directory_def repair_inputs_def dedup_Cons inputs one going
        del: dedup_dex_files.simps(2) str_lit_simps)
  then obtain written' where run: "repair_directory sample_fix_env ?opts ?files (\<lambda>_. None) = (Inr (), written')"
    by blast
  have "inj_on (lib_sha1 (fe_libs sample_fix_env)) (contents sample_fix_env ?files)"
    by (auto simp: contents_def inputs inj_on_def)
  from successful_repair_covers_the_directory [OF run _ this, of "str_lit ''dex_1_2''" "[1]"] run one
  show ?thesis by (auto simp: sample_fix_env_def)
qed

section \<open>Searching a whole process\<close>

definition sample_mapping :: map_line where
  "sample_mapping = (sample_begin, sample_begin + 112,
     [str_lit ''r--p'', str_lit ''0'', str_lit ''fd:00'', str_lit ''17''], [str_lit ''/data/app/x.apk''])"

lemma sample_dex_at: "dex_at (region sample_begin sample_dex) sample_begin 112 sample_dex"
proof -
  have "validate_dex_header sample_dex = Some 112"
    by (simp add: validate_dex_header_iff dex_magic_def file_size_ok_def le32_def slice_get_def
        sample_dex_def)
  then show ?thesis using sample_image by (simp add: dex_at_def)
qed

lemma sample_mapping_facts:
  "line_ok sample_mapping" "disjoint_maps [line_entry sample_mapping]"
  "\<not> all_system [line_entry sample_mapping] sample_begin (sample_begin + 112)"
proof -
  have below: "sample_begin < sample_begin + 112" by (simp add: sample_begin_def)
  show "line_ok sample_mapping"
    by (simp add: line_ok_def sample_mapping_def is_word_def is_whitespace_def)
  show "disjoint_maps [line_entry sample_mapping]" using below by (simp add: line_entry_def sample_mapping_def)
  have "\<not> is_system_dex_path (me_path (line_entry sample_mapping))"
    by (simp add: line_entry_def sample_mapping_def is_system_dex_path_def starts_with_def)
  with below show "\<not> all_system [line_entry sample_mapping] sample_begin (sample_begin + 112)"
    by (auto simp: all_system_def intro!: exI [of _ sample_begin])
qed

text \<open>
  C14: The mode that only reads the maps writes a file with the exact bytes of a valid readable DEX
  under these conditions: the process is the selected one or belongs to the selected user; its maps
  are well formed and do not overlap; the mapping in which the DEX starts is readable as a whole and
  at most 512 MiB (\<open>MAPS_SCAN_MAX_REGION\<close>) long; the magic lies within one 4096-byte page of that
  mapping; the DEX ends within readable mappings that follow it without a gap; and not every byte
  of it belongs to mappings of the system's files.
\<close>

theorem maps_only_mode_saves_the_dex_it_finds:
  assumes "host_reads_maps h pf" and "host_writes h" and "\<forall>p. going p" and "\<forall>p. rm_running rm p"
    and "pid_opt = Some pid \<or> (pid_opt = None \<and> pid \<in> set (pids_for_uid pf uid))"
    and "pf_maps pf pid = Some (maps_text ls)"
    and "list_all line_ok ls" and "disjoint_maps (map line_entry ls)"
    and "reads_memory rm pid m" and "dex_at m b sz D"
    and "filter line_readable ls = before @ (start, stop, columns, path) # behind"
    and "start < stop" and "stop - start \<le> MAPS_SCAN_MAX_REGION"
    and "read_bytes m start (unat stop - unat start) = Some bytes"
    and "unat start \<le> unat b" and "unat b + 4 \<le> unat stop"
    and "(unat b - unat start) mod 0x1000 \<le> 0xFFC"
    and "unat b + unat sz \<le> unat (contiguous_end stop (map line_region behind))"
    and "\<not> all_system (map line_entry ls) b (b + ucast sz)"
  shows "\<exists>f. (f, D) \<in> set (files (snd (maps_only_run h rm pf going uid pid_opt)))"
proof -
  have run: "rm_running rm p" and go: "going p'" for p p' using assms(3,4) by simp_all
  have "(b, sz, D) \<in> set (scan_process_maps rm pid (maps_text ls))"
    using process_scan_complete [OF assms(7-9) run assms(10-18)] assms(19) by simp
  from maps_only_saves [OF assms(1,2) go assms(5-8) this assms(19) dex_at_facts(4) [OF assms(10)]]
  show ?thesis by force
qed

definition sample_proc :: proc_fs where
  "sample_proc = \<lparr>pf_entries = [Some (str_lit ''42'')],
     pf_status = (\<lambda>_. Some (str_lit ''Uid:'' @ [0x09] @ str_lit ''10042'')),
     pf_maps = (\<lambda>_. Some (maps_text [sample_mapping]))\<rparr>"

definition maps_host :: host where
  "maps_host = sample_host\<lparr>h_write_ok := (\<lambda>_. True),
     h_skip_system := (\<lambda>pid b sz. snd (should_skip_system (Some (maps_text [sample_mapping])) [] b sz) \<noteq> None)\<rparr>"

lemma maps_only_mode_saves_the_dex_it_finds_witness:
  "\<exists>f. (f, sample_dex) \<in> set (files (snd (maps_only_run maps_host
     (whole_reader (region sample_begin sample_dex)) sample_proc (\<lambda>_. True) 10042 (Some 42))))"
proof -
  let ?m = "region sample_begin sample_dex"
  have readable: "filter line_readable [sample_mapping] = [] @ (sample_begin, sample_begin + 112,
     [str_lit ''r--p'', str_lit ''0'', str_lit ''fd:00'', str_lit ''17''], [str_lit ''/data/app/x.apk'']) # []"
    by (simp add: line_readable_def sample_mapping_def)
  have stop: "unat (sample_begin + 112) = unat sample_begin + 112" "sample_begin < sample_begin + 112"
    by (simp_all add: sample_begin_def)
  show ?thesis
    using maps_only_mode_saves_the_dex_it_finds [OF _ _ _ _ _ _ _ _ whole_reader_reads [of ?m 42] sample_dex_at readable,
        of maps_host sample_proc "\<lambda>_. True" "Some 42" 10042] sample_mapping_facts stop sample_image
    by (simp add: host_reads_maps_def host_writes_def maps_host_def sample_proc_def whole_reader_def
        MAPS_SCAN_MAX_REGION_def)
qed
section \<open>Native libraries\<close>

text \<open>
  C16: A library rebuilt from its memory image reads back: the section header table ends the file,
  and holds the null section, the sections of the dynamic segment in the order of their addresses,
  the injected tables and the name table; every header gives the type, flags, address, size, links
  and name that were derived for its section. A section of the dynamic segment whose successor starts at a
  higher address ends before every section behind it (sections at one address may overlap).
\<close>

theorem rebuilt_library_reads_back:
  assumes "rebuild_so_sections img injected = Inr res" and "length res < 2 ^ 32"
  shows "\<exists>l po es n data loads da ds get k locals secs.
    elf_header img = Inr (l, po, es, n) \<and> phdr_loop l po es 0 n (img, [], 0, 0) = Inr (data, loads, da, ds) \<and>
    dyn_loop l data (unat (da + ds)) (unat da) (\<lambda>_. None) = Inr get \<and> dynamic_symcount l data get = Inr k \<and>
    secs = alloc_secs l get k locals da ds (fst (load_bounds loads)) (snd (load_bounds loads)) \<and>
    hd secs = default_sec \<and> in_order (tl secs) \<and>
    e_shoff l res + e_shnum l res * e_shentsize l res = length res \<and> e_shentsize l res = shdr_size l \<and>
    e_shnum l res = length (all_sections l secs injected) \<and>
    (\<forall>i<length (all_sections l secs injected).
       section_reads l (index_of_name 0 (all_sections l secs injected) (\<lambda>_. None)) res
         (unat (sh_offset (section_table l res ! e_shstrndx l res)))
         (all_sections l secs injected ! i) (section_table l res ! i))"
proof -
  obtain l po es n loads da ds data get k locals secs where
    "elf_header img = Inr (l, po, es, n)" "phdr_loop l po es 0 n (img, [], 0, 0) = Inr (data, loads, da, ds)"
    "dyn_loop l data (unat (da + ds)) (unat da) (\<lambda>_. None) = Inr get" "dynamic_symcount l data get = Inr k"
    and secs: "secs = alloc_secs l get k locals da ds (fst (load_bounds loads)) (snd (load_bounds loads))"
    and "e_shoff l res + e_shnum l res * e_shentsize l res = length res"
    "e_shnum l res = length (all_sections l secs injected)" "e_shentsize l res = shdr_size l"
    "\<And>i. i < length (all_sections l secs injected) \<Longrightarrow>
      section_reads l (index_of_name 0 (all_sections l secs injected) (\<lambda>_. None)) res
        (unat (sh_offset (section_table l res ! e_shstrndx l res)))
        (all_sections l secs injected ! i) (section_table l res ! i)"
    using rebuild_reads [OF assms] by metis
  moreover have "hd secs = default_sec" "in_order (tl secs)" unfolding secs by (rule alloc_secs_facts)+
  ultimately show ?thesis by blast
qed

lemma rebuilt_library_reads_back_witness:
  "\<exists>res l secs. rebuild_so_sections so_image [so_symbol] = Inr res \<and> hd secs = default_sec \<and> in_order (tl secs) \<and>
     e_shoff l res + e_shnum l res * e_shentsize l res = length res \<and>
     e_shnum l res = length (all_sections l secs [so_symbol])"
proof -
  obtain res where res: "rebuild_so_sections so_image [so_symbol] = Inr res" "length res < 2 ^ 32"
    by (rule so_image_rebuilds)
  from rebuilt_library_reads_back [OF res] res(1) show ?thesis by blast
qed

text \<open>
  C26: The rebuild keeps the image: every byte of the dump is at its place in the rebuilt file, except
  those of the file header, the program headers and the dynamic symbols.
\<close>

theorem rebuild_keeps_the_image:
  assumes "rebuild_so_sections img injected = Inr res" and "length res < 2 ^ 32"
  shows "\<exists>l po es n data loads da ds get k. elf_header img = Inr (l, po, es, n) \<and>
    phdr_loop l po es 0 n (img, [], 0, 0) = Inr (data, loads, da, ds) \<and>
    dyn_loop l data (unat (da + ds)) (unat da) (\<lambda>_. None) = Inr get \<and> dynamic_symcount l data get = Inr k \<and>
    same_outside (header_bytes l po es n get k) img (take (length img) res)"
  using rebuild_reads [OF assms] by metis

lemma rebuild_keeps_the_image_witness:
  "\<exists>res l po es n get k. rebuild_so_sections so_image [so_symbol] = Inr res \<and> elf_header so_image = Inr (l, po, es, n) \<and>
     same_outside (header_bytes l po es n get k) so_image (take (length so_image) res)"
proof -
  obtain res where res: "rebuild_so_sections so_image [so_symbol] = Inr res" "length res < 2 ^ 32"
    by (rule so_image_rebuilds)
  from rebuild_keeps_the_image [OF res] res(1) show ?thesis by blast
qed

text \<open>
  Two sections at one address are not kept apart: the size pass leaves the first of them its size,
  whatever lies behind. Relocations with \<^verbatim>\<open>DT_RELA = DT_JMPREL\<close> give two sections with the same
  range of addresses.
\<close>

theorem sections_at_one_address_overlap:
  assumes "sd_addr t = sd_addr s"
  shows "size_pass max_vaddr load_file_end (s # t # rest) = s # size_pass max_vaddr load_file_end (t # rest)"
  using assms by (rule size_pass_same_address)

lemma sections_at_one_address_overlap_witness:
  "let s = default_sec\<lparr>sd_addr := 0x100, sd_size := 0x30, sd_has_size := True\<rparr>; next_sec = default_sec\<lparr>sd_addr := 0x110\<rparr>
   in hd (size_pass 0x200 0x200 [s, s, next_sec]) = s \<and> sd_addr s + sd_size s > sd_addr next_sec"
  using sections_at_one_address_overlap [of "default_sec\<lparr>sd_addr := 0x100, sd_size := 0x30, sd_has_size := True\<rparr>"
      "default_sec\<lparr>sd_addr := 0x100, sd_size := 0x30, sd_has_size := True\<rparr>" "0x200" "0x200"]
  by (simp add: Let_def default_sec_def)

text \<open>
  C17: The symbols the caller supplies are readable in the rebuilt library: behind the sections of
  the image, those derived from its dynamic segment, lies a symbol table linked to its string table,
  in which entry \<open>i + 1\<close> is symbol \<open>i\<close> as a global function with its address, its name and the index of
  the first allocatable section its address lies in (0 if it lies in none). The header at each index
  describes that section.
\<close>

theorem injected_symbols_are_readable:
  assumes "rebuild_so_sections img injected = Inr res" and "length res < 2 ^ 32" and "injected \<noteq> []"
  shows "\<exists>l po es n data loads da ds get k locals secs j.
    elf_header img = Inr (l, po, es, n) \<and> phdr_loop l po es 0 n (img, [], 0, 0) = Inr (data, loads, da, ds) \<and>
    dyn_loop l data (unat (da + ds)) (unat da) (\<lambda>_. None) = Inr get \<and> dynamic_symcount l data get = Inr k \<and>
    secs = alloc_secs l get k locals da ds (fst (load_bounds loads)) (snd (load_bounds loads)) \<and>
    j = length secs \<and> Suc j < e_shnum l res \<and>
    (\<forall>i<length secs. section_reads l (index_of_name 0 (all_sections l secs injected) (\<lambda>_. None)) res
       (unat (sh_offset (section_table l res ! e_shstrndx l res))) (secs ! i) (section_table l res ! i)) \<and>
    sh_type (section_table l res ! j) = SHT_SYMTAB \<and> sh_link (section_table l res ! j) = of_nat (Suc j) \<and>
    (\<forall>i<length injected. symbol_reads l secs res (section_table l res ! j) (section_table l res ! Suc j)
       (Suc i) (injected ! i))"
proof -
  obtain l po es n loads da ds data get k locals secs where
    parts: "elf_header img = Inr (l, po, es, n)" "phdr_loop l po es 0 n (img, [], 0, 0) = Inr (data, loads, da, ds)"
    "dyn_loop l data (unat (da + ds)) (unat da) (\<lambda>_. None) = Inr get" "dynamic_symcount l data get = Inr k"
    and secs: "secs = alloc_secs l get k locals da ds (fst (load_bounds loads)) (snd (load_bounds loads))"
    and num: "e_shnum l res = length (all_sections l secs injected)"
    and reads: "\<And>i. i < length (all_sections l secs injected) \<Longrightarrow>
      section_reads l (index_of_name 0 (all_sections l secs injected) (\<lambda>_. None)) res
        (unat (sh_offset (section_table l res ! e_shstrndx l res)))
        (all_sections l secs injected ! i) (section_table l res ! i)"
    using rebuild_reads [OF assms(1,2)] by metis
  have "length secs \<le> 24" unfolding secs by (rule alloc_secs_facts)
  then have few: "length secs < 2 ^ 16" by simp
  have behind: "Suc (length secs) < e_shnum l res"
    using assms(3) by (simp add: num all_sections_def injected_secs_def split: prod.split)
  have hdrs: "\<forall>i<length secs. section_reads l (index_of_name 0 (all_sections l secs injected) (\<lambda>_. None)) res
      (unat (sh_offset (section_table l res ! e_shstrndx l res))) (secs ! i) (section_table l res ! i)"
  proof (intro allI impI)
    fix i assume "i < length secs"
    with reads [of i] show "section_reads l (index_of_name 0 (all_sections l secs injected) (\<lambda>_. None)) res
      (unat (sh_offset (section_table l res ! e_shstrndx l res))) (secs ! i) (section_table l res ! i)"
      by (simp add: all_sections_def nth_append)
  qed
  note syms = injected_symbols_read [OF assms(3,2) few reads]
  show ?thesis
    by (rule exI [of _ l], rule exI [of _ po], rule exI [of _ es], rule exI [of _ n], rule exI [of _ data],
        rule exI [of _ loads], rule exI [of _ da], rule exI [of _ ds], rule exI [of _ get], rule exI [of _ k],
        rule exI [of _ locals], rule exI [of _ secs], rule exI [of _ "length secs"])
      (intro conjI parts secs refl behind hdrs syms(1,2) allI impI syms(3))
qed

lemma injected_symbols_are_readable_witness:
  "\<exists>res l secs. rebuild_so_sections so_image [so_symbol] = Inr res \<and>
     symbol_reads l secs res (section_table l res ! length secs) (section_table l res ! Suc (length secs)) 1 so_symbol"
proof -
  obtain res where res: "rebuild_so_sections so_image [so_symbol] = Inr res" "length res < 2 ^ 32"
    by (rule so_image_rebuilds)
  from injected_symbols_are_readable [OF res] obtain l secs where "symbol_reads l secs res
      (section_table l res ! length secs) (section_table l res ! Suc (length secs)) (Suc 0) ([so_symbol] ! 0)"
    by force
  with res(1) show ?thesis by auto
qed




text \<open>
  C39: One malformed library stops the pass over a directory: if the program header table of an ELF64
  image is said to lie at the end of the address space, the end of its first entry wraps around,
  the bounds check passes, and reading the entry panics; no fallback is tried and no later library
  is fixed.
\<close>

theorem malformed_library_stops_the_pass:
  assumes "elf_header img = Inr (l, po, es, n)" and "is64 l" and "2 ^ 64 \<le> unat po + 56"
    and "length img < 2 ^ 64 - 56" and "(name, Some img) \<in> set (collect_so_files True tree)"
  shows "fix_so_directory tree injected stem dir = Inl Panic"
  using fix_so_directory_panics [OF phdr_table_panics [OF assms(1-4)] assms(1,5)] .

lemma malformed_library_stops_the_pass_witness:
  "fix_so_directory [So_file (str_lit ''f.so'') (Some (so_header 0xFFFFFFFFFFFFFFC8 1))] [] [] (\<lambda>_. None) = Inl Panic"
  by (rule malformed_library_stops_the_pass [OF so_last_header])
    (simp_all add: path_extension_def)

text \<open>
  A library dumped under the name of a module gets the symbols of that module, and so does a
  library whose module name merely ends with it after an underscore.
\<close>

theorem symbols_go_by_the_end_of_the_name:
  assumes "list_all so_name_char stem"
  shows "so_matches_module (pre @ str_lit ''_'' @ stem @ str_lit ''.so'') stem"
    and "so_matches_module (pre @ str_lit ''_'' @ other @ str_lit ''_'' @ stem @ str_lit ''.so'') stem"
  using so_matches_module_end [OF assms, of pre] so_matches_module_end [OF assms, of "pre @ str_lit ''_'' @ other"]
  by simp_all

lemma symbols_go_by_the_end_of_the_name_witness:
  "so_matches_module (str_lit ''so_1_7f00_1000_libfoo_bar.so'') (str_lit ''bar'')"
  using symbols_go_by_the_end_of_the_name(2) [of "str_lit ''bar''" "str_lit ''so_1_7f00_1000''" "str_lit ''libfoo''"]
  by (simp add: str_lit_simps so_name_char_def)

end
